(* ===== verification/Prelude.thy ===== *)
theory Prelude
  imports Main "HOL-Library.Word"
begin

text \<open>
  Shared vocabulary of the development: the Rust integer types, the checked and saturating
  arithmetic the sources call, the result type of fallible code, and the sequencing of
  fallible calls with and without state. Everything is executable; the lemmas are declared
  so that the component theories can rely on the simplifier.
\<close>

section \<open>Machine integers\<close>

type_synonym u8 = "8 word"
type_synonym u32 = "32 word"
type_synonym u64 = "64 word"

text \<open>
  \<open>usize\<close> is the 64-bit one of the supported targets. Values of this type are
  lengths and counters that the sources combine with saturating operations only; they are
  natural numbers here, with the saturation written out against \<open>usize_MAX\<close>.
\<close>

type_synonym usize = nat

definition usize_MAX :: usize where
  "usize_MAX = 2 ^ 64 - 1"

definition usize_saturating_add :: "usize \<Rightarrow> usize \<Rightarrow> usize" where
  "usize_saturating_add a b = min usize_MAX (a + b)"

definition usize_saturating_sub :: "usize \<Rightarrow> usize \<Rightarrow> usize" where
  "usize_saturating_sub a b = a - b"

text \<open>\<open>std::time::Duration\<close> in nanoseconds.\<close>

type_synonym Duration = nat

text \<open>\<open>u32::try_from\<close> on a length.\<close>

definition u32_try_from :: "usize \<Rightarrow> u32 option" where
  "u32_try_from n = (if n < 2 ^ 32 then Some (of_nat n) else None)"

text \<open>Rust's \<open>checked_*\<close> and \<open>saturating_*\<close> operations on fixed-width words.\<close>

definition checked_add :: "'a::len word \<Rightarrow> 'a word \<Rightarrow> 'a word option" where
  "checked_add a b = (if unat a + unat b < 2 ^ LENGTH('a) then Some (a + b) else None)"

definition checked_sub :: "'a::len word \<Rightarrow> 'a word \<Rightarrow> 'a word option" where
  "checked_sub a b = (if b \<le> a then Some (a - b) else None)"

definition checked_mul :: "'a::len word \<Rightarrow> 'a word \<Rightarrow> 'a word option" where
  "checked_mul a b = (if unat a * unat b < 2 ^ LENGTH('a) then Some (a * b) else None)"

definition saturating_add :: "'a::len word \<Rightarrow> 'a word \<Rightarrow> 'a word" where
  "saturating_add a b = (case checked_add a b of Some c \<Rightarrow> c | None \<Rightarrow> - 1)"

definition saturating_sub :: "'a::len word \<Rightarrow> 'a word \<Rightarrow> 'a word" where
  "saturating_sub a b = (if b \<le> a then a - b else 0)"

text \<open>
  \<open>bytes.len() as u64\<close>. A Rust allocation holds at most \<open>isize::MAX\<close> bytes, which
  is what \<open>allocatable\<close> records; below that bound the cast loses nothing.
\<close>

definition len_u64 :: "'b list \<Rightarrow> u64" where
  "len_u64 xs = of_nat (length xs)"

definition allocatable :: "'b list \<Rightarrow> bool" where
  "allocatable xs \<longleftrightarrow> length xs < 2 ^ 63"

section \<open>Fallible code\<close>

text \<open>\<open>Result<T, E>\<close> is \<open>'e + 'a\<close>, the error on the left.\<close>

primrec res_bind :: "'e + 'a \<Rightarrow> ('a \<Rightarrow> 'e + 'b) \<Rightarrow> 'e + 'b" where
  "res_bind (Inl e) f = Inl e"
| "res_bind (Inr a) f = f a"

primrec res_map_err :: "('e \<Rightarrow> 'f) \<Rightarrow> 'e + 'a \<Rightarrow> 'f + 'a" where
  "res_map_err h (Inl e) = Inl (h e)"
| "res_map_err h (Inr a) = Inr a"

primrec ok_or :: "'e \<Rightarrow> 'a option \<Rightarrow> 'e + 'a" where
  "ok_or e None = Inl e"
| "ok_or e (Some a) = Inr a"

primrec is_ok :: "'e + 'a \<Rightarrow> bool" where
  "is_ok (Inl e) = False"
| "is_ok (Inr a) = True"

text \<open>
  A call that may fail and acts on a state \<open>'w\<close>: a \<open>&mut self\<close> method, or an
  \<open>async\<close> call to a port, where \<open>'w\<close> is everything the port can see. The state is
  returned on the error branch too, since a Rust method may have written before it fails.
\<close>

type_synonym ('w, 'e, 'a) io = "'w \<Rightarrow> ('e + 'a) \<times> 'w"

definition io_return :: "'a \<Rightarrow> ('w, 'e, 'a) io" where
  "io_return a w = (Inr a, w)"

definition io_fail :: "'e \<Rightarrow> ('w, 'e, 'a) io" where
  "io_fail e w = (Inl e, w)"

definition io_bind :: "('w, 'e, 'a) io \<Rightarrow> ('a \<Rightarrow> ('w, 'e, 'b) io) \<Rightarrow> ('w, 'e, 'b) io" where
  "io_bind m f w = (case m w of (Inl e, w') \<Rightarrow> (Inl e, w') | (Inr a, w') \<Rightarrow> f a w')"

definition io_lift :: "'e + 'a \<Rightarrow> ('w, 'e, 'a) io" where
  "io_lift r w = (r, w)"

text \<open>\<open>io_try h m\<close> is \<open>m.await?\<close> under a \<open>From\<close> conversion \<open>h\<close> of the error.\<close>

definition io_try :: "('e \<Rightarrow> 'f) \<Rightarrow> ('w, 'e, 'a) io \<Rightarrow> ('w, 'f, 'a) io" where
  "io_try h m w = (case m w of (r, w') \<Rightarrow> (res_map_err h r, w'))"

section \<open>Lemmas on machine integers\<close>

named_theorems unat_ops \<open>reading word arithmetic as natural-number arithmetic\<close>

lemma checked_add_eq_Some [simp]:
  "checked_add a b = Some c \<longleftrightarrow> unat a + unat b < 2 ^ LENGTH('a) \<and> c = a + b"
  for a b c :: "'a::len word"
  by (auto simp: checked_add_def)

lemma checked_add_eq_None [simp]:
  "checked_add a b = None \<longleftrightarrow> 2 ^ LENGTH('a) \<le> unat a + unat b"
  for a b :: "'a::len word"
  by (auto simp: checked_add_def)

lemma checked_sub_eq_Some [simp]: "checked_sub a b = Some c \<longleftrightarrow> b \<le> a \<and> c = a - b"
  by (auto simp: checked_sub_def)

lemma checked_sub_eq_None [simp]: "checked_sub a b = None \<longleftrightarrow> a < b"
  by (auto simp: checked_sub_def)

lemma checked_mul_eq_Some [simp]:
  "checked_mul a b = Some c \<longleftrightarrow> unat a * unat b < 2 ^ LENGTH('a) \<and> c = a * b"
  for a b c :: "'a::len word"
  by (auto simp: checked_mul_def)

lemma checked_mul_eq_None [simp]:
  "checked_mul a b = None \<longleftrightarrow> 2 ^ LENGTH('a) \<le> unat a * unat b"
  for a b :: "'a::len word"
  by (auto simp: checked_mul_def)

lemma unat_add_exact [unat_ops]:
  "unat a + unat b < 2 ^ LENGTH('a) \<Longrightarrow> unat (a + b) = unat a + unat b"
  for a b :: "'a::len word"
  by (simp add: unat_word_ariths)

lemma unat_mult_exact [unat_ops]:
  "unat a * unat b < 2 ^ LENGTH('a) \<Longrightarrow> unat (a * b) = unat a * unat b"
  for a b :: "'a::len word"
  by (simp add: unat_word_ariths)

lemma unat_sub_exact [unat_ops]: "b \<le> a \<Longrightarrow> unat (a - b) = unat a - unat b"
  by (rule unat_sub)

lemma unat_saturating_sub [unat_ops]: "unat (saturating_sub a b) = unat a - unat b"
  by (auto simp: saturating_sub_def unat_sub word_le_nat_alt)

lemma unat_saturating_add_exact [unat_ops]:
  "unat a + unat b < 2 ^ LENGTH('a) \<Longrightarrow> unat (saturating_add a b) = unat a + unat b"
  for a b :: "'a::len word"
  by (simp add: saturating_add_def checked_add_def unat_add_exact)

lemma saturating_add_exact:
  "unat a + unat b < 2 ^ LENGTH('a) \<Longrightarrow> saturating_add a b = a + b"
  for a b :: "'a::len word"
  by (simp add: saturating_add_def checked_add_def)

lemma unat_min [unat_ops]: "unat (min a b) = min (unat a) (unat b)"
  by (simp add: min_def word_le_nat_alt)

lemma unat_max [unat_ops]: "unat (max a b) = max (unat a) (unat b)"
  by (simp add: max_def word_le_nat_alt)

lemma unat_u64_bound [simp]: "unat (x :: u64) < 18446744073709551616"
  using unsigned_less [of x] by simp

lemma unat_u64_less: "unat (x :: u64) < 2 ^ 64"
  using unsigned_less [of x] by simp

lemma unat_u32_bound [simp]: "unat (x :: u32) < 4294967296"
  using unsigned_less [of x] by simp

lemma unat_eqI: "unat a = unat b \<Longrightarrow> a = b"
  by (rule unsigned_word_eqI)

lemma unat_len_u64 [unat_ops]: "allocatable xs \<Longrightarrow> unat (len_u64 xs) = length xs"
  by (simp add: allocatable_def len_u64_def unat_of_nat)

lemma allocatable_Nil [simp]: "allocatable []"
  by (simp add: allocatable_def)

lemma len_u64_Nil [simp]: "len_u64 [] = 0"
  by (simp add: len_u64_def)

lemmas word_nat_order = word_le_nat_alt word_less_nat_alt

section \<open>Lemmas on fallible code\<close>

lemma res_bind_eq_Inr [simp]:
  "res_bind r f = Inr b \<longleftrightarrow> (\<exists>a. r = Inr a \<and> f a = Inr b)"
  by (cases r) auto

lemma res_bind_eq_Inl:
  "res_bind r f = Inl e \<longleftrightarrow> r = Inl e \<or> (\<exists>a. r = Inr a \<and> f a = Inl e)"
  by (cases r) auto

lemma res_map_err_eq_Inr [simp]: "res_map_err h r = Inr a \<longleftrightarrow> r = Inr a"
  by (cases r) auto

lemma res_map_err_eq_Inl: "res_map_err h r = Inl f \<longleftrightarrow> (\<exists>e. r = Inl e \<and> f = h e)"
  by (cases r) auto

lemma ok_or_eq_Inr [simp]: "ok_or e x = Inr a \<longleftrightarrow> x = Some a"
  by (cases x) auto

lemma is_ok_iff: "is_ok r \<longleftrightarrow> (\<exists>a. r = Inr a)"
  by (cases r) auto

named_theorems io_simps \<open>unfolding of the state-passing combinators\<close>

lemma io_return_apply [simp, io_simps]: "io_return a w = (Inr a, w)"
  by (simp add: io_return_def)

lemma io_fail_apply [simp, io_simps]: "io_fail e w = (Inl e, w)"
  by (simp add: io_fail_def)

lemma io_lift_apply [simp, io_simps]: "io_lift r w = (r, w)"
  by (simp add: io_lift_def)

lemma io_bind_Inr [io_simps]: "m w = (Inr a, w') \<Longrightarrow> io_bind m f w = f a w'"
  by (simp add: io_bind_def)

lemma io_bind_Inl [io_simps]: "m w = (Inl e, w') \<Longrightarrow> io_bind m f w = (Inl e, w')"
  by (simp add: io_bind_def)

lemma io_try_Inr [io_simps]: "m w = (Inr a, w') \<Longrightarrow> io_try h m w = (Inr a, w')"
  by (simp add: io_try_def)

lemma io_try_Inl [io_simps]: "m w = (Inl e, w') \<Longrightarrow> io_try h m w = (Inl (h e), w')"
  by (simp add: io_try_def)

lemma io_bind_InrE:
  assumes "io_bind m f w = (Inr b, w'')"
  obtains a w' where "m w = (Inr a, w')" and "f a w' = (Inr b, w'')"
  using assms by (auto simp: io_bind_def split: prod.splits sum.splits)

lemma io_try_InrE:
  assumes "io_try h m w = (Inr a, w')"
  obtains "m w = (Inr a, w')"
  using assms by (auto simp: io_try_def split: prod.splits)

lemma io_try_eq_Inr [simp]: "io_try h m w = (Inr a, w') \<longleftrightarrow> m w = (Inr a, w')"
  by (auto simp: io_try_def split: prod.splits)

lemma io_bind_eq_Inr:
  "io_bind m f w = (Inr b, w'') \<longleftrightarrow> (\<exists>a w'. m w = (Inr a, w') \<and> f a w' = (Inr b, w''))"
  by (auto simp: io_bind_def split: prod.splits sum.splits)

section \<open>Lemmas on lists\<close>

text \<open>
  \<open>[T]::partition_point\<close> gives the index of the first element that fails the predicate
  in a list that is partitioned by it. \<open>partitioned\<close> is the documented precondition; on a
  partitioned list every index search returns \<open>length (takeWhile P xs)\<close>.
\<close>

definition partitioned :: "('a \<Rightarrow> bool) \<Rightarrow> 'a list \<Rightarrow> bool" where
  "partitioned P xs \<longleftrightarrow> (\<forall>x \<in> set (dropWhile P xs). \<not> P x)"

definition partition_point :: "('a \<Rightarrow> bool) \<Rightarrow> 'a list \<Rightarrow> nat" where
  "partition_point P xs = length (takeWhile P xs)"

lemma partition_point_le [simp]: "partition_point P xs \<le> length xs"
  by (simp add: partition_point_def length_takeWhile_le)

lemma take_partition_point [simp]: "take (partition_point P xs) xs = takeWhile P xs"
  by (metis append_eq_conv_conj partition_point_def takeWhile_dropWhile_id)

lemma drop_partition_point [simp]: "drop (partition_point P xs) xs = dropWhile P xs"
  by (metis append_eq_conv_conj partition_point_def takeWhile_dropWhile_id)

lemma partition_point_partitions:
  assumes "partitioned P xs" and "i < length xs"
  shows "P (xs ! i) \<longleftrightarrow> i < partition_point P xs"
proof -
  have split: "xs = takeWhile P xs @ dropWhile P xs" by simp
  show ?thesis
  proof (cases "i < partition_point P xs")
    case True
    then have "xs ! i = takeWhile P xs ! i"
      by (metis nth_append partition_point_def split)
    with True show ?thesis
      by (metis nth_mem partition_point_def set_takeWhileD)
  next
    case False
    then have "xs ! i = dropWhile P xs ! (i - partition_point P xs)"
      by (metis nth_append partition_point_def split)
    moreover have "i - partition_point P xs < length (dropWhile P xs)"
      using False assms(2) by (simp add: partition_point_def flip: drop_partition_point)
    ultimately have "xs ! i \<in> set (dropWhile P xs)" by simp
    with assms(1) False show ?thesis by (simp add: partitioned_def)
  qed
qed

lemma sorted_wrt_partitioned:
  assumes "sorted_wrt R xs"
    and "\<And>x y. x \<in> set xs \<Longrightarrow> y \<in> set xs \<Longrightarrow> R x y \<Longrightarrow> P y \<Longrightarrow> P x"
  shows "partitioned P xs"
  using assms
proof (induction xs)
  case Nil
  then show ?case by (simp add: partitioned_def)
next
  case (Cons x xs)
  have "partitioned P xs"
  proof (rule Cons.IH)
    show "sorted_wrt R xs" using Cons.prems(1) by simp
    show "\<And>a b. a \<in> set xs \<Longrightarrow> b \<in> set xs \<Longrightarrow> R a b \<Longrightarrow> P b \<Longrightarrow> P a"
      using Cons.prems(2) by (meson list.set_intros(2))
  qed
  moreover have "P x" if "y \<in> set xs" "P y" for y
    using that Cons.prems by auto
  ultimately show ?case by (auto simp: partitioned_def)
qed

end
