(* ===== verification/Tasks_Values.thy ===== *)
theory Tasks_Values
  imports Prelude
begin

text \<open>
  The values of \<open>aster_forge_tasks/src\<close> and their helpers: errors (\<open>error.rs\<close>), retry classes
  (\<open>retry.rs\<close>), dedupe keys (\<open>dedupe.rs\<close>), step states (\<open>steps.rs\<close>), and the lease guard with
  the evaluation of heartbeats (\<open>lease.rs\<close>, \<open>heartbeat.rs\<close>).

  Time that the code reads is an argument. An \<open>Instant\<close> is a number of nanoseconds; a
  \<open>DateTime<Utc>\<close> is a value of a type \<open>'t\<close>, since the chrono crate is not part of the sources.
\<close>

section \<open>Numbers and durations\<close>

text \<open>\<open>i64\<close> and \<open>i32\<close> are integers; the operations keep them in range.\<close>

type_synonym i64 = int
type_synonym i32 = int

definition i64_MAX :: i64 where
  "i64_MAX = 2 ^ 63 - 1"

definition i64_MIN :: i64 where
  "i64_MIN = - (2 ^ 63)"

definition i32_MAX :: i32 where
  "i32_MAX = 2 ^ 31 - 1"

definition i64_checked_add :: "i64 \<Rightarrow> i64 \<Rightarrow> i64 option" where
  "i64_checked_add a b = (if i64_MIN \<le> a + b \<and> a + b \<le> i64_MAX then Some (a + b) else None)"

definition i32_saturating_add :: "i32 \<Rightarrow> i32 \<Rightarrow> i32" where
  "i32_saturating_add a b = max (- (2 ^ 31)) (min i32_MAX (a + b))"

definition from_secs :: "nat \<Rightarrow> Duration" where
  "from_secs n = n * 10 ^ 9"

definition from_millis :: "nat \<Rightarrow> Duration" where
  "from_millis n = n * 10 ^ 6"

text \<open>\<open>Duration::MAX\<close>: \<open>u64::MAX\<close> seconds and 999999999 nanoseconds.\<close>

definition Duration_MAX :: Duration where
  "Duration_MAX = 2 ^ 64 * 10 ^ 9 - 1"

definition duration_saturating_mul :: "Duration \<Rightarrow> nat \<Rightarrow> Duration" where
  "duration_saturating_mul d n = min Duration_MAX (d * n)"

definition duration_saturating_add :: "Duration \<Rightarrow> Duration \<Rightarrow> Duration" where
  "duration_saturating_add a b = min Duration_MAX (a + b)"

definition duration_checked_add :: "Duration \<Rightarrow> Duration \<Rightarrow> Duration option" where
  "duration_checked_add a b = (if a + b \<le> Duration_MAX then Some (a + b) else None)"

definition as_millis :: "Duration \<Rightarrow> nat" where
  "as_millis d = d div 10 ^ 6"

type_synonym Instant = nat

text \<open>\<open>Instant::elapsed\<close> at \<open>now\<close>, which saturates at zero.\<close>

definition elapsed :: "Instant \<Rightarrow> Instant \<Rightarrow> Duration" where
  "elapsed now since = now - since"

section \<open>Errors and retry classes\<close>

datatype TaskCoreError =
    Codec string
  | InvalidValue string
  | Io string
  | LeaseLost (err_task_id: i64) (err_processing_token: i64)
  | LeaseRenewalTimedOut (err_task_id: i64) (err_processing_token: i64)
  | CancellationRequested (err_task_id: i64) (err_processing_token: i64)
  | WorkerShutdownRequested (err_task_id: i64) (err_processing_token: i64)

fun is_task_lease_lost :: "TaskCoreError \<Rightarrow> bool" where
  "is_task_lease_lost (LeaseLost _ _) = True"
| "is_task_lease_lost _ = False"

fun is_task_lease_renewal_timed_out :: "TaskCoreError \<Rightarrow> bool" where
  "is_task_lease_renewal_timed_out (LeaseRenewalTimedOut _ _) = True"
| "is_task_lease_renewal_timed_out _ = False"

fun is_task_cancellation_requested :: "TaskCoreError \<Rightarrow> bool" where
  "is_task_cancellation_requested (CancellationRequested _ _) = True"
| "is_task_cancellation_requested _ = False"

fun is_task_worker_shutdown_requested :: "TaskCoreError \<Rightarrow> bool" where
  "is_task_worker_shutdown_requested (WorkerShutdownRequested _ _) = True"
| "is_task_worker_shutdown_requested _ = False"

type_synonym 'a task_result = "TaskCoreError + 'a"

datatype TaskRetryClass = Auto | Manual | Never

definition should_auto_retry :: "TaskRetryClass \<Rightarrow> bool" where
  "should_auto_retry self \<longleftrightarrow> self = Auto"

definition can_manual_retry :: "TaskRetryClass \<Rightarrow> bool" where
  "can_manual_retry self \<longleftrightarrow> self = Auto \<or> self = Manual"

definition default_task_retry_delay_secs :: "i32 \<Rightarrow> i64" where
  "default_task_retry_delay_secs attempt_count =
     (if attempt_count = 1 then 5 else if attempt_count = 2 then 15
      else if attempt_count = 3 then 60 else 300)"

section \<open>Dedupe keys\<close>

definition TASK_DEDUPE_KEY_MAX_LEN :: nat where
  "TASK_DEDUPE_KEY_MAX_LEN = 191"

datatype TaskDedupeKey = TaskDedupeKey (dedupe_key_str: string)

text \<open>\<open>str::trim\<close> removes white space by a Unicode table; \<open>blank\<close> says that nothing is left.\<close>

definition TaskDedupeKey_new :: "(string \<Rightarrow> bool) \<Rightarrow> string \<Rightarrow> TaskDedupeKey task_result" where
  "TaskDedupeKey_new blank value =
     (if blank value then Inl (InvalidValue ''task dedupe key must not be empty'')
      else if length value > TASK_DEDUPE_KEY_MAX_LEN
      then Inl (InvalidValue ''task dedupe key must be at most 191 bytes'')
      else Inr (TaskDedupeKey value))"

text \<open>\<open>rfc3339\<close> is chrono's \<open>to_rfc3339_opts\<close> with whole seconds.\<close>

definition scheduled_task_dedupe_key ::
  "(string \<Rightarrow> bool) \<Rightarrow> ('t \<Rightarrow> string) \<Rightarrow> string \<Rightarrow> string \<Rightarrow> 't \<Rightarrow> TaskDedupeKey task_result" where
  "scheduled_task_dedupe_key blank rfc3339 namespace task_name scheduled_at =
     TaskDedupeKey_new blank
       (''schedule:'' @ namespace @ '':'' @ task_name @ '':'' @ rfc3339 scheduled_at)"

section \<open>Task steps\<close>

datatype TaskStepStatus = Pending | Active | Succeeded | Failed | Skipped | Canceled

record 't TaskStepInfo =
  ts_key :: string
  ts_title :: string
  ts_status :: TaskStepStatus
  ts_progress_current :: i64
  ts_progress_total :: i64
  ts_detail :: "string option"
  ts_started_at :: "'t option"
  ts_finished_at :: "'t option"

record TaskStepSpec =
  sp_key :: string
  sp_title :: string

definition new_task_step :: "'t \<Rightarrow> TaskStepSpec \<Rightarrow> TaskStepStatus \<Rightarrow> string option \<Rightarrow> 't TaskStepInfo" where
  "new_task_step now spec status detail =
     \<lparr>ts_key = sp_key spec, ts_title = sp_title spec, ts_status = status, ts_progress_current = 0,
      ts_progress_total = 0, ts_detail = detail,
      ts_started_at = (if status = Active then Some now else None), ts_finished_at = None\<rparr>"

definition initial_task_steps_from_specs :: "'t \<Rightarrow> TaskStepSpec list \<Rightarrow> 't TaskStepInfo list" where
  "initial_task_steps_from_specs now specs =
     map (\<lambda>(index, spec).
            new_task_step now spec (if index = 0 then Active else Pending)
              (if index = 0 then Some ''Waiting for worker'' else None))
       (enumerate 0 specs)"

text \<open>\<open>find\<close> on \<open>iter_mut\<close>, followed by an update of what it found.\<close>

fun update_first :: "('a \<Rightarrow> bool) \<Rightarrow> ('a \<Rightarrow> 'a) \<Rightarrow> 'a list \<Rightarrow> 'a list option" where
  "update_first P f [] = None"
| "update_first P f (x # xs) =
     (if P x then Some (f x # xs) else map_option ((#) x) (update_first P f xs))"

definition with_task_step ::
  "('t TaskStepInfo \<Rightarrow> 't TaskStepInfo) \<Rightarrow> string \<Rightarrow> 't TaskStepInfo list \<Rightarrow> 't TaskStepInfo list task_result" where
  "with_task_step f key steps =
     ok_or (InvalidValue (''task step '' @ [CHR 0x27] @ key @ [CHR 0x27] @ '' not found''))
       (update_first (\<lambda>step. ts_key step = key) f steps)"

definition started :: "'t \<Rightarrow> 't TaskStepInfo \<Rightarrow> 't TaskStepInfo" where
  "started now step =
     (if ts_started_at step = None then step\<lparr>ts_started_at := Some now\<rparr> else step)"

definition set_task_step_active ::
  "'t \<Rightarrow> string \<Rightarrow> string option \<Rightarrow> (i64 \<times> i64) option \<Rightarrow> 't TaskStepInfo list
   \<Rightarrow> 't TaskStepInfo list task_result" where
  "set_task_step_active now key detail progress =
     with_task_step (\<lambda>step.
       let step = (started now (step\<lparr>ts_status := Active\<rparr>))\<lparr>ts_finished_at := None, ts_detail := detail\<rparr>
       in case progress of
            Some (current, total_amount) \<Rightarrow>
              step\<lparr>ts_progress_current := current, ts_progress_total := total_amount\<rparr>
          | None \<Rightarrow> step) key"

definition set_task_step_succeeded ::
  "'t \<Rightarrow> string \<Rightarrow> string option \<Rightarrow> (i64 \<times> i64) option \<Rightarrow> 't TaskStepInfo list
   \<Rightarrow> 't TaskStepInfo list task_result" where
  "set_task_step_succeeded now key detail progress =
     with_task_step (\<lambda>step.
       let step = (started now (step\<lparr>ts_status := Succeeded\<rparr>))\<lparr>ts_finished_at := Some now, ts_detail := detail\<rparr>
       in case progress of
            Some (current, total_amount) \<Rightarrow>
              step\<lparr>ts_progress_current := current, ts_progress_total := total_amount\<rparr>
          | None \<Rightarrow>
              if ts_progress_total step > 0 then step\<lparr>ts_progress_current := ts_progress_total step\<rparr>
              else step) key"

definition set_task_step_skipped ::
  "'t \<Rightarrow> string \<Rightarrow> string option \<Rightarrow> 't TaskStepInfo list \<Rightarrow> 't TaskStepInfo list task_result" where
  "set_task_step_skipped now key detail =
     with_task_step (\<lambda>step.
       (started now (step\<lparr>ts_status := Skipped\<rparr>))\<lparr>ts_finished_at := Some now, ts_detail := detail\<rparr>) key"

definition mark_active_step_failed ::
  "'t \<Rightarrow> string option \<Rightarrow> 't TaskStepInfo list \<Rightarrow> 't TaskStepInfo list" where
  "mark_active_step_failed now detail steps =
     (case update_first (\<lambda>step. ts_status step = Active)
             (\<lambda>step. (started now (step\<lparr>ts_status := Failed\<rparr>))
                \<lparr>ts_finished_at := Some now, ts_detail := detail\<rparr>) steps of
        Some steps' \<Rightarrow> steps'
      | None \<Rightarrow>
          (case update_first (\<lambda>step. ts_status step = Pending)
                  (\<lambda>step. step\<lparr>ts_status := Failed, ts_started_at := Some now, ts_finished_at := Some now,
                              ts_detail := detail\<rparr>) (rev steps) of
             Some steps' \<Rightarrow> rev steps'
           | None \<Rightarrow> steps))"

section \<open>Leases\<close>

record TaskLease =
  tl_task_id :: i64
  tl_processing_token :: i64

datatype TaskLeaseTermination = Lost | RenewalTimedOut | ShutdownRequested | CancellationRequested

text \<open>
  The guard with the state behind its mutex. The control token is cancelled exactly by the code
  below; the shutdown token belongs to the worker and is read where the code reads it.
\<close>

record TaskLeaseGuard =
  lg_lease :: TaskLease
  lg_renewal_timeout :: Duration
  lg_observes_shutdown :: bool
  lg_last_renewed_at :: Instant
  lg_termination :: "TaskLeaseTermination option"
  lg_control_stopped :: bool

definition TaskLeaseGuard_new :: "Instant \<Rightarrow> TaskLease \<Rightarrow> Duration \<Rightarrow> TaskLeaseGuard" where
  "TaskLeaseGuard_new now lease renewal_timeout =
     \<lparr>lg_lease = lease, lg_renewal_timeout = renewal_timeout, lg_observes_shutdown = False,
      lg_last_renewed_at = now, lg_termination = None, lg_control_stopped = False\<rparr>"

definition with_shutdown_token :: "Instant \<Rightarrow> TaskLease \<Rightarrow> Duration \<Rightarrow> TaskLeaseGuard" where
  "with_shutdown_token now lease renewal_timeout =
     (TaskLeaseGuard_new now lease renewal_timeout)\<lparr>lg_observes_shutdown := True\<rparr>"

definition task_lease_lost :: "TaskLease \<Rightarrow> TaskCoreError" where
  "task_lease_lost lease = LeaseLost (tl_task_id lease) (tl_processing_token lease)"

definition task_lease_renewal_timed_out :: "TaskLease \<Rightarrow> TaskCoreError" where
  "task_lease_renewal_timed_out lease = LeaseRenewalTimedOut (tl_task_id lease) (tl_processing_token lease)"

definition task_worker_shutdown_requested :: "TaskLease \<Rightarrow> TaskCoreError" where
  "task_worker_shutdown_requested lease =
     WorkerShutdownRequested (tl_task_id lease) (tl_processing_token lease)"

definition record_renewed :: "Instant \<Rightarrow> TaskLeaseGuard \<Rightarrow> TaskLeaseGuard" where
  "record_renewed now self =
     (if lg_termination self = None then self\<lparr>lg_last_renewed_at := now\<rparr> else self)"

definition terminate :: "TaskLeaseTermination \<Rightarrow> TaskLeaseGuard \<Rightarrow> TaskLeaseGuard" where
  "terminate reason self = self\<lparr>lg_termination := Some reason, lg_control_stopped := True\<rparr>"

definition mark_lost :: "TaskLeaseGuard \<Rightarrow> TaskCoreError \<times> TaskLeaseGuard" where
  "mark_lost self = (task_lease_lost (lg_lease self), terminate TaskLeaseTermination.Lost self)"

definition mark_cancel_requested :: "TaskLeaseGuard \<Rightarrow> TaskCoreError \<times> TaskLeaseGuard" where
  "mark_cancel_requested self =
     (TaskCoreError.CancellationRequested (tl_task_id (lg_lease self)) (tl_processing_token (lg_lease self)),
      terminate TaskLeaseTermination.CancellationRequested self)"

definition mark_shutdown_requested :: "TaskLeaseGuard \<Rightarrow> TaskCoreError \<times> TaskLeaseGuard" where
  "mark_shutdown_requested self =
     (task_worker_shutdown_requested (lg_lease self), terminate ShutdownRequested self)"

definition guard_ensure_active ::
  "Instant \<Rightarrow> bool \<Rightarrow> (TaskLeaseGuard, TaskCoreError, unit) io" where
  "guard_ensure_active now shutdown self =
     (case lg_termination self of
        Some TaskLeaseTermination.Lost \<Rightarrow> (Inl (task_lease_lost (lg_lease self)), self)
      | Some RenewalTimedOut \<Rightarrow> (Inl (task_lease_renewal_timed_out (lg_lease self)), self)
      | Some ShutdownRequested \<Rightarrow> (Inl (task_worker_shutdown_requested (lg_lease self)), self)
      | Some TaskLeaseTermination.CancellationRequested \<Rightarrow>
          (Inl (TaskCoreError.CancellationRequested (tl_task_id (lg_lease self)) (tl_processing_token (lg_lease self))), self)
      | None \<Rightarrow>
          if lg_observes_shutdown self \<and> shutdown
          then (Inl (task_worker_shutdown_requested (lg_lease self)), terminate ShutdownRequested self)
          else if elapsed now (lg_last_renewed_at self) \<ge> lg_renewal_timeout self
          then (Inl (task_lease_renewal_timed_out (lg_lease self)), terminate RenewalTimedOut self)
          else (Inr (), self))"

definition remaining_renewal_budget :: "Instant \<Rightarrow> TaskLeaseGuard \<Rightarrow> Duration" where
  "remaining_renewal_budget now self = lg_renewal_timeout self - elapsed now (lg_last_renewed_at self)"

text \<open>\<open>i64_to_u64_saturating\<close>, on values that are at least one.\<close>

definition i64_to_u64_saturating :: "i64 \<Rightarrow> nat" where
  "i64_to_u64_saturating value = (if value < 0 then 2 ^ 64 - 1 else nat value)"

definition task_lease_renewal_timeout :: "i64 \<Rightarrow> nat \<Rightarrow> Duration" where
  "task_lease_renewal_timeout processing_stale_secs heartbeat_secs =
     from_secs (max 1 (i64_to_u64_saturating (max 1 processing_stale_secs) - max 1 heartbeat_secs))"

section \<open>Heartbeats\<close>

datatype TaskHeartbeatOutcome = Renewed | Lost | CancellationRequested

definition TaskHeartbeatOutcome_from :: "bool \<Rightarrow> TaskHeartbeatOutcome" where
  "TaskHeartbeatOutcome_from renewed = (if renewed then Renewed else TaskHeartbeatOutcome.Lost)"

text \<open>\<open>from\<close> converts a core error into the product's error type.\<close>

definition evaluate_heartbeat_result ::
  "(TaskCoreError \<Rightarrow> 'e) \<Rightarrow> Instant \<Rightarrow> bool \<Rightarrow> 'e + TaskHeartbeatOutcome \<Rightarrow> (TaskLeaseGuard, 'e, unit) io" where
  "evaluate_heartbeat_result from_core now shutdown result self =
     (case result of
        Inr Renewed \<Rightarrow> (Inr (), record_renewed now self)
      | Inr TaskHeartbeatOutcome.Lost \<Rightarrow> (case mark_lost self of (error, self') \<Rightarrow> (Inl (from_core error), self'))
      | Inr TaskHeartbeatOutcome.CancellationRequested \<Rightarrow>
          (case mark_cancel_requested self of (error, self') \<Rightarrow> (Inl (from_core error), self'))
      | Inl _ \<Rightarrow> io_try from_core (guard_ensure_active now shutdown) self)"

end
