(* ===== verification/Tasks_Dispatch.thy ===== *)
theory Tasks_Dispatch
  imports Tasks_Values "HOL-Library.Multiset"
begin

text \<open>
  Claiming and dispatching of \<open>aster_forge_tasks/src/dispatch.rs\<close>: lane configurations, claim
  requests and the check of what a store claimed, the counters, the aggregation of concurrent
  results and the bounded drain loop. A task row is a value of a type \<open>'task\<close>, seen through the
  accessors of the traits \<open>TaskRecord\<close> (\<open>registry.rs\<close>), \<open>ClaimableTaskRecord\<close> and
  \<open>ExecutableTaskRecord\<close> (\<open>execution.rs\<close>).
\<close>

section \<open>Views and clocks\<close>

record ('task, 'kind) TaskView =
  tv_id :: "'task \<Rightarrow> i64"
  tv_kind :: "'task \<Rightarrow> 'kind"
  tv_processing_token :: "'task \<Rightarrow> i64"
  tv_cancellation_requested :: "'task \<Rightarrow> bool"
  tv_attempt_count :: "'task \<Rightarrow> i32"
  tv_max_attempts :: "'task \<Rightarrow> i32"

text \<open>What the code calls of the chrono crate, on timestamps \<open>'t\<close> and durations \<open>'d\<close>.\<close>

record ('t, 'd) Chrono =
  ch_try_seconds :: "i64 \<Rightarrow> 'd option"
  ch_duration_MAX :: 'd
  ch_from_std :: "Duration \<Rightarrow> 'd option"
  ch_checked_add_signed :: "'t \<Rightarrow> 'd \<Rightarrow> 't option"
  ch_checked_sub_signed :: "'t \<Rightarrow> 'd \<Rightarrow> 't option"
  ch_add_seconds :: "'t \<Rightarrow> i64 \<Rightarrow> 't option"
  ch_MIN_UTC :: 't
  ch_MAX_UTC :: 't

definition unwrap_or :: "'a \<Rightarrow> 'a option \<Rightarrow> 'a" where
  "unwrap_or fallback x = (case x of Some a \<Rightarrow> a | None \<Rightarrow> fallback)"

definition task_lease_expires_at :: "('t, 'd) Chrono \<Rightarrow> 't \<Rightarrow> i64 \<Rightarrow> 't" where
  "task_lease_expires_at chrono now processing_stale_secs =
     unwrap_or (ch_MAX_UTC chrono)
       (ch_checked_add_signed chrono now
          (unwrap_or (ch_duration_MAX chrono) (ch_try_seconds chrono (max 1 processing_stale_secs))))"

section \<open>Claims\<close>

record ('kind, 'lane) TaskLaneConfig =
  ln_lane :: 'lane
  ln_kinds :: "'kind list"
  ln_limit :: usize
  ln_cluster_limit :: "usize option"

record TaskClaimCandidate =
  cc_index :: usize
  cc_task_id :: i64
  cc_expected_processing_token :: i64
  cc_next_processing_token :: i64

record ('kind, 'lane, 't) TaskClaimRequest =
  cq_lane :: "('kind, 'lane) TaskLaneConfig"
  cq_max_claim :: usize
  cq_now :: 't
  cq_stale_before :: 't
  cq_lease_expires_at :: 't
  cq_processing_stale_secs :: i64

definition request_at ::
  "('t, 'd) Chrono \<Rightarrow> ('kind, 'lane, 't) TaskClaimRequest \<Rightarrow> 't \<Rightarrow> ('kind, 'lane, 't) TaskClaimRequest" where
  "request_at chrono self now =
     self\<lparr>cq_now := now,
          cq_stale_before := unwrap_or (ch_MIN_UTC chrono)
            (ch_checked_sub_signed chrono now
               (unwrap_or (ch_duration_MAX chrono)
                  (ch_try_seconds chrono (max 1 (cq_processing_stale_secs self))))),
          cq_lease_expires_at := task_lease_expires_at chrono now (cq_processing_stale_secs self)\<rparr>"

fun task_claim_candidates_from ::
  "('task, 'kind) TaskView \<Rightarrow> usize \<Rightarrow> 'task list \<Rightarrow> TaskClaimCandidate list task_result" where
  "task_claim_candidates_from view index [] = Inr []"
| "task_claim_candidates_from view index (task # tasks) =
     res_bind (ok_or (InvalidValue ''background task processing token overflow'')
                 (i64_checked_add (tv_processing_token view task) 1)) (\<lambda>next_token.
     res_bind (task_claim_candidates_from view (index + 1) tasks) (\<lambda>rest.
     Inr (\<lparr>cc_index = index, cc_task_id = tv_id view task,
           cc_expected_processing_token = tv_processing_token view task,
           cc_next_processing_token = next_token\<rparr> # rest)))"

definition task_claim_candidates ::
  "('task, 'kind) TaskView \<Rightarrow> 'task list \<Rightarrow> TaskClaimCandidate list task_result" where
  "task_claim_candidates view tasks = task_claim_candidates_from view 0 tasks"

type_synonym ('w, 'e, 'task, 'kind, 'lane, 't) claim_store =
  "('kind, 'lane, 't) TaskClaimRequest \<Rightarrow> ('w, 'e, ('task \<times> TaskLease) list) io"

text \<open>The loop that checks the claims, with the ids seen so far.\<close>

fun check_claims ::
  "('task, 'kind) TaskView \<Rightarrow> ('kind \<Rightarrow> 'lane) \<Rightarrow> ('kind, 'lane) TaskLaneConfig \<Rightarrow> i64 set
   \<Rightarrow> ('task \<times> TaskLease) list \<Rightarrow> unit task_result" where
  "check_claims view task_lane config seen [] = Inr ()"
| "check_claims view task_lane config seen ((task, lease) # claimed) =
     (if task_lane (tv_kind view task) \<noteq> ln_lane config
         \<or> tv_kind view task \<notin> set (ln_kinds config)
         \<or> tl_task_id lease \<noteq> tv_id view task
         \<or> i64_checked_add (tv_processing_token view task) 1 \<noteq> Some (tl_processing_token lease)
         \<or> tv_id view task \<in> seen
      then Inl (InvalidValue ''store returned an invalid or duplicate claim'')
      else check_claims view task_lane config (insert (tv_id view task) seen) claimed)"

definition claim_due_for_lane ::
  "('t, 'd) Chrono \<Rightarrow> ('task, 'kind) TaskView \<Rightarrow> (TaskCoreError \<Rightarrow> 'e)
   \<Rightarrow> ('w, 'e, 'task, 'kind, 'lane, 't) claim_store \<Rightarrow> 't
   \<Rightarrow> ('kind, 'lane) TaskLaneConfig \<Rightarrow> usize \<Rightarrow> i64 \<Rightarrow> ('kind \<Rightarrow> 'lane)
   \<Rightarrow> ('w, 'e, ('task \<times> TaskLease) list) io" where
  "claim_due_for_lane chrono view from_core store now lane_config available_slots processing_stale_secs task_lane =
     (let max_claim = min available_slots (ln_limit lane_config) in
      if max_claim = 0 then io_return []
      else
        let request = request_at chrono
              \<lparr>cq_lane = lane_config, cq_max_claim = max_claim, cq_now = now, cq_stale_before = now,
               cq_lease_expires_at = now, cq_processing_stale_secs = processing_stale_secs\<rparr> now
        in io_bind (store request) (\<lambda>claimed.
           if length claimed > max_claim
           then io_fail (from_core (InvalidValue ''store exceeded local claim capacity''))
           else io_bind (io_try from_core (io_lift (check_claims view task_lane lane_config {} claimed)))
                  (\<lambda>_. io_return claimed)))"

definition available_lane_capacity :: "usize \<Rightarrow> nat \<Rightarrow> usize" where
  "available_lane_capacity limit active = usize_saturating_sub limit (min usize_MAX active)"

definition claim_limit_to_u64 :: "usize \<Rightarrow> nat" where
  "claim_limit_to_u64 limit = min (2 ^ 64 - 1) limit"

section \<open>Counters\<close>

record DispatchStats =
  st_canceled :: nat
  st_claimed :: nat
  st_succeeded :: nat
  st_retried :: nat
  st_failed :: nat

record TaskDispatchOutcome =
  oc_canceled :: nat
  oc_succeeded :: nat
  oc_retried :: nat
  oc_failed :: nat

definition DispatchStats_default :: DispatchStats where
  "DispatchStats_default =
     \<lparr>st_canceled = 0, st_claimed = 0, st_succeeded = 0, st_retried = 0, st_failed = 0\<rparr>"

definition stats_add :: "DispatchStats \<Rightarrow> DispatchStats \<Rightarrow> DispatchStats" where
  "stats_add self other =
     \<lparr>st_canceled = st_canceled self + st_canceled other,
      st_claimed = st_claimed self + st_claimed other,
      st_succeeded = st_succeeded self + st_succeeded other,
      st_retried = st_retried self + st_retried other,
      st_failed = st_failed self + st_failed other\<rparr>"

definition has_activity :: "DispatchStats \<Rightarrow> bool" where
  "has_activity self \<longleftrightarrow>
     st_claimed self > 0 \<or> st_succeeded self > 0 \<or> st_retried self > 0 \<or> st_failed self > 0
     \<or> st_canceled self > 0"

definition add_outcome :: "DispatchStats \<Rightarrow> TaskDispatchOutcome \<Rightarrow> DispatchStats" where
  "add_outcome self outcome =
     self\<lparr>st_succeeded := st_succeeded self + oc_succeeded outcome,
          st_retried := st_retried self + oc_retried outcome,
          st_failed := st_failed self + oc_failed outcome,
          st_canceled := st_canceled self + oc_canceled outcome\<rparr>"

definition outcome_default :: TaskDispatchOutcome where
  "outcome_default = \<lparr>oc_canceled = 0, oc_succeeded = 0, oc_retried = 0, oc_failed = 0\<rparr>"

definition outcome_canceled :: TaskDispatchOutcome where
  "outcome_canceled = \<lparr>oc_canceled = 1, oc_succeeded = 0, oc_retried = 0, oc_failed = 0\<rparr>"

definition outcome_succeeded :: TaskDispatchOutcome where
  "outcome_succeeded = \<lparr>oc_canceled = 0, oc_succeeded = 1, oc_retried = 0, oc_failed = 0\<rparr>"

definition outcome_retried :: TaskDispatchOutcome where
  "outcome_retried = \<lparr>oc_canceled = 0, oc_succeeded = 0, oc_retried = 1, oc_failed = 0\<rparr>"

definition outcome_failed :: TaskDispatchOutcome where
  "outcome_failed = \<lparr>oc_canceled = 0, oc_succeeded = 0, oc_retried = 0, oc_failed = 1\<rparr>"

section \<open>Aggregation\<close>

text \<open>
  Concurrent handlers deliver their results in any order; the loops over the results add up the
  successful ones and remember the first error.
\<close>

fun aggregate :: "('s \<Rightarrow> 'a \<Rightarrow> 's) \<Rightarrow> ('e + 'a) list \<Rightarrow> 's \<Rightarrow> 'e option \<Rightarrow> 's \<times> 'e option" where
  "aggregate add [] stats first_error = (stats, first_error)"
| "aggregate add (Inr a # results) stats first_error = aggregate add results (add stats a) first_error"
| "aggregate add (Inl e # results) stats first_error =
     aggregate add results stats (if first_error = None then Some e else first_error)"

definition aggregated :: "('s \<Rightarrow> 'a \<Rightarrow> 's) \<Rightarrow> 's \<Rightarrow> ('e + 'a) list \<Rightarrow> 'e + 's" where
  "aggregated add stats results =
     (case aggregate add results stats None of
        (stats', Some e) \<Rightarrow> Inl e
      | (stats', None) \<Rightarrow> Inr stats')"

definition dispatch_lanes :: "('e + DispatchStats) list \<Rightarrow> 'e + DispatchStats" where
  "dispatch_lanes = aggregated stats_add DispatchStats_default"

text \<open>The handlers start in this order, \<open>sort_by_key\<close> being stable.\<close>

definition claimed_batch_order :: "('a \<Rightarrow> 'k::linorder) \<Rightarrow> 'a list \<Rightarrow> 'a list" where
  "claimed_batch_order sort_by claimed = sort_key sort_by claimed"

definition run_claimed_task_batch :: "('e + TaskDispatchOutcome) list \<Rightarrow> 'e + DispatchStats" where
  "run_claimed_task_batch = aggregated add_outcome DispatchStats_default"

section \<open>Draining\<close>

text \<open>\<open>wait\<close> is the sleep between two rounds, in which the rest of the world goes on.\<close>

fun drain_rounds ::
  "nat \<Rightarrow> ('w, 'e, DispatchStats) io \<Rightarrow> ('w, 'e, nat) io \<Rightarrow> ('w \<Rightarrow> 'w) \<Rightarrow> DispatchStats
   \<Rightarrow> ('w, 'e, DispatchStats) io" where
  "drain_rounds 0 dispatch_due count_processing wait total_stats = io_return total_stats"
| "drain_rounds (Suc rounds) dispatch_due count_processing wait total_stats =
     io_bind dispatch_due (\<lambda>stats.
       let total_stats = stats_add total_stats stats in
       if st_claimed stats > 0 then drain_rounds rounds dispatch_due count_processing wait total_stats
       else
         io_bind count_processing (\<lambda>processing.
           if processing = 0 then io_return total_stats
           else (\<lambda>w. drain_rounds rounds dispatch_due count_processing wait total_stats (wait w))))"

definition drain_dispatcher ::
  "nat \<Rightarrow> ('w, 'e, DispatchStats) io \<Rightarrow> ('w, 'e, nat) io \<Rightarrow> ('w \<Rightarrow> 'w) \<Rightarrow> ('w, 'e, DispatchStats) io" where
  "drain_dispatcher max_rounds dispatch_due count_processing wait =
     drain_rounds max_rounds dispatch_due count_processing wait DispatchStats_default"

section \<open>Laws\<close>

lemma check_claims_exact:
  "check_claims view task_lane config seen claimed = Inr () \<longleftrightarrow>
     (\<forall>(task, lease) \<in> set claimed.
        task_lane (tv_kind view task) = ln_lane config \<and> tv_kind view task \<in> set (ln_kinds config)
        \<and> tl_task_id lease = tv_id view task
        \<and> i64_checked_add (tv_processing_token view task) 1 = Some (tl_processing_token lease)
        \<and> tv_id view task \<notin> seen)
     \<and> distinct (map (\<lambda>(task, lease). tv_id view task) claimed)"
proof (induction claimed arbitrary: seen)
  case (Cons c claimed)
  obtain task lease where c: "c = (task, lease)" by fastforce
  have "check_claims view task_lane config (insert (tv_id view task) seen) claimed = Inr () \<longleftrightarrow>
     (\<forall>(t, l) \<in> set claimed.
        task_lane (tv_kind view t) = ln_lane config \<and> tv_kind view t \<in> set (ln_kinds config)
        \<and> tl_task_id l = tv_id view t
        \<and> i64_checked_add (tv_processing_token view t) 1 = Some (tl_processing_token l)
        \<and> tv_id view t \<notin> seen)
     \<and> tv_id view task \<notin> (\<lambda>(t, l). tv_id view t) ` set claimed
     \<and> distinct (map (\<lambda>(t, l). tv_id view t) claimed)"
    unfolding Cons.IH by (force simp: case_prod_beta)
  then show ?case by (simp add: c)
qed simp

lemma i64_checked_add_eq_Some [simp]:
  "i64_checked_add a b = Some c \<longleftrightarrow> i64_MIN \<le> a + b \<and> a + b \<le> i64_MAX \<and> c = a + b"
  by (auto simp: i64_checked_add_def)

lemma claim_due_for_lane_Inr:
  assumes "claim_due_for_lane chrono view from_core store now config slots secs task_lane w = (Inr claimed, w')"
  shows "length claimed \<le> min slots (ln_limit config)"
    and "distinct (map (\<lambda>(task, lease). tv_id view task) claimed)"
    and "(task, lease) \<in> set claimed \<Longrightarrow>
      task_lane (tv_kind view task) = ln_lane config \<and> tv_kind view task \<in> set (ln_kinds config)
      \<and> tl_task_id lease = tv_id view task
      \<and> tl_processing_token lease = tv_processing_token view task + 1
      \<and> tl_processing_token lease \<le> i64_MAX"
proof -
  consider "claimed = []"
    | "length claimed \<le> min slots (ln_limit config)" "check_claims view task_lane config {} claimed = Inr ()"
    using assms unfolding claim_due_for_lane_def Let_def
    by (cases "min slots (ln_limit config) = 0") (auto simp: io_bind_eq_Inr linorder_not_less simp del: min_less_iff_conj min.bounded_iff split: if_split_asm)
  then have ok: "length claimed \<le> min slots (ln_limit config) \<and> check_claims view task_lane config {} claimed = Inr ()"
    by cases auto
  note exact = ok [THEN conjunct2, unfolded check_claims_exact]
  show "length claimed \<le> min slots (ln_limit config)" using ok by simp
  show "distinct (map (\<lambda>(task, lease). tv_id view task) claimed)" using exact by simp
  show "task_lane (tv_kind view task) = ln_lane config \<and> tv_kind view task \<in> set (ln_kinds config)
      \<and> tl_task_id lease = tv_id view task
      \<and> tl_processing_token lease = tv_processing_token view task + 1
      \<and> tl_processing_token lease \<le> i64_MAX" if "(task, lease) \<in> set claimed"
    using exact that by fastforce
qed

lemma aggregate_first_error: "snd (aggregate add results stats (Some e)) = Some e"
proof (induction results arbitrary: stats)
  case (Cons r results)
  then show ?case by (cases r) simp_all
qed simp

text \<open>The counters are a commutative monoid, so the order of completion does not matter.\<close>

lemma stats_eqI:
  "st_canceled a = st_canceled b \<Longrightarrow> st_claimed a = st_claimed b \<Longrightarrow> st_succeeded a = st_succeeded b \<Longrightarrow>
   st_retried a = st_retried b \<Longrightarrow> st_failed a = st_failed b \<Longrightarrow> a = (b :: DispatchStats)"
  by simp

lemma aggregate_Inr:
  "aggregate add results stats None = (stats', None) \<longleftrightarrow>
     (\<exists>xs. results = map Inr xs \<and> stats' = foldl add stats xs)"
proof (induction results arbitrary: stats)
  case (Cons r results)
  show ?case
  proof (cases r)
    case (Inl e)
    have "snd (aggregate add results stats (Some e)) = Some e" by (rule aggregate_first_error)
    then show ?thesis using Inl by (auto simp: map_eq_Cons_conv)
  next
    case (Inr a)
    then show ?thesis using Cons.IH by (auto simp: Cons_eq_map_conv intro: exI [of _ "a # xs" for xs])
  qed
qed auto

lemma foldl_add_outcome:
  "foldl add_outcome stats outcomes =
     stats\<lparr>st_succeeded := st_succeeded stats + sum_list (map oc_succeeded outcomes),
           st_retried := st_retried stats + sum_list (map oc_retried outcomes),
           st_failed := st_failed stats + sum_list (map oc_failed outcomes),
           st_canceled := st_canceled stats + sum_list (map oc_canceled outcomes)\<rparr>"
  by (induction outcomes arbitrary: stats) (auto simp: add_outcome_def)

lemma drain_round_cases:
  assumes "drain_rounds (Suc rounds) dispatch_due count_processing wait total_stats w = (Inr stats, w')"
  obtains (more) s w1 where "dispatch_due w = (Inr s, w1)"
      "drain_rounds rounds dispatch_due count_processing wait (stats_add total_stats s) w1 = (Inr stats, w')"
  | (idle) s w1 where "dispatch_due w = (Inr s, w1)" "st_claimed s = 0" "count_processing w1 = (Inr 0, w')"
      "stats = stats_add total_stats s"
  | (busy) s w1 n w2 where "dispatch_due w = (Inr s, w1)" "count_processing w1 = (Inr n, w2)"
      "drain_rounds rounds dispatch_due count_processing wait (stats_add total_stats s) (wait w2) = (Inr stats, w')"
  using assms by (auto simp: io_bind_eq_Inr Let_def split: if_split_asm)

text \<open>
  A drain runs at most its number of rounds, and when it stops early nothing was left to claim
  and nothing was running: \<open>ticks\<close> counts the dispatch passes.
\<close>

lemma drain_rounds_settled:
  assumes "drain_rounds rounds dispatch_due count_processing wait total_stats w = (Inr stats, w')"
    and "\<And>w s w1. dispatch_due w = (Inr s, w1) \<Longrightarrow> ticks w1 = Suc (ticks w)"
    and "\<And>w n w1. count_processing w = (Inr n, w1) \<Longrightarrow> ticks w1 = ticks w \<and> (n = 0 \<longrightarrow> settled w1)"
    and "\<And>w. ticks (wait w) = ticks w"
  shows "ticks w' \<le> ticks w + rounds \<and> (settled w' \<or> ticks w' = ticks w + rounds)"
  using assms(1)
proof (induction rounds arbitrary: total_stats w)
  case (Suc rounds)
  from Suc.prems show ?case
  proof (cases rule: drain_round_cases)
    case (more s w1)
    then show ?thesis using Suc.IH [of "stats_add total_stats s" w1] assms(2) [of w s w1] by auto
  next
    case (idle s w1)
    then show ?thesis using assms(2) [of w s w1] assms(3) [of w1 0 w'] by auto
  next
    case (busy s w1 n w2)
    then show ?thesis
      using Suc.IH [of "stats_add total_stats s" "wait w2"] assms(2) [of w s w1] assms(3) [of w1 n w2]
        assms(4) [of w2] by auto
  qed
qed simp

text \<open>
  For a batch the order in which its handlers finish does not matter: with other results in another
  order the counters are the same, and they are the sums of the outcomes.
\<close>

lemma batch_counters:
  "run_claimed_task_batch results = Inr stats \<longleftrightarrow>
     (\<exists>outcomes. results = map Inr outcomes \<and>
        stats = \<lparr>st_canceled = sum_list (map oc_canceled outcomes), st_claimed = 0,
                 st_succeeded = sum_list (map oc_succeeded outcomes),
                 st_retried = sum_list (map oc_retried outcomes),
                 st_failed = sum_list (map oc_failed outcomes)\<rparr>)"
proof -
  obtain s e where a: "aggregate add_outcome results DispatchStats_default None = (s, e)" by fastforce
  have "run_claimed_task_batch results = Inr stats \<longleftrightarrow>
      aggregate add_outcome results DispatchStats_default None = (stats, None)"
    by (cases e) (auto simp: run_claimed_task_batch_def aggregated_def a)
  then show ?thesis
    unfolding aggregate_Inr foldl_add_outcome by (simp add: DispatchStats_default_def)
qed

lemma batch_completion_order:
  assumes "mset results' = mset results" and "run_claimed_task_batch results = Inr stats"
  shows "run_claimed_task_batch results' = Inr stats"
proof -
  obtain outcomes where results: "results = map Inr outcomes" using assms(2) by (auto simp: batch_counters)
  define outcomes' where "outcomes' = map projr results'"
  have "set results' = set results" using assms(1) by (rule mset_eq_setD)
  then have results': "results' = map Inr outcomes'"
    using results by (auto simp: outcomes'_def intro!: map_idI [symmetric])
  have "mset (map projr results') = mset (map projr results)" using assms(1) by simp
  then have "mset outcomes' = mset outcomes" by (simp add: outcomes'_def results comp_def)
  then have "sum_list (map f outcomes') = sum_list (map f outcomes)" for f :: "TaskDispatchOutcome \<Rightarrow> nat"
    by (metis mset_map sum_mset_sum_list)
  then show ?thesis using assms(2) unfolding batch_counters results results' by (auto simp: inj_map_eq_map)
qed

section \<open>Property\<close>

text \<open>
  A lane never runs more than its capacity or anything the store had no right to hand out: what
  \<open>claim_due_for_lane\<close> returns fits the free slots and the limit of the lane, names no task twice,
  belongs to the lane and its kinds, and each lease is the next token of its task, with no overflow.
\<close>

theorem claims_validated:
  assumes "claim_due_for_lane chrono view from_core store now config slots secs task_lane w = (Inr claimed, w')"
  shows "length claimed \<le> min slots (ln_limit config)
    \<and> distinct (map (\<lambda>(task, lease). tv_id view task) claimed)
    \<and> (\<forall>(task, lease) \<in> set claimed.
          task_lane (tv_kind view task) = ln_lane config \<and> tv_kind view task \<in> set (ln_kinds config)
          \<and> tl_task_id lease = tv_id view task
          \<and> tl_processing_token lease = tv_processing_token view task + 1
          \<and> tl_processing_token lease \<le> i64_MAX)"
  using claim_due_for_lane_Inr [OF assms] by auto

text \<open>A lane of two slots whose store claims one task of kind 3.\<close>

definition one_view :: "(nat, nat) TaskView" where
  "one_view =
     \<lparr>tv_id = int, tv_kind = (\<lambda>_. 3), tv_processing_token = (\<lambda>_. 4), tv_cancellation_requested = (\<lambda>_. False),
      tv_attempt_count = (\<lambda>_. 0), tv_max_attempts = (\<lambda>_. 3)\<rparr>"

definition one_chrono :: "(nat, nat) Chrono" where
  "one_chrono =
     \<lparr>ch_try_seconds = (\<lambda>s. Some (nat s)), ch_duration_MAX = 0, ch_from_std = (\<lambda>_. None),
      ch_checked_add_signed = (\<lambda>t d. Some (t + d)), ch_checked_sub_signed = (\<lambda>t d. Some (t - d)),
      ch_add_seconds = (\<lambda>t s. Some (t + nat s)), ch_MIN_UTC = 0, ch_MAX_UTC = 0\<rparr>"

definition one_lane :: "(nat, nat) TaskLaneConfig" where
  "one_lane = \<lparr>ln_lane = 1, ln_kinds = [2, 3], ln_limit = 2, ln_cluster_limit = None\<rparr>"

definition one_claim :: "(nat \<times> TaskLease) list" where
  "one_claim = [(7, \<lparr>tl_task_id = 7, tl_processing_token = 5\<rparr>)]"

theorem claims_validated_witness:
  "length one_claim \<le> min 5 (ln_limit one_lane)
    \<and> distinct (map (\<lambda>(task, lease). tv_id one_view task) one_claim)
    \<and> tv_kind one_view 7 \<in> set (ln_kinds one_lane)"
proof -
  have "claim_due_for_lane one_chrono one_view (\<lambda>e. e) (\<lambda>_ w. (Inr one_claim, w)) 100 one_lane 5 60 (\<lambda>_. 1) ()
      = (Inr one_claim, ())"
    by (simp add: claim_due_for_lane_def one_lane_def one_claim_def one_view_def io_bind_def io_try_def
        i64_checked_add_def i64_MIN_def i64_MAX_def)
  from claims_validated [OF this] show ?thesis by (simp add: one_claim_def)
qed

end
