(* ===== verification/Forward_Loop.thy ===== *)
theory Forward_Loop
  imports Prelude
begin

text \<open>
  What the durable runners share: the driving loop, which goes round until one pass returns an
  outcome or fails, and the contract of calls that keep an invariant and only move the world
  forward.
\<close>

section \<open>The driving loop\<close>

text \<open>
  One pass returns \<open>Some outcome\<close> to stop and \<open>None\<close> to go round again. The sources write it
  as \<open>loop { .. }\<close> without a bound, so not returning is the value \<open>None\<close> of the model.
\<close>

partial_function (option) io_loop :: "('w, 'e, 'a option) io \<Rightarrow> 'w \<Rightarrow> (('e + 'a) \<times> 'w) option" where
  "io_loop pass w =
     (case pass w of
        (Inl e, w') \<Rightarrow> Some (Inl e, w')
      | (Inr (Some outcome), w') \<Rightarrow> Some (Inr outcome, w')
      | (Inr None, w') \<Rightarrow> io_loop pass w')"

declare io_loop.simps [code]

lemma io_loop_again: "pass w = (Inr None, w') \<Longrightarrow> io_loop pass w = io_loop pass w'"
  by (subst io_loop.simps) simp

lemma io_loop_stop:
  "pass w = (res, w') \<Longrightarrow> res \<noteq> Inr None \<Longrightarrow>
   io_loop pass w = Some (case res of Inl e \<Rightarrow> (Inl e, w') | Inr out \<Rightarrow> (Inr (the out), w'))"
  by (subst io_loop.simps) (auto split: sum.splits option.splits)

text \<open>A loop whose passes decrease a variant as long as they go round.\<close>

locale decreasing_loop =
  fixes pass :: "('w, 'e, 'a option) io"
    and inv :: "'w \<Rightarrow> bool"
    and variant :: "'w \<Rightarrow> nat"
  assumes pass_inv: "inv w \<Longrightarrow> pass w = (Inr None, w') \<Longrightarrow> inv w'"
    and pass_decreases: "inv w \<Longrightarrow> pass w = (Inr None, w') \<Longrightarrow> variant w' < variant w"
begin

lemma run_induct [consumes 1, case_names stop again]:
  assumes "inv w"
    and stop: "\<And>w res w'. inv w \<Longrightarrow> pass w = (res, w') \<Longrightarrow> res \<noteq> Inr None \<Longrightarrow> P w"
    and again: "\<And>w w'. inv w \<Longrightarrow> pass w = (Inr None, w') \<Longrightarrow> inv w' \<Longrightarrow> P w' \<Longrightarrow> P w"
  shows "P w"
  using assms(1)
proof (induction "variant w" arbitrary: w rule: less_induct)
  case less
  obtain res w' where s: "pass w = (res, w')" by fastforce
  show ?case
  proof (cases "res = Inr None")
    case True
    with s less show ?thesis using pass_inv pass_decreases again by blast
  next
    case False
    then show ?thesis using stop [OF less.prems s] by blast
  qed
qed

lemma returns: "inv w \<Longrightarrow> \<exists>res w'. io_loop pass w = Some (res, w')"
proof (induction w rule: run_induct)
  case (stop w res w')
  then show ?case by (simp add: io_loop_stop split: sum.split)
next
  case (again w w')
  then show ?case by (simp add: io_loop_again)
qed

text \<open>A run ends with the result of a pass that started in a state the loop went through.\<close>

lemma last_pass:
  assumes "inv w" and "io_loop pass w = Some (Inr outcome, w'')"
  shows "\<exists>w1. inv w1 \<and> pass w1 = (Inr (Some outcome), w'')"
  using assms
proof (induction w rule: run_induct)
  case (stop w res w')
  then show ?case by (auto simp: io_loop_stop split: sum.splits)
next
  case (again w w')
  then show ?case by (simp add: io_loop_again)
qed

end

section \<open>Durable journals\<close>

text \<open>
  A durable record is only ever replaced by one of a higher rank with the same identity, and a
  journal never loses a record.
\<close>

definition ranked_le :: "('r \<Rightarrow> nat) \<Rightarrow> ('r \<Rightarrow> 'i) \<Rightarrow> 'r \<Rightarrow> 'r \<Rightarrow> bool" where
  "ranked_le rank ident r r' \<longleftrightarrow> r' = r \<or> ident r' = ident r \<and> rank r < rank r'"

definition ranked_journal_le ::
  "('r \<Rightarrow> nat) \<Rightarrow> ('r \<Rightarrow> 'i) \<Rightarrow> ('k \<rightharpoonup> 'r) \<Rightarrow> ('k \<rightharpoonup> 'r) \<Rightarrow> bool" where
  "ranked_journal_le rank ident v v' \<longleftrightarrow>
     (\<forall>k r. v k = Some r \<longrightarrow> (\<exists>r'. v' k = Some r' \<and> ranked_le rank ident r r'))"

lemma ranked_le_refl [simp, intro]: "ranked_le rank ident r r"
  by (simp add: ranked_le_def)

lemma ranked_le_trans [trans]:
  "ranked_le rank ident a b \<Longrightarrow> ranked_le rank ident b c \<Longrightarrow> ranked_le rank ident a c"
  by (auto simp: ranked_le_def)

lemma ranked_le_rank: "ranked_le rank ident r r' \<Longrightarrow> rank r \<le> rank r'"
  by (auto simp: ranked_le_def)

lemma ranked_le_ident: "ranked_le rank ident r r' \<Longrightarrow> ident r' = ident r"
  by (auto simp: ranked_le_def)

lemma ranked_le_neq_rank: "ranked_le rank ident r r' \<Longrightarrow> r' \<noteq> r \<Longrightarrow> rank r < rank r'"
  by (auto simp: ranked_le_def)

lemma ranked_journal_refl [simp, intro]: "ranked_journal_le rank ident v v"
  by (auto simp: ranked_journal_le_def)

lemma ranked_journal_trans [trans]:
  "ranked_journal_le rank ident a b \<Longrightarrow> ranked_journal_le rank ident b c \<Longrightarrow>
   ranked_journal_le rank ident a c"
  unfolding ranked_journal_le_def by (meson ranked_le_trans)

lemma ranked_journalD:
  "ranked_journal_le rank ident v v' \<Longrightarrow> v k = Some r \<Longrightarrow>
   \<exists>r'. v' k = Some r' \<and> ranked_le rank ident r r'"
  by (simp add: ranked_journal_le_def)

section \<open>Calls that move forward\<close>

locale forward_world =
  fixes inv :: "'w \<Rightarrow> bool"
    and le :: "'w \<Rightarrow> 'w \<Rightarrow> bool"
  assumes le_refl: "le w w"
    and le_trans: "le w w' \<Longrightarrow> le w' w'' \<Longrightarrow> le w w''"
begin

definition forward :: "('w, 'e, 'a) io \<Rightarrow> bool" where
  "forward m \<longleftrightarrow> (\<forall>w res w'. inv w \<longrightarrow> m w = (res, w') \<longrightarrow> inv w' \<and> le w w')"

lemma forwardI:
  "(\<And>w res w'. inv w \<Longrightarrow> m w = (res, w') \<Longrightarrow> inv w' \<and> le w w') \<Longrightarrow> forward m"
  unfolding forward_def by blast

lemma forwardD: "forward m \<Longrightarrow> m w = (res, w') \<Longrightarrow> inv w \<Longrightarrow> inv w' \<and> le w w'"
  unfolding forward_def by blast

lemma forward_return [intro!]: "forward (io_return a)" "forward (io_fail e)" "forward (io_lift r)"
  by (auto simp: forward_def le_refl)

lemma forward_bind [intro]:
  assumes "forward m" and "\<And>a. forward (f a)"
  shows "forward (io_bind m f)"
proof (rule forwardI)
  fix w res w''
  assume "inv w" and "io_bind m f w = (res, w'')"
  then show "inv w'' \<and> le w w''"
    using forwardD [OF assms(1)] forwardD [OF assms(2)]
    by (fastforce simp: io_bind_def split: prod.splits sum.splits intro: le_trans)
qed

lemma forward_try [intro]: "forward m \<Longrightarrow> forward (io_try h m)"
  by (auto simp: forward_def io_try_def split: prod.splits)

end

section \<open>Loops over a durable record\<close>

text \<open>
  \<open>journal w\<close> is what is durable in \<open>w\<close>. The calls of a runner may let other executors act,
  but the records only move forward.
\<close>

locale journal_world =
  fixes inv :: "'w \<Rightarrow> bool"
    and journal :: "'w \<Rightarrow> 'k \<rightharpoonup> 'r"
    and rank :: "'r \<Rightarrow> nat"
    and ident :: "'r \<Rightarrow> 'i"

sublocale journal_world \<subseteq>
  forward_world inv "\<lambda>w w'. ranked_journal_le rank ident (journal w) (journal w')"
  by unfold_locales (auto intro: ranked_journal_trans)

context journal_world
begin

text \<open>The record under \<open>k\<close> is \<open>r\<close> or one that \<open>r\<close> moved on to.\<close>

definition since :: "'k \<Rightarrow> 'r \<Rightarrow> 'w \<Rightarrow> bool" where
  "since k r w \<longleftrightarrow> inv w \<and> (\<exists>r1. journal w k = Some r1 \<and> ranked_le rank ident r r1)"

lemma sinceI: "inv w \<Longrightarrow> journal w k = Some r \<Longrightarrow> since k r w"
  by (auto simp: since_def)

lemma since_inv: "since k r w \<Longrightarrow> inv w"
  by (simp add: since_def)

lemma since_forward:
  assumes "forward m" and "m w = (res, w')" and "since k r w"
  shows "since k r w'"
proof -
  obtain r1 where r1: "journal w k = Some r1" "ranked_le rank ident r r1"
    using assms(3) by (auto simp: since_def)
  have f: "inv w' \<and> ranked_journal_le rank ident (journal w) (journal w')"
    by (rule forwardD [OF assms(1,2) since_inv [OF assms(3)]])
  obtain r2 where "journal w' k = Some r2" "ranked_le rank ident r1 r2"
    using ranked_journalD [OF conjunct2 [OF f] r1(1)] by blast
  then show ?thesis using f ranked_le_trans [OF r1(2)] by (auto simp: since_def)
qed

lemma since_moved:
  "since k r w \<Longrightarrow> journal w k = Some r' \<Longrightarrow> r' \<noteq> r \<Longrightarrow> rank r < rank r'"
  by (auto simp: since_def dest: ranked_le_neq_rank)

lemma since_rank: "since k r w \<Longrightarrow> journal w k = Some r' \<Longrightarrow> rank r \<le> rank r'"
  by (auto simp: since_def dest: ranked_le_rank)

end

text \<open>
  A loop that loads one record and takes the arm of its state: it goes round only after the
  record moved to a higher rank, so it ends with the last rank at the latest.
\<close>

locale journal_loop = journal_world inv journal rank ident
  for inv :: "'w \<Rightarrow> bool" and journal :: "'w \<Rightarrow> 'k \<rightharpoonup> 'r" and rank :: "'r \<Rightarrow> nat" and ident :: "'r \<Rightarrow> 'i" +
  fixes k :: 'k
    and load :: "('w, 'e, 'r) io"
    and arm :: "'r \<Rightarrow> ('w, 'e, 'a option) io"
    and bound :: nat
  assumes load_forward: "forward load"
    and load_found: "inv w \<Longrightarrow> load w = (Inr r, w') \<Longrightarrow> journal w' k = Some r"
    and arm_forward: "forward (arm r)"
    and arm_again: "inv w \<Longrightarrow> journal w k = Some r \<Longrightarrow> arm r w = (Inr None, w') \<Longrightarrow>
      \<exists>r'. journal w' k = Some r' \<and> rank r < rank r'"
    and rank_bound: "rank r \<le> bound"
begin

lemma pass_forward: "forward (io_bind load arm)"
  by (intro forward_bind load_forward arm_forward)

lemma pass_again:
  assumes "io_bind load arm w = (Inr None, w')" and "inv w"
  obtains r r' w1 where "load w = (Inr r, w1)" "journal w1 k = Some r"
    "journal w' k = Some r'" "rank r < rank r'"
proof -
  obtain r w1 where ld: "load w = (Inr r, w1)" and a: "arm r w1 = (Inr None, w')"
    by (rule io_bind_InrE [OF assms(1)])
  have j: "journal w1 k = Some r" by (rule load_found [OF assms(2) ld])
  have "inv w1" by (rule conjunct1 [OF forwardD [OF load_forward ld assms(2)]])
  then obtain r' where "journal w' k = Some r'" "rank r < rank r'"
    using arm_again [OF _ j a] by blast
  then show thesis by (rule that [OF ld j])
qed

lemma pass_rank:
  assumes "io_bind load arm w = (Inr None, w')" and "inv w" and "journal w k = Some r"
  shows "\<exists>r'. journal w' k = Some r' \<and> rank r < rank r'"
proof -
  obtain r1 r' w1 where ld: "load w = (Inr r1, w1)"
    and j: "journal w1 k = Some r1" "journal w' k = Some r'" "rank r1 < rank r'"
    by (rule pass_again [OF assms(1,2)])
  have "rank r \<le> rank r1"
    by (rule since_rank [OF since_forward [OF load_forward ld sinceI [OF assms(2,3)]] j(1)])
  then show ?thesis using j by auto
qed

text \<open>The loop variant: how far the record is from the last rank (a missing record ends the loop).\<close>

definition remaining :: "'w \<Rightarrow> nat" where
  "remaining w = (case journal w k of None \<Rightarrow> Suc bound | Some r \<Rightarrow> bound - rank r)"

lemma pass_remaining:
  assumes "io_bind load arm w = (Inr None, w')" and "inv w"
  shows "remaining w' < remaining w"
proof (cases "journal w k")
  case None
  obtain r1 r' w1 where "journal w' k = Some r'" by (rule pass_again [OF assms])
  then show ?thesis using None by (simp add: remaining_def)
next
  case (Some r)
  obtain r' where "journal w' k = Some r'" "rank r < rank r'" using pass_rank [OF assms Some] by blast
  then show ?thesis using Some rank_bound [of r'] by (simp add: remaining_def)
qed

end

sublocale journal_loop \<subseteq> decreasing_loop "io_bind load arm" inv remaining
  by unfold_locales (use forwardD [OF pass_forward] pass_remaining in blast)+

context journal_loop
begin

text \<open>Whatever its result, a run only moves the journal forward.\<close>

lemma run_forward:
  assumes "inv w" and "io_loop (io_bind load arm) w = Some (res, w'')"
  shows "inv w'' \<and> ranked_journal_le rank ident (journal w) (journal w'')"
  using assms
proof (induction w rule: run_induct)
  case (stop w res' w')
  then have "w' = w''" by (auto simp: io_loop_stop split: sum.splits)
  then show ?case using forwardD [OF pass_forward stop(2,1)] by simp
next
  case (again w w')
  have f: "inv w' \<and> ranked_journal_le rank ident (journal w) (journal w')"
    by (rule forwardD [OF pass_forward again(2,1)])
  have g: "inv w'' \<and> ranked_journal_le rank ident (journal w') (journal w'')"
    using again by (simp add: io_loop_again)
  show ?case using g ranked_journal_trans [OF conjunct2 [OF f] conjunct2 [OF g]] by simp
qed

text \<open>A successful run ends with an arm taken from a durable record.\<close>

lemma last_arm:
  assumes "inv w" and "io_loop (io_bind load arm) w = Some (Inr outcome, w'')"
  obtains r w1 where "inv w1" "journal w1 k = Some r" "arm r w1 = (Inr (Some outcome), w'')"
proof -
  obtain w0 where i0: "inv w0" and pass: "io_bind load arm w0 = (Inr (Some outcome), w'')"
    using last_pass [OF assms] by blast
  obtain r w1 where ld: "load w0 = (Inr r, w1)" and a: "arm r w1 = (Inr (Some outcome), w'')"
    by (rule io_bind_InrE [OF pass])
  show thesis
    by (rule that [OF conjunct1 [OF forwardD [OF load_forward ld i0]] load_found [OF i0 ld] a])
qed

end

end
