(* ===== verification/Async_Call.thy ===== *)
theory Async_Call
  imports Forward_Loop
begin

text \<open>
  Asynchronous methods that may never return, because they contain a loop without a bound. A call
  acts on a world; \<open>None\<close> means that it does not return. The engine of a platform adapter keeps
  its own state behind a mutex, so the world of its ports is a pair of that state and everything
  else: a port call may change both, which is how other requests that run while the method waits
  are covered. A critical section acts on the state alone.
\<close>

section \<open>Sequencing\<close>

type_synonym ('w, 'e, 'a) async = "'w \<Rightarrow> (('e + 'a) \<times> 'w) option"

definition await :: "('w, 'e, 'a) io \<Rightarrow> ('w, 'e, 'a) async" where
  "await m w = Some (m w)"

definition async_lift :: "'e + 'a \<Rightarrow> ('w, 'e, 'a) async" where
  "async_lift r w = Some (r, w)"

definition async_return :: "'a \<Rightarrow> ('w, 'e, 'a) async" where
  "async_return a w = Some (Inr a, w)"

definition async_fail :: "'e \<Rightarrow> ('w, 'e, 'a) async" where
  "async_fail e w = Some (Inl e, w)"

definition async_bind ::
  "('w, 'e, 'a) async \<Rightarrow> ('a \<Rightarrow> ('w, 'e, 'b) async) \<Rightarrow> ('w, 'e, 'b) async" where
  "async_bind m f w =
     (case m w of
        None \<Rightarrow> None
      | Some (Inl e, w') \<Rightarrow> Some (Inl e, w')
      | Some (Inr a, w') \<Rightarrow> f a w')"

text \<open>\<open>match call.await { Ok(..) => .., Err(..) => .. }\<close>: the result is a value.\<close>

definition async_attempt :: "('w, 'e, 'a) async \<Rightarrow> ('w, 'e, 'e + 'a) async" where
  "async_attempt m w = (case m w of None \<Rightarrow> None | Some (r, w') \<Rightarrow> Some (Inr r, w'))"

text \<open>A critical section, and one that only reads.\<close>

definition locked :: "('s, 'e, 'a) io \<Rightarrow> ('s \<times> 'w, 'e, 'a) async" where
  "locked m = (\<lambda>(s, w). case m s of (r, s') \<Rightarrow> Some (r, s', w))"

definition reading :: "('s \<Rightarrow> 'a) \<Rightarrow> ('s \<times> 'w, 'e, 'a) async" where
  "reading f = (\<lambda>(s, w). Some (Inr (f s), s, w))"

text \<open>An unbounded loop with local variables \<open>'l\<close>, which are dropped when it ends.\<close>

definition async_loop :: "('l \<times> 'w, 'e, 'a option) io \<Rightarrow> 'l \<Rightarrow> ('w, 'e, 'a) async" where
  "async_loop pass l w =
     (case io_loop pass (l, w) of None \<Rightarrow> None | Some (r, _, w') \<Rightarrow> Some (r, w'))"

section \<open>Evaluation and inversion\<close>

named_theorems async_simps \<open>unfolding of the asynchronous combinators\<close>

lemma async_apply [simp, async_simps]:
  "await m w = Some (m w)"
  "async_lift r w = Some (r, w)"
  "async_return a w = Some (Inr a, w)"
  "async_fail e w = Some (Inl e, w)"
  by (simp_all add: await_def async_lift_def async_return_def async_fail_def)

lemma async_bind_cases [async_simps]:
  "m w = Some (Inr a, w') \<Longrightarrow> async_bind m f w = f a w'"
  "m w = Some (Inl e, w') \<Longrightarrow> async_bind m f w = Some (Inl e, w')"
  "m w = None \<Longrightarrow> async_bind m f w = None"
  by (simp_all add: async_bind_def)

lemma async_bind_lift [simp]:
  "async_bind (async_lift (Inr a)) f = f a"
  "async_bind (async_lift (Inl e)) f = async_fail e"
  "async_bind (async_return a) f = f a"
  "async_bind (async_fail e) f = async_fail e"
  by (auto simp: async_bind_def)

lemma async_bind_eq_Inr:
  "async_bind m f w = Some (Inr b, w'') \<longleftrightarrow>
     (\<exists>a w'. m w = Some (Inr a, w') \<and> f a w' = Some (Inr b, w''))"
  by (auto simp: async_bind_def split: option.splits prod.splits sum.splits)

lemma async_bind_eq_Some:
  "async_bind m f w = Some (r, w'') \<longleftrightarrow>
     (\<exists>e. m w = Some (Inl e, w'') \<and> r = Inl e) \<or>
     (\<exists>a w'. m w = Some (Inr a, w') \<and> f a w' = Some (r, w''))"
  by (auto simp: async_bind_def split: option.splits prod.splits sum.splits)

lemma async_bind_InrE:
  assumes "async_bind m f w = Some (Inr b, w'')"
  obtains a w' where "m w = Some (Inr a, w')" and "f a w' = Some (Inr b, w'')"
  using assms by (auto simp: async_bind_eq_Inr)

lemma async_lift_eq_Some [simp]: "async_lift r w = Some (r', w') \<longleftrightarrow> r' = r \<and> w' = w"
  by (auto simp: async_lift_def)

lemma async_attempt_eq_Some [simp]:
  "async_attempt m w = Some (x, w') \<longleftrightarrow> (\<exists>r. m w = Some (r, w') \<and> x = Inr r)"
  by (auto simp: async_attempt_def split: option.splits prod.splits)

lemma locked_apply [simp, async_simps]: "locked m (s, w) = Some (fst (m s), snd (m s), w)"
  by (simp add: locked_def split: prod.split)

lemma reading_apply [simp, async_simps]: "reading f (s, w) = Some (Inr (f s), s, w)"
  by (simp add: reading_def)

section \<open>Steps of a relation\<close>

text \<open>
  A relation that the world may move along while a call waits. A method built from critical
  sections and port calls that are steps of the relation is a step of it too, whatever it returns.
\<close>

definition async_steps :: "('w \<Rightarrow> 'w \<Rightarrow> bool) \<Rightarrow> ('w, 'e, 'a) async \<Rightarrow> bool" where
  "async_steps R m \<longleftrightarrow> (\<forall>w r w'. m w = Some (r, w') \<longrightarrow> R w w')"

definition io_steps :: "('w \<Rightarrow> 'w \<Rightarrow> bool) \<Rightarrow> ('w, 'e, 'a) io \<Rightarrow> bool" where
  "io_steps R m \<longleftrightarrow> (\<forall>w r w'. m w = (r, w') \<longrightarrow> R w w')"

lemma async_stepsD: "async_steps R m \<Longrightarrow> m w = Some (r, w') \<Longrightarrow> R w w'"
  by (simp add: async_steps_def)

lemma io_stepsD: "io_steps R m \<Longrightarrow> m w = (r, w') \<Longrightarrow> R w w'"
  by (simp add: io_steps_def)

locale step_relation =
  fixes R :: "'w \<Rightarrow> 'w \<Rightarrow> bool"
  assumes R_refl: "R w w"
    and R_trans: "R w w' \<Longrightarrow> R w' w'' \<Longrightarrow> R w w''"
begin

lemma steps_pure [intro, simp]:
  "async_steps R (async_lift r)" "async_steps R (async_return a)" "async_steps R (async_fail e)"
  by (auto simp: async_steps_def R_refl)

lemma steps_bind [intro]:
  assumes "async_steps R m" and "\<And>a. async_steps R (f a)"
  shows "async_steps R (async_bind m f)"
  unfolding async_steps_def async_bind_eq_Some
  using assms [unfolded async_steps_def] R_trans by blast

lemma steps_attempt [intro]: "async_steps R m \<Longrightarrow> async_steps R (async_attempt m)"
  by (auto simp: async_steps_def)

lemma steps_await [intro]: "io_steps R m \<Longrightarrow> async_steps R (await m)"
  by (auto simp: async_steps_def io_steps_def await_def)

lemma steps_try [intro]: "io_steps R m \<Longrightarrow> io_steps R (io_try h m)"
  by (auto simp: io_steps_def io_try_def split: prod.splits)

lemma steps_io_loop:
  assumes pass: "\<And>x r x'. pass x = (r, x') \<Longrightarrow> R (snd x) (snd x')"
    and "io_loop pass x = Some y"
  shows "R (snd x) (snd (snd y))"
proof -
  have "(\<forall>x r x'. pass x = (r, x') \<longrightarrow> R (snd x) (snd x')) \<longrightarrow> R (snd x) (snd (snd y))"
    using assms(2)
  proof (rule io_loop.raw_induct [rotated])
    fix loop pass x y
    assume IH: "\<And>pass x y. loop pass x = Some y \<Longrightarrow>
        (\<forall>x r x'. pass x = (r, x') \<longrightarrow> R (snd x) (snd x')) \<longrightarrow> R (snd x) (snd (snd y))"
      and eq: "(case pass x of
          (Inl e, w') \<Rightarrow> Some (Inl e, w')
        | (Inr (Some outcome), w') \<Rightarrow> Some (Inr outcome, w')
        | (Inr None, w') \<Rightarrow> loop pass w') = Some y"
    obtain res x1 where x1: "pass x = (res, x1)" by (cases "pass x")
    show "(\<forall>x r x'. pass x = (r, x') \<longrightarrow> R (snd x) (snd x')) \<longrightarrow> R (snd x) (snd (snd y))"
    proof
      assume pass: "\<forall>x r x'. pass x = (r, x') \<longrightarrow> R (snd x) (snd x')"
      then have first: "R (snd x) (snd x1)" using x1 by blast
      show "R (snd x) (snd (snd y))"
      proof (cases "res = Inr None")
        case True
        then have "R (snd x1) (snd (snd y))" using IH [of pass x1 y] eq x1 pass by simp
        with first show ?thesis by (rule R_trans)
      next
        case False
        then have "snd y = x1" using eq x1 by (cases y) (auto split: sum.splits option.splits)
        with first show ?thesis by simp
      qed
    qed
  qed
  with pass show ?thesis by blast
qed

lemma steps_loop [intro]:
  assumes "\<And>x r x'. pass x = (r, x') \<Longrightarrow> R (snd x) (snd x')"
  shows "async_steps R (async_loop pass l)"
  using steps_io_loop [OF assms]
  by (fastforce simp: async_steps_def async_loop_def split: option.splits prod.splits)

end

end
