(* ===== verification/Tasks_Execution.thy ===== *)
theory Tasks_Execution
  imports Tasks_Dispatch Async_Call
begin

text \<open>
  The execution of a claimed task (\<open>aster_forge_tasks/src/execution.rs\<close>) with its heartbeats
  (\<open>heartbeat.rs\<close>): the product's store as a port, the completion of a task by exactly one fenced
  write, and what that gives when the store keeps the contract its trait documents
  (\<open>fences_task\<close>). The second half is about the lease guard: while a worker's guard is active,
  its persisted lease has not run out.
\<close>

section \<open>The product's store\<close>

record 't TaskPermanentFailure =
  pf_attempt_count :: i32
  pf_storage_error :: string
  pf_display_error :: string
  pf_failed_steps_json :: "string option"
  pf_failure_can_retry :: bool
  pf_finished_at :: 't

record 't TaskRetryUpdate =
  ru_attempt_count :: i32
  ru_retry_at :: 't
  ru_storage_error :: string
  ru_display_error :: string
  ru_failed_steps_json :: "string option"

text \<open>
  \<open>TaskHeartbeatStore\<close> and \<open>ClaimedTaskExecutionStore\<close>. The task body works with the lease guard,
  which the heartbeat worker changes meanwhile, and may never return.
\<close>

record ('w, 'e, 'task, 't) ClaimedTaskExecutionStore =
  xs_from_core :: "TaskCoreError \<Rightarrow> 'e"
  xs_touch_task_heartbeat :: "TaskLease \<Rightarrow> 't \<Rightarrow> 't \<Rightarrow> ('w, 'e, TaskHeartbeatOutcome) io"
  xs_process_task :: "'task \<Rightarrow> (TaskLeaseGuard \<times> 'w, 'e, unit) async"
  xs_confirm_task_succeeded :: "'task \<Rightarrow> TaskLease \<Rightarrow> ('w, 'e, bool) io"
  xs_is_lease_lost_error :: "'e \<Rightarrow> bool"
  xs_is_lease_renewal_timed_out_error :: "'e \<Rightarrow> bool"
  xs_is_worker_shutdown_requested_error :: "'e \<Rightarrow> bool"
  xs_is_cancellation_requested_error :: "'e \<Rightarrow> bool"
  xs_cancel_task_if_requested :: "'task \<Rightarrow> TaskLease \<Rightarrow> ('w, 'e, bool) io"
  xs_retry_class :: "'task \<Rightarrow> 'e \<Rightarrow> TaskRetryClass"
  xs_storage_error :: "'e \<Rightarrow> string"
  xs_display_error :: "string \<Rightarrow> string"
  xs_failed_steps_json :: "'task \<Rightarrow> string \<Rightarrow> 'w \<Rightarrow> string option \<times> 'w"
  xs_mark_task_failed :: "'task \<Rightarrow> TaskLease \<Rightarrow> 't TaskPermanentFailure \<Rightarrow> ('w, 'e, bool) io"
  xs_mark_task_retry :: "'task \<Rightarrow> TaskLease \<Rightarrow> 't TaskRetryUpdate \<Rightarrow> ('w, 'e, bool) io"
  xs_release_task_for_shutdown :: "'task \<Rightarrow> TaskLease \<Rightarrow> ('w, 'e, bool) io"
  xs_record_task_transition :: "'task \<Rightarrow> string \<Rightarrow> 'w \<Rightarrow> 'w"
  xs_wake_dispatcher :: "'w \<Rightarrow> 'w"

record 't ClaimedTaskExecutionConfig =
  cf_renewal_timeout :: Duration
  cf_heartbeat_interval :: Duration
  cf_lease_expires_at :: "'t \<Rightarrow> 't"
  cf_retry_delay_secs :: "i32 \<Rightarrow> i64"

section \<open>Heartbeats\<close>

text \<open>A tick of the heartbeat timer: the clocks and the shutdown token that its pass reads.\<close>

record 't HeartbeatTick =
  hb_now :: 't
  hb_answered_at :: Instant
  hb_shutdown :: bool

text \<open>
  \<open>run_task_heartbeat_loop\<close> on the ticks that the timer delivers before the stop token is
  cancelled.
\<close>

fun run_task_heartbeat_loop ::
  "('w, 'e, 'task, 't) ClaimedTaskExecutionStore \<Rightarrow> ('t \<Rightarrow> 't) \<Rightarrow> 't HeartbeatTick list
   \<Rightarrow> TaskLeaseGuard \<times> 'w \<Rightarrow> TaskLeaseGuard \<times> 'w" where
  "run_task_heartbeat_loop store lease_expires_at [] s = s"
| "run_task_heartbeat_loop store lease_expires_at (tick # ticks) (lease_guard, w) =
     (case xs_touch_task_heartbeat store (lg_lease lease_guard) (hb_now tick)
             (lease_expires_at (hb_now tick)) w of
        (result, w') \<Rightarrow>
          (case evaluate_heartbeat_result (xs_from_core store) (hb_answered_at tick) (hb_shutdown tick)
                  result lease_guard of
             (Inl _, lease_guard') \<Rightarrow> (lease_guard', w')
           | (Inr _, lease_guard') \<Rightarrow>
               run_task_heartbeat_loop store lease_expires_at ticks (lease_guard', w')))"

section \<open>Completion\<close>

text \<open>Calls that cannot fail.\<close>

definition infallible :: "('w \<Rightarrow> 'a \<times> 'w) \<Rightarrow> ('w, 'e, 'a) async" where
  "infallible f w = (case f w of (a, w') \<Rightarrow> Some (Inr a, w'))"

definition hook :: "('w \<Rightarrow> 'w) \<Rightarrow> ('w, 'e, unit) async" where
  "hook f w = Some (Inr (), f w)"

definition cancellation_outcome ::
  "('w, 'e, 'task, 't) ClaimedTaskExecutionStore \<Rightarrow> 'task \<Rightarrow> TaskLease
   \<Rightarrow> ('w, 'e, TaskDispatchOutcome option) async" where
  "cancellation_outcome store task lease =
     async_bind (await (xs_cancel_task_if_requested store task lease)) (\<lambda>canceled.
       if canceled then
         async_bind (hook (xs_record_task_transition store task ''canceled'')) (\<lambda>_.
           async_return (Some outcome_canceled))
       else async_return None)"

text \<open>\<open>cancellation_outcome(..).await?.unwrap_or_default()\<close>.\<close>

definition canceled_or_default ::
  "('w, 'e, 'task, 't) ClaimedTaskExecutionStore \<Rightarrow> 'task \<Rightarrow> TaskLease
   \<Rightarrow> ('w, 'e, TaskDispatchOutcome) async" where
  "canceled_or_default store task lease =
     async_bind (cancellation_outcome store task lease) (\<lambda>outcome.
       async_return (unwrap_or outcome_default outcome))"

definition is_control_error :: "('w, 'e, 'task, 't) ClaimedTaskExecutionStore \<Rightarrow> 'e \<Rightarrow> bool" where
  "is_control_error store error \<longleftrightarrow>
     xs_is_lease_lost_error store error \<or> xs_is_lease_renewal_timed_out_error store error
     \<or> xs_is_worker_shutdown_requested_error store error
     \<or> xs_is_cancellation_requested_error store error"

text \<open>The arm of a control error: a shutdown gives the lease back.\<close>

definition stop_claimed_task ::
  "('w, 'e, 'task, 't) ClaimedTaskExecutionStore \<Rightarrow> 'task \<Rightarrow> TaskLease \<Rightarrow> 'e
   \<Rightarrow> ('w, 'e, TaskDispatchOutcome) async" where
  "stop_claimed_task store task lease error =
     async_bind
       (if xs_is_worker_shutdown_requested_error store error then
          async_bind (await (xs_release_task_for_shutdown store task lease)) (\<lambda>released.
            if released then hook (xs_wake_dispatcher store) else async_return ())
        else async_return ())
       (\<lambda>_. canceled_or_default store task lease)"

text \<open>
  The arm of an ordinary error. \<open>ch_add_seconds\<close> is \<open>None\<close> where the addition of
  \<open>chrono::Duration::seconds\<close> panics: then nothing is returned.
\<close>

definition fail_claimed_task ::
  "('w, 'e, 'task, 't) ClaimedTaskExecutionStore \<Rightarrow> ('task, 'kind) TaskView \<Rightarrow> ('t, 'd) Chrono \<Rightarrow> 't
   \<Rightarrow> 'task \<Rightarrow> TaskLease \<Rightarrow> (i32 \<Rightarrow> i64) \<Rightarrow> 'e \<Rightarrow> ('w, 'e, TaskDispatchOutcome) async" where
  "fail_claimed_task store view chrono now task lease retry_delay_secs error =
     (let attempt_count = i32_saturating_add (tv_attempt_count view task) 1;
          storage_error = xs_storage_error store error;
          display_error = xs_display_error store storage_error
      in async_bind (infallible (xs_failed_steps_json store task display_error)) (\<lambda>failed_steps_json.
         let retry_class = xs_retry_class store task error in
         if should_auto_retry retry_class \<and> attempt_count < tv_max_attempts view task then
           (case ch_add_seconds chrono now (retry_delay_secs attempt_count) of
              None \<Rightarrow> (\<lambda>_. None)
            | Some retry_at \<Rightarrow>
                async_bind
                  (await (xs_mark_task_retry store task lease
                     \<lparr>ru_attempt_count = attempt_count, ru_retry_at = retry_at,
                      ru_storage_error = storage_error, ru_display_error = display_error,
                      ru_failed_steps_json = failed_steps_json\<rparr>)) (\<lambda>retried.
                if \<not> retried then canceled_or_default store task lease
                else
                  async_bind (hook (xs_wake_dispatcher store)) (\<lambda>_.
                  async_bind (hook (xs_record_task_transition store task ''retry'')) (\<lambda>_.
                  async_return outcome_retried))))
         else
           async_bind
             (await (xs_mark_task_failed store task lease
                \<lparr>pf_attempt_count = attempt_count, pf_storage_error = storage_error,
                 pf_display_error = display_error, pf_failed_steps_json = failed_steps_json,
                 pf_failure_can_retry = can_manual_retry retry_class, pf_finished_at = now\<rparr>)) (\<lambda>failed.
           if \<not> failed then canceled_or_default store task lease
           else
             async_bind (hook (xs_record_task_transition store task ''failed'')) (\<lambda>_.
             async_return outcome_failed))))"

definition complete_claimed_task ::
  "('w, 'e, 'task, 't) ClaimedTaskExecutionStore \<Rightarrow> ('task, 'kind) TaskView \<Rightarrow> ('t, 'd) Chrono \<Rightarrow> 't
   \<Rightarrow> 'task \<Rightarrow> TaskLease \<Rightarrow> 'e + unit \<Rightarrow> (i32 \<Rightarrow> i64) \<Rightarrow> ('w, 'e, TaskDispatchOutcome) async" where
  "complete_claimed_task store view chrono now task lease task_result retry_delay_secs =
     async_bind (cancellation_outcome store task lease) (\<lambda>canceled.
     case canceled of
       Some outcome \<Rightarrow> async_return outcome
     | None \<Rightarrow>
         (case task_result of
            Inr _ \<Rightarrow>
              async_bind (await (xs_confirm_task_succeeded store task lease)) (\<lambda>confirmed.
                if \<not> confirmed then canceled_or_default store task lease
                else
                  async_bind (hook (xs_record_task_transition store task ''succeeded'')) (\<lambda>_.
                  async_return outcome_succeeded))
          | Inl error \<Rightarrow>
              if is_control_error store error then stop_claimed_task store task lease error
              else fail_claimed_task store view chrono now task lease retry_delay_secs error))"

section \<open>Execution\<close>

text \<open>
  What a run of \<open>process_claimed_task\<close> reads: when the guard was made, the heartbeats before the
  check of the guard, the clocks and the token at that check, and the time of completion. Later
  heartbeats act on the guard and the store while the other calls wait, so they belong to those.
\<close>

record 't ExecutionInputs =
  in_started_at :: Instant
  in_ticks :: "'t HeartbeatTick list"
  in_checked_at :: Instant
  in_shutdown :: bool
  in_now :: 't

definition process_claimed_task ::
  "('w, 'e, 'task, 't) ClaimedTaskExecutionStore \<Rightarrow> ('task, 'kind) TaskView \<Rightarrow> ('t, 'd) Chrono
   \<Rightarrow> 't ExecutionInputs \<Rightarrow> 'task \<Rightarrow> TaskLease \<Rightarrow> 't ClaimedTaskExecutionConfig
   \<Rightarrow> ('w, 'e, TaskDispatchOutcome) async" where
  "process_claimed_task store view chrono inputs task lease config w =
     (let lease_guard = with_shutdown_token (in_started_at inputs) lease (cf_renewal_timeout config) in
      case run_task_heartbeat_loop store (cf_lease_expires_at config) (in_ticks inputs) (lease_guard, w) of
        (lease_guard, w) \<Rightarrow>
          if tv_cancellation_requested view task then canceled_or_default store task lease w
          else
            (case guard_ensure_active (in_checked_at inputs) (in_shutdown inputs) lease_guard of
               (Inr _, lease_guard) \<Rightarrow>
                 (case xs_process_task store task (lease_guard, w) of
                    None \<Rightarrow> None
                  | Some (task_result, _, w) \<Rightarrow>
                      complete_claimed_task store view chrono (in_now inputs) task lease task_result
                        (cf_retry_delay_secs config) w)
             | (Inl error, _) \<Rightarrow>
                 complete_claimed_task store view chrono (in_now inputs) task lease
                   (Inl (xs_from_core store error)) (cf_retry_delay_secs config) w))"

section \<open>The contract of a fenced store\<close>

text \<open>
  What a lease came to: a write of its own worker, or \<open>SettledElsewhere\<close> when another owner or
  the user took the task over first. \<open>settled\<close> and \<open>woken\<close> read the authoritative storage for one
  lease: the write that ended it, if any, and whether the dispatcher was woken after that.
\<close>

datatype 't TaskSettlement =
    SettledSuccess
  | SettledCanceled
  | SettledRetry i32 't
  | SettledFailed i32 bool
  | SettledReleased
  | SettledElsewhere

text \<open>A settlement is final.\<close>

definition keeps_settlement ::
  "('w \<Rightarrow> 't TaskSettlement option) \<Rightarrow> ('w \<Rightarrow> bool) \<Rightarrow> 'w \<Rightarrow> 'w \<Rightarrow> bool" where
  "keeps_settlement settled woken w w' \<longleftrightarrow>
     (settled w \<noteq> None \<longrightarrow> settled w' = settled w) \<and> (woken w \<longrightarrow> woken w')"

text \<open>A call that writes nothing for the lease, while others go on.\<close>

definition bystander ::
  "('w \<Rightarrow> 't TaskSettlement option) \<Rightarrow> ('w \<Rightarrow> bool) \<Rightarrow> 'w \<Rightarrow> 'w \<Rightarrow> bool" where
  "bystander settled woken w w' \<longleftrightarrow>
     keeps_settlement settled woken w w'
     \<and> (settled w' = settled w \<or> settled w' = Some SettledElsewhere)"

text \<open>A fenced write: \<open>true\<close> only after a commit, \<open>false\<close> without changes.\<close>

definition fenced_write ::
  "('w \<Rightarrow> 't TaskSettlement option) \<Rightarrow> ('w \<Rightarrow> bool) \<Rightarrow> 't TaskSettlement \<Rightarrow> ('w, 'e, bool) io \<Rightarrow> bool" where
  "fenced_write settled woken s m \<longleftrightarrow>
     (\<forall>w w'. m w = (Inr True, w') \<longrightarrow>
        keeps_settlement settled woken w w' \<and> settled w = None \<and> settled w' = Some s)
     \<and> (\<forall>w w'. m w = (Inr False, w') \<longrightarrow> bystander settled woken w w')"

definition fences_task ::
  "('w, 'e, 'task, 't) ClaimedTaskExecutionStore \<Rightarrow> 'task \<Rightarrow> TaskLease
   \<Rightarrow> ('w \<Rightarrow> 't TaskSettlement option) \<Rightarrow> ('w \<Rightarrow> bool) \<Rightarrow> bool" where
  "fences_task store task lease settled woken \<longleftrightarrow>
     (\<forall>now expires w. bystander settled woken w
        (snd (xs_touch_task_heartbeat store lease now expires w)))
     \<and> (\<forall>g w r g' w'. xs_process_task store task (g, w) = Some (r, g', w') \<longrightarrow>
          bystander settled woken w w'
          \<or> keeps_settlement settled woken w w' \<and> settled w' = Some SettledSuccess)
     \<and> (\<forall>w b w'. xs_confirm_task_succeeded store task lease w = (Inr b, w') \<longrightarrow>
          bystander settled woken w w' \<and> (b \<longrightarrow> settled w' = Some SettledSuccess))
     \<and> fenced_write settled woken SettledCanceled (xs_cancel_task_if_requested store task lease)
     \<and> (\<forall>update. fenced_write settled woken
          (SettledRetry (ru_attempt_count update) (ru_retry_at update))
          (xs_mark_task_retry store task lease update))
     \<and> (\<forall>failure. fenced_write settled woken
          (SettledFailed (pf_attempt_count failure) (pf_failure_can_retry failure))
          (xs_mark_task_failed store task lease failure))
     \<and> fenced_write settled woken SettledReleased (xs_release_task_for_shutdown store task lease)
     \<and> (\<forall>display w. bystander settled woken w (snd (xs_failed_steps_json store task display w)))
     \<and> (\<forall>status w. bystander settled woken w (xs_record_task_transition store task status w))
     \<and> (\<forall>w. bystander settled woken w (xs_wake_dispatcher store w)
          \<and> (settled w \<noteq> None \<longrightarrow> woken (xs_wake_dispatcher store w)))"

text \<open>What the counters of a run say about its lease.\<close>

definition outcome_of_settlement ::
  "('w, 'e, 'task, 't) ClaimedTaskExecutionStore \<Rightarrow> ('task, 'kind) TaskView \<Rightarrow> 'task
   \<Rightarrow> TaskDispatchOutcome \<Rightarrow> 't TaskSettlement option \<Rightarrow> bool \<Rightarrow> bool" where
  "outcome_of_settlement store view task outcome s awake \<longleftrightarrow>
     (let attempt = i32_saturating_add (tv_attempt_count view task) 1 in
      (outcome = outcome_succeeded \<and> s = Some SettledSuccess)
      \<or> (outcome = outcome_canceled \<and> s = Some SettledCanceled)
      \<or> (outcome = outcome_retried \<and> (\<exists>retry_at. s = Some (SettledRetry attempt retry_at))
          \<and> attempt < tv_max_attempts view task \<and> awake)
      \<or> (outcome = outcome_failed
          \<and> (\<exists>error. \<not> is_control_error store error
               \<and> s = Some (SettledFailed attempt (can_manual_retry (xs_retry_class store task error)))
               \<and> (should_auto_retry (xs_retry_class store task error) \<longrightarrow>
                    tv_max_attempts view task \<le> attempt)))
      \<or> (outcome = outcome_default
          \<and> (s \<in> {None, Some SettledElsewhere, Some SettledSuccess}
              \<or> s = Some SettledReleased \<and> awake)))"

section \<open>Every run settles its lease at most once\<close>

lemma hook_eq [simp]: "hook f w = Some (r, w') \<longleftrightarrow> r = Inr () \<and> w' = f w"
  by (auto simp: hook_def)

lemma infallible_eq [simp]: "infallible f w = Some (r, w') \<longleftrightarrow> r = Inr (fst (f w)) \<and> w' = snd (f w)"
  by (auto simp: infallible_def split: prod.splits)

lemma await_eq [simp]: "await m w = Some (r, w') \<longleftrightarrow> m w = (r, w')"
  by (simp add: await_def)

lemma fences_taskD:
  assumes "fences_task store task lease settled woken"
  shows "bystander settled woken w (snd (xs_touch_task_heartbeat store lease now expires w))"
    and "xs_process_task store task (g, w) = Some (r, g', w') \<Longrightarrow> bystander settled woken w w'
          \<or> keeps_settlement settled woken w w' \<and> settled w' = Some SettledSuccess"
    and "xs_confirm_task_succeeded store task lease w = (Inr b, w') \<Longrightarrow>
          bystander settled woken w w' \<and> (b \<longrightarrow> settled w' = Some SettledSuccess)"
    and "fenced_write settled woken SettledCanceled (xs_cancel_task_if_requested store task lease)"
    and "fenced_write settled woken (SettledRetry (ru_attempt_count update) (ru_retry_at update))
          (xs_mark_task_retry store task lease update)"
    and "fenced_write settled woken (SettledFailed (pf_attempt_count failure) (pf_failure_can_retry failure))
          (xs_mark_task_failed store task lease failure)"
    and "fenced_write settled woken SettledReleased (xs_release_task_for_shutdown store task lease)"
    and "bystander settled woken w (snd (xs_failed_steps_json store task display w))"
    and "bystander settled woken w (xs_record_task_transition store task status w)"
    and "bystander settled woken w (xs_wake_dispatcher store w)"
    and "settled w \<noteq> None \<Longrightarrow> woken (xs_wake_dispatcher store w)"
  using assms unfolding fences_task_def by blast+

lemma bystander_settled:
  assumes "bystander settled woken w w'"
  shows "settled w = Some s \<Longrightarrow> settled w' = Some s" and "woken w \<Longrightarrow> woken w'"
    and "settled w = None \<Longrightarrow> settled w' = None \<or> settled w' = Some SettledElsewhere"
  using assms by (auto simp: bystander_def keeps_settlement_def)

text \<open>No completion has written for the lease yet, though the task body may have.\<close>

definition uncompleted :: "'t TaskSettlement option \<Rightarrow> bool" where
  "uncompleted s \<longleftrightarrow> s = None \<or> s = Some SettledElsewhere \<or> s = Some SettledSuccess"

lemma bystander_uncompleted:
  "bystander settled woken w w' \<Longrightarrow> uncompleted (settled w) \<Longrightarrow> uncompleted (settled w')"
  by (auto simp: bystander_def keeps_settlement_def uncompleted_def)

lemma fenced_writeD:
  assumes "fenced_write settled woken s m" and "m w = (Inr b, w')"
  shows "b \<Longrightarrow> settled w = None" and "b \<Longrightarrow> settled w' = Some s"
    and "\<not> b \<Longrightarrow> bystander settled woken w w'"
  using assms unfolding fenced_write_def by auto

lemma cancellation_outcome_Inr:
  fixes store :: "('w, 'e, 'task, 't) ClaimedTaskExecutionStore"
  assumes "cancellation_outcome store task lease w = Some (Inr canceled, w')"
  obtains (canceled) w1 where "xs_cancel_task_if_requested store task lease w = (Inr True, w1)"
      "canceled = Some outcome_canceled" "w' = xs_record_task_transition store task ''canceled'' w1"
  | (going_on) "xs_cancel_task_if_requested store task lease w = (Inr False, w')" "canceled = None"
proof -
  from assms obtain b w1 where cancel: "xs_cancel_task_if_requested store task lease w = (Inr b, w1)"
    and rest: "(if b then async_bind (hook (xs_record_task_transition store task ''canceled''))
                            (\<lambda>_. async_return (Some outcome_canceled))
                else async_return None) w1 = Some (Inr canceled :: 'e + _, w')"
    unfolding cancellation_outcome_def async_bind_eq_Inr await_eq by (elim exE conjE) (rule that)
  show thesis
  proof (cases b)
    case True
    then show thesis using that(1) [of w1] cancel rest by (auto simp: async_bind_eq_Inr)
  next
    case False
    then show thesis using that(2) cancel rest by simp
  qed
qed

lemma canceled_or_default_settles:
  assumes fences: "fences_task store task lease settled woken"
    and run: "canceled_or_default store task lease w = Some (Inr outcome, w')"
  shows "(outcome = outcome_canceled \<and> settled w = None \<and> settled w' = Some SettledCanceled)
    \<or> (outcome = outcome_default \<and> bystander settled woken w w')"
proof -
  from run obtain canceled where cancel: "cancellation_outcome store task lease w = Some (Inr canceled, w')"
    and outcome: "outcome = unwrap_or outcome_default canceled"
    by (auto simp: canceled_or_default_def async_bind_eq_Inr)
  from cancel show ?thesis
  proof (cases rule: cancellation_outcome_Inr)
    case (canceled w1)
    then show ?thesis
      using outcome fenced_writeD [OF fences_taskD(4) [OF fences] canceled(1)]
        bystander_settled(1) [OF fences_taskD(9) [OF fences]] by (auto simp: unwrap_or_def)
  next
    case going_on
    then show ?thesis
      using outcome fenced_writeD(3) [OF fences_taskD(4) [OF fences] going_on(1)] by (simp add: unwrap_or_def)
  qed
qed

text \<open>The control errors: a released lease wakes the dispatcher.\<close>

lemma stop_claimed_task_settles:
  assumes fences: "fences_task store task lease settled woken"
    and fresh: "uncompleted (settled w)"
    and run: "stop_claimed_task store task lease error w = Some (Inr outcome, w')"
  shows "outcome_of_settlement store view task outcome (settled w') (woken w')"
proof -
  from run obtain w1 where last: "canceled_or_default store task lease w1 = Some (Inr outcome, w')"
    and first: "w1 = w \<or> (\<exists>b w0. xs_release_task_for_shutdown store task lease w = (Inr b, w0)
                  \<and> w1 = (if b then xs_wake_dispatcher store w0 else w0))"
    by (fastforce simp: stop_claimed_task_def async_bind_eq_Inr split: if_split_asm)
  have "uncompleted (settled w1) \<or> settled w1 = Some SettledReleased \<and> woken w1"
    using first
  proof (elim disjE exE conjE)
    fix b w0 assume release: "xs_release_task_for_shutdown store task lease w = (Inr b, w0)"
      and w1: "w1 = (if b then xs_wake_dispatcher store w0 else w0)"
    note effect = fenced_writeD [OF fences_taskD(7) [OF fences] release]
    show ?thesis
    proof (cases b)
      case True
      then have "settled w0 = Some SettledReleased" using effect by simp
      then show ?thesis
        using True w1 bystander_settled(1) [OF fences_taskD(10) [OF fences]]
          fences_taskD(11) [OF fences, of w0] by simp
    next
      case False
      then have "bystander settled woken w w1" using effect w1 by simp
      from bystander_uncompleted [OF this fresh] show ?thesis ..
    qed
  qed (use fresh in auto)
  with canceled_or_default_settles [OF fences last] bystander_settled [of settled woken w1 w']
    bystander_uncompleted [of settled woken w1 w'] show ?thesis
    by (auto simp: outcome_of_settlement_def Let_def uncompleted_def)
qed

text \<open>The ordinary errors.\<close>

lemma fail_claimed_task_settles:
  assumes fences: "fences_task store task lease settled woken"
    and ordinary: "\<not> is_control_error store error"
    and fresh: "uncompleted (settled w)"
    and run: "fail_claimed_task store view chrono now task lease retry_delay_secs error w = Some (Inr outcome, w')"
  shows "outcome_of_settlement store view task outcome (settled w') (woken w')"
proof -
  define attempt where "attempt = i32_saturating_add (tv_attempt_count view task) 1"
  define w0 where "w0 = snd (xs_failed_steps_json store task (xs_display_error store (xs_storage_error store error)) w)"
  have w0: "uncompleted (settled w0)"
    unfolding w0_def by (rule bystander_uncompleted [OF fences_taskD(8) [OF fences] fresh])
  have stale: ?thesis
    if "uncompleted (settled w1)"
      and "canceled_or_default store task lease w1 = Some (Inr outcome, w')" for w1
    using canceled_or_default_settles [OF fences that(2)] that(1) bystander_uncompleted [of settled woken w1 w']
    by (auto simp: outcome_of_settlement_def Let_def uncompleted_def)
  show ?thesis
  proof (cases "should_auto_retry (xs_retry_class store task error) \<and> attempt < tv_max_attempts view task")
    case True
    then obtain update b w1 where retry: "xs_mark_task_retry store task lease update w0 = (Inr b, w1)"
      and update: "ru_attempt_count update = attempt"
      and rest: "if b then outcome = outcome_retried
                   \<and> w' = xs_record_task_transition store task ''retry'' (xs_wake_dispatcher store w1)
                 else canceled_or_default store task lease w1 = Some (Inr outcome, w')"
      using run by (auto simp: fail_claimed_task_def Let_def async_bind_eq_Inr w0_def attempt_def
          split: if_splits option.splits)
    note effect = fenced_writeD [OF fences_taskD(5) [OF fences] retry]
    show ?thesis
    proof (cases b)
      case b: True
      then have s: "settled w1 = Some (SettledRetry attempt (ru_retry_at update))" using effect update by simp
      then have "settled (xs_wake_dispatcher store w1) = settled w1" "woken (xs_wake_dispatcher store w1)"
        using bystander_settled(1) [OF fences_taskD(10) [OF fences]] fences_taskD(11) [OF fences, of w1] by auto
      then have "settled w' = settled w1" "woken w'"
        using s b rest bystander_settled(1,2) [OF fences_taskD(9) [OF fences]] by auto
      then show ?thesis
        using True b rest s by (simp add: outcome_of_settlement_def Let_def attempt_def)
    next
      case False
      then show ?thesis using stale [of w1] rest effect bystander_uncompleted [of settled woken w0 w1] w0 by simp
    qed
  next
    case False
    then obtain failure b w1 where failed: "xs_mark_task_failed store task lease failure w0 = (Inr b, w1)"
      and failure: "pf_attempt_count failure = attempt"
        "pf_failure_can_retry failure = can_manual_retry (xs_retry_class store task error)"
      and rest: "if b then outcome = outcome_failed \<and> w' = xs_record_task_transition store task ''failed'' w1
                 else canceled_or_default store task lease w1 = Some (Inr outcome, w')"
      using run by (auto simp: fail_claimed_task_def Let_def async_bind_eq_Inr w0_def attempt_def
          split: if_splits option.splits)
    note effect = fenced_writeD [OF fences_taskD(6) [OF fences] failed]
    show ?thesis
    proof (cases b)
      case b: True
      then have "settled w' = Some (SettledFailed attempt (can_manual_retry (xs_retry_class store task error)))"
        using effect failure rest bystander_settled(1) [OF fences_taskD(9) [OF fences]] by auto
      then show ?thesis
        using False b rest ordinary by (auto simp: outcome_of_settlement_def Let_def attempt_def)
    next
      case False
      then show ?thesis using stale [of w1] rest effect bystander_uncompleted [of settled woken w0 w1] w0 by simp
    qed
  qed
qed

lemma complete_claimed_task_settles:
  assumes fences: "fences_task store task lease settled woken"
    and fresh: "uncompleted (settled w)"
    and run: "complete_claimed_task store view chrono now task lease result delay w = Some (Inr outcome, w')"
  shows "outcome_of_settlement store view task outcome (settled w') (woken w')"
proof -
  from run obtain canceled w1 where cancel: "cancellation_outcome store task lease w = Some (Inr canceled, w1)"
    and rest: "(case canceled of
       Some outcome \<Rightarrow> async_return outcome
     | None \<Rightarrow>
         (case result of
            Inr _ \<Rightarrow>
              async_bind (await (xs_confirm_task_succeeded store task lease)) (\<lambda>confirmed.
                if \<not> confirmed then canceled_or_default store task lease
                else
                  async_bind (hook (xs_record_task_transition store task ''succeeded'')) (\<lambda>_.
                  async_return outcome_succeeded))
          | Inl error \<Rightarrow>
              if is_control_error store error then stop_claimed_task store task lease error
              else fail_claimed_task store view chrono now task lease delay error)) w1 = Some (Inr outcome, w')"
    unfolding complete_claimed_task_def async_bind_eq_Inr by (elim exE conjE) (rule that)
  from cancel show ?thesis
  proof (cases rule: cancellation_outcome_Inr)
    case (canceled w2)
    then have "settled w1 = Some SettledCanceled"
      using fenced_writeD [OF fences_taskD(4) [OF fences] canceled(1)]
        bystander_settled(1) [OF fences_taskD(9) [OF fences]] by auto
    then show ?thesis using canceled rest by (simp add: outcome_of_settlement_def Let_def)
  next
    case going_on
    then have w1: "uncompleted (settled w1)"
      using bystander_uncompleted [OF fenced_writeD(3) [OF fences_taskD(4) [OF fences] going_on(1)] fresh] by simp
    show ?thesis
    proof (cases result)
      case (Inl error)
      then show ?thesis
        using going_on rest stop_claimed_task_settles [OF fences w1] fail_claimed_task_settles [OF fences _ w1]
        by (simp split: if_splits)
    next
      case (Inr u)
      then obtain c w2 where confirm: "xs_confirm_task_succeeded store task lease w1 = (Inr c, w2)"
        and last: "(if \<not> c then canceled_or_default store task lease
                    else async_bind (hook (xs_record_task_transition store task ''succeeded''))
                           (\<lambda>_. async_return outcome_succeeded)) w2 = Some (Inr outcome, w')"
        using going_on rest by (auto simp: async_bind_eq_Inr)
      note after = fences_taskD(3) [OF fences confirm]
      show ?thesis
      proof (cases c)
        case True
        then have "outcome = outcome_succeeded" "settled w' = Some SettledSuccess"
          using last after bystander_settled(1) [OF fences_taskD(9) [OF fences]]
          by (auto simp: async_bind_eq_Inr)
        then show ?thesis by (simp add: outcome_of_settlement_def Let_def)
      next
        case False
        have "uncompleted (settled w2)" using after bystander_uncompleted [of settled woken w1 w2] w1 by blast
        then show ?thesis
          using False last canceled_or_default_settles [OF fences, of w2 outcome w']
            bystander_uncompleted [of settled woken w2 w']
          by (auto simp: outcome_of_settlement_def Let_def uncompleted_def)
      qed
    qed
  qed
qed

lemma heartbeats_bystand:
  assumes fences: "fences_task store task lease settled woken" and "lg_lease (fst s) = lease"
  shows "uncompleted (settled (snd s)) \<Longrightarrow>
    uncompleted (settled (snd (run_task_heartbeat_loop store expires ticks s)))"
  using assms(2)
proof (induction ticks arbitrary: s)
  case (Cons tick ticks)
  obtain g w where s: "s = (g, w)" by fastforce
  obtain touched w1 where touch: "xs_touch_task_heartbeat store lease (hb_now tick) (expires (hb_now tick)) w = (touched, w1)"
    by fastforce
  have w1: "uncompleted (settled w1)"
    using bystander_uncompleted [OF fences_taskD(1) [OF fences, of w "hb_now tick" "expires (hb_now tick)"]]
      Cons.prems(1) touch s by simp
  obtain r g1 where eval: "evaluate_heartbeat_result (xs_from_core store) (hb_answered_at tick) (hb_shutdown tick) touched g = (r, g1)"
    by fastforce
  have "lg_lease g1 = lg_lease g"
    using eval by (auto simp: evaluate_heartbeat_result_def record_renewed_def mark_lost_def mark_cancel_requested_def
        terminate_def io_try_def guard_ensure_active_def
        split: sum.splits TaskHeartbeatOutcome.splits if_splits option.splits TaskLeaseTermination.splits prod.splits)
  then show ?case
    using Cons.IH [of "(g1, w1)"] Cons.prems(2) w1 touch eval s by (simp split: sum.split)
qed simp

lemma process_uncompleted:
  assumes "fences_task store task lease settled woken"
    and "xs_process_task store task (g, w) = Some (r, g', w')" and "uncompleted (settled w)"
  shows "uncompleted (settled w')"
  using fences_taskD(2) [OF assms(1,2)] bystander_uncompleted [of settled woken w w'] assms(3)
  by (auto simp: uncompleted_def)

section \<open>The lease guard over time\<close>

text \<open>
  What happens to a guard: heartbeats, asked for and answered at given instants, checks by the task
  body, and the marks.
\<close>

datatype 'e guard_call =
    Heartbeat Instant Instant bool "'e + TaskHeartbeatOutcome"
  | CheckActive Instant bool
  | LoseLease
  | RequestCancel
  | RequestShutdown

fun guard_apply :: "(TaskCoreError \<Rightarrow> 'e) \<Rightarrow> TaskLeaseGuard \<Rightarrow> 'e guard_call \<Rightarrow> TaskLeaseGuard" where
  "guard_apply from_core g (Heartbeat asked answered shutdown result) =
     snd (evaluate_heartbeat_result from_core answered shutdown result g)"
| "guard_apply from_core g (CheckActive now shutdown) = snd (guard_ensure_active now shutdown g)"
| "guard_apply from_core g LoseLease = snd (mark_lost g)"
| "guard_apply from_core g RequestCancel = snd (mark_cancel_requested g)"
| "guard_apply from_core g RequestShutdown = snd (mark_shutdown_requested g)"

text \<open>The calls after which the worker must stop, whatever the clock says.\<close>

fun stops_worker :: "'e guard_call \<Rightarrow> bool" where
  "stops_worker (Heartbeat asked answered shutdown (Inr outcome)) = (outcome \<noteq> Renewed)"
| "stops_worker (Heartbeat asked answered shutdown (Inl error)) = shutdown"
| "stops_worker (CheckActive now shutdown) = shutdown"
| "stops_worker _ = True"

text \<open>A heartbeat that renewed the lease.\<close>

definition renewal :: "Instant \<Rightarrow> Instant \<Rightarrow> 'e guard_call \<Rightarrow> bool" where
  "renewal asked answered c \<longleftrightarrow> (\<exists>shutdown. c = Heartbeat asked answered shutdown (Inr Renewed))"

lemma ensure_active_Inr:
  "guard_ensure_active now shutdown g = (Inr u, g') \<longleftrightarrow>
     lg_termination g = None \<and> \<not> (lg_observes_shutdown g \<and> shutdown)
     \<and> elapsed now (lg_last_renewed_at g) < lg_renewal_timeout g \<and> g' = g"
  by (auto simp: guard_ensure_active_def split: option.split TaskLeaseTermination.split)

lemma ensure_active_snd:
  "snd (guard_ensure_active now shutdown g) = g
   \<or> lg_termination g = None \<and> (\<exists>reason. snd (guard_ensure_active now shutdown g) = terminate reason g)"
  by (auto simp: guard_ensure_active_def split: option.split TaskLeaseTermination.split)

lemma ensure_active_stops:
  "lg_observes_shutdown g \<Longrightarrow> shutdown \<Longrightarrow> lg_termination (snd (guard_ensure_active now shutdown g)) \<noteq> None"
  by (auto simp: guard_ensure_active_def terminate_def split: option.split TaskLeaseTermination.split)

lemma guard_apply_frame:
  "lg_lease (guard_apply from_core g c) = lg_lease g
   \<and> lg_renewal_timeout (guard_apply from_core g c) = lg_renewal_timeout g
   \<and> lg_observes_shutdown (guard_apply from_core g c) = lg_observes_shutdown g"
proof (cases c)
  case (Heartbeat asked answered shutdown result)
  then show ?thesis
    using ensure_active_snd [of answered shutdown g]
    by (auto simp: evaluate_heartbeat_result_def record_renewed_def mark_lost_def mark_cancel_requested_def
        terminate_def io_try_def split: sum.split TaskHeartbeatOutcome.split prod.split)
next
  case (CheckActive now shutdown)
  then show ?thesis using ensure_active_snd [of now shutdown g] by (auto simp: terminate_def)
qed (auto simp: mark_lost_def mark_cancel_requested_def mark_shutdown_requested_def terminate_def)

text \<open>A guard that stopped stays stopped, and a running one was last renewed by a heartbeat.\<close>

lemma guard_apply_running:
  assumes "lg_termination (guard_apply from_core g c) = None" and "lg_observes_shutdown g"
  shows "lg_termination g = None" and "\<not> stops_worker c"
    and "lg_last_renewed_at (guard_apply from_core g c) = lg_last_renewed_at g
      \<or> (\<exists>asked. renewal asked (lg_last_renewed_at (guard_apply from_core g c)) c)"
proof -
  have "lg_termination g = None \<and> \<not> stops_worker c
    \<and> (lg_last_renewed_at (guard_apply from_core g c) = lg_last_renewed_at g
      \<or> (\<exists>asked. renewal asked (lg_last_renewed_at (guard_apply from_core g c)) c))"
  proof (cases c)
    case (Heartbeat asked answered shutdown result)
    show ?thesis
    proof (cases result)
      case (Inl e)
      then show ?thesis
        using assms Heartbeat ensure_active_snd [of answered shutdown g]
          ensure_active_stops [OF assms(2), of shutdown answered]
        by (auto simp: evaluate_heartbeat_result_def io_try_def terminate_def split: prod.splits)
    next
      case (Inr outcome)
      then show ?thesis
        using assms Heartbeat
        by (cases outcome) (auto simp: evaluate_heartbeat_result_def record_renewed_def mark_lost_def
            mark_cancel_requested_def terminate_def renewal_def split: if_splits)
    qed
  next
    case (CheckActive now shutdown)
    then show ?thesis
      using assms ensure_active_snd [of now shutdown g] ensure_active_stops [OF assms(2), of shutdown now]
      by (auto simp: terminate_def)
  qed (use assms in \<open>auto simp: mark_lost_def mark_cancel_requested_def mark_shutdown_requested_def terminate_def\<close>)
  then show "lg_termination g = None" and "\<not> stops_worker c"
    and "lg_last_renewed_at (guard_apply from_core g c) = lg_last_renewed_at g
      \<or> (\<exists>asked. renewal asked (lg_last_renewed_at (guard_apply from_core g c)) c)" by blast+
qed

lemma guard_calls_running:
  assumes "lg_termination (foldl (guard_apply from_core) g calls) = None" and "lg_observes_shutdown g"
  shows "lg_termination g = None \<and> (\<forall>c \<in> set calls. \<not> stops_worker c)
    \<and> lg_renewal_timeout (foldl (guard_apply from_core) g calls) = lg_renewal_timeout g
    \<and> lg_observes_shutdown (foldl (guard_apply from_core) g calls)
    \<and> (lg_last_renewed_at (foldl (guard_apply from_core) g calls) = lg_last_renewed_at g
      \<or> (\<exists>asked. \<exists>c \<in> set calls.
            renewal asked (lg_last_renewed_at (foldl (guard_apply from_core) g calls)) c))"
  using assms
proof (induction calls arbitrary: g)
  case (Cons c calls)
  let ?g = "guard_apply from_core g c"
  have observes: "lg_observes_shutdown ?g" using Cons.prems(2) guard_apply_frame [of from_core g c] by simp
  note rest = Cons.IH [OF _ observes]
  have "lg_termination ?g = None" using rest Cons.prems(1) by simp
  note first = guard_apply_running [OF this Cons.prems(2)]
  have fold: "foldl (guard_apply from_core) g (c # calls) = foldl (guard_apply from_core) ?g calls" by simp
  show ?case
    unfolding fold using rest Cons.prems(1) first guard_apply_frame [of from_core g c] by simp metis
qed (use assms in simp)

section \<open>Properties\<close>

text \<open>
  C32: The counters of a run tell what happened to its lease: with a fenced store, a lease that was open
  at the start is settled by at most one write, the one the outcome names, with the next attempt
  number; a retry is only written while attempts are left and a final failure only when the retry
  class or the attempts forbid another; and the dispatcher is woken after a retry or a release.
\<close>

theorem task_outcome_matches_settlement:
  assumes "fences_task store task lease settled woken" and "settled w = None"
    and "process_claimed_task store view chrono inputs task lease config w = Some (Inr outcome, w')"
  shows "outcome_of_settlement store view task outcome (settled w') (woken w')"
proof -
  let ?g = "with_shutdown_token (in_started_at inputs) lease (cf_renewal_timeout config)"
  obtain g w1 where beats: "run_task_heartbeat_loop store (cf_lease_expires_at config) (in_ticks inputs) (?g, w) = (g, w1)"
    by fastforce
  have "uncompleted (settled w)" using assms(2) by (simp add: uncompleted_def)
  then have w1: "uncompleted (settled w1)"
    using heartbeats_bystand [OF assms(1), of "(?g, w)" "cf_lease_expires_at config" "in_ticks inputs"] beats
    by (simp add: with_shutdown_token_def TaskLeaseGuard_new_def)
  show ?thesis
  proof (cases "tv_cancellation_requested view task")
    case True
    then have "canceled_or_default store task lease w1 = Some (Inr outcome, w')"
      using assms(3) beats by (simp add: process_claimed_task_def)
    from canceled_or_default_settles [OF assms(1) this] w1 bystander_uncompleted [of settled woken w1 w']
    show ?thesis by (auto simp: outcome_of_settlement_def Let_def uncompleted_def)
  next
    case False
    obtain r g1 where check: "guard_ensure_active (in_checked_at inputs) (in_shutdown inputs) g = (r, g1)"
      by fastforce
    show ?thesis
    proof (cases r)
      case (Inl error)
      then have "complete_claimed_task store view chrono (in_now inputs) task lease
          (Inl (xs_from_core store error)) (cf_retry_delay_secs config) w1 = Some (Inr outcome, w')"
        using assms(3) beats False check by (simp add: process_claimed_task_def)
      then show ?thesis by (rule complete_claimed_task_settles [OF assms(1) w1])
    next
      case (Inr u)
      then obtain result g2 w2 where body: "xs_process_task store task (g1, w1) = Some (result, g2, w2)"
        and "complete_claimed_task store view chrono (in_now inputs) task lease
          result (cf_retry_delay_secs config) w2 = Some (Inr outcome, w')"
        using assms(3) beats False check by (auto simp: process_claimed_task_def split: option.splits)
      from this(2) show ?thesis
        by (rule complete_claimed_task_settles [OF assms(1) process_uncompleted [OF assms(1) body w1]])
    qed
  qed
qed


text \<open>
  C33: While the guard lets a worker go on, the persisted lease has not run out: it lasts \<open>stale\<close> seconds
  from a claim or a renewal, and as long as every claim and renewal took no longer than the
  heartbeat period, an active guard implies that less than that has passed since one of them. And
  no heartbeat, mark or check told the worker to stop before.
\<close>

theorem active_guard_within_lease:
  assumes "1 \<le> heartbeat_secs" and "int heartbeat_secs < stale"
    and "created \<le> claimed + from_secs heartbeat_secs"
    and "\<forall>asked answered. \<forall>c \<in> set calls. renewal asked answered c \<longrightarrow>
           answered \<le> asked + from_secs heartbeat_secs"
    and "guard_ensure_active now shutdown
           (foldl (guard_apply from_core)
              (with_shutdown_token created lease (task_lease_renewal_timeout stale heartbeat_secs)) calls)
         = (Inr (), g)"
  shows "(\<exists>base. (base = claimed \<or> (\<exists>answered. \<exists>c \<in> set calls. renewal base answered c))
            \<and> now < base + from_secs (nat stale))
    \<and> \<not> shutdown \<and> (\<forall>c \<in> set calls. \<not> stops_worker c)"
proof -
  let ?g = "with_shutdown_token created lease (task_lease_renewal_timeout stale heartbeat_secs)"
  let ?h = "foldl (guard_apply from_core) ?g calls"
  have fresh: "lg_observes_shutdown ?g" "lg_last_renewed_at ?g = created"
    "lg_renewal_timeout ?g = from_secs (nat stale - heartbeat_secs)"
    using assms(1,2)
    by (auto simp: with_shutdown_token_def TaskLeaseGuard_new_def task_lease_renewal_timeout_def
        i64_to_u64_saturating_def max_def)
  from assms(5) have active: "lg_termination ?h = None" "\<not> (lg_observes_shutdown ?h \<and> shutdown)"
    "elapsed now (lg_last_renewed_at ?h) < lg_renewal_timeout ?h"
    unfolding ensure_active_Inr by blast+
  note run = guard_calls_running [OF active(1) fresh(1)]
  then obtain base where base: "base = claimed \<or> (\<exists>answered. \<exists>c \<in> set calls. renewal base answered c)"
    and late: "lg_last_renewed_at ?h \<le> base + from_secs heartbeat_secs"
    using assms(3,4) fresh(2) by metis
  have "now < lg_last_renewed_at ?h + from_secs (nat stale - heartbeat_secs)"
    using active(3) run fresh(3) by (simp add: elapsed_def)
  then have "now < base + from_secs (nat stale)"
    using late assms(2) by (simp add: from_secs_def)
  then show ?thesis using base run active(2) by blast
qed

section \<open>Instances\<close>

text \<open>
  A store with one task row: the settlement of the lease and whether the dispatcher was woken. The
  task body fails with an ordinary error.
\<close>

definition row_write :: "'t TaskSettlement \<Rightarrow> ('t TaskSettlement option \<times> bool, string, bool) io" where
  "row_write s w = (if fst w = None then (Inr True, Some s, snd w) else (Inr False, w))"

definition row_store :: "(nat TaskSettlement option \<times> bool, string, nat, nat) ClaimedTaskExecutionStore" where
  "row_store =
     \<lparr>xs_from_core = (\<lambda>_. ''core''),
      xs_touch_task_heartbeat = (\<lambda>_ _ _ w. (Inr Renewed, w)),
      xs_process_task = (\<lambda>_ (g, w). Some (Inl ''boom'', g, w)),
      xs_confirm_task_succeeded = (\<lambda>_ _ w. (Inr (fst w = Some SettledSuccess), w)),
      xs_is_lease_lost_error = (\<lambda>_. False),
      xs_is_lease_renewal_timed_out_error = (\<lambda>_. False),
      xs_is_worker_shutdown_requested_error = (\<lambda>_. False),
      xs_is_cancellation_requested_error = (\<lambda>_. False),
      xs_cancel_task_if_requested = (\<lambda>_ _ w. (Inr False, w)),
      xs_retry_class = (\<lambda>_ _. Auto),
      xs_storage_error = (\<lambda>e. e),
      xs_display_error = (\<lambda>e. e),
      xs_failed_steps_json = (\<lambda>_ _ w. (None, w)),
      xs_mark_task_failed = (\<lambda>_ _ f. row_write (SettledFailed (pf_attempt_count f) (pf_failure_can_retry f))),
      xs_mark_task_retry = (\<lambda>_ _ u. row_write (SettledRetry (ru_attempt_count u) (ru_retry_at u))),
      xs_release_task_for_shutdown = (\<lambda>_ _. row_write SettledReleased),
      xs_record_task_transition = (\<lambda>_ _ w. w),
      xs_wake_dispatcher = (\<lambda>(s, woken). (s, woken \<or> s \<noteq> None))\<rparr>"

lemma row_write_fenced: "fenced_write fst snd s (row_write s)"
  by (auto simp: fenced_write_def row_write_def bystander_def keeps_settlement_def split: if_splits)

lemma row_store_fences: "fences_task row_store task lease fst snd"
proof -
  have "fenced_write fst snd SettledCanceled (xs_cancel_task_if_requested row_store task lease)"
    by (simp add: row_store_def fenced_write_def bystander_def keeps_settlement_def)
  then show ?thesis
    unfolding fences_task_def
    by (auto simp: row_store_def row_write_fenced bystander_def keeps_settlement_def)
qed

definition row_inputs :: "nat ExecutionInputs" where
  "row_inputs =
     \<lparr>in_started_at = 0, in_ticks = [\<lparr>hb_now = 90, hb_answered_at = 10, hb_shutdown = False\<rparr>],
      in_checked_at = 20, in_shutdown = False, in_now = 100\<rparr>"

definition row_lease :: TaskLease where
  "row_lease = \<lparr>tl_task_id = 7, tl_processing_token = 5\<rparr>"

definition row_config :: "nat ClaimedTaskExecutionConfig" where
  "row_config =
     \<lparr>cf_renewal_timeout = from_secs 40, cf_heartbeat_interval = from_secs 20,
      cf_lease_expires_at = (\<lambda>t. t + 60), cf_retry_delay_secs = default_task_retry_delay_secs\<rparr>"

lemma row_run:
  "process_claimed_task row_store one_view one_chrono row_inputs 7 row_lease row_config (None, False)
   = Some (Inr outcome_retried, Some (SettledRetry 1 105), True)"
  by (simp add: process_claimed_task_def row_inputs_def row_store_def one_view_def one_chrono_def row_config_def
      evaluate_heartbeat_result_def record_renewed_def with_shutdown_token_def TaskLeaseGuard_new_def
      guard_ensure_active_def elapsed_def from_secs_def complete_claimed_task_def cancellation_outcome_def
      async_bind_def is_control_error_def fail_claimed_task_def Let_def should_auto_retry_def infallible_def
      i32_saturating_add_def i32_MAX_def default_task_retry_delay_secs_def row_write_def hook_def)

theorem task_outcome_matches_settlement_witness:
  "outcome_of_settlement row_store one_view 7 outcome_retried (Some (SettledRetry 1 105)) True"
  using task_outcome_matches_settlement [OF row_store_fences _ row_run] by simp

definition row_calls :: "string guard_call list" where
  "row_calls = [CheckActive 5 False, Heartbeat 20 21 False (Inr Renewed), Heartbeat 40 41 False (Inl ''down'')]"

lemma row_guard_active:
  "guard_ensure_active 50 False
     (foldl (guard_apply (\<lambda>_. ''core'')) (with_shutdown_token 1 row_lease (task_lease_renewal_timeout 60 20)) row_calls)
    = (Inr (), \<lparr>lg_lease = row_lease, lg_renewal_timeout = from_secs 40, lg_observes_shutdown = True,
                lg_last_renewed_at = 21, lg_termination = None, lg_control_stopped = False\<rparr>)"
  by (simp add: row_calls_def with_shutdown_token_def TaskLeaseGuard_new_def task_lease_renewal_timeout_def
      i64_to_u64_saturating_def guard_ensure_active_def elapsed_def from_secs_def evaluate_heartbeat_result_def
      record_renewed_def io_try_def)

theorem active_guard_within_lease_witness:
  "\<exists>base. (base = 0 \<or> (\<exists>answered. \<exists>c \<in> set row_calls. renewal base answered c))
      \<and> 50 < base + from_secs (nat 60)"
proof -
  have "\<forall>asked answered. \<forall>c \<in> set row_calls. renewal asked answered c \<longrightarrow> answered \<le> asked + from_secs 20"
    by (auto simp: row_calls_def renewal_def from_secs_def)
  then show ?thesis
    using active_guard_within_lease [of 20 60 1 0, OF _ _ _ _ row_guard_active] by (simp add: from_secs_def)
qed

end
