(* ===== verification/Tasks_Backoff.thy ===== *)
theory Tasks_Backoff
  imports Tasks_Values
begin

text \<open>
  The waiting times of \<open>aster_forge_tasks/src/runtime.rs\<close>: the adaptive idle backoff of dispatch
  workers and the jittered delay of periodic tasks, with their bounds.
\<close>

section \<open>Dispatch iterations\<close>

definition BACKGROUND_TASK_DISPATCH_ERROR_BACKOFF_CAP :: Duration where
  "BACKGROUND_TASK_DISPATCH_ERROR_BACKOFF_CAP = from_secs 5"

datatype BackgroundTaskDispatchTrigger = Startup | Timer | Wakeup

record BackgroundTaskDispatchIteration =
  it_has_activity :: bool
  it_failed :: bool

definition iteration_idle :: BackgroundTaskDispatchIteration where
  "iteration_idle = \<lparr>it_has_activity = False, it_failed = False\<rparr>"

definition iteration_active :: BackgroundTaskDispatchIteration where
  "iteration_active = \<lparr>it_has_activity = True, it_failed = False\<rparr>"

definition iteration_failed :: BackgroundTaskDispatchIteration where
  "iteration_failed = \<lparr>it_has_activity = False, it_failed = True\<rparr>"

section \<open>Adaptive backoff\<close>

definition effective_dispatch_base_interval :: "Duration \<Rightarrow> Duration \<Rightarrow> Duration" where
  "effective_dispatch_base_interval base_interval max_interval =
     (if base_interval = 0 then from_secs 1 else base_interval)"

definition effective_dispatch_max_interval :: "Duration \<Rightarrow> Duration \<Rightarrow> Duration" where
  "effective_dispatch_max_interval base_interval max_interval = max max_interval base_interval"

record BackgroundTaskDispatchBackoff =
  bo_idle_interval :: Duration
  bo_last_error :: bool

definition BackgroundTaskDispatchBackoff_new :: "Duration \<Rightarrow> Duration \<Rightarrow> BackgroundTaskDispatchBackoff" where
  "BackgroundTaskDispatchBackoff_new base_interval max_interval =
     \<lparr>bo_idle_interval = effective_dispatch_base_interval base_interval max_interval, bo_last_error = False\<rparr>"

definition sleep_duration :: "Duration \<Rightarrow> Duration \<Rightarrow> BackgroundTaskDispatchBackoff \<Rightarrow> Duration" where
  "sleep_duration base_interval max_interval self =
     (let base_interval = effective_dispatch_base_interval base_interval max_interval;
          max_interval = effective_dispatch_max_interval base_interval max_interval
      in if bo_last_error self then max base_interval BACKGROUND_TASK_DISPATCH_ERROR_BACKOFF_CAP
         else min (max (bo_idle_interval self) base_interval) max_interval)"

definition backoff_record_iteration ::
  "BackgroundTaskDispatchTrigger \<Rightarrow> BackgroundTaskDispatchIteration \<Rightarrow> Duration \<Rightarrow> Duration
   \<Rightarrow> BackgroundTaskDispatchBackoff \<Rightarrow> BackgroundTaskDispatchBackoff" where
  "backoff_record_iteration trigger iteration base_interval max_interval self =
     (let base_interval = effective_dispatch_base_interval base_interval max_interval;
          max_interval = effective_dispatch_max_interval base_interval max_interval
      in if it_failed iteration then self\<lparr>bo_idle_interval := base_interval, bo_last_error := True\<rparr>
         else if it_has_activity iteration \<or> trigger = Wakeup
         then self\<lparr>bo_idle_interval := base_interval, bo_last_error := False\<rparr>
         else self\<lparr>bo_idle_interval :=
                    min (duration_saturating_mul (max (bo_idle_interval self) base_interval) 2) max_interval,
                   bo_last_error := False\<rparr>)"

section \<open>Periodic delays\<close>

definition u128_to_u64_saturating :: "nat \<Rightarrow> nat" where
  "u128_to_u64_saturating value = min value (2 ^ 64 - 1)"

definition effective_jitter_cap :: "Duration \<Rightarrow> Duration \<Rightarrow> Duration" where
  "effective_jitter_cap base_interval jitter_cap =
     (let bounded_ms = u128_to_u64_saturating (min (as_millis base_interval) (2 ^ 64 - 1)) div 10
      in min jitter_cap (from_millis bounded_ms))"

text \<open>\<open>random\<close> is \<open>random_range(0..=n)\<close> of the rand crate.\<close>

definition periodic_sleep_duration :: "(nat \<Rightarrow> nat) \<Rightarrow> Duration \<Rightarrow> Duration option \<Rightarrow> Duration" where
  "periodic_sleep_duration random base_interval jitter_cap =
     (let base_interval = (if base_interval = 0 then from_secs 1 else base_interval) in
      case jitter_cap of
        None \<Rightarrow> base_interval
      | Some jitter_cap \<Rightarrow>
          let max_jitter_ms = as_millis (effective_jitter_cap base_interval jitter_cap) in
          if max_jitter_ms = 0 then base_interval
          else duration_saturating_add base_interval
                 (from_millis (random (u128_to_u64_saturating (min max_jitter_ms (2 ^ 64 - 1))))))"

section \<open>Bounds\<close>

lemma effective_base_positive [simp]: "0 < effective_dispatch_base_interval base_interval max_interval"
  by (simp add: effective_dispatch_base_interval_def from_secs_def)

text \<open>A worker never spins, and without an error it never waits longer than its maximum.\<close>

lemma sleep_duration_bounds:
  "effective_dispatch_base_interval base_interval max_interval \<le> sleep_duration base_interval max_interval self"
  "\<not> bo_last_error self \<Longrightarrow> sleep_duration base_interval max_interval self
     \<le> max max_interval (effective_dispatch_base_interval base_interval max_interval)"
  "bo_last_error self \<Longrightarrow> from_secs 5 \<le> sleep_duration base_interval max_interval self"
  by (auto simp: sleep_duration_def Let_def effective_dispatch_max_interval_def
      BACKGROUND_TASK_DISPATCH_ERROR_BACKOFF_CAP_def)

text \<open>
  Under constant settings, \<open>n\<close> idle passes in a row stretch the base interval by \<open>2 ^ n\<close> up to the
  maximum.
\<close>

lemma idle_passes_double:
  assumes "0 < base_interval" and "base_interval \<le> max_interval" and "max_interval \<le> Duration_MAX"
  shows "bo_idle_interval ((backoff_record_iteration Timer iteration_idle base_interval max_interval ^^ n)
      (BackgroundTaskDispatchBackoff_new base_interval max_interval))
    = min (base_interval * 2 ^ n) max_interval"
proof (induction n)
  case 0
  then show ?case
    using assms by (simp add: BackgroundTaskDispatchBackoff_new_def effective_dispatch_base_interval_def)
next
  case (Suc n)
  let ?b = "(backoff_record_iteration Timer iteration_idle base_interval max_interval ^^ n)
      (BackgroundTaskDispatchBackoff_new base_interval max_interval)"
  have "base_interval \<le> bo_idle_interval ?b"
    unfolding Suc.IH using assms(1,2) by simp
  then have "bo_idle_interval (backoff_record_iteration Timer iteration_idle base_interval max_interval ?b)
      = min (min Duration_MAX (bo_idle_interval ?b * 2)) max_interval"
    using assms(1,2)
    by (simp add: backoff_record_iteration_def Let_def iteration_idle_def effective_dispatch_base_interval_def
        effective_dispatch_max_interval_def duration_saturating_mul_def max_def)
  also have "\<dots> = min (base_interval * 2 ^ Suc n) max_interval"
    unfolding Suc.IH using assms(3) by (auto simp: min_def)
  finally show ?case by simp
qed

lemma jitter_cap_tenth: "effective_jitter_cap base_interval jitter_cap \<le> base_interval div 10"
proof -
  have "from_millis (as_millis base_interval div 10) \<le> base_interval div 10"
    by (simp add: from_millis_def as_millis_def div_mult2_eq [symmetric] ac_simps)
  moreover have "effective_jitter_cap base_interval jitter_cap \<le> from_millis (as_millis base_interval div 10)"
    by (simp add: effective_jitter_cap_def Let_def u128_to_u64_saturating_def from_millis_def div_le_mono
        min.coboundedI2)
  ultimately show ?thesis by simp
qed

lemma periodic_sleep_bounds:
  assumes "\<And>n. random n \<le> n" and "0 < base_interval" and "base_interval \<le> Duration_MAX"
  shows "base_interval \<le> periodic_sleep_duration random base_interval cap"
    and "periodic_sleep_duration random base_interval cap \<le> base_interval + base_interval div 10"
proof -
  have "from_millis (random (u128_to_u64_saturating (min (as_millis d) (2 ^ 64 - 1)))) \<le> d" for d
  proof -
    have "random (u128_to_u64_saturating (min (as_millis d) (2 ^ 64 - 1))) \<le> as_millis d"
      using assms(1) [of "u128_to_u64_saturating (min (as_millis d) (2 ^ 64 - 1))"]
      by (simp add: u128_to_u64_saturating_def)
    then have "from_millis (random (u128_to_u64_saturating (min (as_millis d) (2 ^ 64 - 1)))) \<le> from_millis (as_millis d)"
      by (simp add: from_millis_def)
    also have "\<dots> \<le> d" by (simp add: from_millis_def as_millis_def)
    finally show ?thesis .
  qed
  note small = order_trans [OF this jitter_cap_tenth]
  have "base_interval \<le> periodic_sleep_duration random base_interval cap
    \<and> periodic_sleep_duration random base_interval cap \<le> base_interval + base_interval div 10"
  proof (cases cap)
    case (Some jitter_cap)
    let ?ms = "as_millis (effective_jitter_cap base_interval jitter_cap)"
    define j where "j = from_millis (random (u128_to_u64_saturating (min ?ms (2 ^ 64 - 1))))"
    have "j \<le> base_interval div 10" unfolding j_def by (rule small)
    moreover have "periodic_sleep_duration random base_interval cap
        = (if ?ms = 0 then base_interval else min Duration_MAX (base_interval + j))"
      using assms(2) by (simp add: periodic_sleep_duration_def Let_def duration_saturating_add_def j_def Some)
    ultimately show ?thesis using assms(3) by (auto simp: min_def)
  qed (use assms(2) in \<open>simp add: periodic_sleep_duration_def Let_def\<close>)
  then show "base_interval \<le> periodic_sleep_duration random base_interval cap"
    and "periodic_sleep_duration random base_interval cap \<le> base_interval + base_interval div 10" by blast+
qed

end
