(* ===== verification/Tasks_Consumer.thy ===== *)
theory Tasks_Consumer
  imports Tasks_Backoff Tasks_Dispatch
begin

text \<open>
  The capacity-bounded consumer of \<open>aster_forge_tasks/src/consumer.rs\<close>: its state, the handlers
  of its select loop, and what every run of the loop keeps: no claimed task is lost or both started
  and given back, capacity is respected, and a shutdown ends.

  A \<open>JoinSet\<close> is the list of what was spawned and not yet joined; which member finishes, with what
  result, and which ready arm of the select is taken is up to the run.
\<close>

section \<open>Configuration and status\<close>

record TaskConsumerConfig =
  cn_drain_timeout :: Duration
  cn_cancellation_timeout :: Duration

definition consumer_config_validate :: "TaskConsumerConfig \<Rightarrow> unit task_result" where
  "consumer_config_validate self =
     (case duration_checked_add (cn_drain_timeout self) (cn_cancellation_timeout self) of
        Some budget \<Rightarrow>
          if budget \<le> from_secs (24 * 3600) then Inr ()
          else Inl (InvalidValue ''consumer shutdown budget must not exceed 24 hours'')
      | None \<Rightarrow> Inl (InvalidValue ''consumer shutdown budget must not exceed 24 hours''))"

definition TaskConsumerConfig_default :: TaskConsumerConfig where
  "TaskConsumerConfig_default = \<lparr>cn_drain_timeout = from_secs 20, cn_cancellation_timeout = from_secs 5\<rparr>"

record TaskRuntimeStatus =
  rs_running :: bool
  rs_initialized :: bool
  rs_draining :: bool
  rs_claim_failed :: bool
  rs_active :: usize

definition TaskRuntimeStatus_default :: TaskRuntimeStatus where
  "TaskRuntimeStatus_default =
     \<lparr>rs_running = False, rs_initialized = False, rs_draining = False, rs_claim_failed = False, rs_active = 0\<rparr>"

definition status_start :: "TaskRuntimeStatus \<Rightarrow> TaskRuntimeStatus" where
  "status_start self = self\<lparr>rs_running := True\<rparr>"

definition observe_available :: "bool \<Rightarrow> TaskRuntimeStatus \<Rightarrow> TaskRuntimeStatus" where
  "observe_available available self = self\<lparr>rs_initialized := True, rs_claim_failed := \<not> available\<rparr>"

definition status_ready :: "TaskRuntimeStatus \<Rightarrow> bool" where
  "status_ready self \<longleftrightarrow>
     rs_running self \<and> rs_initialized self \<and> \<not> rs_draining self \<and> \<not> rs_claim_failed self"

text \<open>\<open>RunningGuard::drop\<close>.\<close>

definition running_guard_drop :: "TaskRuntimeStatus \<Rightarrow> TaskRuntimeStatus" where
  "running_guard_drop self = self\<lparr>rs_running := False, rs_active := 0\<rparr>"

record TaskConsumerReport =
  rp_stats :: DispatchStats
  rp_execution_errors :: nat
  rp_claim_errors :: nat
  rp_release_errors :: nat
  rp_abandoned :: nat
  rp_abandoned_claims :: nat
  rp_abandoned_releases :: nat

definition TaskConsumerReport_default :: TaskConsumerReport where
  "TaskConsumerReport_default =
     \<lparr>rp_stats = DispatchStats_default, rp_execution_errors = 0, rp_claim_errors = 0, rp_release_errors = 0,
      rp_abandoned = 0, rp_abandoned_claims = 0, rp_abandoned_releases = 0\<rparr>"

section \<open>The state of the loop\<close>

datatype ConsumerPhase = Running | Draining Instant | Cancelling Instant

fun phase_deadline :: "ConsumerPhase \<Rightarrow> Instant option" where
  "phase_deadline Running = None"
| "phase_deadline (Draining deadline) = Some deadline"
| "phase_deadline (Cancelling deadline) = Some deadline"

definition phase_stopping :: "ConsumerPhase \<Rightarrow> bool" where
  "phase_stopping self \<longleftrightarrow> self \<noteq> Running"

text \<open>A claim in flight, with what it returns in its \<open>ClaimBatch\<close> beside the result.\<close>

record ClaimTicket =
  ct_sequence :: u64
  ct_reserved :: usize

record 'task ConsumerRuntime =
  cr_status :: TaskRuntimeStatus
  cr_phase :: ConsumerPhase
  cr_report :: TaskConsumerReport
  cr_executing :: "'task list"
  cr_claiming :: "ClaimTicket list"
  cr_releasing :: "'task list"
  cr_cancelled :: bool
  cr_next_poll :: Instant
  cr_backoff :: BackgroundTaskDispatchBackoff
  cr_next_trigger :: string
  cr_concurrency :: usize
  cr_claim_sequence :: u64

text \<open>What an event reads: the clock and the dynamic settings of the consumer.\<close>

record ConsumerReads =
  rd_now :: Instant
  rd_concurrency :: usize
  rd_poll_interval :: Duration
  rd_idle_max_interval :: Duration

definition ConsumerRuntime_new :: "ConsumerReads \<Rightarrow> TaskRuntimeStatus \<Rightarrow> 'task ConsumerRuntime" where
  "ConsumerRuntime_new reads status =
     \<lparr>cr_status = status, cr_phase = Running, cr_report = TaskConsumerReport_default,
      cr_executing = [], cr_claiming = [], cr_releasing = [], cr_cancelled = False,
      cr_next_poll = rd_now reads,
      cr_backoff = BackgroundTaskDispatchBackoff_new (rd_poll_interval reads) (rd_idle_max_interval reads),
      cr_next_trigger = ''startup'', cr_concurrency = rd_concurrency reads, cr_claim_sequence = 0\<rparr>"

definition consumer_idle :: "'task ConsumerRuntime \<Rightarrow> bool" where
  "consumer_idle self \<longleftrightarrow> cr_executing self = [] \<and> cr_claiming self = [] \<and> cr_releasing self = []"

section \<open>Handlers\<close>

definition consumer_record_iteration ::
  "ConsumerReads \<Rightarrow> BackgroundTaskDispatchTrigger \<Rightarrow> BackgroundTaskDispatchIteration
   \<Rightarrow> 'task ConsumerRuntime \<Rightarrow> 'task ConsumerRuntime" where
  "consumer_record_iteration reads trigger iteration self =
     (let backoff = backoff_record_iteration trigger iteration (rd_poll_interval reads)
                      (rd_idle_max_interval reads) (cr_backoff self);
          delay = sleep_duration (rd_poll_interval reads) (rd_idle_max_interval reads) backoff
      in self\<lparr>cr_backoff := backoff, cr_next_poll := rd_now reads + delay, cr_next_trigger := ''timer''\<rparr>)"

text \<open>A joined future panicked or was aborted (\<open>True\<close> for a panic), or it returned its result.\<close>

type_synonym ('e, 'a) joined = "bool + ('e + 'a)"

definition update_status :: "(TaskRuntimeStatus \<Rightarrow> TaskRuntimeStatus) \<Rightarrow> 'task ConsumerRuntime \<Rightarrow> 'task ConsumerRuntime" where
  "update_status f self = self\<lparr>cr_status := f (cr_status self)\<rparr>"

definition update_report :: "(TaskConsumerReport \<Rightarrow> TaskConsumerReport) \<Rightarrow> 'task ConsumerRuntime \<Rightarrow> 'task ConsumerRuntime" where
  "update_report f self = self\<lparr>cr_report := f (cr_report self)\<rparr>"

definition store_active :: "'task ConsumerRuntime \<Rightarrow> 'task ConsumerRuntime" where
  "store_active self = update_status (\<lambda>st. st\<lparr>rs_active := length (cr_executing self)\<rparr>) self"

definition completed_execution ::
  "ConsumerReads \<Rightarrow> ('e, TaskDispatchOutcome) joined \<Rightarrow> 'task ConsumerRuntime \<Rightarrow> 'task ConsumerRuntime" where
  "completed_execution reads result self =
     (let self = store_active self;
          self = update_report (\<lambda>report.
            case result of
              Inr (Inr outcome) \<Rightarrow> report\<lparr>rp_stats := add_outcome (rp_stats report) outcome\<rparr>
            | _ \<Rightarrow> report\<lparr>rp_execution_errors := rp_execution_errors report + 1\<rparr>) self;
          self = consumer_record_iteration reads Wakeup iteration_active self
      in self\<lparr>cr_next_poll := rd_now reads, cr_next_trigger := ''execution_completed''\<rparr>)"

definition failed_claim :: "ConsumerReads \<Rightarrow> 'task ConsumerRuntime \<Rightarrow> 'task ConsumerRuntime" where
  "failed_claim reads self =
     consumer_record_iteration reads Timer iteration_failed
       (update_status (\<lambda>st. st\<lparr>rs_claim_failed := True\<rparr>)
         (update_report (\<lambda>report. report\<lparr>rp_claim_errors := rp_claim_errors report + 1\<rparr>) self))"

text \<open>The loop over the claimed tasks, from \<open>index\<close> on.\<close>

fun assign_claimed ::
  "bool \<Rightarrow> usize \<Rightarrow> usize \<Rightarrow> 'task list \<Rightarrow> 'task ConsumerRuntime \<Rightarrow> 'task ConsumerRuntime" where
  "assign_claimed stop available index [] self = self"
| "assign_claimed stop available index (task # tasks) self =
     assign_claimed stop available (index + 1) tasks
       (if phase_stopping (cr_phase self) \<or> stop \<or> index \<ge> available
        then self\<lparr>cr_releasing := cr_releasing self @ [task]\<rparr>
        else update_report (\<lambda>report.
               report\<lparr>rp_stats := (rp_stats report)\<lparr>st_claimed := st_claimed (rp_stats report) + 1\<rparr>\<rparr>)
             (self\<lparr>cr_executing := cr_executing self @ [task]\<rparr>))"

definition completed_claim ::
  "ConsumerReads \<Rightarrow> bool \<Rightarrow> ClaimTicket \<Rightarrow> ('e, 'task list) joined \<Rightarrow> 'task ConsumerRuntime
   \<Rightarrow> 'task ConsumerRuntime" where
  "completed_claim reads stop ticket result self =
     (case result of
        Inr (Inr tasks) \<Rightarrow>
          (let self = update_status (observe_available True) self;
               available = min (ct_reserved ticket)
                 (usize_saturating_sub (rd_concurrency reads) (length (cr_executing self)));
               has_work = tasks \<noteq> [];
               self = store_active (assign_claimed stop available 0 tasks self);
               self = consumer_record_iteration reads Timer
                 (if has_work then iteration_active else iteration_idle) self
           in if has_work \<and> \<not> phase_stopping (cr_phase self) \<and> \<not> stop
                 \<and> rd_concurrency reads > length (cr_executing self)
              then self\<lparr>cr_next_poll := rd_now reads, cr_next_trigger := ''capacity_refill''\<rparr>
              else self)
      | _ \<Rightarrow> failed_claim reads self)"

definition completed_release :: "('e, unit) joined \<Rightarrow> 'task ConsumerRuntime \<Rightarrow> 'task ConsumerRuntime" where
  "completed_release result self =
     (case result of
        Inr (Inr _) \<Rightarrow> self
      | _ \<Rightarrow> update_report (\<lambda>report. report\<lparr>rp_release_errors := rp_release_errors report + 1\<rparr>) self)"

definition consumer_poll :: "ConsumerReads \<Rightarrow> 'task ConsumerRuntime \<Rightarrow> 'task ConsumerRuntime" where
  "consumer_poll reads self =
     (let available = usize_saturating_sub (rd_concurrency reads) (length (cr_executing self)) in
      if available > 0 then
        (let sequence = cr_claim_sequence self + 1 in
         self\<lparr>cr_claim_sequence := sequence,
              cr_claiming := cr_claiming self @ [\<lparr>ct_sequence = sequence, ct_reserved = available\<rparr>]\<rparr>)
      else
        consumer_record_iteration reads Timer iteration_idle
          (if rd_concurrency reads = 0 then update_status (observe_available True) self else self))"

definition consumer_abandon :: "'task ConsumerRuntime \<Rightarrow> 'task ConsumerRuntime" where
  "consumer_abandon self =
     (update_report (\<lambda>report.
        report\<lparr>rp_abandoned := length (cr_executing self),
               rp_abandoned_claims := length (cr_claiming self),
               rp_abandoned_releases := length (cr_releasing self)\<rparr>) self)
       \<lparr>cr_executing := [], cr_claiming := [], cr_releasing := []\<rparr>"

section \<open>The loop\<close>

text \<open>
  An arm of the select, with the index of the joined future and its result. \<open>biased\<close> only orders
  arms that are ready at once; any ready arm may fire here.
\<close>

datatype ('e, 'task) ConsumerEvent =
    StopClaiming
  | DeadlineReached
  | Executed nat "('e, TaskDispatchOutcome) joined"
  | Claimed nat "('e, 'task list) joined"
  | ReleaseDone nat "('e, unit) joined"
  | PollDue
  | Notified

definition remove_nth :: "nat \<Rightarrow> 'a list \<Rightarrow> 'a list" where
  "remove_nth i xs = take i xs @ drop (Suc i) xs"

definition loop_ended :: "'task ConsumerRuntime \<Rightarrow> bool" where
  "loop_ended s \<longleftrightarrow> phase_stopping (cr_phase s) \<and> consumer_idle s"

fun select_arm ::
  "TaskConsumerConfig \<Rightarrow> bool \<Rightarrow> ConsumerReads \<Rightarrow> ('e, 'task) ConsumerEvent
   \<Rightarrow> 'task ConsumerRuntime \<Rightarrow> 'task ConsumerRuntime option" where
  "select_arm config stop reads StopClaiming s =
     (if stop \<and> \<not> phase_stopping (cr_phase s)
      then Some ((update_status (\<lambda>st. st\<lparr>rs_draining := True\<rparr>) s)
                   \<lparr>cr_phase := Draining (rd_now reads + cn_drain_timeout config)\<rparr>)
      else None)"
| "select_arm config stop reads DeadlineReached s =
     (case cr_phase s of
        Running \<Rightarrow> None
      | Draining deadline \<Rightarrow>
          if deadline \<le> rd_now reads
          then Some (s\<lparr>cr_cancelled := True,
                        cr_phase := Cancelling (rd_now reads + cn_cancellation_timeout config)\<rparr>)
          else None
      | Cancelling deadline \<Rightarrow>
          if deadline \<le> rd_now reads then Some (consumer_abandon s) else None)"
| "select_arm config stop reads (Executed i result) s =
     (if i < length (cr_executing s)
      then Some (completed_execution reads result (s\<lparr>cr_executing := remove_nth i (cr_executing s)\<rparr>))
      else None)"
| "select_arm config stop reads (Claimed i result) s =
     (if i < length (cr_claiming s)
      then Some (completed_claim reads stop (cr_claiming s ! i) result
             (s\<lparr>cr_claiming := remove_nth i (cr_claiming s)\<rparr>))
      else None)"
| "select_arm config stop reads (ReleaseDone i result) s =
     (if i < length (cr_releasing s)
      then Some (completed_release result (s\<lparr>cr_releasing := remove_nth i (cr_releasing s)\<rparr>))
      else None)"
| "select_arm config stop reads PollDue s =
     (if \<not> phase_stopping (cr_phase s) \<and> cr_claiming s = [] \<and> cr_next_poll s \<le> rd_now reads
      then Some (consumer_poll reads s) else None)"
| "select_arm config stop reads Notified s =
     (if \<not> phase_stopping (cr_phase s) \<and> cr_claiming s = []
      then Some ((consumer_record_iteration reads Wakeup iteration_idle s)
                   \<lparr>cr_next_poll := rd_now reads, cr_next_trigger := ''notification''\<rparr>)
      else None)"

text \<open>One round of the loop; \<open>None\<close> when the loop has ended or the arm is not ready.\<close>

definition consumer_step ::
  "TaskConsumerConfig \<Rightarrow> bool \<Rightarrow> ConsumerReads \<Rightarrow> ('e, 'task) ConsumerEvent
   \<Rightarrow> 'task ConsumerRuntime \<Rightarrow> 'task ConsumerRuntime option" where
  "consumer_step config stop reads event s =
     (if loop_ended s then None
      else select_arm config stop reads event (s\<lparr>cr_concurrency := rd_concurrency reads\<rparr>))"

text \<open>The loop along the events that happen, and its report once it has ended.\<close>

fun run_consumer_loop ::
  "TaskConsumerConfig \<Rightarrow> (bool \<times> ConsumerReads \<times> ('e, 'task) ConsumerEvent) list
   \<Rightarrow> 'task ConsumerRuntime \<Rightarrow> 'task ConsumerRuntime option" where
  "run_consumer_loop config [] s = Some s"
| "run_consumer_loop config ((stop, reads, event) # events) s =
     (case consumer_step config stop reads event s of
        None \<Rightarrow> None
      | Some s' \<Rightarrow> run_consumer_loop config events s')"

definition run_task_consumer ::
  "TaskConsumerConfig \<Rightarrow> bool \<Rightarrow> ConsumerReads \<Rightarrow> TaskRuntimeStatus
   \<Rightarrow> (bool \<times> ConsumerReads \<times> ('e, 'task) ConsumerEvent) list
   \<Rightarrow> (TaskConsumerReport \<times> TaskRuntimeStatus) task_result option" where
  "run_task_consumer config stop reads status events =
     (case consumer_config_validate config of
        Inl error \<Rightarrow> Some (Inl error)
      | Inr _ \<Rightarrow>
          if stop then Some (Inr (TaskConsumerReport_default, status))
          else
            (case run_consumer_loop config events (ConsumerRuntime_new reads (status_start status)) of
               None \<Rightarrow> None
             | Some s \<Rightarrow>
                 if loop_ended s then Some (Inr (cr_report s, running_guard_drop (cr_status s))) else None))"

section \<open>Reachable states\<close>

text \<open>
  What happened to tasks so far: those that claims returned, those whose handler or whose release
  was joined, and those dropped at the final deadline while their handler ran or before it started.
\<close>

record 'task ConsumerLedger =
  ld_claimed :: "'task list"
  ld_executed :: "'task list"
  ld_released :: "'task list"
  ld_cut_off :: "'task list"
  ld_unreleased :: "'task list"

definition empty_ledger :: "'task ConsumerLedger" where
  "empty_ledger = \<lparr>ld_claimed = [], ld_executed = [], ld_released = [], ld_cut_off = [], ld_unreleased = []\<rparr>"

fun ledger_step ::
  "('e, 'task) ConsumerEvent \<Rightarrow> 'task ConsumerRuntime \<Rightarrow> 'task ConsumerLedger \<Rightarrow> 'task ConsumerLedger" where
  "ledger_step (Claimed i (Inr (Inr tasks))) s l = l\<lparr>ld_claimed := ld_claimed l @ tasks\<rparr>"
| "ledger_step (Executed i result) s l = l\<lparr>ld_executed := ld_executed l @ [cr_executing s ! i]\<rparr>"
| "ledger_step (ReleaseDone i result) s l = l\<lparr>ld_released := ld_released l @ [cr_releasing s ! i]\<rparr>"
| "ledger_step DeadlineReached s l =
     (case cr_phase s of
        Cancelling _ \<Rightarrow> l\<lparr>ld_cut_off := ld_cut_off l @ cr_executing s, ld_unreleased := ld_unreleased l @ cr_releasing s\<rparr>
      | _ \<Rightarrow> l)"
| "ledger_step _ s l = l"

inductive consumer_reaches ::
  "TaskConsumerConfig \<Rightarrow> ('e, 'task) ConsumerEvent list \<Rightarrow> 'task ConsumerRuntime \<Rightarrow> 'task ConsumerLedger \<Rightarrow> bool"
  for config :: TaskConsumerConfig where
  started_loop: "consumer_reaches config []
     (ConsumerRuntime_new reads (status_start TaskRuntimeStatus_default)) empty_ledger"
| next_round: "consumer_reaches config events s l \<Longrightarrow> consumer_step config stop reads event s = Some s' \<Longrightarrow>
     consumer_reaches config (events @ [event]) s' (ledger_step event s l)"

section \<open>Effects of the handlers\<close>

lemma consumer_frames [simp]:
  "cr_executing (consumer_record_iteration reads trigger iteration s) = cr_executing s"
  "cr_releasing (consumer_record_iteration reads trigger iteration s) = cr_releasing s"
  "cr_claiming (consumer_record_iteration reads trigger iteration s) = cr_claiming s"
  "cr_phase (consumer_record_iteration reads trigger iteration s) = cr_phase s"
  "cr_report (consumer_record_iteration reads trigger iteration s) = cr_report s"
  "cr_status (consumer_record_iteration reads trigger iteration s) = cr_status s"
  "cr_executing (update_status f s) = cr_executing s" "cr_releasing (update_status f s) = cr_releasing s"
  "cr_claiming (update_status f s) = cr_claiming s" "cr_phase (update_status f s) = cr_phase s"
  "cr_report (update_status f s) = cr_report s" "cr_status (update_status f s) = f (cr_status s)"
  "cr_executing (update_report g s) = cr_executing s" "cr_releasing (update_report g s) = cr_releasing s"
  "cr_claiming (update_report g s) = cr_claiming s" "cr_phase (update_report g s) = cr_phase s"
  "cr_report (update_report g s) = g (cr_report s)" "cr_status (update_report g s) = cr_status s"
  "cr_executing (store_active s) = cr_executing s" "cr_releasing (store_active s) = cr_releasing s"
  "cr_claiming (store_active s) = cr_claiming s" "cr_phase (store_active s) = cr_phase s"
  "cr_report (store_active s) = cr_report s"
  "cr_status (store_active s) = (cr_status s)\<lparr>rs_active := length (cr_executing s)\<rparr>"
  by (simp_all add: consumer_record_iteration_def update_status_def update_report_def store_active_def Let_def)

lemma assign_claimed_effect:
  "cr_claiming (assign_claimed stop available index tasks s) = cr_claiming s
   \<and> cr_phase (assign_claimed stop available index tasks s) = cr_phase s
   \<and> cr_status (assign_claimed stop available index tasks s) = cr_status s
   \<and> (let n = (if phase_stopping (cr_phase s) \<or> stop then 0 else available - index) in
       cr_executing (assign_claimed stop available index tasks s) = cr_executing s @ take n tasks
       \<and> cr_releasing (assign_claimed stop available index tasks s) = cr_releasing s @ drop n tasks
       \<and> cr_report (assign_claimed stop available index tasks s) =
           (cr_report s)\<lparr>rp_stats := (rp_stats (cr_report s))
              \<lparr>st_claimed := st_claimed (rp_stats (cr_report s)) + length (take n tasks)\<rparr>\<rparr>)"
proof (induction tasks arbitrary: index s)
  case Nil
  then show ?case by (simp add: Let_def)
next
  case (Cons task tasks)
  show ?case
  proof (cases "phase_stopping (cr_phase s) \<or> stop \<or> index \<ge> available")
    case True
    then show ?thesis
      using Cons.IH [of "index + 1" "s\<lparr>cr_releasing := cr_releasing s @ [task]\<rparr>"]
      by (cases "phase_stopping (cr_phase s) \<or> stop") (simp_all add: Let_def)
  next
    case False
    then have "index < available" by simp
    then have "available - index = Suc (available - Suc index)" by simp
    then show ?thesis
      using Cons.IH [of "index + 1" "update_report (\<lambda>report.
          report\<lparr>rp_stats := (rp_stats report)\<lparr>st_claimed := st_claimed (rp_stats report) + 1\<rparr>\<rparr>)
          (s\<lparr>cr_executing := cr_executing s @ [task]\<rparr>)"] False
      by (simp add: Let_def)
  qed
qed

lemma mset_remove_nth:
  "i < length xs \<Longrightarrow> mset xs = add_mset (xs ! i) (mset (remove_nth i xs))"
  by (metis add_mset_add_single id_take_nth_drop mset.simps(2) mset_append remove_nth_def union_mset_add_mset_right)

lemma length_remove_nth: "i < length xs \<Longrightarrow> length (remove_nth i xs) = length xs - 1"
  by (simp add: remove_nth_def)

text \<open>What a claim that returned tasks does: the first \<open>startable\<close> ones start, the others are given back.\<close>

definition startable :: "ConsumerReads \<Rightarrow> bool \<Rightarrow> ClaimTicket \<Rightarrow> 'task ConsumerRuntime \<Rightarrow> nat" where
  "startable reads stop ticket s =
     (if phase_stopping (cr_phase s) \<or> stop then 0
      else min (ct_reserved ticket) (rd_concurrency reads - length (cr_executing s)))"

lemma completed_claim_effect:
  fixes result :: "('e, 'task list) joined"
  assumes result: "result = Inr (Inr tasks)"
  shows "cr_executing (completed_claim reads stop ticket result s) = cr_executing s @ take (startable reads stop ticket s) tasks"
    and "cr_releasing (completed_claim reads stop ticket result s) = cr_releasing s @ drop (startable reads stop ticket s) tasks"
    and "cr_claiming (completed_claim reads stop ticket result s) = cr_claiming s"
    and "cr_phase (completed_claim reads stop ticket result s) = cr_phase s"
    and "cr_report (completed_claim reads stop ticket result s) =
           (cr_report s)\<lparr>rp_stats := (rp_stats (cr_report s))
              \<lparr>st_claimed := st_claimed (rp_stats (cr_report s)) + length (take (startable reads stop ticket s) tasks)\<rparr>\<rparr>"
    and "rs_active (cr_status (completed_claim reads stop ticket result s)) =
           length (cr_executing s) + length (take (startable reads stop ticket s) tasks)"
proof -
  define x where "x = assign_claimed stop
    (min (ct_reserved ticket) (usize_saturating_sub (rd_concurrency reads) (length (cr_executing (update_status (observe_available True) s)))))
    0 tasks (update_status (observe_available True) s)"
  have x: "cr_claiming x = cr_claiming s" "cr_phase x = cr_phase s"
    "cr_executing x = cr_executing s @ take (startable reads stop ticket s) tasks"
    "cr_releasing x = cr_releasing s @ drop (startable reads stop ticket s) tasks"
    "cr_report x = (cr_report s)\<lparr>rp_stats := (rp_stats (cr_report s))
       \<lparr>st_claimed := st_claimed (rp_stats (cr_report s)) + length (take (startable reads stop ticket s) tasks)\<rparr>\<rparr>"
    unfolding x_def startable_def
    using assign_claimed_effect [of stop "min (ct_reserved ticket) (rd_concurrency reads - length (cr_executing s))"
        0 tasks "update_status (observe_available True) s", unfolded Let_def]
    by (simp_all add: usize_saturating_sub_def)
  have "completed_claim reads stop ticket result s =
    (let y = consumer_record_iteration reads Timer (if tasks \<noteq> [] then iteration_active else iteration_idle) (store_active x)
     in if tasks \<noteq> [] \<and> \<not> phase_stopping (cr_phase y) \<and> \<not> stop \<and> rd_concurrency reads > length (cr_executing y)
        then y\<lparr>cr_next_poll := rd_now reads, cr_next_trigger := ''capacity_refill''\<rparr> else y)"
    by (simp only: completed_claim_def x_def Let_def sum.case result)
  then obtain poll trigger where done_eq: "completed_claim reads stop ticket result s =
      (consumer_record_iteration reads Timer (if tasks \<noteq> [] then iteration_active else iteration_idle) (store_active x))
        \<lparr>cr_next_poll := poll, cr_next_trigger := trigger\<rparr>"
    by (auto simp: Let_def consumer_record_iteration_def split: if_splits)
  show "cr_executing (completed_claim reads stop ticket result s) = cr_executing s @ take (startable reads stop ticket s) tasks"
    and "cr_releasing (completed_claim reads stop ticket result s) = cr_releasing s @ drop (startable reads stop ticket s) tasks"
    and "cr_claiming (completed_claim reads stop ticket result s) = cr_claiming s"
    and "cr_phase (completed_claim reads stop ticket result s) = cr_phase s"
    and "cr_report (completed_claim reads stop ticket result s) =
           (cr_report s)\<lparr>rp_stats := (rp_stats (cr_report s))
              \<lparr>st_claimed := st_claimed (rp_stats (cr_report s)) + length (take (startable reads stop ticket s) tasks)\<rparr>\<rparr>"
    and "rs_active (cr_status (completed_claim reads stop ticket result s)) =
           length (cr_executing s) + length (take (startable reads stop ticket s) tasks)"
    by (simp_all add: done_eq x)
qed

lemma completed_execution_effect:
  "cr_executing (completed_execution reads result s) = cr_executing s"
  "cr_releasing (completed_execution reads result s) = cr_releasing s"
  "cr_claiming (completed_execution reads result s) = cr_claiming s"
  "cr_phase (completed_execution reads result s) = cr_phase s"
  "st_claimed (rp_stats (cr_report (completed_execution reads result s))) = st_claimed (rp_stats (cr_report s))"
  "rp_abandoned (cr_report (completed_execution reads result s)) = rp_abandoned (cr_report s)"
  "rp_abandoned_releases (cr_report (completed_execution reads result s)) = rp_abandoned_releases (cr_report s)"
  "rs_active (cr_status (completed_execution reads result s)) = length (cr_executing s)"
  by (simp_all add: completed_execution_def Let_def add_outcome_def split: sum.split)

lemma failed_claim_effect:
  "cr_executing (failed_claim reads s) = cr_executing s" "cr_releasing (failed_claim reads s) = cr_releasing s"
  "cr_claiming (failed_claim reads s) = cr_claiming s" "cr_phase (failed_claim reads s) = cr_phase s"
  "cr_report (failed_claim reads s) = (cr_report s)\<lparr>rp_claim_errors := rp_claim_errors (cr_report s) + 1\<rparr>"
  "cr_status (failed_claim reads s) = (cr_status s)\<lparr>rs_claim_failed := True\<rparr>"
  by (simp_all add: failed_claim_def)

lemma completed_release_effect:
  "cr_executing (completed_release result s) = cr_executing s"
  "cr_releasing (completed_release result s) = cr_releasing s"
  "cr_claiming (completed_release result s) = cr_claiming s"
  "cr_phase (completed_release result s) = cr_phase s"
  "cr_status (completed_release result s) = cr_status s"
  "rp_stats (cr_report (completed_release result s)) = rp_stats (cr_report s)"
  "rp_abandoned (cr_report (completed_release result s)) = rp_abandoned (cr_report s)"
  "rp_abandoned_releases (cr_report (completed_release result s)) = rp_abandoned_releases (cr_report s)"
  by (auto simp: completed_release_def split: sum.split)

text \<open>A poll asks for exactly the free slots, or for nothing when there is none.\<close>

lemma consumer_poll_effect:
  "cr_executing (consumer_poll reads s) = cr_executing s" "cr_releasing (consumer_poll reads s) = cr_releasing s"
  "cr_phase (consumer_poll reads s) = cr_phase s" "cr_report (consumer_poll reads s) = cr_report s"
  "rs_active (cr_status (consumer_poll reads s)) = rs_active (cr_status s)"
  "cr_claiming (consumer_poll reads s) =
     (if length (cr_executing s) < rd_concurrency reads
      then cr_claiming s @ [\<lparr>ct_sequence = cr_claim_sequence s + 1,
                             ct_reserved = rd_concurrency reads - length (cr_executing s)\<rparr>]
      else cr_claiming s)"
  by (auto simp: consumer_poll_def Let_def usize_saturating_sub_def observe_available_def)

section \<open>The invariant\<close>

definition consumer_inv :: "'task ConsumerRuntime \<Rightarrow> 'task ConsumerLedger \<Rightarrow> bool" where
  "consumer_inv s l \<longleftrightarrow>
     mset (ld_claimed l) = mset (cr_executing s) + mset (cr_releasing s) + mset (ld_executed l)
       + mset (ld_released l) + mset (ld_cut_off l) + mset (ld_unreleased l)
     \<and> st_claimed (rp_stats (cr_report s)) = length (cr_executing s) + length (ld_executed l) + length (ld_cut_off l)
     \<and> rp_abandoned (cr_report s) = length (ld_cut_off l)
     \<and> rp_abandoned_releases (cr_report s) = length (ld_unreleased l)
     \<and> length (cr_claiming s) \<le> 1
     \<and> (rs_active (cr_status s) = length (cr_executing s) \<or> loop_ended s)
     \<and> (loop_ended s \<or> ld_cut_off l = [] \<and> ld_unreleased l = [])"

lemma new_consumer_inv: "consumer_inv (ConsumerRuntime_new reads (status_start TaskRuntimeStatus_default)) empty_ledger"
  by (simp add: consumer_inv_def ConsumerRuntime_new_def empty_ledger_def TaskConsumerReport_default_def
      DispatchStats_default_def status_start_def TaskRuntimeStatus_default_def)

lemma consumer_inv_open:
  assumes "consumer_inv s l" and "\<not> loop_ended s"
  shows "mset (ld_claimed l) = mset (cr_executing s) + mset (cr_releasing s) + mset (ld_executed l) + mset (ld_released l)"
    and "st_claimed (rp_stats (cr_report s)) = length (cr_executing s) + length (ld_executed l)"
    and "rp_abandoned (cr_report s) = 0" and "rp_abandoned_releases (cr_report s) = 0"
    and "length (cr_claiming s) \<le> 1" and "rs_active (cr_status s) = length (cr_executing s)"
    and "ld_cut_off l = []" and "ld_unreleased l = []"
  using assms by (auto simp: consumer_inv_def)

lemma consumer_inv_openI:
  assumes "mset (ld_claimed l) = mset (cr_executing s) + mset (cr_releasing s) + mset (ld_executed l) + mset (ld_released l)"
    and "st_claimed (rp_stats (cr_report s)) = length (cr_executing s) + length (ld_executed l)"
    and "rp_abandoned (cr_report s) = 0" and "rp_abandoned_releases (cr_report s) = 0"
    and "length (cr_claiming s) \<le> 1" and "rs_active (cr_status s) = length (cr_executing s)"
    and "ld_cut_off l = []" and "ld_unreleased l = []"
  shows "consumer_inv s l"
  using assms by (simp add: consumer_inv_def)

lemma claimed_inv:
  assumes inv: "consumer_inv s l" and going: "\<not> loop_ended s"
    and step: "select_arm config stop reads (Claimed i result) s = Some s'"
  shows "consumer_inv s' (ledger_step (Claimed i result) s l)"
proof -
  note inv = consumer_inv_open [OF inv going]
  let ?t = "s\<lparr>cr_claiming := remove_nth i (cr_claiming s)\<rparr>"
  have i: "i < length (cr_claiming s)" and s': "s' = completed_claim reads stop (cr_claiming s ! i) result ?t"
    using step by (auto split: if_splits)
  have one: "length (remove_nth i (cr_claiming s)) \<le> 1" using inv(5) i by (simp add: length_remove_nth)
  consider (ok) tasks where "result = Inr (Inr tasks)" | (error) e where "result = Inr (Inl e)"
    | (join) p where "result = Inl p" by (metis sum.exhaust)
  then show ?thesis
  proof cases
    case (ok tasks)
    note effect = completed_claim_effect [where reads = reads and stop = stop and ticket = "cr_claiming s ! i" and s = ?t, OF refl]
    let ?n = "startable reads stop (cr_claiming s ! i) ?t"
    have tasks: "mset tasks = mset (take ?n tasks) + mset (drop ?n tasks)"
      by (metis append_take_drop_id mset_append)
    show ?thesis
    proof (rule consumer_inv_openI)
      show "mset (ld_claimed (ledger_step (Claimed i result) s l)) =
          mset (cr_executing s') + mset (cr_releasing s') + mset (ld_executed (ledger_step (Claimed i result) s l))
          + mset (ld_released (ledger_step (Claimed i result) s l))"
        using inv(1) tasks by (simp add: ok s' effect ac_simps)
    qed (use inv one in \<open>simp_all add: ok s' effect\<close>)
  next
    case error
    show ?thesis
      by (rule consumer_inv_openI) (use inv one in \<open>simp_all add: error s' completed_claim_def failed_claim_effect\<close>)
  next
    case join
    show ?thesis
      by (rule consumer_inv_openI) (use inv one in \<open>simp_all add: join s' completed_claim_def failed_claim_effect\<close>)
  qed
qed

lemma not_ended_reads [simp]: "loop_ended (s\<lparr>cr_concurrency := c\<rparr>) = loop_ended s"
  by (simp add: loop_ended_def consumer_idle_def)

lemma consumer_inv_reads [simp]: "consumer_inv (s\<lparr>cr_concurrency := c\<rparr>) l = consumer_inv s l"
  by (simp add: consumer_inv_def)

lemma ledger_step_reads [simp]: "ledger_step event (s\<lparr>cr_concurrency := c\<rparr>) l = ledger_step event s l"
  by (cases "(event, s, l)" rule: ledger_step.cases) (simp_all split: ConsumerPhase.split)

lemma abandoned_inv:
  assumes inv: "consumer_inv s l" and going: "\<not> loop_ended s" and phase: "cr_phase s = Cancelling deadline"
  shows "consumer_inv (consumer_abandon s) (ledger_step DeadlineReached s l)"
proof -
  have "loop_ended (consumer_abandon s)"
    using phase by (simp add: consumer_abandon_def loop_ended_def consumer_idle_def phase_stopping_def)
  then show ?thesis
    using consumer_inv_open [OF inv going] phase
    by (simp add: consumer_inv_def consumer_abandon_def update_report_def)
qed

lemma select_arm_inv:
  assumes inv: "consumer_inv s l" and going: "\<not> loop_ended s"
    and step: "select_arm config stop reads event s = Some s'"
  shows "consumer_inv s' (ledger_step event s l)"
proof (cases event)
  case StopClaiming
  show ?thesis
    by (rule consumer_inv_openI)
      (use consumer_inv_open [OF inv going] step StopClaiming in \<open>auto split: if_splits\<close>)
next
  case DeadlineReached
  show ?thesis
  proof (cases "cr_phase s")
    case (Cancelling deadline)
    then show ?thesis using abandoned_inv [OF inv going Cancelling] step DeadlineReached by (simp split: if_splits)
  next
    case (Draining deadline)
    show ?thesis
      by (rule consumer_inv_openI)
        (use consumer_inv_open [OF inv going] step DeadlineReached Draining in \<open>auto split: if_splits\<close>)
  qed (use step DeadlineReached in simp)
next
  case (Executed i result)
  then have i: "i < length (cr_executing s)"
    and s': "s' = completed_execution reads result (s\<lparr>cr_executing := remove_nth i (cr_executing s)\<rparr>)"
    using step by (auto split: if_splits)
  show ?thesis
    by (rule consumer_inv_openI)
      (use consumer_inv_open [OF inv going] i mset_remove_nth [OF i] length_remove_nth [OF i]
        in \<open>simp_all add: s' Executed completed_execution_effect\<close>)
next
  case (Claimed i result)
  then show ?thesis using claimed_inv [OF inv going] step by blast
next
  case (ReleaseDone i result)
  then have i: "i < length (cr_releasing s)"
    and s': "s' = completed_release result (s\<lparr>cr_releasing := remove_nth i (cr_releasing s)\<rparr>)"
    using step by (auto split: if_splits)
  show ?thesis
    by (rule consumer_inv_openI)
      (use consumer_inv_open [OF inv going] mset_remove_nth [OF i]
        in \<open>simp_all add: s' ReleaseDone completed_release_effect\<close>)
next
  case PollDue
  show ?thesis
    by (rule consumer_inv_openI)
      (use consumer_inv_open [OF inv going] step PollDue in \<open>auto simp: consumer_poll_effect split: if_splits\<close>)
next
  case Notified
  show ?thesis
    by (rule consumer_inv_openI)
      (use consumer_inv_open [OF inv going] step Notified in \<open>auto split: if_splits\<close>)
qed

lemma reaches_inv: "consumer_reaches config events s l \<Longrightarrow> consumer_inv s l"
proof (induction rule: consumer_reaches.induct)
  case (started_loop reads)
  show ?case by (rule new_consumer_inv)
next
  case (next_round events s l stop reads event s')
  then have going: "\<not> loop_ended s"
    and step: "select_arm config stop reads event (s\<lparr>cr_concurrency := rd_concurrency reads\<rparr>) = Some s'"
    by (auto simp: consumer_step_def split: if_splits)
  then show ?case
    using select_arm_inv [of "s\<lparr>cr_concurrency := rd_concurrency reads\<rparr>" l config stop reads event s']
      next_round.IH by simp
qed

section \<open>Capacity\<close>

text \<open>What one round may start.\<close>

lemma select_arm_starts:
  assumes "select_arm config stop reads event s = Some s'"
  shows "length (cr_executing s') \<le> length (cr_executing s)
    \<or> cr_phase s = Running \<and> \<not> stop \<and> length (cr_executing s') \<le> rd_concurrency reads"
proof (cases event)
  case (Claimed i result)
  let ?t = "s\<lparr>cr_claiming := remove_nth i (cr_claiming s)\<rparr>"
  have s': "s' = completed_claim reads stop (cr_claiming s ! i) result ?t"
    using assms Claimed by (auto split: if_splits)
  consider (ok) tasks where "result = Inr (Inr tasks)" | (error) e where "result = Inr (Inl e)"
    | (join) p where "result = Inl p" by (metis sum.exhaust)
  then show ?thesis
  proof cases
    case (ok tasks)
    show ?thesis
      unfolding s' ok
      by (auto simp: completed_claim_effect(1) [OF refl] startable_def phase_stopping_def)
  qed (simp_all add: s' completed_claim_def failed_claim_effect)
qed (use assms in \<open>auto simp: completed_execution_effect completed_release_effect consumer_poll_effect
      length_remove_nth consumer_abandon_def update_report_def split: if_splits ConsumerPhase.splits\<close>)

lemma select_arm_claims:
  assumes "select_arm config stop reads event s = Some s'"
  shows "length (cr_claiming s') \<le> length (cr_claiming s)
    \<or> cr_phase s = Running \<and> cr_claiming s = []
      \<and> (\<exists>ticket. cr_claiming s' = [ticket] \<and> length (cr_executing s) + ct_reserved ticket = rd_concurrency reads)"
proof (cases event)
  case (Claimed i result)
  let ?t = "s\<lparr>cr_claiming := remove_nth i (cr_claiming s)\<rparr>"
  have s': "s' = completed_claim reads stop (cr_claiming s ! i) result ?t" and i: "i < length (cr_claiming s)"
    using assms Claimed by (auto split: if_splits)
  consider (ok) tasks where "result = Inr (Inr tasks)" | (error) e where "result = Inr (Inl e)"
    | (join) p where "result = Inl p" by (metis sum.exhaust)
  then show ?thesis
  proof cases
    case (ok tasks)
    show ?thesis
      unfolding s' ok using i by (simp add: completed_claim_effect(3) [OF refl] length_remove_nth)
  qed (use i in \<open>simp_all add: s' completed_claim_def failed_claim_effect length_remove_nth\<close>)
qed (use assms in \<open>auto simp: completed_execution_effect completed_release_effect consumer_poll_effect
      consumer_abandon_def update_report_def phase_stopping_def split: if_splits ConsumerPhase.splits\<close>)

section \<open>Shutdown\<close>

text \<open>
  Once the loop is stopping, every round uses up a deadline, a claim in flight, or a task that was
  held: lexicographically.
\<close>

definition shutdown_measure :: "'task ConsumerRuntime \<Rightarrow> nat \<times> nat \<times> nat" where
  "shutdown_measure s =
     (case cr_phase s of Running \<Rightarrow> 2 | Draining _ \<Rightarrow> 1 | Cancelling _ \<Rightarrow> 0,
      length (cr_claiming s), length (cr_executing s) + length (cr_releasing s))"

lemma select_arm_stopping:
  assumes stopping: "phase_stopping (cr_phase s)" and going: "\<not> loop_ended s"
    and step: "select_arm config stop reads event s = Some s'"
  shows "phase_stopping (cr_phase s')
    \<and> (shutdown_measure s', shutdown_measure s) \<in> less_than <*lex*> less_than <*lex*> less_than"
proof (cases event)
  case DeadlineReached
  show ?thesis
  proof (cases "cr_phase s")
    case (Cancelling deadline)
    have "cr_executing s \<noteq> [] \<or> cr_claiming s \<noteq> [] \<or> cr_releasing s \<noteq> []"
      using going stopping by (auto simp: loop_ended_def consumer_idle_def)
    then show ?thesis
      using Cancelling step DeadlineReached
      by (auto simp: shutdown_measure_def consumer_abandon_def update_report_def phase_stopping_def split: if_splits)
  next
    case (Draining deadline)
    then show ?thesis
      using step DeadlineReached by (auto simp: shutdown_measure_def phase_stopping_def split: if_splits)
  qed (use step DeadlineReached in simp)
next
  case (Executed i result)
  then show ?thesis
    using step stopping by (auto simp: shutdown_measure_def completed_execution_effect length_remove_nth split: if_splits)
next
  case (Claimed i result)
  let ?t = "s\<lparr>cr_claiming := remove_nth i (cr_claiming s)\<rparr>"
  have s': "s' = completed_claim reads stop (cr_claiming s ! i) result ?t" and i: "i < length (cr_claiming s)"
    using step Claimed by (auto split: if_splits)
  consider (ok) tasks where "result = Inr (Inr tasks)" | (error) e where "result = Inr (Inl e)"
    | (join) p where "result = Inl p" by (metis sum.exhaust)
  then have "cr_phase s' = cr_phase s \<and> cr_claiming s' = remove_nth i (cr_claiming s)"
  proof cases
    case (ok tasks)
    show ?thesis unfolding s' ok by (simp add: completed_claim_effect(3,4) [OF refl])
  qed (simp_all add: s' completed_claim_def failed_claim_effect)
  moreover have "length (remove_nth i (cr_claiming s)) < length (cr_claiming s)"
    using i length_remove_nth [OF i] by linarith
  ultimately show ?thesis using stopping by (simp add: shutdown_measure_def)
next
  case (ReleaseDone i result)
  then show ?thesis
    using step stopping by (auto simp: shutdown_measure_def completed_release_effect length_remove_nth split: if_splits)
qed (use step stopping in \<open>auto split: if_splits\<close>)

lemma consumer_step_stopping:
  assumes "phase_stopping (cr_phase s)" and "consumer_step config stop reads event s = Some s'"
  shows "phase_stopping (cr_phase s')"
    and "(shutdown_measure s', shutdown_measure s) \<in> less_than <*lex*> less_than <*lex*> less_than"
proof -
  let ?s = "s\<lparr>cr_concurrency := rd_concurrency reads\<rparr>"
  have "\<not> loop_ended ?s" and "select_arm config stop reads event ?s = Some s'"
    using assms(2) by (auto simp: consumer_step_def split: if_splits)
  from select_arm_stopping [OF _ this] assms(1)
  show "phase_stopping (cr_phase s')"
    and "(shutdown_measure s', shutdown_measure s) \<in> less_than <*lex*> less_than <*lex*> less_than"
    by (simp_all add: shutdown_measure_def)
qed

text \<open>A loop that is stopping and has not ended can always go on: its deadline comes.\<close>

lemma stopping_goes_on:
  assumes "phase_stopping (cr_phase s)" and "\<not> loop_ended s"
  shows "\<exists>reads event. consumer_step config stop reads (event :: ('e, 'task) ConsumerEvent) s \<noteq> None"
proof -
  obtain deadline where d: "phase_deadline (cr_phase s) = Some deadline"
    using assms(1) by (cases "cr_phase s") (auto simp: phase_stopping_def)
  define reads where "reads = \<lparr>rd_now = deadline, rd_concurrency = 0, rd_poll_interval = 0, rd_idle_max_interval = 0\<rparr>"
  have "consumer_step config stop reads (DeadlineReached :: ('e, 'task) ConsumerEvent) s \<noteq> None"
    using d assms(2) by (cases "cr_phase s") (auto simp: consumer_step_def reads_def)
  then show ?thesis by blast
qed

section \<open>Properties\<close>

text \<open>
  C34: No claimed task is lost: in every state the loop can reach, the tasks that claims returned are,
  with multiplicity, those whose handler runs, whose release runs, whose handler or release was
  joined, or that were dropped at the final deadline. The report counts exactly the started and
  the dropped ones, at most one claim is in flight, and the published number of active tasks is
  the number of running handlers until the loop ends.
\<close>

theorem consumer_accounts_for_tasks:
  assumes "consumer_reaches config events s l"
  shows "mset (ld_claimed l) = mset (cr_executing s) + mset (cr_releasing s) + mset (ld_executed l)
      + mset (ld_released l) + mset (ld_cut_off l) + mset (ld_unreleased l)
    \<and> st_claimed (rp_stats (cr_report s)) = length (cr_executing s) + length (ld_executed l) + length (ld_cut_off l)
    \<and> rp_abandoned (cr_report s) = length (ld_cut_off l)
    \<and> rp_abandoned_releases (cr_report s) = length (ld_unreleased l)
    \<and> length (cr_claiming s) \<le> 1
    \<and> (rs_active (cr_status s) = length (cr_executing s) \<or> loop_ended s)"
  using reaches_inv [OF assms] unfolding consumer_inv_def by blast

text \<open>
  C35: A round starts handlers only while the consumer runs and was not told to stop, and never more
  than the concurrency it reads then; and a round puts a claim in flight only when there is none
  and only for the slots that are free.
\<close>

theorem consumer_respects_capacity:
  assumes "consumer_step config stop reads event s = Some s'"
  shows "(length (cr_executing s') \<le> length (cr_executing s)
      \<or> cr_phase s = Running \<and> \<not> stop \<and> length (cr_executing s') \<le> rd_concurrency reads)
    \<and> (length (cr_claiming s') \<le> length (cr_claiming s)
      \<or> cr_phase s = Running \<and> cr_claiming s = []
        \<and> (\<exists>ticket. cr_claiming s' = [ticket]
              \<and> length (cr_executing s) + ct_reserved ticket = rd_concurrency reads))"
proof -
  have "select_arm config stop reads event (s\<lparr>cr_concurrency := rd_concurrency reads\<rparr>) = Some s'"
    using assms by (simp add: consumer_step_def split: if_splits)
  from select_arm_starts [OF this] select_arm_claims [OF this] show ?thesis by simp
qed

text \<open>
  C36: A shutdown ends: once the loop is stopping there is no infinite run of rounds, whatever claims,
  handlers and releases still return, and until the loop has ended some round is possible.
\<close>

theorem consumer_shutdown_ends:
  fixes arms :: "nat \<Rightarrow> ('e, 'task) ConsumerEvent" and run :: "nat \<Rightarrow> 'task ConsumerRuntime"
  assumes "phase_stopping (cr_phase (run 0))"
  shows "(\<exists>n. consumer_step config (stops n) (readings n) (arms n) (run n) \<noteq> Some (run (Suc n)))
    \<and> (loop_ended (run 0)
      \<or> (\<exists>reads event. consumer_step config stop reads (event :: ('e, 'task) ConsumerEvent) (run 0) \<noteq> None))"
proof
  show "\<exists>n. consumer_step config (stops n) (readings n) (arms n) (run n) \<noteq> Some (run (Suc n))"
  proof (rule ccontr)
    assume "\<not> ?thesis"
    then have step: "consumer_step config (stops n) (readings n) (arms n) (run n) = Some (run (Suc n))" for n
      by blast
    have stopping: "phase_stopping (cr_phase (run n))" for n
    proof (induction n)
      case (Suc n)
      show ?case by (rule consumer_step_stopping(1) [OF Suc.IH step])
    qed (rule assms)
    have "(shutdown_measure (run (Suc n)), shutdown_measure (run n)) \<in> less_than <*lex*> less_than <*lex*> less_than" for n
      by (rule consumer_step_stopping(2) [OF stopping step])
    moreover have "wf (less_than <*lex*> less_than <*lex*> less_than)" by auto
    ultimately show False
      using wf_no_infinite_down_chainE [where f = "\<lambda>n. shutdown_measure (run n)"] by blast
  qed
  show "loop_ended (run 0)
      \<or> (\<exists>reads event. consumer_step config stop reads (event :: ('e, 'task) ConsumerEvent) (run 0) \<noteq> None)"
    using stopping_goes_on [OF assms] by blast
qed

section \<open>An instance\<close>

text \<open>A consumer of two slots claims three tasks: two start, the third is given back.\<close>

definition trio_reads :: ConsumerReads where
  "trio_reads = \<lparr>rd_now = 0, rd_concurrency = 2, rd_poll_interval = 10, rd_idle_max_interval = 20\<rparr>"

definition trio_new :: "nat ConsumerRuntime" where
  "trio_new = ConsumerRuntime_new trio_reads (status_start TaskRuntimeStatus_default)"

definition trio_polled :: "nat ConsumerRuntime" where
  "trio_polled = trio_new\<lparr>cr_claim_sequence := 1, cr_claiming := [\<lparr>ct_sequence = 1, ct_reserved = 2\<rparr>]\<rparr>"

definition trio_claim :: "(string, nat) ConsumerEvent" where
  "trio_claim = Claimed 0 (Inr (Inr [7, 8, 9]))"

definition trio_claimed :: "nat ConsumerRuntime" where
  "trio_claimed = completed_claim trio_reads False \<lparr>ct_sequence = 1, ct_reserved = 2\<rparr>
     (Inr (Inr [7, 8, 9]) :: (string, nat list) joined) (trio_polled\<lparr>cr_claiming := []\<rparr>)"

lemma trio_steps:
  "consumer_step TaskConsumerConfig_default False trio_reads (PollDue :: (string, nat) ConsumerEvent) trio_new = Some trio_polled"
  "consumer_step TaskConsumerConfig_default False trio_reads trio_claim trio_polled = Some trio_claimed"
  by (simp_all add: consumer_step_def trio_new_def trio_polled_def trio_claimed_def trio_claim_def trio_reads_def
      ConsumerRuntime_new_def loop_ended_def phase_stopping_def consumer_poll_def Let_def usize_saturating_sub_def
      remove_nth_def)

lemma trio_claimed_tasks: "cr_executing trio_claimed = [7, 8]" "cr_releasing trio_claimed = [9]"
  by (simp_all add: trio_claimed_def completed_claim_effect(1,2) [OF refl] startable_def phase_stopping_def
      trio_polled_def trio_new_def ConsumerRuntime_new_def trio_reads_def numeral_2_eq_2)

lemma trio_reached:
  "consumer_reaches TaskConsumerConfig_default [PollDue, trio_claim] trio_claimed (empty_ledger\<lparr>ld_claimed := [7, 8, 9]\<rparr>)"
proof -
  have "consumer_reaches TaskConsumerConfig_default ([] :: (string, nat) ConsumerEvent list) trio_new empty_ledger"
    unfolding trio_new_def by (rule started_loop)
  note next_round [OF this trio_steps(1)]
  from next_round [OF this trio_steps(2)] show ?thesis
    by (simp add: trio_claim_def empty_ledger_def)
qed

theorem consumer_accounts_for_tasks_witness:
  "{#7, 8, 9#} = mset (cr_executing trio_claimed) + mset (cr_releasing trio_claimed)
    \<and> st_claimed (rp_stats (cr_report trio_claimed)) = 2 \<and> rs_active (cr_status trio_claimed) = 2"
proof -
  have "\<not> loop_ended trio_claimed" by (simp add: loop_ended_def consumer_idle_def trio_claimed_tasks)
  then show ?thesis
    using consumer_accounts_for_tasks [OF trio_reached] by (simp add: empty_ledger_def trio_claimed_tasks)
qed

theorem consumer_respects_capacity_witness:
  "length (cr_executing trio_claimed) \<le> length (cr_executing trio_polled)
    \<or> cr_phase trio_polled = Running \<and> length (cr_executing trio_claimed) \<le> 2"
  using consumer_respects_capacity [OF trio_steps(2)] by (simp add: trio_reads_def)

definition trio_draining :: "nat ConsumerRuntime" where
  "trio_draining = trio_claimed\<lparr>cr_phase := Draining 20\<rparr>"

theorem consumer_shutdown_ends_witness:
  "\<exists>n. consumer_step TaskConsumerConfig_default True trio_reads (Executed 0 (Inl True) :: (string, nat) ConsumerEvent)
      (if n = 0 then trio_draining else trio_claimed) \<noteq> Some (if Suc n = 0 then trio_draining else trio_claimed)"
  using consumer_shutdown_ends [of "\<lambda>n. if n = 0 then trio_draining else trio_claimed" TaskConsumerConfig_default "\<lambda>_. True"
      "\<lambda>_. trio_reads" "\<lambda>_. Executed 0 (Inl True) :: (string, nat) ConsumerEvent"]
  by (simp add: trio_draining_def phase_stopping_def)

end
