(* ===== verification/Core_Values.thy ===== *)
theory Core_Values
  imports Prelude
begin

text \<open>
  The value model of \<open>aster_forge_cloud_files_core\<close>: errors (\<open>error.rs\<close>), opaque
  identities, revisions and cursors (\<open>identity.rs\<close>, \<open>revision.rs\<close>, \<open>cursor.rs\<close>),
  items (\<open>item.rs\<close>), changes (\<open>change.rs\<close>), backend errors (\<open>backend_error.rs\<close>)
  local-content snapshots (\<open>local_content.rs\<close>) and session fences (\<open>mutation.rs\<close>). A struct is a record whose fields carry
  a short prefix of the struct's name, so that the accessor methods of the sources are the
  record's selectors; a tuple struct is a datatype with one constructor.
\<close>

section \<open>Errors\<close>

datatype CloudFilesCoreError =
    EmptyValue string
  | NativeIdentityTooLarge usize usize
  | AlignmentIntersectionOverflow u64 u64
  | MissingRequiredCapability string
  | InvalidItemShape string
  | InvalidByteRange string
  | InvalidContentResponse string
  | InvalidMutationIntent string
  | InvalidMutationTransition string
  | InvalidSessionGeneration
  | InvalidLocalContentGeneration
  | InvalidContentStorageState string
  | InvalidContentEvictionTransition string
  | InvalidContentCacheWriteTransition string
  | InvalidContentUploadTransition string

type_synonym 'a core_result = "CloudFilesCoreError + 'a"

text \<open>Rust's \<open>Display\<close> of an unsigned integer, and of the error (\<open>thiserror\<close> formats).\<close>

fun display_nat :: "nat \<Rightarrow> string" where
  "display_nat n = (if n < 10 then [] else display_nat (n div 10)) @ [char_of (48 + n mod 10)]"

declare display_nat.simps [simp del]

primrec CloudFilesCoreError_to_string :: "CloudFilesCoreError \<Rightarrow> string" where
  "CloudFilesCoreError_to_string (EmptyValue field) = field @ '' must not be empty''"
| "CloudFilesCoreError_to_string (NativeIdentityTooLarge actual_bytes max_bytes) =
     ''native identity is '' @ display_nat actual_bytes @ '' bytes, exceeding the ''
     @ display_nat max_bytes @ ''-byte limit''"
| "CloudFilesCoreError_to_string (AlignmentIntersectionOverflow left right) =
     ''range alignment intersection overflowed for '' @ display_nat (unat left) @ '' and ''
     @ display_nat (unat right)"
| "CloudFilesCoreError_to_string (MissingRequiredCapability capability) =
     ''required cloud-files capability is missing: '' @ capability"
| "CloudFilesCoreError_to_string (InvalidItemShape reason) = ''invalid cloud item shape: '' @ reason"
| "CloudFilesCoreError_to_string (InvalidByteRange reason) = ''invalid byte range: '' @ reason"
| "CloudFilesCoreError_to_string (InvalidContentResponse reason) =
     ''invalid content response: '' @ reason"
| "CloudFilesCoreError_to_string (InvalidMutationIntent reason) = ''invalid mutation intent: '' @ reason"
| "CloudFilesCoreError_to_string (InvalidMutationTransition reason) =
     ''invalid mutation transition: '' @ reason"
| "CloudFilesCoreError_to_string InvalidSessionGeneration = ''session generation must be non-zero''"
| "CloudFilesCoreError_to_string InvalidLocalContentGeneration =
     ''local content generation must be non-zero''"
| "CloudFilesCoreError_to_string (InvalidContentStorageState reason) =
     ''invalid content storage state: '' @ reason"
| "CloudFilesCoreError_to_string (InvalidContentEvictionTransition reason) =
     ''invalid content eviction transition: '' @ reason"
| "CloudFilesCoreError_to_string (InvalidContentCacheWriteTransition reason) =
     ''invalid content cache write transition: '' @ reason"
| "CloudFilesCoreError_to_string (InvalidContentUploadTransition reason) =
     ''invalid content upload transition: '' @ reason"

section \<open>Opaque values\<close>

text \<open>
  The bodies of the macros \<open>string_identity!\<close>, \<open>opaque_revision!\<close>,
  \<open>opaque_cursor!\<close> and \<open>opaque_string!\<close>: a wrapper around a non-empty string or byte
  vector, kept exactly. The constructor of the instantiated type is the argument \<open>wrap\<close>.
\<close>

definition opaque_new :: "string \<Rightarrow> ('b list \<Rightarrow> 'c) \<Rightarrow> 'b list \<Rightarrow> 'c core_result" where
  "opaque_new field wrap bytes =
     (if bytes = [] then Inl (EmptyValue field) else Inr (wrap bytes))"

datatype CloudNamespaceId = CloudNamespaceId (namespace_id_str: string)
datatype CloudRootId = CloudRootId (root_id_str: string)
datatype CloudItemId = CloudItemId (item_id_str: string)

definition CloudNamespaceId_new :: "string \<Rightarrow> CloudNamespaceId core_result" where
  "CloudNamespaceId_new = opaque_new ''cloud namespace id'' CloudNamespaceId"

definition CloudRootId_new :: "string \<Rightarrow> CloudRootId core_result" where
  "CloudRootId_new = opaque_new ''cloud root id'' CloudRootId"

definition CloudItemId_new :: "string \<Rightarrow> CloudItemId core_result" where
  "CloudItemId_new = opaque_new ''cloud item id'' CloudItemId"

record CloudScope =
  scope_namespace_id :: CloudNamespaceId
  scope_root_id :: CloudRootId

record CloudItemKey =
  key_scope :: CloudScope
  key_item_id :: CloudItemId

datatype MetadataRevision = MetadataRevision (metadata_revision_bytes: "u8 list")
datatype ContentRevision = ContentRevision (content_revision_bytes: "u8 list")

definition MetadataRevision_new :: "u8 list \<Rightarrow> MetadataRevision core_result" where
  "MetadataRevision_new = opaque_new ''metadata revision'' MetadataRevision"

definition ContentRevision_new :: "u8 list \<Rightarrow> ContentRevision core_result" where
  "ContentRevision_new = opaque_new ''content revision'' ContentRevision"

datatype ContentDigestAlgorithm = ContentDigestAlgorithm (algorithm_str: string)

definition ContentDigestAlgorithm_new :: "string \<Rightarrow> ContentDigestAlgorithm core_result" where
  "ContentDigestAlgorithm_new = opaque_new ''content digest algorithm'' ContentDigestAlgorithm"

record ContentDigest =
  digest_algorithm :: ContentDigestAlgorithm
  digest_bytes :: "u8 list"

definition ContentDigest_new ::
  "ContentDigestAlgorithm \<Rightarrow> u8 list \<Rightarrow> ContentDigest core_result" where
  "ContentDigest_new algorithm bytes =
     (if bytes = [] then Inl (EmptyValue ''content digest value'')
      else Inr \<lparr>digest_algorithm = algorithm, digest_bytes = bytes\<rparr>)"

datatype PageCursor = PageCursor (page_cursor_bytes: "u8 list")
datatype ChangeCursor = ChangeCursor (change_cursor_bytes: "u8 list")
datatype DirectoryCookie = DirectoryCookie (directory_cookie_bytes: "u8 list")

definition PageCursor_new :: "u8 list \<Rightarrow> PageCursor core_result" where
  "PageCursor_new = opaque_new ''page cursor'' PageCursor"

definition ChangeCursor_new :: "u8 list \<Rightarrow> ChangeCursor core_result" where
  "ChangeCursor_new = opaque_new ''change cursor'' ChangeCursor"

definition DirectoryCookie_new :: "u8 list \<Rightarrow> DirectoryCookie core_result" where
  "DirectoryCookie_new = opaque_new ''directory cookie'' DirectoryCookie"

section \<open>Items\<close>

datatype CloudItemKind = File | Directory

record CloudContentMetadata =
  cm_revision :: ContentRevision
  cm_digest :: "ContentDigest option"
  cm_size :: u64

record CloudItem =
  item_key :: CloudItemKey
  item_parent_id :: "CloudItemId option"
  item_name :: string
  item_kind :: CloudItemKind
  item_metadata_revision :: MetadataRevision
  item_content :: "CloudContentMetadata option"

definition validate_item_location ::
  "CloudItemKey \<Rightarrow> CloudItemId option \<Rightarrow> string \<Rightarrow> unit core_result" where
  "validate_item_location key parent_id name =
     (if name = [] then Inl (EmptyValue ''cloud item name'')
      else if parent_id = Some (key_item_id key)
      then Inl (InvalidItemShape ''an item must not be its own parent'')
      else Inr ())"

definition CloudItem_directory ::
  "CloudItemKey \<Rightarrow> CloudItemId option \<Rightarrow> string \<Rightarrow> MetadataRevision \<Rightarrow> CloudItem core_result" where
  "CloudItem_directory key parent_id name revision =
     res_bind (validate_item_location key parent_id name) (\<lambda>_.
       Inr \<lparr>item_key = key, item_parent_id = parent_id, item_name = name, item_kind = Directory,
            item_metadata_revision = revision, item_content = None\<rparr>)"

definition CloudItem_file ::
  "CloudItemKey \<Rightarrow> CloudItemId \<Rightarrow> string \<Rightarrow> MetadataRevision \<Rightarrow> CloudContentMetadata
   \<Rightarrow> CloudItem core_result" where
  "CloudItem_file key parent_id name revision content =
     res_bind (validate_item_location key (Some parent_id) name) (\<lambda>_.
       Inr \<lparr>item_key = key, item_parent_id = Some parent_id, item_name = name, item_kind = File,
            item_metadata_revision = revision, item_content = Some content\<rparr>)"

definition is_root :: "CloudItem \<Rightarrow> bool" where
  "is_root item \<longleftrightarrow> item_parent_id item = None"

definition moved ::
  "CloudItem \<Rightarrow> CloudItemId \<Rightarrow> string \<Rightarrow> MetadataRevision \<Rightarrow> CloudItem core_result" where
  "moved item parent_id name revision =
     (if is_root item then Inl (InvalidItemShape ''the root item must not be moved'')
      else if name = [] then Inl (EmptyValue ''cloud item name'')
      else if parent_id = key_item_id (item_key item)
      then Inl (InvalidItemShape ''an item must not be its own parent'')
      else Inr (item\<lparr>item_parent_id := Some parent_id, item_name := name,
                     item_metadata_revision := revision\<rparr>))"

record CloudItemPage =
  page_items :: "CloudItem list"
  page_next_cursor :: "PageCursor option"

section \<open>Changes\<close>

datatype CloudChange =
    Upsert CloudItem
  | Delete CloudItemKey "CloudItemId option" "MetadataRevision option"

primrec change_key :: "CloudChange \<Rightarrow> CloudItemKey" where
  "change_key (Upsert item) = item_key item"
| "change_key (CloudChange.Delete key previous_parent_id metadata_revision) = key"

record ChangeBatch =
  cb_changes :: "CloudChange list"
  cb_next_cursor :: ChangeCursor
  cb_has_more :: bool

datatype ChangeResetReason = CursorExpired | BackendStateRebuilt | IdentityMappingInvalidated

datatype ChangePage = Batch ChangeBatch | ResetRequired ChangeResetReason

section \<open>Backend errors\<close>

datatype CloudBackendErrorKind =
    NotFound
  | AuthenticationRequired
  | PermissionDenied
  | Conflict
  | PreconditionFailed
  | InvalidRequest
  | RateLimited
  | TemporarilyUnavailable
  | Unsupported
  | InvalidResponse
  | Internal

text \<open>A \<open>Duration\<close> is its number of nanoseconds; the core only carries it.\<close>

datatype RetryAdvice = Never | Retry | RetryAfter nat

record CloudBackendError =
  be_kind :: CloudBackendErrorKind
  be_retry :: RetryAdvice

definition CloudBackendError_new :: "CloudBackendErrorKind \<Rightarrow> CloudBackendError" where
  "CloudBackendError_new kind = \<lparr>be_kind = kind, be_retry = Never\<rparr>"

definition retryable :: "CloudBackendErrorKind \<Rightarrow> CloudBackendError" where
  "retryable kind = \<lparr>be_kind = kind, be_retry = Retry\<rparr>"

definition retry_after :: "CloudBackendErrorKind \<Rightarrow> nat \<Rightarrow> CloudBackendError" where
  "retry_after kind delay = \<lparr>be_kind = kind, be_retry = RetryAfter delay\<rparr>"

definition is_retryable :: "CloudBackendError \<Rightarrow> bool" where
  "is_retryable e \<longleftrightarrow> be_retry e \<noteq> Never"

type_synonym 'a backend_result = "CloudBackendError + 'a"

section \<open>Local content\<close>

datatype LocalContentReference = LocalContentReference (local_reference_str: string)

definition LocalContentReference_new :: "string \<Rightarrow> LocalContentReference core_result" where
  "LocalContentReference_new = opaque_new ''local content reference'' LocalContentReference"

datatype LocalContentGeneration = LocalContentGeneration (local_generation_get: u64)

definition LocalContentGeneration_new :: "u64 \<Rightarrow> LocalContentGeneration core_result" where
  "LocalContentGeneration_new n =
     (if n = 0 then Inl InvalidLocalContentGeneration else Inr (LocalContentGeneration n))"

instantiation LocalContentGeneration :: linorder
begin

definition less_eq_LocalContentGeneration ::
  "LocalContentGeneration \<Rightarrow> LocalContentGeneration \<Rightarrow> bool" where
  "a \<le> b \<longleftrightarrow> local_generation_get a \<le> local_generation_get b"

definition less_LocalContentGeneration ::
  "LocalContentGeneration \<Rightarrow> LocalContentGeneration \<Rightarrow> bool" where
  "a < b \<longleftrightarrow> local_generation_get a < local_generation_get b"

instance
  by standard
    (auto simp: less_eq_LocalContentGeneration_def less_LocalContentGeneration_def
      intro: LocalContentGeneration.expand)

end

record LocalContentSnapshot =
  snap_item_key :: CloudItemKey
  snap_generation :: LocalContentGeneration
  snap_reference :: LocalContentReference
  snap_size :: u64
  snap_digest :: "ContentDigest option"

section \<open>Platform sessions\<close>

text \<open>The session fence and lifecycle of \<open>mutation.rs\<close>, used by every durable record.\<close>

datatype SessionGeneration = SessionGeneration (session_generation_get: u64)

definition SessionGeneration_new :: "u64 \<Rightarrow> SessionGeneration core_result" where
  "SessionGeneration_new n =
     (if n = 0 then Inl InvalidSessionGeneration else Inr (SessionGeneration n))"

instantiation SessionGeneration :: linorder
begin

definition less_eq_SessionGeneration :: "SessionGeneration \<Rightarrow> SessionGeneration \<Rightarrow> bool" where
  "a \<le> b \<longleftrightarrow> session_generation_get a \<le> session_generation_get b"

definition less_SessionGeneration :: "SessionGeneration \<Rightarrow> SessionGeneration \<Rightarrow> bool" where
  "a < b \<longleftrightarrow> session_generation_get a < session_generation_get b"

instance
  by standard
    (auto simp: less_eq_SessionGeneration_def less_SessionGeneration_def
      intro: SessionGeneration.expand)

end

datatype SessionState = Accepting | Closing | Draining | Closed

fun can_transition_to :: "SessionState \<Rightarrow> SessionState \<Rightarrow> bool" where
  "can_transition_to Accepting next_state = (next_state = Accepting \<or> next_state = Closing)"
| "can_transition_to Closing next_state = (next_state = Closing \<or> next_state = Draining)"
| "can_transition_to Draining next_state = (next_state = Draining \<or> next_state = Closed)"
| "can_transition_to Closed next_state = (next_state = Closed)"

section \<open>Lemmas\<close>

lemma opaque_new_eq_Inr [simp]:
  "opaque_new field wrap bytes = Inr v \<longleftrightarrow> bytes \<noteq> [] \<and> v = wrap bytes"
  by (auto simp: opaque_new_def)

lemma opaque_new_eq_Inl [simp]:
  "opaque_new field wrap bytes = Inl e \<longleftrightarrow> bytes = [] \<and> e = EmptyValue field"
  by (auto simp: opaque_new_def)

text \<open>
  The shape an item has whenever it was built by the public constructors: a non-empty name,
  never its own parent, files with a parent and content, directories without content.
\<close>

definition item_shape :: "CloudItem \<Rightarrow> bool" where
  "item_shape item \<longleftrightarrow>
     item_name item \<noteq> [] \<and>
     item_parent_id item \<noteq> Some (key_item_id (item_key item)) \<and>
     (case item_kind item of
        File \<Rightarrow> item_parent_id item \<noteq> None \<and> item_content item \<noteq> None
      | Directory \<Rightarrow> item_content item = None)"

lemma validate_item_location_eq_Inr [simp]:
  "validate_item_location key parent_id name = Inr u \<longleftrightarrow>
     name \<noteq> [] \<and> parent_id \<noteq> Some (key_item_id key)"
  by (auto simp: validate_item_location_def)

lemma directory_shape:
  "CloudItem_directory key parent_id name revision = Inr item \<Longrightarrow> item_shape item"
  by (auto simp: CloudItem_directory_def item_shape_def)

lemma file_shape:
  "CloudItem_file key parent_id name revision content = Inr item \<Longrightarrow> item_shape item"
  by (auto simp: CloudItem_file_def item_shape_def)

lemma moved_shape:
  assumes "moved item parent_id name revision = Inr item'" and "item_shape item"
  shows "item_shape item'"
  using assms
  by (auto simp: moved_def item_shape_def is_root_def split: if_splits CloudItemKind.splits)

lemma moved_keeps:
  assumes "moved item parent_id name revision = Inr item'"
  shows "item_key item' = item_key item" and "item_kind item' = item_kind item"
    and "item_content item' = item_content item"
    and "item_parent_id item' = Some parent_id" and "item_name item' = name"
  using assms by (auto simp: moved_def split: if_splits)

lemma moved_ok_iff:
  "is_ok (moved item parent_id name revision) \<longleftrightarrow>
     \<not> is_root item \<and> name \<noteq> [] \<and> parent_id \<noteq> key_item_id (item_key item)"
  by (auto simp: moved_def is_ok_iff)

text \<open>The session lifecycle only moves forward, one phase at a time.\<close>

primrec session_phase :: "SessionState \<Rightarrow> nat" where
  "session_phase Accepting = 0"
| "session_phase Closing = 1"
| "session_phase Draining = 2"
| "session_phase Closed = 3"

lemma can_transition_to_iff:
  "can_transition_to s s' \<longleftrightarrow> session_phase s' = session_phase s \<or> session_phase s' = Suc (session_phase s)"
  by (cases s; cases s') simp_all

end
