(* ===== verification/Capabilities.thy ===== *)
theory Capabilities
  imports Core_Values
begin

text \<open>
  Capability negotiation (\<open>core/src/capabilities.rs\<close>). Backend, platform and product host
  each describe what they support, and the effective capabilities are the successive
  intersections. The specification is an order on every description (\<open>a\<close> below \<open>b\<close>:
  whatever \<open>a\<close> offers, \<open>b\<close> offers too); the intersection is shown to be the greatest
  lower bound, through the locale \<open>partial_meet\<close>.
\<close>

section \<open>Definitions\<close>

datatype Alignment = Alignment (alignment_get: u64)

definition Alignment_ONE :: Alignment where
  "Alignment_ONE = Alignment 1"

definition Alignment_new :: "u64 \<Rightarrow> Alignment option" where
  "Alignment_new bytes = (if bytes = 0 then None else Some (Alignment bytes))"

function greatest_common_divisor :: "u64 \<Rightarrow> u64 \<Rightarrow> u64" where
  "greatest_common_divisor left right =
     (if right \<noteq> 0 then greatest_common_divisor right (left mod right) else left)"
  by pat_completeness auto
termination
  by (relation "measure (\<lambda>(left, right). unat right)")
    (auto simp: unat_mod unat_gt_0 mod_less_divisor)

definition Alignment_intersection :: "Alignment \<Rightarrow> Alignment \<Rightarrow> Alignment core_result" where
  "Alignment_intersection self other =
     (let divisor = greatest_common_divisor (alignment_get self) (alignment_get other);
          left = alignment_get self div divisor
      in case checked_mul left (alignment_get other) of
           None \<Rightarrow> Inl (AlignmentIntersectionOverflow (alignment_get self) (alignment_get other))
         | Some bytes \<Rightarrow> Inr (Alignment bytes))"

record IdentityCapabilities =
  stable_item_ids :: bool
  path_independent_item_ids :: bool
  same_root_move_preserves_identity :: bool
  cross_root_move_preserves_identity :: bool

definition IdentityCapabilities_intersection ::
  "IdentityCapabilities \<Rightarrow> IdentityCapabilities \<Rightarrow> IdentityCapabilities" where
  "IdentityCapabilities_intersection a b =
     \<lparr>stable_item_ids = stable_item_ids a \<and> stable_item_ids b,
      path_independent_item_ids = path_independent_item_ids a \<and> path_independent_item_ids b,
      same_root_move_preserves_identity =
        same_root_move_preserves_identity a \<and> same_root_move_preserves_identity b,
      cross_root_move_preserves_identity =
        cross_root_move_preserves_identity a \<and> cross_root_move_preserves_identity b\<rparr>"

definition IdentityCapabilities_validate_core_requirements ::
  "IdentityCapabilities \<Rightarrow> unit core_result" where
  "IdentityCapabilities_validate_core_requirements c =
     (if \<not> stable_item_ids c then Inl (MissingRequiredCapability ''stable_item_ids'')
      else if \<not> path_independent_item_ids c
      then Inl (MissingRequiredCapability ''path_independent_item_ids'')
      else if \<not> same_root_move_preserves_identity c
      then Inl (MissingRequiredCapability ''same_root_move_preserves_identity'')
      else Inr ())"

record RevisionCapabilities =
  separate_metadata_and_content :: bool
  conditional_metadata_mutation :: bool
  conditional_content_access :: bool

definition RevisionCapabilities_intersection ::
  "RevisionCapabilities \<Rightarrow> RevisionCapabilities \<Rightarrow> RevisionCapabilities" where
  "RevisionCapabilities_intersection a b =
     \<lparr>separate_metadata_and_content =
        separate_metadata_and_content a \<and> separate_metadata_and_content b,
      conditional_metadata_mutation =
        conditional_metadata_mutation a \<and> conditional_metadata_mutation b,
      conditional_content_access =
        conditional_content_access a \<and> conditional_content_access b\<rparr>"

record EnumerationCapabilities =
  paged :: bool
  stable_snapshot :: bool

definition EnumerationCapabilities_intersection ::
  "EnumerationCapabilities \<Rightarrow> EnumerationCapabilities \<Rightarrow> EnumerationCapabilities" where
  "EnumerationCapabilities_intersection a b =
     \<lparr>paged = paged a \<and> paged b, stable_snapshot = stable_snapshot a \<and> stable_snapshot b\<rparr>"

record AnchoredChangeCapabilities =
  cursor_reset :: bool
  tombstones :: bool

definition AnchoredChangeCapabilities_intersection ::
  "AnchoredChangeCapabilities \<Rightarrow> AnchoredChangeCapabilities \<Rightarrow> AnchoredChangeCapabilities" where
  "AnchoredChangeCapabilities_intersection a b =
     \<lparr>cursor_reset = cursor_reset a \<and> cursor_reset b,
      tombstones = tombstones a \<and> tombstones b\<rparr>"

record ChangeCapabilities =
  anchored :: "AnchoredChangeCapabilities option"
  snapshot_diff :: bool
  external_invalidation :: bool

definition ChangeCapabilities_intersection ::
  "ChangeCapabilities \<Rightarrow> ChangeCapabilities \<Rightarrow> ChangeCapabilities" where
  "ChangeCapabilities_intersection a b =
     \<lparr>anchored =
        (case (anchored a, anchored b) of
           (Some left, Some right) \<Rightarrow> Some (AnchoredChangeCapabilities_intersection left right)
         | _ \<Rightarrow> None),
      snapshot_diff = snapshot_diff a \<and> snapshot_diff b,
      external_invalidation = external_invalidation a \<and> external_invalidation b\<rparr>"

record RangeHydrationCapabilities =
  range_alignment :: Alignment
  partial_cancel :: bool

definition RangeHydrationCapabilities_intersection ::
  "RangeHydrationCapabilities \<Rightarrow> RangeHydrationCapabilities
   \<Rightarrow> RangeHydrationCapabilities core_result" where
  "RangeHydrationCapabilities_intersection a b =
     res_bind (Alignment_intersection (range_alignment a) (range_alignment b)) (\<lambda>al.
       Inr \<lparr>range_alignment = al, partial_cancel = partial_cancel a \<and> partial_cancel b\<rparr>)"

record HydrationCapabilities =
  whole_file :: bool
  range_hydration :: "RangeHydrationCapabilities option"
  progressive_range :: "RangeHydrationCapabilities option"
  incremental_from_existing :: bool

text \<open>The \<open>match\<close> that \<open>HydrationCapabilities::intersection\<close> writes twice.\<close>

definition optional_range_intersection ::
  "RangeHydrationCapabilities option \<Rightarrow> RangeHydrationCapabilities option
   \<Rightarrow> RangeHydrationCapabilities option core_result" where
  "optional_range_intersection l r =
     (case (l, r) of
        (Some left, Some right) \<Rightarrow>
          res_bind (RangeHydrationCapabilities_intersection left right) (\<lambda>c. Inr (Some c))
      | _ \<Rightarrow> Inr None)"

definition HydrationCapabilities_intersection ::
  "HydrationCapabilities \<Rightarrow> HydrationCapabilities \<Rightarrow> HydrationCapabilities core_result" where
  "HydrationCapabilities_intersection a b =
     res_bind (optional_range_intersection (range_hydration a) (range_hydration b)) (\<lambda>rng.
     res_bind (optional_range_intersection (progressive_range a) (progressive_range b)) (\<lambda>prog.
       Inr \<lparr>whole_file = whole_file a \<and> whole_file b,
            range_hydration = rng,
            progressive_range = prog,
            incremental_from_existing =
              incremental_from_existing a \<and> incremental_from_existing b\<rparr>))"

record MutationCapabilities =
  can_create :: bool
  can_modify_metadata :: bool
  can_modify_content :: bool
  can_delete :: bool
  atomic_move :: bool
  cross_root_move :: bool
  resumable_upload :: bool

definition MutationCapabilities_intersection ::
  "MutationCapabilities \<Rightarrow> MutationCapabilities \<Rightarrow> MutationCapabilities" where
  "MutationCapabilities_intersection a b =
     \<lparr>can_create = can_create a \<and> can_create b,
      can_modify_metadata = can_modify_metadata a \<and> can_modify_metadata b,
      can_modify_content = can_modify_content a \<and> can_modify_content b,
      can_delete = can_delete a \<and> can_delete b,
      atomic_move = atomic_move a \<and> atomic_move b,
      cross_root_move = cross_root_move a \<and> cross_root_move b,
      resumable_upload = resumable_upload a \<and> resumable_upload b\<rparr>"

record ContentStorageModes =
  platform_managed :: bool
  provider_managed :: bool
  hybrid :: bool

definition ContentStorageModes_intersection ::
  "ContentStorageModes \<Rightarrow> ContentStorageModes \<Rightarrow> ContentStorageModes" where
  "ContentStorageModes_intersection a b =
     \<lparr>platform_managed = platform_managed a \<and> platform_managed b,
      provider_managed = provider_managed a \<and> provider_managed b,
      hybrid = hybrid a \<and> hybrid b\<rparr>"

definition ContentStorageModes_is_supported :: "ContentStorageModes \<Rightarrow> bool" where
  "ContentStorageModes_is_supported m \<longleftrightarrow> platform_managed m \<or> provider_managed m \<or> hybrid m"

record MaterializationCapabilities =
  storage_modes :: ContentStorageModes

definition MaterializationCapabilities_intersection ::
  "MaterializationCapabilities \<Rightarrow> MaterializationCapabilities \<Rightarrow> MaterializationCapabilities" where
  "MaterializationCapabilities_intersection a b =
     \<lparr>storage_modes = ContentStorageModes_intersection (storage_modes a) (storage_modes b)\<rparr>"

record EvictionCapabilities =
  supported :: bool
  pinning :: bool
  dirty_guard :: bool
  open_lease_guard :: bool

definition EvictionCapabilities_intersection ::
  "EvictionCapabilities \<Rightarrow> EvictionCapabilities \<Rightarrow> EvictionCapabilities" where
  "EvictionCapabilities_intersection a b =
     (let sup = supported a \<and> supported b in
      \<lparr>supported = sup,
       pinning = sup \<and> pinning a \<and> pinning b,
       dirty_guard = sup \<and> dirty_guard a \<and> dirty_guard b,
       open_lease_guard = sup \<and> open_lease_guard a \<and> open_lease_guard b\<rparr>)"

text \<open>The variant \<open>None\<close> of the source enum is called \<open>NoCancellation\<close>.\<close>

datatype CancellationLevel = NoCancellation | BestEffortRequest | ExactRequest | RangeSubset

primrec cancellation_rank :: "CancellationLevel \<Rightarrow> nat" where
  "cancellation_rank NoCancellation = 0"
| "cancellation_rank BestEffortRequest = 1"
| "cancellation_rank ExactRequest = 2"
| "cancellation_rank RangeSubset = 3"

lemma cancellation_rank_inject [simp]: "cancellation_rank a = cancellation_rank b \<longleftrightarrow> a = b"
  by (cases a; cases b) simp_all

text \<open>The derived \<open>Ord\<close> of the enum: declaration order.\<close>

instantiation CancellationLevel :: linorder
begin

definition less_eq_CancellationLevel :: "CancellationLevel \<Rightarrow> CancellationLevel \<Rightarrow> bool" where
  "a \<le> b \<longleftrightarrow> cancellation_rank a \<le> cancellation_rank b"

definition less_CancellationLevel :: "CancellationLevel \<Rightarrow> CancellationLevel \<Rightarrow> bool" where
  "a < b \<longleftrightarrow> cancellation_rank a < cancellation_rank b"

instance
proof
  fix a b :: CancellationLevel
  show "a \<le> b \<Longrightarrow> b \<le> a \<Longrightarrow> a = b"
    by (metis antisym cancellation_rank_inject less_eq_CancellationLevel_def)
qed (auto simp: less_eq_CancellationLevel_def less_CancellationLevel_def)

end

definition CancellationLevel_intersection ::
  "CancellationLevel \<Rightarrow> CancellationLevel \<Rightarrow> CancellationLevel" where
  "CancellationLevel_intersection a b = min a b"

record NamingCapabilities =
  case_sensitive :: bool
  case_preserving :: bool
  normalization_preserving :: bool

definition NamingCapabilities_intersection ::
  "NamingCapabilities \<Rightarrow> NamingCapabilities \<Rightarrow> NamingCapabilities" where
  "NamingCapabilities_intersection a b =
     \<lparr>case_sensitive = case_sensitive a \<and> case_sensitive b,
      case_preserving = case_preserving a \<and> case_preserving b,
      normalization_preserving = normalization_preserving a \<and> normalization_preserving b\<rparr>"

record CloudFilesLimits =
  native_identity_max_bytes :: "usize option"
  max_transfer_chunk :: "usize option"
  max_in_flight_requests :: "usize option"
  directory_page_size_hint :: "usize option"
  name_max_encoded_bytes :: "usize option"

fun minimum_optional_limit :: "usize option \<Rightarrow> usize option \<Rightarrow> usize option" where
  "minimum_optional_limit (Some left) (Some right) = Some (min left right)"
| "minimum_optional_limit (Some limit) None = Some limit"
| "minimum_optional_limit None (Some limit) = Some limit"
| "minimum_optional_limit None None = None"

definition CloudFilesLimits_intersection ::
  "CloudFilesLimits \<Rightarrow> CloudFilesLimits \<Rightarrow> CloudFilesLimits" where
  "CloudFilesLimits_intersection a b =
     \<lparr>native_identity_max_bytes =
        minimum_optional_limit (native_identity_max_bytes a) (native_identity_max_bytes b),
      max_transfer_chunk = minimum_optional_limit (max_transfer_chunk a) (max_transfer_chunk b),
      max_in_flight_requests =
        minimum_optional_limit (max_in_flight_requests a) (max_in_flight_requests b),
      directory_page_size_hint =
        minimum_optional_limit (directory_page_size_hint a) (directory_page_size_hint b),
      name_max_encoded_bytes =
        minimum_optional_limit (name_max_encoded_bytes a) (name_max_encoded_bytes b)\<rparr>"

definition validate_native_identity :: "CloudFilesLimits \<Rightarrow> u8 list \<Rightarrow> unit core_result" where
  "validate_native_identity limits encoded =
     (case native_identity_max_bytes limits of
        None \<Rightarrow> Inr ()
      | Some max_bytes \<Rightarrow>
          if length encoded > max_bytes
          then Inl (NativeIdentityTooLarge (length encoded) max_bytes)
          else Inr ())"

record CloudFilesCapabilities =
  cap_identity :: IdentityCapabilities
  cap_revisions :: RevisionCapabilities
  cap_enumeration :: EnumerationCapabilities
  cap_changes :: ChangeCapabilities
  cap_hydration :: HydrationCapabilities
  cap_mutations :: MutationCapabilities
  cap_materialization :: MaterializationCapabilities
  cap_eviction :: EvictionCapabilities
  cap_cancellation :: CancellationLevel
  cap_naming :: NamingCapabilities
  cap_limits :: CloudFilesLimits

definition unconstrained :: CloudFilesCapabilities where
  "unconstrained =
     (let unconstrained_range = \<lparr>range_alignment = Alignment_ONE, partial_cancel = True\<rparr> in
      \<lparr>cap_identity =
         \<lparr>stable_item_ids = True, path_independent_item_ids = True,
          same_root_move_preserves_identity = True, cross_root_move_preserves_identity = True\<rparr>,
       cap_revisions =
         \<lparr>separate_metadata_and_content = True, conditional_metadata_mutation = True,
          conditional_content_access = True\<rparr>,
       cap_enumeration = \<lparr>paged = True, stable_snapshot = True\<rparr>,
       cap_changes =
         \<lparr>anchored = Some \<lparr>cursor_reset = True, tombstones = True\<rparr>,
          snapshot_diff = True, external_invalidation = True\<rparr>,
       cap_hydration =
         \<lparr>whole_file = True, range_hydration = Some unconstrained_range,
          progressive_range = Some unconstrained_range, incremental_from_existing = True\<rparr>,
       cap_mutations =
         \<lparr>can_create = True, can_modify_metadata = True, can_modify_content = True,
          can_delete = True, atomic_move = True, cross_root_move = True, resumable_upload = True\<rparr>,
       cap_materialization =
         \<lparr>storage_modes = \<lparr>platform_managed = True, provider_managed = True, hybrid = True\<rparr>\<rparr>,
       cap_eviction =
         \<lparr>supported = True, pinning = True, dirty_guard = True, open_lease_guard = True\<rparr>,
       cap_cancellation = RangeSubset,
       cap_naming =
         \<lparr>case_sensitive = True, case_preserving = True, normalization_preserving = True\<rparr>,
       cap_limits =
         \<lparr>native_identity_max_bytes = None, max_transfer_chunk = None,
          max_in_flight_requests = None, directory_page_size_hint = None,
          name_max_encoded_bytes = None\<rparr>\<rparr>)"

definition CloudFilesCapabilities_intersection ::
  "CloudFilesCapabilities \<Rightarrow> CloudFilesCapabilities \<Rightarrow> CloudFilesCapabilities core_result" where
  "CloudFilesCapabilities_intersection a b =
     res_bind (HydrationCapabilities_intersection (cap_hydration a) (cap_hydration b)) (\<lambda>hydration.
       Inr \<lparr>cap_identity = IdentityCapabilities_intersection (cap_identity a) (cap_identity b),
            cap_revisions = RevisionCapabilities_intersection (cap_revisions a) (cap_revisions b),
            cap_enumeration =
              EnumerationCapabilities_intersection (cap_enumeration a) (cap_enumeration b),
            cap_changes = ChangeCapabilities_intersection (cap_changes a) (cap_changes b),
            cap_hydration = hydration,
            cap_mutations = MutationCapabilities_intersection (cap_mutations a) (cap_mutations b),
            cap_materialization =
              MaterializationCapabilities_intersection (cap_materialization a) (cap_materialization b),
            cap_eviction = EvictionCapabilities_intersection (cap_eviction a) (cap_eviction b),
            cap_cancellation =
              CancellationLevel_intersection (cap_cancellation a) (cap_cancellation b),
            cap_naming = NamingCapabilities_intersection (cap_naming a) (cap_naming b),
            cap_limits = CloudFilesLimits_intersection (cap_limits a) (cap_limits b)\<rparr>)"

definition CloudFilesCapabilities_validate_core_requirements ::
  "CloudFilesCapabilities \<Rightarrow> unit core_result" where
  "CloudFilesCapabilities_validate_core_requirements c =
     IdentityCapabilities_validate_core_requirements (cap_identity c)"

section \<open>Alignment intersection is the least common multiple\<close>

declare greatest_common_divisor.simps [simp del]

lemma unat_greatest_common_divisor [unat_ops]:
  "unat (greatest_common_divisor a b) = gcd (unat a) (unat b)"
proof (induction a b rule: greatest_common_divisor.induct)
  case (1 left right)
  show ?case
  proof (cases "right = 0")
    case True
    then show ?thesis by (simp add: greatest_common_divisor.simps [of left 0])
  next
    case False
    then have "unat (greatest_common_divisor left right) =
        gcd (unat right) (unat left mod unat right)"
      using 1 by (simp add: greatest_common_divisor.simps [of left right] unat_mod)
    then show ?thesis by (metis gcd.commute gcd_red_nat)
  qed
qed

lemma alignment_product:
  assumes "a \<noteq> 0"
  shows "unat (a div greatest_common_divisor a b) * unat b = lcm (unat a) (unat b)"
proof -
  have "unat (a div greatest_common_divisor a b) = unat a div gcd (unat a) (unat b)"
    by (simp add: unat_div unat_ops)
  then show ?thesis by (simp add: lcm_nat_def div_mult_swap mult.commute)
qed

lemma Alignment_intersection_eq_Inr:
  assumes "alignment_get a \<noteq> 0"
  shows "Alignment_intersection a b = Inr c \<longleftrightarrow>
    unat (alignment_get c) = lcm (unat (alignment_get a)) (unat (alignment_get b))"
proof -
  let ?l = "lcm (unat (alignment_get a)) (unat (alignment_get b))"
  let ?d = "alignment_get a div greatest_common_divisor (alignment_get a) (alignment_get b)"
  have prod: "unat ?d * unat (alignment_get b) = ?l" using assms by (rule alignment_product)
  show ?thesis
  proof (cases "?l < 2 ^ 64")
    case True
    then have "unat (?d * alignment_get b) = ?l" using prod by (simp add: unat_ops)
    then have "Alignment (?d * alignment_get b) = c \<longleftrightarrow> unat (alignment_get c) = ?l"
      by (metis Alignment.collapse Alignment.sel unat_eqI)
    with True prod show ?thesis
      by (simp add: Alignment_intersection_def Let_def checked_mul_def)
  next
    case False
    then have "unat (alignment_get c) \<noteq> ?l"
      using unat_u64_less [of "alignment_get c"] by metis
    with False prod show ?thesis
      by (simp add: Alignment_intersection_def Let_def checked_mul_def)
  qed
qed

lemma Alignment_intersection_ok_iff:
  assumes "alignment_get a \<noteq> 0"
  shows "is_ok (Alignment_intersection a b) \<longleftrightarrow>
    lcm (unat (alignment_get a)) (unat (alignment_get b)) < 2 ^ 64"
  using alignment_product [OF assms, of "alignment_get b"]
  by (auto simp: Alignment_intersection_def Let_def checked_mul_def)

section \<open>Capability descriptions as a partial meet\<close>

text \<open>
  What a negotiation step promises to its callers, for one kind of description: it returns a
  description below both sides and above every (valid) description below both.
\<close>

locale capability_order =
  fixes le :: "'a \<Rightarrow> 'a \<Rightarrow> bool"
  assumes le_refl: "le a a"
    and le_trans: "le a b \<Longrightarrow> le b c \<Longrightarrow> le a c"
    and le_antisym: "le a b \<Longrightarrow> le b a \<Longrightarrow> a = b"

locale partial_meet = capability_order le for le :: "'a \<Rightarrow> 'a \<Rightarrow> bool" +
  fixes meet :: "'a \<Rightarrow> 'a \<Rightarrow> 'e + 'a" and valid :: "'a \<Rightarrow> bool"
  assumes meet_lower1: "valid a \<Longrightarrow> valid b \<Longrightarrow> meet a b = Inr c \<Longrightarrow> le c a"
    and meet_lower2: "valid a \<Longrightarrow> valid b \<Longrightarrow> meet a b = Inr c \<Longrightarrow> le c b"
    and meet_greatest:
      "valid a \<Longrightarrow> valid b \<Longrightarrow> valid d \<Longrightarrow> meet a b = Inr c \<Longrightarrow> le d a \<Longrightarrow> le d b \<Longrightarrow> le d c"
    and meet_valid: "valid a \<Longrightarrow> valid b \<Longrightarrow> meet a b = Inr c \<Longrightarrow> valid c"
    and meet_ok_sym: "valid a \<Longrightarrow> valid b \<Longrightarrow> is_ok (meet a b) = is_ok (meet b a)"
begin

lemma meet_unique:
  assumes "valid a" "valid b" "meet a b = Inr c"
    and "valid d" "le d a" "le d b" "\<And>x. valid x \<Longrightarrow> le x a \<Longrightarrow> le x b \<Longrightarrow> le x d"
  shows "c = d"
  using assms meet_lower1 meet_lower2 meet_greatest meet_valid le_antisym by metis

lemma meet_commute:
  assumes "valid a" "valid b" "meet a b = Inr c"
  shows "meet b a = Inr c"
proof -
  from assms meet_ok_sym obtain d where d: "meet b a = Inr d" by (metis is_ok_iff)
  have "c = d"
  proof (rule meet_unique [OF assms])
    show "valid d" "le d a" "le d b" using assms d meet_valid meet_lower1 meet_lower2 by blast+
    show "\<And>x. valid x \<Longrightarrow> le x a \<Longrightarrow> le x b \<Longrightarrow> le x d" using assms d meet_greatest by blast
  qed
  with d show ?thesis by simp
qed

lemma meet_idem: "valid a \<Longrightarrow> meet a a = Inr c \<Longrightarrow> c = a"
  using meet_unique le_refl by metis

lemma meet_above: "valid a \<Longrightarrow> valid t \<Longrightarrow> le a t \<Longrightarrow> meet a t = Inr c \<Longrightarrow> c = a"
  using meet_unique le_refl by metis

lemma meet_assoc:
  assumes v: "valid a" "valid b" "valid c"
    and l: "meet a b = Inr ab" "meet ab c = Inr x"
    and r: "meet b c = Inr bc" "meet a bc = Inr y"
  shows "x = y"
proof -
  have vv: "valid ab" "valid bc" using v l r meet_valid by blast+
  then have vxy: "valid x" "valid y" using v l r meet_valid by blast+
  have "le x y"
    using v vv vxy l r meet_lower1 meet_lower2 meet_greatest le_trans by metis
  moreover have "le y x"
    using v vv vxy l r meet_lower1 meet_lower2 meet_greatest le_trans by metis
  ultimately show ?thesis by (rule le_antisym)
qed

end

subsection \<open>The orders\<close>

definition alignment_le :: "Alignment \<Rightarrow> Alignment \<Rightarrow> bool" where
  "alignment_le a b \<longleftrightarrow> unat (alignment_get b) dvd unat (alignment_get a)"

definition identity_le :: "IdentityCapabilities \<Rightarrow> IdentityCapabilities \<Rightarrow> bool" where
  "identity_le a b \<longleftrightarrow>
     (stable_item_ids a \<longrightarrow> stable_item_ids b) \<and>
     (path_independent_item_ids a \<longrightarrow> path_independent_item_ids b) \<and>
     (same_root_move_preserves_identity a \<longrightarrow> same_root_move_preserves_identity b) \<and>
     (cross_root_move_preserves_identity a \<longrightarrow> cross_root_move_preserves_identity b)"

definition revisions_le :: "RevisionCapabilities \<Rightarrow> RevisionCapabilities \<Rightarrow> bool" where
  "revisions_le a b \<longleftrightarrow>
     (separate_metadata_and_content a \<longrightarrow> separate_metadata_and_content b) \<and>
     (conditional_metadata_mutation a \<longrightarrow> conditional_metadata_mutation b) \<and>
     (conditional_content_access a \<longrightarrow> conditional_content_access b)"

definition enumeration_le :: "EnumerationCapabilities \<Rightarrow> EnumerationCapabilities \<Rightarrow> bool" where
  "enumeration_le a b \<longleftrightarrow>
     (paged a \<longrightarrow> paged b) \<and> (stable_snapshot a \<longrightarrow> stable_snapshot b)"

definition optional_le :: "('a \<Rightarrow> 'a \<Rightarrow> bool) \<Rightarrow> 'a option \<Rightarrow> 'a option \<Rightarrow> bool" where
  "optional_le le x y \<longleftrightarrow>
     (case x of None \<Rightarrow> True | Some a \<Rightarrow> (case y of None \<Rightarrow> False | Some b \<Rightarrow> le a b))"

definition anchored_le ::
  "AnchoredChangeCapabilities \<Rightarrow> AnchoredChangeCapabilities \<Rightarrow> bool" where
  "anchored_le a b \<longleftrightarrow> (cursor_reset a \<longrightarrow> cursor_reset b) \<and> (tombstones a \<longrightarrow> tombstones b)"

definition changes_le :: "ChangeCapabilities \<Rightarrow> ChangeCapabilities \<Rightarrow> bool" where
  "changes_le a b \<longleftrightarrow>
     optional_le anchored_le (anchored a) (anchored b) \<and>
     (snapshot_diff a \<longrightarrow> snapshot_diff b) \<and>
     (external_invalidation a \<longrightarrow> external_invalidation b)"

definition range_hydration_le ::
  "RangeHydrationCapabilities \<Rightarrow> RangeHydrationCapabilities \<Rightarrow> bool" where
  "range_hydration_le a b \<longleftrightarrow>
     alignment_le (range_alignment a) (range_alignment b) \<and>
     (partial_cancel a \<longrightarrow> partial_cancel b)"

definition hydration_le :: "HydrationCapabilities \<Rightarrow> HydrationCapabilities \<Rightarrow> bool" where
  "hydration_le a b \<longleftrightarrow>
     (whole_file a \<longrightarrow> whole_file b) \<and>
     optional_le range_hydration_le (range_hydration a) (range_hydration b) \<and>
     optional_le range_hydration_le (progressive_range a) (progressive_range b) \<and>
     (incremental_from_existing a \<longrightarrow> incremental_from_existing b)"

definition mutations_le :: "MutationCapabilities \<Rightarrow> MutationCapabilities \<Rightarrow> bool" where
  "mutations_le a b \<longleftrightarrow>
     (can_create a \<longrightarrow> can_create b) \<and> (can_modify_metadata a \<longrightarrow> can_modify_metadata b) \<and>
     (can_modify_content a \<longrightarrow> can_modify_content b) \<and> (can_delete a \<longrightarrow> can_delete b) \<and>
     (atomic_move a \<longrightarrow> atomic_move b) \<and> (cross_root_move a \<longrightarrow> cross_root_move b) \<and>
     (resumable_upload a \<longrightarrow> resumable_upload b)"

definition materialization_le ::
  "MaterializationCapabilities \<Rightarrow> MaterializationCapabilities \<Rightarrow> bool" where
  "materialization_le a b \<longleftrightarrow>
     (platform_managed (storage_modes a) \<longrightarrow> platform_managed (storage_modes b)) \<and>
     (provider_managed (storage_modes a) \<longrightarrow> provider_managed (storage_modes b)) \<and>
     (hybrid (storage_modes a) \<longrightarrow> hybrid (storage_modes b))"

definition eviction_le :: "EvictionCapabilities \<Rightarrow> EvictionCapabilities \<Rightarrow> bool" where
  "eviction_le a b \<longleftrightarrow>
     (supported a \<longrightarrow> supported b) \<and> (pinning a \<longrightarrow> pinning b) \<and>
     (dirty_guard a \<longrightarrow> dirty_guard b) \<and> (open_lease_guard a \<longrightarrow> open_lease_guard b)"

definition naming_le :: "NamingCapabilities \<Rightarrow> NamingCapabilities \<Rightarrow> bool" where
  "naming_le a b \<longleftrightarrow>
     (case_sensitive a \<longrightarrow> case_sensitive b) \<and> (case_preserving a \<longrightarrow> case_preserving b) \<and>
     (normalization_preserving a \<longrightarrow> normalization_preserving b)"

fun limit_le :: "usize option \<Rightarrow> usize option \<Rightarrow> bool" where
  "limit_le x None = True"
| "limit_le None (Some n) = False"
| "limit_le (Some m) (Some n) = (m \<le> n)"

definition limits_le :: "CloudFilesLimits \<Rightarrow> CloudFilesLimits \<Rightarrow> bool" where
  "limits_le a b \<longleftrightarrow>
     limit_le (native_identity_max_bytes a) (native_identity_max_bytes b) \<and>
     limit_le (max_transfer_chunk a) (max_transfer_chunk b) \<and>
     limit_le (max_in_flight_requests a) (max_in_flight_requests b) \<and>
     limit_le (directory_page_size_hint a) (directory_page_size_hint b) \<and>
     limit_le (name_max_encoded_bytes a) (name_max_encoded_bytes b)"

definition capabilities_le :: "CloudFilesCapabilities \<Rightarrow> CloudFilesCapabilities \<Rightarrow> bool" where
  "capabilities_le a b \<longleftrightarrow>
     identity_le (cap_identity a) (cap_identity b) \<and>
     revisions_le (cap_revisions a) (cap_revisions b) \<and>
     enumeration_le (cap_enumeration a) (cap_enumeration b) \<and>
     changes_le (cap_changes a) (cap_changes b) \<and>
     hydration_le (cap_hydration a) (cap_hydration b) \<and>
     mutations_le (cap_mutations a) (cap_mutations b) \<and>
     materialization_le (cap_materialization a) (cap_materialization b) \<and>
     eviction_le (cap_eviction a) (cap_eviction b) \<and>
     cap_cancellation a \<le> cap_cancellation b \<and>
     naming_le (cap_naming a) (cap_naming b) \<and>
     limits_le (cap_limits a) (cap_limits b)"

text \<open>
  Valid descriptions: alignments are non-zero, as \<open>Alignment::new\<close> guarantees, and eviction
  guards are only claimed together with eviction itself.
\<close>

definition range_hydration_valid :: "RangeHydrationCapabilities \<Rightarrow> bool" where
  "range_hydration_valid c \<longleftrightarrow> alignment_get (range_alignment c) \<noteq> 0"

definition hydration_valid :: "HydrationCapabilities \<Rightarrow> bool" where
  "hydration_valid c \<longleftrightarrow>
     pred_option range_hydration_valid (range_hydration c) \<and>
     pred_option range_hydration_valid (progressive_range c)"

definition eviction_valid :: "EvictionCapabilities \<Rightarrow> bool" where
  "eviction_valid c \<longleftrightarrow> (pinning c \<or> dirty_guard c \<or> open_lease_guard c \<longrightarrow> supported c)"

definition capabilities_valid :: "CloudFilesCapabilities \<Rightarrow> bool" where
  "capabilities_valid c \<longleftrightarrow> hydration_valid (cap_hydration c) \<and> eviction_valid (cap_eviction c)"

subsection \<open>Interpretations\<close>

lemma optional_le_simps [simp]:
  "optional_le le None y" "\<not> optional_le le (Some a) None"
  "optional_le le (Some a) (Some b) \<longleftrightarrow> le a b"
  by (simp_all add: optional_le_def)

interpretation alignment: partial_meet alignment_le Alignment_intersection
  "\<lambda>a. alignment_get a \<noteq> 0"
proof unfold_locales
  fix a b :: Alignment
  show "alignment_le a b \<Longrightarrow> alignment_le b a \<Longrightarrow> a = b"
    by (metis Alignment.expand alignment_le_def dvd_antisym unat_eqI)
next
  fix a b :: Alignment
  assume a: "alignment_get a \<noteq> 0" and b: "alignment_get b \<noteq> 0"
  show "is_ok (Alignment_intersection a b) = is_ok (Alignment_intersection b a)"
    using a b by (simp add: Alignment_intersection_ok_iff lcm.commute)
  fix c
  assume c: "Alignment_intersection a b = Inr c"
  then have lcm: "unat (alignment_get c) = lcm (unat (alignment_get a)) (unat (alignment_get b))"
    using a by (simp add: Alignment_intersection_eq_Inr)
  then show "alignment_le c a" and "alignment_le c b"
    by (simp_all add: alignment_le_def)
  show "alignment_get c \<noteq> 0"
    using lcm a b by (metis lcm_eq_0_iff unat_eq_0)
  fix d
  assume "alignment_le d a" and "alignment_le d b"
  then show "alignment_le d c" using lcm by (simp add: alignment_le_def)
qed (auto simp: alignment_le_def)

interpretation identity_caps: partial_meet identity_le
  "\<lambda>a b. Inr (IdentityCapabilities_intersection a b)" "\<lambda>_. True"
  by unfold_locales (auto simp: identity_le_def IdentityCapabilities_intersection_def)

interpretation revisions_caps: partial_meet revisions_le
  "\<lambda>a b. Inr (RevisionCapabilities_intersection a b)" "\<lambda>_. True"
  by unfold_locales (auto simp: revisions_le_def RevisionCapabilities_intersection_def)

interpretation enumeration_caps: partial_meet enumeration_le
  "\<lambda>a b. Inr (EnumerationCapabilities_intersection a b)" "\<lambda>_. True"
  by unfold_locales (auto simp: enumeration_le_def EnumerationCapabilities_intersection_def)

interpretation anchored_caps: partial_meet anchored_le
  "\<lambda>a b. Inr (AnchoredChangeCapabilities_intersection a b)" "\<lambda>_. True"
  by unfold_locales (auto simp: anchored_le_def AnchoredChangeCapabilities_intersection_def)

interpretation mutations_caps: partial_meet mutations_le
  "\<lambda>a b. Inr (MutationCapabilities_intersection a b)" "\<lambda>_. True"
  by unfold_locales (auto simp: mutations_le_def MutationCapabilities_intersection_def)

interpretation materialization_caps: partial_meet materialization_le
  "\<lambda>a b. Inr (MaterializationCapabilities_intersection a b)" "\<lambda>_. True"
proof unfold_locales
  fix a b :: MaterializationCapabilities
  show "materialization_le a b \<Longrightarrow> materialization_le b a \<Longrightarrow> a = b"
    by (cases a, cases b, cases "storage_modes a", cases "storage_modes b")
      (auto simp: materialization_le_def)
qed (auto simp: materialization_le_def MaterializationCapabilities_intersection_def
    ContentStorageModes_intersection_def)

interpretation eviction_caps: partial_meet eviction_le
  "\<lambda>a b. Inr (EvictionCapabilities_intersection a b)" eviction_valid
proof unfold_locales
  fix a b :: EvictionCapabilities
  show "eviction_le a b \<Longrightarrow> eviction_le b a \<Longrightarrow> a = b"
    by (cases a, cases b) (auto simp: eviction_le_def)
next
  fix a b c d :: EvictionCapabilities
  assume "Inr (EvictionCapabilities_intersection a b) = Inr c"
  then have c: "c = EvictionCapabilities_intersection a b" by simp
  note defs = eviction_le_def eviction_valid_def EvictionCapabilities_intersection_def Let_def
  show "eviction_le c a" "eviction_le c b" "eviction_valid c"
    unfolding c by (simp_all add: defs)
  assume "eviction_valid d" "eviction_le d a" "eviction_le d b"
  then show "eviction_le d c" unfolding c by (simp add: defs)
qed (simp_all add: eviction_le_def)

interpretation naming_caps: partial_meet naming_le
  "\<lambda>a b. Inr (NamingCapabilities_intersection a b)" "\<lambda>_. True"
  by unfold_locales (auto simp: naming_le_def NamingCapabilities_intersection_def)

interpretation limits_caps: partial_meet limits_le
  "\<lambda>a b. Inr (CloudFilesLimits_intersection a b)" "\<lambda>_. True"
proof -
  have refl: "limit_le x x" for x by (cases x) auto
  have trans: "limit_le x z" if "limit_le x y" "limit_le y z" for x y z
    using that by (cases x; cases y; cases z) auto
  have antisym: "x = y" if "limit_le x y" "limit_le y x" for x y
    using that by (cases x; cases y) auto
  have low1: "limit_le (minimum_optional_limit x y) x" for x y by (cases x; cases y) auto
  have low2: "limit_le (minimum_optional_limit x y) y" for x y by (cases x; cases y) auto
  have great: "limit_le z (minimum_optional_limit x y)" if "limit_le z x" "limit_le z y" for x y z
    using that by (cases x; cases y; cases z) auto
  note facts = refl low1 low2 great
  show "partial_meet limits_le (\<lambda>a b. Inr (CloudFilesLimits_intersection a b)) (\<lambda>_. True)"
  proof unfold_locales
    fix a b c :: CloudFilesLimits
    show "limits_le a b \<Longrightarrow> limits_le b a \<Longrightarrow> a = b"
      by (cases a, cases b) (simp add: limits_le_def antisym)
    show "limits_le a b \<Longrightarrow> limits_le b c \<Longrightarrow> limits_le a c"
      unfolding limits_le_def using trans by blast
  qed (simp_all add: limits_le_def CloudFilesLimits_intersection_def facts)
qed

interpretation changes_caps: partial_meet changes_le
  "\<lambda>a b. Inr (ChangeCapabilities_intersection a b)" "\<lambda>_. True"
proof unfold_locales
  fix a b c :: ChangeCapabilities
  show "changes_le a a"
    by (cases "anchored a") (auto simp: changes_le_def anchored_caps.le_refl)
  show "changes_le a b \<Longrightarrow> changes_le b c \<Longrightarrow> changes_le a c"
    by (cases "anchored a"; cases "anchored b"; cases "anchored c")
      (auto simp: changes_le_def intro: anchored_caps.le_trans)
  show "changes_le a b \<Longrightarrow> changes_le b a \<Longrightarrow> a = b"
    by (cases "anchored a"; cases "anchored b")
      (auto simp: changes_le_def dest: anchored_caps.le_antisym)
qed (auto simp: changes_le_def ChangeCapabilities_intersection_def optional_le_def
    anchored_caps.meet_lower1 anchored_caps.meet_lower2 anchored_caps.meet_greatest
    split: option.splits)

interpretation range_hydration_caps: partial_meet range_hydration_le
  RangeHydrationCapabilities_intersection range_hydration_valid
proof unfold_locales
  fix a b :: RangeHydrationCapabilities
  assume v: "range_hydration_valid a" "range_hydration_valid b"
  then have v': "alignment_get (range_alignment a) \<noteq> 0" "alignment_get (range_alignment b) \<noteq> 0"
    by (simp_all add: range_hydration_valid_def)
  show "is_ok (RangeHydrationCapabilities_intersection a b) =
      is_ok (RangeHydrationCapabilities_intersection b a)"
    using alignment.meet_ok_sym [OF v']
    by (simp add: RangeHydrationCapabilities_intersection_def is_ok_iff)
  fix c d
  assume "RangeHydrationCapabilities_intersection a b = Inr c"
  then obtain al where al: "Alignment_intersection (range_alignment a) (range_alignment b) = Inr al"
    and c: "c = \<lparr>range_alignment = al, partial_cancel = partial_cancel a \<and> partial_cancel b\<rparr>"
    by (auto simp: RangeHydrationCapabilities_intersection_def)
  show "range_hydration_le c a" "range_hydration_le c b" "range_hydration_valid c"
    using alignment.meet_lower1 [OF v' al] alignment.meet_lower2 [OF v' al]
      alignment.meet_valid [OF v' al]
    by (simp_all add: range_hydration_le_def range_hydration_valid_def c)
  assume "range_hydration_valid d" "range_hydration_le d a" "range_hydration_le d b"
  then show "range_hydration_le d c"
    using alignment.meet_greatest [OF v' _ al, of "range_alignment d"]
    by (simp add: range_hydration_le_def range_hydration_valid_def c)
next
  fix a b :: RangeHydrationCapabilities
  show "range_hydration_le a b \<Longrightarrow> range_hydration_le b a \<Longrightarrow> a = b"
    by (cases a, cases b) (auto simp: range_hydration_le_def dest: alignment.le_antisym)
qed (auto simp: range_hydration_le_def intro: alignment.le_refl alignment.le_trans)

text \<open>The optional range descriptions inherit the meet of their contents.\<close>

interpretation optional_range_caps: partial_meet "optional_le range_hydration_le"
  optional_range_intersection "pred_option range_hydration_valid"
proof unfold_locales
  fix a b c :: "RangeHydrationCapabilities option"
  show "optional_le range_hydration_le a a"
    by (cases a) (auto intro: range_hydration_caps.le_refl)
  show "optional_le range_hydration_le a b \<Longrightarrow> optional_le range_hydration_le b c \<Longrightarrow>
      optional_le range_hydration_le a c"
    by (cases a; cases b; cases c) (auto intro: range_hydration_caps.le_trans)
  show "optional_le range_hydration_le a b \<Longrightarrow> optional_le range_hydration_le b a \<Longrightarrow> a = b"
    by (cases a; cases b) (auto intro: range_hydration_caps.le_antisym)
next
  fix a b :: "RangeHydrationCapabilities option"
  assume v: "pred_option range_hydration_valid a" "pred_option range_hydration_valid b"
  show "is_ok (optional_range_intersection a b) = is_ok (optional_range_intersection b a)"
    using v range_hydration_caps.meet_ok_sym
    by (cases a; cases b) (auto simp: optional_range_intersection_def is_ok_iff)
  fix c d
  assume c: "optional_range_intersection a b = Inr c"
  show "optional_le range_hydration_le c a" "optional_le range_hydration_le c b"
    "pred_option range_hydration_valid c"
    using v c
    by (cases a; cases b; auto simp: optional_range_intersection_def
        intro: range_hydration_caps.meet_lower1 range_hydration_caps.meet_lower2
          range_hydration_caps.meet_valid)+
  assume "pred_option range_hydration_valid d" "optional_le range_hydration_le d a"
    "optional_le range_hydration_le d b"
  then show "optional_le range_hydration_le d c"
    using v c
    by (cases a; cases b; cases d) (auto simp: optional_range_intersection_def
        intro: range_hydration_caps.meet_greatest)
qed

lemma HydrationCapabilities_intersection_eq_Inr:
  "HydrationCapabilities_intersection a b = Inr c \<longleftrightarrow>
     optional_range_intersection (range_hydration a) (range_hydration b) = Inr (range_hydration c) \<and>
     optional_range_intersection (progressive_range a) (progressive_range b) =
       Inr (progressive_range c) \<and>
     whole_file c = (whole_file a \<and> whole_file b) \<and>
     incremental_from_existing c = (incremental_from_existing a \<and> incremental_from_existing b)"
  by (cases c) (auto simp: HydrationCapabilities_intersection_def)

interpretation hydration_caps: partial_meet hydration_le
  HydrationCapabilities_intersection hydration_valid
proof unfold_locales
  fix a b c :: HydrationCapabilities
  show "hydration_le a a" by (simp add: hydration_le_def optional_range_caps.le_refl)
  show "hydration_le a b \<Longrightarrow> hydration_le b c \<Longrightarrow> hydration_le a c"
    unfolding hydration_le_def using optional_range_caps.le_trans by blast
  show "hydration_le a b \<Longrightarrow> hydration_le b a \<Longrightarrow> a = b"
    using optional_range_caps.le_antisym
    by (cases a, cases b) (auto simp: hydration_le_def)
next
  fix a b :: HydrationCapabilities
  assume v: "hydration_valid a" "hydration_valid b"
  show "is_ok (HydrationCapabilities_intersection a b) =
      is_ok (HydrationCapabilities_intersection b a)"
    using v optional_range_caps.meet_ok_sym [of "range_hydration a" "range_hydration b"]
      optional_range_caps.meet_ok_sym [of "progressive_range a" "progressive_range b"]
    by (auto simp: HydrationCapabilities_intersection_def hydration_valid_def is_ok_iff)
  fix c d
  assume c: "HydrationCapabilities_intersection a b = Inr c"
  note c' = c [unfolded HydrationCapabilities_intersection_eq_Inr]
  show "hydration_le c a" "hydration_le c b" "hydration_valid c"
    using v c' optional_range_caps.meet_lower1 optional_range_caps.meet_lower2
      optional_range_caps.meet_valid
    unfolding hydration_le_def hydration_valid_def by blast+
  assume "hydration_valid d" "hydration_le d a" "hydration_le d b"
  then show "hydration_le d c"
    using v c' optional_range_caps.meet_greatest
    unfolding hydration_le_def hydration_valid_def by blast
qed

lemmas component_le_refl =
  identity_caps.le_refl revisions_caps.le_refl enumeration_caps.le_refl changes_caps.le_refl
  hydration_caps.le_refl mutations_caps.le_refl materialization_caps.le_refl
  eviction_caps.le_refl naming_caps.le_refl limits_caps.le_refl

lemmas component_lower =
  identity_caps.meet_lower1 revisions_caps.meet_lower1 enumeration_caps.meet_lower1
  changes_caps.meet_lower1 mutations_caps.meet_lower1 materialization_caps.meet_lower1
  eviction_caps.meet_lower1 naming_caps.meet_lower1 limits_caps.meet_lower1
  identity_caps.meet_lower2 revisions_caps.meet_lower2 enumeration_caps.meet_lower2
  changes_caps.meet_lower2 mutations_caps.meet_lower2 materialization_caps.meet_lower2
  eviction_caps.meet_lower2 naming_caps.meet_lower2 limits_caps.meet_lower2

lemmas component_greatest =
  identity_caps.meet_greatest revisions_caps.meet_greatest enumeration_caps.meet_greatest
  changes_caps.meet_greatest mutations_caps.meet_greatest materialization_caps.meet_greatest
  eviction_caps.meet_greatest naming_caps.meet_greatest limits_caps.meet_greatest

interpretation capabilities: partial_meet capabilities_le
  CloudFilesCapabilities_intersection capabilities_valid
proof unfold_locales
  fix a b c :: CloudFilesCapabilities
  show "capabilities_le a a" by (simp add: capabilities_le_def component_le_refl)
  show "capabilities_le a b \<Longrightarrow> capabilities_le b c \<Longrightarrow> capabilities_le a c"
    unfolding capabilities_le_def
    by (blast intro: identity_caps.le_trans revisions_caps.le_trans enumeration_caps.le_trans
        changes_caps.le_trans hydration_caps.le_trans mutations_caps.le_trans
        materialization_caps.le_trans eviction_caps.le_trans naming_caps.le_trans
        limits_caps.le_trans order_trans)
  show "capabilities_le a b \<Longrightarrow> capabilities_le b a \<Longrightarrow> a = b"
    by (cases a, cases b) (simp add: capabilities_le_def identity_caps.le_antisym
        revisions_caps.le_antisym enumeration_caps.le_antisym changes_caps.le_antisym
        hydration_caps.le_antisym mutations_caps.le_antisym materialization_caps.le_antisym
        eviction_caps.le_antisym naming_caps.le_antisym limits_caps.le_antisym order_antisym)
next
  fix a b :: CloudFilesCapabilities
  assume v: "capabilities_valid a" "capabilities_valid b"
  then have vh: "hydration_valid (cap_hydration a)" "hydration_valid (cap_hydration b)"
    and ve: "eviction_valid (cap_eviction a)" "eviction_valid (cap_eviction b)"
    by (simp_all add: capabilities_valid_def)
  show "is_ok (CloudFilesCapabilities_intersection a b) =
      is_ok (CloudFilesCapabilities_intersection b a)"
    using hydration_caps.meet_ok_sym [OF vh]
    by (simp add: CloudFilesCapabilities_intersection_def is_ok_iff)
  fix c d
  assume c: "CloudFilesCapabilities_intersection a b = Inr c"
  then have h: "HydrationCapabilities_intersection (cap_hydration a) (cap_hydration b) =
      Inr (cap_hydration c)"
    by (auto simp: CloudFilesCapabilities_intersection_def)
  have low: "cap_cancellation c \<le> cap_cancellation a \<and> cap_cancellation c \<le> cap_cancellation b"
    using c by (auto simp: CloudFilesCapabilities_intersection_def CancellationLevel_intersection_def)
  show "capabilities_le c a" "capabilities_le c b"
    using c low hydration_caps.meet_lower1 [OF vh h] hydration_caps.meet_lower2 [OF vh h] ve
    by (auto simp: CloudFilesCapabilities_intersection_def capabilities_le_def component_lower)
  show "capabilities_valid c"
    using c hydration_caps.meet_valid [OF vh h] eviction_caps.meet_valid [OF ve]
    by (auto simp: CloudFilesCapabilities_intersection_def capabilities_valid_def)
  assume "capabilities_valid d" "capabilities_le d a" "capabilities_le d b"
  then show "capabilities_le d c"
    using c hydration_caps.meet_greatest [OF vh _ h, of "cap_hydration d"] ve
    by (auto simp: CloudFilesCapabilities_intersection_def CancellationLevel_intersection_def
        capabilities_le_def capabilities_valid_def component_greatest)
qed

section \<open>The unconstrained description\<close>

lemma minimum_optional_None: "minimum_optional_limit x None = x"
  by (cases x) simp_all

lemma Alignment_intersection_ONE:
  assumes "alignment_get a \<noteq> 0"
  shows "Alignment_intersection a Alignment_ONE = Inr a"
  using assms by (simp add: Alignment_intersection_eq_Inr Alignment_ONE_def)

lemma optional_range_unconstrained:
  assumes "pred_option range_hydration_valid a"
  shows "optional_range_intersection a
    (Some \<lparr>range_alignment = Alignment_ONE, partial_cancel = True\<rparr>) = Inr a"
  using assms
  by (cases a) (simp_all add: optional_range_intersection_def RangeHydrationCapabilities_intersection_def
      Alignment_intersection_ONE range_hydration_valid_def)

lemma unconstrained_valid: "capabilities_valid unconstrained"
  by (simp add: capabilities_valid_def unconstrained_def hydration_valid_def eviction_valid_def
      range_hydration_valid_def Alignment_ONE_def Let_def)

lemma unconstrained_identity:
  assumes "capabilities_valid c"
  shows "CloudFilesCapabilities_intersection c unconstrained = Inr c"
proof -
  have h: "HydrationCapabilities_intersection (cap_hydration c) (cap_hydration unconstrained) =
      Inr (cap_hydration c)"
    using assms
    by (simp add: HydrationCapabilities_intersection_def unconstrained_def Let_def capabilities_valid_def
        hydration_valid_def optional_range_unconstrained)
  have e: "EvictionCapabilities_intersection (cap_eviction c) (cap_eviction unconstrained) = cap_eviction c"
    using assms
    by (cases "cap_eviction c") (auto simp: EvictionCapabilities_intersection_def unconstrained_def Let_def
        capabilities_valid_def eviction_valid_def)
  have l: "CloudFilesLimits_intersection (cap_limits c) (cap_limits unconstrained) = cap_limits c"
    by (simp add: CloudFilesLimits_intersection_def unconstrained_def Let_def minimum_optional_None)
  have ch: "ChangeCapabilities_intersection (cap_changes c) (cap_changes unconstrained) = cap_changes c"
    by (cases "anchored (cap_changes c)")
      (simp_all add: ChangeCapabilities_intersection_def unconstrained_def Let_def
        AnchoredChangeCapabilities_intersection_def)
  have ca: "CancellationLevel_intersection (cap_cancellation c) (cap_cancellation unconstrained) = cap_cancellation c"
    by (cases "cap_cancellation c")
      (simp_all add: CancellationLevel_intersection_def unconstrained_def Let_def min_def
        less_eq_CancellationLevel_def)
  show ?thesis
    unfolding CloudFilesCapabilities_intersection_def h e l ch ca
    by (simp add: unconstrained_def Let_def IdentityCapabilities_intersection_def
        RevisionCapabilities_intersection_def EnumerationCapabilities_intersection_def
        MutationCapabilities_intersection_def MaterializationCapabilities_intersection_def
        ContentStorageModes_intersection_def NamingCapabilities_intersection_def)
qed

end
