(* ===== verification/Content_Read.thy ===== *)
theory Content_Read
  imports Core_Values
begin

text \<open>
  Byte ranges and revision-bound content reads (\<open>core/src/backend.rs\<close>). \<open>u64\<close> offsets
  are 64-bit words; \<open>range_lo\<close> and \<open>range_hi\<close> read a range as a half-open interval of
  natural numbers, and \<open>range_wf\<close> is what \<open>ByteRange::new\<close> guarantees.
\<close>

section \<open>Definitions\<close>

record ByteRange =
  range_offset :: u64
  range_length :: u64

definition ByteRange_new :: "u64 \<Rightarrow> u64 \<Rightarrow> ByteRange core_result" where
  "ByteRange_new off len =
     (if len = 0 then Inl (InvalidByteRange ''range length must be greater than zero'')
      else if checked_add off len = None then Inl (InvalidByteRange ''range end exceeds u64'')
      else Inr \<lparr>range_offset = off, range_length = len\<rparr>)"

definition end_exclusive :: "ByteRange \<Rightarrow> u64" where
  "end_exclusive r = range_offset r + range_length r"

definition covering :: "ByteRange \<Rightarrow> ByteRange \<Rightarrow> ByteRange" where
  "covering self other =
     (let (first, end') =
        (if range_offset self \<le> range_offset other
         then (self, max (end_exclusive self) (end_exclusive other))
         else (other, max (end_exclusive self) (end_exclusive other)));
          extension = end' - end_exclusive first
      in \<lparr>range_offset = range_offset first,
          range_length = saturating_add (range_length first) extension\<rparr>)"

datatype ContentReadRange = Whole | Range ByteRange

record ContentReadRequest =
  read_key :: CloudItemKey
  read_revision :: ContentRevision
  read_expected_size :: u64
  read_range :: ContentReadRange

definition ContentReadRequest_whole ::
  "CloudItemKey \<Rightarrow> ContentRevision \<Rightarrow> u64 \<Rightarrow> ContentReadRequest" where
  "ContentReadRequest_whole key revision expected_size =
     \<lparr>read_key = key, read_revision = revision, read_expected_size = expected_size,
      read_range = Whole\<rparr>"

definition ContentReadRequest_range ::
  "CloudItemKey \<Rightarrow> ContentRevision \<Rightarrow> u64 \<Rightarrow> ByteRange \<Rightarrow> ContentReadRequest" where
  "ContentReadRequest_range key revision expected_size r =
     \<lparr>read_key = key, read_revision = revision, read_expected_size = expected_size,
      read_range = Range r\<rparr>"

record ContentReadResponse =
  resp_revision :: ContentRevision
  resp_offset :: u64
  resp_bytes :: "u8 list"
  resp_byte_len :: u64
  resp_total_size :: u64

definition ContentReadResponse_new ::
  "ContentRevision \<Rightarrow> u64 \<Rightarrow> u8 list \<Rightarrow> u64 \<Rightarrow> ContentReadResponse core_result" where
  "ContentReadResponse_new revision off bytes total_size =
     (let byte_len = len_u64 bytes in
      case checked_add off byte_len of
        None \<Rightarrow> Inl (InvalidContentResponse ''response byte range exceeds u64'')
      | Some end' \<Rightarrow>
          if off > total_size \<or> end' > total_size
          then Inl (InvalidContentResponse ''response bytes exceed the logical file size'')
          else Inr \<lparr>resp_revision = revision, resp_offset = off, resp_bytes = bytes,
                    resp_byte_len = byte_len, resp_total_size = total_size\<rparr>)"

definition is_complete_file :: "ContentReadResponse \<Rightarrow> bool" where
  "is_complete_file response \<longleftrightarrow>
     resp_offset response = 0 \<and> resp_byte_len response = resp_total_size response"

definition validate_response ::
  "ContentReadRequest \<Rightarrow> ContentReadResponse \<Rightarrow> unit core_result" where
  "validate_response request response =
     (if resp_revision response \<noteq> read_revision request
      then Inl (InvalidContentResponse ''response revision does not match the requested revision'')
      else if resp_total_size response \<noteq> read_expected_size request
      then Inl (InvalidContentResponse
             ''response size does not match metadata for the requested revision'')
      else case read_range request of
        Whole \<Rightarrow>
          if resp_offset response \<noteq> 0
             \<or> resp_byte_len response \<noteq> resp_total_size response
             \<or> \<not> is_complete_file response
          then Inl (InvalidContentResponse ''whole-file response does not contain the complete file'')
          else Inr ()
      | Range r \<Rightarrow>
          if resp_offset response \<noteq> range_offset r
          then Inl (InvalidContentResponse ''range response starts at a different offset'')
          else
            let expected_len =
              (if range_offset r \<ge> resp_total_size response then 0
               else min (range_length r)
                      (saturating_sub (resp_total_size response) (range_offset r)))
            in if resp_byte_len response \<noteq> expected_len
               then Inl (InvalidContentResponse
                      ''range response length does not match the requested extent'')
               else Inr ())"

section \<open>Ranges as intervals\<close>

definition range_lo :: "ByteRange \<Rightarrow> nat" where
  "range_lo r = unat (range_offset r)"

definition range_hi :: "ByteRange \<Rightarrow> nat" where
  "range_hi r = unat (range_offset r) + unat (range_length r)"

definition range_wf :: "ByteRange \<Rightarrow> bool" where
  "range_wf r \<longleftrightarrow> range_length r \<noteq> 0 \<and> range_hi r < 2 ^ 64"

definition range_set :: "ByteRange \<Rightarrow> nat set" where
  "range_set r = {range_lo r..<range_hi r}"

lemma ByteRange_new_eq_Inr:
  "ByteRange_new off len = Inr r \<longleftrightarrow>
     r = \<lparr>range_offset = off, range_length = len\<rparr> \<and> range_wf r"
  by (auto simp: ByteRange_new_def range_wf_def range_hi_def)

lemma ByteRange_new_wf: "ByteRange_new off len = Inr r \<Longrightarrow> range_wf r"
  by (auto simp: ByteRange_new_eq_Inr)

lemma range_lo_less_hi: "range_wf r \<Longrightarrow> range_lo r < range_hi r"
  by (simp add: range_wf_def range_lo_def range_hi_def unat_gt_0)

lemma unat_end_exclusive [unat_ops]: "range_wf r \<Longrightarrow> unat (end_exclusive r) = range_hi r"
  by (simp add: end_exclusive_def range_wf_def range_hi_def unat_add_exact)

lemma unat_range_offset: "unat (range_offset r) = range_lo r"
  by (simp add: range_lo_def)

lemma range_set_nonempty: "range_wf r \<Longrightarrow> range_set r \<noteq> {}"
  using range_lo_less_hi by (simp add: range_set_def)

text \<open>The comparisons the sources make between ranges, as comparisons of interval bounds.\<close>

lemma range_order_simps:
  assumes "range_wf a"
  shows "end_exclusive a < range_offset b \<longleftrightarrow> range_hi a < range_lo b"
    and "end_exclusive a \<le> range_offset b \<longleftrightarrow> range_hi a \<le> range_lo b"
    and "range_offset b \<le> end_exclusive a \<longleftrightarrow> range_lo b \<le> range_hi a"
    and "range_offset a \<le> range_offset c \<longleftrightarrow> range_lo a \<le> range_lo c"
    and "range_offset a < n \<longleftrightarrow> range_lo a < unat n"
    and "n < end_exclusive a \<longleftrightarrow> unat n < range_hi a"
    and "end_exclusive a \<le> n \<longleftrightarrow> range_hi a \<le> unat n"
    and "range_offset a = 0 \<longleftrightarrow> range_lo a = 0"
  using unat_end_exclusive [OF assms]
  by (simp_all add: word_nat_order unat_range_offset) (simp add: range_lo_def unat_eq_0)

lemma end_exclusive_eq_iff: "range_wf a \<Longrightarrow> end_exclusive a = n \<longleftrightarrow> range_hi a = unat n"
  by (metis unat_end_exclusive word_unat_eq_iff)

lemma covering_lo:
  "range_lo (covering a b) = min (range_lo a) (range_lo b)"
  by (simp add: covering_def Let_def range_lo_def word_le_nat_alt min_def)

lemma covering_hi:
  assumes "range_wf a" and "range_wf b"
  shows "range_hi (covering a b) = max (range_hi a) (range_hi b)"
proof -
  define f where "f = (if range_offset a \<le> range_offset b then a else b)"
  define e where "e = max (end_exclusive a) (end_exclusive b)"
  have wf: "range_wf f" using assms by (simp add: f_def)
  have e: "unat e = max (range_hi a) (range_hi b)"
    using assms by (simp add: e_def unat_ops)
  have ext: "unat (e - end_exclusive f) = max (range_hi a) (range_hi b) - range_hi f"
  proof -
    have "end_exclusive f \<le> e"
      using assms wf by (auto simp: word_le_nat_alt e unat_ops f_def)
    then show ?thesis using wf e by (simp add: unat_ops)
  qed
  have hi: "range_hi a < 2 ^ 64" "range_hi b < 2 ^ 64"
    using assms by (simp_all add: range_wf_def)
  have "unat (range_length f) + unat (e - end_exclusive f) < 2 ^ 64"
    using ext hi wf unfolding range_wf_def f_def by (auto simp: range_hi_def split: if_splits)
  then have "unat (saturating_add (range_length f) (e - end_exclusive f)) =
      unat (range_length f) + (max (range_hi a) (range_hi b) - range_hi f)"
    by (simp add: unat_saturating_add_exact ext)
  moreover have "covering a b = \<lparr>range_offset = range_offset f,
      range_length = saturating_add (range_length f) (e - end_exclusive f)\<rparr>"
    by (simp add: covering_def f_def e_def)
  moreover have "range_hi f \<le> max (range_hi a) (range_hi b)" by (simp add: f_def)
  ultimately show ?thesis by (simp add: range_hi_def)
qed

lemma covering_wf:
  assumes "range_wf a" and "range_wf b"
  shows "range_wf (covering a b)"
proof -
  have "range_lo (covering a b) < range_hi (covering a b)"
    using assms range_lo_less_hi [of a] range_lo_less_hi [of b]
    by (auto simp: covering_lo covering_hi)
  then have "range_length (covering a b) \<noteq> 0"
    by (auto simp: range_lo_def range_hi_def)
  with assms show ?thesis
    by (simp add: range_wf_def covering_hi [unfolded range_wf_def] covering_hi)
qed

section \<open>Responses\<close>

text \<open>What the constructor of a response establishes.\<close>

definition response_wf :: "ContentReadResponse \<Rightarrow> bool" where
  "response_wf response \<longleftrightarrow>
     resp_byte_len response = len_u64 (resp_bytes response) \<and>
     unat (resp_offset response) + unat (resp_byte_len response)
       \<le> unat (resp_total_size response)"

lemma ContentReadResponse_new_eq_Inr:
  "ContentReadResponse_new revision off bytes total_size = Inr response \<longleftrightarrow>
     response = \<lparr>resp_revision = revision, resp_offset = off, resp_bytes = bytes,
                 resp_byte_len = len_u64 bytes, resp_total_size = total_size\<rparr> \<and>
     unat off + unat (len_u64 bytes) \<le> unat total_size"
proof -
  have sum: "unat off + unat (len_u64 bytes) < 2 ^ 64"
    if "unat off + unat (len_u64 bytes) \<le> unat total_size"
    using that unat_u64_bound [of total_size] by (simp add: le_less_trans)
  show ?thesis
    using sum
    by (auto simp: ContentReadResponse_new_def Let_def checked_add_def word_nat_order
        unat_add_exact split: option.splits if_splits)
qed

lemma ContentReadResponse_new_wf:
  "ContentReadResponse_new revision off bytes total_size = Inr response \<Longrightarrow> response_wf response"
  by (auto simp: ContentReadResponse_new_eq_Inr response_wf_def)

text \<open>The extent of the file a request asks for, cut off at the end of the file.\<close>

fun read_extent :: "ContentReadRequest \<Rightarrow> nat \<times> nat" where
  "read_extent request =
     (case read_range request of
        Whole \<Rightarrow> (0, unat (read_expected_size request))
      | Range r \<Rightarrow> (range_lo r, max (range_lo r) (min (range_hi r) (unat (read_expected_size request)))))"

lemma validate_response_extent:
  assumes ok: "validate_response request response = Inr ()"
    and wf: "response_wf response" and alloc: "allocatable (resp_bytes response)"
    and ext: "read_extent request = (lo, hi)"
  shows "resp_revision response = read_revision request"
    and "resp_total_size response = read_expected_size request"
    and "unat (resp_offset response) = lo" and "length (resp_bytes response) = hi - lo"
proof -
  have len: "unat (resp_byte_len response) = length (resp_bytes response)"
    using wf alloc by (simp add: response_wf_def unat_ops)
  show "resp_revision response = read_revision request"
    and "resp_total_size response = read_expected_size request"
    using ok by (auto simp: validate_response_def split: if_splits)
  have "unat (resp_offset response) = lo \<and> unat (resp_byte_len response) = hi - lo"
  proof (cases "read_range request")
    case Whole
    then show ?thesis using ok ext
      by (auto simp: validate_response_def split: if_splits)
  next
    case (Range r)
    then show ?thesis using ok ext
      by (auto simp: validate_response_def Let_def range_lo_def range_hi_def unat_ops
          word_nat_order split: if_splits)
  qed
  then show "unat (resp_offset response) = lo" and "length (resp_bytes response) = hi - lo"
    using len by simp_all
qed

text \<open>
  Conversely a response that carries exactly the requested extent passes the check, so the
  check accepts a correct backend.
\<close>

lemma validate_response_accepts:
  assumes "resp_revision response = read_revision request"
    and "resp_total_size response = read_expected_size request"
    and "read_extent request = (lo, hi)"
    and "unat (resp_offset response) = lo" and "unat (resp_byte_len response) = hi - lo"
  shows "validate_response request response = Inr ()"
proof (cases "read_range request")
  case Whole
  with assms have "resp_offset response = 0"
    and "unat (resp_byte_len response) = unat (resp_total_size response)"
    by (auto simp: unat_eq_0)
  moreover from this(2) have "resp_byte_len response = resp_total_size response"
    by (rule unat_eqI)
  ultimately show ?thesis using Whole assms(1,2)
    by (simp add: validate_response_def is_complete_file_def)
next
  case (Range r)
  define expected_len where "expected_len =
    (if range_offset r \<ge> resp_total_size response then 0
     else min (range_length r) (saturating_sub (resp_total_size response) (range_offset r)))"
  from Range assms have "unat (resp_offset response) = unat (range_offset r)"
    by (simp add: range_lo_def)
  then have off: "resp_offset response = range_offset r" by (rule unat_eqI)
  from Range assms have "unat (resp_byte_len response) = unat expected_len"
    by (auto simp: expected_len_def range_lo_def range_hi_def unat_ops word_nat_order)
  then have "resp_byte_len response = expected_len" by (rule unat_eqI)
  with Range off assms(1,2) show ?thesis
    by (simp add: validate_response_def Let_def expected_len_def)
qed

end
