(* ===== verification/Backend_Port.thy ===== *)
theory Backend_Port
  imports Capabilities Content_Read
begin

text \<open>
  The read port of a product backend (\<open>core/src/backend.rs\<close>, traits \<open>CloudMetadataBackend\<close>,
  \<open>CloudContentBackend\<close> and \<open>CloudFilesBackend\<close>): a record of calls on whatever the backend
  acts on. The platform adapters take it as a parameter and check every answer.
\<close>

type_synonym ('w, 'a) backend_call = "('w, CloudBackendError, 'a) io"

record 'w CloudFilesBackend =
  fb_get_item :: "CloudItemKey \<Rightarrow> ('w, CloudItem) backend_call"
  fb_list_children :: "CloudItemKey \<Rightarrow> PageCursor option \<Rightarrow> ('w, CloudItemPage) backend_call"
  fb_changes_since :: "CloudScope \<Rightarrow> ChangeCursor option \<Rightarrow> ('w, ChangePage) backend_call"
  fb_read_content :: "ContentReadRequest \<Rightarrow> ('w, ContentReadResponse) backend_call"
  fb_capabilities :: CloudFilesCapabilities

end
