(* ===== verification/Range_Set.thy ===== *)
theory Range_Set
  imports Content_Read
begin

text \<open>
  Sparse provider-cache coverage: \<open>ContentRangeSet\<close> of \<open>core/src/content_storage.rs\<close>. The
  ranges are kept sorted, disjoint and non-adjacent. The specification is the set of byte
  positions they contain; the locale \<open>byte_coverage\<close> states what the set promises to its
  clients and is interpreted on the operations of the sources.
\<close>

section \<open>Definitions\<close>

record ContentRangeSet =
  rs_ranges :: "ByteRange list"

definition MAX_RANGES :: usize where
  "MAX_RANGES = 8192"

definition ContentRangeSet_new :: ContentRangeSet where
  "ContentRangeSet_new = \<lparr>rs_ranges = []\<rparr>"

definition ContentRangeSet_covers :: "ContentRangeSet \<Rightarrow> ByteRange \<Rightarrow> bool" where
  "ContentRangeSet_covers self r =
     (let index = partition_point (\<lambda>existing. end_exclusive existing \<le> range_offset r)
                    (rs_ranges self)
      in if index < length (rs_ranges self)
         then let existing = rs_ranges self ! index
              in range_offset existing \<le> range_offset r \<and> end_exclusive existing \<ge> end_exclusive r
         else False)"

definition ContentRangeSet_insert ::
  "ByteRange \<Rightarrow> u64 \<Rightarrow> (ContentRangeSet, CloudFilesCoreError, bool) io" where
  "ContentRangeSet_insert r total_size self =
     (if end_exclusive r > total_size
      then (Inl (InvalidContentStorageState ''cached range exceeds the content size''), self)
      else if ContentRangeSet_covers self r then (Inr False, self)
      else
        let ranges = rs_ranges self;
            first_merged =
              partition_point (\<lambda>existing. end_exclusive existing < range_offset r) ranges;
            next_unmerged = first_merged +
              partition_point (\<lambda>existing. range_offset existing \<le> end_exclusive r)
                (drop first_merged ranges);
            merged_ranges = take (next_unmerged - first_merged) (drop first_merged ranges);
            combined = foldl covering r merged_ranges;
            merged = take first_merged ranges @ [combined] @ drop next_unmerged ranges
        in if length merged > MAX_RANGES
           then (Inl (InvalidContentStorageState
                   ''provider cache range fragmentation exceeds the supported limit''), self)
           else (Inr True, self\<lparr>rs_ranges := merged\<rparr>))"

definition ContentRangeSet_is_complete :: "ContentRangeSet \<Rightarrow> u64 \<Rightarrow> bool" where
  "ContentRangeSet_is_complete self total_size =
     (if total_size = 0 then True
      else case rs_ranges self of
             [r] \<Rightarrow> range_offset r = 0 \<and> end_exclusive r = total_size
           | _ \<Rightarrow> False)"

definition ContentRangeSet_clear :: "ContentRangeSet \<Rightarrow> ContentRangeSet" where
  "ContentRangeSet_clear self = self\<lparr>rs_ranges := []\<rparr>"

section \<open>The contract of a coverage set\<close>

text \<open>
  \<open>bytes_of\<close> is the abstract state: the byte positions that are present. A failed insertion
  changes nothing.
\<close>

locale byte_coverage =
  fixes inv :: "'s \<Rightarrow> bool"
    and bytes_of :: "'s \<Rightarrow> nat set"
    and ins :: "ByteRange \<Rightarrow> u64 \<Rightarrow> ('s, CloudFilesCoreError, bool) io"
    and covers :: "'s \<Rightarrow> ByteRange \<Rightarrow> bool"
    and clear :: "'s \<Rightarrow> 's"
  assumes ins_inv: "inv s \<Longrightarrow> range_wf r \<Longrightarrow> ins r n s = (Inr changed, s') \<Longrightarrow> inv s'"
    and ins_bytes:
      "inv s \<Longrightarrow> range_wf r \<Longrightarrow> ins r n s = (Inr changed, s') \<Longrightarrow>
         bytes_of s' = bytes_of s \<union> range_set r \<and> range_set r \<subseteq> {..<unat n} \<and>
         changed = (\<not> range_set r \<subseteq> bytes_of s)"
    and ins_err: "ins r n s = (Inl e, s') \<Longrightarrow> s' = s"
    and covers_iff: "inv s \<Longrightarrow> range_wf r \<Longrightarrow> covers s r \<longleftrightarrow> range_set r \<subseteq> bytes_of s"
    and clear_inv: "inv (clear s)"
    and clear_bytes: "bytes_of (clear s) = {}"
begin

lemma covers_inserted:
  assumes "inv s" "range_wf r" "ins r n s = (Inr changed, s')"
  shows "covers s' r"
  using ins_bytes [OF assms] ins_inv [OF assms] assms(2) by (simp add: covers_iff)

lemma covers_stable:
  assumes "inv s" "range_wf r" "range_wf q" "snd (ins r n s) = s'" "covers s q"
  shows "covers s' q"
proof (cases "fst (ins r n s)")
  case (Inl e)
  with assms(4) have "s' = s" using ins_err by (metis prod.collapse)
  with assms show ?thesis by simp
next
  case (Inr changed)
  with assms(4) have i: "ins r n s = (Inr changed, s')" by (metis prod.collapse)
  show ?thesis
    using assms ins_bytes [OF assms(1,2) i] ins_inv [OF assms(1,2) i] by (auto simp: covers_iff)
qed

lemma ins_idempotent:
  assumes "inv s" "range_wf r" "ins r n s = (Inr changed, s')" "ins r n s' = (Inr again, s'')"
  shows "\<not> again" and "bytes_of s'' = bytes_of s'"
  using ins_bytes [OF assms(1-3)] ins_bytes [OF ins_inv [OF assms(1-3)] assms(2,4)] by auto

lemma ins_within_size:
  assumes "inv s" "range_wf r" "bytes_of s \<subseteq> {..<unat n}" "ins r n s = (res, s')"
  shows "bytes_of s' \<subseteq> {..<unat n}"
proof (cases res)
  case (Inl e)
  with assms ins_err show ?thesis by metis
next
  case (Inr changed)
  with assms ins_bytes [of s r n changed s'] show ?thesis by simp
qed

end

section \<open>Invariant and abstraction\<close>

definition separated :: "ByteRange \<Rightarrow> ByteRange \<Rightarrow> bool" where
  "separated a b \<longleftrightarrow> range_hi a < range_lo b"

definition range_set_inv :: "ContentRangeSet \<Rightarrow> bool" where
  "range_set_inv s \<longleftrightarrow>
     sorted_wrt separated (rs_ranges s) \<and> (\<forall>r \<in> set (rs_ranges s). range_wf r) \<and>
     length (rs_ranges s) \<le> MAX_RANGES"

definition covered_bytes :: "ContentRangeSet \<Rightarrow> nat set" where
  "covered_bytes s = (\<Union>r \<in> set (rs_ranges s). range_set r)"

lemma mem_range_set [simp]: "x \<in> range_set r \<longleftrightarrow> range_lo r \<le> x \<and> x < range_hi r"
  by (simp add: range_set_def)

lemma sorted_separated_cases:
  assumes "sorted_wrt separated xs" "a \<in> set xs" "b \<in> set xs"
  shows "a = b \<or> separated a b \<or> separated b a"
  using assms by (induction xs) auto

lemma separated_trans: "separated a b \<Longrightarrow> range_wf b \<Longrightarrow> separated b c \<Longrightarrow> separated a c"
  using range_lo_less_hi [of b] by (simp add: separated_def)

text \<open>In a sorted list, the element found by the first \<open>partition_point\<close> of \<open>covers\<close>.\<close>

lemma dropWhile_nonempty_first:
  assumes "sorted_wrt separated xs" "\<forall>r \<in> set xs. range_wf r"
    and "e \<in> set xs" "range_lo e \<le> x" "x < range_hi e"
  shows "\<exists>ys. dropWhile (\<lambda>r. range_hi r \<le> x) xs = e # ys"
  using assms
proof (induction xs)
  case Nil
  then show ?case by simp
next
  case (Cons a xs)
  show ?case
  proof (cases "e = a")
    case True
    with Cons.prems show ?thesis by simp
  next
    case False
    with Cons.prems have "separated a e" by auto
    then have "range_hi a \<le> x" using Cons.prems(4) by (simp add: separated_def)
    with False Cons show ?thesis by auto
  qed
qed

lemma covers_unfold:
  assumes "\<forall>e \<in> set (rs_ranges s). range_wf e" and "range_wf r"
  shows "ContentRangeSet_covers s r \<longleftrightarrow>
    (case dropWhile (\<lambda>e. range_hi e \<le> range_lo r) (rs_ranges s) of
       [] \<Rightarrow> False
     | e # _ \<Rightarrow> range_lo e \<le> range_lo r \<and> range_hi r \<le> range_hi e)"
proof -
  let ?P = "\<lambda>e. end_exclusive e \<le> range_offset r" and ?xs = "rs_ranges s"
  have dw: "dropWhile ?P ?xs = dropWhile (\<lambda>e. range_hi e \<le> range_lo r) ?xs"
    using assms by (intro dropWhile_cong) (auto simp: range_order_simps unat_range_offset)
  show ?thesis
  proof (cases "dropWhile ?P ?xs")
    case Nil
    then have "length ?xs \<le> partition_point ?P ?xs"
      by (metis drop_eq_Nil drop_partition_point)
    then have "\<not> ContentRangeSet_covers s r" by (simp add: ContentRangeSet_covers_def Let_def)
    moreover have "dropWhile (\<lambda>e. range_hi e \<le> range_lo r) ?xs = []" using Nil dw by metis
    ultimately show ?thesis by (simp del: dropWhile_eq_Nil_conv)
  next
    case (Cons e es)
    then have lt: "partition_point ?P ?xs < length ?xs"
      by (metis drop_all drop_partition_point leI list.discI)
    then have nth: "?xs ! partition_point ?P ?xs = e"
      using Cons by (metis Cons_nth_drop_Suc drop_partition_point list.inject)
    have "e \<in> set ?xs" using lt nth by auto
    with assms have "range_wf e" by blast
    then have "range_offset e \<le> range_offset r \<and> end_exclusive r \<le> end_exclusive e \<longleftrightarrow>
        range_lo e \<le> range_lo r \<and> range_hi r \<le> range_hi e"
      using assms(2) by (simp add: word_le_nat_alt unat_ops unat_range_offset)
    with lt nth have "ContentRangeSet_covers s r \<longleftrightarrow>
        range_lo e \<le> range_lo r \<and> range_hi r \<le> range_hi e"
      by (simp add: ContentRangeSet_covers_def Let_def)
    moreover have "dropWhile (\<lambda>e. range_hi e \<le> range_lo r) ?xs = e # es" using Cons dw by metis
    ultimately show ?thesis by simp
  qed
qed

lemma covers_iff_subset:
  assumes inv: "range_set_inv s" and r: "range_wf r"
  shows "ContentRangeSet_covers s r \<longleftrightarrow> range_set r \<subseteq> covered_bytes s"
proof
  assume "ContentRangeSet_covers s r"
  then obtain e es where dw: "dropWhile (\<lambda>e. range_hi e \<le> range_lo r) (rs_ranges s) = e # es"
    and e: "range_lo e \<le> range_lo r" "range_hi r \<le> range_hi e"
    using inv r by (auto simp: covers_unfold range_set_inv_def split: list.splits)
  from dw have "e \<in> set (rs_ranges s)" by (metis list.set_intros(1) set_dropWhileD)
  moreover have "range_set r \<subseteq> range_set e" using e by auto
  ultimately show "range_set r \<subseteq> covered_bytes s" by (auto simp: covered_bytes_def)
next
  assume sub: "range_set r \<subseteq> covered_bytes s"
  then have "range_lo r \<in> covered_bytes s" using range_lo_less_hi [OF r] by auto
  then obtain e where e: "e \<in> set (rs_ranges s)" "range_lo e \<le> range_lo r" "range_lo r < range_hi e"
    by (auto simp: covered_bytes_def)
  have "range_hi r \<le> range_hi e"
  proof (rule ccontr)
    assume "\<not> range_hi r \<le> range_hi e"
    then have "range_hi e \<in> range_set r" using e by simp
    with sub obtain e' where e': "e' \<in> set (rs_ranges s)" "range_lo e' \<le> range_hi e"
      "range_hi e < range_hi e'" by (auto simp: covered_bytes_def)
    with e show False
      using sorted_separated_cases [of "rs_ranges s" e e'] inv
      by (auto simp: range_set_inv_def separated_def)
  qed
  with e inv r show "ContentRangeSet_covers s r"
    using dropWhile_nonempty_first [of "rs_ranges s" e "range_lo r"]
    by (auto simp: covers_unfold range_set_inv_def)
qed

section \<open>Insertion\<close>

text \<open>Merging the touching ranges into the inserted one.\<close>

lemma covering_union:
  assumes "range_wf a" "range_wf b" "range_lo b \<le> range_hi a" "range_lo a \<le> range_hi b"
  shows "range_set (covering a b) = range_set a \<union> range_set b"
  using assms range_lo_less_hi [of a] range_lo_less_hi [of b]
  by (auto simp: covering_lo covering_hi)

definition touches :: "ByteRange \<Rightarrow> ByteRange \<Rightarrow> bool" where
  "touches e r \<longleftrightarrow> range_lo e \<le> range_hi r \<and> range_lo r \<le> range_hi e"

lemma foldl_covering:
  assumes "range_wf acc" "range_lo acc \<le> range_lo r" "range_hi r \<le> range_hi acc"
    and "\<forall>e \<in> set es. range_wf e \<and> touches e r"
  shows "range_wf (foldl covering acc es) \<and>
    range_set (foldl covering acc es) = range_set acc \<union> (\<Union>e \<in> set es. range_set e) \<and>
    range_lo (foldl covering acc es) \<in> insert (range_lo acc) (range_lo ` set es) \<and>
    range_hi (foldl covering acc es) \<in> insert (range_hi acc) (range_hi ` set es)"
  using assms
proof (induction es arbitrary: acc)
  case Nil
  then show ?case by simp
next
  case (Cons e es)
  let ?a = "covering acc e"
  have e: "range_wf e" "range_lo e \<le> range_hi r" "range_lo r \<le> range_hi e"
    using Cons.prems by (auto simp: touches_def)
  have a: "range_wf ?a" "range_lo ?a \<le> range_lo r" "range_hi r \<le> range_hi ?a"
    using Cons.prems e by (auto simp: covering_wf covering_lo covering_hi)
  have u: "range_set ?a = range_set acc \<union> range_set e"
    using Cons.prems e by (intro covering_union) auto
  have lh: "range_lo ?a \<in> {range_lo acc, range_lo e}" "range_hi ?a \<in> {range_hi acc, range_hi e}"
    using Cons.prems e by (auto simp: covering_lo covering_hi min_def max_def)
  from Cons.IH [OF a] Cons.prems have IH:
    "range_wf (foldl covering ?a es)"
    "range_set (foldl covering ?a es) = range_set ?a \<union> (\<Union>e \<in> set es. range_set e)"
    "range_lo (foldl covering ?a es) \<in> insert (range_lo ?a) (range_lo ` set es)"
    "range_hi (foldl covering ?a es) \<in> insert (range_hi ?a) (range_hi ` set es)"
    by auto
  have "range_set (foldl covering ?a es) =
      range_set acc \<union> (range_set e \<union> (\<Union>e \<in> set es. range_set e))"
    using IH(2) u by (simp add: Un_assoc)
  with IH lh show ?case by auto
qed

text \<open>The three parts into which an insertion splits the ranges.\<close>

definition before_part :: "ByteRange \<Rightarrow> ByteRange list \<Rightarrow> ByteRange list" where
  "before_part r xs = takeWhile (\<lambda>e. range_hi e < range_lo r) xs"

definition merged_part :: "ByteRange \<Rightarrow> ByteRange list \<Rightarrow> ByteRange list" where
  "merged_part r xs =
     takeWhile (\<lambda>e. range_lo e \<le> range_hi r) (dropWhile (\<lambda>e. range_hi e < range_lo r) xs)"

definition after_part :: "ByteRange \<Rightarrow> ByteRange list \<Rightarrow> ByteRange list" where
  "after_part r xs =
     dropWhile (\<lambda>e. range_lo e \<le> range_hi r) (dropWhile (\<lambda>e. range_hi e < range_lo r) xs)"

lemma parts_append: "xs = before_part r xs @ merged_part r xs @ after_part r xs"
  by (simp add: before_part_def merged_part_def after_part_def)

lemma insert_unfold:
  assumes "\<forall>e \<in> set (rs_ranges s). range_wf e" and "range_wf r"
  shows "ContentRangeSet_insert r n s =
    (if unat n < range_hi r
     then (Inl (InvalidContentStorageState ''cached range exceeds the content size''), s)
     else if ContentRangeSet_covers s r then (Inr False, s)
     else
       let xs = rs_ranges s;
           merged = before_part r xs @ [foldl covering r (merged_part r xs)] @ after_part r xs
       in if length merged > MAX_RANGES
          then (Inl (InvalidContentStorageState
                  ''provider cache range fragmentation exceeds the supported limit''), s)
          else (Inr True, s\<lparr>rs_ranges := merged\<rparr>))"
proof -
  let ?P = "\<lambda>e. end_exclusive e < range_offset r" and ?xs = "rs_ranges s"
  let ?Q = "\<lambda>e. range_offset e \<le> end_exclusive r"
  have P: "?P e \<longleftrightarrow> range_hi e < range_lo r" if "e \<in> set ?xs" for e
    using assms that by (simp add: range_order_simps unat_range_offset)
  have Q: "?Q e \<longleftrightarrow> range_lo e \<le> range_hi r" for e
    using assms(2) by (simp add: range_order_simps)
  have p: "takeWhile ?P ?xs = before_part r ?xs"
    "dropWhile ?P ?xs = dropWhile (\<lambda>e. range_hi e < range_lo r) ?xs"
    unfolding before_part_def by (auto simp: P intro!: takeWhile_cong dropWhile_cong)
  have q: "takeWhile ?Q (dropWhile ?P ?xs) = merged_part r ?xs"
    "dropWhile ?Q (dropWhile ?P ?xs) = after_part r ?xs"
    by (simp_all only: Q p merged_part_def after_part_def)
  have drop: "drop (partition_point ?P ?xs + partition_point ?Q (dropWhile ?P ?xs)) ?xs =
      after_part r ?xs"
    using q(2) drop_drop [of "partition_point ?Q (dropWhile ?P ?xs)" "partition_point ?P ?xs" ?xs]
    unfolding drop_partition_point by (simp only: add.commute)
  have size: "n < end_exclusive r \<longleftrightarrow> unat n < range_hi r"
    using assms(2) by (simp add: range_order_simps)
  show ?thesis
    unfolding ContentRangeSet_insert_def Let_def drop_partition_point take_partition_point
      add_diff_cancel_left' p(1) q(1) drop size ..
qed

lemma parts_properties:
  assumes sorted: "sorted_wrt separated xs" and wf: "\<forall>e \<in> set xs. range_wf e"
  shows "\<forall>e \<in> set (before_part r xs). range_hi e < range_lo r"
    and "\<forall>e \<in> set (merged_part r xs). touches e r"
    and "\<forall>e \<in> set (after_part r xs). range_hi r < range_lo e"
proof -
  show "\<forall>e \<in> set (before_part r xs). range_hi e < range_lo r"
    unfolding before_part_def by (auto dest: set_takeWhileD)
  let ?ys = "dropWhile (\<lambda>e. range_hi e < range_lo r) xs"
  have "partitioned (\<lambda>e. range_hi e < range_lo r) xs"
    using sorted
  proof (rule sorted_wrt_partitioned)
    fix x y
    assume "x \<in> set xs" "y \<in> set xs" "separated x y" "range_hi y < range_lo r"
    then show "range_hi x < range_lo r"
      using wf range_lo_less_hi [of y] by (auto simp: separated_def)
  qed
  then have m: "range_lo r \<le> range_hi e" if "e \<in> set ?ys" for e
    using that unfolding partitioned_def by (meson leI)
  then show "\<forall>e \<in> set (merged_part r xs). touches e r"
    using set_takeWhileD [of _ "\<lambda>e. range_lo e \<le> range_hi r" ?ys]
    unfolding merged_part_def touches_def by blast
  have "sorted_wrt separated ?ys"
    by (subst drop_partition_point [symmetric]) (rule sorted_wrt_drop [OF sorted])
  then have "partitioned (\<lambda>e. range_lo e \<le> range_hi r) ?ys"
  proof (rule sorted_wrt_partitioned)
    fix x y
    assume "x \<in> set ?ys" "separated x y" "range_lo y \<le> range_hi r"
    then show "range_lo x \<le> range_hi r"
      using wf range_lo_less_hi [of x] by (auto simp: separated_def dest: set_dropWhileD)
  qed
  then show "\<forall>e \<in> set (after_part r xs). range_hi r < range_lo e"
    unfolding after_part_def partitioned_def by (meson leI)
qed

text \<open>Insertion keeps the list sorted and separated, and adds exactly the bytes of the range.\<close>

lemma insert_merged:
  assumes sorted: "sorted_wrt separated xs" and wf: "\<forall>e \<in> set xs. range_wf e"
    and r: "range_wf r"
    and ys: "ys = before_part r xs @ [foldl covering r (merged_part r xs)] @ after_part r xs"
  shows "sorted_wrt separated ys" and "\<forall>e \<in> set ys. range_wf e"
    and "(\<Union>e \<in> set ys. range_set e) = (\<Union>e \<in> set xs. range_set e) \<union> range_set r"
proof -
  let ?b = "before_part r xs" and ?m = "merged_part r xs" and ?a = "after_part r xs"
  let ?c = "foldl covering r ?m"
  note parts = parts_properties [OF sorted wf, of r]
  have xs: "xs = ?b @ ?m @ ?a" by (rule parts_append)
  have wf': "\<forall>e \<in> set ?b \<union> set ?m \<union> set ?a. range_wf e" using wf xs by (metis Un_iff set_append)
  have c: "range_wf ?c" "range_set ?c = range_set r \<union> (\<Union>e \<in> set ?m. range_set e)"
    "range_lo ?c \<in> insert (range_lo r) (range_lo ` set ?m)"
    "range_hi ?c \<in> insert (range_hi r) (range_hi ` set ?m)"
    using foldl_covering [OF r order_refl order_refl, of ?m] parts(2) wf' by auto
  have "sorted_wrt separated (?b @ ?m @ ?a)" using sorted xs by metis
  then have so: "sorted_wrt separated ?b" "sorted_wrt separated ?a"
    "\<And>x y. x \<in> set ?b \<Longrightarrow> y \<in> set ?m \<union> set ?a \<Longrightarrow> separated x y"
    "\<And>x y. x \<in> set ?m \<Longrightarrow> y \<in> set ?a \<Longrightarrow> separated x y"
    by (auto simp: sorted_wrt_append)
  have "separated x ?c" if "x \<in> set ?b" for x
    using that c(3) parts(1) so(3) by (auto simp: separated_def)
  moreover have "separated ?c y" if "y \<in> set ?a" for y
    using that c(4) parts(3) so(4) by (auto simp: separated_def)
  ultimately show "sorted_wrt separated ys"
    using so by (auto simp: ys sorted_wrt_append)
  show "\<forall>e \<in> set ys. range_wf e" using wf' c(1) by (auto simp: ys)
  have "(\<Union>e \<in> set xs. range_set e) =
      (\<Union>e \<in> set ?b. range_set e) \<union> (\<Union>e \<in> set ?m. range_set e) \<union> (\<Union>e \<in> set ?a. range_set e)"
    using xs by (metis UN_Un Un_assoc set_append)
  then show "(\<Union>e \<in> set ys. range_set e) = (\<Union>e \<in> set xs. range_set e) \<union> range_set r"
    using c(2) by (auto simp: ys simp del: mem_range_set)
qed

lemma insert_eq_Inr:
  assumes inv: "range_set_inv s" and r: "range_wf r"
    and ins: "ContentRangeSet_insert r n s = (Inr changed, s')"
  shows "range_set_inv s'" and "covered_bytes s' = covered_bytes s \<union> range_set r"
    and "range_hi r \<le> unat n" and "changed \<longleftrightarrow> \<not> range_set r \<subseteq> covered_bytes s"
proof -
  have wf: "\<forall>e \<in> set (rs_ranges s). range_wf e" and so: "sorted_wrt separated (rs_ranges s)"
    using inv by (simp_all add: range_set_inv_def)
  define ys where "ys = before_part r (rs_ranges s)
    @ [foldl covering r (merged_part r (rs_ranges s))] @ after_part r (rs_ranges s)"
  note merged = insert_merged [OF so wf r ys_def]
  have cases: "range_hi r \<le> unat n \<and>
      (ContentRangeSet_covers s r \<and> \<not> changed \<and> s' = s \<or>
       \<not> ContentRangeSet_covers s r \<and> changed \<and> s' = s\<lparr>rs_ranges := ys\<rparr> \<and> length ys \<le> MAX_RANGES)"
    using ins unfolding insert_unfold [OF wf r] Let_def ys_def [symmetric]
    by (simp split: if_splits)
  then show "range_hi r \<le> unat n" by simp
  show "changed \<longleftrightarrow> \<not> range_set r \<subseteq> covered_bytes s"
    using cases covers_iff_subset [OF inv r] by auto
  show "range_set_inv s'"
    using cases inv merged by (auto simp: range_set_inv_def)
  show "covered_bytes s' = covered_bytes s \<union> range_set r"
    using cases merged(3) covers_iff_subset [OF inv r]
    by (auto simp: covered_bytes_def simp del: mem_range_set)
qed

lemma insert_eq_Inl: "ContentRangeSet_insert r n s = (Inl e, s') \<Longrightarrow> s' = s"
  by (auto simp: ContentRangeSet_insert_def Let_def split: if_splits)

lemma new_inv: "range_set_inv ContentRangeSet_new"
  by (simp add: range_set_inv_def ContentRangeSet_new_def)

lemma new_bytes: "covered_bytes ContentRangeSet_new = {}"
  by (simp add: covered_bytes_def ContentRangeSet_new_def)

interpretation range_coverage: byte_coverage range_set_inv covered_bytes ContentRangeSet_insert
  ContentRangeSet_covers ContentRangeSet_clear
proof unfold_locales
  fix s r n changed s'
  assume "range_set_inv s" "range_wf r" "ContentRangeSet_insert r n s = (Inr changed, s')"
  note ins = insert_eq_Inr [OF this]
  show "range_set_inv s'" by (rule ins)
  show "covered_bytes s' = covered_bytes s \<union> range_set r \<and> range_set r \<subseteq> {..<unat n} \<and>
      changed = (\<not> range_set r \<subseteq> covered_bytes s)"
    using ins by auto
qed (simp_all add: insert_eq_Inl covers_iff_subset ContentRangeSet_clear_def range_set_inv_def
    covered_bytes_def)

text \<open>
  When an insertion within the size fails, the range is new and the set holds the maximum
  number of separated ranges already: fragmentation is the only other reason.
\<close>

lemma insert_fails_fragmented:
  assumes inv: "range_set_inv s" and r: "range_wf r" and size: "range_hi r \<le> unat n"
    and ins: "ContentRangeSet_insert r n s = (Inl e, s')"
  shows "length (rs_ranges s) = MAX_RANGES \<and> (\<forall>q \<in> set (rs_ranges s). \<not> touches q r)"
proof -
  let ?xs = "rs_ranges s"
  have wf: "\<forall>e \<in> set ?xs. range_wf e" and so: "sorted_wrt separated ?xs"
    and len: "length ?xs \<le> MAX_RANGES"
    using inv by (simp_all add: range_set_inv_def)
  have "MAX_RANGES < length (before_part r ?xs) + 1 + length (after_part r ?xs)"
    using ins size unfolding insert_unfold [OF wf r] Let_def by (simp split: if_splits)
  moreover have "length ?xs =
      length (before_part r ?xs) + length (merged_part r ?xs) + length (after_part r ?xs)"
    using parts_append [of ?xs r] by (metis add.assoc length_append)
  ultimately have "length (merged_part r ?xs) = 0" and "length ?xs = MAX_RANGES"
    using len by linarith+
  then have m: "merged_part r ?xs = []" by simp
  have "\<not> touches q r" if "q \<in> set ?xs" for q
  proof -
    have "q \<in> set (before_part r ?xs) \<union> set (after_part r ?xs)"
      using that m parts_append [of ?xs r] by (metis Un_iff append_Nil set_append)
    then show ?thesis
      using parts_properties [OF so wf, of r] by (auto simp: touches_def)
  qed
  with \<open>length ?xs = MAX_RANGES\<close> show ?thesis by blast
qed

lemma insert_full_refused:
  assumes inv: "range_set_inv s" and r: "range_wf r"
    and full: "length (rs_ranges s) = MAX_RANGES" "\<forall>q \<in> set (rs_ranges s). \<not> touches q r"
  shows "\<not> is_ok (fst (ContentRangeSet_insert r n s))"
proof -
  let ?xs = "rs_ranges s"
  have wf: "\<forall>e \<in> set ?xs. range_wf e" and so: "sorted_wrt separated ?xs"
    using inv by (simp_all add: range_set_inv_def)
  have "set (merged_part r ?xs) \<subseteq> set ?xs"
    by (metis Un_upper1 Un_upper2 order_trans parts_append set_append)
  then have "merged_part r ?xs = []"
    using parts_properties(2) [OF so wf, of r] full(2) by (cases "merged_part r ?xs") auto
  then have len: "length (before_part r ?xs @ [foldl covering r (merged_part r ?xs)] @ after_part r ?xs)
      = Suc MAX_RANGES"
    using full(1) arg_cong [OF parts_append [of ?xs r], of length] by simp
  have "\<not> ContentRangeSet_covers s r"
  proof
    assume "ContentRangeSet_covers s r"
    then have "range_lo r \<in> covered_bytes s"
      using covers_iff_subset [OF inv r] range_lo_less_hi [OF r] by (auto simp: range_set_def)
    then obtain e where "e \<in> set ?xs" "range_lo e \<le> range_lo r" "range_lo r < range_hi e"
      by (auto simp: covered_bytes_def)
    then have "touches e r" using range_lo_less_hi [OF r] by (simp add: touches_def)
    then show False using full(2) \<open>e \<in> set ?xs\<close> by blast
  qed
  then show ?thesis
    using len unfolding insert_unfold [OF wf r] Let_def by simp
qed

lemma insert_ok_iff:
  assumes inv: "range_set_inv s" and r: "range_wf r"
  shows "is_ok (fst (ContentRangeSet_insert r n s)) \<longleftrightarrow>
    range_hi r \<le> unat n \<and>
    (length (rs_ranges s) < MAX_RANGES \<or> (\<exists>q \<in> set (rs_ranges s). touches q r))"
proof
  assume ok: "is_ok (fst (ContentRangeSet_insert r n s))"
  then obtain changed s' where "ContentRangeSet_insert r n s = (Inr changed, s')"
    by (metis is_ok_iff prod.collapse)
  then have "range_hi r \<le> unat n" using insert_eq_Inr(3) [OF inv r] by blast
  moreover have "length (rs_ranges s) \<le> MAX_RANGES" using inv by (simp add: range_set_inv_def)
  ultimately show "range_hi r \<le> unat n \<and>
      (length (rs_ranges s) < MAX_RANGES \<or> (\<exists>q \<in> set (rs_ranges s). touches q r))"
    using insert_full_refused [OF inv r] ok by (meson le_neq_implies_less)
next
  assume ok: "range_hi r \<le> unat n \<and>
      (length (rs_ranges s) < MAX_RANGES \<or> (\<exists>q \<in> set (rs_ranges s). touches q r))"
  show "is_ok (fst (ContentRangeSet_insert r n s))"
  proof (cases "ContentRangeSet_insert r n s")
    case (Pair res s')
    then show ?thesis using insert_fails_fragmented [OF inv r] ok by (cases res) auto
  qed
qed

lemma is_complete_iff:
  assumes inv: "range_set_inv s" and size: "covered_bytes s \<subseteq> {..<unat n}"
  shows "ContentRangeSet_is_complete s n \<longleftrightarrow> covered_bytes s = {..<unat n}"
proof (cases "n = 0")
  case True
  with size show ?thesis by (simp add: ContentRangeSet_is_complete_def)
next
  case False
  then have n: "0 < unat n" by (simp add: unat_gt_0)
  have wf: "\<forall>e \<in> set (rs_ranges s). range_wf e" and so: "sorted_wrt separated (rs_ranges s)"
    using inv by (simp_all add: range_set_inv_def)
  show ?thesis
  proof
    assume "ContentRangeSet_is_complete s n"
    then obtain r where r: "rs_ranges s = [r]" "range_offset r = 0" "end_exclusive r = n"
      using False by (auto simp: ContentRangeSet_is_complete_def split: list.splits)
    then have "range_lo r = 0" "range_hi r = unat n"
      using wf by (auto simp: range_lo_def end_exclusive_eq_iff)
    with r show "covered_bytes s = {..<unat n}" by (auto simp: covered_bytes_def)
  next
    assume full: "covered_bytes s = {..<unat n}"
    then have "0 \<in> covered_bytes s" using n by simp
    then obtain r where r: "r \<in> set (rs_ranges s)" "range_lo r = 0" by (auto simp: covered_bytes_def)
    have hi: "range_hi q \<le> unat n" if "q \<in> set (rs_ranges s)" for q
    proof -
      have "range_hi q - 1 \<in> covered_bytes s"
        using that wf range_lo_less_hi [of q] by (force simp: covered_bytes_def)
      then show ?thesis using full by auto
    qed
    have "range_hi r = unat n"
    proof (rule ccontr)
      assume "range_hi r \<noteq> unat n"
      then have "range_hi r \<in> covered_bytes s" using hi [OF r(1)] full by auto
      then obtain q where q: "q \<in> set (rs_ranges s)" "range_lo q \<le> range_hi r" "range_hi r < range_hi q"
        by (auto simp: covered_bytes_def)
      then show False
        using sorted_separated_cases [OF so r(1) q(1)] r(2) by (auto simp: separated_def)
    qed
    have only: "q = r" if "q \<in> set (rs_ranges s)" for q
      using sorted_separated_cases [OF so r(1) that] r(2) hi [OF that] \<open>range_hi r = unat n\<close>
        that wf range_lo_less_hi [of q] by (auto simp: separated_def)
    have "rs_ranges s = [r]"
    proof (cases "rs_ranges s")
      case (Cons a ys)
      have "\<not> separated r r" using r(2) by (simp add: separated_def)
      then have "b \<notin> set ys" for b using only so Cons by auto
      then have "ys = []" by (cases ys) auto
      with Cons only show ?thesis by simp
    qed (use r in simp)
    moreover have "range_offset r = 0" "end_exclusive r = n"
      using r wf \<open>range_hi r = unat n\<close> by (simp_all add: range_lo_def unat_eq_0 end_exclusive_eq_iff)
    ultimately show "ContentRangeSet_is_complete s n" by (simp add: ContentRangeSet_is_complete_def)
  qed
qed

end
