(* ===== verification/Content_Entry.thy ===== *)
theory Content_Entry
  imports Range_Set
begin

text \<open>
  Content storage entries: ownership, leases, dirty tracking and eviction guards
  (\<open>ContentStorageEntry\<close> and its parts in \<open>core/src/content_storage.rs\<close>). Every
  \<open>&mut self\<close> method is a function from the entry to its result and the entry it leaves
  behind, error branches included.
\<close>

section \<open>Definitions\<close>

datatype ContentStorageMode = PlatformManaged | ProviderManaged | Hybrid

record ContentCacheKey =
  cache_item_key :: CloudItemKey
  cache_revision :: ContentRevision

datatype PlatformMaterializationState = Unknown | Dataless | Partial | Complete

datatype ContentLeaseKind = Open | Read | Write | Hydration | Upload | Verification

datatype ContentLeaseId = ContentLeaseId (lease_id_str: string)

definition ContentLeaseId_new :: "string \<Rightarrow> ContentLeaseId core_result" where
  "ContentLeaseId_new = opaque_new ''content lease id'' ContentLeaseId"

record ContentLeaseCounts =
  count_open :: u32
  count_read :: u32
  count_write :: u32
  count_hydration :: u32
  count_upload :: u32
  count_verification :: u32

definition ContentLeaseCounts_default :: ContentLeaseCounts where
  "ContentLeaseCounts_default =
     \<lparr>count_open = 0, count_read = 0, count_write = 0, count_hydration = 0, count_upload = 0,
      count_verification = 0\<rparr>"

text \<open>\<open>value_mut\<close> returns a mutable borrow: reading through it and writing through it.\<close>

primrec lease_value :: "ContentLeaseCounts \<Rightarrow> ContentLeaseKind \<Rightarrow> u32" where
  "lease_value c Open = count_open c"
| "lease_value c Read = count_read c"
| "lease_value c Write = count_write c"
| "lease_value c Hydration = count_hydration c"
| "lease_value c Upload = count_upload c"
| "lease_value c Verification = count_verification c"

primrec lease_value_set :: "ContentLeaseCounts \<Rightarrow> ContentLeaseKind \<Rightarrow> u32 \<Rightarrow> ContentLeaseCounts" where
  "lease_value_set c Open v = c\<lparr>count_open := v\<rparr>"
| "lease_value_set c Read v = c\<lparr>count_read := v\<rparr>"
| "lease_value_set c Write v = c\<lparr>count_write := v\<rparr>"
| "lease_value_set c Hydration v = c\<lparr>count_hydration := v\<rparr>"
| "lease_value_set c Upload v = c\<lparr>count_upload := v\<rparr>"
| "lease_value_set c Verification v = c\<lparr>count_verification := v\<rparr>"

definition lease_increment ::
  "ContentLeaseKind \<Rightarrow> (ContentLeaseCounts, CloudFilesCoreError, unit) io" where
  "lease_increment kind c =
     (case checked_add (lease_value c kind) 1 of
        None \<Rightarrow> (Inl (InvalidContentStorageState ''content lease count overflowed''), c)
      | Some v \<Rightarrow> (Inr (), lease_value_set c kind v))"

definition lease_decrement ::
  "ContentLeaseKind \<Rightarrow> (ContentLeaseCounts, CloudFilesCoreError, unit) io" where
  "lease_decrement kind c =
     (case checked_sub (lease_value c kind) 1 of
        None \<Rightarrow> (Inl (InvalidContentStorageState ''content lease count was already zero''), c)
      | Some v \<Rightarrow> (Inr (), lease_value_set c kind v))"

datatype ContentEvictionBlocker =
    Pinned | Dirty | OpenLease | ReadLease | WriteLease | HydrationLease | UploadLease
  | VerificationLease | CacheWriteInProgress | EvictionInProgress

datatype ContentEvictionTarget = ProviderCache | PlatformMaterialization | AllManagedContent

record ContentEvictionPlan =
  remove_provider_cache :: bool
  evict_platform_materialization :: bool
  invalidate_platform_content :: bool

fun ContentEvictionPlan_for_target ::
  "ContentStorageMode \<Rightarrow> ContentEvictionTarget \<Rightarrow> ContentEvictionPlan core_result" where
  "ContentEvictionPlan_for_target PlatformManaged ProviderCache =
     Inl (InvalidContentStorageState ''eviction target is not owned by the selected storage mode'')"
| "ContentEvictionPlan_for_target ProviderManaged PlatformMaterialization =
     Inl (InvalidContentStorageState ''eviction target is not owned by the selected storage mode'')"
| "ContentEvictionPlan_for_target PlatformManaged target =
     Inr \<lparr>remove_provider_cache = False, evict_platform_materialization = True,
          invalidate_platform_content = False\<rparr>"
| "ContentEvictionPlan_for_target Hybrid PlatformMaterialization =
     Inr \<lparr>remove_provider_cache = False, evict_platform_materialization = True,
          invalidate_platform_content = False\<rparr>"
| "ContentEvictionPlan_for_target ProviderManaged target =
     Inr \<lparr>remove_provider_cache = True, evict_platform_materialization = False,
          invalidate_platform_content = True\<rparr>"
| "ContentEvictionPlan_for_target Hybrid ProviderCache =
     Inr \<lparr>remove_provider_cache = True, evict_platform_materialization = False,
          invalidate_platform_content = True\<rparr>"
| "ContentEvictionPlan_for_target Hybrid AllManagedContent =
     Inr \<lparr>remove_provider_cache = True, evict_platform_materialization = True,
          invalidate_platform_content = True\<rparr>"

datatype ContentEvictionDecision =
    Reserved ContentEvictionPlan
  | Blocked "ContentEvictionBlocker list"

datatype DirtyContentTransition = Applied | AlreadyApplied | Fenced

record ContentStorageEntry =
  entry_key :: ContentCacheKey
  entry_mode :: ContentStorageMode
  entry_total_size :: u64
  provider_ranges :: "ContentRangeSet option"
  platform_materialization :: "PlatformMaterializationState option"
  pinned :: bool
  dirty_snapshot :: "LocalContentSnapshot option"
  leases :: "ContentLeaseId \<rightharpoonup> ContentLeaseKind"
  lease_counts :: ContentLeaseCounts
  active_cache_writes :: u32
  eviction_reserved :: bool

definition ContentStorageEntry_new ::
  "ContentCacheKey \<Rightarrow> ContentStorageMode \<Rightarrow> u64 \<Rightarrow> ContentStorageEntry" where
  "ContentStorageEntry_new key mode total_size =
     \<lparr>entry_key = key, entry_mode = mode, entry_total_size = total_size,
      provider_ranges =
        (if mode = ProviderManaged \<or> mode = Hybrid then Some ContentRangeSet_new else None),
      platform_materialization =
        (if mode = PlatformManaged \<or> mode = Hybrid then Some Unknown else None),
      pinned = False, dirty_snapshot = None, leases = Map.empty,
      lease_counts = ContentLeaseCounts_default, active_cache_writes = 0,
      eviction_reserved = False\<rparr>"

type_synonym 'a entry_io = "(ContentStorageEntry, CloudFilesCoreError, 'a) io"

definition record_provider_range :: "ByteRange \<Rightarrow> bool entry_io" where
  "record_provider_range r self =
     (case provider_ranges self of
        None \<Rightarrow> (Inl (InvalidContentStorageState
                  ''platform-managed content has no provider cache ranges''), self)
      | Some ranges \<Rightarrow>
          (case ContentRangeSet_insert r (entry_total_size self) ranges of
             (res, ranges') \<Rightarrow> (res, self\<lparr>provider_ranges := Some ranges'\<rparr>)))"

definition observe_platform_materialization :: "PlatformMaterializationState \<Rightarrow> bool entry_io" where
  "observe_platform_materialization st self =
     (case platform_materialization self of
        None \<Rightarrow> (Inl (InvalidContentStorageState
                  ''provider-managed content has no platform materialization state''), self)
      | Some current \<Rightarrow>
          if current = st then (Inr False, self)
          else (Inr True, self\<lparr>platform_materialization := Some st\<rparr>))"

definition set_pinned :: "bool \<Rightarrow> bool entry_io" where
  "set_pinned p self =
     (if p \<and> eviction_reserved self
      then (Inl (InvalidContentStorageState ''content cannot become pinned during eviction''), self)
      else (Inr (pinned self \<noteq> p), self\<lparr>pinned := p\<rparr>))"

definition mark_dirty :: "LocalContentSnapshot \<Rightarrow> DirtyContentTransition entry_io" where
  "mark_dirty snapshot self =
     (if eviction_reserved self
      then (Inl (InvalidContentStorageState ''dirty content cannot start during eviction''), self)
      else if snap_item_key snapshot \<noteq> cache_item_key (entry_key self)
      then (Inl (InvalidContentStorageState
              ''dirty snapshot item does not match the content entry''), self)
      else case dirty_snapshot self of
        None \<Rightarrow> (Inr Applied, self\<lparr>dirty_snapshot := Some snapshot\<rparr>)
      | Some current \<Rightarrow>
          if current = snapshot then (Inr AlreadyApplied, self)
          else if snap_generation snapshot < snap_generation current then (Inr Fenced, self)
          else if snap_generation snapshot = snap_generation current
          then (Inl (InvalidContentStorageState
                  ''one local generation identifies different immutable snapshots''), self)
          else (Inr Applied, self\<lparr>dirty_snapshot := Some snapshot\<rparr>))"

definition clear_dirty :: "LocalContentGeneration \<Rightarrow> DirtyContentTransition entry_io" where
  "clear_dirty generation self =
     (case dirty_snapshot self of
        None \<Rightarrow> (Inr AlreadyApplied, self)
      | Some current \<Rightarrow>
          if generation < snap_generation current then (Inr Fenced, self)
          else if generation > snap_generation current
          then (Inl (InvalidContentStorageState ''dirty clear generation was never recorded''), self)
          else (Inr Applied, self\<lparr>dirty_snapshot := None\<rparr>))"

definition acquire_lease :: "ContentLeaseId \<Rightarrow> ContentLeaseKind \<Rightarrow> bool entry_io" where
  "acquire_lease lease_id kind self =
     (if eviction_reserved self
      then (Inl (InvalidContentStorageState ''content lease cannot start during eviction''), self)
      else case leases self lease_id of
        Some existing \<Rightarrow>
          if existing = kind then (Inr False, self)
          else (Inl (InvalidContentStorageState ''content lease id already has another kind''), self)
      | None \<Rightarrow>
          (case lease_increment kind (lease_counts self) of
             (Inl e, counts) \<Rightarrow> (Inl e, self\<lparr>lease_counts := counts\<rparr>)
           | (Inr _, counts) \<Rightarrow>
               (Inr True, self\<lparr>lease_counts := counts, leases := (leases self)(lease_id \<mapsto> kind)\<rparr>)))"

definition release_lease :: "ContentLeaseId \<Rightarrow> bool entry_io" where
  "release_lease lease_id self =
     (case leases self lease_id of
        None \<Rightarrow> (Inr False, self)
      | Some kind \<Rightarrow>
          (let self = self\<lparr>leases := (leases self)(lease_id := None)\<rparr> in
           case lease_decrement kind (lease_counts self) of
             (Inl e, counts) \<Rightarrow> (Inl e, self\<lparr>lease_counts := counts\<rparr>)
           | (Inr _, counts) \<Rightarrow> (Inr True, self\<lparr>lease_counts := counts\<rparr>)))"

definition begin_cache_write :: "unit entry_io" where
  "begin_cache_write self =
     (if provider_ranges self = None
      then (Inl (InvalidContentStorageState
              ''platform-managed content has no provider cache write target''), self)
      else if eviction_reserved self
      then (Inl (InvalidContentStorageState
              ''provider cache write cannot start during eviction''), self)
      else case checked_add (active_cache_writes self) 1 of
        None \<Rightarrow> (Inl (InvalidContentStorageState ''active cache write count overflowed''), self)
      | Some n \<Rightarrow> (Inr (), self\<lparr>active_cache_writes := n\<rparr>))"

definition complete_cache_write :: "unit entry_io" where
  "complete_cache_write self =
     (case checked_sub (active_cache_writes self) 1 of
        None \<Rightarrow> (Inl (InvalidContentStorageState
                  ''completed cache write has no active reservation''), self)
      | Some n \<Rightarrow> (Inr (), self\<lparr>active_cache_writes := n\<rparr>))"

definition eviction_blockers :: "ContentStorageEntry \<Rightarrow> ContentEvictionBlocker list" where
  "eviction_blockers self =
     (if pinned self then [Pinned] else [])
     @ (if dirty_snapshot self \<noteq> None then [Dirty] else [])
     @ (if count_open (lease_counts self) > 0 then [OpenLease] else [])
     @ (if count_read (lease_counts self) > 0 then [ReadLease] else [])
     @ (if count_write (lease_counts self) > 0 then [WriteLease] else [])
     @ (if count_hydration (lease_counts self) > 0 then [HydrationLease] else [])
     @ (if count_upload (lease_counts self) > 0 then [UploadLease] else [])
     @ (if count_verification (lease_counts self) > 0 then [VerificationLease] else [])
     @ (if active_cache_writes self > 0 then [CacheWriteInProgress] else [])
     @ (if eviction_reserved self then [EvictionInProgress] else [])"

definition reserve_eviction :: "ContentEvictionTarget \<Rightarrow> ContentEvictionDecision entry_io" where
  "reserve_eviction target self =
     (case ContentEvictionPlan_for_target (entry_mode self) target of
        Inl e \<Rightarrow> (Inl e, self)
      | Inr plan \<Rightarrow>
          (let blockers = eviction_blockers self in
           if blockers \<noteq> [] then (Inr (Blocked blockers), self)
           else (Inr (Reserved plan), self\<lparr>eviction_reserved := True\<rparr>)))"

definition reconcile_eviction :: "ContentEvictionPlan \<Rightarrow> unit entry_io" where
  "reconcile_eviction plan self =
     (if \<not> eviction_reserved self
      then (Inl (InvalidContentStorageState
              ''eviction metadata reconciliation requires a reservation''), self)
      else
        io_bind
          (\<lambda>self.
             if remove_provider_cache plan
             then (case provider_ranges self of
                     None \<Rightarrow> (Inl (InvalidContentStorageState
                               ''eviction plan removes an unowned provider cache''), self)
                   | Some ranges \<Rightarrow>
                       (Inr (), self\<lparr>provider_ranges := Some (ContentRangeSet_clear ranges)\<rparr>))
             else (Inr (), self))
          (\<lambda>_ self.
             if evict_platform_materialization plan
             then (case platform_materialization self of
                     None \<Rightarrow> (Inl (InvalidContentStorageState
                               ''eviction plan evicts an unowned platform materialization''), self)
                   | Some st \<Rightarrow> (Inr (), self\<lparr>platform_materialization := Some Dataless\<rparr>))
             else (Inr (), self))
          self)"

definition complete_eviction :: "unit entry_io" where
  "complete_eviction self =
     (if \<not> eviction_reserved self
      then (Inl (InvalidContentStorageState
              ''completed eviction has no active reservation''), self)
      else (Inr (), self\<lparr>eviction_reserved := False\<rparr>))"

section \<open>Operations as a transition system\<close>

text \<open>One constructor for every mutating method, to speak about arbitrary call sequences.\<close>

datatype entry_op =
    RecordProviderRange ByteRange
  | ObservePlatform PlatformMaterializationState
  | SetPinned bool
  | MarkDirty LocalContentSnapshot
  | ClearDirty LocalContentGeneration
  | AcquireLease ContentLeaseId ContentLeaseKind
  | ReleaseLease ContentLeaseId
  | BeginCacheWrite
  | CompleteCacheWrite
  | ReserveEviction ContentEvictionTarget
  | ReconcileEviction ContentEvictionPlan
  | CompleteEviction

definition discard_ok :: "'a entry_io \<Rightarrow> unit entry_io" where
  "discard_ok m self = (case m self of (Inl e, self') \<Rightarrow> (Inl e, self') | (Inr _, self') \<Rightarrow> (Inr (), self'))"

primrec entry_apply :: "entry_op \<Rightarrow> unit entry_io" where
  "entry_apply (RecordProviderRange r) = discard_ok (record_provider_range r)"
| "entry_apply (ObservePlatform st) = discard_ok (observe_platform_materialization st)"
| "entry_apply (SetPinned p) = discard_ok (set_pinned p)"
| "entry_apply (MarkDirty snapshot) = discard_ok (mark_dirty snapshot)"
| "entry_apply (ClearDirty generation) = discard_ok (clear_dirty generation)"
| "entry_apply (AcquireLease lease_id kind) = discard_ok (acquire_lease lease_id kind)"
| "entry_apply (ReleaseLease lease_id) = discard_ok (release_lease lease_id)"
| "entry_apply BeginCacheWrite = begin_cache_write"
| "entry_apply CompleteCacheWrite = complete_cache_write"
| "entry_apply (ReserveEviction target) = discard_ok (reserve_eviction target)"
| "entry_apply (ReconcileEviction plan) = reconcile_eviction plan"
| "entry_apply CompleteEviction = complete_eviction"

text \<open>
  The arguments a caller can construct: ranges come out of \<open>ByteRange::new\<close>. Plans may be any
  value here; \<open>owned_plan\<close> below is the condition that a plan was made for the entry's mode.
\<close>

primrec op_wf :: "entry_op \<Rightarrow> bool" where
  "op_wf (RecordProviderRange r) = range_wf r"
| "op_wf (ObservePlatform st) = True"
| "op_wf (SetPinned p) = True"
| "op_wf (MarkDirty snapshot) = True"
| "op_wf (ClearDirty generation) = True"
| "op_wf (AcquireLease lease_id kind) = True"
| "op_wf (ReleaseLease lease_id) = True"
| "op_wf BeginCacheWrite = True"
| "op_wf CompleteCacheWrite = True"
| "op_wf (ReserveEviction target) = True"
| "op_wf (ReconcileEviction plan) = True"
| "op_wf CompleteEviction = True"

inductive entry_reachable :: "ContentStorageEntry \<Rightarrow> bool" where
  created: "entry_reachable (ContentStorageEntry_new key mode total_size)"
| called: "entry_reachable e \<Longrightarrow> op_wf op \<Longrightarrow> entry_apply op e = (res, e') \<Longrightarrow> entry_reachable e'"

section \<open>Invariant\<close>

definition holders :: "ContentStorageEntry \<Rightarrow> ContentLeaseKind \<Rightarrow> ContentLeaseId set" where
  "holders e kind = {lease_id. leases e lease_id = Some kind}"

definition quiescent :: "ContentStorageEntry \<Rightarrow> bool" where
  "quiescent e \<longleftrightarrow>
     \<not> pinned e \<and> dirty_snapshot e = None \<and> leases e = Map.empty \<and> active_cache_writes e = 0"

definition entry_inv :: "ContentStorageEntry \<Rightarrow> bool" where
  "entry_inv e \<longleftrightarrow>
     (provider_ranges e \<noteq> None \<longleftrightarrow> entry_mode e \<in> {ProviderManaged, Hybrid}) \<and>
     (platform_materialization e \<noteq> None \<longleftrightarrow> entry_mode e \<in> {PlatformManaged, Hybrid}) \<and>
     (\<forall>ranges. provider_ranges e = Some ranges \<longrightarrow>
        range_set_inv ranges \<and> covered_bytes ranges \<subseteq> {..<unat (entry_total_size e)}) \<and>
     (\<forall>snapshot. dirty_snapshot e = Some snapshot \<longrightarrow>
        snap_item_key snapshot = cache_item_key (entry_key e)) \<and>
     finite (dom (leases e)) \<and>
     (\<forall>kind. unat (lease_value (lease_counts e) kind) = card (holders e kind)) \<and>
     (eviction_reserved e \<longrightarrow> quiescent e)"

lemma discard_ok_snd [simp]: "snd (discard_ok m e) = snd (m e)"
  by (simp add: discard_ok_def split: prod.splits sum.splits)

lemma discard_ok_is_ok [simp]: "is_ok (fst (discard_ok m e)) = is_ok (fst (m e))"
  by (simp add: discard_ok_def split: prod.splits sum.splits)

lemma discard_ok_eq: "discard_ok m e = (res, e') \<Longrightarrow> snd (m e) = e'"
  by (metis discard_ok_snd snd_conv)

lemma lease_value_set_get [simp]:
  "lease_value (lease_value_set c k v) k' = (if k' = k then v else lease_value c k')"
  by (cases k; cases k') simp_all

lemma lease_value_default [simp]: "lease_value ContentLeaseCounts_default kind = 0"
  by (cases kind) (simp_all add: ContentLeaseCounts_default_def)

lemma finite_holders: "finite (dom (leases e)) \<Longrightarrow> finite (holders e kind)"
  by (rule finite_subset [of _ "dom (leases e)"]) (auto simp: holders_def)

lemma entry_inv_ranges:
  assumes "entry_inv e" "provider_ranges e = Some ranges"
  shows "range_set_inv ranges" "covered_bytes ranges \<subseteq> {..<unat (entry_total_size e)}"
  using assms by (simp_all add: entry_inv_def)

lemma entry_inv_counts:
  assumes "entry_inv e"
  shows "unat (lease_value (lease_counts e) kind) = card (holders e kind)"
    and "finite (holders e kind)"
  using assms finite_holders by (simp_all add: entry_inv_def)

text \<open>No lease is recorded exactly when every counter is zero.\<close>

lemma lease_counts_zero:
  assumes "entry_inv e"
  shows "(\<forall>kind. lease_value (lease_counts e) kind = 0) \<longleftrightarrow> leases e = Map.empty"
proof
  assume zero: "\<forall>kind. lease_value (lease_counts e) kind = 0"
  have "holders e kind = {}" for kind
    using entry_inv_counts [OF assms, of kind] zero by simp
  then have "leases e i = None" for i
    unfolding holders_def by (cases "leases e i") auto
  then show "leases e = Map.empty" by blast
next
  assume "leases e = Map.empty"
  then have "holders e kind = {}" for kind by (simp add: holders_def)
  then show "\<forall>kind. lease_value (lease_counts e) kind = 0"
    using entry_inv_counts [OF assms] by (metis card.empty unat_eq_0)
qed

lemma all_lease_kinds:
  "(\<forall>kind. P kind) \<longleftrightarrow> P Open \<and> P Read \<and> P Write \<and> P Hydration \<and> P Upload \<and> P Verification"
  by (metis ContentLeaseKind.exhaust)

lemma no_blockers_iff:
  "eviction_blockers e = [] \<longleftrightarrow>
     \<not> pinned e \<and> dirty_snapshot e = None \<and> (\<forall>kind. lease_value (lease_counts e) kind = 0) \<and>
     active_cache_writes e = 0 \<and> \<not> eviction_reserved e"
  by (simp add: eviction_blockers_def all_lease_kinds word_greater_zero_iff)

lemma no_blockers_quiescent:
  assumes "entry_inv e"
  shows "eviction_blockers e = [] \<longleftrightarrow> quiescent e \<and> \<not> eviction_reserved e"
  using lease_counts_zero [OF assms] by (auto simp: no_blockers_iff quiescent_def)

subsection \<open>Every operation keeps the invariant\<close>

named_theorems entry_keeps \<open>operations that keep the entry invariant\<close>

lemma new_entry_inv: "entry_inv (ContentStorageEntry_new key mode total_size)"
  by (cases mode) (auto simp: entry_inv_def ContentStorageEntry_new_def new_inv new_bytes holders_def)

lemma record_provider_range_inv [entry_keeps]:
  assumes "entry_inv e" "range_wf r"
  shows "entry_inv (snd (record_provider_range r e))"
proof (cases "provider_ranges e")
  case None
  with assms show ?thesis by (simp add: record_provider_range_def)
next
  case (Some ranges)
  obtain res ranges' where ins: "ContentRangeSet_insert r (entry_total_size e) ranges = (res, ranges')"
    by fastforce
  have "range_set_inv ranges'"
    using ins entry_inv_ranges(1) [OF assms(1) Some] assms(2) insert_eq_Inr(1) insert_eq_Inl
    by (cases res) (auto, metis)
  moreover have "covered_bytes ranges' \<subseteq> {..<unat (entry_total_size e)}"
    using range_coverage.ins_within_size [OF _ _ _ ins] entry_inv_ranges [OF assms(1) Some] assms(2)
    by blast
  ultimately show ?thesis
    using assms(1) Some ins
    by (auto simp: record_provider_range_def entry_inv_def holders_def quiescent_def)
qed

lemma observe_platform_inv [entry_keeps]:
  "entry_inv e \<Longrightarrow> entry_inv (snd (observe_platform_materialization st e))"
  by (auto simp: observe_platform_materialization_def entry_inv_def holders_def quiescent_def
      split: option.splits)

lemma set_pinned_inv [entry_keeps]: "entry_inv e \<Longrightarrow> entry_inv (snd (set_pinned p e))"
  by (auto simp: set_pinned_def entry_inv_def holders_def quiescent_def)

lemma set_dirty_inv:
  assumes "entry_inv e" "eviction_reserved e \<longrightarrow> s = None"
    and "\<forall>snapshot. s = Some snapshot \<longrightarrow> snap_item_key snapshot = cache_item_key (entry_key e)"
  shows "entry_inv (e\<lparr>dirty_snapshot := s\<rparr>)"
  using assms by (simp add: entry_inv_def holders_def quiescent_def)

lemma mark_dirty_inv [entry_keeps]: "entry_inv e \<Longrightarrow> entry_inv (snd (mark_dirty snapshot e))"
  by (simp add: mark_dirty_def set_dirty_inv split: option.split)

lemma clear_dirty_inv [entry_keeps]: "entry_inv e \<Longrightarrow> entry_inv (snd (clear_dirty generation e))"
  by (simp add: clear_dirty_def set_dirty_inv split: option.split)

lemma acquire_lease_inv [entry_keeps]:
  assumes inv: "entry_inv e"
  shows "entry_inv (snd (acquire_lease lease_id kind e))"
proof (cases "\<not> eviction_reserved e \<and> leases e lease_id = None
    \<and> unat (lease_value (lease_counts e) kind) + 1 < 2 ^ 32")
  case False
  with inv show ?thesis
    by (auto simp: acquire_lease_def lease_increment_def checked_add_def split: option.splits)
next
  case True
  let ?e = "e\<lparr>lease_counts := lease_value_set (lease_counts e) kind (lease_value (lease_counts e) kind + 1),
      leases := (leases e)(lease_id \<mapsto> kind)\<rparr>"
  have "snd (acquire_lease lease_id kind e) = ?e"
    using True by (simp add: acquire_lease_def lease_increment_def checked_add_def)
  moreover have "unat (lease_value (lease_counts ?e) k) = card (holders ?e k)" for k
  proof -
    have "holders ?e k = (if k = kind then insert lease_id (holders e k) else holders e k)"
      using True by (auto simp: holders_def)
    moreover have "lease_id \<notin> holders e k" using True by (simp add: holders_def)
    ultimately show ?thesis
      using entry_inv_counts [OF inv, of k] True by (cases "k = kind") (simp_all add: unat_add_exact)
  qed
  ultimately show ?thesis
    using inv True by (simp add: entry_inv_def)
qed

lemma release_lease_inv [entry_keeps]:
  assumes inv: "entry_inv e"
  shows "entry_inv (snd (release_lease lease_id e))" and "is_ok (fst (release_lease lease_id e))"
proof -
  have "entry_inv (snd (release_lease lease_id e)) \<and> is_ok (fst (release_lease lease_id e))"
  proof (cases "leases e lease_id")
    case None
    with inv show ?thesis by (simp add: release_lease_def)
  next
    case (Some kind)
    let ?e = "e\<lparr>leases := (leases e)(lease_id := None),
        lease_counts := lease_value_set (lease_counts e) kind (lease_value (lease_counts e) kind - 1)\<rparr>"
    have mem: "lease_id \<in> holders e kind" using Some by (simp add: holders_def)
    then have pos: "1 \<le> unat (lease_value (lease_counts e) kind)"
      using entry_inv_counts [OF inv, of kind] by (metis One_nat_def Suc_leI card_gt_0_iff empty_iff)
    then have le: "1 \<le> lease_value (lease_counts e) kind" by (simp add: word_le_nat_alt)
    then have "release_lease lease_id e = (Inr True, ?e)"
      using Some by (simp add: release_lease_def lease_decrement_def checked_sub_def)
    moreover have "unat (lease_value (lease_counts ?e) k) = card (holders ?e k)" for k
    proof -
      have "holders ?e k = (if k = kind then holders e k - {lease_id} else holders e k)"
        using Some by (auto simp: holders_def)
      then show ?thesis
        using entry_inv_counts [OF inv, of k] mem le by (cases "k = kind") (simp_all add: unat_sub)
    qed
    moreover have "quiescent ?e" if "eviction_reserved e"
      using that inv Some by (simp add: entry_inv_def quiescent_def)
    ultimately show ?thesis using inv by (simp add: entry_inv_def)
  qed
  then show "entry_inv (snd (release_lease lease_id e))" and "is_ok (fst (release_lease lease_id e))"
    by simp_all
qed

lemma begin_cache_write_inv [entry_keeps]: "entry_inv e \<Longrightarrow> entry_inv (snd (begin_cache_write e))"
  by (auto simp: begin_cache_write_def entry_inv_def holders_def split: option.splits)

lemma complete_cache_write_inv [entry_keeps]:
  "entry_inv e \<Longrightarrow> entry_inv (snd (complete_cache_write e))"
  by (auto simp: complete_cache_write_def checked_sub_def entry_inv_def holders_def quiescent_def)

lemma reserve_eviction_inv [entry_keeps]:
  assumes "entry_inv e"
  shows "entry_inv (snd (reserve_eviction target e))"
proof -
  have "quiescent e" if "eviction_blockers e = []"
    using that no_blockers_quiescent [OF assms] by blast
  then show ?thesis
    using assms
    by (auto simp: reserve_eviction_def Let_def entry_inv_def holders_def quiescent_def
        split: sum.splits)
qed

lemma reconcile_eviction_inv [entry_keeps]:
  "entry_inv e \<Longrightarrow> entry_inv (snd (reconcile_eviction plan e))"
  by (auto simp: reconcile_eviction_def io_bind_def entry_inv_def holders_def quiescent_def
      range_coverage.clear_inv range_coverage.clear_bytes split: option.splits)

lemma complete_eviction_inv [entry_keeps]: "entry_inv e \<Longrightarrow> entry_inv (snd (complete_eviction e))"
  by (auto simp: complete_eviction_def entry_inv_def holders_def)

lemma entry_apply_inv:
  assumes "entry_inv e" "op_wf op"
  shows "entry_inv (snd (entry_apply op e))"
  using assms by (cases op) (auto intro: entry_keeps)

lemma reachable_entry_inv: "entry_reachable e \<Longrightarrow> entry_inv e"
proof (induction rule: entry_reachable.induct)
  case (created key mode total_size)
  show ?case by (rule new_entry_inv)
next
  case (called e op res e')
  then show ?case using entry_apply_inv by (metis snd_conv)
qed

subsection \<open>Failed calls\<close>

text \<open>
  A plan is owned by an entry when it was made for the entry's storage mode. Under the
  invariant, a call that fails leaves the entry as it was; \<open>reconcile_eviction\<close> needs the
  plan to be owned, because it clears the provider ranges before it looks at the platform
  state.
\<close>

definition owned_plan :: "ContentStorageEntry \<Rightarrow> ContentEvictionPlan \<Rightarrow> bool" where
  "owned_plan e plan \<longleftrightarrow> (\<exists>target. ContentEvictionPlan_for_target (entry_mode e) target = Inr plan)"

fun op_owned :: "ContentStorageEntry \<Rightarrow> entry_op \<Rightarrow> bool" where
  "op_owned e (ReconcileEviction plan) = owned_plan e plan"
| "op_owned e op = True"

lemma plan_for_target_owned:
  assumes "ContentEvictionPlan_for_target mode target = Inr plan"
  shows "remove_provider_cache plan \<longrightarrow> mode \<in> {ProviderManaged, Hybrid}"
    and "evict_platform_materialization plan \<longrightarrow> mode \<in> {PlatformManaged, Hybrid}"
    and "remove_provider_cache plan \<or> evict_platform_materialization plan"
    and "invalidate_platform_content plan = remove_provider_cache plan"
  using assms by (cases mode; cases target; auto)+

lemma reconcile_owned:
  assumes "entry_inv e" "owned_plan e plan" "eviction_reserved e"
  shows "\<exists>e'. reconcile_eviction plan e = (Inr (), e') \<and> eviction_reserved e' \<and>
    (remove_provider_cache plan \<longrightarrow> (\<exists>ranges. provider_ranges e' = Some ranges \<and> covered_bytes ranges = {})) \<and>
    (evict_platform_materialization plan \<longrightarrow> platform_materialization e' = Some Dataless)"
proof -
  from assms(2) obtain target where t: "ContentEvictionPlan_for_target (entry_mode e) target = Inr plan"
    by (auto simp: owned_plan_def)
  have "provider_ranges e \<noteq> None" if "remove_provider_cache plan"
    using that plan_for_target_owned(1) [OF t] assms(1) by (simp add: entry_inv_def)
  moreover have "platform_materialization e \<noteq> None" if "evict_platform_materialization plan"
    using that plan_for_target_owned(2) [OF t] assms(1) by (simp add: entry_inv_def)
  ultimately show ?thesis
    using assms(3)
    by (auto simp: reconcile_eviction_def io_bind_def range_coverage.clear_bytes split: option.splits)
qed

lemma failed_call_unchanged:
  assumes inv: "entry_inv e" and owned: "op_owned e op" and res: "entry_apply op e = (Inl err, e')"
  shows "e' = e"
proof (cases op)
  case (ReleaseLease lease_id)
  then show ?thesis
    using res release_lease_inv(2) [OF inv, of lease_id] discard_ok_is_ok [of "release_lease lease_id" e]
    by simp
next
  case (ReconcileEviction plan)
  then have "\<not> eviction_reserved e"
    using res owned reconcile_owned [OF inv, of plan] by auto
  then show ?thesis using res ReconcileEviction by (simp add: reconcile_eviction_def)
next
  case (RecordProviderRange r)
  then show ?thesis
    using res
    by (auto simp: discard_ok_def record_provider_range_def dest!: insert_eq_Inl
        split: option.splits prod.splits sum.splits)
qed (use res in \<open>auto simp: discard_ok_def observe_platform_materialization_def set_pinned_def
    mark_dirty_def clear_dirty_def acquire_lease_def lease_increment_def begin_cache_write_def
    complete_cache_write_def reserve_eviction_def complete_eviction_def Let_def
    split: option.splits sum.splits prod.splits if_splits\<close>)

end
