(* ===== verification/Journal_Records.thy ===== *)
theory Journal_Records
  imports Content_Entry
begin

text \<open>
  The durable records that drive content effects to completion: the eviction journal record
  (\<open>ContentEvictionRecord\<close> in \<open>content_storage.rs\<close>) and the provider-cache write record
  (\<open>cache_write.rs\<close>). Both are forward-only state machines whose transitions may be replayed
  after a crash; the locale \<open>journal_record\<close> is that contract, proved once and interpreted on
  each record type (the mutation and the upload record interpret it in their own theories).
\<close>

section \<open>Eviction records\<close>

datatype ContentEvictionOperationId = ContentEvictionOperationId (eviction_id_str: string)

definition ContentEvictionOperationId_new :: "string \<Rightarrow> ContentEvictionOperationId core_result" where
  "ContentEvictionOperationId_new =
     opaque_new ''content eviction operation id'' ContentEvictionOperationId"

record ContentEvictionIntent =
  ev_operation_id :: ContentEvictionOperationId
  ev_cache_key :: ContentCacheKey
  ev_target :: ContentEvictionTarget
  ev_session_generation :: SessionGeneration

datatype ContentEvictionPhysicalEffect =
    ProviderCacheRemoved
  | PlatformMaterializationEvicted
  | PlatformContentInvalidated

datatype ContentEvictionState =
    IntentPersisted
  | PhysicalEffectsApplied
  | MetadataReconciled
  | Completed

text \<open>The three transition result enums of the sources have the same two constructors.\<close>

datatype RecordTransition = Applied | AlreadyApplied

record ContentEvictionRecord =
  ev_intent :: ContentEvictionIntent
  ev_plan :: ContentEvictionPlan
  ev_state :: ContentEvictionState
  ev_provider_cache_removed :: bool
  ev_platform_materialization_evicted :: bool
  ev_platform_content_invalidated :: bool

type_synonym eviction_io = "(ContentEvictionRecord, CloudFilesCoreError, RecordTransition) io"

definition ContentEvictionRecord_persist ::
  "ContentEvictionIntent \<Rightarrow> ContentEvictionPlan \<Rightarrow> ContentEvictionRecord" where
  "ContentEvictionRecord_persist intent plan =
     \<lparr>ev_intent = intent, ev_plan = plan, ev_state = ContentEvictionState.IntentPersisted,
      ev_provider_cache_removed = False, ev_platform_materialization_evicted = False,
      ev_platform_content_invalidated = False\<rparr>"

primrec has_observed_effect :: "ContentEvictionRecord \<Rightarrow> ContentEvictionPhysicalEffect \<Rightarrow> bool" where
  "has_observed_effect self ProviderCacheRemoved = ev_provider_cache_removed self"
| "has_observed_effect self PlatformMaterializationEvicted = ev_platform_materialization_evicted self"
| "has_observed_effect self PlatformContentInvalidated = ev_platform_content_invalidated self"

text \<open>The two \<open>match effect\<close> of \<open>record_physical_effect\<close>: the plan's flag and the observed flag.\<close>

primrec effect_required :: "ContentEvictionPlan \<Rightarrow> ContentEvictionPhysicalEffect \<Rightarrow> bool" where
  "effect_required plan ProviderCacheRemoved = remove_provider_cache plan"
| "effect_required plan PlatformMaterializationEvicted = evict_platform_materialization plan"
| "effect_required plan PlatformContentInvalidated = invalidate_platform_content plan"

primrec set_observed_effect ::
  "ContentEvictionPhysicalEffect \<Rightarrow> ContentEvictionRecord \<Rightarrow> ContentEvictionRecord" where
  "set_observed_effect ProviderCacheRemoved self = self\<lparr>ev_provider_cache_removed := True\<rparr>"
| "set_observed_effect PlatformMaterializationEvicted self =
     self\<lparr>ev_platform_materialization_evicted := True\<rparr>"
| "set_observed_effect PlatformContentInvalidated self =
     self\<lparr>ev_platform_content_invalidated := True\<rparr>"

definition all_required_effects_observed :: "ContentEvictionRecord \<Rightarrow> bool" where
  "all_required_effects_observed self \<longleftrightarrow>
     (\<not> remove_provider_cache (ev_plan self) \<or> ev_provider_cache_removed self) \<and>
     (\<not> evict_platform_materialization (ev_plan self) \<or> ev_platform_materialization_evicted self) \<and>
     (\<not> invalidate_platform_content (ev_plan self) \<or> ev_platform_content_invalidated self)"

definition record_physical_effect :: "ContentEvictionPhysicalEffect \<Rightarrow> eviction_io" where
  "record_physical_effect effect self =
     (if \<not> effect_required (ev_plan self) effect
      then (Inl (InvalidContentEvictionTransition
              ''physical effect is not required by the eviction plan''), self)
      else if has_observed_effect self effect then (Inr AlreadyApplied, self)
      else if \<not> (ev_state self = ContentEvictionState.IntentPersisted
                 \<or> ev_state self = PhysicalEffectsApplied)
      then (Inl (InvalidContentEvictionTransition
              ''physical effect must precede metadata reconciliation''), self)
      else
        (let self = set_observed_effect effect self in
         (Inr Applied,
          if all_required_effects_observed self
          then self\<lparr>ev_state := PhysicalEffectsApplied\<rparr> else self)))"

definition mark_metadata_reconciled :: eviction_io where
  "mark_metadata_reconciled self =
     (case ev_state self of
        PhysicalEffectsApplied \<Rightarrow> (Inr Applied, self\<lparr>ev_state := MetadataReconciled\<rparr>)
      | MetadataReconciled \<Rightarrow> (Inr AlreadyApplied, self)
      | ContentEvictionState.Completed \<Rightarrow> (Inr AlreadyApplied, self)
      | ContentEvictionState.IntentPersisted \<Rightarrow>
          (Inl (InvalidContentEvictionTransition
             ''metadata reconciliation requires all physical effects''), self))"

definition ContentEvictionRecord_complete :: eviction_io where
  "ContentEvictionRecord_complete self =
     (case ev_state self of
        MetadataReconciled \<Rightarrow> (Inr Applied, self\<lparr>ev_state := ContentEvictionState.Completed\<rparr>)
      | ContentEvictionState.Completed \<Rightarrow> (Inr AlreadyApplied, self)
      | _ \<Rightarrow>
          (Inl (InvalidContentEvictionTransition
             ''eviction completion requires metadata reconciliation''), self))"

section \<open>Cache write records\<close>

datatype ContentCacheWriteOperationId = ContentCacheWriteOperationId (cache_write_id_str: string)

definition ContentCacheWriteOperationId_new :: "string \<Rightarrow> ContentCacheWriteOperationId core_result" where
  "ContentCacheWriteOperationId_new =
     opaque_new ''content cache write operation id'' ContentCacheWriteOperationId"

datatype ContentCacheWriteExtent = Whole | Range ByteRange

record ContentCacheWriteIntent =
  cw_operation_id :: ContentCacheWriteOperationId
  cw_cache_key :: ContentCacheKey
  cw_expected_size :: u64
  cw_extent :: ContentCacheWriteExtent
  cw_session_generation :: SessionGeneration

definition ContentCacheWriteIntent_new ::
  "ContentCacheWriteOperationId \<Rightarrow> ContentCacheKey \<Rightarrow> u64 \<Rightarrow> ContentCacheWriteExtent
   \<Rightarrow> SessionGeneration \<Rightarrow> ContentCacheWriteIntent core_result" where
  "ContentCacheWriteIntent_new operation_id cache_key expected_size extent session_generation =
     (case extent of
        ContentCacheWriteExtent.Range r \<Rightarrow>
          if end_exclusive r > expected_size
          then Inl (InvalidContentCacheWriteTransition
                 ''cache write range exceeds the expected content size'')
          else Inr \<lparr>cw_operation_id = operation_id, cw_cache_key = cache_key,
                    cw_expected_size = expected_size, cw_extent = extent,
                    cw_session_generation = session_generation\<rparr>
      | ContentCacheWriteExtent.Whole \<Rightarrow>
          Inr \<lparr>cw_operation_id = operation_id, cw_cache_key = cache_key,
               cw_expected_size = expected_size, cw_extent = extent,
               cw_session_generation = session_generation\<rparr>)"

datatype ContentCacheWriteState =
    IntentPersisted
  | PhysicalBytesCommitted
  | CoverageCommitted
  | Completed

record ContentCacheWriteRecord =
  cw_intent :: ContentCacheWriteIntent
  cw_state :: ContentCacheWriteState

type_synonym cache_write_io = "(ContentCacheWriteRecord, CloudFilesCoreError, RecordTransition) io"

definition ContentCacheWriteRecord_persist :: "ContentCacheWriteIntent \<Rightarrow> ContentCacheWriteRecord" where
  "ContentCacheWriteRecord_persist intent =
     \<lparr>cw_intent = intent, cw_state = ContentCacheWriteState.IntentPersisted\<rparr>"

definition mark_physical_bytes_committed :: cache_write_io where
  "mark_physical_bytes_committed self =
     (case cw_state self of
        ContentCacheWriteState.IntentPersisted \<Rightarrow>
          (Inr Applied, self\<lparr>cw_state := PhysicalBytesCommitted\<rparr>)
      | _ \<Rightarrow> (Inr AlreadyApplied, self))"

definition mark_coverage_committed :: cache_write_io where
  "mark_coverage_committed self =
     (case cw_state self of
        PhysicalBytesCommitted \<Rightarrow> (Inr Applied, self\<lparr>cw_state := CoverageCommitted\<rparr>)
      | CoverageCommitted \<Rightarrow> (Inr AlreadyApplied, self)
      | ContentCacheWriteState.Completed \<Rightarrow> (Inr AlreadyApplied, self)
      | ContentCacheWriteState.IntentPersisted \<Rightarrow>
          (Inl (InvalidContentCacheWriteTransition
             ''coverage commit requires observable physical bytes''), self))"

definition ContentCacheWriteRecord_complete :: cache_write_io where
  "ContentCacheWriteRecord_complete self =
     (case cw_state self of
        CoverageCommitted \<Rightarrow> (Inr Applied, self\<lparr>cw_state := ContentCacheWriteState.Completed\<rparr>)
      | ContentCacheWriteState.Completed \<Rightarrow> (Inr AlreadyApplied, self)
      | _ \<Rightarrow>
          (Inl (InvalidContentCacheWriteTransition
             ''cache write completion requires committed coverage''), self))"

section \<open>The contract of a replayable record\<close>

text \<open>
  \<open>apply_op\<close> is one transition method, \<open>rank\<close> its progress and \<open>good\<close> the record
  invariant. A transition that was applied is reported as already applied when it is replayed;
  nothing moves backwards; a refused transition changes nothing.
\<close>

locale journal_record =
  fixes apply_op :: "'op \<Rightarrow> ('r, 'e, RecordTransition) io"
    and good :: "'r \<Rightarrow> bool"
    and rank :: "'r \<Rightarrow> nat"
    and ident :: "'r \<Rightarrow> 'i"
  assumes refused_keeps: "good r \<Longrightarrow> apply_op op r = (Inl e, r') \<Longrightarrow> r' = r"
    and replayed_keeps: "good r \<Longrightarrow> apply_op op r = (Inr AlreadyApplied, r') \<Longrightarrow> r' = r"
    and applied_advances: "good r \<Longrightarrow> apply_op op r = (Inr Applied, r') \<Longrightarrow> rank r < rank r'"
    and applied_good: "good r \<Longrightarrow> apply_op op r = (Inr Applied, r') \<Longrightarrow> good r'"
    and applied_ident: "good r \<Longrightarrow> apply_op op r = (Inr Applied, r') \<Longrightarrow> ident r' = ident r"
    and applied_replays:
      "good r \<Longrightarrow> apply_op op r = (Inr Applied, r') \<Longrightarrow> fst (apply_op op r') = Inr AlreadyApplied"
begin

text \<open>A call sequence, failing calls included; what a crash-restart replays is such a sequence.\<close>

primrec run :: "'op list \<Rightarrow> 'r \<Rightarrow> 'r" where
  "run [] r = r"
| "run (op # ops) r = run ops (snd (apply_op op r))"

lemma step_cases:
  assumes "good r"
  obtains "snd (apply_op op r) = r" "fst (apply_op op r) \<noteq> Inr Applied"
  | r' where "apply_op op r = (Inr Applied, r')" "good r'" "rank r < rank r'" "ident r' = ident r"
proof (cases "apply_op op r")
  case (Pair res r')
  consider e where "res = Inl e" | "res = Inr AlreadyApplied" | "res = Inr Applied"
    by (metis RecordTransition.exhaust sum.exhaust)
  then show ?thesis
    using that Pair assms refused_keeps replayed_keeps applied_good applied_advances applied_ident
    by cases fastforce+
qed

lemma step_good: "good r \<Longrightarrow> good (snd (apply_op op r))"
  by (rule step_cases [of r op]) auto

lemma run_good: "good r \<Longrightarrow> good (run ops r)"
  by (induction ops arbitrary: r) (simp_all add: step_good)

lemma step_rank: "good r \<Longrightarrow> rank r \<le> rank (snd (apply_op op r))"
  by (rule step_cases [of r op]) auto

lemma run_rank: "good r \<Longrightarrow> rank r \<le> rank (run ops r)"
proof (induction ops arbitrary: r)
  case (Cons op ops)
  then have "rank (snd (apply_op op r)) \<le> rank (run ops (snd (apply_op op r)))"
    using step_good by blast
  then show ?case using step_rank [OF Cons.prems, of op] by simp
qed simp

lemma step_ident: "good r \<Longrightarrow> ident (snd (apply_op op r)) = ident r"
  by (rule step_cases [of r op]) auto

lemma run_ident: "good r \<Longrightarrow> ident (run ops r) = ident r"
  by (induction ops arbitrary: r) (simp_all add: step_ident step_good)

lemma step_idempotent:
  assumes "good r" and "apply_op op r = (Inr t, r')"
  shows "apply_op op r' = (Inr AlreadyApplied, r')"
proof (cases t)
  case Applied
  with assms have "fst (apply_op op r') = Inr AlreadyApplied" "good r'"
    using applied_replays applied_good by blast+
  then show ?thesis using replayed_keeps by (metis prod.collapse)
next
  case AlreadyApplied
  then show ?thesis using assms replayed_keeps by metis
qed

text \<open>Only as many transitions as the rank can grow are ever applied.\<close>

primrec applied_count :: "'op list \<Rightarrow> 'r \<Rightarrow> nat" where
  "applied_count [] r = 0"
| "applied_count (op # ops) r =
     (if fst (apply_op op r) = Inr Applied then 1 else 0) + applied_count ops (snd (apply_op op r))"

lemma applied_count_bound: "good r \<Longrightarrow> applied_count ops r + rank r \<le> rank (run ops r)"
proof (induction ops arbitrary: r)
  case (Cons op ops)
  have "applied_count ops (snd (apply_op op r)) + rank (snd (apply_op op r))
      \<le> rank (run ops (snd (apply_op op r)))"
    using Cons step_good by blast
  then show ?case using Cons.prems by (rule_tac step_cases [OF Cons.prems, of op]) auto
qed simp

end

subsection \<open>Eviction records keep the contract\<close>

datatype eviction_op =
    RecordPhysicalEffect ContentEvictionPhysicalEffect
  | MarkMetadataReconciled
  | CompleteEvictionRecord

primrec eviction_apply :: "eviction_op \<Rightarrow> eviction_io" where
  "eviction_apply (RecordPhysicalEffect effect) = record_physical_effect effect"
| "eviction_apply MarkMetadataReconciled = mark_metadata_reconciled"
| "eviction_apply CompleteEvictionRecord = ContentEvictionRecord_complete"

text \<open>The record invariant: past the intent, every required effect has been observed.\<close>

definition eviction_good :: "ContentEvictionRecord \<Rightarrow> bool" where
  "eviction_good r \<longleftrightarrow>
     (ev_state r \<noteq> ContentEvictionState.IntentPersisted \<longrightarrow>
        (\<forall>effect. effect_required (ev_plan r) effect \<longrightarrow> has_observed_effect r effect)) \<and>
     (\<forall>effect. has_observed_effect r effect \<longrightarrow> effect_required (ev_plan r) effect)"

primrec eviction_state_rank :: "ContentEvictionState \<Rightarrow> nat" where
  "eviction_state_rank ContentEvictionState.IntentPersisted = 0"
| "eviction_state_rank PhysicalEffectsApplied = 1"
| "eviction_state_rank MetadataReconciled = 2"
| "eviction_state_rank ContentEvictionState.Completed = 3"

definition eviction_rank :: "ContentEvictionRecord \<Rightarrow> nat" where
  "eviction_rank r = eviction_state_rank (ev_state r) + of_bool (ev_provider_cache_removed r)
     + of_bool (ev_platform_materialization_evicted r) + of_bool (ev_platform_content_invalidated r)"

definition eviction_ident :: "ContentEvictionRecord \<Rightarrow> ContentEvictionIntent \<times> ContentEvictionPlan" where
  "eviction_ident r = (ev_intent r, ev_plan r)"

lemma all_effects:
  "(\<forall>effect. P effect) \<longleftrightarrow>
     P ProviderCacheRemoved \<and> P PlatformMaterializationEvicted \<and> P PlatformContentInvalidated"
  by (metis ContentEvictionPhysicalEffect.exhaust)

lemma all_required_effects_observed_iff:
  "all_required_effects_observed r \<longleftrightarrow>
     (\<forall>effect. effect_required (ev_plan r) effect \<longrightarrow> has_observed_effect r effect)"
  by (auto simp: all_required_effects_observed_def all_effects)

lemma set_observed_effect_keeps [simp]:
  "ev_plan (set_observed_effect effect r) = ev_plan r"
  "ev_intent (set_observed_effect effect r) = ev_intent r"
  "ev_state (set_observed_effect effect r) = ev_state r"
  by (cases effect; simp)+

lemma has_observed_effect_set [simp]:
  "has_observed_effect (set_observed_effect effect r) effect' \<longleftrightarrow>
     effect' = effect \<or> has_observed_effect r effect'"
  by (cases effect; cases effect') simp_all

lemma has_observed_effect_state [simp]:
  "has_observed_effect (r\<lparr>ev_state := st\<rparr>) effect = has_observed_effect r effect"
  by (cases effect) simp_all

lemma record_physical_effect_applied:
  assumes "record_physical_effect effect r = (Inr Applied, r')"
  shows "effect_required (ev_plan r) effect" and "\<not> has_observed_effect r effect"
    and "ev_state r = ContentEvictionState.IntentPersisted \<or> ev_state r = PhysicalEffectsApplied"
    and "r' = (if all_required_effects_observed (set_observed_effect effect r)
               then (set_observed_effect effect r)\<lparr>ev_state := PhysicalEffectsApplied\<rparr>
               else set_observed_effect effect r)"
  using assms by (auto simp: record_physical_effect_def Let_def split: if_splits)

lemma record_physical_effect_good:
  assumes "eviction_good r" and ap: "record_physical_effect effect r = (Inr Applied, r')"
  shows "eviction_good r'" and "eviction_rank r < eviction_rank r'"
    and "eviction_ident r' = eviction_ident r"
proof -
  note a = record_physical_effect_applied [OF ap]
  have st: "ev_state r = ContentEvictionState.IntentPersisted"
    using a(1-3) assms(1) by (auto simp: eviction_good_def)
  show "eviction_good r'"
    using assms(1) a(1) st
    by (auto simp: a(4) eviction_good_def all_required_effects_observed_iff)
  show "eviction_ident r' = eviction_ident r"
    by (simp add: a(4) eviction_ident_def)
  show "eviction_rank r < eviction_rank r'"
    using a(2) st by (cases effect) (simp_all add: a(4) eviction_rank_def)
qed

text \<open>The two other transitions only move the state.\<close>

definition eviction_moves :: "eviction_op \<Rightarrow> ContentEvictionRecord \<Rightarrow> ContentEvictionRecord \<Rightarrow> bool" where
  "eviction_moves op r r' \<longleftrightarrow>
     op = MarkMetadataReconciled \<and> ev_state r = PhysicalEffectsApplied
       \<and> r' = r\<lparr>ev_state := MetadataReconciled\<rparr>
     \<or> op = CompleteEvictionRecord \<and> ev_state r = MetadataReconciled
       \<and> r' = r\<lparr>ev_state := ContentEvictionState.Completed\<rparr>"

lemma eviction_apply_applied:
  assumes "eviction_apply op r = (Inr Applied, r')"
  obtains effect where "op = RecordPhysicalEffect effect" "record_physical_effect effect r = (Inr Applied, r')"
  | "eviction_moves op r r'"
proof (cases op)
  case (RecordPhysicalEffect effect)
  with assms show thesis by (intro that(1)) simp_all
next
  case MarkMetadataReconciled
  with assms show thesis
    by (intro that(2)) (cases "ev_state r"; simp add: mark_metadata_reconciled_def eviction_moves_def)
next
  case CompleteEvictionRecord
  with assms show thesis
    by (intro that(2)) (cases "ev_state r"; simp add: ContentEvictionRecord_complete_def eviction_moves_def)
qed

lemma eviction_apply_not_applied:
  assumes "fst (eviction_apply op r) \<noteq> Inr Applied"
  shows "snd (eviction_apply op r) = r"
  using assms
proof (cases op)
  case (RecordPhysicalEffect effect)
  then show ?thesis using assms by (simp add: record_physical_effect_def Let_def split: if_splits)
next
  case MarkMetadataReconciled
  then show ?thesis using assms by (cases "ev_state r") (simp_all add: mark_metadata_reconciled_def)
next
  case CompleteEvictionRecord
  then show ?thesis using assms by (cases "ev_state r") (simp_all add: ContentEvictionRecord_complete_def)
qed

lemma eviction_moves_good:
  assumes "eviction_good r" and "eviction_moves op r r'"
  shows "eviction_rank r < eviction_rank r'" and "eviction_good r'"
    and "eviction_ident r' = eviction_ident r" and "fst (eviction_apply op r') = Inr AlreadyApplied"
  using assms unfolding eviction_moves_def
  by (elim disjE conjE; simp add: eviction_good_def eviction_rank_def eviction_ident_def
      mark_metadata_reconciled_def ContentEvictionRecord_complete_def)+

interpretation eviction_record: journal_record eviction_apply eviction_good eviction_rank eviction_ident
proof
  fix op r r' and e :: CloudFilesCoreError
  assume good: "eviction_good r"
  show "r' = r" if "eviction_apply op r = (Inl e, r')"
    using eviction_apply_not_applied [of op r] that by simp
  show "r' = r" if "eviction_apply op r = (Inr AlreadyApplied, r')"
    using eviction_apply_not_applied [of op r] that by simp
  assume ap: "eviction_apply op r = (Inr Applied, r')"
  show "eviction_rank r < eviction_rank r'" and "eviction_good r'"
    and "eviction_ident r' = eviction_ident r"
    using ap record_physical_effect_good [OF good] eviction_moves_good [OF good]
    by (blast elim: eviction_apply_applied)+
  show "fst (eviction_apply op r') = Inr AlreadyApplied"
    using ap
  proof (cases rule: eviction_apply_applied)
    case (1 effect)
    then show ?thesis
      using record_physical_effect_applied [OF 1(2)] by (simp add: record_physical_effect_def)
  next
    case 2
    then show ?thesis by (rule eviction_moves_good(4) [OF good])
  qed
qed

lemma eviction_persist_good: "eviction_good (ContentEvictionRecord_persist intent plan)"
  by (simp add: eviction_good_def ContentEvictionRecord_persist_def all_effects)

text \<open>
  Recording the required effects, in any order and with repetitions, ends in
  \<open>PhysicalEffectsApplied\<close> exactly when all of them have been recorded.
\<close>

definition effects_synced :: "ContentEvictionRecord \<Rightarrow> bool" where
  "effects_synced r \<longleftrightarrow>
     eviction_good r \<and>
     ev_state r = (if all_required_effects_observed r then PhysicalEffectsApplied
                   else ContentEvictionState.IntentPersisted)"

lemma record_effect_synced:
  assumes "effects_synced r" and "effect_required (ev_plan r) effect"
  shows "effects_synced (snd (record_physical_effect effect r))"
    and "has_observed_effect (snd (record_physical_effect effect r)) effect' \<longleftrightarrow>
      effect' = effect \<or> has_observed_effect r effect'"
    and "ev_plan (snd (record_physical_effect effect r)) = ev_plan r"
proof -
  have state: "ev_state r = ContentEvictionState.IntentPersisted \<or> ev_state r = PhysicalEffectsApplied"
    using assms(1) by (simp add: effects_synced_def split: if_splits)
  show "ev_plan (snd (record_physical_effect effect r)) = ev_plan r"
    by (simp add: record_physical_effect_def Let_def)
  show "has_observed_effect (snd (record_physical_effect effect r)) effect' \<longleftrightarrow>
      effect' = effect \<or> has_observed_effect r effect'"
    using assms(2) state by (auto simp: record_physical_effect_def Let_def)
  show "effects_synced (snd (record_physical_effect effect r))"
  proof (cases "has_observed_effect r effect")
    case True
    then show ?thesis using assms by (simp add: record_physical_effect_def)
  next
    case False
    let ?r = "snd (record_physical_effect effect r)"
    have ap: "record_physical_effect effect r = (Inr RecordTransition.Applied, ?r)"
      using False assms(2) state by (auto simp: record_physical_effect_def Let_def)
    have "\<not> all_required_effects_observed r"
      using False assms(2) by (auto simp: all_required_effects_observed_iff)
    then show ?thesis
      using record_physical_effect_good(1) [OF _ ap] record_physical_effect_applied(4) [OF ap] assms(1)
      by (auto simp: effects_synced_def all_required_effects_observed_iff split: if_splits)
  qed
qed

lemma record_effects_run:
  assumes "effects_synced r" and "\<forall>effect \<in> set effects. effect_required (ev_plan r) effect"
  shows "effects_synced (eviction_record.run (map RecordPhysicalEffect effects) r) \<and>
    ev_plan (eviction_record.run (map RecordPhysicalEffect effects) r) = ev_plan r \<and>
    (\<forall>effect. has_observed_effect (eviction_record.run (map RecordPhysicalEffect effects) r) effect \<longleftrightarrow>
       effect \<in> set effects \<or> has_observed_effect r effect)"
  using assms
proof (induction effects arbitrary: r)
  case (Cons effect effects)
  then have "effect_required (ev_plan r) effect" by simp
  note step = record_effect_synced [OF Cons.prems(1) this]
  have "\<forall>e \<in> set effects. effect_required (ev_plan (snd (record_physical_effect effect r))) e"
    using Cons.prems(2) step(3) by simp
  from Cons.IH [OF step(1) this] show ?case using step(2,3) by auto
qed simp

lemma persist_synced:
  assumes "effect_required plan effect"
  shows "effects_synced (ContentEvictionRecord_persist intent plan)"
proof -
  have "\<not> has_observed_effect (ContentEvictionRecord_persist intent plan) effect"
    by (cases effect) (simp_all add: ContentEvictionRecord_persist_def)
  then have "\<not> all_required_effects_observed (ContentEvictionRecord_persist intent plan)"
    using assms by (auto simp: all_required_effects_observed_iff ContentEvictionRecord_persist_def)
  then show ?thesis
    using eviction_persist_good [of intent plan]
    by (simp add: effects_synced_def) (simp add: ContentEvictionRecord_persist_def)
qed

lemma eviction_record_completes:
  assumes "set effects = {effect. effect_required plan effect}" and "effects \<noteq> []"
  shows "ev_state (eviction_record.run
      (map RecordPhysicalEffect effects @ [MarkMetadataReconciled, CompleteEvictionRecord])
      (ContentEvictionRecord_persist intent plan)) = ContentEvictionState.Completed"
proof -
  let ?first = "ContentEvictionRecord_persist intent plan"
  let ?r = "eviction_record.run (map RecordPhysicalEffect effects) ?first"
  have plan: "ev_plan ?first = plan" by (simp add: ContentEvictionRecord_persist_def)
  obtain effect where "effect_required plan effect" using assms by (cases effects) auto
  then have "effects_synced ?first" by (rule persist_synced)
  then have run: "effects_synced ?r" "ev_plan ?r = plan" "\<forall>effect \<in> set effects. has_observed_effect ?r effect"
    using record_effects_run [of ?first effects] assms(1) plan by auto
  then have "ev_state ?r = PhysicalEffectsApplied"
    using assms(1) by (auto simp: effects_synced_def all_required_effects_observed_iff)
  moreover have "eviction_record.run (ops @ ops') r = eviction_record.run ops' (eviction_record.run ops r)" for ops ops' r
    by (induction ops arbitrary: r) simp_all
  ultimately show ?thesis
    by (simp add: mark_metadata_reconciled_def ContentEvictionRecord_complete_def)
qed

subsection \<open>Cache write records keep the contract\<close>

datatype cache_write_op = MarkPhysicalBytesCommitted | MarkCoverageCommitted | CompleteCacheWriteRecord

primrec cache_write_apply :: "cache_write_op \<Rightarrow> cache_write_io" where
  "cache_write_apply MarkPhysicalBytesCommitted = mark_physical_bytes_committed"
| "cache_write_apply MarkCoverageCommitted = mark_coverage_committed"
| "cache_write_apply CompleteCacheWriteRecord = ContentCacheWriteRecord_complete"

primrec cache_write_rank_of :: "ContentCacheWriteState \<Rightarrow> nat" where
  "cache_write_rank_of ContentCacheWriteState.IntentPersisted = 0"
| "cache_write_rank_of PhysicalBytesCommitted = 1"
| "cache_write_rank_of CoverageCommitted = 2"
| "cache_write_rank_of ContentCacheWriteState.Completed = 3"

definition cache_write_rank :: "ContentCacheWriteRecord \<Rightarrow> nat" where
  "cache_write_rank r = cache_write_rank_of (cw_state r)"

lemmas cache_write_transition_defs =
  mark_physical_bytes_committed_def mark_coverage_committed_def ContentCacheWriteRecord_complete_def

interpretation cache_write_record:
  journal_record cache_write_apply "\<lambda>_. True" cache_write_rank cw_intent
proof
  fix op r r' and e :: CloudFilesCoreError
  show "cache_write_apply op r = (Inl e, r') \<Longrightarrow> r' = r"
    by (cases op) (auto simp: cache_write_transition_defs split: ContentCacheWriteState.splits)
  show "cache_write_apply op r = (Inr AlreadyApplied, r') \<Longrightarrow> r' = r"
    by (cases op) (auto simp: cache_write_transition_defs split: ContentCacheWriteState.splits)
  assume ap: "cache_write_apply op r = (Inr Applied, r')"
  then show "cache_write_rank r < cache_write_rank r'"
    by (cases op)
      (auto simp: cache_write_transition_defs cache_write_rank_def split: ContentCacheWriteState.splits)
  show "cw_intent r' = cw_intent r"
    using ap by (cases op) (auto simp: cache_write_transition_defs split: ContentCacheWriteState.splits)
  show "fst (cache_write_apply op r') = Inr AlreadyApplied"
    using ap by (cases op) (auto simp: cache_write_transition_defs split: ContentCacheWriteState.splits)
qed simp

text \<open>A transition is applied at most one rank at a time, so no phase can be skipped.\<close>

lemma cache_write_one_step:
  "cache_write_rank (snd (cache_write_apply op r)) \<le> Suc (cache_write_rank r)"
  by (cases op)
    (auto simp: cache_write_transition_defs cache_write_rank_def split: ContentCacheWriteState.splits)

lemma cache_write_count:
  "cache_write_record.applied_count ops r + cache_write_rank r = cache_write_rank (cache_write_record.run ops r)"
proof (induction ops arbitrary: r)
  case (Cons op ops)
  have "cache_write_rank (snd (cache_write_apply op r)) =
      cache_write_rank r + (if fst (cache_write_apply op r) = Inr RecordTransition.Applied then 1 else 0)"
    by (rule cache_write_record.step_cases [where op = op and r = r, OF TrueI])
      (use cache_write_one_step [of op r] in auto)
  then show ?case using Cons [of "snd (cache_write_apply op r)"] by simp
qed simp

end
