(* ===== verification/Mutation_Record.thy ===== *)
theory Mutation_Record
  imports Journal_Records
begin

text \<open>
  The values and the durable record of \<open>core/src/mutation.rs\<close>: identities, desired
  mutations, intents and their validation, remote outcomes and their validation against an
  intent, and the journal record with its four transitions. The record interprets the
  \<open>journal_record\<close> contract.
\<close>

section \<open>Values\<close>

datatype OperationId = OperationId (operation_id_str: string)
datatype IdempotencyKey = IdempotencyKey (idempotency_key_str: string)
datatype PlatformRequestCorrelation = PlatformRequestCorrelation (platform_correlation_str: string)
datatype RemoteReconciliationKey = RemoteReconciliationKey (remote_key_str: string)

definition OperationId_new :: "string \<Rightarrow> OperationId core_result" where
  "OperationId_new = opaque_new ''operation id'' OperationId"

definition IdempotencyKey_new :: "string \<Rightarrow> IdempotencyKey core_result" where
  "IdempotencyKey_new = opaque_new ''idempotency key'' IdempotencyKey"

definition PlatformRequestCorrelation_new :: "string \<Rightarrow> PlatformRequestCorrelation core_result" where
  "PlatformRequestCorrelation_new =
     opaque_new ''platform request correlation'' PlatformRequestCorrelation"

definition RemoteReconciliationKey_new :: "string \<Rightarrow> RemoteReconciliationKey core_result" where
  "RemoteReconciliationKey_new = opaque_new ''remote reconciliation key'' RemoteReconciliationKey"

datatype MutationOrigin = PlatformCommand | PlatformPreflight | PlatformObserved | RemoteChange

record MutationPreconditions =
  pre_metadata_revision :: "MetadataRevision option"
  pre_content_revision :: "ContentRevision option"

datatype DesiredMutation =
    Create (create_scope: CloudScope) CloudItemId string CloudItemKind
  | ModifyContent CloudItemKey
  | ModifyMetadata CloudItemKey "CloudItemId option" "string option"
  | Delete CloudItemKey

definition DesiredMutation_create ::
  "CloudScope \<Rightarrow> CloudItemId \<Rightarrow> string \<Rightarrow> CloudItemKind \<Rightarrow> DesiredMutation core_result" where
  "DesiredMutation_create scope parent_id name kind =
     (if name = [] then Inl (EmptyValue ''mutation create name'')
      else Inr (Create scope parent_id name kind))"

definition DesiredMutation_modify_metadata ::
  "CloudItemKey \<Rightarrow> CloudItemId option \<Rightarrow> string option \<Rightarrow> DesiredMutation core_result" where
  "DesiredMutation_modify_metadata key parent_id name =
     (if parent_id = None \<and> name = None
      then Inl (InvalidMutationIntent ''metadata mutation must change parent or name'')
      else if name = Some [] then Inl (EmptyValue ''mutation metadata name'')
      else Inr (ModifyMetadata key parent_id name))"

primrec desired_scope :: "DesiredMutation \<Rightarrow> CloudScope" where
  "desired_scope (Create scope parent_id name kind) = scope"
| "desired_scope (ModifyContent key) = key_scope key"
| "desired_scope (ModifyMetadata key parent_id name) = key_scope key"
| "desired_scope (DesiredMutation.Delete key) = key_scope key"

primrec existing_item_key :: "DesiredMutation \<Rightarrow> CloudItemKey option" where
  "existing_item_key (Create scope parent_id name kind) = None"
| "existing_item_key (ModifyContent key) = Some key"
| "existing_item_key (ModifyMetadata key parent_id name) = Some key"
| "existing_item_key (DesiredMutation.Delete key) = Some key"

fun requires_local_content :: "DesiredMutation \<Rightarrow> bool" where
  "requires_local_content (ModifyContent key) = True"
| "requires_local_content _ = False"

text \<open>A \<open>SystemTime\<close> is its signed distance from the epoch; the core only carries it.\<close>

record MutationRetryMetadata =
  retry_attempt :: u32
  retry_not_before :: "int option"

record MutationIntent =
  mi_operation_id :: OperationId
  mi_idempotency_key :: IdempotencyKey
  mi_origin :: MutationOrigin
  mi_session_generation :: SessionGeneration
  mi_desired :: DesiredMutation
  mi_preconditions :: MutationPreconditions
  mi_local_content :: "LocalContentSnapshot option"
  mi_platform_correlation :: "PlatformRequestCorrelation option"
  mi_remote_reconciliation_key :: "RemoteReconciliationKey option"
  mi_retry :: MutationRetryMetadata

definition MutationIntent_new ::
  "OperationId \<Rightarrow> IdempotencyKey \<Rightarrow> MutationOrigin \<Rightarrow> SessionGeneration \<Rightarrow> DesiredMutation
   \<Rightarrow> MutationPreconditions \<Rightarrow> MutationIntent" where
  "MutationIntent_new operation_id idempotency_key origin session_generation desired preconditions =
     \<lparr>mi_operation_id = operation_id, mi_idempotency_key = idempotency_key, mi_origin = origin,
      mi_session_generation = session_generation, mi_desired = desired,
      mi_preconditions = preconditions, mi_local_content = None, mi_platform_correlation = None,
      mi_remote_reconciliation_key = None,
      mi_retry = \<lparr>retry_attempt = 0, retry_not_before = None\<rparr>\<rparr>"

definition with_local_content :: "MutationIntent \<Rightarrow> LocalContentSnapshot \<Rightarrow> MutationIntent" where
  "with_local_content self local_content = self\<lparr>mi_local_content := Some local_content\<rparr>"

definition with_platform_correlation ::
  "MutationIntent \<Rightarrow> PlatformRequestCorrelation \<Rightarrow> MutationIntent" where
  "with_platform_correlation self correlation = self\<lparr>mi_platform_correlation := Some correlation\<rparr>"

definition with_remote_reconciliation_key ::
  "MutationIntent \<Rightarrow> RemoteReconciliationKey \<Rightarrow> MutationIntent" where
  "with_remote_reconciliation_key self key = self\<lparr>mi_remote_reconciliation_key := Some key\<rparr>"

definition with_retry :: "MutationIntent \<Rightarrow> MutationRetryMetadata \<Rightarrow> MutationIntent" where
  "with_retry self retry = self\<lparr>mi_retry := retry\<rparr>"

definition validate_for_persistence :: "MutationIntent \<Rightarrow> unit core_result" where
  "validate_for_persistence self =
     (if requires_local_content (mi_desired self) \<and> mi_local_content self = None
      then Inl (InvalidMutationIntent ''content mutation requires a local content reference'')
      else if \<not> requires_local_content (mi_desired self) \<and> mi_local_content self \<noteq> None
      then Inl (InvalidMutationIntent ''local content snapshot is only valid for content mutation'')
      else case (existing_item_key (mi_desired self), mi_local_content self) of
        (Some key, Some snapshot) \<Rightarrow>
          if snap_item_key snapshot \<noteq> key
          then Inl (InvalidMutationIntent
                 ''local content snapshot item does not match the mutation target'')
          else Inr ()
      | _ \<Rightarrow> Inr ())"

datatype MutationState =
    IntentPersisted
  | RemoteApplying
  | RemoteOutcomeUnknown
  | RemoteOutcomeKnown
  | PlatformReconciled
  | Completed

datatype MutationRemoteOutcome =
    Committed "CloudItem option"
  | AlreadyCommitted "CloudItem option"
  | PreconditionFailed "MetadataRevision option" "ContentRevision option"
  | RemoteOutcomeUnknown

fun durable_state :: "MutationRemoteOutcome \<Rightarrow> MutationState" where
  "durable_state MutationRemoteOutcome.RemoteOutcomeUnknown = MutationState.RemoteOutcomeUnknown"
| "durable_state (Committed item) = RemoteOutcomeKnown"
| "durable_state (AlreadyCommitted item) = RemoteOutcomeKnown"
| "durable_state (MutationRemoteOutcome.PreconditionFailed metadata content) = RemoteOutcomeKnown"

fun same_committed_effect :: "MutationRemoteOutcome \<Rightarrow> MutationRemoteOutcome \<Rightarrow> bool" where
  "same_committed_effect (Committed left) (Committed right) = (left = right)"
| "same_committed_effect (Committed left) (AlreadyCommitted right) = (left = right)"
| "same_committed_effect (AlreadyCommitted left) (Committed right) = (left = right)"
| "same_committed_effect (AlreadyCommitted left) (AlreadyCommitted right) = (left = right)"
| "same_committed_effect _ _ = False"

section \<open>Validation of a remote outcome against its intent\<close>

definition required_existing_item ::
  "CloudItem option \<Rightarrow> CloudItemKey \<Rightarrow> string \<Rightarrow> string \<Rightarrow> CloudItem core_result" where
  "required_existing_item item key missing_reason mismatch_reason =
     res_bind (ok_or (InvalidMutationTransition missing_reason) item) (\<lambda>item.
       if item_key item \<noteq> key then Inl (InvalidMutationTransition mismatch_reason)
       else Inr item)"

text \<open>The second \<open>match\<close> of \<open>validate_remote_outcome\<close>, on the desired mutation.\<close>

fun validate_committed_item :: "DesiredMutation \<Rightarrow> CloudItem option \<Rightarrow> unit core_result" where
  "validate_committed_item (Create scope parent_id name kind) item =
     res_bind
       (ok_or (InvalidMutationTransition
                 ''committed create outcome requires current item metadata'') item) (\<lambda>item.
       if key_scope (item_key item) \<noteq> scope
       then Inl (InvalidMutationTransition ''committed create outcome belongs to another scope'')
       else if item_parent_id item \<noteq> Some parent_id
       then Inl (InvalidMutationTransition ''committed create outcome has another parent'')
       else if item_name item \<noteq> name
       then Inl (InvalidMutationTransition ''committed create outcome has another name'')
       else if item_kind item \<noteq> kind
       then Inl (InvalidMutationTransition ''committed create outcome has another item kind'')
       else Inr ())"
| "validate_committed_item (ModifyContent key) item =
     res_bind
       (required_existing_item item key
          ''committed content mutation outcome requires current item metadata''
          ''committed content mutation outcome belongs to another item'') (\<lambda>item.
       if item_kind item \<noteq> File
       then Inl (InvalidMutationTransition
              ''committed content mutation outcome must describe a file'')
       else Inr ())"
| "validate_committed_item (ModifyMetadata key parent_id name) item =
     res_bind
       (required_existing_item item key
          ''committed metadata mutation outcome requires current item metadata''
          ''committed metadata mutation outcome belongs to another item'') (\<lambda>item.
       if parent_id \<noteq> None \<and> item_parent_id item \<noteq> parent_id
       then Inl (InvalidMutationTransition
              ''committed metadata mutation outcome did not apply the requested parent'')
       else if name \<noteq> None \<and> name \<noteq> Some (item_name item)
       then Inl (InvalidMutationTransition
              ''committed metadata mutation outcome did not apply the requested name'')
       else Inr ())"
| "validate_committed_item (DesiredMutation.Delete key) item =
     (case item of
        Some item \<Rightarrow>
          if item_key item \<noteq> key
          then Inl (InvalidMutationTransition ''committed delete outcome belongs to another item'')
          else Inr ()
      | None \<Rightarrow> Inr ())"

fun validate_remote_outcome :: "MutationIntent \<Rightarrow> MutationRemoteOutcome \<Rightarrow> unit core_result" where
  "validate_remote_outcome intent (Committed item) = validate_committed_item (mi_desired intent) item"
| "validate_remote_outcome intent (AlreadyCommitted item) =
     validate_committed_item (mi_desired intent) item"
| "validate_remote_outcome intent _ = Inr ()"

section \<open>The durable record\<close>

record MutationRecord =
  mr_intent :: MutationIntent
  mr_state :: MutationState
  mr_remote_outcome :: "MutationRemoteOutcome option"

type_synonym mutation_io = "(MutationRecord, CloudFilesCoreError, RecordTransition) io"

definition MutationRecord_persist :: "MutationIntent \<Rightarrow> MutationRecord core_result" where
  "MutationRecord_persist intent =
     res_bind (validate_for_persistence intent) (\<lambda>_.
       Inr \<lparr>mr_intent = intent, mr_state = MutationState.IntentPersisted, mr_remote_outcome = None\<rparr>)"

definition MutationRecord_begin_remote_apply :: mutation_io where
  "MutationRecord_begin_remote_apply self =
     (case mr_state self of
        MutationState.IntentPersisted \<Rightarrow> (Inr Applied, self\<lparr>mr_state := RemoteApplying\<rparr>)
      | _ \<Rightarrow> (Inr AlreadyApplied, self))"

definition MutationRecord_record_remote_outcome :: "MutationRemoteOutcome \<Rightarrow> mutation_io" where
  "MutationRecord_record_remote_outcome outcome self =
     (let next_state = durable_state outcome;
          already = (case mr_remote_outcome self of
                       Some current \<Rightarrow> current = outcome \<or> same_committed_effect current outcome
                     | None \<Rightarrow> False)
      in
      if already then (Inr AlreadyApplied, self)
      else if \<not> (mr_state self = RemoteApplying \<or> mr_state self = MutationState.RemoteOutcomeUnknown)
      then (Inl (InvalidMutationTransition
              ''remote outcome must follow remote apply or reconcile an unknown outcome''), self)
      else (Inr Applied, self\<lparr>mr_state := next_state, mr_remote_outcome := Some outcome\<rparr>))"

definition MutationRecord_mark_platform_reconciled :: mutation_io where
  "MutationRecord_mark_platform_reconciled self =
     (case mr_state self of
        RemoteOutcomeKnown \<Rightarrow> (Inr Applied, self\<lparr>mr_state := PlatformReconciled\<rparr>)
      | PlatformReconciled \<Rightarrow> (Inr AlreadyApplied, self)
      | MutationState.Completed \<Rightarrow> (Inr AlreadyApplied, self)
      | _ \<Rightarrow>
          (Inl (InvalidMutationTransition
             ''platform reconciliation requires a known remote outcome''), self))"

definition MutationRecord_complete :: mutation_io where
  "MutationRecord_complete self =
     (case mr_state self of
        PlatformReconciled \<Rightarrow> (Inr Applied, self\<lparr>mr_state := MutationState.Completed\<rparr>)
      | MutationState.Completed \<Rightarrow> (Inr AlreadyApplied, self)
      | _ \<Rightarrow>
          (Inl (InvalidMutationTransition ''completion requires platform reconciliation''), self))"

definition validate_recorded_outcome :: "MutationRecord \<Rightarrow> unit core_result" where
  "validate_recorded_outcome self =
     res_bind
       (ok_or (InvalidMutationTransition
                 ''known, reconciled, or completed mutation omitted its remote outcome'')
              (mr_remote_outcome self)) (\<lambda>outcome.
       if outcome = MutationRemoteOutcome.RemoteOutcomeUnknown
       then Inl (InvalidMutationTransition
              ''known, reconciled, or completed mutation retained an unknown remote outcome'')
       else validate_remote_outcome (mr_intent self) outcome)"

section \<open>Lemmas\<close>

lemma validate_for_persistence_eq_Inr:
  "validate_for_persistence intent = Inr u \<longleftrightarrow>
     (case mi_desired intent of
        ModifyContent key \<Rightarrow>
          (\<exists>snapshot. mi_local_content intent = Some snapshot \<and> snap_item_key snapshot = key)
      | _ \<Rightarrow> mi_local_content intent = None)"
  by (cases "mi_desired intent") (auto simp: validate_for_persistence_def split: option.splits)

text \<open>
  What a committed item says about the mutation that produced it: the specification that
  \<open>validate_committed_item\<close> decides.
\<close>

fun committed_matches :: "DesiredMutation \<Rightarrow> CloudItem option \<Rightarrow> bool" where
  "committed_matches (Create scope parent_id name kind) item \<longleftrightarrow>
     (\<exists>i. item = Some i \<and> key_scope (item_key i) = scope \<and> item_parent_id i = Some parent_id \<and>
        item_name i = name \<and> item_kind i = kind)"
| "committed_matches (ModifyContent key) item \<longleftrightarrow>
     (\<exists>i. item = Some i \<and> item_key i = key \<and> item_kind i = File)"
| "committed_matches (ModifyMetadata key parent_id name) item \<longleftrightarrow>
     (\<exists>i. item = Some i \<and> item_key i = key \<and>
        (\<forall>p. parent_id = Some p \<longrightarrow> item_parent_id i = Some p) \<and>
        (\<forall>n. name = Some n \<longrightarrow> item_name i = n))"
| "committed_matches (DesiredMutation.Delete key) item \<longleftrightarrow> (\<forall>i. item = Some i \<longrightarrow> item_key i = key)"

lemma required_existing_item_eq_Inr [simp]:
  "required_existing_item item key missing mismatch = Inr i \<longleftrightarrow> item = Some i \<and> item_key i = key"
  by (auto simp: required_existing_item_def)

lemma validate_committed_item_iff:
  "validate_committed_item desired item = Inr u \<longleftrightarrow> committed_matches desired item"
proof (cases desired)
  case (ModifyMetadata key parent_id name)
  then show ?thesis by (cases item; cases parent_id; cases name) (auto simp: required_existing_item_def)
qed (auto split: option.splits if_splits)

lemma validate_remote_outcome_iff:
  "validate_remote_outcome intent outcome = Inr u \<longleftrightarrow>
     (case outcome of
        Committed item \<Rightarrow> committed_matches (mi_desired intent) item
      | AlreadyCommitted item \<Rightarrow> committed_matches (mi_desired intent) item
      | _ \<Rightarrow> True)"
  by (cases outcome) (simp_all add: validate_committed_item_iff)

subsection \<open>The record keeps the journal contract\<close>

datatype mutation_op =
    BeginRemoteApply
  | RecordRemoteOutcome MutationRemoteOutcome
  | MarkPlatformReconciled
  | CompleteMutation

primrec mutation_apply :: "mutation_op \<Rightarrow> mutation_io" where
  "mutation_apply BeginRemoteApply = MutationRecord_begin_remote_apply"
| "mutation_apply (RecordRemoteOutcome outcome) = MutationRecord_record_remote_outcome outcome"
| "mutation_apply MarkPlatformReconciled = MutationRecord_mark_platform_reconciled"
| "mutation_apply CompleteMutation = MutationRecord_complete"

primrec mutation_rank_of :: "MutationState \<Rightarrow> nat" where
  "mutation_rank_of MutationState.IntentPersisted = 0"
| "mutation_rank_of RemoteApplying = 1"
| "mutation_rank_of MutationState.RemoteOutcomeUnknown = 2"
| "mutation_rank_of RemoteOutcomeKnown = 3"
| "mutation_rank_of PlatformReconciled = 4"
| "mutation_rank_of MutationState.Completed = 5"

definition mutation_rank :: "MutationRecord \<Rightarrow> nat" where
  "mutation_rank r = mutation_rank_of (mr_state r)"

text \<open>The recorded outcome is absent, unknown or known exactly as the state says.\<close>

definition mutation_good :: "MutationRecord \<Rightarrow> bool" where
  "mutation_good r \<longleftrightarrow>
     (case mr_remote_outcome r of
        None \<Rightarrow> mr_state r \<in> {MutationState.IntentPersisted, RemoteApplying}
      | Some outcome \<Rightarrow>
          if outcome = MutationRemoteOutcome.RemoteOutcomeUnknown
          then mr_state r = MutationState.RemoteOutcomeUnknown
          else mr_state r \<in> {RemoteOutcomeKnown, PlatformReconciled, MutationState.Completed})"

lemma durable_state_eq:
  "durable_state outcome =
     (if outcome = MutationRemoteOutcome.RemoteOutcomeUnknown then MutationState.RemoteOutcomeUnknown
      else RemoteOutcomeKnown)"
  by (cases outcome) simp_all

lemma same_committed_effect_known:
  "same_committed_effect a b \<Longrightarrow>
     a \<noteq> MutationRemoteOutcome.RemoteOutcomeUnknown \<and> b \<noteq> MutationRemoteOutcome.RemoteOutcomeUnknown"
  by (cases a; cases b) simp_all

text \<open>What an applied transition did, one case per method.\<close>

definition mutation_moves :: "mutation_op \<Rightarrow> MutationRecord \<Rightarrow> MutationRecord \<Rightarrow> bool" where
  "mutation_moves op r r' \<longleftrightarrow>
     (case op of
        BeginRemoteApply \<Rightarrow>
          mr_state r = MutationState.IntentPersisted \<and> r' = r\<lparr>mr_state := RemoteApplying\<rparr>
      | RecordRemoteOutcome outcome \<Rightarrow>
          mr_state r \<in> {RemoteApplying, MutationState.RemoteOutcomeUnknown} \<and>
          mr_remote_outcome r \<noteq> Some outcome \<and>
          r' = r\<lparr>mr_state := durable_state outcome, mr_remote_outcome := Some outcome\<rparr>
      | MarkPlatformReconciled \<Rightarrow>
          mr_state r = RemoteOutcomeKnown \<and> r' = r\<lparr>mr_state := PlatformReconciled\<rparr>
      | CompleteMutation \<Rightarrow>
          mr_state r = PlatformReconciled \<and> r' = r\<lparr>mr_state := MutationState.Completed\<rparr>)"

lemma begin_remote_apply_applied:
  "MutationRecord_begin_remote_apply r = (Inr Applied, r') \<longleftrightarrow>
     mr_state r = MutationState.IntentPersisted \<and> r' = r\<lparr>mr_state := RemoteApplying\<rparr>"
  by (cases "mr_state r") (auto simp: MutationRecord_begin_remote_apply_def)

lemma record_remote_outcome_applied:
  "MutationRecord_record_remote_outcome outcome r = (Inr Applied, r') \<Longrightarrow>
     mutation_moves (RecordRemoteOutcome outcome) r r'"
  by (auto simp: MutationRecord_record_remote_outcome_def mutation_moves_def Let_def
      split: if_splits option.splits)

lemma mark_platform_reconciled_applied:
  "MutationRecord_mark_platform_reconciled r = (Inr Applied, r') \<longleftrightarrow>
     mr_state r = RemoteOutcomeKnown \<and> r' = r\<lparr>mr_state := PlatformReconciled\<rparr>"
  by (cases "mr_state r") (auto simp: MutationRecord_mark_platform_reconciled_def)

lemma complete_mutation_applied:
  "MutationRecord_complete r = (Inr Applied, r') \<longleftrightarrow>
     mr_state r = PlatformReconciled \<and> r' = r\<lparr>mr_state := MutationState.Completed\<rparr>"
  by (cases "mr_state r") (auto simp: MutationRecord_complete_def)

lemma mutation_apply_moves:
  assumes "mutation_apply op r = (Inr Applied, r')"
  shows "mutation_moves op r r'"
proof (cases op)
  case (RecordRemoteOutcome outcome)
  with assms show ?thesis using record_remote_outcome_applied by simp
qed (use assms in \<open>simp_all add: begin_remote_apply_applied mark_platform_reconciled_applied
    complete_mutation_applied mutation_moves_def\<close>)

lemma mutation_apply_not_applied:
  assumes "fst (mutation_apply op r) \<noteq> Inr Applied"
  shows "snd (mutation_apply op r) = r"
proof (cases op)
  case BeginRemoteApply
  with assms show ?thesis by (cases "mr_state r") (simp_all add: MutationRecord_begin_remote_apply_def)
next
  case (RecordRemoteOutcome outcome)
  with assms show ?thesis
    by (simp add: MutationRecord_record_remote_outcome_def Let_def split: if_splits)
next
  case MarkPlatformReconciled
  with assms show ?thesis
    by (cases "mr_state r") (simp_all add: MutationRecord_mark_platform_reconciled_def)
next
  case CompleteMutation
  with assms show ?thesis by (cases "mr_state r") (simp_all add: MutationRecord_complete_def)
qed

lemma mutation_moves_good:
  assumes "mutation_good r" and "mutation_moves op r r'"
  shows "mutation_good r'" and "mutation_rank r < mutation_rank r'" and "mr_intent r' = mr_intent r"
  using assms
  by (auto simp: mutation_moves_def mutation_good_def mutation_rank_def durable_state_eq
      split: mutation_op.splits option.splits if_splits)

interpretation mutation_record: journal_record mutation_apply mutation_good mutation_rank mr_intent
proof
  fix op r r' and e :: CloudFilesCoreError
  assume good: "mutation_good r"
  show "r' = r" if "mutation_apply op r = (Inl e, r')"
    using mutation_apply_not_applied [of op r] that by simp
  show "r' = r" if "mutation_apply op r = (Inr AlreadyApplied, r')"
    using mutation_apply_not_applied [of op r] that by simp
  assume "mutation_apply op r = (Inr Applied, r')"
  then have moves: "mutation_moves op r r'" by (rule mutation_apply_moves)
  then show "mutation_rank r < mutation_rank r'" and "mutation_good r'" and "mr_intent r' = mr_intent r"
    using mutation_moves_good [OF good] by blast+
  show "fst (mutation_apply op r') = Inr AlreadyApplied"
    using moves
    by (cases op) (simp_all add: mutation_moves_def MutationRecord_begin_remote_apply_def
        MutationRecord_record_remote_outcome_def MutationRecord_mark_platform_reconciled_def
        MutationRecord_complete_def)
qed

lemma mutation_persist_good:
  assumes "MutationRecord_persist intent = Inr r"
  shows "mutation_good r" and "mr_intent r = intent" and "mr_state r = MutationState.IntentPersisted"
  using assms by (auto simp: MutationRecord_persist_def mutation_good_def)

end
