(* ===== verification/Store_Ports.thy ===== *)
theory Store_Ports
  imports Mutation_Record "HOL-Library.List_Lexorder" "HOL-Library.Char_ord"
begin

text \<open>
  The durable-store vocabulary of \<open>core/src/store.rs\<close> and the ports the runners call. A
  trait object is a record of its methods; each method acts on the world \<open>'w\<close> that stands
  for everything behind the port. Implementations of the ports are product code; the laws the
  runners need from them are the assumptions of locales in the runner theories.
\<close>

datatype CloudFilesStoreErrorKind = NotFound | Conflict | InvalidTransition | PersistenceFailure

record CloudFilesStoreError =
  se_kind :: CloudFilesStoreErrorKind
  se_context :: string

definition CloudFilesStoreError_new :: "CloudFilesStoreErrorKind \<Rightarrow> string \<Rightarrow> CloudFilesStoreError" where
  "CloudFilesStoreError_new kind context = \<lparr>se_kind = kind, se_context = context\<rparr>"

datatype StoreWriteStatus = Applied | AlreadyApplied | Fenced

record 'a RecoveryPage =
  rp_items :: "'a list"
  rp_has_more :: bool

section \<open>Change checkpoints\<close>

datatype ChangeBatchId = ChangeBatchId (change_batch_id_str: string)

definition ChangeBatchId_new :: "string \<Rightarrow> ChangeBatchId core_result" where
  "ChangeBatchId_new = opaque_new ''change batch id'' ChangeBatchId"

datatype PersistedChangeBatchState = Recorded | EffectsReplayable

record PersistedChangeBatch =
  pb_id :: ChangeBatchId
  pb_scope :: CloudScope
  pb_base_cursor :: "ChangeCursor option"
  pb_batch :: ChangeBatch
  pb_state :: PersistedChangeBatchState

definition PersistedChangeBatch_new ::
  "ChangeBatchId \<Rightarrow> CloudScope \<Rightarrow> ChangeCursor option \<Rightarrow> ChangeBatch \<Rightarrow> PersistedChangeBatch" where
  "PersistedChangeBatch_new i scope base_cursor batch =
     \<lparr>pb_id = i, pb_scope = scope, pb_base_cursor = base_cursor, pb_batch = batch,
      pb_state = Recorded\<rparr>"

definition mark_effects_replayable :: "PersistedChangeBatch \<Rightarrow> bool \<times> PersistedChangeBatch" where
  "mark_effects_replayable self =
     (if pb_state self = EffectsReplayable then (False, self)
      else (True, self\<lparr>pb_state := EffectsReplayable\<rparr>))"

record ChangeCursorCheckpoint =
  cp_scope :: CloudScope
  cp_active_cursor :: "ChangeCursor option"
  cp_pending_batch :: "PersistedChangeBatch option"

definition ChangeCursorCheckpoint_initial :: "CloudScope \<Rightarrow> ChangeCursorCheckpoint" where
  "ChangeCursorCheckpoint_initial scope =
     \<lparr>cp_scope = scope, cp_active_cursor = None, cp_pending_batch = None\<rparr>"

section \<open>Ports\<close>

type_synonym ('w, 'a) store_io = "('w, CloudFilesStoreError, 'a) io"
type_synonym ('w, 'a) backend_io = "('w, CloudBackendError, 'a) io"

record 'w ChangeCheckpointStore =
  cs_load_change_checkpoint :: "CloudScope \<Rightarrow> ('w, ChangeCursorCheckpoint) store_io"
  cs_record_change_batch :: "PersistedChangeBatch \<Rightarrow> ('w, StoreWriteStatus) store_io"
  cs_mark_change_effects_replayable ::
    "CloudScope \<Rightarrow> ChangeBatchId \<Rightarrow> ('w, StoreWriteStatus) store_io"
  cs_commit_change_cursor :: "CloudScope \<Rightarrow> ChangeBatchId \<Rightarrow> ('w, StoreWriteStatus) store_io"

record 'w MutationJournalStore =
  ms_activate_session :: "CloudScope \<Rightarrow> SessionGeneration \<Rightarrow> ('w, StoreWriteStatus) store_io"
  ms_load_session :: "CloudScope \<Rightarrow> ('w, (SessionGeneration \<times> SessionState) option) store_io"
  ms_transition_session ::
    "CloudScope \<Rightarrow> SessionGeneration \<Rightarrow> SessionState \<Rightarrow> ('w, StoreWriteStatus) store_io"
  ms_persist_mutation_intent :: "MutationIntent \<Rightarrow> ('w, StoreWriteStatus) store_io"
  ms_load_mutation :: "OperationId \<Rightarrow> ('w, MutationRecord option) store_io"
  ms_recoverable_mutations_page ::
    "CloudScope \<Rightarrow> string option \<Rightarrow> usize \<Rightarrow> ('w, MutationRecord RecoveryPage) store_io"
  ms_begin_remote_apply :: "OperationId \<Rightarrow> SessionGeneration \<Rightarrow> ('w, StoreWriteStatus) store_io"
  ms_record_remote_outcome ::
    "OperationId \<Rightarrow> SessionGeneration \<Rightarrow> MutationRemoteOutcome \<Rightarrow> ('w, StoreWriteStatus) store_io"
  ms_mark_platform_reconciled ::
    "OperationId \<Rightarrow> SessionGeneration \<Rightarrow> ('w, StoreWriteStatus) store_io"
  ms_complete_mutation :: "OperationId \<Rightarrow> SessionGeneration \<Rightarrow> ('w, StoreWriteStatus) store_io"

record 'w CloudMutationBackend =
  mb_apply_mutation :: "MutationIntent \<Rightarrow> ('w, MutationRemoteOutcome) backend_io"
  mb_reconcile_mutation :: "MutationIntent \<Rightarrow> ('w, MutationRemoteOutcome) backend_io"

end
