(* ===== verification/Linux_Values.thy ===== *)
theory Linux_Values
  imports Async_Call Backend_Port Store_Ports "HOL-Library.AList"
begin

text \<open>
  The values of the Linux FUSE adapter (\<open>linux/src\<close>): errors and their errno classes
  (\<open>error.rs\<close>), the restored inode table (\<open>inode.rs\<close>), names, attributes, nodes and directory
  snapshots (\<open>engine.rs\<close>), durable namespace requests and acceptances (\<open>namespace.rs\<close>), remote
  overlay changes (\<open>remote.rs\<close>), and the write sessions and ports of \<open>writeback.rs\<close>. A hash map
  that is only looked up is a partial function; one that is iterated is an association list, in
  an order the code does not rely on.
\<close>

section \<open>Errors\<close>

datatype LinuxErrorCode =
    NotFound
  | AlreadyExists
  | DirectoryNotEmpty
  | IsDirectory
  | NotDirectory
  | AccessDenied
  | ReadOnlyFilesystem
  | TryAgain
  | Stale
  | NotSupported
  | InvalidArgument
  | Io

datatype LinuxNamespaceMutationStoreErrorKind =
    NotFound
  | AlreadyExists
  | DirectoryNotEmpty
  | IsDirectory
  | NotDirectory
  | Unsupported
  | Fenced
  | Conflict
  | PersistenceFailure

record LinuxNamespaceMutationStoreError =
  nse_kind :: LinuxNamespaceMutationStoreErrorKind
  nse_context :: string

definition LinuxNamespaceMutationStoreError_new ::
  "LinuxNamespaceMutationStoreErrorKind \<Rightarrow> string \<Rightarrow> LinuxNamespaceMutationStoreError" where
  "LinuxNamespaceMutationStoreError_new kind context = \<lparr>nse_kind = kind, nse_context = context\<rparr>"

datatype LinuxCloudFilesError =
    ZeroInode
  | ZeroGeneration
  | RootInodeMismatch
  | ScopeMismatch
  | DuplicateInode u64
  | DuplicateItem
  | MissingInodeRecord
  | UnknownInode u64
  | StaleHandle
  | AccessModeMismatch
  | HandleExhausted
  | InvalidConfiguration string
  | InvalidName string
  | NotDirectory
  | NotFile
  | InvalidBackendResponse string
  | Backend CloudBackendError
  | WritebackStore CloudFilesStoreError
  | NamespaceStore LinuxNamespaceMutationStoreError
  | NamespaceMutationNotConfigured

type_synonym 'a linux_result = "LinuxCloudFilesError + 'a"
type_synonym ('w, 'a) linux_call = "('w, LinuxCloudFilesError, 'a) async"

primrec namespace_store_error_code :: "LinuxNamespaceMutationStoreErrorKind \<Rightarrow> LinuxErrorCode" where
  "namespace_store_error_code LinuxNamespaceMutationStoreErrorKind.NotFound = LinuxErrorCode.NotFound"
| "namespace_store_error_code LinuxNamespaceMutationStoreErrorKind.AlreadyExists = LinuxErrorCode.AlreadyExists"
| "namespace_store_error_code LinuxNamespaceMutationStoreErrorKind.DirectoryNotEmpty = LinuxErrorCode.DirectoryNotEmpty"
| "namespace_store_error_code LinuxNamespaceMutationStoreErrorKind.IsDirectory = LinuxErrorCode.IsDirectory"
| "namespace_store_error_code LinuxNamespaceMutationStoreErrorKind.NotDirectory = LinuxErrorCode.NotDirectory"
| "namespace_store_error_code LinuxNamespaceMutationStoreErrorKind.Unsupported = NotSupported"
| "namespace_store_error_code LinuxNamespaceMutationStoreErrorKind.Fenced = Stale"
| "namespace_store_error_code LinuxNamespaceMutationStoreErrorKind.Conflict = Io"
| "namespace_store_error_code LinuxNamespaceMutationStoreErrorKind.PersistenceFailure = Io"

primrec writeback_store_error_code :: "CloudFilesStoreErrorKind \<Rightarrow> LinuxErrorCode" where
  "writeback_store_error_code CloudFilesStoreErrorKind.NotFound = LinuxErrorCode.NotFound"
| "writeback_store_error_code CloudFilesStoreErrorKind.Conflict = Stale"
| "writeback_store_error_code CloudFilesStoreErrorKind.InvalidTransition = Io"
| "writeback_store_error_code CloudFilesStoreErrorKind.PersistenceFailure = Io"

primrec backend_error_code :: "CloudBackendErrorKind \<Rightarrow> LinuxErrorCode" where
  "backend_error_code CloudBackendErrorKind.NotFound = LinuxErrorCode.NotFound"
| "backend_error_code AuthenticationRequired = AccessDenied"
| "backend_error_code PermissionDenied = AccessDenied"
| "backend_error_code CloudBackendErrorKind.Conflict = Stale"
| "backend_error_code CloudBackendErrorKind.PreconditionFailed = Stale"
| "backend_error_code InvalidRequest = InvalidArgument"
| "backend_error_code RateLimited = TryAgain"
| "backend_error_code TemporarilyUnavailable = TryAgain"
| "backend_error_code CloudBackendErrorKind.Unsupported = NotSupported"
| "backend_error_code InvalidResponse = Io"
| "backend_error_code Internal = Io"

primrec error_code :: "LinuxCloudFilesError \<Rightarrow> LinuxErrorCode" where
  "error_code (UnknownInode _) = LinuxErrorCode.NotFound"
| "error_code StaleHandle = Stale"
| "error_code AccessModeMismatch = AccessDenied"
| "error_code (InvalidName _) = InvalidArgument"
| "error_code LinuxCloudFilesError.NotDirectory = LinuxErrorCode.NotDirectory"
| "error_code NotFile = LinuxErrorCode.IsDirectory"
| "error_code (Backend error) = backend_error_code (be_kind error)"
| "error_code (WritebackStore error) = writeback_store_error_code (se_kind error)"
| "error_code (NamespaceStore error) = namespace_store_error_code (nse_kind error)"
| "error_code NamespaceMutationNotConfigured = NotSupported"
| "error_code ZeroInode = Io"
| "error_code ZeroGeneration = Io"
| "error_code RootInodeMismatch = Io"
| "error_code ScopeMismatch = Io"
| "error_code (DuplicateInode _) = Io"
| "error_code DuplicateItem = Io"
| "error_code MissingInodeRecord = Io"
| "error_code HandleExhausted = Io"
| "error_code (InvalidConfiguration _) = Io"
| "error_code (InvalidBackendResponse _) = Io"

section \<open>Inodes\<close>

datatype LinuxInode = LinuxInode (inode_get: u64)
datatype LinuxInodeGeneration = LinuxInodeGeneration (inode_generation_get: u64)

definition LINUX_ROOT_INODE :: LinuxInode where
  "LINUX_ROOT_INODE = LinuxInode 1"

definition LinuxInode_new :: "u64 \<Rightarrow> LinuxInode linux_result" where
  "LinuxInode_new value = (if value = 0 then Inl ZeroInode else Inr (LinuxInode value))"

definition LinuxInodeGeneration_new :: "u64 \<Rightarrow> LinuxInodeGeneration linux_result" where
  "LinuxInodeGeneration_new value =
     (if value = 0 then Inl ZeroGeneration else Inr (LinuxInodeGeneration value))"

record LinuxInodeRecord =
  ir_key :: CloudItemKey
  ir_inode :: LinuxInode
  ir_generation :: LinuxInodeGeneration

record LinuxInodeTable =
  it_scope :: CloudScope
  it_root :: LinuxInodeRecord
  it_by_key :: "CloudItemKey \<rightharpoonup> LinuxInodeRecord"
  it_by_inode :: "LinuxInode \<rightharpoonup> LinuxInodeRecord"

text \<open>The loop of \<open>LinuxInodeTable::new\<close>.\<close>

fun restore_records ::
  "CloudScope \<Rightarrow> LinuxInodeRecord list \<Rightarrow> (CloudItemKey \<rightharpoonup> LinuxInodeRecord) \<times> (LinuxInode \<rightharpoonup> LinuxInodeRecord)
   \<Rightarrow> ((CloudItemKey \<rightharpoonup> LinuxInodeRecord) \<times> (LinuxInode \<rightharpoonup> LinuxInodeRecord)) linux_result" where
  "restore_records scope [] maps = Inr maps"
| "restore_records scope (record # records) (by_key, by_inode) =
     (if key_scope (ir_key record) \<noteq> scope then Inl ScopeMismatch
      else if ir_inode record = LINUX_ROOT_INODE then Inl RootInodeMismatch
      else if by_key (ir_key record) \<noteq> None then Inl DuplicateItem
      else if by_inode (ir_inode record) \<noteq> None then Inl (DuplicateInode (inode_get (ir_inode record)))
      else restore_records scope records
             (by_key(ir_key record \<mapsto> record), by_inode(ir_inode record \<mapsto> record)))"

definition LinuxInodeTable_new ::
  "LinuxInodeRecord \<Rightarrow> LinuxInodeRecord list \<Rightarrow> LinuxInodeTable linux_result" where
  "LinuxInodeTable_new root records =
     (if ir_inode root \<noteq> LINUX_ROOT_INODE then Inl RootInodeMismatch
      else let scope = key_scope (ir_key root) in
        res_bind (restore_records scope records (Map.empty, Map.empty)) (\<lambda>(by_key, by_inode).
        Inr \<lparr>it_scope = scope, it_root = root, it_by_key = by_key, it_by_inode = by_inode\<rparr>))"

definition by_key :: "LinuxInodeTable \<Rightarrow> CloudItemKey \<Rightarrow> LinuxInodeRecord option" where
  "by_key self key = (if key = ir_key (it_root self) then Some (it_root self) else it_by_key self key)"

definition by_inode :: "LinuxInodeTable \<Rightarrow> LinuxInode \<Rightarrow> LinuxInodeRecord option" where
  "by_inode self inode =
     (if inode = LINUX_ROOT_INODE then Some (it_root self) else it_by_inode self inode)"

section \<open>Names, attributes and nodes\<close>

definition FUSE_BLOCK_SIZE :: u64 where
  "FUSE_BLOCK_SIZE = 512"

definition validate_linux_name :: "string \<Rightarrow> unit linux_result" where
  "validate_linux_name name =
     (if name = [] then Inl (InvalidName ''name must not be empty'')
      else if name = ''.'' \<or> name = ''..'' then Inl (InvalidName ''dot components are reserved'')
      else if CHR ''/'' \<in> set name then Inl (InvalidName ''name must not contain a path separator'')
      else if CHR 0x00 \<in> set name then Inl (InvalidName ''name must not contain NUL'')
      else Inr ())"

datatype LinuxNodeKind = File | Directory

type_synonym u16 = "16 word"

unbundle bit_operations_syntax

text \<open>\<open>SystemTime\<close> in nanoseconds since \<open>UNIX_EPOCH\<close>.\<close>

type_synonym SystemTime = int

record LinuxAttributePolicy =
  ap_uid :: u32
  ap_gid :: u32
  ap_file_permissions :: u16
  ap_directory_permissions :: u16
  ap_block_size :: u32
  ap_cache_ttl :: Duration
  ap_fallback_time :: SystemTime

definition LinuxAttributePolicy_new ::
  "u32 \<Rightarrow> u32 \<Rightarrow> u16 \<Rightarrow> u16 \<Rightarrow> Duration \<Rightarrow> LinuxAttributePolicy linux_result" where
  "LinuxAttributePolicy_new uid gid file_permissions directory_permissions cache_ttl =
     (if file_permissions AND NOT 0xFFF \<noteq> 0 \<or> directory_permissions AND NOT 0xFFF \<noteq> 0
      then Inl (InvalidConfiguration ''permissions must contain only Unix permission and special-mode bits'')
      else Inr \<lparr>ap_uid = uid, ap_gid = gid, ap_file_permissions = file_permissions,
                ap_directory_permissions = directory_permissions, ap_block_size = 4096,
                ap_cache_ttl = cache_ttl, ap_fallback_time = 0\<rparr>)"

definition LinuxAttributePolicy_default :: LinuxAttributePolicy where
  "LinuxAttributePolicy_default =
     \<lparr>ap_uid = 0, ap_gid = 0, ap_file_permissions = 0x124, ap_directory_permissions = 0x16D,
      ap_block_size = 4096, ap_cache_ttl = 1000000000, ap_fallback_time = 0\<rparr>"

record LinuxFileAttributes =
  fa_inode :: LinuxInode
  fa_size :: u64
  fa_blocks :: u64
  fa_kind :: LinuxNodeKind
  fa_permissions :: u16
  fa_links :: u32
  fa_uid :: u32
  fa_gid :: u32
  fa_block_size :: u32
  fa_time :: SystemTime

record LinuxNode =
  node_key :: CloudItemKey
  node_generation :: LinuxInodeGeneration
  node_attributes :: LinuxFileAttributes

text \<open>\<open>u64::div_ceil\<close>, which cannot overflow.\<close>

definition div_ceil :: "u64 \<Rightarrow> u64 \<Rightarrow> u64" where
  "div_ceil a b = (if a mod b = 0 then a div b else a div b + 1)"

definition with_size :: "LinuxNode \<Rightarrow> u64 \<Rightarrow> LinuxNode" where
  "with_size self n =
     self\<lparr>node_attributes := (node_attributes self)\<lparr>fa_size := n, fa_blocks := div_ceil n FUSE_BLOCK_SIZE\<rparr>\<rparr>"

datatype LinuxFileHandle = LinuxFileHandle (file_handle_get: u64)
datatype LinuxDirectoryHandle = LinuxDirectoryHandle (directory_handle_get: u64)

definition LinuxFileHandle_new :: "u64 \<Rightarrow> LinuxFileHandle linux_result" where
  "LinuxFileHandle_new value = (if value = 0 then Inl StaleHandle else Inr (LinuxFileHandle value))"

definition LinuxDirectoryHandle_new :: "u64 \<Rightarrow> LinuxDirectoryHandle linux_result" where
  "LinuxDirectoryHandle_new value =
     (if value = 0 then Inl StaleHandle else Inr (LinuxDirectoryHandle value))"

record LinuxDirectoryEntry =
  de_inode :: LinuxInode
  de_generation :: LinuxInodeGeneration
  de_name :: string
  de_kind :: LinuxNodeKind

definition from_node :: "string \<Rightarrow> LinuxNode \<Rightarrow> LinuxDirectoryEntry" where
  "from_node name node =
     \<lparr>de_inode = fa_inode (node_attributes node), de_generation = node_generation node,
      de_name = name, de_kind = fa_kind (node_attributes node)\<rparr>"

record LinuxDirectorySnapshot =
  ds_directory :: LinuxInode
  ds_parent :: LinuxInode
  ds_entries :: "LinuxDirectoryEntry list"

end
