(* ===== verification/Linux_Ports.thy ===== *)
theory Linux_Ports
  imports Linux_Values
begin

text \<open>
  The durable requests and acceptances of the Linux adapter and the two product ports behind
  them: \<open>LinuxNamespaceMutationStore\<close> (\<open>namespace.rs\<close>) accepts creates, renames and removals,
  \<open>LinuxWritebackStore\<close> (\<open>writeback.rs\<close>) stages file content. A port is a record of calls; the
  adapter checks every answer. \<open>remote.rs\<close> has the changes that come from the remote side.
\<close>

section \<open>Write sessions\<close>

datatype LinuxFileAccess = Read | Write | ReadWrite

definition readable :: "LinuxFileAccess \<Rightarrow> bool" where
  "readable self \<longleftrightarrow> self = Read \<or> self = ReadWrite"

definition writable :: "LinuxFileAccess \<Rightarrow> bool" where
  "writable self \<longleftrightarrow> self = Write \<or> self = ReadWrite"

datatype LinuxWriteSessionId = LinuxWriteSessionId (write_session_id_str: string)

definition LinuxWriteSessionId_new :: "string \<Rightarrow> LinuxWriteSessionId linux_result" where
  "LinuxWriteSessionId_new value =
     (if value = [] then Inl (InvalidConfiguration ''write session id must not be empty'')
      else Inr (LinuxWriteSessionId value))"

record LinuxWriteOpenRequest =
  wo_key :: CloudItemKey
  wo_base_revision :: ContentRevision
  wo_base_size :: u64
  wo_session_generation :: SessionGeneration

record LinuxWriteSession =
  ws_id :: LinuxWriteSessionId
  ws_key :: CloudItemKey
  ws_size :: u64
  ws_session_generation :: SessionGeneration
  ws_snapshot :: "LocalContentSnapshot option"

definition LinuxWriteSession_new ::
  "LinuxWriteSessionId \<Rightarrow> CloudItemKey \<Rightarrow> u64 \<Rightarrow> SessionGeneration \<Rightarrow> LinuxWriteSession" where
  "LinuxWriteSession_new ident key n session_generation =
     \<lparr>ws_id = ident, ws_key = key, ws_size = n, ws_session_generation = session_generation,
      ws_snapshot = None\<rparr>"

definition from_recovered ::
  "LinuxWriteSessionId \<Rightarrow> LocalContentSnapshot \<Rightarrow> SessionGeneration \<Rightarrow> LinuxWriteSession" where
  "from_recovered ident snapshot session_generation =
     \<lparr>ws_id = ident, ws_key = snap_item_key snapshot, ws_size = snap_size snapshot,
      ws_session_generation = session_generation, ws_snapshot = Some snapshot\<rparr>"

record LinuxWriteCommit =
  wc_snapshot :: LocalContentSnapshot

type_synonym ('w, 'a) writeback_call = "('w, CloudFilesStoreError, 'a) io"

record 'w LinuxWritebackStore =
  wb_activate_mount :: "CloudScope \<Rightarrow> SessionGeneration \<Rightarrow> ('w, LocalContentSnapshot list) writeback_call"
  wb_open_recovered :: "CloudItemKey \<Rightarrow> SessionGeneration \<Rightarrow> ('w, LinuxWriteSession option) writeback_call"
  wb_open_existing :: "LinuxWriteOpenRequest \<Rightarrow> u8 list \<Rightarrow> ('w, LinuxWriteSession) writeback_call"
  wb_read :: "LinuxWriteSessionId \<Rightarrow> u64 \<Rightarrow> u32 \<Rightarrow> ('w, u8 list) writeback_call"
  wb_write :: "LinuxWriteSessionId \<Rightarrow> u64 \<Rightarrow> u8 list \<Rightarrow> ('w, LinuxWriteCommit) writeback_call"
  wb_truncate :: "LinuxWriteSessionId \<Rightarrow> u64 \<Rightarrow> ('w, LinuxWriteCommit) writeback_call"
  wb_sync :: "LinuxWriteSessionId \<Rightarrow> bool \<Rightarrow> ('w, LinuxWriteCommit option) writeback_call"
  wb_close :: "LinuxWriteSessionId \<Rightarrow> ('w, unit) writeback_call"

section \<open>Namespace mutations\<close>

record LinuxCreateFileRequest =
  cf_parent_key :: CloudItemKey
  cf_name :: string
  cf_mode :: u32
  cf_umask :: u32
  cf_access :: LinuxFileAccess
  cf_session_generation :: SessionGeneration

definition LinuxCreateFileRequest_new ::
  "CloudItemKey \<Rightarrow> string \<Rightarrow> u32 \<Rightarrow> u32 \<Rightarrow> LinuxFileAccess \<Rightarrow> SessionGeneration
   \<Rightarrow> LinuxCreateFileRequest linux_result" where
  "LinuxCreateFileRequest_new parent_key name mode umask access session_generation =
     res_bind (validate_linux_name name) (\<lambda>_.
     Inr \<lparr>cf_parent_key = parent_key, cf_name = name, cf_mode = mode, cf_umask = umask,
          cf_access = access, cf_session_generation = session_generation\<rparr>)"

record LinuxCreatedFile =
  cr_item :: CloudItem
  cr_inode_record :: LinuxInodeRecord
  cr_mutation_intent :: MutationIntent

record LinuxCreateFileAcceptance =
  ca_created :: LinuxCreatedFile
  ca_session :: LinuxWriteSession

record LinuxNamespaceItem =
  ni_item :: CloudItem
  ni_inode_record :: LinuxInodeRecord
  ni_mutation_intent :: MutationIntent

record LinuxNamespaceTombstone =
  nt_key :: CloudItemKey
  nt_inode_generation :: LinuxInodeGeneration
  nt_parent_key :: CloudItemKey
  nt_name :: string
  nt_kind :: LinuxNodeKind
  nt_mutation_intent :: MutationIntent

definition LinuxNamespaceTombstone_new ::
  "CloudItemKey \<Rightarrow> LinuxInodeGeneration \<Rightarrow> CloudItemKey \<Rightarrow> string \<Rightarrow> LinuxNodeKind \<Rightarrow> MutationIntent
   \<Rightarrow> LinuxNamespaceTombstone linux_result" where
  "LinuxNamespaceTombstone_new key inode_generation parent_key name kind mutation_intent =
     res_bind (validate_linux_name name) (\<lambda>_.
     Inr \<lparr>nt_key = key, nt_inode_generation = inode_generation, nt_parent_key = parent_key,
          nt_name = name, nt_kind = kind, nt_mutation_intent = mutation_intent\<rparr>)"

record LinuxNamespaceOverlay =
  no_items :: "LinuxNamespaceItem list"
  no_tombstones :: "LinuxNamespaceTombstone list"

definition LinuxNamespaceOverlay_default :: LinuxNamespaceOverlay where
  "LinuxNamespaceOverlay_default = \<lparr>no_items = [], no_tombstones = []\<rparr>"

record LinuxCreateDirectoryRequest =
  cd_parent_key :: CloudItemKey
  cd_name :: string
  cd_mode :: u32
  cd_umask :: u32
  cd_session_generation :: SessionGeneration

definition LinuxCreateDirectoryRequest_new ::
  "CloudItemKey \<Rightarrow> string \<Rightarrow> u32 \<Rightarrow> u32 \<Rightarrow> SessionGeneration \<Rightarrow> LinuxCreateDirectoryRequest linux_result" where
  "LinuxCreateDirectoryRequest_new parent_key name mode umask session_generation =
     res_bind (validate_linux_name name) (\<lambda>_.
     Inr \<lparr>cd_parent_key = parent_key, cd_name = name, cd_mode = mode, cd_umask = umask,
          cd_session_generation = session_generation\<rparr>)"

record LinuxRenameDestination =
  rd_key :: CloudItemKey
  rd_inode_generation :: LinuxInodeGeneration
  rd_kind :: LinuxNodeKind

record LinuxRenameRequest =
  rr_key :: CloudItemKey
  rr_inode_generation :: LinuxInodeGeneration
  rr_kind :: LinuxNodeKind
  rr_old_parent_key :: CloudItemKey
  rr_old_name :: string
  rr_new_parent_key :: CloudItemKey
  rr_new_name :: string
  rr_destination :: "LinuxRenameDestination option"
  rr_no_replace :: bool
  rr_session_generation :: SessionGeneration

definition LinuxRenameRequest_new ::
  "CloudItemKey \<Rightarrow> LinuxInodeGeneration \<Rightarrow> LinuxNodeKind \<Rightarrow> CloudItemKey \<Rightarrow> string \<Rightarrow> CloudItemKey \<Rightarrow> string
   \<Rightarrow> LinuxRenameDestination option \<Rightarrow> bool \<Rightarrow> SessionGeneration \<Rightarrow> LinuxRenameRequest linux_result" where
  "LinuxRenameRequest_new key inode_generation kind old_parent_key old_name new_parent_key new_name
       destination no_replace session_generation =
     res_bind (validate_linux_name old_name) (\<lambda>_.
     res_bind (validate_linux_name new_name) (\<lambda>_.
     Inr \<lparr>rr_key = key, rr_inode_generation = inode_generation, rr_kind = kind,
          rr_old_parent_key = old_parent_key, rr_old_name = old_name,
          rr_new_parent_key = new_parent_key, rr_new_name = new_name, rr_destination = destination,
          rr_no_replace = no_replace, rr_session_generation = session_generation\<rparr>))"

record LinuxRenameAcceptance =
  ra_item :: LinuxNamespaceItem
  ra_source :: LinuxNamespaceTombstone
  ra_replaced :: "LinuxNamespaceTombstone option"

record LinuxRemoveRequest =
  rm_key :: CloudItemKey
  rm_inode_generation :: LinuxInodeGeneration
  rm_parent_key :: CloudItemKey
  rm_name :: string
  rm_kind :: LinuxNodeKind
  rm_session_generation :: SessionGeneration

definition LinuxRemoveRequest_new ::
  "CloudItemKey \<Rightarrow> LinuxInodeGeneration \<Rightarrow> CloudItemKey \<Rightarrow> string \<Rightarrow> LinuxNodeKind \<Rightarrow> SessionGeneration
   \<Rightarrow> LinuxRemoveRequest linux_result" where
  "LinuxRemoveRequest_new key inode_generation parent_key name kind session_generation =
     res_bind (validate_linux_name name) (\<lambda>_.
     Inr \<lparr>rm_key = key, rm_inode_generation = inode_generation, rm_parent_key = parent_key,
          rm_name = name, rm_kind = kind, rm_session_generation = session_generation\<rparr>)"

type_synonym ('w, 'a) namespace_call = "('w, LinuxNamespaceMutationStoreError, 'a) io"

record 'w LinuxNamespaceMutationStore =
  ns_activate_namespace :: "CloudScope \<Rightarrow> SessionGeneration \<Rightarrow> ('w, LinuxCreatedFile list) namespace_call"
  ns_create_file :: "LinuxCreateFileRequest \<Rightarrow> ('w, LinuxCreateFileAcceptance) namespace_call"
  ns_open_created_file :: "CloudItemKey \<Rightarrow> SessionGeneration \<Rightarrow> ('w, LinuxWriteSession) namespace_call"
  ns_activate_namespace_overlay :: "CloudScope \<Rightarrow> SessionGeneration \<Rightarrow> ('w, LinuxNamespaceOverlay) namespace_call"
  ns_create_directory :: "LinuxCreateDirectoryRequest \<Rightarrow> ('w, LinuxNamespaceItem) namespace_call"
  ns_rename :: "LinuxRenameRequest \<Rightarrow> ('w, LinuxRenameAcceptance) namespace_call"
  ns_remove :: "LinuxRemoveRequest \<Rightarrow> ('w, LinuxNamespaceTombstone) namespace_call"

section \<open>Remote changes\<close>

record LinuxRemoteEntry =
  re_item :: CloudItem
  re_inode_record :: LinuxInodeRecord

record LinuxRemoteLocation =
  rl_parent_key :: CloudItemKey
  rl_name :: string

definition LinuxRemoteLocation_new :: "CloudItemKey \<Rightarrow> string \<Rightarrow> LinuxRemoteLocation linux_result" where
  "LinuxRemoteLocation_new parent_key name =
     res_bind (validate_linux_name name) (\<lambda>_. Inr \<lparr>rl_parent_key = parent_key, rl_name = name\<rparr>)"

record LinuxRemoteDelete =
  rx_key :: CloudItemKey
  rx_inode_record :: LinuxInodeRecord
  rx_parent_key :: CloudItemKey
  rx_name :: string
  rx_kind :: LinuxNodeKind

definition LinuxRemoteDelete_new ::
  "CloudItemKey \<Rightarrow> LinuxInodeRecord \<Rightarrow> CloudItemKey \<Rightarrow> string \<Rightarrow> LinuxNodeKind
   \<Rightarrow> LinuxRemoteDelete linux_result" where
  "LinuxRemoteDelete_new key inode_record parent_key name kind =
     res_bind (validate_linux_name name) (\<lambda>_.
     Inr \<lparr>rx_key = key, rx_inode_record = inode_record, rx_parent_key = parent_key,
          rx_name = name, rx_kind = kind\<rparr>)"

record LinuxRemoteUpsert =
  ru_entry :: LinuxRemoteEntry
  ru_previous :: "LinuxRemoteLocation option"
  ru_replaced :: "LinuxRemoteDelete option"

datatype LinuxRemoteChange = Upsert LinuxRemoteUpsert | Delete LinuxRemoteDelete

datatype LinuxInvalidation =
    Entry LinuxInode string
  | Inode LinuxInode
  | Delete LinuxInode LinuxInode string

end
