(* ===== verification/Linux_Engine.thy ===== *)
theory Linux_Engine
  imports Linux_Ports
begin

text \<open>
  The read-only Linux engine (\<open>linux/src/engine.rs\<close>): inode-based lookups over a product backend
  whose answers are checked, complete directory snapshots, and file handles bound to the content
  revision seen at open time. The functions that only call the backend work on any world; those
  that use a handle work on the pair of the handle state and the backend's world.
\<close>

section \<open>Nodes\<close>

record 'w LinuxReadOnlyEngine =
  ro_backend :: "'w CloudFilesBackend"
  ro_inodes :: LinuxInodeTable
  ro_attributes :: LinuxAttributePolicy

definition node_from_item_and_record ::
  "LinuxAttributePolicy \<Rightarrow> CloudItem \<Rightarrow> LinuxInodeRecord \<Rightarrow> LinuxNode linux_result" where
  "node_from_item_and_record attributes item record =
     res_bind (if is_root item then Inr () else validate_linux_name (item_name item)) (\<lambda>_.
     if item_key item \<noteq> ir_key record
     then Inl (InvalidBackendResponse ''linux inode record did not match the item stable identity'')
     else
       res_bind (case item_kind item of
                   CloudItemKind.File \<Rightarrow>
                     (case item_content item of
                        None \<Rightarrow> Inl (InvalidBackendResponse ''regular file omitted content metadata'')
                      | Some content \<Rightarrow>
                          Inr (LinuxNodeKind.File, cm_size content, ap_file_permissions attributes, 1))
                 | CloudItemKind.Directory \<Rightarrow>
                     Inr (LinuxNodeKind.Directory, 0, ap_directory_permissions attributes, 2))
         (\<lambda>(kind, n, permissions, links).
       Inr \<lparr>node_key = item_key item, node_generation = ir_generation record,
            node_attributes =
              \<lparr>fa_inode = ir_inode record, fa_size = n, fa_blocks = div_ceil n FUSE_BLOCK_SIZE,
               fa_kind = kind, fa_permissions = permissions, fa_links = links,
               fa_uid = ap_uid attributes, fa_gid = ap_gid attributes,
               fa_block_size = ap_block_size attributes,
               fa_time = ap_fallback_time attributes\<rparr>\<rparr>))"

definition node_from_item :: "'w LinuxReadOnlyEngine \<Rightarrow> CloudItem \<Rightarrow> LinuxNode linux_result" where
  "node_from_item self item =
     res_bind (if is_root item then Inr () else validate_linux_name (item_name item)) (\<lambda>_.
     res_bind (ok_or MissingInodeRecord (by_key (ro_inodes self) (item_key item))) (\<lambda>record.
     node_from_item_and_record (ro_attributes self) item record))"

section \<open>Loading items and children\<close>

definition load_item_for_overlay :: "'w LinuxReadOnlyEngine \<Rightarrow> LinuxInode \<Rightarrow> ('w, CloudItem) linux_call" where
  "load_item_for_overlay self inode =
     async_bind (async_lift (ok_or (UnknownInode (inode_get inode)) (by_inode (ro_inodes self) inode))) (\<lambda>record.
     async_bind (await (io_try Backend (fb_get_item (ro_backend self) (ir_key record)))) (\<lambda>item.
     if item_key item \<noteq> ir_key record
     then async_fail (InvalidBackendResponse ''get_item returned a different scoped stable identity'')
     else if is_root item \<noteq> (inode = LINUX_ROOT_INODE)
     then async_fail (InvalidBackendResponse ''get_item root shape did not match the restored inode role'')
     else async_return item))"

text \<open>One page of children, checked one by one.\<close>

fun accept_children ::
  "CloudItemKey \<Rightarrow> CloudItem list \<Rightarrow> string set \<times> CloudItem list \<Rightarrow> (string set \<times> CloudItem list) linux_result" where
  "accept_children parent [] acc = Inr acc"
| "accept_children parent (item # items) (seen_names, children) =
     (if key_scope (item_key item) \<noteq> key_scope parent \<or> item_parent_id item \<noteq> Some (key_item_id parent)
      then Inl (InvalidBackendResponse ''directory child escaped the requested parent scope'')
      else res_bind (validate_linux_name (item_name item)) (\<lambda>_.
        if item_name item \<in> seen_names
        then Inl (InvalidBackendResponse ''directory enumeration returned duplicate child names'')
        else accept_children parent items (insert (item_name item) seen_names, children @ [item])))"

text \<open>The local variables of the paging loop, which runs until a page has no successor.\<close>

record ChildrenScan =
  cs_cursor :: "PageCursor option"
  cs_seen_cursors :: "PageCursor set"
  cs_seen_names :: "string set"
  cs_children :: "CloudItem list"

definition ChildrenScan_start :: ChildrenScan where
  "ChildrenScan_start =
     \<lparr>cs_cursor = None, cs_seen_cursors = {}, cs_seen_names = {}, cs_children = []\<rparr>"

definition next_scan ::
  "CloudItemKey \<Rightarrow> CloudItemPage \<Rightarrow> ChildrenScan \<Rightarrow> (CloudItem list + ChildrenScan) linux_result" where
  "next_scan parent page l =
     res_bind (accept_children parent (page_items page) (cs_seen_names l, cs_children l)) (\<lambda>(seen_names, children).
     case page_next_cursor page of
       None \<Rightarrow> Inr (Inl children)
     | Some next_cursor \<Rightarrow>
         if next_cursor \<in> cs_seen_cursors l
         then Inl (InvalidBackendResponse ''directory pagination repeated a continuation cursor'')
         else Inr (Inr \<lparr>cs_cursor = Some next_cursor,
                        cs_seen_cursors = insert next_cursor (cs_seen_cursors l),
                        cs_seen_names = seen_names, cs_children = children\<rparr>))"

definition load_children_pass ::
  "'w LinuxReadOnlyEngine \<Rightarrow> CloudItemKey
   \<Rightarrow> (ChildrenScan \<times> 'w, LinuxCloudFilesError, CloudItem list option) io" where
  "load_children_pass self parent = (\<lambda>(l, w).
     case io_try Backend (fb_list_children (ro_backend self) parent (cs_cursor l)) w of
       (Inl error, w') \<Rightarrow> (Inl error, l, w')
     | (Inr page, w') \<Rightarrow>
         (case next_scan parent page l of
            Inl error \<Rightarrow> (Inl error, l, w')
          | Inr (Inl children) \<Rightarrow> (Inr (Some children), l, w')
          | Inr (Inr l') \<Rightarrow> (Inr None, l', w')))"

definition load_children_for_overlay ::
  "'w LinuxReadOnlyEngine \<Rightarrow> CloudItemKey \<Rightarrow> ('w, CloudItem list) linux_call" where
  "load_children_for_overlay self parent = async_loop (load_children_pass self parent) ChildrenScan_start"

definition load_children :: "'w LinuxReadOnlyEngine \<Rightarrow> CloudItemKey \<Rightarrow> ('w, CloudItem list) linux_call" where
  "load_children self parent =
     async_bind (load_children_for_overlay self parent) (\<lambda>children.
     if list_ex (\<lambda>item. by_key (ro_inodes self) (item_key item) = None) children
     then async_fail MissingInodeRecord
     else async_return children)"

section \<open>Lookups\<close>

definition readonly_lookup :: "'w LinuxReadOnlyEngine \<Rightarrow> LinuxInode \<Rightarrow> string \<Rightarrow> ('w, LinuxNode) linux_call" where
  "readonly_lookup self parent name =
     async_bind (async_lift (validate_linux_name name)) (\<lambda>_.
     async_bind (load_item_for_overlay self parent) (\<lambda>parent_item.
     if item_kind parent_item \<noteq> CloudItemKind.Directory
     then async_fail LinuxCloudFilesError.NotDirectory
     else
       async_bind (load_children self (item_key parent_item)) (\<lambda>children.
       case find (\<lambda>item. item_name item = name) children of
         None \<Rightarrow> async_fail (Backend (CloudBackendError_new CloudBackendErrorKind.NotFound))
       | Some item \<Rightarrow> async_lift (node_from_item self item))))"

definition readonly_getattr :: "'w LinuxReadOnlyEngine \<Rightarrow> LinuxInode \<Rightarrow> ('w, LinuxNode) linux_call" where
  "readonly_getattr self inode =
     async_bind (load_item_for_overlay self inode) (\<lambda>item. async_lift (node_from_item self item))"

definition hydrate_item_for_write ::
  "'w LinuxReadOnlyEngine \<Rightarrow> CloudItem \<Rightarrow> SessionGeneration
   \<Rightarrow> ('w, LinuxWriteOpenRequest \<times> u8 list) linux_call" where
  "hydrate_item_for_write self item session_generation =
     (if item_kind item \<noteq> CloudItemKind.File then async_fail NotFile
      else
        async_bind (async_lift (ok_or (InvalidBackendResponse ''regular file omitted content metadata'')
                                      (item_content item))) (\<lambda>content.
        let request = ContentReadRequest_whole (item_key item) (cm_revision content) (cm_size content) in
        async_bind (await (io_try Backend (fb_read_content (ro_backend self) request))) (\<lambda>response.
        async_bind (async_lift (res_map_err
            (\<lambda>_. InvalidBackendResponse
                   ''write hydration violated the requested revision or complete-file extent'')
            (validate_response request response))) (\<lambda>_.
        async_return
          (\<lparr>wo_key = item_key item, wo_base_revision = cm_revision content,
            wo_base_size = cm_size content, wo_session_generation = session_generation\<rparr>,
           resp_bytes response)))))"

definition hydrate_for_write ::
  "'w LinuxReadOnlyEngine \<Rightarrow> LinuxInode \<Rightarrow> SessionGeneration
   \<Rightarrow> ('w, LinuxWriteOpenRequest \<times> u8 list) linux_call" where
  "hydrate_for_write self inode session_generation =
     async_bind (load_item_for_overlay self inode) (\<lambda>item.
     hydrate_item_for_write self item session_generation)"

section \<open>Handles\<close>

record OpenFile =
  of_inode :: LinuxInode
  of_key :: CloudItemKey
  of_revision :: ContentRevision
  of_size :: u64

record HandleState =
  hs_next :: u64
  hs_files :: "LinuxFileHandle \<rightharpoonup> OpenFile"
  hs_directories :: "LinuxDirectoryHandle \<rightharpoonup> LinuxDirectorySnapshot"

definition HandleState_default :: HandleState where
  "HandleState_default = \<lparr>hs_next = 0, hs_files = Map.empty, hs_directories = Map.empty\<rparr>"

definition next_handle :: "u64 \<Rightarrow> (u64 \<times> u64) linux_result" where
  "next_handle counter =
     (let current = (if counter = 0 then 1 else counter) in
      case checked_add current 1 of
        None \<Rightarrow> Inl HandleExhausted
      | Some next \<Rightarrow> Inr (current, next))"

definition HandleState_allocate :: "(HandleState, LinuxCloudFilesError, u64) io" where
  "HandleState_allocate self =
     (case next_handle (hs_next self) of
        Inl error \<Rightarrow> (Inl error, self)
      | Inr (current, next) \<Rightarrow> (Inr current, self\<lparr>hs_next := next\<rparr>))"

type_synonym 'w readonly_world = "HandleState \<times> 'w"

definition readonly_open_file ::
  "'w readonly_world LinuxReadOnlyEngine \<Rightarrow> LinuxInode \<Rightarrow> ('w readonly_world, LinuxFileHandle) linux_call" where
  "readonly_open_file self inode =
     async_bind (load_item_for_overlay self inode) (\<lambda>item.
     if item_kind item \<noteq> CloudItemKind.File then async_fail NotFile
     else case item_content item of
       None \<Rightarrow> async_fail (InvalidBackendResponse ''regular file omitted content metadata'')
     | Some content \<Rightarrow>
         locked (io_bind HandleState_allocate (\<lambda>current handles.
           let handle = LinuxFileHandle current in
           (Inr handle,
            handles\<lparr>hs_files := (hs_files handles)(handle \<mapsto>
              \<lparr>of_inode = inode, of_key = item_key item, of_revision = cm_revision content,
               of_size = cm_size content\<rparr>)\<rparr>))))"

definition opened_file ::
  "LinuxInode \<Rightarrow> LinuxFileHandle \<Rightarrow> HandleState \<Rightarrow> OpenFile linux_result" where
  "opened_file inode handle handles =
     (case hs_files handles handle of
        None \<Rightarrow> Inl StaleHandle
      | Some opened \<Rightarrow> if of_inode opened \<noteq> inode then Inl StaleHandle else Inr opened)"

definition readonly_read_file ::
  "'w readonly_world LinuxReadOnlyEngine \<Rightarrow> LinuxInode \<Rightarrow> LinuxFileHandle \<Rightarrow> u64 \<Rightarrow> u32
   \<Rightarrow> ('w readonly_world, u8 list) linux_call" where
  "readonly_read_file self inode handle off n =
     async_bind (locked (\<lambda>handles. (opened_file inode handle handles, handles))) (\<lambda>opened.
     if n = 0 \<or> off \<ge> of_size opened then async_return []
     else
       let len = min (ucast n) (of_size opened - off) in
       async_bind (async_lift (res_map_err
           (\<lambda>_. InvalidBackendResponse ''validated FUSE range could not be represented by the core model'')
           (ByteRange_new off len))) (\<lambda>byte_range.
       let request = ContentReadRequest_range (of_key opened) (of_revision opened) (of_size opened) byte_range in
       async_bind (await (io_try Backend (fb_read_content (ro_backend self) request))) (\<lambda>response.
       async_bind (async_lift (res_map_err
           (\<lambda>_. InvalidBackendResponse ''content response violated the requested revision or range'')
           (validate_response request response))) (\<lambda>_.
       async_return (resp_bytes response)))))"

definition readonly_release_file :: "LinuxFileHandle \<Rightarrow> (HandleState, LinuxCloudFilesError, unit) io" where
  "readonly_release_file handle handles =
     (if hs_files handles handle = None then (Inl StaleHandle, handles)
      else (Inr (), handles\<lparr>hs_files := (hs_files handles)(handle := None)\<rparr>))"

text \<open>\<open>iter().map(..).collect::<Result<Vec<_>>>()\<close> stops at the first error.\<close>

fun try_map :: "('a \<Rightarrow> 'e + 'b) \<Rightarrow> 'a list \<Rightarrow> 'e + 'b list" where
  "try_map f [] = Inr []"
| "try_map f (x # xs) = res_bind (f x) (\<lambda>y. res_bind (try_map f xs) (\<lambda>ys. Inr (y # ys)))"

definition readonly_open_directory ::
  "'w readonly_world LinuxReadOnlyEngine \<Rightarrow> LinuxInode \<Rightarrow> ('w readonly_world, LinuxDirectoryHandle) linux_call" where
  "readonly_open_directory self inode =
     async_bind (load_item_for_overlay self inode) (\<lambda>item.
     if item_kind item \<noteq> CloudItemKind.Directory then async_fail LinuxCloudFilesError.NotDirectory
     else
       async_bind (load_children self (item_key item)) (\<lambda>children.
       async_bind (async_lift (try_map
           (\<lambda>child. res_bind (node_from_item self child) (\<lambda>node. Inr (from_node (item_name child) node)))
           children)) (\<lambda>entries.
       async_bind (async_lift (case item_parent_id item of
           Some parent_id \<Rightarrow>
             res_bind (ok_or MissingInodeRecord
               (by_key (ro_inodes self) \<lparr>key_scope = key_scope (item_key item), key_item_id = parent_id\<rparr>))
               (\<lambda>record. Inr (ir_inode record))
         | None \<Rightarrow> Inr inode)) (\<lambda>parent.
       locked (io_bind HandleState_allocate (\<lambda>current handles.
         let handle = LinuxDirectoryHandle current in
         (Inr handle,
          handles\<lparr>hs_directories := (hs_directories handles)(handle \<mapsto>
            \<lparr>ds_directory = inode, ds_parent = parent, ds_entries = entries\<rparr>)\<rparr>)))))))"

definition readonly_directory_snapshot ::
  "LinuxInode \<Rightarrow> LinuxDirectoryHandle \<Rightarrow> HandleState \<Rightarrow> LinuxDirectorySnapshot linux_result" where
  "readonly_directory_snapshot inode handle handles =
     (case hs_directories handles handle of
        None \<Rightarrow> Inl StaleHandle
      | Some snapshot \<Rightarrow> if ds_directory snapshot \<noteq> inode then Inl StaleHandle else Inr snapshot)"

definition readonly_release_directory ::
  "LinuxDirectoryHandle \<Rightarrow> (HandleState, LinuxCloudFilesError, unit) io" where
  "readonly_release_directory handle handles =
     (if hs_directories handles handle = None then (Inl StaleHandle, handles)
      else (Inr (), handles\<lparr>hs_directories := (hs_directories handles)(handle := None)\<rparr>))"

end
