(* ===== verification/Linux_Overlay.thy ===== *)
theory Linux_Overlay
  imports Linux_Engine
begin

text \<open>
  The state of the writable Linux engine (\<open>linux/src/writeback.rs\<close>) and its critical sections:
  open handles, dirty snapshots, and the three overlays over the backend's namespace (accepted
  creates, accepted namespace mutations, remote changes) with their indices. Every function here
  runs under the state mutex, or only checks an answer of a port.
\<close>

section \<open>The parent and name index\<close>

type_synonym ParentNameKey = "CloudItemId \<times> string"

record 'v ParentNameIndex =
  by_parent :: "CloudItemId \<rightharpoonup> (string \<times> 'v) list"

definition ParentNameIndex_default :: "'v ParentNameIndex" where
  "ParentNameIndex_default = \<lparr>by_parent = Map.empty\<rparr>"

definition index_get :: "'v ParentNameIndex \<Rightarrow> ParentNameKey \<Rightarrow> 'v option" where
  "index_get self key =
     (case by_parent self (fst key) of None \<Rightarrow> None | Some children \<Rightarrow> map_of children (snd key))"

definition index_contains_key :: "'v ParentNameIndex \<Rightarrow> ParentNameKey \<Rightarrow> bool" where
  "index_contains_key self key \<longleftrightarrow> index_get self key \<noteq> None"

definition index_insert ::
  "ParentNameKey \<Rightarrow> 'v \<Rightarrow> 'v ParentNameIndex \<Rightarrow> 'v option \<times> 'v ParentNameIndex" where
  "index_insert key value self =
     (let children = (case by_parent self (fst key) of None \<Rightarrow> [] | Some children \<Rightarrow> children) in
      (map_of children (snd key),
       \<lparr>by_parent = (by_parent self)(fst key \<mapsto> AList.update (snd key) value children)\<rparr>))"

definition index_remove ::
  "ParentNameKey \<Rightarrow> 'v ParentNameIndex \<Rightarrow> 'v option \<times> 'v ParentNameIndex" where
  "index_remove key self =
     (case by_parent self (fst key) of
        None \<Rightarrow> (None, self)
      | Some children \<Rightarrow>
          let removed = map_of children (snd key);
              children' = AList.delete (snd key) children
          in (removed,
              \<lparr>by_parent = (by_parent self)
                 (fst key := if children' = [] then None else Some children')\<rparr>))"

definition index_children :: "'v ParentNameIndex \<Rightarrow> CloudItemId \<Rightarrow> (string \<times> 'v) list" where
  "index_children self parent =
     (case by_parent self parent of None \<Rightarrow> [] | Some children \<Rightarrow> children)"

text \<open>Insertion and removal as state updates, where the caller drops the old value.\<close>

definition index_put :: "ParentNameKey \<Rightarrow> 'v \<Rightarrow> 'v ParentNameIndex \<Rightarrow> 'v ParentNameIndex" where
  "index_put key value self = snd (index_insert key value self)"

definition index_drop :: "ParentNameKey \<Rightarrow> 'v ParentNameIndex \<Rightarrow> 'v ParentNameIndex" where
  "index_drop key self = snd (index_remove key self)"

section \<open>The state\<close>

text \<open>\<open>OpenFile\<close> has the one variant \<open>Writeback\<close>.\<close>

record WritebackFile =
  wf_inode :: LinuxInode
  wf_access :: LinuxFileAccess
  wf_session :: LinuxWriteSessionId
  wf_size :: u64
  wf_generation :: "LocalContentGeneration option"

record WritableState =
  lw_next :: u64
  lw_files :: "(LinuxFileHandle \<times> WritebackFile) list"
  lw_directories :: "LinuxDirectoryHandle \<rightharpoonup> LinuxDirectorySnapshot"
  lw_dirty_snapshots :: "LinuxInode \<rightharpoonup> LocalContentSnapshot"
  lw_created_by_inode :: "LinuxInode \<rightharpoonup> LinuxCreatedFile"
  lw_created_by_key :: "CloudItemKey \<rightharpoonup> LinuxInode"
  lw_created_by_name :: "LinuxInode ParentNameIndex"
  lw_namespace_by_inode :: "LinuxInode \<rightharpoonup> LinuxNamespaceItem"
  lw_namespace_by_key :: "CloudItemKey \<rightharpoonup> LinuxInode"
  lw_namespace_by_name :: "LinuxInode ParentNameIndex"
  lw_remote_by_inode :: "LinuxInode \<rightharpoonup> LinuxRemoteEntry"
  lw_remote_by_key :: "CloudItemKey \<rightharpoonup> LinuxInode"
  lw_remote_by_name :: "LinuxInode ParentNameIndex"
  lw_remote_tombstones_by_name :: "unit ParentNameIndex"
  lw_remote_deleted_keys :: "CloudItemKey set"
  lw_remote_deleted_inodes :: "LinuxInode set"
  lw_tombstones_by_name :: "LinuxNamespaceTombstone ParentNameIndex"
  lw_deleted_keys :: "CloudItemKey set"

definition WritableState_default :: WritableState where
  "WritableState_default =
     \<lparr>lw_next = 0, lw_files = [], lw_directories = Map.empty, lw_dirty_snapshots = Map.empty,
      lw_created_by_inode = Map.empty, lw_created_by_key = Map.empty,
      lw_created_by_name = ParentNameIndex_default,
      lw_namespace_by_inode = Map.empty, lw_namespace_by_key = Map.empty,
      lw_namespace_by_name = ParentNameIndex_default,
      lw_remote_by_inode = Map.empty, lw_remote_by_key = Map.empty,
      lw_remote_by_name = ParentNameIndex_default,
      lw_remote_tombstones_by_name = ParentNameIndex_default,
      lw_remote_deleted_keys = {}, lw_remote_deleted_inodes = {},
      lw_tombstones_by_name = ParentNameIndex_default, lw_deleted_keys = {}\<rparr>"

type_synonym 'a state_call = "(WritableState, LinuxCloudFilesError, 'a) io"

definition WritableState_allocate :: "LinuxFileHandle state_call" where
  "WritableState_allocate self =
     (case next_handle (lw_next self) of
        Inl error \<Rightarrow> (Inl error, self)
      | Inr (current, next) \<Rightarrow> (LinuxFileHandle_new current, self\<lparr>lw_next := next\<rparr>))"

definition WritableState_allocate_directory :: "LinuxDirectoryHandle state_call" where
  "WritableState_allocate_directory self =
     (case next_handle (lw_next self) of
        Inl error \<Rightarrow> (Inl error, self)
      | Inr (current, next) \<Rightarrow> (LinuxDirectoryHandle_new current, self\<lparr>lw_next := next\<rparr>))"

record 'w LinuxWritableEngine =
  we_readonly :: "'w LinuxReadOnlyEngine"
  we_store :: "'w LinuxWritebackStore"
  we_namespace_store :: "'w LinuxNamespaceMutationStore option"
  we_session_generation :: SessionGeneration

abbreviation inode_table :: "'w LinuxWritableEngine \<Rightarrow> LinuxInodeTable" where
  "inode_table self \<equiv> ro_inodes (we_readonly self)"

abbreviation node_from ::
  "'w LinuxWritableEngine \<Rightarrow> CloudItem \<Rightarrow> LinuxInodeRecord \<Rightarrow> LinuxNode linux_result" where
  "node_from self item record \<equiv> node_from_item_and_record (ro_attributes (we_readonly self)) item record"

abbreviation name_at :: "CloudItemKey \<Rightarrow> string \<Rightarrow> ParentNameKey" where
  "name_at parent_key name \<equiv> (key_item_id parent_key, name)"

section \<open>Identity lookups\<close>

definition overlay_item :: "WritableState \<Rightarrow> LinuxInode \<Rightarrow> (CloudItem \<times> LinuxInodeRecord) option" where
  "overlay_item state inode =
     (case lw_namespace_by_inode state inode of
        Some item \<Rightarrow> Some (ni_item item, ni_inode_record item)
      | None \<Rightarrow>
          (case lw_created_by_inode state inode of
             Some created \<Rightarrow> Some (cr_item created, cr_inode_record created)
           | None \<Rightarrow> map_option (\<lambda>entry. (re_item entry, re_inode_record entry)) (lw_remote_by_inode state inode)))"

definition record_for_key_in_state ::
  "'w LinuxWritableEngine \<Rightarrow> WritableState \<Rightarrow> CloudItemKey \<Rightarrow> LinuxInodeRecord option" where
  "record_for_key_in_state self state key =
     (case map_option ni_inode_record
             (Option.bind (lw_namespace_by_key state key) (lw_namespace_by_inode state)) of
        Some record \<Rightarrow> Some record
      | None \<Rightarrow>
     (case map_option cr_inode_record
             (Option.bind (lw_created_by_key state key) (lw_created_by_inode state)) of
        Some record \<Rightarrow> Some record
      | None \<Rightarrow>
     (case map_option re_inode_record
             (Option.bind (lw_remote_by_key state key) (lw_remote_by_inode state)) of
        Some record \<Rightarrow> Some record
      | None \<Rightarrow> by_key (inode_table self) key)))"

definition inode_for_key_in_state ::
  "'w LinuxWritableEngine \<Rightarrow> WritableState \<Rightarrow> CloudItemKey \<Rightarrow> LinuxInode option" where
  "inode_for_key_in_state self state key = map_option ir_inode (record_for_key_in_state self state key)"

definition key_for_inode_in_state ::
  "'w LinuxWritableEngine \<Rightarrow> WritableState \<Rightarrow> LinuxInode \<Rightarrow> CloudItemKey option" where
  "key_for_inode_in_state self state inode =
     (case lw_namespace_by_inode state inode of
        Some item \<Rightarrow> Some (item_key (ni_item item))
      | None \<Rightarrow>
     (case lw_created_by_inode state inode of
        Some item \<Rightarrow> Some (item_key (cr_item item))
      | None \<Rightarrow>
     (case lw_remote_by_inode state inode of
        Some item \<Rightarrow> Some (item_key (re_item item))
      | None \<Rightarrow> map_option ir_key (by_inode (inode_table self) inode))))"

definition item_key_of ::
  "'w LinuxWritableEngine \<Rightarrow> WritableState \<Rightarrow> LinuxInode \<Rightarrow> CloudItemKey linux_result" where
  "item_key_of self state inode =
     (case lw_created_by_inode state inode of
        Some created \<Rightarrow> Inr (item_key (cr_item created))
      | None \<Rightarrow>
     (case lw_namespace_by_inode state inode of
        Some item \<Rightarrow> Inr (item_key (ni_item item))
      | None \<Rightarrow>
     (case lw_remote_by_inode state inode of
        Some item \<Rightarrow> Inr (item_key (re_item item))
      | None \<Rightarrow>
          ok_or (UnknownInode (inode_get inode)) (map_option ir_key (by_inode (inode_table self) inode)))))"

section \<open>Sessions and commits\<close>

definition validate_opened_session ::
  "'w LinuxWritableEngine \<Rightarrow> LinuxInode \<Rightarrow> CloudItemKey \<Rightarrow> LinuxWriteSession \<Rightarrow> bool \<Rightarrow> unit state_call" where
  "validate_opened_session self inode key session recovered state =
     (if ws_key session \<noteq> key
      then (Inl (InvalidBackendResponse ''writeback store opened a different stable item identity''), state)
      else if ws_session_generation session \<noteq> we_session_generation self
      then (Inl (InvalidBackendResponse ''writeback store opened a session for a different mount generation''), state)
      else case ws_snapshot session of
        None \<Rightarrow>
          if recovered
          then (Inl (InvalidBackendResponse ''recovered writeback session omitted its immutable dirty snapshot''), state)
          else (Inr (), state)
      | Some snapshot \<Rightarrow>
          if snap_item_key snapshot \<noteq> key \<or> snap_size snapshot \<noteq> ws_size session
          then (Inl (InvalidBackendResponse ''writeback session snapshot did not match its item or logical size''), state)
          else
            let accept = (Inr (), state\<lparr>lw_dirty_snapshots := (lw_dirty_snapshots state)(inode \<mapsto> snapshot)\<rparr>) in
            case lw_dirty_snapshots state inode of
              None \<Rightarrow> accept
            | Some current \<Rightarrow>
                if snap_generation current > snap_generation snapshot
                then (Inl (InvalidBackendResponse
                        ''recovered writeback session regressed the active dirty generation''), state)
                else if snap_generation current = snap_generation snapshot \<and> current \<noteq> snapshot
                then (Inl (InvalidBackendResponse
                        ''one dirty generation identified different immutable snapshots''), state)
                else accept)"

text \<open>The last part of \<open>apply_commit\<close>: the handle and the dirty snapshot follow the commit.\<close>

definition store_commit :: "LinuxFileHandle \<Rightarrow> LinuxInode \<Rightarrow> LocalContentSnapshot \<Rightarrow> unit state_call" where
  "store_commit handle inode snapshot state =
     (case map_of (lw_files state) handle of
        None \<Rightarrow> (Inl StaleHandle, state)
      | Some opened \<Rightarrow>
          let current = lw_dirty_snapshots state inode;
              opened' = opened\<lparr>wf_size := snap_size snapshot, wf_generation := Some (snap_generation snapshot)\<rparr>
          in (Inr (),
              state\<lparr>lw_files := AList.update handle opened' (lw_files state),
                    lw_dirty_snapshots :=
                      (if (case current of None \<Rightarrow> True
                                         | Some current \<Rightarrow> snap_generation snapshot \<ge> snap_generation current)
                       then (lw_dirty_snapshots state)(inode \<mapsto> snapshot)
                       else lw_dirty_snapshots state)\<rparr>))"

text \<open>\<open>is_some_and\<close> on an option.\<close>

definition is_some_and :: "'a option \<Rightarrow> ('a \<Rightarrow> bool) \<Rightarrow> bool" where
  "is_some_and x P = (case x of None \<Rightarrow> False | Some a \<Rightarrow> P a)"

definition apply_commit ::
  "'w LinuxWritableEngine \<Rightarrow> LinuxFileHandle \<Rightarrow> LinuxInode \<Rightarrow> LinuxWriteCommit \<Rightarrow> u64 option \<Rightarrow> bool
   \<Rightarrow> unit state_call" where
  "apply_commit self handle inode commit minimum_size allow_same_generation state =
     (let snapshot = wc_snapshot commit in
      case item_key_of self state inode of
        Inl error \<Rightarrow> (Inl error, state)
      | Inr expected_key \<Rightarrow>
      if snap_item_key snapshot \<noteq> expected_key
      then (Inl (InvalidBackendResponse ''writeback commit returned a different stable item identity''), state)
      else if is_some_and minimum_size (\<lambda>minimum. snap_size snapshot < minimum)
      then (Inl (InvalidBackendResponse ''writeback commit size omitted accepted bytes''), state)
      else case map_of (lw_files state) handle of
        None \<Rightarrow> (Inl StaleHandle, state)
      | Some opened \<Rightarrow>
      if wf_inode opened \<noteq> inode then (Inl StaleHandle, state)
      else if is_some_and (wf_generation opened) (\<lambda>previous.
          snap_generation snapshot < previous
          \<or> (\<not> allow_same_generation \<and> snap_generation snapshot = previous))
      then (Inl (InvalidBackendResponse ''writeback commit did not advance the immutable local generation''), state)
      else
        let current = lw_dirty_snapshots state inode in
        if allow_same_generation
           \<and> is_some_and current (\<lambda>current.
               snap_generation snapshot = snap_generation current \<and> current \<noteq> snapshot)
        then (Inl (InvalidBackendResponse ''one dirty generation identified different immutable snapshots''), state)
        else if is_some_and current (\<lambda>current.
            snap_generation snapshot < snap_generation current
            \<or> (\<not> allow_same_generation \<and> snap_generation snapshot = snap_generation current))
        then
          (if allow_same_generation
              \<and> is_some_and current (\<lambda>current. snap_generation snapshot < snap_generation current)
           then (Inr (), state)
           else (Inl (InvalidBackendResponse ''writeback commit did not advance the active dirty generation''), state))
        else store_commit handle inode snapshot state)"

definition write_session ::
  "LinuxInode \<Rightarrow> LinuxFileHandle \<Rightarrow> WritableState \<Rightarrow> LinuxWriteSessionId linux_result" where
  "write_session inode handle state =
     (case map_of (lw_files state) handle of
        Some opened \<Rightarrow>
          if wf_inode opened = inode \<and> writable (wf_access opened) then Inr (wf_session opened)
          else Inl AccessModeMismatch
      | None \<Rightarrow> Inl StaleHandle)"

definition sync_session ::
  "LinuxInode \<Rightarrow> LinuxFileHandle \<Rightarrow> WritableState \<Rightarrow> LinuxWriteSessionId option linux_result" where
  "sync_session inode handle state =
     (case map_of (lw_files state) handle of
        Some opened \<Rightarrow>
          if wf_inode opened = inode \<and> writable (wf_access opened) then Inr (Some (wf_session opened))
          else if wf_access opened = Read \<and> wf_inode opened = inode then Inr None
          else Inl StaleHandle
      | None \<Rightarrow> Inl StaleHandle)"

definition restore_dirty_snapshot ::
  "'w LinuxWritableEngine \<Rightarrow> LocalContentSnapshot \<Rightarrow> unit state_call" where
  "restore_dirty_snapshot self snapshot state =
     (if key_scope (snap_item_key snapshot) \<noteq> it_scope (inode_table self) then (Inl ScopeMismatch, state)
      else
        case (case by_key (inode_table self) (snap_item_key snapshot) of
                Some record \<Rightarrow> Some (ir_inode record)
              | None \<Rightarrow>
                  (case lw_created_by_key state (snap_item_key snapshot) of
                     Some inode \<Rightarrow> Some inode
                   | None \<Rightarrow>
                       (case lw_namespace_by_key state (snap_item_key snapshot) of
                          Some inode \<Rightarrow> Some inode
                        | None \<Rightarrow> lw_remote_by_key state (snap_item_key snapshot)))) of
          None \<Rightarrow>
            (Inl (InvalidBackendResponse ''writeback recovery returned an item without a restored inode record''), state)
        | Some inode \<Rightarrow>
            if inode = LINUX_ROOT_INODE
            then (Inl (InvalidBackendResponse ''writeback recovery returned a dirty snapshot for the mount root''), state)
            else
              let state' = state\<lparr>lw_dirty_snapshots := (lw_dirty_snapshots state)(inode \<mapsto> snapshot)\<rparr> in
              if is_some_and (lw_dirty_snapshots state inode) (\<lambda>previous. previous \<noteq> snapshot)
              then (Inl (InvalidBackendResponse
                      ''writeback recovery returned conflicting snapshots for one inode''), state')
              else (Inr (), state'))"

text \<open>\<open>for x in xs { f(x)?; }\<close>.\<close>

fun io_each :: "('a \<Rightarrow> ('w, 'e, unit) io) \<Rightarrow> 'a list \<Rightarrow> ('w, 'e, unit) io" where
  "io_each f [] = io_return ()"
| "io_each f (x # xs) = io_bind (f x) (\<lambda>_. io_each f xs)"

definition restore_dirty_snapshots ::
  "'w LinuxWritableEngine \<Rightarrow> LocalContentSnapshot list \<Rightarrow> unit state_call" where
  "restore_dirty_snapshots self snapshots = io_each (restore_dirty_snapshot self) snapshots"

end
