(* ===== verification/Linux_Namespace.thy ===== *)
theory Linux_Namespace
  imports Linux_Overlay
begin

text \<open>
  Namespace transitions of the writable Linux engine (\<open>linux/src/writeback.rs\<close>): the checks of
  what the namespace store and the remote change feed deliver, and the critical sections that
  publish an accepted create, rename, removal or remote change in the overlays.
\<close>

section \<open>Checks of accepted mutations\<close>

definition validate_namespace_item ::
  "'w LinuxWritableEngine \<Rightarrow> LinuxNamespaceItem \<Rightarrow> unit linux_result" where
  "validate_namespace_item self item =
     res_bind (res_map_err (\<lambda>_. InvalidBackendResponse ''namespace item returned an invalid mutation intent'')
                (validate_for_persistence (ni_mutation_intent item))) (\<lambda>_.
     if is_root (ni_item item)
        \<or> item_key (ni_item item) \<noteq> ir_key (ni_inode_record item)
        \<or> ir_inode (ni_inode_record item) = LINUX_ROOT_INODE
        \<or> key_scope (item_key (ni_item item)) \<noteq> it_scope (inode_table self)
        \<or> mi_session_generation (ni_mutation_intent item) > we_session_generation self
     then Inl (InvalidBackendResponse ''namespace item returned an invalid stable mapping'')
     else validate_linux_name (item_name (ni_item item)))"

definition validate_namespace_create ::
  "'w LinuxWritableEngine \<Rightarrow> LinuxCreateDirectoryRequest \<Rightarrow> LinuxNamespaceItem \<Rightarrow> unit linux_result" where
  "validate_namespace_create self request item =
     res_bind (validate_namespace_item self item) (\<lambda>_.
     case mi_desired (ni_mutation_intent item) of
       Create scope parent_id name kind \<Rightarrow>
         if item_kind (ni_item item) \<noteq> CloudItemKind.Directory
            \<or> item_content (ni_item item) \<noteq> None
            \<or> item_parent_id (ni_item item) \<noteq> Some (key_item_id (cd_parent_key request))
            \<or> item_name (ni_item item) \<noteq> cd_name request
            \<or> scope \<noteq> key_scope (cd_parent_key request)
            \<or> parent_id \<noteq> key_item_id (cd_parent_key request)
            \<or> name \<noteq> cd_name request
            \<or> kind \<noteq> CloudItemKind.Directory
            \<or> mi_session_generation (ni_mutation_intent item) \<noteq> cd_session_generation request
         then Inl (InvalidBackendResponse ''directory create acceptance did not match the native request'')
         else Inr ()
     | _ \<Rightarrow> Inl (InvalidBackendResponse ''directory create did not persist a create mutation''))"

definition validate_rename_acceptance ::
  "'w LinuxWritableEngine \<Rightarrow> LinuxRenameRequest \<Rightarrow> LinuxNamespaceItem \<Rightarrow> LinuxNamespaceTombstone
   \<Rightarrow> LinuxNamespaceTombstone option \<Rightarrow> unit linux_result" where
  "validate_rename_acceptance self request item source replaced =
     res_bind (validate_namespace_item self item) (\<lambda>_.
     case mi_desired (ni_mutation_intent item) of
       ModifyMetadata key parent_id name \<Rightarrow>
         (let expected_kind = (case rr_kind request of
                                 LinuxNodeKind.File \<Rightarrow> CloudItemKind.File
                               | LinuxNodeKind.Directory \<Rightarrow> CloudItemKind.Directory) in
          if item_key (ni_item item) \<noteq> rr_key request
             \<or> ir_key (ni_inode_record item) \<noteq> rr_key request
             \<or> ir_generation (ni_inode_record item) \<noteq> rr_inode_generation request
             \<or> item_kind (ni_item item) \<noteq> expected_kind
             \<or> item_parent_id (ni_item item) \<noteq> Some (key_item_id (rr_new_parent_key request))
             \<or> item_name (ni_item item) \<noteq> rr_new_name request
             \<or> key \<noteq> rr_key request
             \<or> parent_id \<noteq> Some (key_item_id (rr_new_parent_key request))
             \<or> name \<noteq> Some (rr_new_name request)
             \<or> mi_origin (ni_mutation_intent item) \<noteq> PlatformCommand
             \<or> mi_session_generation (ni_mutation_intent item) \<noteq> rr_session_generation request
             \<or> nt_key source \<noteq> rr_key request
             \<or> nt_inode_generation source \<noteq> rr_inode_generation request
             \<or> nt_parent_key source \<noteq> rr_old_parent_key request
             \<or> nt_name source \<noteq> rr_old_name request
             \<or> nt_kind source \<noteq> rr_kind request
             \<or> mi_operation_id (nt_mutation_intent source) \<noteq> mi_operation_id (ni_mutation_intent item)
          then Inl (InvalidBackendResponse ''rename acceptance substituted namespace identity or intent'')
          else case (rr_destination request, replaced) of
            (None, None) \<Rightarrow> Inr ()
          | (Some destination, replaced) \<Rightarrow>
              if rr_no_replace request
              then Inl (InvalidBackendResponse ''no-replace rename accepted an existing destination'')
              else (case replaced of
                Some replaced \<Rightarrow>
                  if nt_key replaced = rd_key destination
                     \<and> nt_inode_generation replaced = rd_inode_generation destination
                     \<and> nt_kind replaced = rd_kind destination
                     \<and> nt_parent_key replaced = rr_new_parent_key request
                     \<and> nt_name replaced = rr_new_name request
                  then Inr ()
                  else Inl (InvalidBackendResponse ''rename replacement tombstone did not match the destination'')
              | None \<Rightarrow> Inl (InvalidBackendResponse ''rename replacement tombstone did not match the destination''))
          | (None, Some _) \<Rightarrow>
              Inl (InvalidBackendResponse ''rename replacement tombstone did not match the destination''))
     | _ \<Rightarrow> Inl (InvalidBackendResponse ''rename did not persist a metadata mutation''))"

definition validate_remove_acceptance ::
  "LinuxRemoveRequest \<Rightarrow> LinuxNamespaceTombstone \<Rightarrow> unit linux_result" where
  "validate_remove_acceptance request tombstone =
     (let intent = nt_mutation_intent tombstone in
      if nt_key tombstone \<noteq> rm_key request
         \<or> nt_inode_generation tombstone \<noteq> rm_inode_generation request
         \<or> nt_parent_key tombstone \<noteq> rm_parent_key request
         \<or> nt_name tombstone \<noteq> rm_name request
         \<or> nt_kind tombstone \<noteq> rm_kind request
         \<or> mi_origin intent \<noteq> PlatformCommand
         \<or> mi_session_generation intent \<noteq> rm_session_generation request
         \<or> mi_desired intent \<noteq> DesiredMutation.Delete (rm_key request)
      then Inl (InvalidBackendResponse ''remove acceptance substituted namespace identity or intent'')
      else Inr ())"

definition ensure_namespace_item_is_unique ::
  "'w LinuxWritableEngine \<Rightarrow> WritableState \<Rightarrow> LinuxNamespaceItem \<Rightarrow> ParentNameKey \<Rightarrow> CloudItemKey option
   \<Rightarrow> unit linux_result" where
  "ensure_namespace_item_is_unique self state item name_key replacing_key =
     (let record = ni_inode_record item;
          static_key_conflict = is_some_and (by_key (inode_table self) (item_key (ni_item item)))
            (\<lambda>existing. replacing_key \<noteq> Some (ir_key existing));
          static_inode_conflict = is_some_and (by_inode (inode_table self) (ir_inode record))
            (\<lambda>existing. replacing_key \<noteq> Some (ir_key existing));
          dynamic_key_conflict = is_some_and (lw_namespace_by_key state (item_key (ni_item item)))
            (\<lambda>_. replacing_key \<noteq> Some (item_key (ni_item item)));
          dynamic_inode_conflict = is_some_and (lw_namespace_by_inode state (ir_inode record))
            (\<lambda>existing. replacing_key \<noteq> Some (item_key (ni_item existing)));
          name_conflict = is_some_and
            (case index_get (lw_namespace_by_name state) name_key of
               Some inode \<Rightarrow> Some inode
             | None \<Rightarrow> index_get (lw_created_by_name state) name_key)
            (\<lambda>inode. inode \<noteq> ir_inode record)
      in if static_key_conflict \<or> static_inode_conflict \<or> dynamic_key_conflict \<or> dynamic_inode_conflict
            \<or> name_conflict
         then Inl (InvalidBackendResponse
                ''namespace store returned a duplicate key, inode, or parent/name mapping'')
         else Inr ())"

definition validate_created_session ::
  "'w LinuxWritableEngine \<Rightarrow> LinuxCreatedFile \<Rightarrow> LinuxWriteSession \<Rightarrow> unit linux_result" where
  "validate_created_session self created session =
     (if ws_key session \<noteq> item_key (cr_item created)
      then Inl (InvalidBackendResponse ''create staging session returned a different stable item identity'')
      else if ws_size session \<noteq> 0 \<or> ws_snapshot session \<noteq> None
      then Inl (InvalidBackendResponse ''create staging session was not a clean empty file'')
      else if ws_session_generation session \<noteq> we_session_generation self
      then Inl (InvalidBackendResponse ''create staging session used another mount generation'')
      else Inr ())"

definition validate_created_file ::
  "'w LinuxWritableEngine \<Rightarrow> LinuxCreatedFile \<Rightarrow> LinuxCreateFileRequest option \<Rightarrow> unit linux_result" where
  "validate_created_file self created request =
     (let item = cr_item created; record = cr_inode_record created; intent = cr_mutation_intent created in
      res_bind (res_map_err (\<lambda>_. InvalidBackendResponse ''namespace store returned an invalid durable mutation intent'')
                 (validate_for_persistence intent)) (\<lambda>_.
      if item_kind item \<noteq> CloudItemKind.File \<or> is_root item
      then Inl (InvalidBackendResponse ''namespace store create did not return a non-root regular file'')
      else if (case item_content item of None \<Rightarrow> True | Some content \<Rightarrow> cm_size content \<noteq> 0)
      then Inl (InvalidBackendResponse ''namespace store create did not return empty file metadata'')
      else if ir_key record \<noteq> item_key item \<or> ir_inode record = LINUX_ROOT_INODE
      then Inl (InvalidBackendResponse ''namespace store inode allocation did not match the created item'')
      else if key_scope (item_key item) \<noteq> it_scope (inode_table self) then Inl ScopeMismatch
      else case mi_desired intent of
        Create scope parent_id name kind \<Rightarrow>
          if mi_origin intent \<noteq> PlatformCommand
             \<or> scope \<noteq> key_scope (item_key item)
             \<or> item_parent_id item \<noteq> Some parent_id
             \<or> item_name item \<noteq> name
             \<or> kind \<noteq> CloudItemKind.File
          then Inl (InvalidBackendResponse ''namespace store mutation intent did not match the created file'')
          else if mi_session_generation intent > we_session_generation self
          then Inl (InvalidBackendResponse ''recovered create intent came from a future mount generation'')
          else if is_some_and request (\<lambda>request.
              key_scope (cf_parent_key request) \<noteq> scope
              \<or> key_item_id (cf_parent_key request) \<noteq> parent_id
              \<or> cf_name request \<noteq> name
              \<or> cf_session_generation request \<noteq> mi_session_generation intent)
          then Inl (InvalidBackendResponse ''namespace store create acceptance did not match the native request'')
          else validate_linux_name (item_name item)
      | _ \<Rightarrow> Inl (InvalidBackendResponse ''namespace store did not persist a create mutation intent'')))"

definition ensure_created_file_is_unique ::
  "'w LinuxWritableEngine \<Rightarrow> WritableState \<Rightarrow> LinuxCreatedFile \<Rightarrow> ParentNameKey \<Rightarrow> unit linux_result" where
  "ensure_created_file_is_unique self state created name_key =
     (let record = cr_inode_record created in
      if by_key (inode_table self) (item_key (cr_item created)) \<noteq> None
         \<or> by_inode (inode_table self) (ir_inode record) \<noteq> None
         \<or> lw_created_by_key state (item_key (cr_item created)) \<noteq> None
         \<or> lw_created_by_inode state (ir_inode record) \<noteq> None
         \<or> index_contains_key (lw_created_by_name state) name_key
      then Inl (InvalidBackendResponse
             ''namespace store returned a duplicate key, inode, or parent/name mapping'')
      else Inr ())"

section \<open>Publishing accepted mutations\<close>

definition accept_created_file ::
  "'w LinuxWritableEngine \<Rightarrow> LinuxCreateFileRequest \<Rightarrow> LinuxCreateFileAcceptance \<Rightarrow> LinuxFileHandle
   \<Rightarrow> (LinuxNode \<times> LinuxFileHandle) state_call" where
  "accept_created_file self request acceptance handle =
     (let created = ca_created acceptance; session = ca_session acceptance in
      io_bind (io_lift (validate_created_file self created (Some request))) (\<lambda>_.
      io_bind (io_lift (validate_created_session self created session)) (\<lambda>_.
      io_bind (io_lift (node_from self (cr_item created) (cr_inode_record created))) (\<lambda>node state.
      let inode = ir_inode (cr_inode_record created);
          key = item_key (cr_item created);
          name_key = name_at (cf_parent_key request) (cf_name request)
      in case ensure_created_file_is_unique self state created name_key of
        Inl error \<Rightarrow> (Inl error, state)
      | Inr _ \<Rightarrow>
          if list_ex (\<lambda>(_, opened). wf_session opened = ws_id session) (lw_files state)
          then (Inl (InvalidBackendResponse ''namespace store reused an active write session identity''), state)
          else
            (Inr (node, handle),
             state\<lparr>lw_tombstones_by_name := index_drop name_key (lw_tombstones_by_name state),
                   lw_remote_tombstones_by_name := index_drop name_key (lw_remote_tombstones_by_name state),
                   lw_created_by_key := (lw_created_by_key state)(key \<mapsto> inode),
                   lw_created_by_name := index_put name_key inode (lw_created_by_name state),
                   lw_created_by_inode := (lw_created_by_inode state)(inode \<mapsto> created),
                   lw_files := AList.update handle
                     \<lparr>wf_inode = inode, wf_access = cf_access request, wf_session = ws_id session,
                      wf_size = 0, wf_generation = None\<rparr> (lw_files state)\<rparr>)))))"

text \<open>\<open>insert_namespace_item\<close> enters an item into the three namespace indices.\<close>

definition insert_namespace_item ::
  "LinuxNamespaceItem \<Rightarrow> CloudItemKey \<Rightarrow> ParentNameKey \<Rightarrow> WritableState \<Rightarrow> WritableState" where
  "insert_namespace_item item key name_key state =
     (let inode = ir_inode (ni_inode_record item) in
      state\<lparr>lw_namespace_by_key := (lw_namespace_by_key state)(key \<mapsto> inode),
            lw_namespace_by_name := index_put name_key inode (lw_namespace_by_name state),
            lw_namespace_by_inode := (lw_namespace_by_inode state)(inode \<mapsto> item)\<rparr>)"

definition drop_tombstones :: "ParentNameKey \<Rightarrow> WritableState \<Rightarrow> WritableState" where
  "drop_tombstones name_key state =
     state\<lparr>lw_tombstones_by_name := index_drop name_key (lw_tombstones_by_name state),
           lw_remote_tombstones_by_name := index_drop name_key (lw_remote_tombstones_by_name state)\<rparr>"

definition accept_namespace_create ::
  "'w LinuxWritableEngine \<Rightarrow> LinuxCreateDirectoryRequest \<Rightarrow> LinuxNamespaceItem \<Rightarrow> LinuxNode state_call" where
  "accept_namespace_create self request item =
     io_bind (io_lift (validate_namespace_create self request item)) (\<lambda>_.
     io_bind (io_lift (node_from self (ni_item item) (ni_inode_record item))) (\<lambda>node state.
     let name_key = name_at (cd_parent_key request) (cd_name request) in
     case ensure_namespace_item_is_unique self state item name_key None of
       Inl error \<Rightarrow> (Inl error, state)
     | Inr _ \<Rightarrow>
         (Inr node,
          insert_namespace_item item (item_key (ni_item item)) name_key (drop_tombstones name_key state))))"

text \<open>The destination that a rename replaced leaves every local index.\<close>

definition drop_replaced ::
  "'w LinuxWritableEngine \<Rightarrow> LinuxNamespaceTombstone \<Rightarrow> WritableState \<Rightarrow> WritableState" where
  "drop_replaced self replaced state =
     (let name_key = name_at (nt_parent_key replaced) (nt_name replaced);
          (found, state) =
            (case lw_namespace_by_key state (nt_key replaced) of
               Some inode \<Rightarrow>
                 (Some inode,
                  state\<lparr>lw_namespace_by_key := (lw_namespace_by_key state)(nt_key replaced := None)\<rparr>)
             | None \<Rightarrow>
                 (case lw_created_by_key state (nt_key replaced) of
                    Some inode \<Rightarrow>
                      (Some inode,
                       state\<lparr>lw_created_by_key := (lw_created_by_key state)(nt_key replaced := None)\<rparr>)
                  | None \<Rightarrow> (map_option ir_inode (by_key (inode_table self) (nt_key replaced)), state)));
          state =
            (case found of
               None \<Rightarrow> state
             | Some inode \<Rightarrow>
                 state\<lparr>lw_namespace_by_inode := (lw_namespace_by_inode state)(inode := None),
                       lw_created_by_name := index_drop name_key (lw_created_by_name state)\<rparr>)
      in state\<lparr>lw_deleted_keys := insert (nt_key replaced) (lw_deleted_keys state),
               lw_tombstones_by_name := index_put name_key replaced (lw_tombstones_by_name state)\<rparr>)"

definition publish_rename ::
  "'w LinuxWritableEngine \<Rightarrow> LinuxRenameRequest \<Rightarrow> LinuxRenameAcceptance \<Rightarrow> WritableState \<Rightarrow> WritableState" where
  "publish_rename self request acceptance state =
     (let item = ra_item acceptance;
          new_name_key = name_at (rr_new_parent_key request) (rr_new_name request);
          old_name_key = name_at (rr_old_parent_key request) (rr_old_name request);
          inode = ir_inode (ni_inode_record item);
          state = state\<lparr>lw_namespace_by_name := index_drop old_name_key (lw_namespace_by_name state),
                        lw_created_by_name := index_drop old_name_key (lw_created_by_name state),
                        lw_tombstones_by_name :=
                          index_put old_name_key (ra_source acceptance) (lw_tombstones_by_name state)\<rparr>;
          state = (case ra_replaced acceptance of
                     None \<Rightarrow> state
                   | Some replaced \<Rightarrow> drop_replaced self replaced state);
          state = state\<lparr>lw_deleted_keys := lw_deleted_keys state - {rr_key request}\<rparr>;
          state = insert_namespace_item item (rr_key request) new_name_key (drop_tombstones new_name_key state)
      in if lw_created_by_key state (rr_key request) \<noteq> None
         then state\<lparr>lw_created_by_name := index_put new_name_key inode (lw_created_by_name state)\<rparr>
         else state)"

definition accept_rename ::
  "'w LinuxWritableEngine \<Rightarrow> LinuxRenameRequest \<Rightarrow> LinuxRenameAcceptance \<Rightarrow> unit state_call" where
  "accept_rename self request acceptance state =
     (case res_bind (validate_rename_acceptance self request (ra_item acceptance) (ra_source acceptance)
                       (ra_replaced acceptance)) (\<lambda>_.
           ensure_namespace_item_is_unique self state (ra_item acceptance)
             (name_at (rr_new_parent_key request) (rr_new_name request)) (Some (rr_key request))) of
        Inl error \<Rightarrow> (Inl error, state)
      | Inr _ \<Rightarrow> (Inr (), publish_rename self request acceptance state))"

definition publish_remove :: "LinuxRemoveRequest \<Rightarrow> LinuxNamespaceTombstone \<Rightarrow> WritableState \<Rightarrow> WritableState" where
  "publish_remove request tombstone state =
     (let name_key = name_at (rm_parent_key request) (rm_name request);
          found = (case lw_namespace_by_key state (rm_key request) of
                     Some inode \<Rightarrow> Some inode
                   | None \<Rightarrow> lw_created_by_key state (rm_key request))
      in state\<lparr>lw_namespace_by_key := (lw_namespace_by_key state)(rm_key request := None),
               lw_namespace_by_inode :=
                 (case found of
                    None \<Rightarrow> lw_namespace_by_inode state
                  | Some inode \<Rightarrow> (lw_namespace_by_inode state)(inode := None)),
               lw_namespace_by_name := index_drop name_key (lw_namespace_by_name state),
               lw_created_by_name := index_drop name_key (lw_created_by_name state),
               lw_deleted_keys := insert (rm_key request) (lw_deleted_keys state),
               lw_tombstones_by_name := index_put name_key tombstone (lw_tombstones_by_name state)\<rparr>)"

definition accept_remove :: "LinuxRemoveRequest \<Rightarrow> LinuxNamespaceTombstone \<Rightarrow> unit state_call" where
  "accept_remove request tombstone state =
     (case validate_remove_acceptance request tombstone of
        Inl error \<Rightarrow> (Inl error, state)
      | Inr _ \<Rightarrow> (Inr (), publish_remove request tombstone state))"

section \<open>Restoring the durable overlay\<close>

definition restore_namespace_item :: "'w LinuxWritableEngine \<Rightarrow> LinuxNamespaceItem \<Rightarrow> unit state_call" where
  "restore_namespace_item self item state =
     (case res_bind (validate_namespace_item self item) (\<lambda>_.
           res_bind (ok_or (InvalidBackendResponse ''restored namespace item omitted its parent identity'')
                       (item_parent_id (ni_item item))) (\<lambda>parent_id.
           res_bind (ensure_namespace_item_is_unique self state item (parent_id, item_name (ni_item item)) None) (\<lambda>_.
           Inr (parent_id, item_name (ni_item item))))) of
        Inl error \<Rightarrow> (Inl error, state)
      | Inr name_key \<Rightarrow> (Inr (), insert_namespace_item item (item_key (ni_item item)) name_key state))"

definition restore_tombstone :: "'w LinuxWritableEngine \<Rightarrow> LinuxNamespaceTombstone \<Rightarrow> unit state_call" where
  "restore_tombstone self tombstone state =
     (if key_scope (nt_key tombstone) \<noteq> it_scope (inode_table self)
         \<or> key_scope (nt_parent_key tombstone) \<noteq> it_scope (inode_table self)
         \<or> mi_session_generation (nt_mutation_intent tombstone) > we_session_generation self
      then (Inl (InvalidBackendResponse
              ''restored namespace tombstone escaped the active scope or generation''), state)
      else
        let name_key = name_at (nt_parent_key tombstone) (nt_name tombstone);
            has_current_item = (lw_namespace_by_key state (nt_key tombstone) \<noteq> None);
            desired = mi_desired (nt_mutation_intent tombstone);
            deleted = (desired = DesiredMutation.Delete (nt_key tombstone)
                       \<or> \<not> has_current_item \<and> existing_item_key desired \<noteq> Some (nt_key tombstone));
            (previous, tombstones) = index_insert name_key tombstone (lw_tombstones_by_name state);
            state' = state\<lparr>lw_deleted_keys :=
                             (if deleted then insert (nt_key tombstone) (lw_deleted_keys state)
                              else lw_deleted_keys state),
                           lw_tombstones_by_name := tombstones\<rparr>
        in if previous \<noteq> None
           then (Inl (InvalidBackendResponse ''restored namespace overlay contained duplicate tombstones''), state')
           else (Inr (), state'))"

definition restore_namespace_overlay :: "'w LinuxWritableEngine \<Rightarrow> LinuxNamespaceOverlay \<Rightarrow> unit state_call" where
  "restore_namespace_overlay self overlay =
     io_bind (io_each (restore_namespace_item self) (no_items overlay)) (\<lambda>_.
     io_each (restore_tombstone self) (no_tombstones overlay))"

end
