(* ===== verification/Linux_Writable.thy ===== *)
theory Linux_Writable
  imports Linux_Namespace
begin

text \<open>
  The methods of the writable Linux engine (\<open>linux/src/writeback.rs\<close>): attribute and name lookups
  through the overlays, opening, reading, writing and releasing files, directory snapshots, the
  namespace mutations, remote changes, and activation of a mount. Each is a sequence of critical
  sections and port calls in the order of the source.
\<close>

type_synonym 'w mount_world = "WritableState \<times> 'w"

section \<open>Lookups through the overlays\<close>

text \<open>The overlays shadow the backend in this order; \<open>fallback\<close> is the arm without an overlay.\<close>

definition overlay_node ::
  "'w LinuxWritableEngine \<Rightarrow> LinuxNamespaceItem option \<Rightarrow> LinuxCreatedFile option \<Rightarrow> LinuxRemoteEntry option
   \<Rightarrow> ('w, LinuxNode) linux_call \<Rightarrow> ('w, LinuxNode) linux_call" where
  "overlay_node self namespace created remote fallback =
     (case namespace of
        Some item \<Rightarrow> async_lift (node_from self (ni_item item) (ni_inode_record item))
      | None \<Rightarrow>
     (case created of
        Some created \<Rightarrow> async_lift (node_from self (cr_item created) (cr_inode_record created))
      | None \<Rightarrow>
     (case remote of
        Some remote \<Rightarrow> async_lift (node_from self (re_item remote) (re_inode_record remote))
      | None \<Rightarrow> fallback)))"

definition inode_deleted :: "'w LinuxWritableEngine \<Rightarrow> LinuxInode \<Rightarrow> WritableState \<Rightarrow> bool" where
  "inode_deleted self inode state \<longleftrightarrow>
     inode \<in> lw_remote_deleted_inodes state
     \<or> is_some_and (map_option ir_key (by_inode (inode_table self) inode))
         (\<lambda>key. key \<in> lw_deleted_keys state \<or> key \<in> lw_remote_deleted_keys state)
     \<or> is_some_and (lw_created_by_inode state inode)
         (\<lambda>created. item_key (cr_item created) \<in> lw_deleted_keys state
                    \<or> item_key (cr_item created) \<in> lw_remote_deleted_keys state)"

definition handle_size :: "LinuxInode \<Rightarrow> LinuxFileHandle option \<Rightarrow> WritableState \<Rightarrow> u64 option linux_result" where
  "handle_size inode handle state =
     (case handle of
        Some handle \<Rightarrow>
          (case map_of (lw_files state) handle of
             Some opened \<Rightarrow> if wf_inode opened = inode then Inr (Some (wf_size opened)) else Inl StaleHandle
           | None \<Rightarrow> Inl StaleHandle)
      | None \<Rightarrow> Inr (map_option snap_size (lw_dirty_snapshots state inode)))"

definition with_size_of :: "LinuxNode \<Rightarrow> u64 option \<Rightarrow> LinuxNode" where
  "with_size_of node n = (case n of Some n \<Rightarrow> with_size node n | None \<Rightarrow> node)"

definition writable_getattr ::
  "'w mount_world LinuxWritableEngine \<Rightarrow> LinuxInode \<Rightarrow> LinuxFileHandle option
   \<Rightarrow> ('w mount_world, LinuxNode) linux_call" where
  "writable_getattr self inode handle =
     async_bind (reading (\<lambda>state. (lw_namespace_by_inode state inode, lw_created_by_inode state inode,
                                   lw_remote_by_inode state inode, inode_deleted self inode state)))
       (\<lambda>(namespace, created, remote, deleted).
     if deleted \<and> namespace = None \<and> remote = None then async_fail (UnknownInode (inode_get inode))
     else
       async_bind (overlay_node self namespace created remote (readonly_getattr (we_readonly self) inode)) (\<lambda>node.
       async_bind (locked (\<lambda>state. (handle_size inode handle state, state))) (\<lambda>n.
       async_return (with_size_of node n))))"

text \<open>What the overlays know about a name.\<close>

definition named_namespace :: "WritableState \<Rightarrow> ParentNameKey \<Rightarrow> LinuxNamespaceItem option" where
  "named_namespace state name_key =
     Option.bind (index_get (lw_namespace_by_name state) name_key) (lw_namespace_by_inode state)"

definition named_created :: "WritableState \<Rightarrow> ParentNameKey \<Rightarrow> LinuxCreatedFile option" where
  "named_created state name_key =
     Option.bind (index_get (lw_created_by_name state) name_key) (lw_created_by_inode state)"

definition named_remote :: "WritableState \<Rightarrow> ParentNameKey \<Rightarrow> LinuxRemoteEntry option" where
  "named_remote state name_key =
     Option.bind (index_get (lw_remote_by_name state) name_key) (lw_remote_by_inode state)"

definition name_tombstoned :: "WritableState \<Rightarrow> ParentNameKey \<Rightarrow> bool" where
  "name_tombstoned state name_key \<longleftrightarrow>
     index_contains_key (lw_tombstones_by_name state) name_key
     \<or> index_contains_key (lw_remote_tombstones_by_name state) name_key"

definition writable_lookup ::
  "'w mount_world LinuxWritableEngine \<Rightarrow> LinuxInode \<Rightarrow> string \<Rightarrow> ('w mount_world, LinuxNode) linux_call" where
  "writable_lookup self parent name =
     async_bind (async_lift (validate_linux_name name)) (\<lambda>_.
     async_bind (writable_getattr self parent None) (\<lambda>parent_node.
     if fa_kind (node_attributes parent_node) \<noteq> LinuxNodeKind.Directory
     then async_fail LinuxCloudFilesError.NotDirectory
     else
       let name_key = name_at (node_key parent_node) name in
       async_bind (reading (\<lambda>state. (named_namespace state name_key, named_created state name_key,
                                     named_remote state name_key, name_tombstoned state name_key)))
         (\<lambda>(namespace, created, remote, tombstoned).
       async_bind (overlay_node self namespace created remote
           (if tombstoned then async_fail (UnknownInode (inode_get parent))
            else readonly_lookup (we_readonly self) parent name)) (\<lambda>node.
       async_bind (reading (\<lambda>state. map_option snap_size
           (lw_dirty_snapshots state (fa_inode (node_attributes node))))) (\<lambda>n.
       async_return (with_size_of node n))))))"

section \<open>Files\<close>

definition writable_open_file ::
  "'w mount_world LinuxWritableEngine \<Rightarrow> LinuxInode \<Rightarrow> LinuxFileAccess
   \<Rightarrow> ('w mount_world, LinuxFileHandle) linux_call" where
  "writable_open_file self inode access =
     async_bind (reading (\<lambda>state. (lw_namespace_by_inode state inode, lw_created_by_inode state inode,
                                   lw_remote_by_inode state inode))) (\<lambda>(namespace, created, remote).
     async_bind (overlay_node self namespace created remote (readonly_getattr (we_readonly self) inode)) (\<lambda>node.
     if fa_kind (node_attributes node) \<noteq> LinuxNodeKind.File then async_fail NotFile
     else
       let key = node_key node in
       async_bind (await (io_try WritebackStore
           (wb_open_recovered (we_store self) key (we_session_generation self)))) (\<lambda>recovered_session.
       async_bind
         (case recovered_session of
            Some session \<Rightarrow> async_return (session, True)
          | None \<Rightarrow>
              if created \<noteq> None
              then
                async_bind (async_lift (ok_or NamespaceMutationNotConfigured (we_namespace_store self)))
                  (\<lambda>namespace_store.
                async_bind (await (io_try NamespaceStore
                    (ns_open_created_file namespace_store key (we_session_generation self)))) (\<lambda>session.
                async_return (session, False)))
              else
                async_bind
                  (case remote of
                     Some remote \<Rightarrow>
                       hydrate_item_for_write (we_readonly self) (re_item remote) (we_session_generation self)
                   | None \<Rightarrow> hydrate_for_write (we_readonly self) inode (we_session_generation self))
                  (\<lambda>(request, content).
                async_bind (await (io_try WritebackStore
                    (wb_open_existing (we_store self) request content))) (\<lambda>session.
                async_return (session, False))))
         (\<lambda>(session, recovered).
       async_bind (locked (validate_opened_session self inode key session recovered)) (\<lambda>_.
       locked (io_bind WritableState_allocate (\<lambda>handle state.
         (Inr handle,
          state\<lparr>lw_files := AList.update handle
            \<lparr>wf_inode = inode, wf_access = access, wf_session = ws_id session, wf_size = ws_size session,
             wf_generation = map_option snap_generation (ws_snapshot session)\<rparr> (lw_files state)\<rparr>))))))))"

definition writable_read_file ::
  "'w mount_world LinuxWritableEngine \<Rightarrow> LinuxInode \<Rightarrow> LinuxFileHandle \<Rightarrow> u64 \<Rightarrow> u32
   \<Rightarrow> ('w mount_world, u8 list) linux_call" where
  "writable_read_file self inode handle off n =
     async_bind (locked (\<lambda>state. (ok_or StaleHandle (map_of (lw_files state) handle), state))) (\<lambda>opened.
     if wf_inode opened = inode \<and> readable (wf_access opened)
     then
       (if n = 0 \<or> off \<ge> wf_size opened then async_return []
        else
          let expected = min (ucast n) (wf_size opened - off) in
          async_bind (await (io_try WritebackStore (wb_read (we_store self) (wf_session opened) off n))) (\<lambda>bytes.
          if len_u64 bytes \<noteq> expected
          then async_fail (InvalidBackendResponse ''writeback read returned a partial non-EOF range'')
          else async_return bytes))
     else if \<not> readable (wf_access opened) then async_fail AccessModeMismatch
     else async_fail StaleHandle)"

definition writable_write_file ::
  "'w mount_world LinuxWritableEngine \<Rightarrow> LinuxInode \<Rightarrow> LinuxFileHandle \<Rightarrow> u64 \<Rightarrow> u8 list
   \<Rightarrow> ('w mount_world, u32) linux_call" where
  "writable_write_file self inode handle off bytes =
     async_bind (async_lift (ok_or (InvalidConfiguration ''FUSE write length cannot be represented as u32'')
                                   (u32_try_from (length bytes)))) (\<lambda>byte_count.
     if bytes = [] then async_return 0
     else
       async_bind (async_lift (ok_or (InvalidConfiguration ''FUSE write range exceeds u64'')
                                     (checked_add off (ucast byte_count)))) (\<lambda>end'.
       async_bind (locked (\<lambda>state. (write_session inode handle state, state))) (\<lambda>session.
       async_bind (await (io_try WritebackStore (wb_write (we_store self) session off bytes))) (\<lambda>commit.
       async_bind (locked (apply_commit self handle inode commit (Some end') False)) (\<lambda>_.
       async_return byte_count)))))"

definition truncate_file ::
  "'w mount_world LinuxWritableEngine \<Rightarrow> LinuxInode \<Rightarrow> LinuxFileHandle \<Rightarrow> u64
   \<Rightarrow> ('w mount_world, LinuxNode) linux_call" where
  "truncate_file self inode handle n =
     async_bind (locked (\<lambda>state. (write_session inode handle state, state))) (\<lambda>session.
     async_bind (await (io_try WritebackStore (wb_truncate (we_store self) session n))) (\<lambda>commit.
     async_bind (locked (apply_commit self handle inode commit (Some n) False)) (\<lambda>_.
     writable_getattr self inode (Some handle))))"

definition writable_release_file ::
  "'w mount_world LinuxWritableEngine \<Rightarrow> LinuxFileHandle \<Rightarrow> ('w mount_world, unit) linux_call" where
  "writable_release_file self handle =
     async_bind (locked (\<lambda>state.
         case map_of (lw_files state) handle of
           None \<Rightarrow> (Inl StaleHandle, state)
         | Some opened \<Rightarrow> (Inr opened, state\<lparr>lw_files := AList.delete handle (lw_files state)\<rparr>))) (\<lambda>opened.
     await (io_try WritebackStore (wb_close (we_store self) (wf_session opened))))"

definition truncate_once ::
  "'w mount_world LinuxWritableEngine \<Rightarrow> LinuxInode \<Rightarrow> u64 \<Rightarrow> ('w mount_world, LinuxNode) linux_call" where
  "truncate_once self inode n =
     async_bind (writable_open_file self inode Write) (\<lambda>handle.
     async_bind (async_attempt (truncate_file self inode handle n)) (\<lambda>result.
     async_bind (async_attempt (writable_release_file self handle)) (\<lambda>release.
     case (result, release) of
       (Inr node, Inr _) \<Rightarrow> async_return node
     | (Inl error, _) \<Rightarrow> async_fail error
     | (Inr _, Inl error) \<Rightarrow> async_fail error)))"

definition sync_file ::
  "'w mount_world LinuxWritableEngine \<Rightarrow> LinuxInode \<Rightarrow> LinuxFileHandle \<Rightarrow> bool
   \<Rightarrow> ('w mount_world, unit) linux_call" where
  "sync_file self inode handle data_only =
     async_bind (locked (\<lambda>state. (sync_session inode handle state, state))) (\<lambda>session.
     case session of
       None \<Rightarrow> async_return ()
     | Some session \<Rightarrow>
         async_bind (await (io_try WritebackStore (wb_sync (we_store self) session data_only))) (\<lambda>commit.
         case commit of
           None \<Rightarrow> async_return ()
         | Some commit \<Rightarrow> locked (apply_commit self handle inode commit None True)))"

section \<open>Namespace mutations\<close>

definition create_file ::
  "'w mount_world LinuxWritableEngine \<Rightarrow> LinuxInode \<Rightarrow> string \<Rightarrow> u32 \<Rightarrow> u32 \<Rightarrow> LinuxFileAccess
   \<Rightarrow> ('w mount_world, LinuxNode \<times> LinuxFileHandle) linux_call" where
  "create_file self parent name mode umask access =
     async_bind (async_lift (ok_or NamespaceMutationNotConfigured (we_namespace_store self))) (\<lambda>namespace_store.
     async_bind (writable_getattr self parent None) (\<lambda>parent_node.
     if fa_kind (node_attributes parent_node) \<noteq> LinuxNodeKind.Directory
     then async_fail LinuxCloudFilesError.NotDirectory
     else
       async_bind (async_lift (LinuxCreateFileRequest_new (node_key parent_node) name mode umask access
           (we_session_generation self))) (\<lambda>request.
       async_bind (locked WritableState_allocate) (\<lambda>handle.
       async_bind (await (io_try NamespaceStore (ns_create_file namespace_store request))) (\<lambda>acceptance.
       locked (accept_created_file self request acceptance handle))))))"

definition create_directory ::
  "'w mount_world LinuxWritableEngine \<Rightarrow> LinuxInode \<Rightarrow> string \<Rightarrow> u32 \<Rightarrow> u32
   \<Rightarrow> ('w mount_world, LinuxNode) linux_call" where
  "create_directory self parent name mode umask =
     async_bind (async_lift (ok_or NamespaceMutationNotConfigured (we_namespace_store self))) (\<lambda>namespace_store.
     async_bind (writable_getattr self parent None) (\<lambda>parent_node.
     if fa_kind (node_attributes parent_node) \<noteq> LinuxNodeKind.Directory
     then async_fail LinuxCloudFilesError.NotDirectory
     else
       async_bind (async_lift (LinuxCreateDirectoryRequest_new (node_key parent_node) name mode umask
           (we_session_generation self))) (\<lambda>request.
       async_bind (await (io_try NamespaceStore (ns_create_directory namespace_store request))) (\<lambda>item.
       locked (accept_namespace_create self request item)))))"

text \<open>A lookup for which \<open>NotFound\<close> is an answer.\<close>

definition lookup_remote_validation_target ::
  "'w mount_world LinuxWritableEngine \<Rightarrow> LinuxInode \<Rightarrow> string
   \<Rightarrow> ('w mount_world, LinuxNode option) linux_call" where
  "lookup_remote_validation_target self parent name =
     async_bind (async_attempt (writable_lookup self parent name)) (\<lambda>result.
     case result of
       Inr node \<Rightarrow> async_return (Some node)
     | Inl error \<Rightarrow>
         if error_code error = LinuxErrorCode.NotFound then async_return None else async_fail error)"

definition rename ::
  "'w mount_world LinuxWritableEngine \<Rightarrow> LinuxInode \<Rightarrow> string \<Rightarrow> LinuxInode \<Rightarrow> string \<Rightarrow> bool
   \<Rightarrow> ('w mount_world, unit) linux_call" where
  "rename self parent name new_parent new_name no_replace =
     async_bind (async_lift (validate_linux_name name)) (\<lambda>_.
     async_bind (async_lift (validate_linux_name new_name)) (\<lambda>_.
     if parent = new_parent \<and> name = new_name then async_return ()
     else
       async_bind (async_lift (ok_or NamespaceMutationNotConfigured (we_namespace_store self))) (\<lambda>namespace_store.
       async_bind (writable_getattr self parent None) (\<lambda>old_parent_node.
       async_bind (writable_getattr self new_parent None) (\<lambda>new_parent_node.
       if fa_kind (node_attributes old_parent_node) \<noteq> LinuxNodeKind.Directory
          \<or> fa_kind (node_attributes new_parent_node) \<noteq> LinuxNodeKind.Directory
       then async_fail LinuxCloudFilesError.NotDirectory
       else
         async_bind (writable_lookup self parent name) (\<lambda>source.
         async_bind (lookup_remote_validation_target self (fa_inode (node_attributes new_parent_node)) new_name) (\<lambda>target.
         let destination = map_option (\<lambda>node.
               \<lparr>rd_key = node_key node, rd_inode_generation = node_generation node,
                rd_kind = fa_kind (node_attributes node)\<rparr>) target in
         async_bind (async_lift (LinuxRenameRequest_new (node_key source) (node_generation source)
             (fa_kind (node_attributes source)) (node_key old_parent_node) name (node_key new_parent_node)
             new_name destination no_replace (we_session_generation self))) (\<lambda>request.
         async_bind (await (io_try NamespaceStore (ns_rename namespace_store request))) (\<lambda>acceptance.
         locked (accept_rename self request acceptance))))))))))"

definition remove ::
  "'w mount_world LinuxWritableEngine \<Rightarrow> LinuxInode \<Rightarrow> string \<Rightarrow> LinuxNodeKind
   \<Rightarrow> ('w mount_world, unit) linux_call" where
  "remove self parent name expected_kind =
     async_bind (async_lift (ok_or NamespaceMutationNotConfigured (we_namespace_store self))) (\<lambda>namespace_store.
     async_bind (writable_getattr self parent None) (\<lambda>parent_node.
     if fa_kind (node_attributes parent_node) \<noteq> LinuxNodeKind.Directory
     then async_fail LinuxCloudFilesError.NotDirectory
     else
       async_bind (writable_lookup self parent name) (\<lambda>child.
       if fa_kind (node_attributes child) \<noteq> expected_kind
       then async_fail (case expected_kind of
                          LinuxNodeKind.File \<Rightarrow> NotFile
                        | LinuxNodeKind.Directory \<Rightarrow> LinuxCloudFilesError.NotDirectory)
       else
         async_bind (async_lift (LinuxRemoveRequest_new (node_key child) (node_generation child)
             (node_key parent_node) name expected_kind (we_session_generation self))) (\<lambda>request.
         async_bind (await (io_try NamespaceStore (ns_remove namespace_store request))) (\<lambda>tombstone.
         locked (accept_remove request tombstone))))))"

end
