(* ===== verification/Linux_Mount.thy ===== *)
theory Linux_Mount
  imports Linux_Writable
begin

text \<open>
  The rest of the writable Linux engine (\<open>linux/src/writeback.rs\<close>): directory snapshots that merge
  the backend's children with the overlays, remote changes with their invalidation plan, and the
  activation of a mount from its durable state.
\<close>

section \<open>Directory snapshots\<close>

text \<open>
  One overlay adds the names it resolves and no earlier overlay has. The names of one index are
  distinct, so in the first of the three loops, which the source writes without it, the test
  never fails.
\<close>

fun collect_overlay ::
  "(LinuxInode \<Rightarrow> (CloudItem \<times> LinuxInodeRecord) option) \<Rightarrow> (string \<times> LinuxInode) list
   \<Rightarrow> string set \<times> (string \<times> CloudItem \<times> LinuxInodeRecord) list
   \<Rightarrow> string set \<times> (string \<times> CloudItem \<times> LinuxInodeRecord) list" where
  "collect_overlay resolve [] acc = acc"
| "collect_overlay resolve ((name, child_inode) # children) (overlay_names, local) =
     collect_overlay resolve children
       (if name \<in> overlay_names then (overlay_names, local)
        else case resolve child_inode of
          None \<Rightarrow> (overlay_names, local)
        | Some (item, record) \<Rightarrow> (insert name overlay_names, local @ [(name, item, record)]))"

definition directory_overlay ::
  "WritableState \<Rightarrow> CloudItemId
   \<Rightarrow> string set \<times> string set \<times> (string \<times> CloudItem \<times> LinuxInodeRecord) list" where
  "directory_overlay state parent =
     (let acc = ({}, []);
          acc = collect_overlay
            (\<lambda>i. map_option (\<lambda>x. (ni_item x, ni_inode_record x)) (lw_namespace_by_inode state i))
            (index_children (lw_namespace_by_name state) parent) acc;
          acc = collect_overlay
            (\<lambda>i. map_option (\<lambda>x. (cr_item x, cr_inode_record x)) (lw_created_by_inode state i))
            (index_children (lw_created_by_name state) parent) acc;
          (overlay_names, local) = collect_overlay
            (\<lambda>i. map_option (\<lambda>x. (re_item x, re_inode_record x)) (lw_remote_by_inode state i))
            (index_children (lw_remote_by_name state) parent) acc;
          tombstoned_names =
            set (map fst (index_children (lw_tombstones_by_name state) parent))
            \<union> set (map fst (index_children (lw_remote_tombstones_by_name state) parent))
      in (tombstoned_names - overlay_names, overlay_names, local))"

definition backend_entries ::
  "'w LinuxWritableEngine \<Rightarrow> WritableState \<Rightarrow> CloudItem list \<Rightarrow> LinuxDirectoryEntry list linux_result" where
  "backend_entries self state items =
     try_map (\<lambda>item.
       res_bind (ok_or MissingInodeRecord (record_for_key_in_state self state (item_key item))) (\<lambda>record.
       res_bind (node_from self item record) (\<lambda>child.
       Inr (from_node (item_name item) child)))) items"

fun append_local ::
  "'w LinuxWritableEngine \<Rightarrow> (string \<times> CloudItem \<times> LinuxInodeRecord) list \<Rightarrow> LinuxDirectoryEntry list
   \<Rightarrow> LinuxDirectoryEntry list linux_result" where
  "append_local self [] entries = Inr entries"
| "append_local self ((name, item, record) # local) entries =
     (if list_ex (\<lambda>entry. de_name entry = name) entries
      then Inl (InvalidBackendResponse ''durable overlay collided with another visible directory entry'')
      else res_bind (node_from self item record) (\<lambda>child.
        append_local self local (entries @ [from_node name child])))"

definition writable_open_directory ::
  "'w mount_world LinuxWritableEngine \<Rightarrow> LinuxInode \<Rightarrow> ('w mount_world, LinuxDirectoryHandle) linux_call" where
  "writable_open_directory self inode =
     async_bind (writable_getattr self inode None) (\<lambda>node.
     if fa_kind (node_attributes node) \<noteq> LinuxNodeKind.Directory
     then async_fail LinuxCloudFilesError.NotDirectory
     else
       async_bind (reading (\<lambda>state. overlay_item state inode)) (\<lambda>overlay.
       async_bind (case overlay of
                     Some (item, _) \<Rightarrow> async_return item
                   | None \<Rightarrow> load_item_for_overlay (we_readonly self) inode) (\<lambda>directory_item.
       async_bind (load_children_for_overlay (we_readonly self) (item_key directory_item)) (\<lambda>backend_children.
       async_bind
         (case item_parent_id directory_item of
            Some parent_id \<Rightarrow>
              locked (\<lambda>state.
                (ok_or MissingInodeRecord (inode_for_key_in_state self state
                   \<lparr>key_scope = key_scope (item_key directory_item), key_item_id = parent_id\<rparr>), state))
          | None \<Rightarrow> async_return inode) (\<lambda>parent.
       async_bind (reading (\<lambda>state. directory_overlay state (key_item_id (node_key node))))
         (\<lambda>(tombstoned_names, overlay_names, local).
       async_bind (locked (\<lambda>state. (backend_entries self state
           (filter (\<lambda>item. item_name item \<notin> tombstoned_names \<and> item_name item \<notin> overlay_names)
              backend_children), state))) (\<lambda>entries.
       async_bind (async_lift (append_local self
           (sort_key fst (filter (\<lambda>(name, _, _). name \<notin> tombstoned_names) local)) entries)) (\<lambda>entries.
       locked (io_bind WritableState_allocate_directory (\<lambda>handle state.
         (Inr handle,
          state\<lparr>lw_directories := (lw_directories state)(handle \<mapsto>
            \<lparr>ds_directory = inode, ds_parent = parent, ds_entries = entries\<rparr>)\<rparr>)))))))))))"

definition writable_directory_snapshot ::
  "LinuxInode \<Rightarrow> LinuxDirectoryHandle \<Rightarrow> WritableState \<Rightarrow> LinuxDirectorySnapshot linux_result" where
  "writable_directory_snapshot inode handle state =
     (case lw_directories state handle of
        None \<Rightarrow> Inl StaleHandle
      | Some snapshot \<Rightarrow> if ds_directory snapshot \<noteq> inode then Inl StaleHandle else Inr snapshot)"

definition writable_release_directory :: "LinuxDirectoryHandle \<Rightarrow> unit state_call" where
  "writable_release_directory handle state =
     (if lw_directories state handle = None then (Inl StaleHandle, state)
      else (Inr (), state\<lparr>lw_directories := (lw_directories state)(handle := None)\<rparr>))"

section \<open>Remote changes\<close>

definition validate_remote_entry ::
  "'w LinuxWritableEngine \<Rightarrow> WritableState \<Rightarrow> LinuxRemoteEntry \<Rightarrow> unit linux_result" where
  "validate_remote_entry self state entry =
     (if item_key (re_item entry) \<noteq> ir_key (re_inode_record entry)
         \<or> key_scope (item_key (re_item entry)) \<noteq> it_scope (inode_table self)
         \<or> is_root (re_item entry)
         \<or> ir_inode (re_inode_record entry) = LINUX_ROOT_INODE
      then Inl (InvalidBackendResponse ''remote overlay entry violated scope, identity, or root boundaries'')
      else
        res_bind (node_from self (re_item entry) (re_inode_record entry)) (\<lambda>_.
        if is_some_and (key_for_inode_in_state self state (ir_inode (re_inode_record entry)))
             (\<lambda>existing_key. existing_key \<noteq> item_key (re_item entry))
        then Inl (InvalidBackendResponse ''remote overlay reused an inode assigned to another stable item'')
        else if is_some_and (record_for_key_in_state self state (item_key (re_item entry)))
             (\<lambda>existing. existing \<noteq> re_inode_record entry)
        then Inl (InvalidBackendResponse ''remote overlay changed a stable item inode or generation'')
        else Inr ()))"

definition validate_remote_delete ::
  "'w LinuxWritableEngine \<Rightarrow> WritableState \<Rightarrow> LinuxRemoteDelete \<Rightarrow> unit linux_result" where
  "validate_remote_delete self state deleted =
     (if rx_key deleted \<noteq> ir_key (rx_inode_record deleted)
         \<or> key_scope (rx_key deleted) \<noteq> it_scope (inode_table self)
         \<or> key_scope (rx_parent_key deleted) \<noteq> it_scope (inode_table self)
         \<or> record_for_key_in_state self state (rx_key deleted) \<noteq> Some (rx_inode_record deleted)
      then Inl (InvalidBackendResponse
             ''remote deletion substituted scope, stable identity, or inode generation'')
      else Inr ())"

text \<open>The destination a remote upsert claims to replace is the one that is there.\<close>

definition upsert_target_check ::
  "CloudItemKey \<Rightarrow> CloudItemKey \<Rightarrow> string \<Rightarrow> LinuxNode option \<Rightarrow> LinuxRemoteDelete option
   \<Rightarrow> unit linux_result" where
  "upsert_target_check key parent_key name target replaced =
     (case (target, replaced) of
        (Some existing, None) \<Rightarrow>
          if node_key existing \<noteq> key
          then Inl (InvalidBackendResponse ''remote upsert omitted the item replaced at its destination'')
          else Inr ()
      | (Some existing, Some replaced) \<Rightarrow>
          if node_key existing = rx_key replaced
             \<and> fa_inode (node_attributes existing) = ir_inode (rx_inode_record replaced)
             \<and> node_generation existing = ir_generation (rx_inode_record replaced)
             \<and> fa_kind (node_attributes existing) = rx_kind replaced
             \<and> rx_parent_key replaced = parent_key
             \<and> rx_name replaced = name
          then Inr ()
          else Inl (InvalidBackendResponse ''remote upsert replacement did not match its current destination'')
      | (None, None) \<Rightarrow> Inr ()
      | (None, Some _) \<Rightarrow>
          Inl (InvalidBackendResponse ''remote upsert replacement did not match its current destination''))"

text \<open>The checks of the critical section, which end with the invalidation plan.\<close>

definition local_collision :: "WritableState \<Rightarrow> CloudItemKey \<Rightarrow> ParentNameKey \<Rightarrow> bool" where
  "local_collision state key name_key \<longleftrightarrow>
     lw_namespace_by_key state key \<noteq> None
     \<or> lw_created_by_key state key \<noteq> None
     \<or> key \<in> lw_deleted_keys state
     \<or> index_contains_key (lw_tombstones_by_name state) name_key"

definition upsert_destination_check ::
  "'w LinuxWritableEngine \<Rightarrow> WritableState \<Rightarrow> CloudItemKey \<Rightarrow> ParentNameKey \<Rightarrow> LinuxRemoteDelete option
   \<Rightarrow> unit linux_result" where
  "upsert_destination_check self state key name_key replaced =
     (if list_ex (\<lambda>candidate. key_for_inode_in_state self state candidate \<noteq> Some key)
           (List.map_filter (\<lambda>x. x)
             [index_get (lw_namespace_by_name state) name_key, index_get (lw_created_by_name state) name_key])
      then Inl (InvalidBackendResponse ''remote change destination collided with a local namespace mutation'')
      else if is_some_and (index_get (lw_remote_by_name state) name_key) (\<lambda>existing_inode.
          key_for_inode_in_state self state existing_inode \<noteq> Some key
          \<and> map_option rx_key replaced \<noteq> key_for_inode_in_state self state existing_inode)
      then Inl (InvalidBackendResponse ''remote upsert did not identify the current destination replacement'')
      else Inr ())"

definition upsert_location_check ::
  "WritableState \<Rightarrow> CloudItemKey \<Rightarrow> ParentNameKey \<Rightarrow> LinuxRemoteLocation option \<Rightarrow> unit linux_result" where
  "upsert_location_check state key name_key previous =
     (case Option.bind (lw_remote_by_key state key) (lw_remote_by_inode state) of
        None \<Rightarrow> Inr ()
      | Some current \<Rightarrow>
          res_bind (ok_or (InvalidBackendResponse ''current remote overlay item omitted its parent'')
                      (item_parent_id (re_item current))) (\<lambda>current_parent.
          let expected = (case previous of
                            Some location \<Rightarrow> name_at (rl_parent_key location) (rl_name location)
                          | None \<Rightarrow> name_key)
          in if (current_parent, item_name (re_item current)) = expected then Inr ()
             else Inl (InvalidBackendResponse ''remote upsert previous location was not the current location'')))"

definition upsert_plan ::
  "'w LinuxWritableEngine \<Rightarrow> WritableState \<Rightarrow> LinuxRemoteEntry \<Rightarrow> LinuxRemoteLocation option
   \<Rightarrow> LinuxRemoteDelete option \<Rightarrow> LinuxInode \<Rightarrow> LinuxInode option \<Rightarrow> CloudItemId
   \<Rightarrow> LinuxInvalidation list linux_result" where
  "upsert_plan self state entry previous replaced parent previous_parent parent_id =
     (let key = item_key (re_item entry);
          inode = ir_inode (re_inode_record entry);
          name_key = (parent_id, item_name (re_item entry)) in
      res_bind (validate_remote_entry self state entry) (\<lambda>_.
      if local_collision state key name_key
      then Inl (InvalidBackendResponse ''remote change collided with a pending local namespace mutation'')
      else
        res_bind (case replaced of
                    None \<Rightarrow> Inr ()
                  | Some replaced \<Rightarrow>
                      res_bind (validate_remote_delete self state replaced) (\<lambda>_.
                      if rx_key replaced = key
                      then Inl (InvalidBackendResponse ''remote upsert replaced its own stable identity'')
                      else Inr ())) (\<lambda>_.
        res_bind (upsert_destination_check self state key name_key replaced) (\<lambda>_.
        res_bind (upsert_location_check state key name_key previous) (\<lambda>_.
        res_bind (case previous_parent of
                    None \<Rightarrow> Inr []
                  | Some previous_parent \<Rightarrow>
                      res_bind (ok_or (InvalidBackendResponse ''validated previous location disappeared'') previous)
                        (\<lambda>location. Inr [Entry previous_parent (rl_name location)])) (\<lambda>first.
        res_bind (case replaced of
                    None \<Rightarrow> Inr []
                  | Some replaced \<Rightarrow>
                      res_bind (ok_or MissingInodeRecord
                          (inode_for_key_in_state self state (rx_parent_key replaced))) (\<lambda>replaced_parent.
                      Inr [LinuxInvalidation.Delete replaced_parent (ir_inode (rx_inode_record replaced))
                             (rx_name replaced)])) (\<lambda>second.
        Inr (first @ second @ [Entry parent (item_name (re_item entry)), Inode inode]))))))))"

definition upsert_publish ::
  "LinuxRemoteEntry \<Rightarrow> LinuxRemoteLocation option \<Rightarrow> LinuxRemoteDelete option \<Rightarrow> CloudItemId
   \<Rightarrow> WritableState \<Rightarrow> WritableState" where
  "upsert_publish entry previous replaced parent_id state =
     (let key = item_key (re_item entry);
          inode = ir_inode (re_inode_record entry);
          name_key = (parent_id, item_name (re_item entry));
          state =
            (case previous of
               None \<Rightarrow> state
             | Some location \<Rightarrow>
                 let old_name = name_at (rl_parent_key location) (rl_name location) in
                 state\<lparr>lw_remote_by_name := index_drop old_name (lw_remote_by_name state),
                       lw_remote_tombstones_by_name :=
                         index_put old_name () (lw_remote_tombstones_by_name state)\<rparr>);
          state =
            (case replaced of
               None \<Rightarrow> state
             | Some replaced \<Rightarrow>
                 let replaced_name = name_at (rx_parent_key replaced) (rx_name replaced) in
                 state\<lparr>lw_remote_by_key := (lw_remote_by_key state)(rx_key replaced := None),
                       lw_remote_by_inode :=
                         (case lw_remote_by_key state (rx_key replaced) of
                            None \<Rightarrow> lw_remote_by_inode state
                          | Some replaced_inode \<Rightarrow> (lw_remote_by_inode state)(replaced_inode := None)),
                       lw_remote_by_name := index_drop replaced_name (lw_remote_by_name state),
                       lw_remote_tombstones_by_name :=
                         index_put replaced_name () (lw_remote_tombstones_by_name state),
                       lw_remote_deleted_keys := insert (rx_key replaced) (lw_remote_deleted_keys state),
                       lw_remote_deleted_inodes :=
                         insert (ir_inode (rx_inode_record replaced)) (lw_remote_deleted_inodes state)\<rparr>)
      in state\<lparr>lw_remote_tombstones_by_name := index_drop name_key (lw_remote_tombstones_by_name state),
               lw_remote_deleted_keys := lw_remote_deleted_keys state - {key},
               lw_remote_deleted_inodes := lw_remote_deleted_inodes state - {inode},
               lw_remote_by_key := (lw_remote_by_key state)(key \<mapsto> inode),
               lw_remote_by_name := index_put name_key inode (lw_remote_by_name state),
               lw_remote_by_inode := (lw_remote_by_inode state)(inode \<mapsto> entry)\<rparr>)"

definition apply_remote_upsert ::
  "'w mount_world LinuxWritableEngine \<Rightarrow> LinuxRemoteEntry \<Rightarrow> LinuxRemoteLocation option
   \<Rightarrow> LinuxRemoteDelete option \<Rightarrow> ('w mount_world, LinuxInvalidation list) linux_call" where
  "apply_remote_upsert self entry previous replaced =
     (let key = item_key (re_item entry); inode = ir_inode (re_inode_record entry) in
      async_bind (async_lift (ok_or (InvalidBackendResponse ''remote overlay item omitted its parent'')
                                    (item_parent_id (re_item entry)))) (\<lambda>parent_id.
      let parent_key = \<lparr>key_scope = key_scope key, key_item_id = parent_id\<rparr> in
      async_bind (locked (\<lambda>state.
          (ok_or MissingInodeRecord (inode_for_key_in_state self state parent_key), state))) (\<lambda>parent.
      async_bind (lookup_remote_validation_target self parent (item_name (re_item entry))) (\<lambda>target.
      async_bind (async_lift (upsert_target_check key parent_key (item_name (re_item entry)) target replaced)) (\<lambda>_.
      async_bind
        (case previous of
           None \<Rightarrow> async_return None
         | Some location \<Rightarrow>
             if key_scope (rl_parent_key location) \<noteq> key_scope key
             then async_fail (InvalidBackendResponse ''remote upsert previous location escaped the active scope'')
             else
               async_bind (locked (\<lambda>state.
                   (ok_or MissingInodeRecord (inode_for_key_in_state self state (rl_parent_key location)), state)))
                 (\<lambda>previous_parent.
               async_bind (lookup_remote_validation_target self previous_parent (rl_name location)) (\<lambda>found.
               async_bind (async_lift (ok_or
                   (InvalidBackendResponse ''remote upsert previous location did not exist'') found)) (\<lambda>node.
               if node_key node \<noteq> key \<or> fa_inode (node_attributes node) \<noteq> inode
               then async_fail (InvalidBackendResponse ''remote upsert previous location named another stable item'')
               else async_return (Some previous_parent)))))
        (\<lambda>previous_parent.
      locked (\<lambda>state.
        case upsert_plan self state entry previous replaced parent previous_parent parent_id of
          Inl error \<Rightarrow> (Inl error, state)
        | Inr invalidations \<Rightarrow>
            (Inr invalidations, upsert_publish entry previous replaced parent_id state))))))))"

definition delete_publish :: "LinuxRemoteDelete \<Rightarrow> WritableState \<Rightarrow> WritableState" where
  "delete_publish deleted state =
     (let inode = ir_inode (rx_inode_record deleted);
          name_key = name_at (rx_parent_key deleted) (rx_name deleted)
      in state\<lparr>lw_remote_by_key := (lw_remote_by_key state)(rx_key deleted := None),
               lw_remote_by_inode := (lw_remote_by_inode state)(inode := None),
               lw_remote_by_name := index_drop name_key (lw_remote_by_name state),
               lw_remote_tombstones_by_name := index_put name_key () (lw_remote_tombstones_by_name state),
               lw_remote_deleted_keys := insert (rx_key deleted) (lw_remote_deleted_keys state),
               lw_remote_deleted_inodes := insert inode (lw_remote_deleted_inodes state)\<rparr>)"

definition apply_remote_delete ::
  "'w mount_world LinuxWritableEngine \<Rightarrow> LinuxRemoteDelete
   \<Rightarrow> ('w mount_world, LinuxInvalidation list) linux_call" where
  "apply_remote_delete self deleted =
     async_bind (locked (\<lambda>state.
         (ok_or MissingInodeRecord (inode_for_key_in_state self state (rx_parent_key deleted)), state))) (\<lambda>parent.
     async_bind (lookup_remote_validation_target self parent (rx_name deleted)) (\<lambda>found.
     async_bind (async_lift (ok_or (InvalidBackendResponse ''remote deletion location did not exist'') found)) (\<lambda>current.
     if node_key current \<noteq> rx_key deleted
        \<or> fa_inode (node_attributes current) \<noteq> ir_inode (rx_inode_record deleted)
        \<or> node_generation current \<noteq> ir_generation (rx_inode_record deleted)
        \<or> fa_kind (node_attributes current) \<noteq> rx_kind deleted
     then async_fail (InvalidBackendResponse ''remote deletion did not match the current namespace entry'')
     else
       let inode = ir_inode (rx_inode_record deleted);
           name_key = name_at (rx_parent_key deleted) (rx_name deleted) in
       locked (\<lambda>state.
         case validate_remote_delete self state deleted of
           Inl error \<Rightarrow> (Inl error, state)
         | Inr _ \<Rightarrow>
             if local_collision state (rx_key deleted) name_key
             then (Inl (InvalidBackendResponse
                     ''remote deletion collided with a pending local namespace mutation''), state)
             else if is_some_and (index_get (lw_remote_by_name state) name_key) (\<lambda>current_inode. current_inode \<noteq> inode)
             then (Inl (InvalidBackendResponse ''remote deletion location changed before commit''), state)
             else (Inr [LinuxInvalidation.Delete parent inode (rx_name deleted)], delete_publish deleted state)))))"

definition apply_remote_change ::
  "'w mount_world LinuxWritableEngine \<Rightarrow> LinuxRemoteChange
   \<Rightarrow> ('w mount_world, LinuxInvalidation list) linux_call" where
  "apply_remote_change self change =
     (case change of
        Upsert upsert \<Rightarrow> apply_remote_upsert self (ru_entry upsert) (ru_previous upsert) (ru_replaced upsert)
      | LinuxRemoteChange.Delete deleted \<Rightarrow> apply_remote_delete self deleted)"

section \<open>Activation\<close>

fun async_each :: "('a \<Rightarrow> ('w, 'e, 'b) async) \<Rightarrow> 'a list \<Rightarrow> ('w, 'e, unit) async" where
  "async_each f [] = async_return ()"
| "async_each f (x # xs) = async_bind (f x) (\<lambda>_. async_each f xs)"

definition restore_remote_overlay ::
  "'w mount_world LinuxWritableEngine \<Rightarrow> LinuxRemoteEntry list \<Rightarrow> ('w mount_world, unit) linux_call" where
  "restore_remote_overlay self entries =
     async_each (\<lambda>entry. apply_remote_change self
       (Upsert \<lparr>ru_entry = entry, ru_previous = None, ru_replaced = None\<rparr>)) entries"

definition restore_created_file ::
  "'w mount_world LinuxWritableEngine \<Rightarrow> LinuxCreatedFile \<Rightarrow> ('w mount_world, unit) linux_call" where
  "restore_created_file self created =
     async_bind (async_lift (validate_created_file self created None)) (\<lambda>_.
     async_bind (async_lift (ok_or (InvalidBackendResponse ''recovered create omitted its parent identity'')
                                   (item_parent_id (cr_item created)))) (\<lambda>parent_id.
     let parent_key = \<lparr>key_scope = key_scope (item_key (cr_item created)), key_item_id = parent_id\<rparr> in
     async_bind (locked (\<lambda>state.
         (ok_or (InvalidBackendResponse ''recovered create parent omitted a restored inode record'')
            (inode_for_key_in_state self state parent_key), state))) (\<lambda>parent_inode.
     async_bind (writable_getattr self parent_inode None) (\<lambda>parent.
     if fa_kind (node_attributes parent) \<noteq> LinuxNodeKind.Directory
     then async_fail (InvalidBackendResponse ''recovered create parent was not a directory'')
     else
       locked (\<lambda>state.
         let name_key =
               (case Option.bind
                       (Option.bind (lw_namespace_by_key state (item_key (cr_item created)))
                          (lw_namespace_by_inode state))
                       (\<lambda>item. map_option (\<lambda>current_parent. (current_parent, item_name (ni_item item)))
                                 (item_parent_id (ni_item item))) of
                  Some name_key \<Rightarrow> name_key
                | None \<Rightarrow> (parent_id, item_name (cr_item created)));
             inode = ir_inode (cr_inode_record created)
         in case ensure_created_file_is_unique self state created name_key of
              Inl error \<Rightarrow> (Inl error, state)
            | Inr _ \<Rightarrow>
                (Inr (),
                 state\<lparr>lw_created_by_key := (lw_created_by_key state)(item_key (cr_item created) \<mapsto> inode),
                       lw_created_by_name := index_put name_key inode (lw_created_by_name state),
                       lw_created_by_inode := (lw_created_by_inode state)(inode \<mapsto> created)\<rparr>))))))"

text \<open>Activation calls the ports before the engine, and with it the state, exists.\<close>

definition fresh_state :: "('w mount_world, unit) linux_call" where
  "fresh_state = (\<lambda>(_, w). Some (Inr (), WritableState_default, w))"

definition activate_inner ::
  "'w mount_world LinuxWritableEngine \<Rightarrow> LinuxRemoteEntry list \<Rightarrow> ('w mount_world, unit) linux_call" where
  "activate_inner self remote_entries =
     (let scope = it_scope (inode_table self); session_generation = we_session_generation self in
      async_bind (case we_namespace_store self of
                    Some namespace_store \<Rightarrow>
                      await (io_try NamespaceStore (ns_activate_namespace namespace_store scope session_generation))
                  | None \<Rightarrow> async_return []) (\<lambda>created.
      async_bind (await (io_try WritebackStore
          (wb_activate_mount (we_store self) scope session_generation))) (\<lambda>snapshots.
      async_bind (case we_namespace_store self of
                    Some namespace_store \<Rightarrow>
                      await (io_try NamespaceStore
                        (ns_activate_namespace_overlay namespace_store scope session_generation))
                  | None \<Rightarrow> async_return LinuxNamespaceOverlay_default) (\<lambda>overlay.
      async_bind fresh_state (\<lambda>_.
      async_bind (locked (restore_namespace_overlay self overlay)) (\<lambda>_.
      async_bind (restore_remote_overlay self remote_entries) (\<lambda>_.
      async_bind (async_each (restore_created_file self) created) (\<lambda>_.
      locked (restore_dirty_snapshots self snapshots)))))))))"

end
