(* ===== verification/Linux_Index.thy ===== *)
theory Linux_Index
  imports Linux_Mount
begin

text \<open>
  The lookup structures of the Linux adapter against plain maps: the restored inode table is a
  bijection between stable keys and inodes, the two-level parent and name index is a map from
  (parent, name) pairs, and a paged directory scan returns every child once.
\<close>

section \<open>The inode table\<close>

definition restorable ::
  "CloudScope \<Rightarrow> (CloudItemKey \<rightharpoonup> LinuxInodeRecord) \<Rightarrow> (LinuxInode \<rightharpoonup> LinuxInodeRecord) \<Rightarrow> LinuxInodeRecord \<Rightarrow> bool" where
  "restorable scope ks is r \<longleftrightarrow>
     key_scope (ir_key r) = scope \<and> ir_inode r \<noteq> LINUX_ROOT_INODE \<and> ks (ir_key r) = None \<and> is (ir_inode r) = None"

lemma restore_records_Cons:
  "restore_records scope (r # records) (ks, is) = Inr maps \<longleftrightarrow>
     restorable scope ks is r
     \<and> restore_records scope records (ks(ir_key r \<mapsto> r), is(ir_inode r \<mapsto> r)) = Inr maps"
  by (simp add: restorable_def del: fun_upd_apply)

lemma restorable_upd:
  "(\<forall>x \<in> set records. restorable scope (ks(ir_key r \<mapsto> r)) (is(ir_inode r \<mapsto> r)) x) \<longleftrightarrow>
     (\<forall>x \<in> set records. restorable scope ks is x)
     \<and> ir_key r \<notin> ir_key ` set records \<and> ir_inode r \<notin> ir_inode ` set records"
  by (auto simp: restorable_def image_iff split: if_splits)

lemma map_of_field_upd:
  "f r \<notin> f ` set records \<Longrightarrow>
   m(f r \<mapsto> r) ++ map_of (map (\<lambda>r. (f r, r)) records) = m ++ map_of (map (\<lambda>r. (f r, r)) (r # records))"
  by (simp add: map_add_upd_left dom_map_of_conv_image_fst image_image)

lemma restore_records_exact:
  "restore_records scope records (ks, is) = Inr maps \<longleftrightarrow>
     (\<forall>r \<in> set records. restorable scope ks is r)
     \<and> distinct (map ir_key records) \<and> distinct (map ir_inode records)
     \<and> maps = (ks ++ map_of (map (\<lambda>r. (ir_key r, r)) records),
               is ++ map_of (map (\<lambda>r. (ir_inode r, r)) records))"
proof (induction records arbitrary: ks "is")
  case Nil
  show ?case by auto
next
  case (Cons r records)
  show ?case
    unfolding restore_records_Cons Cons.IH restorable_upd
    using map_of_field_upd [of ir_key r records ks] map_of_field_upd [of ir_inode r records "is"]
    by (auto simp del: map_of.simps)
qed

lemma map_of_by_field:
  assumes "distinct (map f xs)"
  shows "map_of (map (\<lambda>r. (f r, r)) xs) k = Some r \<longleftrightarrow> r \<in> set xs \<and> f r = k"
proof -
  have "distinct (map fst (map (\<lambda>r. (f r, r)) xs))" using assms by (simp add: comp_def)
  then show ?thesis by (auto simp: map_of_eq_Some_iff image_iff)
qed

lemma LinuxInodeTable_new_exact:
  "LinuxInodeTable_new root records = Inr t \<longleftrightarrow>
     ir_inode root = LINUX_ROOT_INODE
     \<and> (\<forall>r \<in> set records. key_scope (ir_key r) = key_scope (ir_key root) \<and> ir_inode r \<noteq> LINUX_ROOT_INODE)
     \<and> distinct (map ir_key records) \<and> distinct (map ir_inode records)
     \<and> t = \<lparr>it_scope = key_scope (ir_key root), it_root = root,
            it_by_key = map_of (map (\<lambda>r. (ir_key r, r)) records),
            it_by_inode = map_of (map (\<lambda>r. (ir_inode r, r)) records)\<rparr>"
  by (auto simp: LinuxInodeTable_new_def Let_def restore_records_exact restorable_def)

lemma by_inode_exact:
  assumes "LinuxInodeTable_new root records = Inr t"
  shows "by_inode t i = Some r \<longleftrightarrow> r \<in> set (root # records) \<and> ir_inode r = i"
  using assms by (auto simp: LinuxInodeTable_new_exact by_inode_def map_of_by_field)

lemma by_key_exact:
  assumes "LinuxInodeTable_new root records = Inr t" and "ir_key root \<notin> ir_key ` set records"
  shows "by_key t k = Some r \<longleftrightarrow> r \<in> set (root # records) \<and> ir_key r = k"
  using assms by (auto simp: LinuxInodeTable_new_exact by_key_def map_of_by_field image_iff)

section \<open>The parent and name index\<close>

text \<open>
  The contract of an index: a map from (parent, name) pairs whose children can be listed. The
  representation invariant says that a parent without children has no entry.
\<close>

locale name_index =
  fixes get :: "'i \<Rightarrow> ParentNameKey \<Rightarrow> 'v option"
    and put :: "ParentNameKey \<Rightarrow> 'v \<Rightarrow> 'i \<Rightarrow> 'i"
    and drop :: "ParentNameKey \<Rightarrow> 'i \<Rightarrow> 'i"
    and children :: "'i \<Rightarrow> CloudItemId \<Rightarrow> (string \<times> 'v) list"
    and wf :: "'i \<Rightarrow> bool"
  assumes get_put: "get (put k v x) = (get x)(k \<mapsto> v)"
    and get_drop: "wf x \<Longrightarrow> get (drop k x) = (get x)(k := None)"
    and wf_put: "wf x \<Longrightarrow> wf (put k v x)"
    and wf_drop: "wf x \<Longrightarrow> wf (drop k x)"
    and children_exact: "wf x \<Longrightarrow> (n, v) \<in> set (children x p) \<longleftrightarrow> get x (p, n) = Some v"
    and children_distinct: "wf x \<Longrightarrow> distinct (map fst (children x p))"
begin

lemma child_names: "wf x \<Longrightarrow> n \<in> fst ` set (children x p) \<longleftrightarrow> get x (p, n) \<noteq> None"
  using children_exact by force

lemma map_of_children: "wf x \<Longrightarrow> map_of (children x p) n = get x (p, n)"
  by (metis children_distinct children_exact map_of_eq_Some_iff not_Some_eq)

lemma drop_put: "wf x \<Longrightarrow> get (drop k (put k v x)) = (get x)(k := None)"
  by (simp add: get_put get_drop wf_put)

end

definition index_wf :: "'v ParentNameIndex \<Rightarrow> bool" where
  "index_wf x \<longleftrightarrow> (\<forall>p cs. by_parent x p = Some cs \<longrightarrow> cs \<noteq> [] \<and> distinct (map fst cs))"

lemma index_wf_default [simp]: "index_wf ParentNameIndex_default"
  by (simp add: index_wf_def ParentNameIndex_default_def)

lemma index_insert_returns: "fst (index_insert k v x) = index_get x k"
  by (auto simp: index_insert_def index_get_def Let_def split: option.splits)

lemma index_remove_returns: "fst (index_remove k x) = index_get x k"
  by (auto simp: index_remove_def index_get_def Let_def split: option.splits)

lemma index_get_put: "index_get (index_put k v x) = (index_get x)(k \<mapsto> v)"
  by (rule ext, cases k)
    (auto simp: index_put_def index_insert_def index_get_def Let_def update_conv' split: option.splits)

lemma index_get_drop: "index_get (index_drop k x) = (index_get x)(k := None)"
proof (rule ext)
  fix q
  have empty: "map_of cs n = None" if "AList.delete (snd k) cs = []" "n \<noteq> snd k" for cs :: "(string \<times> 'a) list" and n
    using that by (metis delete_conv' fun_upd_other map_of.simps(1))
  show "index_get (index_drop k x) q = ((index_get x)(k := None)) q"
    by (cases k; cases q)
      (auto simp: index_drop_def index_remove_def index_get_def Let_def delete_conv' empty split: option.splits)
qed

lemma index_wf_put: "index_wf x \<Longrightarrow> index_wf (index_put k v x)"
  by (auto simp: index_wf_def index_put_def index_insert_def Let_def distinct_update update_nonempty
      split: option.splits)

lemma index_wf_drop: "index_wf x \<Longrightarrow> index_wf (index_drop k x)"
  by (auto simp: index_wf_def index_drop_def index_remove_def Let_def distinct_delete split: option.splits)

interpretation pni: name_index index_get index_put index_drop index_children index_wf
proof
  fix x :: "'a ParentNameIndex" and n v p
  assume wf: "index_wf x"
  show "(n, v) \<in> set (index_children x p) \<longleftrightarrow> index_get x (p, n) = Some v"
    using wf by (auto simp: index_children_def index_get_def index_wf_def map_of_eq_Some_iff split: option.splits)
  show "distinct (map fst (index_children x p))"
    using wf by (auto simp: index_children_def index_wf_def split: option.splits)
qed (simp_all add: index_get_put index_get_drop index_wf_put index_wf_drop)

end
