(* ===== verification/Linux_Steps.thy ===== *)
theory Linux_Steps
  imports Linux_Index
begin

text \<open>
  What the methods of the Linux engine do to the state they share. A method is a sequence of
  critical sections and port calls; whatever relation between worlds every critical section and
  every wait respects, the whole method respects (rely and guarantee). The relation
  \<open>mount_step\<close> says that dirty snapshots only move to newer generations, that handle numbers are
  never handed out twice, and that open handles stay consistent with the dirty snapshots.
\<close>

section \<open>Backend reads\<close>

locale backend_rely = step_relation R
  for R :: "'w \<Rightarrow> 'w \<Rightarrow> bool" +
  fixes readonly :: "'w LinuxReadOnlyEngine"
  assumes get_item_steps: "io_steps R (fb_get_item (ro_backend readonly) key)"
    and list_children_steps: "io_steps R (fb_list_children (ro_backend readonly) key cursor)"
begin

lemma steps_load_item: "async_steps R (load_item_for_overlay readonly inode)"
  unfolding load_item_for_overlay_def
  by (intro steps_bind steps_pure steps_await steps_try get_item_steps) auto

lemma steps_load_children_for_overlay: "async_steps R (load_children_for_overlay readonly parent)"
  unfolding load_children_for_overlay_def
proof (rule steps_loop)
  fix x r x'
  assume pass: "load_children_pass readonly parent x = (r, x')"
  obtain l w where x: "x = (l, w)" by fastforce
  obtain res w1 where call: "io_try Backend (fb_list_children (ro_backend readonly) parent (cs_cursor l)) w = (res, w1)"
    by fastforce
  have "R w w1" using io_stepsD [OF steps_try [OF list_children_steps] call] .
  moreover have "snd x' = w1"
    using pass call by (auto simp: x load_children_pass_def split: sum.splits)
  ultimately show "R (snd x) (snd x')" by (simp add: x)
qed

lemma steps_load_children: "async_steps R (load_children readonly parent)"
  unfolding load_children_def by (intro steps_bind steps_load_children_for_overlay) simp

lemma steps_readonly_lookup: "async_steps R (readonly_lookup readonly parent name)"
  unfolding readonly_lookup_def
  by (intro steps_bind steps_pure steps_load_item) (auto intro!: steps_bind steps_load_children split: option.split)

lemma steps_readonly_getattr: "async_steps R (readonly_getattr readonly inode)"
  unfolding readonly_getattr_def by (intro steps_bind steps_pure steps_load_item)

end

section \<open>Reads through the overlays\<close>

text \<open>A relation between mounts that ignores nothing but what port calls do to it.\<close>

locale mount_rely = backend_rely R "we_readonly engine"
  for R :: "'w mount_world \<Rightarrow> 'w mount_world \<Rightarrow> bool"
    and engine :: "'w mount_world LinuxWritableEngine"
begin

lemma steps_reading: "async_steps R (reading f)"
  by (auto simp: async_steps_def reading_def R_refl)

lemma steps_locked_read: "async_steps R (locked (\<lambda>state. (f state, state)))"
  by (auto simp: async_steps_def locked_def R_refl)

lemma steps_locked:
  assumes "\<And>state r state' w. m state = (r, state') \<Longrightarrow> R (state, w) (state', w)"
  shows "async_steps R (locked m)"
  using assms by (auto simp: async_steps_def locked_def split: prod.splits)

lemma steps_overlay_node:
  "async_steps R fallback \<Longrightarrow> async_steps R (overlay_node engine namespace created remote fallback)"
  unfolding overlay_node_def by (auto split: option.split)

lemma steps_writable_getattr: "async_steps R (writable_getattr engine inode handle)"
  unfolding writable_getattr_def
  by (intro steps_bind steps_reading)
    (auto intro!: steps_bind steps_overlay_node steps_readonly_getattr steps_locked_read)

lemma steps_writable_lookup: "async_steps R (writable_lookup engine parent name)"
  unfolding writable_lookup_def Let_def
  by (intro steps_bind steps_pure steps_writable_getattr)
    (auto intro!: steps_bind steps_overlay_node steps_readonly_lookup steps_reading)

lemma steps_lookup_target: "async_steps R (lookup_remote_validation_target engine parent name)"
  unfolding lookup_remote_validation_target_def
  by (intro steps_bind steps_attempt steps_writable_lookup) (auto split: sum.split)

end

section \<open>Dirty snapshots and handles\<close>

text \<open>A snapshot is replaced by one of a newer generation only.\<close>

definition dirty_le :: "(LinuxInode \<rightharpoonup> LocalContentSnapshot) \<Rightarrow> (LinuxInode \<rightharpoonup> LocalContentSnapshot) \<Rightarrow> bool" where
  "dirty_le d d' \<longleftrightarrow>
     (\<forall>i s. d i = Some s \<longrightarrow> (\<exists>s'. d' i = Some s' \<and> (s' = s \<or> snap_generation s < snap_generation s')))"

text \<open>Handles below the bound have been handed out; zero is never a handle.\<close>

definition handle_bound :: "WritableState \<Rightarrow> nat" where
  "handle_bound state = (if lw_next state = 0 then 1 else unat (lw_next state))"

definition handed_out :: "WritableState \<Rightarrow> u64 \<Rightarrow> bool" where
  "handed_out state h \<longleftrightarrow> h \<noteq> 0 \<and> unat h < handle_bound state"

definition generation_backed :: "WritableState \<Rightarrow> LinuxInode \<Rightarrow> LocalContentGeneration option \<Rightarrow> bool" where
  "generation_backed state inode generation \<longleftrightarrow>
     (\<forall>g. generation = Some g \<longrightarrow>
        (\<exists>s. lw_dirty_snapshots state inode = Some s \<and> g \<le> snap_generation s))"

definition handles_ok :: "WritableState \<Rightarrow> bool" where
  "handles_ok state \<longleftrightarrow>
     distinct (map fst (lw_files state))
     \<and> (\<forall>h f. map_of (lw_files state) h = Some f \<longrightarrow>
          handed_out state (file_handle_get h) \<and> generation_backed state (wf_inode f) (wf_generation f))
     \<and> (\<forall>h. lw_directories state h \<noteq> None \<longrightarrow> handed_out state (directory_handle_get h))"

text \<open>The name indices are well-formed: no empty inner map, no duplicate name.\<close>

definition overlays_wf :: "WritableState \<Rightarrow> bool" where
  "overlays_wf s \<longleftrightarrow>
     index_wf (lw_namespace_by_name s) \<and> index_wf (lw_created_by_name s) \<and> index_wf (lw_remote_by_name s)
     \<and> index_wf (lw_tombstones_by_name s) \<and> index_wf (lw_remote_tombstones_by_name s)"

lemma overlays_wf_frame [simp]:
  "overlays_wf (s\<lparr>lw_next := a\<rparr>) = overlays_wf s"
  "overlays_wf (s\<lparr>lw_files := b\<rparr>) = overlays_wf s"
  "overlays_wf (s\<lparr>lw_directories := c\<rparr>) = overlays_wf s"
  "overlays_wf (s\<lparr>lw_dirty_snapshots := d\<rparr>) = overlays_wf s"
  by (simp_all add: overlays_wf_def)

definition mount_le :: "WritableState \<Rightarrow> WritableState \<Rightarrow> bool" where
  "mount_le s s' \<longleftrightarrow>
     dirty_le (lw_dirty_snapshots s) (lw_dirty_snapshots s')
     \<and> handle_bound s \<le> handle_bound s'
     \<and> (handles_ok s \<longrightarrow> handles_ok s')
     \<and> (overlays_wf s \<longrightarrow> overlays_wf s')"

definition mount_step :: "'w mount_world \<Rightarrow> 'w mount_world \<Rightarrow> bool" where
  "mount_step w w' \<longleftrightarrow> mount_le (fst w) (fst w')"

lemma dirty_le_refl [simp]: "dirty_le d d"
  by (simp add: dirty_le_def)

lemma dirty_le_trans: "dirty_le a b \<Longrightarrow> dirty_le b c \<Longrightarrow> dirty_le a c"
  unfolding dirty_le_def by (fast intro: order_less_trans)

lemma dirty_le_upd:
  "(\<And>current. d i = Some current \<Longrightarrow> s = current \<or> snap_generation current < snap_generation s)
   \<Longrightarrow> dirty_le d (d(i \<mapsto> s))"
  by (auto simp: dirty_le_def)

interpretation mount: step_relation mount_step
proof
  fix w w' w'' :: "WritableState \<times> 'w"
  show "mount_step w w" by (simp add: mount_step_def mount_le_def)
  show "mount_step w w' \<Longrightarrow> mount_step w' w'' \<Longrightarrow> mount_step w w''"
    by (auto simp: mount_step_def mount_le_def intro: dirty_le_trans)
qed

lemma handed_out_mono: "handed_out s h \<Longrightarrow> handle_bound s \<le> handle_bound s' \<Longrightarrow> handed_out s' h"
  by (simp add: handed_out_def)

lemma generation_backed_mono:
  "generation_backed s i g \<Longrightarrow> dirty_le (lw_dirty_snapshots s) (lw_dirty_snapshots s') \<Longrightarrow> generation_backed s' i g"
  unfolding generation_backed_def dirty_le_def by (metis order_trans less_imp_le)

lemma generation_backed_None [simp]: "generation_backed s i None"
  by (simp add: generation_backed_def)

text \<open>A section that keeps the open handles and grows the rest.\<close>

lemma mount_leI:
  assumes "dirty_le (lw_dirty_snapshots s) (lw_dirty_snapshots s')"
    and "handle_bound s \<le> handle_bound s'"
    and "handles_ok s \<Longrightarrow> distinct (map fst (lw_files s'))"
    and "\<And>h f. handles_ok s \<Longrightarrow> map_of (lw_files s') h = Some f \<Longrightarrow> map_of (lw_files s) h \<noteq> Some f \<Longrightarrow>
           handed_out s' (file_handle_get h) \<and> generation_backed s' (wf_inode f) (wf_generation f)"
    and "\<And>h. lw_directories s' h \<noteq> None \<Longrightarrow> lw_directories s h = None \<Longrightarrow>
           handed_out s' (directory_handle_get h)"
    and "overlays_wf s \<Longrightarrow> overlays_wf s'"
  shows "mount_le s s'"
  unfolding mount_le_def
proof (intro conjI impI assms(1,2,6))
  assume ok: "handles_ok s"
  show "handles_ok s'"
    unfolding handles_ok_def
  proof (intro conjI allI impI)
    show "distinct (map fst (lw_files s'))" using assms(3) ok .
  next
    fix h f assume f: "map_of (lw_files s') h = Some f"
    have "handed_out s' (file_handle_get h) \<and> generation_backed s' (wf_inode f) (wf_generation f)"
    proof (cases "map_of (lw_files s) h = Some f")
      case True
      then show ?thesis
        using ok handed_out_mono [OF _ assms(2)] generation_backed_mono [OF _ assms(1)]
        unfolding handles_ok_def by blast
    qed (rule assms(4) [OF ok f])
    then show "handed_out s' (file_handle_get h)" "generation_backed s' (wf_inode f) (wf_generation f)"
      by blast+
  next
    fix h assume "lw_directories s' h \<noteq> None"
    then show "handed_out s' (directory_handle_get h)"
      using assms(5) [of h] ok handed_out_mono [OF _ assms(2)] unfolding handles_ok_def by blast
  qed
qed

lemma mount_le_same:
  "lw_dirty_snapshots s' = lw_dirty_snapshots s \<Longrightarrow> lw_next s' = lw_next s \<Longrightarrow>
   lw_files s' = lw_files s \<Longrightarrow> lw_directories s' = lw_directories s \<Longrightarrow>
   (overlays_wf s \<Longrightarrow> overlays_wf s') \<Longrightarrow> mount_le s s'"
  by (rule mount_leI) (auto simp: handle_bound_def handles_ok_def)

lemma mount_le_refl [simp]: "mount_le s s"
  by (rule mount_le_same) simp_all

section \<open>Critical sections\<close>

lemma next_handle_Inr:
  assumes "next_handle counter = Inr (current, nxt)"
  shows "current \<noteq> 0" and "unat current = (if counter = 0 then 1 else unat counter)"
    and "unat nxt = unat current + 1"
proof -
  let ?c = "if counter = 0 then 1 else counter"
  have c: "current = ?c" and n: "checked_add ?c 1 = Some nxt"
    using assms by (auto simp: next_handle_def Let_def split: option.splits)
  show "current \<noteq> 0" and "unat current = (if counter = 0 then 1 else unat counter)"
    unfolding c by simp_all
  show "unat nxt = unat current + 1"
    using n unat_add_exact [of ?c 1] unfolding c by simp
qed

lemma allocate_next:
  assumes "next_handle (lw_next s) = Inr (current, nxt)" and "lw_next s' = nxt"
  shows "handle_bound s' = handle_bound s + 1" and "unat current = handle_bound s"
    and "handed_out s' current"
proof -
  show cur: "unat current = handle_bound s"
    using next_handle_Inr [OF assms(1)] by (simp add: handle_bound_def)
  have "nxt \<noteq> 0" using next_handle_Inr(3) [OF assms(1)] by auto
  then show bound: "handle_bound s' = handle_bound s + 1"
    using next_handle_Inr [OF assms(1)] assms(2) cur by (simp add: handle_bound_def)
  show "handed_out s' current"
    using next_handle_Inr(1) [OF assms(1)] cur bound by (simp add: handed_out_def)
qed

text \<open>A new handle is the first number that has not been handed out.\<close>

lemma WritableState_allocate_Inr:
  assumes "WritableState_allocate s = (Inr h, s')"
  obtains nxt where "next_handle (lw_next s) = Inr (file_handle_get h, nxt)" and "s' = s\<lparr>lw_next := nxt\<rparr>"
proof -
  obtain current nxt where c: "next_handle (lw_next s) = Inr (current, nxt)"
    and h: "LinuxFileHandle_new current = Inr h" and s': "s' = s\<lparr>lw_next := nxt\<rparr>"
    using assms by (auto simp: WritableState_allocate_def split: sum.splits)
  have "h = LinuxFileHandle current" using h next_handle_Inr(1) [OF c] by (simp add: LinuxFileHandle_new_def)
  then show ?thesis using c s' by (intro that) auto
qed

lemma WritableState_allocate_Inl: "WritableState_allocate s = (Inl e, s') \<Longrightarrow> s' = s"
  using next_handle_Inr(1)
  by (auto simp: WritableState_allocate_def LinuxFileHandle_new_def split: sum.splits if_splits)

lemma WritableState_allocate_directory_Inr:
  assumes "WritableState_allocate_directory s = (Inr h, s')"
  obtains nxt where "next_handle (lw_next s) = Inr (directory_handle_get h, nxt)" and "s' = s\<lparr>lw_next := nxt\<rparr>"
proof -
  obtain current nxt where c: "next_handle (lw_next s) = Inr (current, nxt)"
    and h: "LinuxDirectoryHandle_new current = Inr h" and s': "s' = s\<lparr>lw_next := nxt\<rparr>"
    using assms by (auto simp: WritableState_allocate_directory_def split: sum.splits)
  have "h = LinuxDirectoryHandle current"
    using h next_handle_Inr(1) [OF c] by (simp add: LinuxDirectoryHandle_new_def)
  then show ?thesis using c s' by (intro that) auto
qed

lemma WritableState_allocate_directory_Inl: "WritableState_allocate_directory s = (Inl e, s') \<Longrightarrow> s' = s"
  using next_handle_Inr(1)
  by (auto simp: WritableState_allocate_directory_def LinuxDirectoryHandle_new_def split: sum.splits if_splits)

lemma map_of_update_other:
  "map_of (AList.update h f al) h' = Some f' \<Longrightarrow> map_of al h' \<noteq> Some f' \<Longrightarrow> h' = h \<and> f' = f"
  by (auto simp: update_conv' split: if_splits)

lemma mount_le_allocate:
  assumes "next_handle (lw_next s) = Inr (current, nxt)"
  shows "mount_le s (s\<lparr>lw_next := nxt\<rparr>)"
  using allocate_next(1) [OF assms, of "s\<lparr>lw_next := nxt\<rparr>"]
  by (intro mount_leI) (auto simp: handles_ok_def)

text \<open>Entering a file under a number that has been handed out.\<close>

lemma mount_le_insert_file:
  assumes "handed_out s (file_handle_get h)" and "generation_backed s (wf_inode f) (wf_generation f)"
    and "s' = s\<lparr>lw_files := AList.update h f (lw_files s)\<rparr>"
  shows "mount_le s s'"
proof (rule mount_leI)
  fix h' f' assume "map_of (lw_files s') h' = Some f'" and "map_of (lw_files s) h' \<noteq> Some f'"
  then have "h' = h" "f' = f" using map_of_update_other [of h f "lw_files s" h' f'] by (simp_all add: assms(3))
  moreover have "handed_out s' (file_handle_get h) = handed_out s (file_handle_get h)"
    by (simp add: handed_out_def handle_bound_def assms(3))
  ultimately show "handed_out s' (file_handle_get h') \<and> generation_backed s' (wf_inode f') (wf_generation f')"
    using assms(1,2) by (simp add: assms(3) generation_backed_def)
qed (simp_all add: assms(3) handle_bound_def handles_ok_def distinct_update)

lemma mount_le_insert_directory:
  assumes "next_handle (lw_next s) = Inr (directory_handle_get h, nxt)"
    and "s' = s\<lparr>lw_next := nxt, lw_directories := (lw_directories s)(h \<mapsto> d)\<rparr>"
  shows "mount_le s s'"
proof (rule mount_leI)
  fix h' assume "lw_directories s' h' \<noteq> None" and "lw_directories s h' = None"
  then have "h' = h" by (simp add: assms(2) split: if_splits)
  then show "handed_out s' (directory_handle_get h')"
    using allocate_next(3) [OF assms(1), of s'] by (simp add: assms(2))
qed (use allocate_next(1) [OF assms(1), of s'] in \<open>simp_all add: assms(2) handles_ok_def\<close>)

lemma mount_le_delete_file: "mount_le s (s\<lparr>lw_files := AList.delete h (lw_files s)\<rparr>)"
  by (rule mount_leI) (auto simp: handle_bound_def handles_ok_def distinct_delete delete_conv' split: if_splits)

lemma mount_le_dirty:
  assumes "\<And>current. lw_dirty_snapshots s i = Some current \<Longrightarrow>
      \<not> snap_generation snap < snap_generation current
      \<and> (snap_generation current = snap_generation snap \<longrightarrow> current = snap)"
  shows "mount_le s (s\<lparr>lw_dirty_snapshots := (lw_dirty_snapshots s)(i \<mapsto> snap)\<rparr>)"
proof (rule mount_leI)
  have "dirty_le (lw_dirty_snapshots s) ((lw_dirty_snapshots s)(i \<mapsto> snap))"
    by (rule dirty_le_upd) (use assms in \<open>force simp: not_less le_less\<close>)
  then show "dirty_le (lw_dirty_snapshots s)
      (lw_dirty_snapshots (s\<lparr>lw_dirty_snapshots := (lw_dirty_snapshots s)(i \<mapsto> snap)\<rparr>))" by simp
qed (auto simp: handle_bound_def handles_ok_def)

lemma validate_opened_session_step:
  assumes "validate_opened_session e i key session recovered s = (r, s')"
  shows "mount_le s s'"
    and "r = Inr () \<Longrightarrow> generation_backed s' i (map_option snap_generation (ws_snapshot session))"
proof -
  show "mount_le s s'"
    using assms mount_le_dirty [of s i "the (ws_snapshot session)"]
    by (auto simp: validate_opened_session_def Let_def split: if_splits option.splits)
  show "r = Inr () \<Longrightarrow> generation_backed s' i (map_option snap_generation (ws_snapshot session))"
    using assms
    by (auto simp: validate_opened_session_def Let_def generation_backed_def split: if_splits option.splits)
qed

lemma apply_commit_Inr:
  assumes "apply_commit e h i commit minimum same s = (Inr (), s')"
  obtains (stale) current where "same" and "s' = s" and "lw_dirty_snapshots s i = Some current"
      and "snap_generation (wc_snapshot commit) < snap_generation current"
  | (stored) opened where
      "map_of (lw_files s) h = Some opened" and "wf_inode opened = i"
      and "item_key_of e s i = Inr (snap_item_key (wc_snapshot commit))"
      and "\<And>m. minimum = Some m \<Longrightarrow> m \<le> snap_size (wc_snapshot commit)"
      and "\<And>current. lw_dirty_snapshots s i = Some current \<Longrightarrow>
             snap_generation current < snap_generation (wc_snapshot commit)
             \<or> same \<and> wc_snapshot commit = current"
      and "s' = s\<lparr>lw_files := AList.update h
                    (opened\<lparr>wf_size := snap_size (wc_snapshot commit),
                            wf_generation := Some (snap_generation (wc_snapshot commit))\<rparr>) (lw_files s),
                  lw_dirty_snapshots := (lw_dirty_snapshots s)(i \<mapsto> wc_snapshot commit)\<rparr>"
proof -
  note unfolds = apply_commit_def store_commit_def is_some_and_def Let_def
  obtain opened where opened: "map_of (lw_files s) h = Some opened"
    using assms by (auto simp: unfolds split: sum.splits if_splits option.splits)
  obtain key where key: "item_key_of e s i = Inr key"
    using assms by (auto simp: unfolds split: sum.splits)
  show ?thesis
  proof (cases "lw_dirty_snapshots s i")
    case None
    with assms opened key show ?thesis
      by (intro stored [of opened]) (auto simp: unfolds not_less split: if_splits option.splits)
  next
    case (Some current)
    show ?thesis
    proof (cases "snap_generation (wc_snapshot commit) < snap_generation current")
      case True
      with Some assms opened key show ?thesis
        by (intro stale) (auto simp: unfolds split: if_splits option.splits)
    next
      case False
      with Some assms opened key show ?thesis
        by (intro stored [of opened]) (auto simp: unfolds not_less le_less split: if_splits option.splits)
    qed
  qed
qed

lemma apply_commit_Inl: "apply_commit e h i commit minimum same s = (Inl error, s') \<Longrightarrow> s' = s"
  by (auto simp: apply_commit_def store_commit_def Let_def split: sum.splits if_splits option.splits)

lemma apply_commit_step:
  assumes "apply_commit e h i commit minimum same s = (r, s')"
  shows "mount_le s s'"
proof (cases r)
  case (Inl error)
  with assms apply_commit_Inl [of e h i commit minimum same s error s'] show ?thesis by simp
next
  case (Inr u)
  with assms have run: "apply_commit e h i commit minimum same s = (Inr (), s')" by simp
  show ?thesis
  proof (cases rule: apply_commit_Inr [OF run])
    case (1 current)
    then show ?thesis by simp
  next
    case (2 opened)
    let ?new = "opened\<lparr>wf_size := snap_size (wc_snapshot commit),
        wf_generation := Some (snap_generation (wc_snapshot commit))\<rparr>"
    show ?thesis
    proof (rule mount_leI)
      show "dirty_le (lw_dirty_snapshots s) (lw_dirty_snapshots s')"
        using 2(5) by (simp add: 2(6)) (rule dirty_le_upd, blast)
      fix h' f' assume ok: "handles_ok s" and new: "map_of (lw_files s') h' = Some f'" "map_of (lw_files s) h' \<noteq> Some f'"
      from new have "h' = h" "f' = ?new"
        using map_of_update_other [of h ?new "lw_files s" h' f'] by (simp_all add: 2(6))
      moreover have "handed_out s' (file_handle_get h)"
        using ok 2(1) handed_out_mono [of s _ s'] by (auto simp: handles_ok_def handle_bound_def 2(6))
      ultimately show "handed_out s' (file_handle_get h') \<and> generation_backed s' (wf_inode f') (wf_generation f')"
        using 2(2) by (simp add: generation_backed_def 2(6))
    qed (simp_all add: 2(6) handle_bound_def handles_ok_def distinct_update)
  qed
qed

text \<open>Namespace transitions touch neither handles nor dirty snapshots.\<close>

lemmas frame_defs =
  insert_namespace_item_def drop_tombstones_def drop_replaced_def publish_rename_def publish_remove_def
  upsert_publish_def delete_publish_def

lemma publish_steps:
  "mount_le s (insert_namespace_item item key name_key s)"
  "mount_le s (drop_tombstones name_key s)"
  "mount_le s (drop_replaced e replaced s)"
  "mount_le s (publish_rename e request acceptance s)"
  "mount_le s (publish_remove rm tombstone s)"
  "mount_le s (upsert_publish entry previous replaced' parent_id s)"
  "mount_le s (delete_publish deleted s)"
  by (rule mount_le_same;
      simp add: frame_defs overlays_wf_def index_wf_put index_wf_drop Let_def split: option.split prod.split)+

lemma accept_namespace_create_step:
  "accept_namespace_create e request item s = (r, s') \<Longrightarrow> mount_le s s'"
  by (auto simp: accept_namespace_create_def io_bind_def Let_def insert_namespace_item_def drop_tombstones_def
      overlays_wf_def index_wf_put index_wf_drop split: sum.splits prod.splits intro!: mount_le_same)

lemma accept_rename_step: "accept_rename e request acceptance s = (r, s') \<Longrightarrow> mount_le s s'"
  using publish_steps(4) by (auto simp: accept_rename_def split: sum.splits)

lemma accept_remove_step: "accept_remove request tombstone s = (r, s') \<Longrightarrow> mount_le s s'"
  using publish_steps(5) by (auto simp: accept_remove_def split: sum.splits)

lemma accept_created_file_step:
  assumes "accept_created_file e request acceptance h s = (r, s')" and "handed_out s (file_handle_get h)"
  shows "mount_le s s'"
proof (cases "s' = s")
  case False
  then obtain f where files: "lw_files s' = AList.update h f (lw_files s)" and f: "wf_generation f = None"
    and rest: "lw_next s' = lw_next s" "lw_directories s' = lw_directories s"
      "lw_dirty_snapshots s' = lw_dirty_snapshots s"
    and wf: "overlays_wf s \<Longrightarrow> overlays_wf s'"
    using assms(1) by (auto simp: accept_created_file_def io_bind_def Let_def
        overlays_wf_def index_wf_put index_wf_drop split: sum.splits if_splits)
  have "mount_le s (s\<lparr>lw_files := AList.update h f (lw_files s)\<rparr>)"
    by (rule mount_le_insert_file [OF assms(2)]) (simp_all add: f)
  moreover have "mount_le (s\<lparr>lw_files := AList.update h f (lw_files s)\<rparr>) s'"
    by (rule mount_le_same) (simp_all add: files rest wf)
  ultimately show ?thesis
    using mount.R_trans [of "(s, ())" "(_, ())" "(s', ())"] by (simp add: mount_step_def)
qed simp

end
