(* ===== verification/Linux_Calls.thy ===== *)
theory Linux_Calls
  imports Linux_Steps
begin

text \<open>
  Every public method of the writable Linux engine is a step of \<open>mount_step\<close>, provided the ports
  are: no matter which requests run while a method waits, dirty snapshots never go back to an older
  generation and handle numbers are never reused.
\<close>

section \<open>The methods as one family of calls\<close>

datatype MountCall =
    GetattrCall LinuxInode "LinuxFileHandle option"
  | LookupCall LinuxInode string
  | OpenFileCall LinuxInode LinuxFileAccess
  | ReadFileCall LinuxInode LinuxFileHandle u64 u32
  | WriteFileCall LinuxInode LinuxFileHandle u64 "u8 list"
  | TruncateFileCall LinuxInode LinuxFileHandle u64
  | TruncateOnceCall LinuxInode u64
  | SyncFileCall LinuxInode LinuxFileHandle bool
  | ReleaseFileCall LinuxFileHandle
  | CreateFileCall LinuxInode string u32 u32 LinuxFileAccess
  | CreateDirectoryCall LinuxInode string u32 u32
  | RenameCall LinuxInode string LinuxInode string bool
  | RemoveCall LinuxInode string LinuxNodeKind
  | OpenDirectoryCall LinuxInode
  | ReleaseDirectoryCall LinuxDirectoryHandle
  | RemoteChangeCall LinuxRemoteChange

definition async_void :: "('w, 'e, 'a) async \<Rightarrow> ('w, 'e, unit) async" where
  "async_void m = async_bind m (\<lambda>_. async_return ())"

primrec mount_call ::
  "'w mount_world LinuxWritableEngine \<Rightarrow> MountCall \<Rightarrow> ('w mount_world, unit) linux_call" where
  "mount_call e (GetattrCall inode handle) = async_void (writable_getattr e inode handle)"
| "mount_call e (LookupCall parent name) = async_void (writable_lookup e parent name)"
| "mount_call e (OpenFileCall inode access) = async_void (writable_open_file e inode access)"
| "mount_call e (ReadFileCall inode handle off n) = async_void (writable_read_file e inode handle off n)"
| "mount_call e (WriteFileCall inode handle off bytes) = async_void (writable_write_file e inode handle off bytes)"
| "mount_call e (TruncateFileCall inode handle n) = async_void (truncate_file e inode handle n)"
| "mount_call e (TruncateOnceCall inode n) = async_void (truncate_once e inode n)"
| "mount_call e (SyncFileCall inode handle data_only) = sync_file e inode handle data_only"
| "mount_call e (ReleaseFileCall handle) = writable_release_file e handle"
| "mount_call e (CreateFileCall parent name mode umask access) = async_void (create_file e parent name mode umask access)"
| "mount_call e (CreateDirectoryCall parent name mode umask) = async_void (create_directory e parent name mode umask)"
| "mount_call e (RenameCall parent name new_parent new_name no_replace) = rename e parent name new_parent new_name no_replace"
| "mount_call e (RemoveCall parent name kind) = remove e parent name kind"
| "mount_call e (OpenDirectoryCall inode) = async_void (writable_open_directory e inode)"
| "mount_call e (ReleaseDirectoryCall handle) = locked (writable_release_directory handle)"
| "mount_call e (RemoteChangeCall change) = async_void (apply_remote_change e change)"

section \<open>Rely and guarantee\<close>

text \<open>
  The product's ports do not have the engine's state; what a port call does to it is what other
  requests do meanwhile, and those are steps.
\<close>

definition ports_step :: "'w mount_world LinuxWritableEngine \<Rightarrow> bool" where
  "ports_step e \<longleftrightarrow>
     (\<forall>key. io_steps mount_step (fb_get_item (ro_backend (we_readonly e)) key))
     \<and> (\<forall>key cursor. io_steps mount_step (fb_list_children (ro_backend (we_readonly e)) key cursor))
     \<and> (\<forall>request. io_steps mount_step (fb_read_content (ro_backend (we_readonly e)) request))
     \<and> (\<forall>key g. io_steps mount_step (wb_open_recovered (we_store e) key g))
     \<and> (\<forall>request content. io_steps mount_step (wb_open_existing (we_store e) request content))
     \<and> (\<forall>session off n. io_steps mount_step (wb_read (we_store e) session off n))
     \<and> (\<forall>session off bytes. io_steps mount_step (wb_write (we_store e) session off bytes))
     \<and> (\<forall>session n. io_steps mount_step (wb_truncate (we_store e) session n))
     \<and> (\<forall>session data_only. io_steps mount_step (wb_sync (we_store e) session data_only))
     \<and> (\<forall>session. io_steps mount_step (wb_close (we_store e) session))
     \<and> (\<forall>ns. we_namespace_store e = Some ns \<longrightarrow>
          (\<forall>request. io_steps mount_step (ns_create_file ns request))
          \<and> (\<forall>key g. io_steps mount_step (ns_open_created_file ns key g))
          \<and> (\<forall>request. io_steps mount_step (ns_create_directory ns request))
          \<and> (\<forall>request. io_steps mount_step (ns_rename ns request))
          \<and> (\<forall>request. io_steps mount_step (ns_remove ns request)))"

locale mount_ports =
  fixes e :: "'w mount_world LinuxWritableEngine"
  assumes ports: "ports_step e"

sublocale mount_ports \<subseteq> mount_rely mount_step e
  using ports by unfold_locales (auto simp: ports_step_def mount.R_refl intro: mount.R_trans)

context mount_ports
begin

lemma steps_section:
  assumes "\<And>s r s'. m s = (r, s') \<Longrightarrow> mount_le s s'"
  shows "async_steps (mount_step :: 'w mount_world \<Rightarrow> _) (locked m)"
  by (rule steps_locked) (simp add: assms mount_step_def)

lemma steps_void: "async_steps (mount_step :: 'w mount_world \<Rightarrow> _) m \<Longrightarrow> async_steps mount_step (async_void m)"
  unfolding async_void_def by auto

lemma steps_port:
  "io_steps (mount_step :: 'w mount_world \<Rightarrow> _) m \<Longrightarrow> async_steps mount_step (await (io_try h m))"
  by (intro steps_await steps_try)

lemma store_steps:
  "async_steps mount_step (await (io_try h (fb_read_content (ro_backend (we_readonly e)) request)))"
  "async_steps mount_step (await (io_try h1 (wb_open_recovered (we_store e) key g)))"
  "async_steps mount_step (await (io_try h1 (wb_open_existing (we_store e) wo content)))"
  "async_steps mount_step (await (io_try h1 (wb_read (we_store e) session off n32)))"
  "async_steps mount_step (await (io_try h1 (wb_write (we_store e) session off bytes)))"
  "async_steps mount_step (await (io_try h1 (wb_truncate (we_store e) session n)))"
  "async_steps mount_step (await (io_try h1 (wb_sync (we_store e) session data_only)))"
  "async_steps mount_step (await (io_try h1 (wb_close (we_store e) session)))"
  by (rule steps_port, use ports in \<open>simp add: ports_step_def\<close>)+

lemma namespace_steps:
  assumes "we_namespace_store e = Some ns"
  shows "async_steps mount_step (await (io_try h2 (ns_create_file ns cf)))"
    and "async_steps mount_step (await (io_try h2 (ns_open_created_file ns key g)))"
    and "async_steps mount_step (await (io_try h2 (ns_create_directory ns cd)))"
    and "async_steps mount_step (await (io_try h2 (ns_rename ns rr)))"
    and "async_steps mount_step (await (io_try h2 (ns_remove ns rm)))"
  by (rule steps_port, use ports assms in \<open>simp add: ports_step_def\<close>)+

text \<open>The namespace store is looked up first; without one the call fails.\<close>

lemma steps_with_store:
  assumes "\<And>ns. we_namespace_store e = Some ns \<Longrightarrow> async_steps mount_step (f ns)"
  shows "async_steps mount_step
    (async_bind (async_lift (ok_or NamespaceMutationNotConfigured (we_namespace_store e))) f)"
  by (cases "we_namespace_store e") (simp_all add: assms)

lemma steps_if: "async_steps (mount_step :: 'w mount_world \<Rightarrow> _) a \<Longrightarrow> async_steps mount_step b \<Longrightarrow> async_steps mount_step (if c then a else b)"
  by simp

lemma steps_hydrate:
  "async_steps mount_step (hydrate_item_for_write (we_readonly e) item g)"
  "async_steps mount_step (hydrate_for_write (we_readonly e) inode g)"
proof -
  show item: "async_steps mount_step (hydrate_item_for_write (we_readonly e) item g)" for item
    unfolding hydrate_item_for_write_def Let_def
    by (intro steps_if steps_bind steps_pure store_steps)
  show "async_steps mount_step (hydrate_for_write (we_readonly e) inode g)"
    unfolding hydrate_for_write_def by (intro steps_bind steps_load_item item)
qed

lemma steps_read_file: "async_steps mount_step (writable_read_file e inode handle off n)"
  unfolding writable_read_file_def Let_def
  by (intro steps_if steps_bind steps_pure steps_locked_read store_steps)

lemma steps_write_file: "async_steps mount_step (writable_write_file e inode handle off bytes)"
  unfolding writable_write_file_def
  by (intro steps_if steps_bind steps_pure steps_locked_read store_steps steps_section apply_commit_step)

lemma steps_truncate_file: "async_steps mount_step (truncate_file e inode handle n)"
  unfolding truncate_file_def
  by (intro steps_bind steps_locked_read store_steps steps_section apply_commit_step steps_writable_getattr)

lemma steps_sync_file: "async_steps mount_step (sync_file e inode handle data_only)"
  unfolding sync_file_def
  by (intro steps_bind steps_locked_read)
    (auto intro!: steps_bind store_steps steps_section apply_commit_step split: option.split)

lemma steps_release_file: "async_steps mount_step (writable_release_file e handle)"
  unfolding writable_release_file_def
  by (intro steps_bind store_steps steps_section) (auto simp: mount_le_delete_file split: option.splits)

lemma steps_release_directory:
  "async_steps (mount_step :: 'w mount_world \<Rightarrow> _) (locked (writable_release_directory handle))"
proof (rule steps_section)
  fix s r s' assume "writable_release_directory handle s = (r, s')"
  then show "mount_le s s'"
    by (intro mount_leI) (auto simp: writable_release_directory_def handle_bound_def handles_ok_def split: if_splits)
qed

lemma steps_create_directory: "async_steps mount_step (create_directory e parent name mode umask)"
  unfolding create_directory_def
  by (intro steps_with_store steps_if steps_bind steps_pure steps_writable_getattr namespace_steps
      steps_section accept_namespace_create_step)

lemma steps_rename: "async_steps mount_step (rename e parent name new_parent new_name no_replace)"
  unfolding rename_def Let_def
  by (intro steps_with_store steps_if steps_bind steps_pure steps_writable_getattr steps_writable_lookup
      steps_lookup_target namespace_steps steps_section accept_rename_step)

lemma steps_remove: "async_steps mount_step (remove e parent name kind)"
  unfolding remove_def
  by (intro steps_with_store steps_if steps_bind steps_pure steps_writable_getattr steps_writable_lookup
      namespace_steps steps_section accept_remove_step)

lemma steps_remote_delete: "async_steps mount_step (apply_remote_delete e deleted)"
  unfolding apply_remote_delete_def Let_def
  by (intro steps_if steps_bind steps_pure steps_locked_read steps_lookup_target steps_section)
    (auto simp: publish_steps split: sum.splits if_splits)

lemma steps_remote_upsert: "async_steps mount_step (apply_remote_upsert e entry previous replaced)"
  unfolding apply_remote_upsert_def Let_def
  by (intro steps_bind steps_pure steps_locked_read steps_lookup_target steps_section)
    (auto simp: publish_steps intro!: steps_bind steps_locked_read steps_lookup_target split: sum.splits option.split)

lemma steps_open_directory: "async_steps mount_step (writable_open_directory e inode)"
proof -
  have insert: "async_steps (mount_step :: 'w mount_world \<Rightarrow> _)
      (locked (io_bind WritableState_allocate_directory (\<lambda>handle state.
         (Inr handle, state\<lparr>lw_directories := (lw_directories state)(handle \<mapsto> d)\<rparr>))))" for d
  proof (rule steps_section)
    fix s r s'
    assume run: "io_bind WritableState_allocate_directory (\<lambda>handle state.
        (Inr handle, state\<lparr>lw_directories := (lw_directories state)(handle \<mapsto> d)\<rparr>)) s = (r, s')"
    show "mount_le s s'"
    proof (cases "WritableState_allocate_directory s")
      case (Pair res s1)
      show ?thesis
      proof (cases res)
        case (Inl err)
        with Pair run WritableState_allocate_directory_Inl [of s err s1] show ?thesis by (simp add: io_bind_def)
      next
        case (Inr h)
        then obtain nxt where n: "next_handle (lw_next s) = Inr (directory_handle_get h, nxt)" "s1 = s\<lparr>lw_next := nxt\<rparr>"
          using Pair by (metis WritableState_allocate_directory_Inr)
        from n(1) show ?thesis
          by (rule mount_le_insert_directory [where d = d]) (use run Pair Inr n(2) in \<open>simp add: io_bind_def\<close>)
      qed
    qed
  qed
  show ?thesis
    unfolding writable_open_directory_def
    by (intro steps_if steps_bind steps_pure steps_writable_getattr steps_reading
        steps_load_children_for_overlay steps_locked_read)
      (auto intro!: steps_if steps_bind steps_pure steps_reading steps_load_item steps_locked_read insert
        steps_load_children_for_overlay split: option.split)
qed

text \<open>The handle a file is entered under comes from the allocator in the same section.\<close>

lemma insert_opened_cases:
  assumes "io_bind WritableState_allocate (\<lambda>handle state.
        (Inr handle, state\<lparr>lw_files := AList.update handle f (lw_files state)\<rparr>)) s = (r, s')"
  obtains (err) error where "s' = s" and "r = Inl error"
  | (ok) h nxt where "next_handle (lw_next s) = Inr (file_handle_get h, nxt)" and "r = Inr h"
      and "s' = s\<lparr>lw_next := nxt, lw_files := AList.update h f (lw_files s)\<rparr>"
proof (cases "WritableState_allocate s")
  case (Pair res s1)
  show ?thesis
  proof (cases res)
    case (Inl e)
    then show ?thesis
      using Pair assms WritableState_allocate_Inl [of s e s1] by (intro err [of e]) (auto simp: io_bind_def)
  next
    case (Inr h)
    then obtain nxt where "next_handle (lw_next s) = Inr (file_handle_get h, nxt)" "s1 = s\<lparr>lw_next := nxt\<rparr>"
      using Pair by (metis WritableState_allocate_Inr)
    then show ?thesis using Pair Inr assms by (intro ok [of h nxt]) (simp_all add: io_bind_def)
  qed
qed

lemma insert_opened_step:
  assumes "generation_backed s (wf_inode f) (wf_generation f)"
    and "io_bind WritableState_allocate (\<lambda>handle state.
        (Inr handle, state\<lparr>lw_files := AList.update handle f (lw_files state)\<rparr>)) s = (r, s')"
  shows "mount_le s s'"
proof (cases rule: insert_opened_cases [OF assms(2)])
  case (1 error)
  then show ?thesis by simp
next
  case (2 h nxt)
  let ?s1 = "s\<lparr>lw_next := nxt\<rparr>"
  have "mount_le s ?s1" by (rule mount_le_allocate [OF 2(1)])
  moreover have "mount_le ?s1 s'"
    by (rule mount_le_insert_file [of ?s1 h f])
      (use allocate_next(3) [OF 2(1), of ?s1] assms(1) 2(3) in \<open>simp_all add: generation_backed_def\<close>)
  ultimately show ?thesis
    using mount.R_trans [of "(s, ())" "(?s1, ())" "(s', ())"] by (simp add: mount_step_def)
qed

lemma steps_bind_from:
  assumes "async_steps mount_step m"
    and "\<And>w a w' r w''. m w = Some (Inr a, w') \<Longrightarrow> f a w' = Some (r, w'') \<Longrightarrow> mount_step w' w''"
  shows "async_steps mount_step (async_bind m f)"
  unfolding async_steps_def async_bind_eq_Some
proof (intro allI impI)
  fix w r w''
  assume "(\<exists>e. m w = Some (Inl e, w'') \<and> r = Inl e) \<or>
    (\<exists>a w'. m w = Some (Inr a, w') \<and> f a w' = Some (r, w''))"
  then show "mount_step w w''"
    using async_stepsD [OF assms(1)] assms(2) mount.R_trans by blast
qed

lemma steps_open_file: "async_steps mount_step (writable_open_file e inode access)"
proof -
  have publish: "async_steps (mount_step :: 'w mount_world \<Rightarrow> _)
      (async_bind (locked (validate_opened_session e inode key session recovered)) (\<lambda>_.
       locked (io_bind WritableState_allocate (\<lambda>handle state.
         (Inr handle,
          state\<lparr>lw_files := AList.update handle
            \<lparr>wf_inode = inode, wf_access = access, wf_session = ws_id session, wf_size = ws_size session,
             wf_generation = map_option snap_generation (ws_snapshot session)\<rparr> (lw_files state)\<rparr>)))))"
    for key session recovered
  proof (rule steps_bind_from)
    show "async_steps (mount_step :: 'w mount_world \<Rightarrow> _) (locked (validate_opened_session e inode key session recovered))"
      by (rule steps_section) (rule validate_opened_session_step)
    fix w a w' r w''
    assume first: "locked (validate_opened_session e inode key session recovered) w = Some (Inr a, w')"
      and second: "locked (io_bind WritableState_allocate (\<lambda>handle state.
         (Inr handle,
          state\<lparr>lw_files := AList.update handle
            \<lparr>wf_inode = inode, wf_access = access, wf_session = ws_id session, wf_size = ws_size session,
             wf_generation = map_option snap_generation (ws_snapshot session)\<rparr> (lw_files state)\<rparr>))) w' = Some (r, w'')"
    let ?f = "\<lparr>wf_inode = inode, wf_access = access, wf_session = ws_id session, wf_size = ws_size session,
        wf_generation = map_option snap_generation (ws_snapshot session)\<rparr>"
    from first have "generation_backed (fst w') inode (map_option snap_generation (ws_snapshot session))"
      using validate_opened_session_step(2) [of e inode key session recovered "fst w" "Inr ()" "fst w'"]
      by (cases w) (auto simp: prod_eq_iff)
    then have "generation_backed (fst w') (wf_inode ?f) (wf_generation ?f)" by simp
    from insert_opened_step [OF this surjective_pairing] second show "mount_step w' w''"
      by (cases w'; cases w'') (auto simp: mount_step_def)
  qed
  show ?thesis
    unfolding writable_open_file_def Let_def
    by (intro steps_bind steps_reading)
      (auto intro!: steps_if steps_bind steps_with_store steps_overlay_node steps_readonly_getattr
        steps_pure store_steps namespace_steps steps_hydrate publish split: option.split)
qed

lemma steps_create_file: "async_steps mount_step (create_file e parent name mode umask access)"
proof -
  have accept: "async_steps (mount_step :: 'w mount_world \<Rightarrow> _)
      (async_bind (locked WritableState_allocate) (\<lambda>handle.
       async_bind (await (io_try NamespaceStore (ns_create_file ns request))) (\<lambda>acceptance.
       locked (accept_created_file e request acceptance handle))))"
    if ns: "we_namespace_store e = Some ns" for ns request
  proof (rule steps_bind_from)
    show "async_steps (mount_step :: 'w mount_world \<Rightarrow> _) (locked WritableState_allocate)"
    proof (rule steps_section)
      fix s r s' assume run: "WritableState_allocate s = (r, s')"
      show "mount_le s s'"
      proof (cases r)
        case (Inl err)
        with run WritableState_allocate_Inl [of s err s'] show ?thesis by simp
      next
        case (Inr h)
        with run obtain nxt where "next_handle (lw_next s) = Inr (file_handle_get h, nxt)" "s' = s\<lparr>lw_next := nxt\<rparr>"
          by (metis WritableState_allocate_Inr)
        then show ?thesis using mount_le_allocate by blast
      qed
    qed
    fix w h w' r w''
    assume alloc: "locked WritableState_allocate w = Some (Inr h, w')"
      and rest: "async_bind (await (io_try NamespaceStore (ns_create_file ns request))) (\<lambda>acceptance.
        locked (accept_created_file e request acceptance h)) w' = Some (r, w'')"
    from alloc have "WritableState_allocate (fst w) = (Inr h, fst w')"
      by (cases w) (auto simp: prod_eq_iff)
    then obtain nxt where n: "next_handle (lw_next (fst w)) = Inr (file_handle_get h, nxt)"
        "fst w' = fst w\<lparr>lw_next := nxt\<rparr>"
      by (metis WritableState_allocate_Inr)
    have out: "handed_out (fst w') (file_handle_get h)"
      using allocate_next(3) [OF n(1), of "fst w'"] n(2) by simp
    let ?port = "await (io_try NamespaceStore (ns_create_file ns request)) :: ('w mount_world, LinuxCreateFileAcceptance) linux_call"
    have port: "?port w1 = Some (x, w2) \<Longrightarrow> mount_step w1 w2" for w1 x w2
      by (rule async_stepsD [OF namespace_steps(1) [OF ns]])
    from rest consider (failed) err where "?port w' = Some (Inl err, w'')"
      | (answered) acceptance w1 where "?port w' = Some (Inr acceptance, w1)"
          "locked (accept_created_file e request acceptance h) w1 = Some (r, w'')"
      unfolding async_bind_eq_Some by blast
    then show "mount_step w' w''"
    proof cases
      case failed
      then show ?thesis by (rule port)
    next
      case answered
      have "handed_out (fst w1) (file_handle_get h)"
        using handed_out_mono [OF out] port [OF answered(1)] by (simp add: mount_step_def mount_le_def)
      then have "mount_step w1 w''"
        using answered(2) accept_created_file_step [of e request acceptance h "fst w1" r "fst w''"]
        by (cases w1) (auto simp: mount_step_def prod_eq_iff)
      with port [OF answered(1)] show ?thesis by (rule mount.R_trans)
    qed
  qed
  show ?thesis
    unfolding create_file_def
    by (intro steps_with_store steps_if steps_bind steps_pure steps_writable_getattr accept)
qed

lemma steps_truncate_once: "async_steps mount_step (truncate_once e inode n)"
  unfolding truncate_once_def
  by (intro steps_bind steps_attempt steps_open_file steps_truncate_file steps_release_file)
    (auto split: sum.split)

lemma steps_remote_change: "async_steps mount_step (apply_remote_change e change)"
  unfolding apply_remote_change_def
  by (auto intro: steps_remote_upsert steps_remote_delete split: LinuxRemoteChange.split)

lemma steps_mount_call: "async_steps mount_step (mount_call e c)"
  by (cases c) (simp_all add: steps_void steps_writable_getattr steps_writable_lookup steps_open_file
      steps_read_file steps_write_file steps_truncate_file steps_truncate_once steps_sync_file
      steps_release_file steps_create_file steps_create_directory steps_rename steps_remove
      steps_open_directory steps_release_directory steps_remote_change)

end

end
