(* ===== verification/Linux_Directory.thy ===== *)
theory Linux_Directory
  imports Linux_Calls
begin

text \<open>
  Directory snapshots against name lookups: what the overlays say about a name, what a paged scan
  of the backend returns, and that a snapshot lists exactly the names that resolve.
\<close>

section \<open>Paged scans\<close>

text \<open>What holds of the loop's state before every pass holds of the state that ended it.\<close>

lemma io_loop_invariant:
  assumes "I x" and again: "\<And>x x'. I x \<Longrightarrow> pass x = (Inr None, x') \<Longrightarrow> I x'"
    and stop: "\<And>x a x'. I x \<Longrightarrow> pass x = (Inr (Some a), x') \<Longrightarrow> Q a x'"
    and "io_loop pass x = Some (Inr a, x')"
  shows "Q a x'"
proof -
  have "(\<forall>x x'. I x \<longrightarrow> pass x = (Inr None, x') \<longrightarrow> I x') \<longrightarrow>
      (\<forall>x a x'. I x \<longrightarrow> pass x = (Inr (Some a), x') \<longrightarrow> Q a x') \<longrightarrow> I x \<longrightarrow>
      (\<forall>a x'. (Inr a, x') = (Inr a, x') \<longrightarrow> fst y = Inr a \<longrightarrow> Q a (snd y))"
    if "io_loop pass x = Some y" for y
    using that
  proof (rule io_loop.raw_induct [rotated])
    fix loop pass x y
    assume IH: "\<And>pass x y. loop pass x = Some y \<Longrightarrow>
        (\<forall>x x'. I x \<longrightarrow> pass x = (Inr None, x') \<longrightarrow> I x') \<longrightarrow>
        (\<forall>x a x'. I x \<longrightarrow> pass x = (Inr (Some a), x') \<longrightarrow> Q a x') \<longrightarrow> I x \<longrightarrow>
        (\<forall>a x'. (Inr a, x') = (Inr a, x') \<longrightarrow> fst y = Inr a \<longrightarrow> Q a (snd y))"
      and eq: "(case pass x of
          (Inl e, w') \<Rightarrow> Some (Inl e, w')
        | (Inr (Some outcome), w') \<Rightarrow> Some (Inr outcome, w')
        | (Inr None, w') \<Rightarrow> loop pass w') = Some y"
    show "(\<forall>x x'. I x \<longrightarrow> pass x = (Inr None, x') \<longrightarrow> I x') \<longrightarrow>
        (\<forall>x a x'. I x \<longrightarrow> pass x = (Inr (Some a), x') \<longrightarrow> Q a x') \<longrightarrow> I x \<longrightarrow>
        (\<forall>a x'. (Inr a, x') = (Inr a, x') \<longrightarrow> fst y = Inr a \<longrightarrow> Q a (snd y))"
    proof (intro impI allI)
      fix a x'
      assume pass: "\<forall>x x'. I x \<longrightarrow> pass x = (Inr None, x') \<longrightarrow> I x'"
          "\<forall>x a x'. I x \<longrightarrow> pass x = (Inr (Some a), x') \<longrightarrow> Q a x'" "I x" and y: "fst y = Inr a"
      obtain res x1 where x1: "pass x = (res, x1)" by (cases "pass x")
      show "Q a (snd y)"
      proof (cases "res = Inr None")
        case True
        then show ?thesis using IH [of pass x1 y] eq x1 pass y by auto
      next
        case False
        then have "res = Inr (Some a)" "snd y = x1"
          using eq x1 y by (auto split: sum.splits option.splits)
        then show ?thesis using pass(2,3) x1 by blast
      qed
    qed
  qed
  from this [OF assms(4)] show ?thesis using again stop assms(1) by auto
qed

lemma accept_children_exact:
  "accept_children parent items (names, children) = Inr acc \<Longrightarrow>
   acc = (names \<union> item_name ` set items, children @ items)
   \<and> distinct (map item_name items) \<and> names \<inter> item_name ` set items = {}
   \<and> (\<forall>item \<in> set items. key_scope (item_key item) = key_scope parent
        \<and> item_parent_id item = Some (key_item_id parent) \<and> validate_linux_name (item_name item) = Inr ())"
proof (induction items arbitrary: names children)
  case (Cons item items)
  then have "accept_children parent items (insert (item_name item) names, children @ [item]) = Inr acc"
    and "item_name item \<notin> names" and "key_scope (item_key item) = key_scope parent"
    and "item_parent_id item = Some (key_item_id parent)" and "validate_linux_name (item_name item) = Inr ()"
    by (auto split: if_splits)
  with Cons.IH [of "insert (item_name item) names" "children @ [item]"] show ?case by auto
qed simp

definition scanned :: "CloudItemKey \<Rightarrow> CloudItem list \<Rightarrow> bool" where
  "scanned parent children \<longleftrightarrow>
     distinct (map item_name children)
     \<and> (\<forall>item \<in> set children. key_scope (item_key item) = key_scope parent
          \<and> item_parent_id item = Some (key_item_id parent) \<and> validate_linux_name (item_name item) = Inr ())"

lemma next_scan_scanned:
  assumes "next_scan parent page l = Inr res"
    and "scanned parent (cs_children l)" and "cs_seen_names l = item_name ` set (cs_children l)"
  shows "case res of
      Inl children \<Rightarrow> scanned parent children
    | Inr l' \<Rightarrow> scanned parent (cs_children l') \<and> cs_seen_names l' = item_name ` set (cs_children l')"
proof -
  obtain names children where acc: "accept_children parent (page_items page) (cs_seen_names l, cs_children l) = Inr (names, children)"
    using assms(1) by (auto simp: next_scan_def)
  from accept_children_exact [OF acc] assms(2,3)
  have "scanned parent children" "names = item_name ` set children"
    by (auto simp: scanned_def)
  then show ?thesis
    using assms(1) acc by (auto simp: next_scan_def split: option.splits if_splits)
qed

lemma load_children_pass_Inr:
  assumes "load_children_pass ro parent (l, w) = (Inr r, l', w')"
  obtains (again) page where "r = None" and "next_scan parent page l = Inr (Inr l')"
  | (stop) page children where "r = Some children" and "next_scan parent page l = Inr (Inl children)"
  using assms by (auto simp: load_children_pass_def split: prod.splits sum.splits)

lemma load_children_scanned:
  assumes "load_children_for_overlay ro parent w = Some (Inr children, w')"
  shows "scanned parent children"
proof -
  obtain l where loop: "io_loop (load_children_pass ro parent) (ChildrenScan_start, w) = Some (Inr children, l, w')"
    using assms by (auto simp: load_children_for_overlay_def async_loop_def split: option.splits)
  show ?thesis
  proof (rule io_loop_invariant [OF _ _ _ loop,
        where I = "\<lambda>x. scanned parent (cs_children (fst x)) \<and> cs_seen_names (fst x) = item_name ` set (cs_children (fst x))"])
    show "scanned parent (cs_children (fst (ChildrenScan_start, w)))
        \<and> cs_seen_names (fst (ChildrenScan_start, w)) = item_name ` set (cs_children (fst (ChildrenScan_start, w)))"
      by (simp add: ChildrenScan_start_def scanned_def)
  next
    fix x x' :: "ChildrenScan \<times> 'a"
    assume inv: "scanned parent (cs_children (fst x)) \<and> cs_seen_names (fst x) = item_name ` set (cs_children (fst x))"
      and pass: "load_children_pass ro parent x = (Inr None, x')"
    obtain l0 w0 l1 w1 where x: "x = (l0, w0)" "x' = (l1, w1)" by (cases x; cases x')
    show "scanned parent (cs_children (fst x')) \<and> cs_seen_names (fst x') = item_name ` set (cs_children (fst x'))"
    proof (cases rule: load_children_pass_Inr [OF pass [unfolded x]])
      case (1 page)
      then show ?thesis using next_scan_scanned [OF 1(2)] inv by (simp add: x)
    qed simp
  next
    fix x x' :: "ChildrenScan \<times> 'a" and a
    assume inv: "scanned parent (cs_children (fst x)) \<and> cs_seen_names (fst x) = item_name ` set (cs_children (fst x))"
      and pass: "load_children_pass ro parent x = (Inr (Some a), x')"
    obtain l0 w0 l1 w1 where x: "x = (l0, w0)" "x' = (l1, w1)" by (cases x; cases x')
    show "scanned parent a"
    proof (cases rule: load_children_pass_Inr [OF pass [unfolded x]])
      case (2 page children)
      then show ?thesis using next_scan_scanned [OF 2(2)] inv by (simp add: x)
    qed simp
  qed
qed

section \<open>Names in the overlays\<close>

text \<open>The overlay entry that a name resolves to, with the precedence of the sources.\<close>

definition overlay_named :: "WritableState \<Rightarrow> ParentNameKey \<Rightarrow> (CloudItem \<times> LinuxInodeRecord) option" where
  "overlay_named state name_key =
     (case named_namespace state name_key of
        Some x \<Rightarrow> Some (ni_item x, ni_inode_record x)
      | None \<Rightarrow>
     (case named_created state name_key of
        Some x \<Rightarrow> Some (cr_item x, cr_inode_record x)
      | None \<Rightarrow> map_option (\<lambda>x. (re_item x, re_inode_record x)) (named_remote state name_key)))"

lemma overlay_node_named:
  "overlay_node e (named_namespace s k) (named_created s k) (named_remote s k) fallback =
     (case overlay_named s k of
        Some (item, record) \<Rightarrow> async_lift (node_from e item record)
      | None \<Rightarrow> fallback)"
  by (simp add: overlay_node_def overlay_named_def split: option.split)

text \<open>One loop over an index, as a map from names.\<close>

definition resolved :: "(LinuxInode \<Rightarrow> 'b option) \<Rightarrow> (string \<times> LinuxInode) list \<Rightarrow> string \<Rightarrow> 'b option" where
  "resolved resolve children n = Option.bind (map_of children n) resolve"

lemma collect_overlay_exact:
  assumes "distinct (map fst children)" and "distinct (map fst local)" and "names = fst ` set local"
    and "collect_overlay resolve children (names, local) = (names', local')"
  shows "distinct (map fst local') \<and> names' = fst ` set local'
    \<and> map_of local' = map_of local ++ (\<lambda>n. if n \<in> names then None else resolved resolve children n)
    \<and> names' = names \<union> {n. resolved resolve children n \<noteq> None}"
  using assms
proof (induction children arbitrary: names local)
  case Nil
  then show ?case by (auto simp: resolved_def map_add_def)
next
  case (Cons c children)
  obtain n i where c: "c = (n, i)" by fastforce
  have out: "map_of children n = None"
    using Cons.prems(1) by (simp add: c map_of_eq_None_iff)
  show ?case
  proof (cases "n \<in> names \<or> resolve i = None")
    case True
    then have run: "collect_overlay resolve children (names, local) = (names', local')"
      using Cons.prems(4) by (auto simp: c split: option.splits)
    have res: "resolved resolve ((n, i) # children) m = (if m = n then resolve i else resolved resolve children m)" for m
      by (simp add: c resolved_def)
    have "resolved resolve children n = None" by (simp add: resolved_def out)
    then show ?thesis
      using Cons.IH [OF _ Cons.prems(2,3) run] Cons.prems(1) True
      by (auto simp: c res map_add_def fun_eq_iff)
  next
    case False
    then obtain x where x: "resolve i = Some x" and n: "n \<notin> names" by auto
    have run: "collect_overlay resolve children (insert n names, local @ [(n, x)]) = (names', local')"
      using Cons.prems(4) x n by (cases x) (simp add: c)
    have res: "resolved resolve ((n, i) # children) m = (if m = n then Some x else resolved resolve children m)" for m
      by (simp add: c resolved_def x)
    have free: "map_of local n = None" using n Cons.prems(3) by (simp add: map_of_eq_None_iff)
    have app: "map_of (local @ [(n, x)]) = (map_of local)(n \<mapsto> x)"
      by (rule ext) (simp add: map_add_def free split: option.split)
    have none: "resolved resolve children n = None" by (simp add: resolved_def out)
    show ?thesis
      using Cons.IH [OF _ _ _ run] Cons.prems(1,2,3) n free
      by (auto simp: c res app none map_add_def fun_eq_iff split: option.splits)
  qed
qed

lemma resolved_index:
  assumes "index_wf x"
  shows "resolved (\<lambda>i. map_option f (m i)) (index_children x p) n = map_option f (Option.bind (index_get x (p, n)) m)"
  by (cases "index_get x (p, n)") (simp_all add: resolved_def pni.map_of_children [OF assms])

lemma directory_overlay_exact:
  assumes wf: "overlays_wf s" and run: "directory_overlay s p = (tombstoned, names, local)"
  shows "distinct (map fst local)" and "map_of local n = overlay_named s (p, n)"
    and "n \<in> names \<longleftrightarrow> overlay_named s (p, n) \<noteq> None"
    and "n \<in> tombstoned \<longleftrightarrow> name_tombstoned s (p, n) \<and> overlay_named s (p, n) = None"
proof -
  let ?f1 = "\<lambda>i. map_option (\<lambda>x. (ni_item x, ni_inode_record x)) (lw_namespace_by_inode s i)"
  let ?f2 = "\<lambda>i. map_option (\<lambda>x. (cr_item x, cr_inode_record x)) (lw_created_by_inode s i)"
  let ?f3 = "\<lambda>i. map_option (\<lambda>x. (re_item x, re_inode_record x)) (lw_remote_by_inode s i)"
  let ?c1 = "index_children (lw_namespace_by_name s) p"
  let ?c2 = "index_children (lw_created_by_name s) p"
  let ?c3 = "index_children (lw_remote_by_name s) p"
  obtain n1 l1 where r1: "collect_overlay ?f1 ?c1 ({}, []) = (n1, l1)" by fastforce
  obtain n2 l2 where r2: "collect_overlay ?f2 ?c2 (n1, l1) = (n2, l2)" by fastforce
  obtain n3 l3 where r3: "collect_overlay ?f3 ?c3 (n2, l2) = (n3, l3)" by fastforce
  have local: "local = l3" "names = n3" and tomb: "tombstoned =
      set (map fst (index_children (lw_tombstones_by_name s) p))
      \<union> set (map fst (index_children (lw_remote_tombstones_by_name s) p)) - names"
    using run by (auto simp: directory_overlay_def r1 r2 r3)
  note wfs = wf [unfolded overlays_wf_def]
  have d: "distinct (map fst ?c1)" "distinct (map fst ?c2)" "distinct (map fst ?c3)"
    using wfs by (simp_all add: pni.children_distinct)
  have base: "distinct (map fst ([] :: (string \<times> CloudItem \<times> LinuxInodeRecord) list))"
    "{} = fst ` set ([] :: (string \<times> CloudItem \<times> LinuxInodeRecord) list)" by simp_all
  note e1 = collect_overlay_exact [OF d(1) base r1]
  note e2 = collect_overlay_exact [OF d(2) conjunct1 [OF e1] conjunct1 [OF conjunct2 [OF e1]] r2]
  note e3 = collect_overlay_exact [OF d(3) conjunct1 [OF e2] conjunct1 [OF conjunct2 [OF e2]] r3]
  show "distinct (map fst local)" using e3 local by simp
  have m1: "resolved ?f1 ?c1 n = map_option (\<lambda>x. (ni_item x, ni_inode_record x)) (named_namespace s (p, n))" for n
    using wfs by (simp add: resolved_index named_namespace_def)
  have m2: "resolved ?f2 ?c2 n = map_option (\<lambda>x. (cr_item x, cr_inode_record x)) (named_created s (p, n))" for n
    using wfs by (simp add: resolved_index named_created_def)
  have m3: "resolved ?f3 ?c3 n = map_option (\<lambda>x. (re_item x, re_inode_record x)) (named_remote s (p, n))" for n
    using wfs by (simp add: resolved_index named_remote_def)
  have l1: "map_of l1 n = resolved ?f1 ?c1 n" and n1: "n \<in> n1 \<longleftrightarrow> resolved ?f1 ?c1 n \<noteq> None" for n
    using e1 [THEN conjunct2, THEN conjunct2]
    by (auto simp: map_add_def simp del: not_None_eq split: option.splits)
  have l2: "map_of l2 n = (case resolved ?f1 ?c1 n of Some x \<Rightarrow> Some x | None \<Rightarrow> resolved ?f2 ?c2 n)"
    and n2: "n \<in> n2 \<longleftrightarrow> resolved ?f1 ?c1 n \<noteq> None \<or> resolved ?f2 ?c2 n \<noteq> None" for n
    using e2 [THEN conjunct2, THEN conjunct2] l1 [of n] n1 [of n]
    by (auto simp: map_add_def simp del: not_None_eq split: option.splits)
  have l3: "map_of l3 n = (case resolved ?f1 ?c1 n of Some x \<Rightarrow> Some x
        | None \<Rightarrow> (case resolved ?f2 ?c2 n of Some x \<Rightarrow> Some x | None \<Rightarrow> resolved ?f3 ?c3 n))"
    and n3: "n \<in> n3 \<longleftrightarrow> resolved ?f1 ?c1 n \<noteq> None \<or> resolved ?f2 ?c2 n \<noteq> None \<or> resolved ?f3 ?c3 n \<noteq> None" for n
    using e3 [THEN conjunct2, THEN conjunct2] l2 [of n] n2 [of n]
    by (auto simp: map_add_def simp del: not_None_eq split: option.splits)
  show found: "map_of local n = overlay_named s (p, n)"
    unfolding local l3 m1 m2 m3 overlay_named_def by (simp split: option.split)
  show listed: "n \<in> names \<longleftrightarrow> overlay_named s (p, n) \<noteq> None"
    unfolding local n3 m1 m2 m3 overlay_named_def by (simp split: option.split)
  show "n \<in> tombstoned \<longleftrightarrow> name_tombstoned s (p, n) \<and> overlay_named s (p, n) = None"
    using wfs listed by (simp add: tomb pni.child_names name_tombstoned_def index_contains_key_def del: not_None_eq not_Some_eq)
qed

section \<open>Snapshots list what resolves\<close>

text \<open>A backend that is not disturbed: its metadata calls change nothing.\<close>

definition quiet_backend :: "'w LinuxReadOnlyEngine \<Rightarrow> bool" where
  "quiet_backend ro \<longleftrightarrow>
     (\<forall>key. io_steps (=) (fb_get_item (ro_backend ro) key))
     \<and> (\<forall>key cursor. io_steps (=) (fb_list_children (ro_backend ro) key cursor))"

lemma quiet_rely: "quiet_backend (we_readonly e) \<Longrightarrow> mount_rely (=) e"
  by unfold_locales (simp_all add: quiet_backend_def)

lemma try_map_Inr: "try_map f xs = Inr ys \<longleftrightarrow> list_all2 (\<lambda>x y. f x = Inr y) xs ys"
proof (induction xs arbitrary: ys)
  case (Cons x xs)
  show ?case by (cases ys) (auto simp: Cons.IH)
qed auto

lemma try_map_map:
  assumes "try_map f xs = Inr ys" and "\<And>x y. f x = Inr y \<Longrightarrow> g y = h x"
  shows "map g ys = map h xs"
  using assms(1) unfolding try_map_Inr by (induction rule: list_all2_induct) (auto simp: assms(2))

lemma try_map_each: "try_map f xs = Inr ys \<Longrightarrow> x \<in> set xs \<Longrightarrow> \<exists>y. f x = Inr y"
  unfolding try_map_Inr by (induction rule: list_all2_induct) auto

lemma append_local_Inr:
  assumes "append_local e local entries = Inr entries'"
  shows "map de_name entries' = map de_name entries @ map fst local"
    and "(n, item, record) \<in> set local \<Longrightarrow> \<exists>node. node_from e item record = Inr node"
    and "distinct (map de_name entries) \<Longrightarrow> distinct (map de_name entries')"
proof -
  have "map de_name entries' = map de_name entries @ map fst local
      \<and> ((n, item, record) \<in> set local \<longrightarrow> (\<exists>node. node_from e item record = Inr node))
      \<and> (distinct (map de_name entries) \<longrightarrow> distinct (map de_name entries'))"
    using assms
  proof (induction local arbitrary: entries)
    case (Cons x local)
    obtain m i r where x: "x = (m, i, r)" by (cases x)
    obtain child where child: "node_from e i r = Inr child"
      and rest: "append_local e local (entries @ [from_node m child]) = Inr entries'"
      and new: "\<not> list_ex (\<lambda>entry. de_name entry = m) entries"
      using Cons.prems by (auto simp: x split: if_splits)
    have "de_name (from_node m child) = m" by (simp add: from_node_def)
    moreover have "m \<notin> de_name ` set entries" using new by (auto simp: list_ex_iff)
    ultimately have "distinct (map de_name entries) \<Longrightarrow> distinct (map de_name (entries @ [from_node m child]))"
      by simp
    with Cons.IH [OF rest] have "distinct (map de_name entries) \<longrightarrow> distinct (map de_name entries')" by blast
    moreover have "map de_name entries' = map de_name entries @ map fst (x # local)"
      using Cons.IH [OF rest] by (simp add: x from_node_def)
    moreover have "(n, item, record) \<in> set (x # local) \<longrightarrow> (\<exists>node. node_from e item record = Inr node)"
      using Cons.IH [OF rest] child by (auto simp: x)
    ultimately show ?case by blast
  qed simp
  then show "map de_name entries' = map de_name entries @ map fst local"
    and "(n, item, record) \<in> set local \<Longrightarrow> \<exists>node. node_from e item record = Inr node"
    and "distinct (map de_name entries) \<Longrightarrow> distinct (map de_name entries')"
    by blast+
qed

text \<open>Whether a node can be made depends on the record only through its key.\<close>

lemma node_from_key:
  assumes "node_from_item_and_record attributes item record = Inr node" and "ir_key record' = ir_key record"
  shows "\<exists>node'. node_from_item_and_record attributes item record' = Inr node'
    \<and> fa_kind (node_attributes node') = fa_kind (node_attributes node)"
  using assms by (auto simp: node_from_item_and_record_def split: CloudItemKind.splits option.splits if_splits)

lemma by_key_key:
  assumes "LinuxInodeTable_new root records = Inr t" and "by_key t k = Some r"
  shows "ir_key r = k"
  using assms by (auto simp: LinuxInodeTable_new_exact by_key_def map_of_by_field split: if_splits)

lemma quiet_calls:
  assumes "quiet_backend (we_readonly e)"
  shows "writable_getattr e inode handle w = Some (r, w') \<Longrightarrow> w' = w"
    and "writable_lookup e parent name w = Some (r, w') \<Longrightarrow> w' = w"
    and "load_item_for_overlay (we_readonly e) inode w = Some (r1, w') \<Longrightarrow> w' = w"
    and "load_children_for_overlay (we_readonly e) key w = Some (r2, w') \<Longrightarrow> w' = w"
  using quiet_rely [OF assms]
  by (blast dest: async_stepsD mount_rely.steps_writable_getattr mount_rely.steps_writable_lookup
      backend_rely.steps_load_item backend_rely.steps_load_children_for_overlay
      mount_rely.axioms(1))+

lemma open_directory_Inr:
  assumes quiet: "quiet_backend (we_readonly e)"
    and run: "writable_open_directory e inode w = Some (Inr h, w')"
  obtains node item children tombstoned names local entries entries' where
    "writable_getattr e inode None w = Some (Inr node, w)"
    and "fa_kind (node_attributes node) = LinuxNodeKind.Directory"
    and "(case overlay_item (fst w) inode of Some (i, _) \<Rightarrow> async_return i
          | None \<Rightarrow> load_item_for_overlay (we_readonly e) inode) w = Some (Inr item, w)"
    and "load_children_for_overlay (we_readonly e) (item_key item) w = Some (Inr children, w)"
    and "directory_overlay (fst w) (key_item_id (node_key node)) = (tombstoned, names, local)"
    and "backend_entries e (fst w)
           (filter (\<lambda>item. item_name item \<notin> tombstoned \<and> item_name item \<notin> names) children) = Inr entries"
    and "append_local e (sort_key fst (filter (\<lambda>(name, _, _). name \<notin> tombstoned) local)) entries = Inr entries'"
    and "map_option ds_entries (lw_directories (fst w') h) = Some entries'"
proof -
  obtain node w1 where node: "writable_getattr e inode None w = Some (Inr node, w1)"
    and kind: "fa_kind (node_attributes node) = LinuxNodeKind.Directory"
    using run by (auto simp: writable_open_directory_def async_bind_eq_Inr split: if_splits)
  have w1: "w1 = w" using quiet_calls(1) [OF quiet node] .
  let ?item = "case overlay_item (fst w) inode of Some (i, _) \<Rightarrow> async_return i
      | None \<Rightarrow> load_item_for_overlay (we_readonly e) inode"
  obtain s w0 where w: "w = (s, w0)" by fastforce
  obtain item w2 children w3 where item: "?item w = Some (Inr item, w2)"
    and children: "load_children_for_overlay (we_readonly e) (item_key item) w2 = Some (Inr children, w3)"
    using run node kind unfolding w1
    by (auto simp: writable_open_directory_def async_bind_eq_Inr w)
  have w2: "w2 = w" using item quiet_calls(3) [OF quiet] by (auto split: option.splits)
  have w3: "w3 = w" using children quiet_calls(4) [OF quiet] unfolding w2 by blast
  obtain tombstoned names local where overlay: "directory_overlay s (key_item_id (node_key node)) = (tombstoned, names, local)"
    by (cases "directory_overlay s (key_item_id (node_key node))") auto
  note item = item [unfolded w2]
  note children = children [unfolded w2 w3]
  have "\<exists>entries entries'. backend_entries e s
        (filter (\<lambda>item. item_name item \<notin> tombstoned \<and> item_name item \<notin> names) children) = Inr entries
      \<and> append_local e (sort_key fst (filter (\<lambda>(name, _, _). name \<notin> tombstoned) local)) entries = Inr entries'
      \<and> map_option ds_entries (lw_directories (fst w') h) = Some entries'"
    using run node kind item children overlay unfolding w1
    by (auto simp: writable_open_directory_def async_bind_eq_Inr w io_bind_def
        split: option.splits sum.splits prod.splits)
  then show ?thesis
    using that [of node item children tombstoned names local] node [unfolded w1] kind item children overlay
    by (auto simp: w)
qed

lemma lookup_resolves:
  assumes "quiet_backend (we_readonly e)" and "validate_linux_name n = Inr ()"
    and "writable_getattr e parent None w = Some (Inr node, w)"
    and "fa_kind (node_attributes node) = LinuxNodeKind.Directory"
  shows "(\<exists>child. writable_lookup e parent n w = Some (Inr child, w)) \<longleftrightarrow>
    (case overlay_named (fst w) (name_at (node_key node) n) of
       Some (item, record) \<Rightarrow> \<exists>child. node_from e item record = Inr child
     | None \<Rightarrow> \<not> name_tombstoned (fst w) (name_at (node_key node) n)
         \<and> (\<exists>child. readonly_lookup (we_readonly e) parent n w = Some (Inr child, w)))"
proof -
  obtain s w0 where w: "w = (s, w0)" by fastforce
  have quiet: "readonly_lookup (we_readonly e) parent n w = Some (Inr child, w1) \<Longrightarrow> w1 = w" for child w1
    using async_stepsD [OF backend_rely.steps_readonly_lookup [OF mount_rely.axioms(1) [OF quiet_rely [OF assms(1)]]]]
    by blast
  show ?thesis
    using assms(2,3,4) quiet
    by (cases "overlay_named s (name_at (node_key node) n)")
      (auto simp: writable_lookup_def async_bind_eq_Inr w overlay_node_named Let_def split: prod.splits if_splits)
qed

lemma readonly_lookup_found:
  assumes "load_item_for_overlay ro parent w = Some (Inr p, w)" and "item_kind p = CloudItemKind.Directory"
    and "load_children_for_overlay ro (item_key p) w = Some (Inr children, w)"
    and "\<forall>c \<in> set children. by_key (ro_inodes ro) (item_key c) \<noteq> None"
    and "validate_linux_name n = Inr ()" and "scanned (item_key p) children"
  shows "(\<exists>child. readonly_lookup ro parent n w = Some (Inr child, w)) \<longleftrightarrow>
    (\<exists>item \<in> set children. item_name item = n \<and> (\<exists>child. node_from_item ro item = Inr child))"
proof -
  have found: "find (\<lambda>item. item_name item = n) children = Some item \<longleftrightarrow> item \<in> set children \<and> item_name item = n" for item
  proof -
    have d: "distinct (map item_name children)" using assms(6) by (simp add: scanned_def)
    then show ?thesis
      by (induction children) (auto split: if_splits)
  qed
  have known: "load_children ro (item_key p) w = Some (Inr children, w)"
    using assms(3,4) by (auto simp: load_children_def async_bind_eq_Inr list_ex_iff)
  have run: "readonly_lookup ro parent n w =
      (case find (\<lambda>item. item_name item = n) children of
         None \<Rightarrow> async_fail (Backend (CloudBackendError_new CloudBackendErrorKind.NotFound))
       | Some item \<Rightarrow> async_lift (node_from_item ro item)) w"
    using assms(1,2,5) known by (simp add: readonly_lookup_def async_bind_def split: option.split)
  show ?thesis
  proof (cases "find (\<lambda>item. item_name item = n) children")
    case None
    then have "\<forall>item \<in> set children. item_name item \<noteq> n" by (auto simp: find_None_iff)
    then show ?thesis by (simp add: run None)
  next
    case (Some i)
    then have "item = i" if "item \<in> set children" "item_name item = n" for item
      using found [of item] that by simp
    with run Some found [of i] show ?thesis by auto
  qed
qed

lemma listing_agrees:
  assumes quiet: "quiet_backend (we_readonly e)"
    and table: "LinuxInodeTable_new root records = Inr (inode_table e)"
    and wf: "overlays_wf (fst w)"
    and dir: "load_item_for_overlay (we_readonly e) inode w = Some (Inr p, w)" "item_kind p = CloudItemKind.Directory"
    and overlaid: "\<And>i r. overlay_item (fst w) inode = Some (i, r) \<Longrightarrow> item_key i = item_key p"
    and known: "\<And>children c. load_children_for_overlay (we_readonly e) (item_key p) w = Some (Inr children, w) \<Longrightarrow>
        c \<in> set children \<Longrightarrow> by_key (inode_table e) (item_key c) \<noteq> None"
    and run: "writable_open_directory e inode w = Some (Inr h, w')"
    and valid: "validate_linux_name n = Inr ()"
  shows "\<exists>entries. map_option ds_entries (lw_directories (fst w') h) = Some entries
    \<and> distinct (map de_name entries)
    \<and> (n \<in> de_name ` set entries \<longleftrightarrow> (\<exists>node. writable_lookup e inode n w = Some (Inr node, w)))"
proof -
  obtain node item children tombstoned names local entries entries' where
    node: "writable_getattr e inode None w = Some (Inr node, w)"
      "fa_kind (node_attributes node) = LinuxNodeKind.Directory"
    and item: "(case overlay_item (fst w) inode of Some (i, _) \<Rightarrow> async_return i
          | None \<Rightarrow> load_item_for_overlay (we_readonly e) inode) w = Some (Inr item, w)"
    and children: "load_children_for_overlay (we_readonly e) (item_key item) w = Some (Inr children, w)"
    and overlay: "directory_overlay (fst w) (key_item_id (node_key node)) = (tombstoned, names, local)"
    and backend: "backend_entries e (fst w)
           (filter (\<lambda>item. item_name item \<notin> tombstoned \<and> item_name item \<notin> names) children) = Inr entries"
    and app: "append_local e (sort_key fst (filter (\<lambda>(name, _, _). name \<notin> tombstoned) local)) entries = Inr entries'"
    and snap: "map_option ds_entries (lw_directories (fst w') h) = Some entries'"
    using open_directory_Inr [OF quiet run] by blast
  have key: "item_key item = item_key p"
    using item dir(1) overlaid by (auto split: option.splits)
  note children = children [unfolded key]
  have scanned: "scanned (item_key p) children" using load_children_scanned [OF children] .
  note spec = directory_overlay_exact [OF wf overlay]
  let ?k = "name_at (node_key node) n"
  have entry_names: "map de_name entries = map item_name
      (filter (\<lambda>item. item_name item \<notin> tombstoned \<and> item_name item \<notin> names) children)"
    using backend unfolding backend_entries_def
    by (rule try_map_map) (auto simp: from_node_def)
  have local_mem: "(m, i, r) \<in> set (sort_key fst (filter (\<lambda>(name, _, _). name \<notin> tombstoned) local))
      \<longleftrightarrow> overlay_named (fst w) (key_item_id (node_key node), m) = Some (i, r)" for m i r
  proof -
    have "(m, i, r) \<in> set local \<longleftrightarrow> overlay_named (fst w) (key_item_id (node_key node), m) = Some (i, r)"
      unfolding map_of_eq_Some_iff [OF spec(1), symmetric] spec(2) ..
    moreover have "m \<in> tombstoned \<Longrightarrow> overlay_named (fst w) (key_item_id (node_key node), m) = None"
      using spec(4) [of m] by blast
    ultimately show ?thesis by auto
  qed
  have "distinct (map de_name entries)"
    using scanned unfolding entry_names by (simp add: scanned_def distinct_map_filter)
  then have distinct: "distinct (map de_name entries')" by (rule append_local_Inr(3) [OF app])
  have "de_name ` set entries' = set (map de_name entries')" by simp
  also have "\<dots> = set (map de_name entries) \<union> fst ` set (sort_key fst (filter (\<lambda>(name, _, _). name \<notin> tombstoned) local))"
    unfolding append_local_Inr(1) [OF app] by simp
  finally have mem: "n \<in> de_name ` set entries' \<longleftrightarrow> n \<in> set (map de_name entries)
      \<or> (\<exists>i r. (n, i, r) \<in> set (sort_key fst (filter (\<lambda>(name, _, _). name \<notin> tombstoned) local)))"
    by force
  have names: "n \<in> de_name ` set entries' \<longleftrightarrow>
      overlay_named (fst w) ?k \<noteq> None
      \<or> \<not> name_tombstoned (fst w) ?k \<and> (\<exists>c \<in> set children. item_name c = n)"
    unfolding mem local_mem entry_names using spec(3) [of n] spec(4) [of n] by auto
  have made: "\<exists>child. node_from_item (we_readonly e) c = Inr child"
    if c: "c \<in> set children" "item_name c = n" and free: "overlay_named (fst w) ?k = None" "\<not> name_tombstoned (fst w) ?k" for c
  proof -
    have "c \<in> set (filter (\<lambda>item. item_name item \<notin> tombstoned \<and> item_name item \<notin> names) children)"
      using c free spec(3) [of n] spec(4) [of n] by simp
    from try_map_each [OF backend [unfolded backend_entries_def] this]
    obtain r child where child: "node_from e c r = Inr child" by auto
    obtain r0 where r0: "by_key (inode_table e) (item_key c) = Some r0"
      using known [OF children c(1)] by blast
    have "ir_key r0 = ir_key r"
      using by_key_key [OF table r0] child by (auto simp: node_from_item_and_record_def split: if_splits)
    from node_from_key [OF child this] obtain node' where
      "node_from_item_and_record (ro_attributes (we_readonly e)) c r0 = Inr node'" by blast
    moreover have "(if is_root c then Inr () else validate_linux_name (item_name c)) = Inr ()"
      using child unfolding node_from_item_and_record_def by (simp only: res_bind_eq_Inr) auto
    ultimately show ?thesis by (simp add: node_from_item_def r0)
  qed
  have "(\<exists>node. writable_lookup e inode n w = Some (Inr node, w)) \<longleftrightarrow>
      overlay_named (fst w) ?k \<noteq> None
      \<or> \<not> name_tombstoned (fst w) ?k \<and> (\<exists>c \<in> set children. item_name c = n)"
  proof (cases "overlay_named (fst w) ?k")
    case None
    have "(\<exists>child. readonly_lookup (we_readonly e) inode n w = Some (Inr child, w)) \<longleftrightarrow>
        (\<exists>item \<in> set children. item_name item = n \<and> (\<exists>child. node_from_item (we_readonly e) item = Inr child))"
      using readonly_lookup_found [OF dir children _ valid scanned] known [OF children] by blast
    moreover have "\<not> name_tombstoned (fst w) ?k \<Longrightarrow>
        (\<exists>item \<in> set children. item_name item = n \<and> (\<exists>child. node_from_item (we_readonly e) item = Inr child))
        \<longleftrightarrow> (\<exists>c \<in> set children. item_name c = n)"
      using made None by blast
    ultimately show ?thesis using None lookup_resolves [OF quiet valid node] by auto
  next
    case (Some ir)
    then have "\<exists>child. node_from e (fst ir) (snd ir) = Inr child"
      using append_local_Inr(2) [OF app, of n "fst ir" "snd ir"] local_mem [of n "fst ir" "snd ir"] by simp
    with Some lookup_resolves [OF quiet valid node] show ?thesis by (cases ir) simp
  qed
  with names snap distinct show ?thesis by auto
qed

end
