(* ===== verification/Linux_System.thy ===== *)
theory Linux_System
  imports Linux_Directory
begin

text \<open>
  The Linux adapter as a whole: every mount state that activation and requests can reach keeps its
  invariant, handles are never reused, accepted writes publish the store's commit with a newer
  dirty generation, reads return the requested extent of the store's content, and directory
  snapshots agree with lookups. The last section instantiates the interfaces with a concrete mount.
\<close>

section \<open>Activation\<close>

definition mount_ok :: "WritableState \<Rightarrow> bool" where
  "mount_ok s \<longleftrightarrow> handles_ok s \<and> overlays_wf s"

lemma mount_ok_default: "mount_ok WritableState_default"
  by (simp add: mount_ok_def handles_ok_def overlays_wf_def WritableState_default_def)

lemma mount_ok_step: "mount_step w w' \<Longrightarrow> mount_ok (fst w) \<Longrightarrow> mount_ok (fst w')"
  by (simp add: mount_ok_def mount_step_def mount_le_def)

lemma mount_le_trans: "mount_le a b \<Longrightarrow> mount_le b c \<Longrightarrow> mount_le a c"
  using mount.R_trans [of "(a, ())" "(b, ())" "(c, ())"] by (simp add: mount_step_def)

lemma io_each_le:
  assumes "\<And>x s s'. f x s = (Inr (), s') \<Longrightarrow> mount_le s s'" and "io_each f xs s = (Inr (), s')"
  shows "mount_le s s'"
  using assms(2)
proof (induction xs arbitrary: s)
  case (Cons x xs)
  then obtain s1 where "f x s = (Inr (), s1)" "io_each f xs s1 = (Inr (), s')"
    by (auto simp: io_bind_eq_Inr)
  with Cons.IH assms(1) show ?case by (blast intro: mount_le_trans)
qed simp

lemma index_insert_wf: "index_insert k v x = (r, x') \<Longrightarrow> index_wf x \<Longrightarrow> index_wf x'"
  using index_wf_put [of x k v] by (simp add: index_put_def)

lemma restore_namespace_le:
  assumes "restore_namespace_overlay e overlay s = (Inr (), s')"
  shows "mount_le s s'"
proof -
  have item: "mount_le s s'" if "restore_namespace_item e item s = (Inr (), s')" for item s s'
    using that publish_steps(1) by (auto simp: restore_namespace_item_def split: sum.splits)
  have tomb: "mount_le s s'" if "restore_tombstone e tombstone s = (Inr (), s')" for tombstone s s'
  proof -
    have "overlays_wf s' \<and> lw_dirty_snapshots s' = lw_dirty_snapshots s \<and> lw_next s' = lw_next s
        \<and> lw_files s' = lw_files s \<and> lw_directories s' = lw_directories s" if "overlays_wf s"
      using that \<open>restore_tombstone e tombstone s = (Inr (), s')\<close>
      by (auto simp: restore_tombstone_def Let_def overlays_wf_def split: if_splits prod.splits
          intro: index_insert_wf)
    moreover have "lw_dirty_snapshots s' = lw_dirty_snapshots s \<and> lw_next s' = lw_next s
        \<and> lw_files s' = lw_files s \<and> lw_directories s' = lw_directories s"
      using that by (auto simp: restore_tombstone_def Let_def split: if_splits prod.splits)
    ultimately show ?thesis by (intro mount_le_same) blast+
  qed
  from assms obtain s1 where "io_each (restore_namespace_item e) (no_items overlay) s = (Inr (), s1)"
    and "io_each (restore_tombstone e) (no_tombstones overlay) s1 = (Inr (), s')"
    by (auto simp: restore_namespace_overlay_def io_bind_eq_Inr)
  then show ?thesis
    using io_each_le [of "restore_namespace_item e"] io_each_le [of "restore_tombstone e"] item tomb
    by (blast intro: mount_le_trans)
qed

lemma restore_dirty_le: "restore_dirty_snapshots e snapshots s = (Inr (), s') \<Longrightarrow> mount_le s s'"
proof (unfold restore_dirty_snapshots_def, erule io_each_le [rotated])
  fix snapshot s s'
  assume run: "restore_dirty_snapshot e snapshot s = (Inr (), s')"
  then obtain i where s': "s' = s\<lparr>lw_dirty_snapshots := (lw_dirty_snapshots s)(i \<mapsto> snapshot)\<rparr>"
    and same: "\<not> is_some_and (lw_dirty_snapshots s i) (\<lambda>previous. previous \<noteq> snapshot)"
    by (auto simp: restore_dirty_snapshot_def Let_def split: if_splits option.splits)
  show "mount_le s s'"
    unfolding s' by (rule mount_le_dirty) (use same in \<open>auto simp: is_some_and_def\<close>)
qed

context mount_ports
begin

lemma steps_restore_created: "async_steps mount_step (restore_created_file e created)"
proof -
  have publish: "async_steps (mount_step :: 'w mount_world \<Rightarrow> _) (locked (\<lambda>state.
      case ensure_created_file_is_unique e state created (name_key state) of
        Inl error \<Rightarrow> (Inl error, state)
      | Inr _ \<Rightarrow>
          (Inr (),
           state\<lparr>lw_created_by_key := (lw_created_by_key state)(k \<mapsto> i),
                 lw_created_by_name := index_put (name_key state) i (lw_created_by_name state),
                 lw_created_by_inode := (lw_created_by_inode state)(i \<mapsto> created)\<rparr>)))" for name_key k i
    by (rule steps_section)
      (auto split: sum.splits intro!: mount_le_same simp: overlays_wf_def index_wf_put)
  show ?thesis
    unfolding restore_created_file_def Let_def
    by (intro steps_bind steps_if steps_pure steps_locked_read steps_writable_getattr publish)
qed

lemma steps_each: "(\<And>x. async_steps mount_step (f x)) \<Longrightarrow> async_steps (mount_step :: 'w mount_world \<Rightarrow> _) (async_each f xs)"
  by (induction xs) auto

lemma activate_ok:
  assumes "activate_inner e entries w = Some (Inr (), w')"
  shows "mount_ok (fst w')"
proof -
  obtain created snapshots overlay w0 w1 w2 w3 w4 where
    fresh: "fresh_state w0 = Some (Inr (), w1)"
    and namespace: "locked (restore_namespace_overlay e overlay) w1 = Some (Inr (), w2)"
    and remote: "restore_remote_overlay e entries w2 = Some (Inr (), w3)"
    and creates: "async_each (restore_created_file e) created w3 = Some (Inr (), w4)"
    and dirty: "locked (restore_dirty_snapshots e snapshots) w4 = Some (Inr (), w')"
    using assms by (auto simp: activate_inner_def Let_def async_bind_eq_Inr)
  have "fst w1 = WritableState_default" using fresh by (cases w0) (auto simp: fresh_state_def)
  then have "mount_ok (fst w1)" by (simp add: mount_ok_default)
  moreover have "mount_step w1 w2"
    using namespace restore_namespace_le [of e overlay "fst w1" "fst w2"]
    by (cases w1) (auto simp: mount_step_def prod_eq_iff)
  moreover have "mount_step w2 w3"
    using remote by (rule async_stepsD [rotated]) (simp add: restore_remote_overlay_def steps_each steps_remote_change)
  moreover have "mount_step w3 w4"
    using creates by (rule async_stepsD [rotated]) (simp add: steps_each steps_restore_created)
  moreover have "mount_step w4 w'"
    using dirty restore_dirty_le [of e snapshots "fst w4" "fst w'"]
    by (cases w4) (auto simp: mount_step_def prod_eq_iff)
  ultimately show ?thesis using mount_ok_step by blast
qed

end

section \<open>Reachable mounts\<close>

inductive mount_reachable :: "'w mount_world LinuxWritableEngine \<Rightarrow> 'w mount_world \<Rightarrow> bool"
  for e :: "'w mount_world LinuxWritableEngine" where
  activated: "activate_inner e entries w = Some (Inr (), w') \<Longrightarrow> mount_reachable e w'"
| called: "mount_reachable e w \<Longrightarrow> mount_call e c w = Some (r, w') \<Longrightarrow> mount_reachable e w'"

lemma mount_call_step:
  assumes "ports_step e" and "mount_call e c w = Some (r, w')"
  shows "mount_step w w'"
  using mount_ports.steps_mount_call [of e] assms by (auto simp: mount_ports_def dest: async_stepsD)

lemma reachable_ok:
  assumes "mount_reachable e w" and "ports_step e"
  shows "mount_ok (fst w)"
  using assms(1)
proof induction
  case (activated entries w w')
  then show ?case using mount_ports.activate_ok [of e] assms(2) by (auto simp: mount_ports_def)
next
  case (called w c r w')
  then show ?case using mount_call_step [OF assms(2)] mount_ok_step by blast
qed

section \<open>Writes, reads and handles\<close>

lemma unat_widen: "unat (ucast (n :: u32) :: u64) = unat n"
  by (simp add: unsigned_ucast_eq take_bit_nat_eq_self_iff order_less_trans [OF unat_u32_bound])

lemma item_key_of_frame:
  "item_key_of e (s\<lparr>lw_files := f, lw_dirty_snapshots := d\<rparr>) i = item_key_of e s i"
  by (simp add: item_key_of_def split: option.split)

lemma write_file_accepted:
  assumes "ports_step e" and run: "writable_write_file e i h off bytes w = Some (Inr n, w')" and "bytes \<noteq> []"
  shows "unat n = length bytes"
    and "\<exists>f0 commit w1 f. map_of (lw_files (fst w)) h = Some f0 \<and> wf_inode f0 = i \<and> writable (wf_access f0)
      \<and> wb_write (we_store e) (wf_session f0) off bytes w = (Inr commit, w1)
      \<and> lw_dirty_snapshots (fst w') = (lw_dirty_snapshots (fst w1))(i \<mapsto> wc_snapshot commit) \<and> snd w' = snd w1
      \<and> map_of (lw_files (fst w')) h = Some f \<and> wf_inode f = i
      \<and> wf_size f = snap_size (wc_snapshot commit) \<and> wf_generation f = Some (snap_generation (wc_snapshot commit))
      \<and> item_key_of e (fst w') i = Inr (snap_item_key (wc_snapshot commit))
      \<and> unat off + length bytes \<le> unat (snap_size (wc_snapshot commit))
      \<and> (\<forall>s0. lw_dirty_snapshots (fst w) i = Some s0 \<longrightarrow>
            snap_generation s0 < snap_generation (wc_snapshot commit))"
proof -
  obtain byte_count end' session commit w1 where
    bc: "u32_try_from (length bytes) = Some byte_count" and en: "checked_add off (ucast byte_count) = Some end'"
    and session: "locked (\<lambda>state. (write_session i h state, state)) w = Some (Inr session, w)"
    and port: "io_try WritebackStore (wb_write (we_store e) session off bytes) w = (Inr commit, w1)"
    and commit: "locked (apply_commit e h i commit (Some end') False) w1 = Some (Inr (), w')"
    and n: "n = byte_count"
    using run assms(3)
    by (cases w) (auto simp: writable_write_file_def async_bind_eq_Inr)
  have count: "unat byte_count = length bytes"
    using bc by (auto simp: u32_try_from_def unat_of_nat split: if_splits)
  show "unat n = length bytes" by (simp add: n count)
  obtain f0 where f0: "map_of (lw_files (fst w)) h = Some f0" "wf_inode f0 = i" "writable (wf_access f0)"
      "session = wf_session f0"
    using session by (cases w) (auto simp: write_session_def split: option.splits if_splits)
  have steps: "io_steps mount_step (wb_write (we_store e) session off bytes)"
    using assms(1) by (simp add: ports_step_def)
  have call: "wb_write (we_store e) session off bytes w = (Inr commit, w1)" using port by simp
  have "mount_step w w1" by (rule io_stepsD [OF steps call])
  then have dirty: "dirty_le (lw_dirty_snapshots (fst w)) (lw_dirty_snapshots (fst w1))"
    by (simp add: mount_step_def mount_le_def)
  have end_eq: "unat end' = unat off + length bytes"
    using en unat_add_exact [of off "ucast byte_count :: u64"] count by (auto simp: unat_widen)
  from commit have run1: "apply_commit e h i commit (Some end') False (fst w1) = (Inr (), fst w')"
    by (cases w1) (auto simp: prod_eq_iff)
  from commit have world: "snd w' = snd w1" by (cases w1) (auto simp: prod_eq_iff)
  show "\<exists>f0 commit w1 f. map_of (lw_files (fst w)) h = Some f0 \<and> wf_inode f0 = i \<and> writable (wf_access f0)
      \<and> wb_write (we_store e) (wf_session f0) off bytes w = (Inr commit, w1)
      \<and> lw_dirty_snapshots (fst w') = (lw_dirty_snapshots (fst w1))(i \<mapsto> wc_snapshot commit) \<and> snd w' = snd w1
      \<and> map_of (lw_files (fst w')) h = Some f \<and> wf_inode f = i
      \<and> wf_size f = snap_size (wc_snapshot commit) \<and> wf_generation f = Some (snap_generation (wc_snapshot commit))
      \<and> item_key_of e (fst w') i = Inr (snap_item_key (wc_snapshot commit))
      \<and> unat off + length bytes \<le> unat (snap_size (wc_snapshot commit))
      \<and> (\<forall>s0. lw_dirty_snapshots (fst w) i = Some s0 \<longrightarrow>
            snap_generation s0 < snap_generation (wc_snapshot commit))"
  proof (cases rule: apply_commit_Inr [OF run1])
    case (1 current)
    then show ?thesis by simp
  next
    case (2 opened)
    let ?new = "opened\<lparr>wf_size := snap_size (wc_snapshot commit),
        wf_generation := Some (snap_generation (wc_snapshot commit))\<rparr>"
    have "unat off + length bytes \<le> unat (snap_size (wc_snapshot commit))"
      using 2(4) [of end'] end_eq by (simp add: word_le_nat_alt)
    moreover have "snap_generation s0 < snap_generation (wc_snapshot commit)"
      if s0: "lw_dirty_snapshots (fst w) i = Some s0" for s0
    proof -
      from dirty s0 obtain s1 where s1: "lw_dirty_snapshots (fst w1) i = Some s1"
        and "s1 = s0 \<or> snap_generation s0 < snap_generation s1"
        unfolding dirty_le_def by blast
      with 2(5) [OF s1] show ?thesis by auto
    qed
    ultimately show ?thesis
      using 2(2,3) f0 call world
      by (intro exI [of _ f0] exI [of _ commit] exI [of _ w1] exI [of _ ?new])
        (simp add: 2(6) update_conv' item_key_of_frame)
  qed
qed

text \<open>
  A successful read is the store's answer for the handle's session at the requested offset, or
  empty at the end of the file.
\<close>

lemma read_file_answer:
  assumes "writable_read_file e i h off n w = Some (Inr bytes, w')"
  obtains f where "map_of (lw_files (fst w)) h = Some f" and "wf_inode f = i" and "readable (wf_access f)"
    and "n = 0 \<or> wf_size f \<le> off \<Longrightarrow> bytes = [] \<and> w' = w"
    and "n \<noteq> 0 \<Longrightarrow> off < wf_size f \<Longrightarrow> wb_read (we_store e) (wf_session f) off n w = (Inr bytes, w')
      \<and> len_u64 bytes = min (ucast n) (wf_size f - off)"
proof -
  obtain s w0 where w: "w = (s, w0)" by fastforce
  obtain f where f: "map_of (lw_files s) h = Some f" and i: "wf_inode f = i" and r: "readable (wf_access f)"
    using assms by (auto simp: writable_read_file_def async_bind_eq_Inr w split: if_splits)
  show thesis
    by (rule that [of f])
      (use assms f i r in \<open>auto simp: writable_read_file_def async_bind_eq_Inr w Let_def split: if_splits\<close>)
qed

lemma read_file_exact:
  assumes "writable_read_file e i h off n w = Some (Inr bytes, w')" and "allocatable bytes"
  obtains f where "map_of (lw_files (fst w)) h = Some f" and "wf_inode f = i" and "readable (wf_access f)"
    and "if n = 0 \<or> wf_size f \<le> off then bytes = [] \<and> w' = w
      else wb_read (we_store e) (wf_session f) off n w = (Inr bytes, w')"
    and "length bytes = min (unat n) (unat (wf_size f) - unat off)"
proof (cases rule: read_file_answer [OF assms(1)])
  case (1 f)
  have "length bytes = min (unat n) (unat (wf_size f) - unat off)"
  proof (cases "n = 0 \<or> wf_size f \<le> off")
    case True
    with 1(4) show ?thesis by (auto simp: word_le_nat_alt)
  next
    case False
    with 1(5) have "len_u64 bytes = min (ucast n) (wf_size f - off)" by auto
    then have "length bytes = unat (min (ucast n) (wf_size f - off))"
      using unat_len_u64 [OF assms(2)] by simp
    also have "\<dots> = min (unat n) (unat (wf_size f) - unat off)"
      using False unat_sub_exact [of off "wf_size f"] linear [of off "wf_size f"]
      by (simp add: unat_min unat_widen)
    finally show ?thesis .
  qed
  with 1 show thesis by (intro that [of f]) auto
qed

text \<open>An answer of the length that is left before the end is that part of the content.\<close>

lemma take_drop_extent:
  assumes "length (take n (drop off content)) = min n (k - off)"
  shows "take n (drop off content) = take n (drop off (take k content))"
proof (cases "n \<le> k - off")
  case True
  then show ?thesis by (simp add: drop_take min_def)
next
  case False
  then have "length (drop off content) = k - off" using assms by auto
  then show ?thesis using False by (simp add: drop_take)
qed

lemma accept_created_next:
  "accept_created_file e request acceptance h s = (Inr a, s') \<Longrightarrow> snd a = h \<and> lw_next s' = lw_next s"
  by (auto simp: accept_created_file_def io_bind_def Let_def split: sum.splits if_splits)

text \<open>A call that hands out a number which was not handed out before, and is afterwards.\<close>

definition hands_out :: "('a \<Rightarrow> u64) \<Rightarrow> ('w mount_world, 'e, 'a) async \<Rightarrow> bool" where
  "hands_out num m \<longleftrightarrow>
     (\<forall>w a w'. m w = Some (Inr a, w') \<longrightarrow>
        handle_bound (fst w) \<le> unat (num a) \<and> unat (num a) < handle_bound (fst w'))"

lemma hands_out_fail [simp, intro]: "hands_out num (async_fail e)" "hands_out num (async_lift (Inl e))"
  by (simp_all add: hands_out_def async_fail_def async_lift_def)

lemma hands_out_if: "hands_out num a \<Longrightarrow> hands_out num b \<Longrightarrow> hands_out num (if c then a else b)"
  by simp

context mount_ports
begin

lemma hands_out_bind:
  assumes "async_steps mount_step m" and "\<And>a. hands_out num (f a)"
  shows "hands_out num (async_bind m f)"
  unfolding hands_out_def async_bind_eq_Inr
proof (intro allI impI)
  fix w b w'
  assume "\<exists>a w1. m w = Some (Inr a, w1) \<and> f a w1 = Some (Inr b, w')"
  then obtain a w1 where m: "m w = Some (Inr a, w1)" and f: "f a w1 = Some (Inr b, w')" by blast
  have "handle_bound (fst w) \<le> handle_bound (fst w1)"
    using async_stepsD [OF assms(1) m] by (simp add: mount_step_def mount_le_def)
  with assms(2) f show "handle_bound (fst w) \<le> unat (num b) \<and> unat (num b) < handle_bound (fst w')"
    unfolding hands_out_def by (meson order_trans)
qed

lemma hands_out_with_store:
  assumes "\<And>ns. we_namespace_store e = Some ns \<Longrightarrow> hands_out num (f ns)"
  shows "hands_out num (async_bind (async_lift (ok_or NamespaceMutationNotConfigured (we_namespace_store e))) f)"
  using assms by (cases "we_namespace_store e") auto

lemma hands_out_insert_file:
  "hands_out file_handle_get (locked (io_bind WritableState_allocate (\<lambda>handle state.
     (Inr handle, state\<lparr>lw_files := AList.update handle f (lw_files state)\<rparr>))))"
  unfolding hands_out_def
proof (intro allI impI)
  fix w h w'
  assume "locked (io_bind WritableState_allocate (\<lambda>handle state.
     (Inr handle, state\<lparr>lw_files := AList.update handle f (lw_files state)\<rparr>))) w = Some (Inr h, w')"
  then have run: "io_bind WritableState_allocate (\<lambda>handle state.
     (Inr handle, state\<lparr>lw_files := AList.update handle f (lw_files state)\<rparr>)) (fst w) = (Inr h, fst w')"
    by (cases w) (auto simp: prod_eq_iff)
  show "handle_bound (fst w) \<le> unat (file_handle_get h) \<and> unat (file_handle_get h) < handle_bound (fst w')"
  proof (cases rule: insert_opened_cases [OF run])
    case (2 h' nxt)
    then show ?thesis using allocate_next(1,2) [OF 2(1), of "fst w'"] by simp
  qed simp
qed

lemma open_file_hands_out: "hands_out file_handle_get (writable_open_file e inode access)"
  unfolding writable_open_file_def Let_def
  by (intro hands_out_bind steps_reading)
    (auto intro!: hands_out_bind hands_out_if hands_out_insert_file steps_overlay_node steps_readonly_getattr
      steps_section validate_opened_session_step(1) store_steps steps_bind steps_with_store namespace_steps
      steps_hydrate steps_pure split: option.split)

lemma create_file_hands_out: "hands_out (file_handle_get \<circ> snd) (create_file e parent name mode umask access)"
proof -
  have accept: "hands_out (file_handle_get \<circ> snd)
      (async_bind (locked WritableState_allocate) (\<lambda>handle.
       async_bind (await (io_try NamespaceStore (ns_create_file ns request))) (\<lambda>acceptance.
       locked (accept_created_file e request acceptance handle))) :: ('w mount_world, LinuxNode \<times> LinuxFileHandle) linux_call)"
    if ns: "we_namespace_store e = Some ns" for ns request
    unfolding hands_out_def
  proof (intro allI impI)
    fix w a w'
    assume run: "async_bind (locked WritableState_allocate) (\<lambda>handle.
       async_bind (await (io_try NamespaceStore (ns_create_file ns request))) (\<lambda>acceptance.
       locked (accept_created_file e request acceptance handle))) w = Some (Inr a, w')"
    then obtain h w1 acceptance w2 where alloc: "locked WritableState_allocate w = Some (Inr h, w1)"
      and port: "await (io_try NamespaceStore (ns_create_file ns request)) w1 = Some (Inr acceptance, w2)"
      and pub: "locked (accept_created_file e request acceptance h) w2 = Some (Inr a, w')"
      unfolding async_bind_eq_Inr by blast
    from alloc have "WritableState_allocate (fst w) = (Inr h, fst w1)"
      by (cases w) (auto simp: prod_eq_iff)
    then obtain nxt where n: "next_handle (lw_next (fst w)) = Inr (file_handle_get h, nxt)"
        "fst w1 = fst w\<lparr>lw_next := nxt\<rparr>"
      by (metis WritableState_allocate_Inr)
    have h: "unat (file_handle_get h) = handle_bound (fst w)" "handle_bound (fst w1) = handle_bound (fst w) + 1"
      using allocate_next(1,2) [OF n(1), of "fst w1"] n(2) by simp_all
    have w2: "handle_bound (fst w1) \<le> handle_bound (fst w2)"
      using async_stepsD [OF namespace_steps(1) [OF ns] port] by (simp add: mount_step_def mount_le_def)
    have "accept_created_file e request acceptance h (fst w2) = (Inr a, fst w')"
      using pub by (cases w2) (auto simp: prod_eq_iff)
    from accept_created_next [OF this] have "snd a = h" and "handle_bound (fst w') = handle_bound (fst w2)"
      by (simp_all add: handle_bound_def)
    then show "handle_bound (fst w) \<le> unat ((file_handle_get \<circ> snd) a)
        \<and> unat ((file_handle_get \<circ> snd) a) < handle_bound (fst w')"
      using h w2 by simp
  qed
  show ?thesis
    unfolding create_file_def
    by (intro hands_out_with_store hands_out_if hands_out_fail hands_out_bind steps_pure steps_writable_getattr accept)
qed

end

text \<open>Running a list of requests one after the other, whatever they answer.\<close>

primrec mount_calls ::
  "'w mount_world LinuxWritableEngine \<Rightarrow> MountCall list \<Rightarrow> 'w mount_world \<Rightarrow> 'w mount_world option" where
  "mount_calls e [] w = Some w"
| "mount_calls e (c # cs) w =
     (case mount_call e c w of None \<Rightarrow> None | Some (r, w') \<Rightarrow> mount_calls e cs w')"

lemma mount_calls_step:
  "ports_step e \<Longrightarrow> mount_calls e cs w = Some w' \<Longrightarrow> mount_step w w'"
proof (induction cs arbitrary: w)
  case Nil
  then show ?case by (simp add: mount.R_refl)
next
  case (Cons c cs)
  then obtain r w1 where "mount_call e c w = Some (r, w1)" and "mount_calls e cs w1 = Some w'"
    by (auto split: option.splits)
  with Cons mount_call_step [OF Cons.prems(1)] show ?case by (blast intro: mount.R_trans)
qed

section \<open>A small mount\<close>

text \<open>A root directory with one file over a backend and stores that answer at once.\<close>

definition mnt_key :: "string \<Rightarrow> CloudItemKey" where
  "mnt_key n = \<lparr>key_scope = \<lparr>scope_namespace_id = CloudNamespaceId ''ns'', scope_root_id = CloudRootId ''r''\<rparr>,
                key_item_id = CloudItemId n\<rparr>"

definition mnt_record :: "string \<Rightarrow> u64 \<Rightarrow> LinuxInodeRecord" where
  "mnt_record n i = \<lparr>ir_key = mnt_key n, ir_inode = LinuxInode i, ir_generation = LinuxInodeGeneration 1\<rparr>"

definition mnt_root :: CloudItem where
  "mnt_root = \<lparr>item_key = mnt_key ''root'', item_parent_id = None, item_name = ''root'',
               item_kind = CloudItemKind.Directory, item_metadata_revision = MetadataRevision [1],
               item_content = None\<rparr>"

definition mnt_file :: "string \<Rightarrow> CloudItem" where
  "mnt_file n = \<lparr>item_key = mnt_key n, item_parent_id = Some (CloudItemId ''root''), item_name = n,
                 item_kind = CloudItemKind.File, item_metadata_revision = MetadataRevision [1],
                 item_content = Some \<lparr>cm_revision = ContentRevision [1], cm_digest = None, cm_size = 4\<rparr>\<rparr>"

definition mnt_table :: LinuxInodeTable where
  "mnt_table = \<lparr>it_scope = key_scope (mnt_key ''root''), it_root = mnt_record ''root'' 1,
                it_by_key = [mnt_key ''a'' \<mapsto> mnt_record ''a'' 2],
                it_by_inode = [LinuxInode 2 \<mapsto> mnt_record ''a'' 2]\<rparr>"

definition mnt_backend :: "CloudItem list \<Rightarrow> 'w CloudFilesBackend" where
  "mnt_backend children =
     \<lparr>fb_get_item = (\<lambda>key w.
        (case find (\<lambda>item. item_key item = key) (mnt_root # children) of
           Some item \<Rightarrow> Inr item
         | None \<Rightarrow> Inl (CloudBackendError_new CloudBackendErrorKind.NotFound), w)),
      fb_list_children = (\<lambda>key cursor w.
        (Inr \<lparr>page_items = (if key = mnt_key ''root'' then children else []), page_next_cursor = None\<rparr>, w)),
      fb_changes_since = (\<lambda>_ _ w. (Inl (CloudBackendError_new CloudBackendErrorKind.Unsupported), w)),
      fb_read_content = (\<lambda>request w.
        (Inr \<lparr>resp_revision = ContentRevision [1], resp_offset = 0, resp_bytes = [1, 2, 3, 4],
              resp_byte_len = 4, resp_total_size = 4\<rparr>, w)),
      fb_capabilities = unconstrained\<rparr>"

definition mnt_commit :: "u64 \<Rightarrow> u64 \<Rightarrow> LinuxWriteCommit" where
  "mnt_commit g n =
     \<lparr>wc_snapshot = \<lparr>snap_item_key = mnt_key ''a'', snap_generation = LocalContentGeneration g,
        snap_reference = LocalContentReference ''local'', snap_size = n, snap_digest = None\<rparr>\<rparr>"

definition mnt_store :: "'w LinuxWritebackStore" where
  "mnt_store =
     \<lparr>wb_activate_mount = (\<lambda>_ _ w. (Inr [], w)),
      wb_open_recovered = (\<lambda>_ _ w. (Inr None, w)),
      wb_open_existing = (\<lambda>request content w.
        (Inr (LinuxWriteSession_new (LinuxWriteSessionId ''session'') (wo_key request) (wo_base_size request)
               (wo_session_generation request)), w)),
      wb_read = (\<lambda>_ off n w. (Inr (take (unat n) (drop (unat off) [1, 2, 3, 4])), w)),
      wb_write = (\<lambda>_ off bytes w. (Inr (mnt_commit 1 (off + len_u64 bytes)), w)),
      wb_truncate = (\<lambda>_ n w. (Inr (mnt_commit 1 n), w)),
      wb_sync = (\<lambda>_ _ w. (Inr None, w)),
      wb_close = (\<lambda>_ w. (Inr (), w))\<rparr>"

definition mnt_engine :: "CloudItem list \<Rightarrow> unit mount_world LinuxWritableEngine" where
  "mnt_engine children =
     \<lparr>we_readonly = \<lparr>ro_backend = mnt_backend children, ro_inodes = mnt_table,
                     ro_attributes = LinuxAttributePolicy_default\<rparr>,
      we_store = mnt_store, we_namespace_store = None, we_session_generation = SessionGeneration 1\<rparr>"

definition mnt_world :: "unit mount_world" where
  "mnt_world = (WritableState_default, ())"

definition mnt_opened :: "unit mount_world" where
  "mnt_opened =
     (WritableState_default\<lparr>lw_next := 2,
        lw_files := [(LinuxFileHandle 1,
          \<lparr>wf_inode = LinuxInode 2, wf_access = ReadWrite, wf_session = LinuxWriteSessionId ''session'',
           wf_size = 4, wf_generation = None\<rparr>)]\<rparr>, ())"

lemmas mnt_defs = mnt_key_def mnt_record_def mnt_root_def mnt_file_def mnt_table_def mnt_backend_def
  mnt_commit_def mnt_store_def mnt_engine_def mnt_world_def

lemma mnt_ports: "ports_step (mnt_engine children)"
  by (simp add: ports_step_def io_steps_def mnt_engine_def mnt_backend_def mnt_store_def mount.R_refl)

lemma mnt_table_built: "LinuxInodeTable_new (mnt_record ''root'' 1) [mnt_record ''a'' 2] = Inr mnt_table"
  by (simp add: LinuxInodeTable_new_def mnt_table_def mnt_record_def mnt_key_def LINUX_ROOT_INODE_def Let_def)

lemma mnt_activated: "activate_inner (mnt_engine [mnt_file ''a'']) [] w = Some (Inr (), mnt_world)"
  by (cases w) (simp add: activate_inner_def async_bind_def mnt_engine_def mnt_store_def mnt_world_def
      fresh_state_def restore_namespace_overlay_def io_bind_def LinuxNamespaceOverlay_default_def
      restore_remote_overlay_def restore_dirty_snapshots_def io_try_def)

lemma mnt_open:
  "writable_open_file (mnt_engine [mnt_file ''a'']) (LinuxInode 2) ReadWrite mnt_world
     = Some (Inr (LinuxFileHandle 1), mnt_opened)"
  by (simp add: writable_open_file_def async_bind_def mnt_defs mnt_opened_def WritableState_default_def overlay_node_def
      readonly_getattr_def load_item_for_overlay_def by_inode_def by_key_def LINUX_ROOT_INODE_def
      is_root_def node_from_item_def node_from_item_and_record_def validate_linux_name_def
      io_try_def hydrate_for_write_def hydrate_item_for_write_def ContentReadRequest_whole_def
      validate_response_def is_complete_file_def LinuxWriteSession_new_def validate_opened_session_def
      io_bind_def WritableState_allocate_def next_handle_def checked_add_def LinuxFileHandle_new_def Let_def)

section \<open>Properties\<close>

text \<open>
  A restored inode table is a bijection. Building it from a root record and further records
  succeeds exactly when the root has inode one, the others are of the root's scope with other
  inodes, and no key and no inode occurs twice. Then an inode finds the record with that inode,
  and a key the record with that key, when the further records leave the root's key to the root.
\<close>

theorem inode_table_bijective:
  assumes "ir_key root \<notin> ir_key ` set records"
  shows "((\<exists>t. LinuxInodeTable_new root records = Inr t) \<longleftrightarrow>
      ir_inode root = LINUX_ROOT_INODE
      \<and> (\<forall>r \<in> set records. key_scope (ir_key r) = key_scope (ir_key root) \<and> ir_inode r \<noteq> LINUX_ROOT_INODE)
      \<and> distinct (map ir_key records) \<and> distinct (map ir_inode records))
    \<and> (\<forall>t. LinuxInodeTable_new root records = Inr t \<longrightarrow>
      (\<forall>i r. by_inode t i = Some r \<longleftrightarrow> r \<in> set (root # records) \<and> ir_inode r = i)
      \<and> (\<forall>k r. by_key t k = Some r \<longleftrightarrow> r \<in> set (root # records) \<and> ir_key r = k))"
  using by_inode_exact [of root records] by_key_exact [OF _ assms] LinuxInodeTable_new_exact by blast

theorem inode_table_bijective_witness:
  "by_inode mnt_table (LinuxInode 2) = Some (mnt_record ''a'' 2)
   \<and> by_key mnt_table (mnt_key ''a'') = Some (mnt_record ''a'' 2)"
  using inode_table_bijective [of "mnt_record ''root'' 1" "[mnt_record ''a'' 2]"] mnt_table_built
  by (simp add: mnt_record_def mnt_key_def)

text \<open>
  The two-level index of parents and names refines a flat map from (parent, name) pairs.
  Insertion and removal return the old value and update the map at that pair alone, the children
  of a parent are listed once each with their values, and no operation leaves an empty inner map.
\<close>

theorem name_index_refines_map:
  assumes "index_wf x"
  shows "index_get (snd (index_insert k v x)) = (index_get x)(k \<mapsto> v)
    \<and> fst (index_insert k v x) = index_get x k \<and> index_wf (snd (index_insert k v x))
    \<and> index_get (snd (index_remove k x)) = (index_get x)(k := None)
    \<and> fst (index_remove k x) = index_get x k \<and> index_wf (snd (index_remove k x))
    \<and> map_of (index_children x p) = (\<lambda>n. index_get x (p, n)) \<and> distinct (map fst (index_children x p))"
  using assms pni.get_put [of k v x] pni.get_drop [of x k] pni.wf_put [of x k v] pni.wf_drop [of x k]
    pni.map_of_children [of x p] pni.children_distinct [of x p]
  by (simp add: index_put_def index_drop_def index_insert_returns index_remove_returns fun_eq_iff)

theorem name_index_refines_map_witness:
  "index_get (snd (index_insert (CloudItemId ''p'', ''n'') (7::nat) ParentNameIndex_default)) (CloudItemId ''p'', ''n'') = Some 7"
  using name_index_refines_map [OF index_wf_default, of "(CloudItemId ''p'', ''n'')" "7::nat"] by simp

text \<open>
  C10: In every mount that activation and any sequence of requests can reach, the open handles are
  distinct non-zero numbers below the next one, the generation a handle has written is not newer
  than the dirty snapshot of its inode, and the name indices are well-formed.
\<close>

theorem mount_invariant:
  assumes "ports_step e" and "mount_reachable e w"
  shows "distinct (map fst (lw_files (fst w)))
    \<and> (\<forall>h f. map_of (lw_files (fst w)) h = Some f \<longrightarrow>
         file_handle_get h \<noteq> 0 \<and> unat (file_handle_get h) < handle_bound (fst w)
         \<and> (\<forall>g. wf_generation f = Some g \<longrightarrow>
              (\<exists>s. lw_dirty_snapshots (fst w) (wf_inode f) = Some s \<and> g \<le> snap_generation s)))
    \<and> (\<forall>h. lw_directories (fst w) h \<noteq> None \<longrightarrow>
         directory_handle_get h \<noteq> 0 \<and> unat (directory_handle_get h) < handle_bound (fst w))
    \<and> overlays_wf (fst w)"
  using reachable_ok [OF assms(2,1)]
  by (simp add: mount_ok_def handles_ok_def handed_out_def generation_backed_def)

lemma mnt_reachable: "mount_reachable (mnt_engine [mnt_file ''a'']) mnt_world"
  by (rule activated [OF mnt_activated])

lemma mnt_opened_reachable: "mount_reachable (mnt_engine [mnt_file ''a'']) mnt_opened"
  by (rule called [OF mnt_reachable, of "OpenFileCall (LinuxInode 2) ReadWrite" "Inr ()"])
    (simp add: async_void_def async_bind_def mnt_open)

theorem mount_invariant_witness:
  "file_handle_get (LinuxFileHandle 1) \<noteq> 0 \<and> unat (1 :: u64) < handle_bound (fst mnt_opened)"
  using mount_invariant [OF mnt_ports mnt_opened_reachable] by (auto simp: mnt_opened_def handle_bound_def)

text \<open>
  C13: Whatever a request does and however it ends, the dirty snapshot of an inode stays or is
  replaced by one of a strictly newer generation, whichever requests run while it waits.
\<close>

theorem dirty_snapshots_only_advance:
  assumes "ports_step e" and "mount_calls e cs w = Some w'" and "lw_dirty_snapshots (fst w) i = Some s"
  shows "\<exists>s'. lw_dirty_snapshots (fst w') i = Some s' \<and> (s' = s \<or> snap_generation s < snap_generation s')"
  using mount_calls_step [OF assms(1,2)] assms(3) by (simp add: mount_step_def mount_le_def dirty_le_def)

definition mnt_dirty :: "unit mount_world" where
  "mnt_dirty = (WritableState_default\<lparr>lw_dirty_snapshots := [LinuxInode 2 \<mapsto> wc_snapshot (mnt_commit 1 9)]\<rparr>, ())"

theorem dirty_snapshots_only_advance_witness:
  "\<exists>w' s'. mount_calls (mnt_engine []) [ReleaseFileCall (LinuxFileHandle 3)] mnt_dirty = Some w'
    \<and> lw_dirty_snapshots (fst w') (LinuxInode 2) = Some s'"
proof -
  have "mount_calls (mnt_engine []) [ReleaseFileCall (LinuxFileHandle 3)] mnt_dirty = Some mnt_dirty"
    by (simp add: writable_release_file_def async_bind_def mnt_dirty_def WritableState_default_def)
  then show ?thesis
    using dirty_snapshots_only_advance [OF mnt_ports, of "[]" "[ReleaseFileCall (LinuxFileHandle 3)]" mnt_dirty
        mnt_dirty "LinuxInode 2"]
    by (simp add: mnt_dirty_def)
qed

text \<open>A call that opens or creates a file and hands out the handle \<open>h\<close>.\<close>

definition opens_handle ::
  "'w mount_world LinuxWritableEngine \<Rightarrow> 'w mount_world \<Rightarrow> LinuxFileHandle \<Rightarrow> 'w mount_world \<Rightarrow> bool" where
  "opens_handle e w h w' \<longleftrightarrow>
     (\<exists>inode access. writable_open_file e inode access w = Some (Inr h, w'))
     \<or> (\<exists>parent name mode umask access node.
          create_file e parent name mode umask access w = Some (Inr (node, h), w'))"

lemma opens_handle_number:
  assumes "ports_step e" and "opens_handle e w h w'"
  shows "handle_bound (fst w) \<le> unat (file_handle_get h) \<and> unat (file_handle_get h) < handle_bound (fst w')"
proof -
  have ports: "mount_ports e" by (simp add: mount_ports_def assms(1))
  from assms(2) consider (opened) inode access where "writable_open_file e inode access w = Some (Inr h, w')"
    | (created) parent name mode umask access node where
        "create_file e parent name mode umask access w = Some (Inr (node, h), w')"
    unfolding opens_handle_def by blast
  then show ?thesis
  proof cases
    case opened
    then show ?thesis
      using mount_ports.open_file_hands_out [OF ports, of inode access] unfolding hands_out_def by blast
  next
    case (created parent name mode umask access node)
    have "handle_bound (fst w) \<le> unat ((file_handle_get \<circ> snd) (node, h))
        \<and> unat ((file_handle_get \<circ> snd) (node, h)) < handle_bound (fst w')"
      using mount_ports.create_file_hands_out [OF ports, of parent name mode umask access] created
      unfolding hands_out_def by blast
    then show ?thesis by simp
  qed
qed

text \<open>
  C14: A file handle is never handed out again: the handle of a later open or create is a greater
  number than that of an earlier one, whatever requests run before, between and meanwhile.
\<close>

theorem handles_never_reused:
  assumes "ports_step e" and "opens_handle e w1 h1 w2" and "mount_calls e cs w2 = Some w3"
    and "opens_handle e w3 h2 w4"
  shows "file_handle_get h1 < file_handle_get h2"
proof -
  have "handle_bound (fst w2) \<le> handle_bound (fst w3)"
    using mount_calls_step [OF assms(1,3)] by (simp add: mount_step_def mount_le_def)
  with opens_handle_number [OF assms(1,2)] opens_handle_number [OF assms(1,4)] show ?thesis
    by (simp add: word_less_nat_alt)
qed

lemma mnt_open_again:
  "\<exists>w. writable_open_file (mnt_engine [mnt_file ''a'']) (LinuxInode 2) Read mnt_opened = Some (Inr (LinuxFileHandle 2), w)"
  by (simp add: writable_open_file_def async_bind_def mnt_defs mnt_opened_def WritableState_default_def overlay_node_def
      readonly_getattr_def load_item_for_overlay_def by_inode_def by_key_def LINUX_ROOT_INODE_def
      is_root_def node_from_item_def node_from_item_and_record_def validate_linux_name_def
      io_try_def hydrate_for_write_def hydrate_item_for_write_def ContentReadRequest_whole_def
      validate_response_def is_complete_file_def LinuxWriteSession_new_def validate_opened_session_def
      io_bind_def WritableState_allocate_def next_handle_def checked_add_def LinuxFileHandle_new_def Let_def)

theorem handles_never_reused_witness:
  "file_handle_get (LinuxFileHandle 1) < file_handle_get (LinuxFileHandle 2)"
proof -
  obtain w where "opens_handle (mnt_engine [mnt_file ''a'']) mnt_opened (LinuxFileHandle 2) w"
    using mnt_open_again by (auto simp: opens_handle_def)
  moreover have "opens_handle (mnt_engine [mnt_file ''a'']) mnt_world (LinuxFileHandle 1) mnt_opened"
    using mnt_open by (auto simp: opens_handle_def)
  ultimately show ?thesis
    by (intro handles_never_reused [OF mnt_ports, where cs = "[]"]) simp_all
qed

text \<open>
  C12: A write of at least one byte that reports its count passed exactly those bytes, at the
  requested offset, to the store session of a writable handle of that inode, and the commit the
  store answered is what it published: the inode's dirty snapshot is the commit's, of the inode's
  item, at least as long as the end of the written range and strictly newer than any snapshot from
  before the call, no other inode's snapshot is touched by the publication, and the handle carries
  the snapshot's size and generation. (An empty write returns 0 before it looks at the handle.)
\<close>

theorem accepted_write_is_recorded:
  assumes "ports_step e" and "writable_write_file e i h off bytes w = Some (Inr n, w')" and "bytes \<noteq> []"
  shows "unat n = length bytes
    \<and> (\<exists>f0 commit w1 f. map_of (lw_files (fst w)) h = Some f0 \<and> wf_inode f0 = i \<and> writable (wf_access f0)
        \<and> wb_write (we_store e) (wf_session f0) off bytes w = (Inr commit, w1)
        \<and> lw_dirty_snapshots (fst w') = (lw_dirty_snapshots (fst w1))(i \<mapsto> wc_snapshot commit) \<and> snd w' = snd w1
        \<and> map_of (lw_files (fst w')) h = Some f \<and> wf_inode f = i
        \<and> wf_size f = snap_size (wc_snapshot commit) \<and> wf_generation f = Some (snap_generation (wc_snapshot commit))
        \<and> item_key_of e (fst w') i = Inr (snap_item_key (wc_snapshot commit))
        \<and> unat off + length bytes \<le> unat (snap_size (wc_snapshot commit))
        \<and> (\<forall>s0. lw_dirty_snapshots (fst w) i = Some s0 \<longrightarrow>
              snap_generation s0 < snap_generation (wc_snapshot commit)))"
  using write_file_accepted [OF assms] by blast

lemma mnt_write:
  "\<exists>w. writable_write_file (mnt_engine [mnt_file ''a'']) (LinuxInode 2) (LinuxFileHandle 1) 3 [7, 8] mnt_opened
     = Some (Inr 2, w)"
  by (simp add: writable_write_file_def async_bind_def mnt_defs mnt_opened_def WritableState_default_def
      u32_try_from_def checked_add_def write_session_def writable_def io_try_def len_u64_def
      apply_commit_def item_key_of_def by_inode_def LINUX_ROOT_INODE_def is_some_and_def store_commit_def Let_def)

theorem accepted_write_is_recorded_witness:
  "\<exists>w. writable_write_file (mnt_engine [mnt_file ''a'']) (LinuxInode 2) (LinuxFileHandle 1) 3 [7, 8] mnt_opened
      = Some (Inr 2, w)
    \<and> lw_dirty_snapshots (fst w) (LinuxInode 2) = Some (wc_snapshot (mnt_commit 1 5))"
proof -
  obtain w where run: "writable_write_file (mnt_engine [mnt_file ''a'']) (LinuxInode 2) (LinuxFileHandle 1) 3 [7, 8]
      mnt_opened = Some (Inr 2, w)" using mnt_write by blast
  from accepted_write_is_recorded [OF mnt_ports run list.distinct(2)] obtain session commit w1 where
      "wb_write (we_store (mnt_engine [mnt_file ''a''])) session 3 [7, 8] mnt_opened = (Inr commit, w1)"
    and dirty: "lw_dirty_snapshots (fst w) = (lw_dirty_snapshots (fst w1))(LinuxInode 2 \<mapsto> wc_snapshot commit)"
    by blast
  then have "commit = mnt_commit 1 5" by (simp add: mnt_engine_def mnt_store_def len_u64_def)
  with run dirty show ?thesis by auto
qed

text \<open>
  C15: A successful read went through a readable handle of the inode. Inside the handle's logical
  size it returns what the store reads for the handle's session at exactly the requested offset and
  length, and at or past the size, or for no bytes, it returns nothing without asking the store;
  the answer is as long as the part of the requested extent inside the logical size. So when the
  store answers the session's reads from some content, the result is that extent of the content cut
  at the logical size. (The bytes are those of a Rust buffer, which has at most 2^63 - 1 of them.)
\<close>

theorem read_returns_exact_extent:
  assumes "writable_read_file e i h off n w = Some (Inr bytes, w')" and "allocatable bytes"
  shows "\<exists>f. map_of (lw_files (fst w)) h = Some f \<and> wf_inode f = i \<and> readable (wf_access f)
    \<and> (if n = 0 \<or> wf_size f \<le> off then bytes = [] \<and> w' = w
       else wb_read (we_store e) (wf_session f) off n w = (Inr bytes, w'))
    \<and> length bytes = min (unat n) (unat (wf_size f) - unat off)
    \<and> (\<forall>content.
        (\<forall>o' n' r w2. wb_read (we_store e) (wf_session f) o' n' w = (Inr r, w2) \<longrightarrow>
           r = take (unat n') (drop (unat o') content)) \<longrightarrow>
        bytes = take (unat n) (drop (unat off) (take (unat (wf_size f)) content)))"
proof (cases rule: read_file_exact [OF assms])
  case (1 f)
  have "bytes = take (unat n) (drop (unat off) (take (unat (wf_size f)) content))"
    if answers: "\<forall>o' n' r w2. wb_read (we_store e) (wf_session f) o' n' w = (Inr r, w2) \<longrightarrow>
      r = take (unat n') (drop (unat o') content)" for content
  proof (cases "n = 0 \<or> wf_size f \<le> off")
    case True
    with 1(4) show ?thesis by (auto simp: word_le_nat_alt)
  next
    case False
    with 1(4) answers have "bytes = take (unat n) (drop (unat off) content)" by auto
    with take_drop_extent [of "unat n" "unat off" content "unat (wf_size f)"] 1(5) show ?thesis by simp
  qed
  with 1 show ?thesis by blast
qed

theorem read_returns_exact_extent_witness:
  "\<exists>f. map_of (lw_files (fst mnt_opened)) (LinuxFileHandle 1) = Some f
    \<and> [3 :: u8, 4] = take (unat (10 :: u32)) (drop (unat (2 :: u64)) (take (unat (wf_size f)) [1, 2, 3, 4]))"
proof -
  have "writable_read_file (mnt_engine []) (LinuxInode 2) (LinuxFileHandle 1) 2 10 mnt_opened
      = Some (Inr [3, 4], mnt_opened)"
    by (simp add: writable_read_file_def async_bind_def mnt_defs mnt_opened_def WritableState_default_def
        readable_def io_try_def len_u64_def Let_def min_def word_le_nat_alt)
  from read_returns_exact_extent [OF this] obtain f where
      f: "map_of (lw_files (fst mnt_opened)) (LinuxFileHandle 1) = Some f"
    and extent: "\<forall>content.
        (\<forall>o' n' r w2. wb_read (we_store (mnt_engine [])) (wf_session f) o' n' mnt_opened = (Inr r, w2) \<longrightarrow>
           r = take (unat n') (drop (unat o') content)) \<longrightarrow>
        [3, 4] = take (unat (10 :: u32)) (drop (unat (2 :: u64)) (take (unat (wf_size f)) content))"
    by (auto simp: allocatable_def)
  from extent [THEN spec, of "[1, 2, 3, 4]"] f show ?thesis by (simp add: mnt_engine_def mnt_store_def)
qed

text \<open>
  C11: In a reachable state a directory snapshot lists every name once, and lists exactly the valid
  names that a lookup in that directory resolves, through every overlay. The conditions: opening
  the directory succeeded, its item loads and is a directory, the backend answers the same at every
  call, an overlay entry for the directory's inode has the item's key, and every child the backend
  lists has a restored inode record. Without the last a lookup of any backend name fails although
  the directory opens; \<open>unknown_child_blocks_lookup\<close> in \<open>Linux_Effects\<close> shows it.
\<close>

theorem directory_listing_agrees_with_lookup:
  assumes "ports_step e" and "mount_reachable e w"
    and "quiet_backend (we_readonly e)" and "LinuxInodeTable_new root records = Inr (inode_table e)"
    and "load_item_for_overlay (we_readonly e) inode w = Some (Inr p, w)" and "item_kind p = CloudItemKind.Directory"
    and "\<And>i r. overlay_item (fst w) inode = Some (i, r) \<Longrightarrow> item_key i = item_key p"
    and "\<And>children c. load_children_for_overlay (we_readonly e) (item_key p) w = Some (Inr children, w) \<Longrightarrow>
        c \<in> set children \<Longrightarrow> by_key (inode_table e) (item_key c) \<noteq> None"
    and "writable_open_directory e inode w = Some (Inr h, w')" and "validate_linux_name n = Inr ()"
  shows "\<exists>entries. map_option ds_entries (lw_directories (fst w') h) = Some entries
    \<and> distinct (map de_name entries)
    \<and> (n \<in> de_name ` set entries \<longleftrightarrow> (\<exists>node. writable_lookup e inode n w = Some (Inr node, w)))"
proof -
  have "overlays_wf (fst w)" using reachable_ok [OF assms(2,1)] by (simp add: mount_ok_def)
  show ?thesis
    by (rule listing_agrees [OF assms(3,4) \<open>overlays_wf (fst w)\<close> assms(5,6) _ _ assms(9,10)])
      (use assms(7,8) in blast)+
qed

lemma mnt_children:
  "load_children_for_overlay (we_readonly (mnt_engine [mnt_file ''a''])) (mnt_key ''root'') w = Some (Inr [mnt_file ''a''], w)"
  by (subst load_children_for_overlay_def, subst async_loop_def, subst io_loop.simps)
    (simp add: load_children_pass_def io_try_def mnt_engine_def mnt_backend_def next_scan_def ChildrenScan_start_def
      mnt_file_def mnt_key_def validate_linux_name_def)

lemma mnt_root_loaded:
  "load_item_for_overlay (we_readonly (mnt_engine [mnt_file ''a''])) (LinuxInode 1) w = Some (Inr mnt_root, w)"
  by (simp add: load_item_for_overlay_def async_bind_def by_inode_def LINUX_ROOT_INODE_def io_try_def is_root_def
      mnt_defs)

lemma mnt_fresh_overlays:
  "overlay_item WritableState_default i = None" "directory_overlay WritableState_default p = ({}, {}, [])"
  by (simp_all add: overlay_item_def directory_overlay_def index_children_def WritableState_default_def
      ParentNameIndex_default_def)

lemma mnt_entries:
  "\<exists>entries. backend_entries (mnt_engine [mnt_file ''a'']) WritableState_default [mnt_file ''a''] = Inr entries"
  by (simp add: backend_entries_def record_for_key_in_state_def WritableState_default_def by_key_def
      node_from_item_and_record_def is_root_def validate_linux_name_def mnt_defs)

lemma mnt_root_node:
  "\<exists>node. writable_getattr (mnt_engine [mnt_file ''a'']) (LinuxInode 1) None (WritableState_default, ())
      = Some (Inr node, (WritableState_default, ()))
    \<and> fa_kind (node_attributes node) = LinuxNodeKind.Directory"
  using mnt_root_loaded [of mnt_world]
  by (simp add: writable_getattr_def async_bind_def mnt_world_def WritableState_default_def inode_deleted_def
      by_inode_def LINUX_ROOT_INODE_def is_some_and_def overlay_node_def readonly_getattr_def node_from_item_def
      node_from_item_and_record_def by_key_def handle_size_def with_size_of_def mnt_engine_def mnt_table_def
      mnt_record_def mnt_root_def is_root_def)

lemma mnt_open_directory:
  "\<exists>w. writable_open_directory (mnt_engine [mnt_file ''a'']) (LinuxInode 1) mnt_world
     = Some (Inr (LinuxDirectoryHandle 1), w)"
proof -
  obtain node where node:
    "writable_getattr (mnt_engine [mnt_file ''a'']) (LinuxInode 1) None (WritableState_default, ())
      = Some (Inr node, (WritableState_default, ()))"
    "fa_kind (node_attributes node) = LinuxNodeKind.Directory" using mnt_root_node by blast
  obtain entries where entries:
    "backend_entries (mnt_engine [mnt_file ''a'']) WritableState_default [mnt_file ''a''] = Inr entries"
    using mnt_entries by blast
  have root: "item_key mnt_root = mnt_key ''root''" "item_parent_id mnt_root = None" by (simp_all add: mnt_root_def)
  have alloc: "\<exists>s. WritableState_allocate_directory WritableState_default = (Inr (LinuxDirectoryHandle 1), s)"
    by (simp add: WritableState_allocate_directory_def WritableState_default_def next_handle_def checked_add_def
        LinuxDirectoryHandle_new_def io_bind_def)
  show ?thesis
    using node entries alloc
    by (auto simp: writable_open_directory_def async_bind_def mnt_world_def mnt_fresh_overlays mnt_root_loaded
        mnt_children root io_bind_def)
qed

theorem directory_listing_agrees_with_lookup_witness:
  "\<exists>h w entries. writable_open_directory (mnt_engine [mnt_file ''a'']) (LinuxInode 1) mnt_world = Some (Inr h, w)
    \<and> map_option ds_entries (lw_directories (fst w) h) = Some entries \<and> distinct (map de_name entries)
    \<and> (''b'' \<in> de_name ` set entries \<longleftrightarrow>
        (\<exists>node. writable_lookup (mnt_engine [mnt_file ''a'']) (LinuxInode 1) ''b'' mnt_world
           = Some (Inr node, mnt_world)))"
proof -
  obtain w where opened: "writable_open_directory (mnt_engine [mnt_file ''a'']) (LinuxInode 1) mnt_world
      = Some (Inr (LinuxDirectoryHandle 1), w)" using mnt_open_directory by blast
  have quiet: "quiet_backend (we_readonly (mnt_engine [mnt_file ''a'']))"
    by (simp add: quiet_backend_def io_steps_def mnt_engine_def mnt_backend_def)
  have table: "LinuxInodeTable_new (mnt_record ''root'' 1) [mnt_record ''a'' 2] = Inr (inode_table (mnt_engine [mnt_file ''a'']))"
    using mnt_table_built by (simp add: mnt_engine_def)
  have known: "by_key (inode_table (mnt_engine [mnt_file ''a''])) (item_key (mnt_file ''a'')) \<noteq> None"
    by (simp add: mnt_defs by_key_def)
  have "item_kind mnt_root = CloudItemKind.Directory" and root: "item_key mnt_root = mnt_key ''root''"
    by (simp_all add: mnt_root_def)
  with directory_listing_agrees_with_lookup [OF mnt_ports mount_reachable.activated [OF mnt_activated] quiet table
      mnt_root_loaded _ _ _ opened, of "''b''"]
  show ?thesis
    using opened known by (fastforce simp: mnt_world_def mnt_fresh_overlays mnt_children validate_linux_name_def)
qed

section \<open>The mount as an instance of the interfaces\<close>

interpretation mnt: mount_ports "mnt_engine [mnt_file ''a'']"
  by unfold_locales (rule mnt_ports)

end
