(* ===== verification/Linux_Effects.thy ===== *)
theory Linux_Effects
  imports Linux_System
begin

text \<open>
  What the namespace mutations of the Linux adapter do to names: a removed, renamed or remotely
  changed name against the overlays, and the transitions that do not do what the documentation
  promises.
\<close>

section \<open>Names after a publication\<close>

text \<open>Publishing changes the overlays through these fields only.\<close>

lemma named_namespace_upd [simp]:
  "named_namespace (drop_tombstones k s) = named_namespace s"
  "named_created (drop_tombstones k s) = named_created s"
  "named_remote (drop_tombstones k s) = named_remote s"
  by (simp_all add: fun_eq_iff named_namespace_def named_created_def named_remote_def drop_tombstones_def)

definition removed_inode :: "LinuxRemoveRequest \<Rightarrow> WritableState \<Rightarrow> LinuxInode option" where
  "removed_inode request s =
     (case lw_namespace_by_key s (rm_key request) of
        Some i \<Rightarrow> Some i | None \<Rightarrow> lw_created_by_key s (rm_key request))"

lemma publish_remove_fields:
  assumes "s' = publish_remove request t s" and "k = name_at (rm_parent_key request) (rm_name request)"
  shows "named_remote s' = named_remote s"
    and "named_namespace s' k = None" and "named_created s' k = None"
    and "index_get (lw_tombstones_by_name s') = (index_get (lw_tombstones_by_name s))(k \<mapsto> t)"
    and "lw_remote_tombstones_by_name s' = lw_remote_tombstones_by_name s"
    and "lw_deleted_keys s' = insert (rm_key request) (lw_deleted_keys s)"
    and "m \<noteq> k \<Longrightarrow> named_created s' m = named_created s m"
    and "m \<noteq> k \<Longrightarrow> named_namespace s' m =
      (if removed_inode request s \<noteq> None \<and> index_get (lw_namespace_by_name s) m = removed_inode request s
       then None else named_namespace s m)"
  unfolding assms removed_inode_def
  by (auto simp: fun_eq_iff publish_remove_def named_remote_def named_namespace_def named_created_def Let_def
      index_get_drop index_get_put bind_eq_Some_conv split: option.splits Option.bind_splits)

lemma accept_remove_Inr:
  "accept_remove request t s = (Inr (), s') \<longleftrightarrow>
     validate_remove_acceptance request t = Inr () \<and> s' = publish_remove request t s"
  by (auto simp: accept_remove_def split: sum.splits)

lemma removed_name:
  assumes "accept_remove request t s = (Inr (), s')" and "k = name_at (rm_parent_key request) (rm_name request)"
  shows "overlay_named s' k = map_option (\<lambda>x. (re_item x, re_inode_record x)) (named_remote s k)"
    and "name_tombstoned s' k" and "lw_deleted_keys s' = insert (rm_key request) (lw_deleted_keys s)"
    and "m \<noteq> k \<Longrightarrow> name_tombstoned s' m = name_tombstoned s m"
    and "m \<noteq> k \<Longrightarrow>
      removed_inode request s = None \<or> index_get (lw_namespace_by_name s) m \<noteq> removed_inode request s \<Longrightarrow>
      overlay_named s' m = overlay_named s m"
proof -
  have s': "s' = publish_remove request t s" using assms(1) by (simp add: accept_remove_Inr)
  note fields = publish_remove_fields [OF s' assms(2)]
  show "overlay_named s' k = map_option (\<lambda>x. (re_item x, re_inode_record x)) (named_remote s k)"
    by (simp add: overlay_named_def fields(1,2,3))
  show "name_tombstoned s' k" and "m \<noteq> k \<Longrightarrow> name_tombstoned s' m = name_tombstoned s m"
    by (simp_all add: name_tombstoned_def index_contains_key_def fields(4,5))
  show "lw_deleted_keys s' = insert (rm_key request) (lw_deleted_keys s)" by (rule fields(6))
  show "overlay_named s' m = overlay_named s m" if "m \<noteq> k"
      "removed_inode request s = None \<or> index_get (lw_namespace_by_name s) m \<noteq> removed_inode request s"
    using that fields(1) fields(7,8) [of m] by (auto simp: overlay_named_def cong: option.case_cong)
qed

text \<open>A name that no overlay entry has and that is tombstoned does not resolve.\<close>

lemma hidden_name_unresolved:
  assumes "validate_linux_name n = Inr ()" and "writable_getattr e parent None w = Some (Inr node, w)"
    and "fa_kind (node_attributes node) = LinuxNodeKind.Directory"
    and "overlay_named (fst w) (name_at (node_key node) n) = None"
    and "name_tombstoned (fst w) (name_at (node_key node) n)"
  shows "writable_lookup e parent n w = Some (Inl (UnknownInode (inode_get parent)), w)"
proof -
  obtain s w0 where w: "w = (s, w0)" by fastforce
  show ?thesis
    using assms by (auto simp: writable_lookup_def async_bind_def w overlay_node_named Let_def async_fail_def)
qed

section \<open>Renames\<close>

lemma accept_rename_Inr:
  "accept_rename e request acceptance s = (Inr (), s') \<longleftrightarrow>
     validate_rename_acceptance e request (ra_item acceptance) (ra_source acceptance) (ra_replaced acceptance) = Inr ()
     \<and> ensure_namespace_item_is_unique e s (ra_item acceptance)
         (name_at (rr_new_parent_key request) (rr_new_name request)) (Some (rr_key request)) = Inr ()
     \<and> s' = publish_rename e request acceptance s"
  by (auto simp: accept_rename_def res_bind_eq_Inr split: sum.splits)

lemma drop_replaced_fields:
  "lw_namespace_by_name (drop_replaced e replaced s) = lw_namespace_by_name s"
  "lw_remote_by_name (drop_replaced e replaced s) = lw_remote_by_name s"
  "lw_remote_by_inode (drop_replaced e replaced s) = lw_remote_by_inode s"
  "lw_created_by_inode (drop_replaced e replaced s) = lw_created_by_inode s"
  "lw_remote_tombstones_by_name (drop_replaced e replaced s) = lw_remote_tombstones_by_name s"
  "index_get (lw_created_by_name (drop_replaced e replaced s)) m =
     (if m = name_at (nt_parent_key replaced) (nt_name replaced)
         \<and> (lw_namespace_by_key s (nt_key replaced) \<noteq> None \<or> lw_created_by_key s (nt_key replaced) \<noteq> None
            \<or> by_key (inode_table e) (nt_key replaced) \<noteq> None)
      then None else index_get (lw_created_by_name s) m)"
  "lw_tombstones_by_name (drop_replaced e replaced s) =
     index_put (name_at (nt_parent_key replaced) (nt_name replaced)) replaced (lw_tombstones_by_name s)"
  by (auto simp: drop_replaced_def Let_def index_get_drop split: option.split prod.split)

lemma publish_rename_named:
  assumes "s' = publish_rename e request acceptance s"
    and "old = name_at (rr_old_parent_key request) (rr_old_name request)"
    and "new = name_at (rr_new_parent_key request) (rr_new_name request)"
    and "old \<noteq> new"
    and "\<And>replaced. ra_replaced acceptance = Some replaced \<Longrightarrow> name_at (nt_parent_key replaced) (nt_name replaced) = new"
  shows "named_namespace s' new = Some (ra_item acceptance)"
    and "named_namespace s' old = None" and "named_created s' old = None"
    and "named_remote s' = named_remote s"
    and "\<not> name_tombstoned s' new"
    and "index_get (lw_tombstones_by_name s') old = Some (ra_source acceptance)"
  using assms(4,5) unfolding assms(1,2,3)
  by (auto simp: publish_rename_def Let_def insert_namespace_item_def drop_tombstones_def
      named_namespace_def named_created_def named_remote_def name_tombstoned_def index_contains_key_def
      drop_replaced_fields index_get_drop index_get_put fun_eq_iff split: option.splits)

lemma replaced_name:
  assumes "validate_rename_acceptance e request item source (Some replaced) = Inr ()"
  shows "nt_parent_key replaced = rr_new_parent_key request \<and> nt_name replaced = rr_new_name request"
  using assms by (auto simp: validate_rename_acceptance_def res_bind_eq_Inr Let_def
      split: DesiredMutation.splits if_splits option.splits)

lemma renamed_name:
  assumes "accept_rename e request acceptance s = (Inr (), s')"
    and "old = name_at (rr_old_parent_key request) (rr_old_name request)"
    and "new = name_at (rr_new_parent_key request) (rr_new_name request)" and "old \<noteq> new"
  shows "overlay_named s' new = Some (ni_item (ra_item acceptance), ni_inode_record (ra_item acceptance))"
    and "\<not> name_tombstoned s' new"
    and "overlay_named s' old = map_option (\<lambda>x. (re_item x, re_inode_record x)) (named_remote s old)"
    and "name_tombstoned s' old"
proof -
  have s': "s' = publish_rename e request acceptance s"
    and valid: "validate_rename_acceptance e request (ra_item acceptance) (ra_source acceptance)
      (ra_replaced acceptance) = Inr ()"
    using assms(1) by (simp_all add: accept_rename_Inr)
  have "name_at (nt_parent_key replaced) (nt_name replaced) = new" if "ra_replaced acceptance = Some replaced" for replaced
    using replaced_name [of e request "ra_item acceptance" "ra_source acceptance" replaced] valid that
    by (simp add: assms(3))
  note fields = publish_rename_named [OF s' assms(2,3,4) this]
  show "overlay_named s' new = Some (ni_item (ra_item acceptance), ni_inode_record (ra_item acceptance))"
    by (simp add: overlay_named_def fields(1))
  show "\<not> name_tombstoned s' new" by (rule fields(5))
  show "overlay_named s' old = map_option (\<lambda>x. (re_item x, re_inode_record x)) (named_remote s old)"
    by (simp add: overlay_named_def fields(2,3,4))
  show "name_tombstoned s' old" by (simp add: name_tombstoned_def index_contains_key_def fields(6))
qed

section \<open>Remote changes\<close>

















section \<open>Properties\<close>

text \<open>
  C18: After an accepted remove the name has no local entry and is tombstoned, and the item's key
  is deleted; what still resolves there is the remote overlay's entry and nothing else. Every other
  name is tombstoned exactly if it was, and has the overlay entry it had, unless the namespace
  index gave it the very inode that was removed; when the removed item had no local entry (a plain
  item of the backend) that is every other name.
\<close>

theorem remove_hides_local_name:
  assumes "accept_remove request t s = (Inr (), s')" and "k = name_at (rm_parent_key request) (rm_name request)"
  shows "overlay_named s' k = map_option (\<lambda>x. (re_item x, re_inode_record x)) (named_remote s k)
    \<and> name_tombstoned s' k \<and> lw_deleted_keys s' = insert (rm_key request) (lw_deleted_keys s)
    \<and> (\<forall>m. m \<noteq> k \<longrightarrow> name_tombstoned s' m = name_tombstoned s m)
    \<and> (\<forall>m. m \<noteq> k \<longrightarrow>
        removed_inode request s = None \<or> index_get (lw_namespace_by_name s) m \<noteq> removed_inode request s \<longrightarrow>
        overlay_named s' m = overlay_named s m)"
  using removed_name [OF assms] by blast

definition mnt_intent :: "DesiredMutation \<Rightarrow> MutationIntent" where
  "mnt_intent desired =
     MutationIntent_new (OperationId ''op'') (IdempotencyKey ''once'') PlatformCommand (SessionGeneration 1) desired
       \<lparr>pre_metadata_revision = None, pre_content_revision = None\<rparr>"

definition mnt_tombstone :: "string \<Rightarrow> DesiredMutation \<Rightarrow> LinuxNamespaceTombstone" where
  "mnt_tombstone n desired =
     \<lparr>nt_key = mnt_key n, nt_inode_generation = LinuxInodeGeneration 1, nt_parent_key = mnt_key ''root'',
      nt_name = n, nt_kind = LinuxNodeKind.File, nt_mutation_intent = mnt_intent desired\<rparr>"

definition mnt_remove :: LinuxRemoveRequest where
  "mnt_remove =
     \<lparr>rm_key = mnt_key ''a'', rm_inode_generation = LinuxInodeGeneration 1, rm_parent_key = mnt_key ''root'',
      rm_name = ''a'', rm_kind = LinuxNodeKind.File, rm_session_generation = SessionGeneration 1\<rparr>"

definition mnt_rename :: LinuxRenameRequest where
  "mnt_rename =
     \<lparr>rr_key = mnt_key ''a'', rr_inode_generation = LinuxInodeGeneration 1, rr_kind = LinuxNodeKind.File,
      rr_old_parent_key = mnt_key ''root'', rr_old_name = ''a'', rr_new_parent_key = mnt_key ''root'',
      rr_new_name = ''b'', rr_destination = None, rr_no_replace = True,
      rr_session_generation = SessionGeneration 1\<rparr>"

definition mnt_renamed :: LinuxRenameAcceptance where
  "mnt_renamed =
     (let desired = ModifyMetadata (mnt_key ''a'') (Some (CloudItemId ''root'')) (Some ''b'') in
      \<lparr>ra_item = \<lparr>ni_item = (mnt_file ''a'')\<lparr>item_name := ''b''\<rparr>, ni_inode_record = mnt_record ''a'' 2,
                  ni_mutation_intent = mnt_intent desired\<rparr>,
       ra_source = mnt_tombstone ''a'' desired, ra_replaced = None\<rparr>)"

definition mnt_entry :: LinuxRemoteEntry where
  "mnt_entry = \<lparr>re_item = mnt_file ''b'', re_inode_record = mnt_record ''b'' 3\<rparr>"

lemmas mnt_mutation_defs = mnt_intent_def MutationIntent_new_def mnt_tombstone_def mnt_remove_def mnt_rename_def
  mnt_renamed_def mnt_entry_def

text \<open>A state in which a remote change brought the file \<open>b\<close>; the file \<open>a\<close> is an item of the backend.\<close>

definition mnt_changed :: WritableState where
  "mnt_changed = upsert_publish mnt_entry None None (CloudItemId ''root'') WritableState_default"

lemma index_get_fresh: "index_get ParentNameIndex_default k = None"
  by (simp add: index_get_def ParentNameIndex_default_def)

lemma mnt_changed_names:
  "named_remote mnt_changed = [(CloudItemId ''root'', ''b'') \<mapsto> mnt_entry]"
  "named_namespace mnt_changed k = None" "named_created mnt_changed k = None" "\<not> name_tombstoned mnt_changed k"
  "removed_inode request mnt_changed = None"
  by (auto simp: fun_eq_iff mnt_changed_def upsert_publish_def mnt_entry_def mnt_file_def mnt_record_def mnt_key_def
      named_remote_def named_namespace_def named_created_def name_tombstoned_def removed_inode_def
      index_contains_key_def index_get_put index_get_drop index_get_fresh WritableState_default_def Let_def)

theorem remove_hides_local_name_witness:
  "\<exists>s'. accept_remove mnt_remove (mnt_tombstone ''a'' (DesiredMutation.Delete (mnt_key ''a''))) mnt_changed
      = (Inr (), s')
    \<and> overlay_named s' (CloudItemId ''root'', ''a'') = None \<and> name_tombstoned s' (CloudItemId ''root'', ''a'')
    \<and> overlay_named s' (CloudItemId ''root'', ''b'') = Some (mnt_file ''b'', mnt_record ''b'' 3)
    \<and> \<not> name_tombstoned s' (CloudItemId ''root'', ''b'')"
proof -
  let ?t = "mnt_tombstone ''a'' (DesiredMutation.Delete (mnt_key ''a''))"
  have run: "accept_remove mnt_remove ?t mnt_changed = (Inr (), publish_remove mnt_remove ?t mnt_changed)"
    by (simp add: accept_remove_def validate_remove_acceptance_def mnt_mutation_defs)
  have b: "overlay_named mnt_changed (CloudItemId ''root'', ''b'') = Some (mnt_file ''b'', mnt_record ''b'' 3)"
    by (simp add: overlay_named_def mnt_changed_names mnt_entry_def)
  show ?thesis
    using run b remove_hides_local_name [OF run refl] by (simp add: mnt_changed_names mnt_remove_def mnt_key_def)
qed

text \<open>
  C17: After an accepted rename the new name resolves to the accepted item and carries no
  tombstone, while the old name has no local entry and is tombstoned.
\<close>

theorem rename_moves_name:
  assumes "accept_rename e request acceptance s = (Inr (), s')"
    and "old = name_at (rr_old_parent_key request) (rr_old_name request)"
    and "new = name_at (rr_new_parent_key request) (rr_new_name request)" and "old \<noteq> new"
  shows "overlay_named s' new = Some (ni_item (ra_item acceptance), ni_inode_record (ra_item acceptance))
    \<and> \<not> name_tombstoned s' new
    \<and> overlay_named s' old = map_option (\<lambda>x. (re_item x, re_inode_record x)) (named_remote s old)
    \<and> name_tombstoned s' old"
  using renamed_name [OF assms] by blast

lemma mnt_renames:
  "accept_rename (mnt_engine [mnt_file ''a'']) mnt_rename mnt_renamed WritableState_default
     = (Inr (), publish_rename (mnt_engine [mnt_file ''a'']) mnt_rename mnt_renamed WritableState_default)"
  by (simp add: accept_rename_def validate_rename_acceptance_def validate_namespace_item_def
      ensure_namespace_item_is_unique_def is_some_and_def mnt_mutation_defs mnt_defs WritableState_default_def
      by_key_def by_inode_def validate_for_persistence_def res_map_err_def is_root_def LINUX_ROOT_INODE_def
      validate_linux_name_def index_get_def ParentNameIndex_default_def Let_def)

theorem rename_moves_name_witness:
  "\<exists>s'. accept_rename (mnt_engine [mnt_file ''a'']) mnt_rename mnt_renamed WritableState_default = (Inr (), s')
    \<and> overlay_named s' (CloudItemId ''root'', ''b'')
        = Some ((mnt_file ''a'')\<lparr>item_name := ''b''\<rparr>, mnt_record ''a'' 2)
    \<and> name_tombstoned s' (CloudItemId ''root'', ''a'')"
  using mnt_renames rename_moves_name [OF mnt_renames refl refl]
  by (simp add: mnt_rename_def mnt_renamed_def mnt_key_def Let_def)




section \<open>Where the code departs from its documentation\<close>

text \<open>Neither a removal nor a rename takes a remote overlay entry out of the old name.\<close>

lemma removed_remote_entry_resolves:
  assumes "accept_remove request t s = (Inr (), s')"
    and "named_remote s (name_at (rm_parent_key request) (rm_name request)) = Some entry"
  shows "overlay_named s' (name_at (rm_parent_key request) (rm_name request))
    = Some (re_item entry, re_inode_record entry)"
  using removed_name(1) [OF assms(1) refl] assms(2) by simp

lemma renamed_remote_entry_resolves:
  assumes "accept_rename e request acceptance s = (Inr (), s')"
    and "name_at (rr_old_parent_key request) (rr_old_name request)
      \<noteq> name_at (rr_new_parent_key request) (rr_new_name request)"
    and "named_remote s (name_at (rr_old_parent_key request) (rr_old_name request)) = Some entry"
  shows "overlay_named s' (name_at (rr_old_parent_key request) (rr_old_name request))
    = Some (re_item entry, re_inode_record entry)"
  using renamed_name(3) [OF assms(1) refl refl assms(2)] assms(3) by simp

text \<open>A rename cannot replace an entry that was created or renamed locally.\<close>

lemma rename_onto_local_entry_refused:
  assumes "index_get (lw_created_by_name s) (name_at (rr_new_parent_key request) (rr_new_name request)) = Some i"
    and "index_get (lw_namespace_by_name s) (name_at (rr_new_parent_key request) (rr_new_name request)) \<in> {None, Some i}"
    and "i \<noteq> ir_inode (ni_inode_record (ra_item acceptance))"
  shows "\<exists>error. accept_rename e request acceptance s = (Inl error, s)"
proof -
  have "ensure_namespace_item_is_unique e s (ra_item acceptance)
      (name_at (rr_new_parent_key request) (rr_new_name request)) (Some (rr_key request)) \<noteq> Inr ()"
    using assms by (auto simp: ensure_namespace_item_is_unique_def is_some_and_def Let_def)
  then show ?thesis by (auto simp: accept_rename_def res_bind_eq_Inr split: sum.split)
qed

text \<open>An accepted rename of an item that has a restored inode record cannot be restored.\<close>

lemma restored_rename_refused:
  assumes "item \<in> set (no_items overlay)" and "by_key (inode_table e) (item_key (ni_item item)) \<noteq> None"
  shows "restore_namespace_overlay e overlay s \<noteq> (Inr (), s')"
proof
  assume "restore_namespace_overlay e overlay s = (Inr (), s')"
  then obtain s1 where "io_each (restore_namespace_item e) (no_items overlay) s = (Inr (), s1)"
    by (auto simp: restore_namespace_overlay_def io_bind_eq_Inr)
  moreover have "io_each (restore_namespace_item e) items s \<noteq> (Inr (), s1)" if "item \<in> set items" for items s s1
    using that
  proof (induction items arbitrary: s)
    case (Cons x items)
    have "restore_namespace_item e item s \<noteq> (Inr (), s2)" for s s2
      using assms(2) by (auto simp: restore_namespace_item_def ensure_namespace_item_is_unique_def is_some_and_def
          res_bind_eq_Inr Let_def split: sum.splits)
    with Cons show ?case by (auto simp: io_bind_eq_Inr)
  qed simp
  ultimately show False using assms(1) by blast
qed

text \<open>A backend child without an inode record makes every lookup in its directory fail.\<close>

lemma unknown_child_blocks_lookup:
  assumes "load_item_for_overlay ro parent w = Some (Inr p, w)" and "item_kind p = CloudItemKind.Directory"
    and "load_children_for_overlay ro (item_key p) w = Some (Inr children, w)"
    and "c \<in> set children" and "by_key (ro_inodes ro) (item_key c) = None"
    and "validate_linux_name n = Inr ()"
  shows "readonly_lookup ro parent n w = Some (Inl MissingInodeRecord, w)"
proof -
  have "load_children ro (item_key p) w = Some (Inl MissingInodeRecord, w)"
    using assms(3,4,5) by (auto simp: load_children_def async_bind_def list_ex_iff async_fail_def)
  with assms(1,2,6) show ?thesis by (simp add: readonly_lookup_def async_bind_def)
qed

end
