(* ===== verification/Hydration.thy ===== *)
theory Hydration
  imports Capabilities Content_Read "HOL-Library.AList" "HOL-Library.Product_Lexorder"
begin

text \<open>
  Shared hydration reads (\<open>core/src/hydration.rs\<close>): the coordinator deduplicates
  revision-bound backend reads between waiters, starts backend work only for the gaps no
  running read covers, and releases a read with its last waiter.

  Hash maps are association lists with distinct keys and the \<open>BTreeSet\<close> of a content key is a
  strictly sorted list. A shared future is represented by the request it sends: it is polled to
  one result, which the model gets from the parameter \<open>answers\<close>, the backend's answer for a
  work id and a request. Every call that takes the coordinator's lock or wins the terminal race
  is one step.
\<close>

section \<open>Requests and limits\<close>

datatype HydrationError =
    Cancelled
  | Backend CloudBackendError
  | Contract CloudFilesCoreError
  | InFlightLimitExceeded string

record HydrationLimits =
  max_in_flight_work :: usize
  max_in_flight_per_content :: usize

definition HydrationLimits_DEFAULT :: HydrationLimits where
  "HydrationLimits_DEFAULT = \<lparr>max_in_flight_work = 1024, max_in_flight_per_content = 128\<rparr>"

record HydrationRequest =
  hr_read :: ContentReadRequest
  hr_alignment :: Alignment
  hr_session_generation :: SessionGeneration

definition HydrationRequest_whole ::
  "CloudItemKey \<Rightarrow> ContentRevision \<Rightarrow> u64 \<Rightarrow> SessionGeneration \<Rightarrow> HydrationRequest" where
  "HydrationRequest_whole key revision expected_size generation =
     \<lparr>hr_read = ContentReadRequest_whole key revision expected_size,
      hr_alignment = Alignment_ONE, hr_session_generation = generation\<rparr>"

definition HydrationRequest_range ::
  "CloudItemKey \<Rightarrow> ContentRevision \<Rightarrow> u64 \<Rightarrow> ByteRange \<Rightarrow> Alignment \<Rightarrow> SessionGeneration
   \<Rightarrow> HydrationRequest" where
  "HydrationRequest_range key revision expected_size r alignment generation =
     \<lparr>hr_read = ContentReadRequest_range key revision expected_size r,
      hr_alignment = alignment, hr_session_generation = generation\<rparr>"

record HydrationContentKey =
  hk_key :: CloudItemKey
  hk_revision :: ContentRevision
  hk_expected_size :: u64
  hk_session_generation :: SessionGeneration
  hk_alignment :: Alignment

definition from_request :: "HydrationRequest \<Rightarrow> HydrationContentKey" where
  "from_request request =
     \<lparr>hk_key = read_key (hr_read request), hk_revision = read_revision (hr_read request),
      hk_expected_size = read_expected_size (hr_read request),
      hk_session_generation = hr_session_generation request,
      hk_alignment = hr_alignment request\<rparr>"

definition logical_extent :: "ContentReadRequest \<Rightarrow> HydrationError + u64 \<times> u64" where
  "logical_extent request =
     (case read_range request of
        Whole \<Rightarrow> Inr (0, read_expected_size request)
      | Range r \<Rightarrow>
          if range_offset r > read_expected_size request
          then Inl (Backend (CloudBackendError_new InvalidRequest))
          else Inr (range_offset r, min (end_exclusive r) (read_expected_size request)))"

definition aligned_extent ::
  "u64 \<Rightarrow> u64 \<Rightarrow> u64 \<Rightarrow> Alignment \<Rightarrow> HydrationError + u64 \<times> u64" where
  "aligned_extent start end' total_size al =
     (let alignment = alignment_get al;
          aligned_start = start div alignment * alignment
      in if end' = total_size then Inr (aligned_start, total_size)
         else
           let remainder = end' mod alignment in
           res_bind
             (if remainder = 0 then Inr end'
              else ok_or (Contract (InvalidByteRange ''aligned hydration range exceeds u64''))
                     (checked_add end' (alignment - remainder)))
             (\<lambda>aligned_end. Inr (aligned_start, min aligned_end total_size)))"

definition ranges_overlap :: "u64 \<Rightarrow> u64 \<Rightarrow> u64 \<Rightarrow> u64 \<Rightarrow> bool" where
  "ranges_overlap left_start left_end right_start right_end \<longleftrightarrow>
     left_start < right_end \<and> right_start < left_end"

section \<open>The coordinator\<close>

record WorkDependency =
  dep_id :: u64
  dep_start :: u64
  dep_end :: u64
  dep_future :: ContentReadRequest

record WorkEntry =
  work_content :: HydrationContentKey
  work_start :: u64
  work_end :: u64
  work_whole :: bool
  work_future :: ContentReadRequest
  work_waiter_count :: usize

record CoordinatorState =
  next_work_id :: u64
  work :: "(u64 \<times> WorkEntry) list"
  by_content :: "(HydrationContentKey \<times> (u64 \<times> u64 \<times> u64) list) list"

definition CoordinatorState_default :: CoordinatorState where
  "CoordinatorState_default = \<lparr>next_work_id = 0, work = [], by_content = []\<rparr>"

definition content_index ::
  "CoordinatorState \<Rightarrow> HydrationContentKey \<Rightarrow> (u64 \<times> u64 \<times> u64) list" where
  "content_index state content =
     (case map_of (by_content state) content of None \<Rightarrow> [] | Some entries \<Rightarrow> entries)"

definition ensure_capacity ::
  "CoordinatorState \<Rightarrow> HydrationContentKey \<Rightarrow> usize \<Rightarrow> HydrationLimits \<Rightarrow> HydrationError + unit"
  where
  "ensure_capacity state content additional limits =
     (if max_in_flight_work limits = 0
         \<or> usize_saturating_add (length (work state)) additional > max_in_flight_work limits
      then Inl (InFlightLimitExceeded ''global'')
      else
        let per_content = length (content_index state content) in
        if max_in_flight_per_content limits = 0
           \<or> usize_saturating_add per_content additional > max_in_flight_per_content limits
        then Inl (InFlightLimitExceeded ''content'')
        else Inr ())"

definition insert_work ::
  "HydrationContentKey \<Rightarrow> ContentReadRequest \<Rightarrow> u64 \<Rightarrow> u64 \<Rightarrow> bool
   \<Rightarrow> (CoordinatorState, HydrationError, WorkDependency) io" where
  "insert_work content request start end' whole state =
     (let wid = next_work_id state in
      case checked_add wid 1 of
        None \<Rightarrow>
          (Inl (Contract (InvalidContentResponse ''hydration work identity exhausted'')), state)
      | Some next \<Rightarrow>
          (Inr \<lparr>dep_id = wid, dep_start = start, dep_end = end', dep_future = request\<rparr>,
           state\<lparr>next_work_id := next,
                 work := AList.update wid
                   \<lparr>work_content = content, work_start = start, work_end = end',
                    work_whole = whole, work_future = request, work_waiter_count = 0\<rparr>
                   (work state),
                 by_content := AList.update content
                   (insort_insert (start, end', wid) (content_index state content))
                   (by_content state)\<rparr>))"

definition insert_range_work ::
  "HydrationContentKey \<Rightarrow> ContentReadRequest \<Rightarrow> u64 \<Rightarrow> u64
   \<Rightarrow> (CoordinatorState, HydrationError, WorkDependency) io" where
  "insert_range_work content original_request start end' =
     io_bind (io_lift (res_map_err Contract (ByteRange_new start (saturating_sub end' start))))
       (\<lambda>r. insert_work content
          (ContentReadRequest_range (read_key original_request) (read_revision original_request)
             (read_expected_size original_request) r)
          start end' False)"

definition add_waiter :: "u64 \<Rightarrow> CoordinatorState \<Rightarrow> CoordinatorState" where
  "add_waiter wid state =
     state\<lparr>work := AList.map_entry wid
       (\<lambda>entry. entry\<lparr>work_waiter_count := usize_saturating_add (work_waiter_count entry) 1\<rparr>)
       (work state)\<rparr>"

definition first_waiter :: "u64 \<Rightarrow> CoordinatorState \<Rightarrow> CoordinatorState" where
  "first_waiter wid state =
     state\<lparr>work := AList.map_entry wid (\<lambda>entry. entry\<lparr>work_waiter_count := 1\<rparr>) (work state)\<rparr>"

definition dependency_of :: "u64 \<Rightarrow> WorkEntry \<Rightarrow> WorkDependency" where
  "dependency_of wid entry =
     \<lparr>dep_id = wid, dep_start = work_start entry, dep_end = work_end entry,
      dep_future = work_future entry\<rparr>"

text \<open>
  Shared by \<open>register_whole\<close> and \<open>register_empty_range\<close>: join a running work item that
  \<open>matches\<close>, or start one.
\<close>

definition join_or_insert ::
  "(WorkEntry \<Rightarrow> bool) \<Rightarrow> HydrationLimits \<Rightarrow> HydrationContentKey \<Rightarrow> ContentReadRequest \<Rightarrow> u64 \<Rightarrow> u64
   \<Rightarrow> bool \<Rightarrow> (CoordinatorState, HydrationError, WorkDependency list) io" where
  "join_or_insert matches limits content request start end' whole state =
     (case find (\<lambda>(wid, entry). matches entry) (work state) of
        Some (wid, entry) \<Rightarrow> (Inr [dependency_of wid entry], add_waiter wid state)
      | None \<Rightarrow>
          (case ensure_capacity state content 1 limits of
             Inl e \<Rightarrow> (Inl e, state)
           | Inr _ \<Rightarrow>
               (case insert_work content request start end' whole state of
                  (Inl e, state') \<Rightarrow> (Inl e, state')
                | (Inr dependency, state') \<Rightarrow>
                    (Inr [dependency], first_waiter (dep_id dependency) state'))))"

definition register_whole ::
  "HydrationLimits \<Rightarrow> HydrationContentKey \<Rightarrow> ContentReadRequest
   \<Rightarrow> (CoordinatorState, HydrationError, WorkDependency list) io" where
  "register_whole limits content request =
     join_or_insert (\<lambda>entry. work_content entry = content \<and> work_whole entry)
       limits content request 0 (hk_expected_size content) True"

definition register_empty_range ::
  "HydrationLimits \<Rightarrow> HydrationContentKey \<Rightarrow> ContentReadRequest \<Rightarrow> u64
   \<Rightarrow> (CoordinatorState, HydrationError, WorkDependency list) io" where
  "register_empty_range limits content request off =
     join_or_insert
       (\<lambda>entry. work_content entry = content \<and> \<not> work_whole entry
          \<and> work_start entry = off \<and> work_end entry = off)
       limits content request off off False"

definition overlapping_work ::
  "CoordinatorState \<Rightarrow> HydrationContentKey \<Rightarrow> u64 \<Rightarrow> u64 \<Rightarrow> WorkDependency list" where
  "overlapping_work state content physical_start physical_end =
     List.map_filter
       (\<lambda>(start, end', wid).
          case map_of (work state) wid of
            None \<Rightarrow> None
          | Some entry \<Rightarrow>
              if work_whole entry \<or> ranges_overlap physical_start physical_end start end'
              then Some \<lparr>dep_id = wid, dep_start = start, dep_end = end',
                         dep_future = work_future entry\<rparr>
              else None)
       (takeWhile (\<lambda>(start, _, _). start < physical_end) (content_index state content))"

definition dep_order :: "WorkDependency \<Rightarrow> u64 \<times> u64" where
  "dep_order dependency = (dep_start dependency, dep_end dependency)"

text \<open>The sweep over the sorted dependencies that collects what none of them covers.\<close>

fun range_gaps :: "u64 \<Rightarrow> u64 \<Rightarrow> WorkDependency list \<Rightarrow> (u64 \<times> u64) list" where
  "range_gaps physical_end cursor [] =
     (if cursor < physical_end then [(cursor, physical_end)] else [])"
| "range_gaps physical_end cursor (dependency # rest) =
     (let gap_end = min (dep_start dependency) physical_end;
          gaps = range_gaps physical_end
                   (max cursor (min (dep_end dependency) physical_end)) rest
      in if cursor < gap_end then (cursor, gap_end) # gaps else gaps)"

fun insert_gaps ::
  "HydrationContentKey \<Rightarrow> ContentReadRequest \<Rightarrow> (u64 \<times> u64) list \<Rightarrow> WorkDependency list
   \<Rightarrow> (CoordinatorState, HydrationError, WorkDependency list) io" where
  "insert_gaps content request [] dependencies state = (Inr dependencies, state)"
| "insert_gaps content request ((start, end') # gaps) dependencies state =
     (case insert_range_work content request start end' state of
        (Inl e, state') \<Rightarrow> (Inl e, state')
      | (Inr dependency, state') \<Rightarrow>
          insert_gaps content request gaps (dependencies @ [dependency]) state')"

definition register_range ::
  "HydrationLimits \<Rightarrow> HydrationContentKey \<Rightarrow> ContentReadRequest \<Rightarrow> u64 \<Rightarrow> u64
   \<Rightarrow> (CoordinatorState, HydrationError, WorkDependency list) io" where
  "register_range limits content original_request physical_start physical_end state =
     (let dependencies =
            sort_key dep_order (overlapping_work state content physical_start physical_end);
          gaps = range_gaps physical_end physical_start dependencies
      in case ensure_capacity state content (length gaps) limits of
           Inl e \<Rightarrow> (Inl e, state)
         | Inr _ \<Rightarrow>
             (case insert_gaps content original_request gaps dependencies state of
                (Inl e, state') \<Rightarrow> (Inl e, state')
              | (Inr all, state') \<Rightarrow>
                  (let sorted_deps = sort_key dep_order all
                   in (Inr sorted_deps, fold (\<lambda>d. add_waiter (dep_id d)) sorted_deps state'))))"

section \<open>Waiters\<close>

definition TERMINAL_PENDING :: u8 where "TERMINAL_PENDING = 0"
definition TERMINAL_COMPLETED :: u8 where "TERMINAL_COMPLETED = 1"
definition TERMINAL_CANCELLED :: u8 where "TERMINAL_CANCELLED = 2"

text \<open>
  \<open>cancel_tx\<close> tells whether the sender is still held and \<open>cancel_signal\<close> whether the
  receiver of the one-shot channel resolves. The coordinator is reached through a weak
  reference and is passed as an option, \<open>None\<close> once it was dropped.
\<close>

record WaiterInner =
  terminal :: u8
  released :: bool
  work_ids :: "u64 list"
  cancel_tx :: bool
  cancel_signal :: bool

datatype HydrationCancellationOutcome = Cancelled | AlreadyCancelled | AlreadyCompleted

definition drop_work :: "u64 \<Rightarrow> CoordinatorState \<Rightarrow> CoordinatorState" where
  "drop_work wid state =
     (case map_of (work state) wid of
        None \<Rightarrow> state
      | Some entry \<Rightarrow>
          let content = work_content entry;
              state' = state\<lparr>work := AList.delete wid (work state)\<rparr>
          in case map_of (by_content state) content of
               None \<Rightarrow> state'
             | Some entries \<Rightarrow>
                 let index = remove1 (work_start entry, work_end entry, wid) entries
                 in state'\<lparr>by_content :=
                      (if index = [] then AList.delete content (by_content state)
                       else AList.update content index (by_content state))\<rparr>)"

definition release_one :: "u64 \<Rightarrow> CoordinatorState \<Rightarrow> CoordinatorState" where
  "release_one wid state =
     (case map_of (work state) wid of
        None \<Rightarrow> state
      | Some entry \<Rightarrow>
          let count = usize_saturating_sub (work_waiter_count entry) 1;
              state' = state\<lparr>work := AList.map_entry wid
                         (\<lambda>entry. entry\<lparr>work_waiter_count := count\<rparr>) (work state)\<rparr>
          in if count = 0 then drop_work wid state' else state')"

definition release_work ::
  "WaiterInner \<Rightarrow> CoordinatorState option \<Rightarrow> WaiterInner \<times> CoordinatorState option" where
  "release_work inner coordinator =
     (if released inner then (inner, coordinator)
      else
        (inner\<lparr>released := True\<rparr>,
         case coordinator of
           None \<Rightarrow> None
         | Some state \<Rightarrow> Some (fold release_one (work_ids inner) state)))"

definition WaiterInner_cancel ::
  "WaiterInner \<Rightarrow> CoordinatorState option
   \<Rightarrow> HydrationCancellationOutcome \<times> WaiterInner \<times> CoordinatorState option" where
  "WaiterInner_cancel inner coordinator =
     (if terminal inner = TERMINAL_PENDING
      then (HydrationCancellationOutcome.Cancelled,
            release_work
              (inner\<lparr>terminal := TERMINAL_CANCELLED, cancel_tx := False,
                     cancel_signal := cancel_signal inner \<or> cancel_tx inner\<rparr>) coordinator)
      else if terminal inner = TERMINAL_CANCELLED then (AlreadyCancelled, inner, coordinator)
      else (AlreadyCompleted, inner, coordinator))"

definition WaiterInner_complete ::
  "WaiterInner \<Rightarrow> CoordinatorState option \<Rightarrow> bool \<times> WaiterInner \<times> CoordinatorState option" where
  "WaiterInner_complete inner coordinator =
     (if terminal inner = TERMINAL_PENDING
      then (True, release_work (inner\<lparr>terminal := TERMINAL_COMPLETED, cancel_tx := False\<rparr>)
                    coordinator)
      else (False, inner, coordinator))"

record HydrationWaiter =
  hw_request :: HydrationRequest
  hw_target_start :: u64
  hw_target_end :: u64
  hw_dependencies :: "WorkDependency list"
  hw_inner :: WaiterInner
  hw_finished :: bool

section \<open>Assembling the requested bytes\<close>

text \<open>
  \<open>checked_slice_total\<close> adds the slice lengths with overflow checks on \<open>usize\<close>.
\<close>

definition slice_total_step :: "nat \<Rightarrow> HydrationError + nat \<Rightarrow> HydrationError + nat" where
  "slice_total_step length' acc = res_bind acc (\<lambda>n.
     if n + length' \<le> usize_MAX then Inr (n + length')
     else Inl (Contract (InvalidContentResponse ''hydration result length exceeds usize'')))"

definition checked_slice_total :: "nat list \<Rightarrow> HydrationError + nat" where
  "checked_slice_total lengths = fold slice_total_step lengths (Inr 0)"

definition combine_slices :: "u8 list list \<Rightarrow> HydrationError + u8 list" where
  "combine_slices slices =
     (case slices of
        [] \<Rightarrow> Inr []
      | [bytes] \<Rightarrow> Inr bytes
      | _ \<Rightarrow> res_bind (checked_slice_total (map length slices)) (\<lambda>_. Inr (concat slices)))"

fun assemble_loop ::
  "u64 \<Rightarrow> u64 \<Rightarrow> (WorkDependency \<times> ContentReadResponse) list \<Rightarrow> u8 list list
   \<Rightarrow> HydrationError + u64 \<times> u8 list list" where
  "assemble_loop target_end cursor [] slices = Inr (cursor, slices)"
| "assemble_loop target_end cursor ((dependency, response) # rest) slices =
     (if dep_end dependency \<le> cursor \<or> dep_start dependency \<ge> target_end
      then assemble_loop target_end cursor rest slices
      else
        let copy_start = max cursor (dep_start dependency);
            copy_end = min target_end (dep_end dependency);
            relative_start = saturating_sub copy_start (resp_offset response);
            relative_end = saturating_sub copy_end (resp_offset response)
        in if relative_end > len_u64 (resp_bytes response) \<or> relative_start > relative_end
           then Inl (Contract (InvalidContentResponse
                  ''hydration dependency did not cover its claimed logical range''))
           else
             let slice = take (unat relative_end - unat relative_start)
                           (drop (unat relative_start) (resp_bytes response))
             in if copy_end = target_end then Inr (copy_end, slices @ [slice])
                else assemble_loop target_end copy_end rest (slices @ [slice]))"

definition assemble ::
  "HydrationWaiter \<Rightarrow> ContentReadResponse list \<Rightarrow> HydrationError + ContentReadResponse" where
  "assemble waiter responses =
     (let read = hr_read (hw_request waiter) in
      if hw_target_start waiter = hw_target_end waiter
      then res_map_err Contract
             (ContentReadResponse_new (read_revision read) (hw_target_start waiter) []
                (read_expected_size read))
      else if length responses \<noteq> length (hw_dependencies waiter)
      then Inl (Contract (InvalidContentResponse ''hydration dependency result count changed''))
      else
        res_bind (assemble_loop (hw_target_end waiter) (hw_target_start waiter)
                    (zip (hw_dependencies waiter) responses) []) (\<lambda>(cursor, slices).
        if cursor \<noteq> hw_target_end waiter
        then Inl (Contract (InvalidContentResponse
               ''hydration dependencies left an uncovered logical range''))
        else
          res_bind (combine_slices slices) (\<lambda>bytes.
          res_bind (res_map_err Contract
                     (ContentReadResponse_new (read_revision read) (hw_target_start waiter) bytes
                        (read_expected_size read))) (\<lambda>response.
          res_bind (res_map_err Contract (validate_response read response)) (\<lambda>_.
          Inr response)))))"

section \<open>Requesting, waiting and dropping\<close>

definition HydrationCoordinator_request ::
  "HydrationLimits \<Rightarrow> HydrationRequest \<Rightarrow> (CoordinatorState, HydrationError, HydrationWaiter) io" where
  "HydrationCoordinator_request limits req =
     (let content = from_request req in
      io_bind (io_lift (logical_extent (hr_read req))) (\<lambda>(target_start, target_end).
      io_bind
        (case read_range (hr_read req) of
           Whole \<Rightarrow> register_whole limits content (hr_read req)
         | Range _ \<Rightarrow>
             if target_start = target_end
             then register_empty_range limits content (hr_read req) target_start
             else
               io_bind
                 (io_lift (aligned_extent target_start target_end (hk_expected_size content)
                             (hr_alignment req)))
                 (\<lambda>(physical_start, physical_end).
                    register_range limits content (hr_read req) physical_start physical_end))
        (\<lambda>dependencies.
           io_return
             \<lparr>hw_request = req, hw_target_start = target_start, hw_target_end = target_end,
              hw_dependencies = dependencies,
              hw_inner = \<lparr>terminal = TERMINAL_PENDING, released = False,
                          work_ids = map dep_id dependencies, cancel_tx = True,
                          cancel_signal = False\<rparr>,
              hw_finished = False\<rparr>)))"

text \<open>
  The result of a shared future: the backend's answer, checked against the request. \<open>joined\<close>
  is what \<open>try_join_all\<close> may deliver: all results in order, or the error of one of them.
\<close>

type_synonym answers = "u64 \<Rightarrow> ContentReadRequest \<Rightarrow> ContentReadResponse backend_result"

definition shared_read ::
  "answers \<Rightarrow> u64 \<Rightarrow> ContentReadRequest \<Rightarrow> HydrationError + ContentReadResponse" where
  "shared_read answers wid req =
     res_bind (res_map_err Backend (answers wid req)) (\<lambda>response.
     res_bind (res_map_err Contract (validate_response req response)) (\<lambda>_.
     Inr response))"

definition joined ::
  "answers \<Rightarrow> WorkDependency list \<Rightarrow> HydrationError + ContentReadResponse list \<Rightarrow> bool" where
  "joined answers dependencies result \<longleftrightarrow>
     (let results = map (\<lambda>d. shared_read answers (dep_id d) (dep_future d)) dependencies in
      case result of
        Inr responses \<Rightarrow> results = map Inr responses
      | Inl e \<Rightarrow> Inl e \<in> set results)"

text \<open>
  \<open>selected\<close> is the side of the \<open>select\<close> that was ready first: the joined reads, or the
  cancellation signal (\<open>None\<close>).
\<close>

definition HydrationWaiter_wait ::
  "(HydrationError + ContentReadResponse list) option \<Rightarrow> HydrationWaiter \<Rightarrow> CoordinatorState option
   \<Rightarrow> (HydrationError + ContentReadResponse) \<times> HydrationWaiter \<times> CoordinatorState option" where
  "HydrationWaiter_wait selected waiter coordinator =
     (if terminal (hw_inner waiter) = TERMINAL_CANCELLED
      then (Inl HydrationError.Cancelled, waiter\<lparr>hw_finished := True\<rparr>, coordinator)
      else case selected of
        Some result \<Rightarrow>
          (case WaiterInner_complete (hw_inner waiter) coordinator of
             (won, inner, coordinator') \<Rightarrow>
               (if won then res_bind result (assemble waiter) else Inl HydrationError.Cancelled,
                waiter\<lparr>hw_inner := inner, hw_finished := True\<rparr>, coordinator'))
      | None \<Rightarrow>
          (Inl HydrationError.Cancelled, waiter\<lparr>hw_finished := True\<rparr>, coordinator))"

definition HydrationWaiter_drop ::
  "HydrationWaiter \<Rightarrow> CoordinatorState option \<Rightarrow> HydrationWaiter \<times> CoordinatorState option" where
  "HydrationWaiter_drop waiter coordinator =
     (if hw_finished waiter then (waiter, coordinator)
      else case WaiterInner_cancel (hw_inner waiter) coordinator of
        (_, inner, coordinator') \<Rightarrow> (waiter\<lparr>hw_inner := inner\<rparr>, coordinator'))"

end
