(* ===== verification/Hydration_Laws.thy ===== *)
theory Hydration_Laws
  imports Hydration
begin

text \<open>
  Correctness of the hydration coordinator. The extent computations are characterised over the
  natural numbers, the sweep \<open>range_gaps\<close> as a set difference, and the coordinator and its
  waiters by an invariant over every sequence of calls.
\<close>

section \<open>Extents\<close>

lemma unat_align_down: "unat ((x::u64) div a * a) = unat x div unat a * unat a"
proof -
  have "unat x div unat a * unat a \<le> unat x" by (simp add: div_times_less_eq_dividend)
  then have "unat x div unat a * unat a < 2 ^ 64"
    using unat_u64_less [of x] by linarith
  then show ?thesis by (simp add: unat_ops unat_div_distrib)
qed

lemma logical_extent_ok:
  assumes "logical_extent req = Inr (lo, hi)"
    and "\<And>r. read_range req = Range r \<Longrightarrow> range_wf r"
  shows "lo \<le> hi" and "hi \<le> read_expected_size req"
    and "read_extent req = (unat lo, unat hi)"
  using assms
  by (auto simp: logical_extent_def word_nat_order unat_ops range_lo_def range_hi_def
      min_def max_def split: ContentReadRange.splits if_splits)

text \<open>
  An aligned extent contains the logical one and stays inside the file; it starts on a
  boundary and ends on one or at the end of the file, and it reaches no further than the
  adjacent boundaries.
\<close>

definition next_boundary :: "nat \<Rightarrow> nat \<Rightarrow> nat" where
  "next_boundary a n = (if n mod a = 0 then n else n + (a - n mod a))"

lemma next_boundary_props:
  assumes "0 < a"
  shows "n \<le> next_boundary a n" and "a dvd next_boundary a n"
    and "next_boundary a n < n + a"
    and "n \<le> m \<Longrightarrow> a dvd m \<Longrightarrow> next_boundary a n \<le> m"
proof -
  have mod: "n mod a < a" using assms by simp
  show "n \<le> next_boundary a n"
    unfolding next_boundary_def by (metis le_add1 order_refl)
  show "next_boundary a n < n + a"
    using mod assms by (auto simp: next_boundary_def)
  have "n + (a - n mod a) = (n div a + 1) * a"
  proof -
    have "n = n div a * a + n mod a" by simp
    moreover have "(n div a + 1) * a = n div a * a + a" by simp
    ultimately show ?thesis using mod by linarith
  qed
  then show dvd: "a dvd next_boundary a n"
    by (auto simp: next_boundary_def dvd_eq_mod_eq_0)
  show "next_boundary a n \<le> m" if "n \<le> m" "a dvd m"
  proof (rule ccontr)
    assume "\<not> next_boundary a n \<le> m"
    then have less: "m < next_boundary a n" by simp
    then have "next_boundary a n - m < a"
      using \<open>next_boundary a n < n + a\<close> \<open>n \<le> m\<close> by linarith
    moreover have "a dvd next_boundary a n - m" using dvd \<open>a dvd m\<close> by (rule dvd_diff_nat)
    ultimately show False using less by (auto dest: dvd_imp_le)
  qed
qed

lemma aligned_extent_eq:
  assumes a: "alignment_get al \<noteq> 0" and le: "lo \<le> hi" "hi \<le> total_size"
  shows "aligned_extent lo hi total_size al =
    (if hi = total_size then Inr (lo div alignment_get al * alignment_get al, total_size)
     else if next_boundary (unat (alignment_get al)) (unat hi) < 2 ^ 64
     then Inr (lo div alignment_get al * alignment_get al,
               of_nat (min (next_boundary (unat (alignment_get al)) (unat hi)) (unat total_size)))
     else Inl (Contract (InvalidByteRange ''aligned hydration range exceeds u64'')))"
proof -
  let ?a = "alignment_get al"
  have rem: "unat (hi mod ?a) = unat hi mod unat ?a" by (simp add: unat_mod_distrib)
  have zero: "hi mod ?a = 0 \<longleftrightarrow> unat hi mod unat ?a = 0"
    by (metis rem unat_eq_0)
  have less: "hi mod ?a \<le> ?a"
    using a by (simp add: word_le_nat_alt rem less_imp_le unat_gt_0)
  have step: "unat (?a - hi mod ?a) = unat ?a - unat hi mod unat ?a"
    using less by (simp add: unat_sub rem)
  have small: "unat hi < 2 ^ 64" by (rule unat_u64_less)
  have clip: "min w total_size = of_nat (min (unat w) (unat total_size))" for w :: u64
    by (simp add: min_def word_le_nat_alt)
  show ?thesis
  proof (cases "unat hi mod unat ?a = 0")
    case True
    then show ?thesis using small
      by (simp add: aligned_extent_def Let_def zero next_boundary_def clip)
  next
    case False
    then show ?thesis using small
      by (simp add: aligned_extent_def Let_def zero next_boundary_def step clip checked_add_def
          unat_ops)
  qed
qed

lemma aligned_extent_ok:
  assumes ok: "aligned_extent lo hi total_size al = Inr (ps, pe)"
    and a: "alignment_get al \<noteq> 0" and le: "lo \<le> hi" "hi \<le> total_size"
  shows "ps \<le> lo" and "hi \<le> pe" and "pe \<le> total_size"
    and "unat (alignment_get al) dvd unat ps"
    and "pe = total_size \<or> unat (alignment_get al) dvd unat pe"
    and "unat lo < unat ps + unat (alignment_get al)"
    and "unat pe < unat hi + unat (alignment_get al)"
proof -
  let ?a = "alignment_get al" and ?b = "next_boundary (unat (alignment_get al)) (unat hi)"
  have pos: "0 < unat ?a" using a by (simp add: unat_gt_0)
  note bound = next_boundary_props [OF pos, of "unat hi"]
  have ps: "unat ps = unat lo div unat ?a * unat ?a"
    using ok aligned_extent_eq [OF a le] by (auto simp: unat_align_down split: if_splits)
  have pe: "unat pe = (if hi = total_size then unat total_size else min ?b (unat total_size))"
    using ok aligned_extent_eq [OF a le] unat_u64_less [of total_size]
    by (auto simp: unat_of_nat split: if_splits)
  show "ps \<le> lo" and "unat ?a dvd unat ps"
    using ps by (simp_all add: word_le_nat_alt div_times_less_eq_dividend)
  show "unat lo < unat ps + unat ?a"
    using ps pos dividend_less_div_times [of "unat ?a" "unat lo"] by simp
  show "hi \<le> pe" and "pe \<le> total_size"
    using pe bound(1) le by (auto simp: word_le_nat_alt)
  show "pe = total_size \<or> unat ?a dvd unat pe"
    using pe bound(2) by (auto simp: min_def intro: unat_eqI split: if_splits)
  show "unat pe < unat hi + unat ?a"
    using pe bound(3) pos by (auto split: if_splits)
qed

section \<open>The gap sweep\<close>

definition dep_set :: "WorkDependency \<Rightarrow> u64 set" where
  "dep_set d = {dep_start d..<dep_end d}"

definition deps_set :: "WorkDependency list \<Rightarrow> u64 set" where
  "deps_set ds = (\<Union>d\<in>set ds. dep_set d)"

definition gap_set :: "u64 \<times> u64 \<Rightarrow> u64 set" where
  "gap_set g = {fst g..<snd g}"

abbreviation start_sorted :: "WorkDependency list \<Rightarrow> bool" where
  "start_sorted \<equiv> sorted_wrt (\<lambda>d d'. dep_start d \<le> dep_start d')"

lemma deps_set_simps [simp]:
  "deps_set [] = {}" "deps_set (d # ds) = dep_set d \<union> deps_set ds"
  "deps_set (ds @ ds') = deps_set ds \<union> deps_set ds'"
  by (auto simp: deps_set_def)

lemma deps_set_cong: "set ds = set ds' \<Longrightarrow> deps_set ds = deps_set ds'"
  by (simp add: deps_set_def)

lemma start_sorted_deps_set:
  "start_sorted (d # ds) \<Longrightarrow> x \<in> deps_set (d # ds) \<Longrightarrow> dep_start d \<le> x"
  by (auto simp: deps_set_def dep_set_def)

lemma range_gaps_exact:
  "start_sorted ds \<Longrightarrow>
   (\<Union>g\<in>set (range_gaps pe cursor ds). gap_set g) = {cursor..<pe} - deps_set ds"
proof (induction ds arbitrary: cursor)
  case Nil
  then show ?case by (auto simp: gap_set_def)
next
  case (Cons d ds)
  let ?next = "max cursor (min (dep_end d) pe)" and ?gap = "min (dep_start d) pe"
  have IH: "(\<Union>g\<in>set (range_gaps pe ?next ds). gap_set g) = {?next..<pe} - deps_set ds"
    using Cons by simp
  have later: "{cursor..<?gap} \<inter> deps_set ds = {}"
    using Cons.prems by (fastforce simp: deps_set_def dep_set_def)
  have "(\<Union>g\<in>set (range_gaps pe cursor (d # ds)). gap_set g) =
      {cursor..<?gap} \<union> ({?next..<pe} - deps_set ds)"
    by (auto simp: Let_def gap_set_def IH [unfolded gap_set_def])
  also have "\<dots> = ({cursor..<?gap} \<union> {?next..<pe}) - deps_set ds"
    using later by blast
  also have "({cursor..<?gap} \<union> {?next..<pe}) = {cursor..<pe} - dep_set d"
    by (auto simp: dep_set_def min_def max_def)
  finally show ?case by auto
qed

text \<open>The gaps are non-empty, ascending and pairwise disjoint.\<close>

lemma range_gaps_bounds:
  "g \<in> set (range_gaps pe cursor ds) \<Longrightarrow> cursor \<le> fst g \<and> fst g < snd g \<and> snd g \<le> pe"
  by (induction ds arbitrary: cursor) (fastforce simp: Let_def split: if_splits)+

lemma range_gaps_ascending:
  "\<forall>d\<in>set ds. dep_start d \<le> dep_end d \<Longrightarrow>
   sorted_wrt (\<lambda>g g'. snd g \<le> fst g') (range_gaps pe cursor ds)"
proof (induction ds arbitrary: cursor)
  case Nil
  then show ?case by simp
next
  case (Cons d ds)
  have "min (dep_start d) pe \<le> fst g"
    if "g \<in> set (range_gaps pe (max cursor (min (dep_end d) pe)) ds)" for g
    using range_gaps_bounds [OF that] Cons.prems by (auto simp: min_def split: if_splits)
  then show ?case using Cons by (auto simp: Let_def)
qed

lemma range_gaps_covered:
  assumes "start_sorted ds" and "{cursor..<pe} \<subseteq> deps_set ds"
  shows "range_gaps pe cursor ds = []"
proof -
  have "g \<notin> set (range_gaps pe cursor ds)" for g
  proof
    assume g: "g \<in> set (range_gaps pe cursor ds)"
    then have "fst g \<in> gap_set g"
      using range_gaps_bounds [OF g] by (simp add: gap_set_def)
    with g have "fst g \<in> {cursor..<pe} - deps_set ds"
      using range_gaps_exact [OF assms(1), of pe cursor] by blast
    with assms(2) show False by blast
  qed
  then show ?thesis by (metis list.set_intros(1) neq_Nil_conv)
qed

section \<open>The coordinator invariant\<close>

text \<open>
  What every work item records: a whole read spans the file; a range read is non-empty, lies
  inside the file and asks for exactly its range; the read registered for an empty extent sits
  at the end of the file.
\<close>

definition asks :: "HydrationContentKey \<Rightarrow> ContentReadRequest \<Rightarrow> bool" where
  "asks content req \<longleftrightarrow>
     read_key req = hk_key content \<and> read_revision req = hk_revision content \<and>
     read_expected_size req = hk_expected_size content"

definition entry_wf :: "WorkEntry \<Rightarrow> bool" where
  "entry_wf e \<longleftrightarrow>
     asks (work_content e) (work_future e) \<and>
     (if work_whole e
      then work_start e = 0 \<and> work_end e = hk_expected_size (work_content e) \<and>
           read_range (work_future e) = Whole
      else (\<exists>r. read_range (work_future e) = Range r \<and> range_wf r \<and>
             range_offset r = work_start e \<and>
             (work_start e < work_end e \<and> work_end e \<le> hk_expected_size (work_content e) \<and>
                end_exclusive r = work_end e
              \<or> work_start e = work_end e \<and> work_end e = hk_expected_size (work_content e))))"

text \<open>Two items conflict when a request for one of them should have joined the other.\<close>

definition work_conflict :: "WorkEntry \<Rightarrow> WorkEntry \<Rightarrow> bool" where
  "work_conflict e e' \<longleftrightarrow>
     work_content e = work_content e' \<and> work_whole e = work_whole e' \<and>
     (work_whole e \<or> work_start e = work_start e' \<and> work_end e = work_end e'
      \<or> ranges_overlap (work_start e) (work_end e) (work_start e') (work_end e'))"

definition same_work :: "WorkEntry \<Rightarrow> WorkEntry \<Rightarrow> bool" where
  "same_work e e' \<longleftrightarrow> (\<exists>n. e' = e\<lparr>work_waiter_count := n\<rparr>)"

definition index_exact :: "CoordinatorState \<Rightarrow> bool" where
  "index_exact s \<longleftrightarrow>
     (\<forall>c a b w. (a, b, w) \<in> set (content_index s c) \<longleftrightarrow>
        (\<exists>e. map_of (work s) w = Some e \<and> work_content e = c \<and> work_start e = a \<and> work_end e = b))"

definition coord_inv :: "CoordinatorState \<Rightarrow> bool" where
  "coord_inv s \<longleftrightarrow>
     distinct (map fst (work s)) \<and> distinct (map fst (by_content s)) \<and>
     (\<forall>w e. map_of (work s) w = Some e \<longrightarrow> w < next_work_id s \<and> entry_wf e) \<and>
     (\<forall>c ix. map_of (by_content s) c = Some ix \<longrightarrow> ix \<noteq> [] \<and> sorted ix \<and> distinct ix) \<and>
     index_exact s \<and>
     (\<forall>w w' e e'. w \<noteq> w' \<longrightarrow> map_of (work s) w = Some e \<longrightarrow> map_of (work s) w' = Some e' \<longrightarrow>
        \<not> work_conflict e e')"

definition within_limits :: "HydrationLimits \<Rightarrow> CoordinatorState \<Rightarrow> bool" where
  "within_limits limits s \<longleftrightarrow>
     length (work s) \<le> max_in_flight_work limits \<and>
     (\<forall>c. length (content_index s c) \<le> max_in_flight_per_content limits)"

definition count_of :: "CoordinatorState \<Rightarrow> u64 \<Rightarrow> nat" where
  "count_of s w = (case map_of (work s) w of None \<Rightarrow> 0 | Some e \<Rightarrow> work_waiter_count e)"

definition describes :: "WorkDependency \<Rightarrow> WorkEntry \<Rightarrow> bool" where
  "describes d e \<longleftrightarrow>
     dep_start d = work_start e \<and> dep_end d = work_end e \<and> dep_future d = work_future e"

definition dep_wf :: "HydrationContentKey \<Rightarrow> WorkDependency \<Rightarrow> bool" where
  "dep_wf c d \<longleftrightarrow>
     (\<exists>e. entry_wf e \<and> work_content e = c \<and> describes d e)"

definition dep_live :: "HydrationContentKey \<Rightarrow> CoordinatorState \<Rightarrow> WorkDependency \<Rightarrow> bool" where
  "dep_live c s d \<longleftrightarrow>
     (\<exists>e. map_of (work s) (dep_id d) = Some e \<and> work_content e = c \<and>
          describes d e)"

lemma coord_invD:
  assumes "coord_inv s"
  shows "distinct (map fst (work s))" and "distinct (map fst (by_content s))"
    and "map_of (work s) w = Some e \<Longrightarrow> w < next_work_id s"
    and "map_of (work s) w = Some e \<Longrightarrow> entry_wf e"
    and "map_of (by_content s) c = Some ix \<Longrightarrow> ix \<noteq> [] \<and> sorted ix \<and> distinct ix"
    and "index_exact s"
    and "w \<noteq> w' \<Longrightarrow> map_of (work s) w = Some e \<Longrightarrow> map_of (work s) w' = Some e' \<Longrightarrow>
           \<not> work_conflict e e'"
  using assms unfolding coord_inv_def by blast+

lemma same_work_refl [simp]: "same_work e e" "same_work e (e\<lparr>work_waiter_count := n\<rparr>)"
  by (auto simp: same_work_def intro: exI [of _ "work_waiter_count e"])

lemma same_workD:
  assumes "same_work e e'"
  shows "work_content e' = work_content e" and "work_start e' = work_start e"
    and "work_end e' = work_end e" and "work_whole e' = work_whole e"
    and "work_future e' = work_future e"
  using assms by (auto simp: same_work_def)

lemma same_work_trans: "same_work e e' \<Longrightarrow> same_work e' e'' \<Longrightarrow> same_work e e''"
  by (auto simp: same_work_def)

lemma same_work_wf: "same_work e e' \<Longrightarrow> entry_wf e' = entry_wf e"
  by (auto simp: same_work_def entry_wf_def)

lemma same_work_conflict:
  "same_work e1 e1' \<Longrightarrow> same_work e2 e2' \<Longrightarrow> work_conflict e1' e2' = work_conflict e1 e2"
  by (auto simp: same_work_def work_conflict_def)

lemma same_work_describes: "same_work e e' \<Longrightarrow> describes d e' = describes d e"
  by (auto simp: same_work_def describes_def)

lemma describes_dependency [simp]: "describes (dependency_of w e) e" "dep_id (dependency_of w e) = w"
  by (simp_all add: describes_def dependency_of_def)

lemma content_index_sorted: "coord_inv s \<Longrightarrow> sorted (content_index s c) \<and> distinct (content_index s c)"
  by (auto simp: content_index_def split: option.splits dest: coord_invD(5))

lemma dep_live_wf: "coord_inv s \<Longrightarrow> dep_live c s d \<Longrightarrow> dep_wf c d"
  unfolding dep_live_def dep_wf_def by (blast dest: coord_invD(4))

lemma default_coord_inv [simp]: "coord_inv CoordinatorState_default"
  by (simp add: coord_inv_def CoordinatorState_default_def index_exact_def content_index_def)

text \<open>
  A state that holds the same work up to the waiter counts, or fewer items of it, with the
  index cut down accordingly, inherits the invariant.
\<close>

definition shrunk :: "CoordinatorState \<Rightarrow> CoordinatorState \<Rightarrow> bool" where
  "shrunk s s' \<longleftrightarrow>
     (\<forall>w e'. map_of (work s') w = Some e' \<longrightarrow>
        (\<exists>e. map_of (work s) w = Some e \<and> same_work e e' \<and>
             (work_waiter_count e' = 0 \<longrightarrow> work_waiter_count e = 0))) \<and>
     length (work s') \<le> length (work s) \<and>
     (\<forall>c. length (content_index s' c) \<le> length (content_index s c)) \<and>
     next_work_id s' = next_work_id s"

lemma shrunk_refl [simp]: "shrunk s s"
  by (auto simp: shrunk_def)

lemma shrunk_trans:
  assumes "shrunk s1 s2" and "shrunk s2 s3"
  shows "shrunk s1 s3"
  unfolding shrunk_def
proof (intro conjI allI impI)
  fix w e3
  assume "map_of (work s3) w = Some e3"
  then obtain e2 where 2: "map_of (work s2) w = Some e2" "same_work e2 e3"
    "work_waiter_count e3 = 0 \<longrightarrow> work_waiter_count e2 = 0"
    using assms(2) unfolding shrunk_def by metis
  obtain e1 where 1: "map_of (work s1) w = Some e1" "same_work e1 e2"
    "work_waiter_count e2 = 0 \<longrightarrow> work_waiter_count e1 = 0"
    using assms(1) 2(1) unfolding shrunk_def by metis
  show "\<exists>e. map_of (work s1) w = Some e \<and> same_work e e3 \<and>
      (work_waiter_count e3 = 0 \<longrightarrow> work_waiter_count e = 0)"
    using 1 2 same_work_trans [OF 1(2) 2(2)] by simp
next
  show "length (work s3) \<le> length (work s1)"
    using assms by (simp add: shrunk_def)
  show "length (content_index s3 c) \<le> length (content_index s1 c)" for c
    using assms unfolding shrunk_def by (meson order_trans)
  show "next_work_id s3 = next_work_id s1"
    using assms by (simp add: shrunk_def)
qed

lemma shrunk_limits: "shrunk s s' \<Longrightarrow> within_limits limits s \<Longrightarrow> within_limits limits s'"
  unfolding shrunk_def within_limits_def by (meson order_trans)

lemma recount_inv:
  assumes inv: "coord_inv s"
    and keys: "map fst (work s') = map fst (work s)"
    and index: "by_content s' = by_content s" and nxt: "next_work_id s' = next_work_id s"
    and same: "\<And>w. rel_option same_work (map_of (work s) w) (map_of (work s') w)"
  shows "coord_inv s'"
proof -
  have older: "\<exists>e. map_of (work s) w = Some e \<and> same_work e e'"
    if "map_of (work s') w = Some e'" for w e'
    using same [of w] that by (auto simp: option_rel_Some2)
  have forth: "\<exists>e'. map_of (work s') w = Some e' \<and> same_work e e'"
    if "map_of (work s) w = Some e" for w e
    using same [of w] that by (auto simp: option_rel_Some1)
  have ci: "content_index s' = content_index s"
    using index by (simp add: content_index_def fun_eq_iff)
  have ie: "index_exact s'"
    unfolding index_exact_def ci
  proof (intro allI)
    fix c a b w
    show "(a, b, w) \<in> set (content_index s c) \<longleftrightarrow> (\<exists>e. map_of (work s') w = Some e \<and>
        work_content e = c \<and> work_start e = a \<and> work_end e = b)"
      using coord_invD(6) [OF inv] same [of w] unfolding index_exact_def
      by (cases "map_of (work s) w"; cases "map_of (work s') w") (auto dest: same_workD)
  qed
  show ?thesis
    unfolding coord_inv_def
  proof (intro conjI allI impI)
    fix w e' assume "map_of (work s') w = Some e'"
    from older [OF this] show "w < next_work_id s'" "entry_wf e'"
      using coord_invD(3,4) [OF inv] nxt same_work_wf by auto
  next
    fix w w' e e' assume "w \<noteq> w'" "map_of (work s') w = Some e" "map_of (work s') w' = Some e'"
    moreover from this(2,3) obtain d d' where "map_of (work s) w = Some d" "same_work d e"
      "map_of (work s) w' = Some d'" "same_work d' e'"
      using older by meson
    ultimately show "\<not> work_conflict e e'"
      using coord_invD(7) [OF inv] by (simp add: same_work_conflict [of d e d' e'])
  qed (use inv keys index ie in \<open>auto simp: coord_inv_def\<close>)
qed

section \<open>Counting waiters\<close>

lemma map_fst_map_entry [simp]: "map fst (AList.map_entry k f xs) = map fst xs"
  by (induction xs) auto

lemma add_waiter_simps [simp]:
  "by_content (add_waiter w s) = by_content s"
  "next_work_id (add_waiter w s) = next_work_id s"
  "map fst (work (add_waiter w s)) = map fst (work s)"
  "map_of (work (add_waiter w s)) =
     (map_of (work s))(w := map_option (\<lambda>e. e\<lparr>work_waiter_count :=
        usize_saturating_add (work_waiter_count e) 1\<rparr>) (map_of (work s) w))"
  by (auto simp: add_waiter_def map_of_map_entry fun_eq_iff split: option.splits)

lemma add_waiters:
  fixes ws :: "u64 list"
  defines "bump \<equiv> \<lambda>e. e\<lparr>work_waiter_count := usize_saturating_add (work_waiter_count e) 1\<rparr>"
  assumes "distinct ws"
  shows "by_content (fold add_waiter ws s) = by_content s \<and>
     next_work_id (fold add_waiter ws s) = next_work_id s \<and>
     map fst (work (fold add_waiter ws s)) = map fst (work s) \<and>
     map_of (work (fold add_waiter ws s)) w =
       map_option (if w \<in> set ws then bump else id) (map_of (work s) w)"
  using assms(2)
proof (induction ws arbitrary: s)
  case Nil
  then show ?case by (simp add: option.map_ident option.map_id)
next
  case (Cons v ws)
  then have "v \<notin> set ws" and IH: "distinct ws" by simp_all
  show ?case
    using Cons.IH [OF IH, of "add_waiter v s"] \<open>v \<notin> set ws\<close>
    by (auto simp: bump_def option.map_ident option.map_id)
qed

lemma add_waiters_laws:
  assumes inv: "coord_inv s" and ws: "distinct ws"
  shows "coord_inv (fold add_waiter ws s)"
    and "within_limits limits (fold add_waiter ws s) = within_limits limits s"
    and "map_of (work s) w = Some e \<Longrightarrow>
           \<exists>e'. map_of (work (fold add_waiter ws s)) w = Some e' \<and> same_work e e'"
    and "count_of (fold add_waiter ws s) w =
           (if w \<in> set ws \<and> map_of (work s) w \<noteq> None
            then usize_saturating_add (count_of s w) 1 else count_of s w)"
    and "map_of (work s) w = None \<Longrightarrow> map_of (work (fold add_waiter ws s)) w = None"
    and "next_work_id (fold add_waiter ws s) = next_work_id s"
proof -
  note laws = add_waiters [OF ws, of s]
  have keys: "map fst (work (fold add_waiter ws s)) = map fst (work s)"
    and index: "by_content (fold add_waiter ws s) = by_content s"
    using laws by blast+
  have work: "map_of (work (fold add_waiter ws s)) w = map_option (if w \<in> set ws
      then \<lambda>e. e\<lparr>work_waiter_count := usize_saturating_add (work_waiter_count e) 1\<rparr> else id)
      (map_of (work s) w)" for w
    using laws by blast
  show nxt: "next_work_id (fold add_waiter ws s) = next_work_id s" using laws by blast
  show "coord_inv (fold add_waiter ws s)"
    by (rule recount_inv [OF inv keys index nxt])
      (auto simp: work option.rel_map intro: option.rel_refl)
  have "length (work (fold add_waiter ws s)) = length (work s)"
    using keys by (metis length_map)
  then show "within_limits limits (fold add_waiter ws s) = within_limits limits s"
    using index by (simp add: within_limits_def content_index_def)
qed (auto simp: add_waiters [OF ws, of s] count_of_def split: option.split)

section \<open>Starting work\<close>

text \<open>
  \<open>grown c n s s'\<close>: nothing was lost, what was added has no waiter yet, and at most \<open>n\<close>
  items were added, all of content \<open>c\<close>.
\<close>

definition grown :: "HydrationContentKey \<Rightarrow> nat \<Rightarrow> CoordinatorState \<Rightarrow> CoordinatorState \<Rightarrow> bool" where
  "grown c n s s' \<longleftrightarrow>
     map_of (work s) \<subseteq>\<^sub>m map_of (work s') \<and>
     (\<forall>w e. map_of (work s') w = Some e \<longrightarrow> map_of (work s) w = None \<longrightarrow>
        work_waiter_count e = 0 \<and> work_content e = c) \<and>
     length (work s') \<le> length (work s) + n \<and>
     (\<forall>c'. length (content_index s' c') \<le> length (content_index s c') + (if c' = c then n else 0))"

lemma grown_refl [simp]: "grown c n s s"
  by (simp add: grown_def)

lemma grown_trans:
  assumes 1: "grown c n s s'" and 2: "grown c m s' s''"
  shows "grown c (n + m) s s''"
  unfolding grown_def
proof (intro conjI allI impI)
  show "map_of (work s) \<subseteq>\<^sub>m map_of (work s'')"
    using 1 2 by (auto simp: grown_def intro: map_le_trans)
  fix w e assume new: "map_of (work s'') w = Some e" "map_of (work s) w = None"
  have "work_waiter_count e = 0 \<and> work_content e = c"
  proof (cases "map_of (work s') w")
    case None
    then show ?thesis using 2 new by (simp add: grown_def)
  next
    case (Some e')
    then have "e' = e" using 2 new(1) by (auto simp: grown_def map_le_def dom_def)
    then show ?thesis using 1 new(2) Some by (simp add: grown_def)
  qed
  then show "work_waiter_count e = 0" and "work_content e = c" by simp_all
next
  show "length (work s'') \<le> length (work s) + (n + m)"
    using 1 2 by (simp add: grown_def)
  fix c'
  have "length (content_index s'' c') \<le> length (content_index s' c') + (if c' = c then m else 0)"
    and "length (content_index s' c') \<le> length (content_index s c') + (if c' = c then n else 0)"
    using 1 2 by (auto simp: grown_def)
  then show "length (content_index s'' c') \<le>
      length (content_index s c') + (if c' = c then n + m else 0)"
    by (auto split: if_splits)
qed

lemma grown_mono: "grown c n s s' \<Longrightarrow> n \<le> m \<Longrightarrow> grown c m s s'"
  using grown_trans [of c n s s' "m - n" s'] by simp

lemma grown_count: "grown c n s s' \<Longrightarrow> count_of s' w = count_of s w"
  by (cases "map_of (work s) w"; cases "map_of (work s') w")
    (auto simp: grown_def count_of_def map_le_def dom_def)

lemma grown_kept: "grown c n s s' \<Longrightarrow> map_of (work s) w = Some e \<Longrightarrow> map_of (work s') w = Some e"
  by (auto simp: grown_def map_le_def dom_def)

lemma grown_live: "grown c n s s' \<Longrightarrow> dep_live c' s d \<Longrightarrow> dep_live c' s' d"
  by (auto simp: dep_live_def dest: grown_kept)

lemma grown_index:
  "grown c n s s' \<Longrightarrow>
   length (content_index s' c') \<le> length (content_index s c') + (if c' = c then n else 0)"
  unfolding grown_def by blast

text \<open>
  Work ids are 64-bit numbers, so neither the work map nor an index ever outgrows \<open>usize\<close> and
  the saturating additions of the capacity check are exact.
\<close>

lemma distinct_u64_length:
  assumes "distinct xs" and "\<forall>x\<in>set xs. x < (n :: u64)"
  shows "length xs \<le> usize_MAX"
proof -
  have "inj_on unat (set xs)" by (auto simp: inj_on_def intro: unat_eqI)
  then have "length xs = card (unat ` set xs)"
    using distinct_card [OF assms(1)] card_image by metis
  also have "\<dots> \<le> card {..<unat n}"
    using assms(2) by (intro card_mono) (auto simp: word_less_nat_alt)
  also have "\<dots> \<le> usize_MAX"
    using unat_u64_less [of n] unfolding usize_MAX_def card_lessThan by linarith
  finally show ?thesis .
qed

lemma coord_sizes:
  assumes "coord_inv s"
  shows "length (work s) \<le> usize_MAX" and "length (content_index s c) \<le> usize_MAX"
proof -
  have "\<forall>w\<in>set (map fst (work s)). w < next_work_id s"
    using coord_invD(1,3) [OF assms] by auto
  from distinct_u64_length [OF coord_invD(1) [OF assms] this]
  show "length (work s) \<le> usize_MAX" by simp
  have "distinct (map (snd \<circ> snd) (content_index s c))"
    using content_index_sorted [OF assms, of c] coord_invD(6) [OF assms]
    by (fastforce simp: distinct_map inj_on_def index_exact_def)
  moreover have "\<forall>w\<in>set (map (snd \<circ> snd) (content_index s c)). w < next_work_id s"
    using coord_invD(3,6) [OF assms] by (fastforce simp: index_exact_def)
  ultimately show "length (content_index s c) \<le> usize_MAX"
    using distinct_u64_length by force
qed

lemma saturating_within:
  "usize_saturating_add a n \<le> limit \<Longrightarrow> b \<le> a + n \<Longrightarrow> b \<le> usize_MAX \<Longrightarrow> b \<le> limit"
  by (auto simp: usize_saturating_add_def min_def split: if_splits)

lemma capacity_limits:
  assumes cap: "ensure_capacity s c n limits = Inr u" and lim: "within_limits limits s"
    and grown: "grown c n s s'" and inv: "coord_inv s'"
  shows "within_limits limits s'"
proof -
  have cap: "usize_saturating_add (length (work s)) n \<le> max_in_flight_work limits"
    "usize_saturating_add (length (content_index s c)) n \<le> max_in_flight_per_content limits"
    using cap by (simp_all add: ensure_capacity_def Let_def not_less split: if_splits)
  have "length (content_index s' c') \<le> max_in_flight_per_content limits" for c'
  proof (cases "c' = c")
    case True
    have "length (content_index s' c) \<le> length (content_index s c) + n"
      using grown_index [OF grown, of c] by simp
    from saturating_within [OF cap(2) this coord_sizes(2) [OF inv]] True show ?thesis by simp
  next
    case False
    have "length (content_index s' c') \<le> length (content_index s c')"
      using grown_index [OF grown, of c'] False by simp
    also have "\<dots> \<le> max_in_flight_per_content limits"
      using lim by (simp add: within_limits_def)
    finally show ?thesis .
  qed
  moreover have "length (work s') \<le> length (work s) + n" using grown by (simp add: grown_def)
  ultimately show ?thesis
    using saturating_within [OF cap(1) _ coord_sizes(1) [OF inv]] by (simp add: within_limits_def)
qed

definition exhausted :: HydrationError where
  "exhausted = Contract (InvalidContentResponse ''hydration work identity exhausted'')"

lemma length_update_fresh:
  "map_of xs k = None \<Longrightarrow> length (AList.update k v xs) = Suc (length xs)"
  by (induction xs) auto

lemma insert_work_laws:
  assumes inv: "coord_inv s"
    and new: "e = \<lparr>work_content = c, work_start = lo, work_end = hi, work_whole = whole,
                work_future = req, work_waiter_count = 0\<rparr>"
    and wf: "entry_wf e"
    and free: "\<And>w e'. map_of (work s) w = Some e' \<Longrightarrow> \<not> work_conflict e e' \<and> \<not> work_conflict e' e"
    and run: "insert_work c req lo hi whole s = (r, s')"
  shows "(r = Inl exhausted \<and> s' = s \<and> next_work_id s = - 1) \<or>
     (\<exists>d. r = Inr d \<and> d = dependency_of (next_work_id s) e \<and> coord_inv s' \<and> grown c 1 s s' \<and>
        map_of (work s') = (map_of (work s))(next_work_id s \<mapsto> e) \<and>
        map_of (work s) (next_work_id s) = None)"
proof (cases "checked_add (next_work_id s) 1")
  case None
  then have "2 ^ 64 \<le> unat (next_work_id s) + 1" by simp
  moreover have "unat (- 1 :: u64) = 2 ^ 64 - 1"
    by (simp add: unsigned_minus_1_eq_mask mask_eq_exp_minus_1)
  ultimately have "unat (next_work_id s) = unat (- 1 :: u64)"
    using unat_u64_less [of "next_work_id s"] by linarith
  then have "next_work_id s = - 1" by (rule unat_eqI)
  moreover have "(r, s') = (Inl exhausted, s)"
    using run unfolding insert_work_def Let_def None by (simp add: exhausted_def)
  ultimately show ?thesis by simp
next
  case (Some n)
  let ?w = "next_work_id s"
  have less: "?w < n"
    using Some by (auto simp: word_less_nat_alt unat_ops)
  have fresh: "map_of (work s) ?w = None"
    using coord_invD(3) [OF inv, of ?w] by (cases "map_of (work s) ?w") auto
  have absent: "(lo, hi, ?w) \<notin> set (content_index s c)"
    using coord_invD(6) [OF inv] fresh by (simp add: index_exact_def)
  have s': "s' = s\<lparr>next_work_id := n, work := AList.update ?w e (work s),
      by_content := AList.update c (insort_insert (lo, hi, ?w) (content_index s c)) (by_content s)\<rparr>"
    and r: "r = Inr (dependency_of ?w e)"
    using run Some by (auto simp: insert_work_def Let_def new dependency_of_def)
  have ci: "content_index s' c' = (if c' = c then insort_insert (lo, hi, ?w) (content_index s c)
      else content_index s c')" for c'
    by (simp add: s' content_index_def update_conv')
  have W: "map_of (work s') = (map_of (work s))(?w \<mapsto> e)"
    by (simp add: s' update_conv')
  have "index_exact s'"
    using coord_invD(6) [OF inv] fresh
    unfolding index_exact_def ci W by (auto simp: set_insort_insert new)
  moreover have "ix \<noteq> [] \<and> sorted ix \<and> distinct ix" if "map_of (by_content s') c' = Some ix" for c' ix
    using that content_index_sorted [OF inv, of c] coord_invD(5) [OF inv]
    by (auto simp: s' update_conv' sorted_insort_insert distinct_insort_insert split: if_splits
        dest: arg_cong [of _ _ set] simp: set_insort_insert)
  moreover have "w < next_work_id s' \<and> entry_wf e'" if "map_of (work s') w = Some e'" for w e'
    using that less wf coord_invD(3,4) [OF inv] unfolding W
    by (auto simp: s' split: if_splits intro: less_trans)
  ultimately have "coord_inv s'"
    using coord_invD(1,2,7) [OF inv] free unfolding coord_inv_def W
    by (auto simp: s' distinct_update split: if_splits)
  moreover have "grown c 1 s s'"
    unfolding grown_def ci W using fresh absent
    by (auto simp: s' length_update_fresh insort_insert_insort new map_le_def)
  ultimately show ?thesis using r W fresh by blast
qed

section \<open>Registering a waiter\<close>

lemma insert_range_work_laws:
  assumes inv: "coord_inv s" and req: "asks c req"
    and gap: "lo < hi" "hi \<le> hk_expected_size c"
    and free: "\<And>w e. map_of (work s) w = Some e \<Longrightarrow> work_content e = c \<Longrightarrow> \<not> work_whole e \<Longrightarrow>
                 \<not> ranges_overlap lo hi (work_start e) (work_end e)"
    and run: "insert_range_work c req lo hi s = (r, s')"
  shows "(r = Inl exhausted \<and> s' = s \<and> next_work_id s = - 1) \<or>
     (\<exists>d e. r = Inr d \<and> dep_start d = lo \<and> dep_end d = hi \<and> dep_live c s' d \<and>
        coord_inv s' \<and> grown c 1 s s' \<and> map_of (work s) (dep_id d) = None \<and>
        map_of (work s') = (map_of (work s))(dep_id d \<mapsto> e) \<and>
        work_start e = lo \<and> work_end e = hi)"
proof -
  define br where "br = \<lparr>range_offset = lo, range_length = hi - lo\<rparr>"
  define req' where "req' = ContentReadRequest_range (read_key req) (read_revision req)
    (read_expected_size req) br"
  define e where "e = \<lparr>work_content = c, work_start = lo, work_end = hi, work_whole = False,
    work_future = req', work_waiter_count = 0\<rparr>"
  have len: "hi - lo \<noteq> 0" using gap by simp
  have sum: "unat lo + unat (hi - lo) = unat hi"
    using gap by (simp add: unat_sub word_nat_order less_imp_le)
  have wf: "range_wf br"
    using len sum unat_u64_less [of hi] by (simp add: br_def range_wf_def range_hi_def)
  have new: "ByteRange_new lo (saturating_sub hi lo) = Inr br"
    using wf gap by (simp add: ByteRange_new_eq_Inr saturating_sub_def br_def less_imp_le)
  have run': "insert_work c req' lo hi False s = (r, s')"
    using run by (simp add: insert_range_work_def io_bind_def new req'_def)
  have "entry_wf e"
    using req gap wf
    by (simp add: entry_wf_def e_def asks_def req'_def ContentReadRequest_range_def br_def
        end_exclusive_def)
  moreover have "\<not> work_conflict e e' \<and> \<not> work_conflict e' e"
    if "map_of (work s) w = Some e'" for w e'
    using free [OF that] gap by (auto simp: work_conflict_def e_def ranges_overlap_def)
  ultimately show ?thesis
    using insert_work_laws [OF inv e_def _ _ run']
    by (fastforce simp: dep_live_def describes_def dependency_of_def e_def)
qed

text \<open>
  Starting work for a list of gaps: every gap gets one fresh item, unless the ids run out.
\<close>

lemma insert_gaps_laws:
  assumes "coord_inv s" and "asks c req"
    and "\<forall>g\<in>set gaps. fst g < snd g \<and> snd g \<le> hk_expected_size c"
    and "sorted_wrt (\<lambda>g g'. snd g \<le> fst g') gaps"
    and "\<And>g w e. g \<in> set gaps \<Longrightarrow> map_of (work s) w = Some e \<Longrightarrow> work_content e = c \<Longrightarrow>
           \<not> work_whole e \<Longrightarrow> \<not> ranges_overlap (fst g) (snd g) (work_start e) (work_end e)"
    and "insert_gaps c req gaps deps s = (r, s')"
  shows "coord_inv s' \<and> grown c (length gaps) s s' \<and>
     (case r of
        Inl err \<Rightarrow> err = exhausted \<and> next_work_id s' = - 1
      | Inr ds \<Rightarrow> \<exists>new. ds = deps @ new \<and> map dep_order new = gaps \<and> distinct (map dep_id new) \<and>
          (\<forall>d\<in>set new. dep_live c s' d \<and> map_of (work s) (dep_id d) = None) \<and>
          dom (map_of (work s')) = dom (map_of (work s)) \<union> dep_id ` set new)"
  using assms
proof (induction gaps arbitrary: deps s)
  case Nil
  then show ?case by auto
next
  case (Cons g gaps)
  obtain lo hi where g: "g = (lo, hi)" by (cases g)
  obtain r1 s1 where run1: "insert_range_work c req lo hi s = (r1, s1)" by fastforce
  note free = Cons.prems(5)
  have first: "(r1 = Inl exhausted \<and> s1 = s \<and> next_work_id s = - 1) \<or>
     (\<exists>d e. r1 = Inr d \<and> dep_start d = lo \<and> dep_end d = hi \<and> dep_live c s1 d \<and>
        coord_inv s1 \<and> grown c 1 s s1 \<and> map_of (work s) (dep_id d) = None \<and>
        map_of (work s1) = (map_of (work s))(dep_id d \<mapsto> e) \<and>
        work_start e = lo \<and> work_end e = hi)"
  proof (rule insert_range_work_laws [OF Cons.prems(1,2) _ _ _ run1])
    show "lo < hi" and "hi \<le> hk_expected_size c" using Cons.prems(3) g by simp_all
    show "\<not> ranges_overlap lo hi (work_start e) (work_end e)"
      if "map_of (work s) w = Some e" "work_content e = c" "\<not> work_whole e" for w e
      using free [OF _ that, of g] g by simp
  qed
  then show ?case
  proof (elim disjE exE conjE)
    assume "r1 = Inl exhausted" "s1 = s" "next_work_id s = - 1"
    moreover from this(1) have "(r, s') = (Inl exhausted, s1)"
      using Cons.prems(6) run1 by (simp add: g)
    ultimately show ?thesis using Cons.prems(1) by simp
  next
    fix d e
    assume d: "r1 = Inr d" "dep_start d = lo" "dep_end d = hi" "dep_live c s1 d"
      and s1: "coord_inv s1" "grown c 1 s s1" "map_of (work s) (dep_id d) = None"
        "map_of (work s1) = (map_of (work s))(dep_id d \<mapsto> e)"
        "work_start e = lo" "work_end e = hi"
    have rest: "insert_gaps c req gaps (deps @ [d]) s1 = (r, s')"
      using Cons.prems(6) run1 d(1) g by simp
    have free1: "\<not> ranges_overlap (fst g') (snd g') (work_start e') (work_end e')"
      if "g' \<in> set gaps" "map_of (work s1) w = Some e'" "work_content e' = c" "\<not> work_whole e'"
      for g' w e'
    proof (cases "w = dep_id d")
      case True
      then have "e' = e" using that(2) s1(4) by simp
      moreover have "hi \<le> fst g'" using Cons.prems(4) that(1) g by simp
      ultimately show ?thesis using s1(5,6) by (auto simp: ranges_overlap_def)
    next
      case False
      then show ?thesis using free [of g' w e'] that s1(4) by simp
    qed
    have IH: "coord_inv s' \<and> grown c (length gaps) s1 s' \<and>
      (case r of
        Inl err \<Rightarrow> err = exhausted \<and> next_work_id s' = - 1
      | Inr ds \<Rightarrow> \<exists>new. ds = (deps @ [d]) @ new \<and> map dep_order new = gaps \<and>
          distinct (map dep_id new) \<and>
          (\<forall>d\<in>set new. dep_live c s' d \<and> map_of (work s1) (dep_id d) = None) \<and>
          dom (map_of (work s')) = dom (map_of (work s1)) \<union> dep_id ` set new)"
    proof (rule Cons.IH [OF s1(1) Cons.prems(2) _ _ _ rest])
      show "\<forall>g\<in>set gaps. fst g < snd g \<and> snd g \<le> hk_expected_size c"
        and "sorted_wrt (\<lambda>g g'. snd g \<le> fst g') gaps"
        using Cons.prems(3,4) by simp_all
    qed (rule free1)
    then have inv': "coord_inv s'" and grown': "grown c (length gaps) s1 s'" by blast+
    have g': "grown c (length (g # gaps)) s s'"
      using grown_trans [OF s1(2) grown'] by simp
    show ?thesis
    proof (cases r)
      case (Inl err)
      then show ?thesis using IH g' by simp
    next
      case (Inr ds)
      with IH obtain new where new: "ds = (deps @ [d]) @ new" "map dep_order new = gaps"
        "distinct (map dep_id new)"
        "\<forall>d\<in>set new. dep_live c s' d \<and> map_of (work s1) (dep_id d) = None"
        "dom (map_of (work s')) = dom (map_of (work s1)) \<union> dep_id ` set new"
        unfolding Inr sum.case by blast
      have fresh: "dep_id d \<notin> dep_id ` set new" using new(4) s1(4) by auto
      have live: "dep_live c s' d" using grown_live [OF grown' d(4)] .
      have absent: "map_of (work s) (dep_id d') = None" if "d' \<in> set new" for d'
        using new(4) that s1(4) by (auto split: if_splits)
      show ?thesis
        unfolding Inr sum.case
      proof (intro conjI exI [of _ "d # new"])
        show "ds = deps @ d # new" using new(1) by simp
        show "map dep_order (d # new) = g # gaps"
          using new(2) d(2,3) g by (simp add: dep_order_def)
        show "distinct (map dep_id (d # new))" using fresh new(3) by simp
        show "\<forall>d\<in>set (d # new). dep_live c s' d \<and> map_of (work s) (dep_id d) = None"
          using live absent new(4) s1(3) by auto
        show "dom (map_of (work s')) = dom (map_of (work s)) \<union> dep_id ` set (d # new)"
          unfolding new(5) s1(4) by auto
      qed (rule inv' g')+
    qed
  qed
qed

text \<open>
  The effect of a successful registration: the waiter's dependencies are live, each counts one
  waiter more, no other count changes, and only items the waiter depends on were started.
\<close>

definition registered ::
  "HydrationContentKey \<Rightarrow> CoordinatorState \<Rightarrow> WorkDependency list \<Rightarrow> CoordinatorState \<Rightarrow> bool" where
  "registered c s ds s' \<longleftrightarrow>
     coord_inv s' \<and> distinct (map dep_id ds) \<and> (\<forall>d\<in>set ds. dep_live c s' d) \<and>
     (\<forall>w e. map_of (work s) w = Some e \<longrightarrow>
        (\<exists>e'. map_of (work s') w = Some e' \<and> same_work e e')) \<and>
     (\<forall>w. count_of s' w = (if w \<in> dep_id ` set ds then usize_saturating_add (count_of s w) 1
                            else count_of s w)) \<and>
     dom (map_of (work s')) = dom (map_of (work s)) \<union> dep_id ` set ds"

definition rejected ::
  "HydrationContentKey \<Rightarrow> CoordinatorState \<Rightarrow> HydrationError \<Rightarrow> CoordinatorState \<Rightarrow> bool" where
  "rejected c s err s' \<longleftrightarrow>
     s' = s \<or> err = exhausted \<and> coord_inv s' \<and> next_work_id s' = - 1 \<and> (\<exists>n. grown c n s s')"

lemma registered_by_adding:
  assumes inv: "coord_inv s1" and grown: "grown c n s s1"
    and ids: "distinct (map dep_id ds)" and live: "\<forall>d\<in>set ds. dep_live c s1 d"
    and dom1: "dom (map_of (work s1)) \<subseteq> dom (map_of (work s)) \<union> dep_id ` set ds"
  shows "registered c s ds (fold add_waiter (map dep_id ds) s1)"
proof -
  let ?s' = "fold add_waiter (map dep_id ds) s1"
  note laws = add_waiters_laws [OF inv ids]
  have live': "dep_live c ?s' d" if d: "d \<in> set ds" for d
  proof -
    obtain e where e: "map_of (work s1) (dep_id d) = Some e" "work_content e = c" "describes d e"
      using live d unfolding dep_live_def by blast
    from laws(3) [OF e(1)] obtain e' where
      e': "map_of (work ?s') (dep_id d) = Some e'" "same_work e e'" by blast
    show ?thesis
      using e e'(1) same_workD(1) [OF e'(2)] same_work_describes [OF e'(2), of d]
      by (simp add: dep_live_def)
  qed
  have kept: "\<exists>e'. map_of (work ?s') w = Some e' \<and> same_work e e'"
    if "map_of (work s) w = Some e" for w e
    using laws(3) grown_kept [OF grown that] by blast
  have present: "map_of (work s1) w \<noteq> None" if "w \<in> dep_id ` set ds" for w
    using live that unfolding dep_live_def by force
  have count: "count_of ?s' w = (if w \<in> dep_id ` set ds then usize_saturating_add (count_of s w) 1
      else count_of s w)" for w
    using laws(4) [of w] present [of w] grown_count [OF grown, of w] by simp
  have "map_of (work ?s') w = None \<longleftrightarrow> map_of (work s1) w = None" for w
    using laws(3) [of w] laws(5) [of w] by (cases "map_of (work s1) w") auto
  then have "dom (map_of (work ?s')) = dom (map_of (work s1))"
    by (simp add: dom_def)
  moreover have "dom (map_of (work s1)) = dom (map_of (work s)) \<union> dep_id ` set ds"
    using dom1 present grown by (auto simp: grown_def map_le_def dom_def) 
  ultimately show ?thesis
    unfolding registered_def using laws(1) ids live' kept count
    by (intro conjI allI impI ballI) simp_all
qed

lemma map_entry_cong:
  "map_of xs k = Some v \<Longrightarrow> f v = g v \<Longrightarrow> AList.map_entry k f xs = AList.map_entry k g xs"
  by (induction xs) (auto split: if_splits)

lemma first_waiter_eq:
  "map_of (work s) w = Some e \<Longrightarrow> work_waiter_count e = 0 \<Longrightarrow> first_waiter w s = add_waiter w s"
  unfolding first_waiter_def add_waiter_def
  by (subst map_entry_cong [of "work s" w e _ "\<lambda>entry. entry\<lparr>work_waiter_count :=
        usize_saturating_add (work_waiter_count entry) 1\<rparr>"])
    (simp_all add: usize_saturating_add_def usize_MAX_def)

lemma join_or_insert_laws:
  assumes inv: "coord_inv s" and lim: "within_limits limits s"
    and new: "e = \<lparr>work_content = c, work_start = lo, work_end = hi, work_whole = whole,
                work_future = req, work_waiter_count = 0\<rparr>"
    and wf: "entry_wf e"
    and matching: "\<And>e'. entry_wf e' \<Longrightarrow> matches e' \<Longrightarrow>
                     work_content e' = c \<and> work_start e' = lo \<and> work_end e' = hi"
    and conflict: "\<And>e'. entry_wf e' \<Longrightarrow> work_conflict e e' \<or> work_conflict e' e \<Longrightarrow> matches e'"
    and run: "join_or_insert matches limits c req lo hi whole s = (r, s')"
  shows "case r of
      Inl err \<Rightarrow> s' = s
    | Inr ds \<Rightarrow> registered c s ds s' \<and> within_limits limits s' \<and>
        (\<exists>d. ds = [d] \<and> dep_start d = lo \<and> dep_end d = hi)"
proof (cases "find (\<lambda>(w, e'). matches e') (work s)")
  case (Some we)
  obtain w e' where we: "we = (w, e')" by (cases we)
  have found: "(w, e') \<in> set (work s)" "matches e'"
    using Some unfolding find_Some_iff we by (metis nth_mem, auto)
  then have at: "map_of (work s) w = Some e'"
    using coord_invD(1) [OF inv] by simp
  note match = matching [OF coord_invD(4) [OF inv at] found(2)]
  have rs: "r = Inr [dependency_of w e']" "s' = fold add_waiter (map dep_id [dependency_of w e']) s"
    using run Some by (auto simp: join_or_insert_def we dependency_of_def)
  have "registered c s [dependency_of w e'] s'"
    unfolding rs
    by (rule registered_by_adding [OF inv grown_refl])
      (use at match in \<open>auto simp: dep_live_def describes_def dependency_of_def\<close>)
  moreover have "within_limits limits s'"
    using add_waiters_laws(2) [OF inv, of "[w]" limits] lim rs by (simp add: dependency_of_def)
  ultimately show ?thesis
    using match by (simp add: rs(1) dependency_of_def)
next
  case None
  then have none: "\<not> matches e'" if "map_of (work s) w = Some e'" for w e'
    using map_of_SomeD [OF that] by (auto simp: find_None_iff)
  have free: "\<not> work_conflict e e' \<and> \<not> work_conflict e' e" if "map_of (work s) w = Some e'" for w e'
    using none [OF that] conflict [OF coord_invD(4) [OF inv that]] by blast
  show ?thesis
  proof (cases "ensure_capacity s c 1 limits")
    case (Inl err)
    then show ?thesis using run None by (auto simp: join_or_insert_def)
  next
    case (Inr u)
    obtain r1 s1 where run1: "insert_work c req lo hi whole s = (r1, s1)" by fastforce
    have "(r1 = Inl exhausted \<and> s1 = s \<and> next_work_id s = - 1) \<or>
       (\<exists>d. r1 = Inr d \<and> d = dependency_of (next_work_id s) e \<and> coord_inv s1 \<and> grown c 1 s s1 \<and>
          map_of (work s1) = (map_of (work s))(next_work_id s \<mapsto> e) \<and>
          map_of (work s) (next_work_id s) = None)"
      by (rule insert_work_laws [OF inv new wf _ run1]) (rule free)
    then show ?thesis
    proof (elim disjE exE conjE)
      assume "r1 = Inl exhausted" "s1 = s"
      then show ?thesis using run None Inr run1 by (auto simp: join_or_insert_def)
    next
      fix d
      assume d: "r1 = Inr d" "d = dependency_of (next_work_id s) e"
        and s1: "coord_inv s1" "grown c 1 s s1"
          "map_of (work s1) = (map_of (work s))(next_work_id s \<mapsto> e)"
      have id: "dep_id d = next_work_id s" using d(2) by (simp add: dependency_of_def)
      have "first_waiter (dep_id d) s1 = add_waiter (dep_id d) s1"
        by (rule first_waiter_eq [of _ _ e]) (simp_all add: s1(3) id new)
      then have rs: "r = Inr [d]" "s' = fold add_waiter (map dep_id [d]) s1"
        using run None Inr run1 d(1) by (auto simp: join_or_insert_def)
      have "registered c s [d] s'"
        unfolding rs(2)
        by (rule registered_by_adding [OF s1(1,2)])
          (use d(2) in \<open>auto simp: dep_live_def s1(3) id new describes_def dependency_of_def\<close>)
      moreover have "within_limits limits s'"
        using add_waiters_laws(2) [OF s1(1), of "[dep_id d]" limits]
          capacity_limits [OF Inr lim s1(2,1)] rs(2) by simp
      moreover have "dep_start d = lo \<and> dep_end d = hi"
        by (simp add: d(2) dependency_of_def new)
      ultimately show ?thesis by (simp add: rs(1))
    qed
  qed
qed

lemma index_ids_distinct:
  assumes "coord_inv s"
  shows "distinct (map (snd \<circ> snd) (content_index s c))"
  using content_index_sorted [OF assms, of c] coord_invD(6) [OF assms]
  by (fastforce simp: distinct_map inj_on_def index_exact_def)

lemma takeWhile_index:
  assumes "coord_inv s"
  shows "takeWhile (\<lambda>(start, _, _). start < pe) (content_index s c) =
    filter (\<lambda>(start, _, _). start < pe) (content_index s c)"
proof (rule takeWhile_eq_filter)
  have "partitioned (\<lambda>(start, _, _). start < pe) (content_index s c)"
    by (rule sorted_wrt_partitioned [of "(\<le>)"])
      (use content_index_sorted [OF assms, of c] in \<open>auto simp: less_eq_prod_def\<close>)
  then show "\<not> (case x of (start, _, _) \<Rightarrow> start < pe)"
    if "x \<in> set (dropWhile (\<lambda>(start, _, _). start < pe) (content_index s c))" for x
    using that unfolding partitioned_def by blast
qed

lemma in_set_map_filter: "y \<in> set (List.map_filter f xs) \<longleftrightarrow> (\<exists>x\<in>set xs. f x = Some y)"
  by (force simp: List.map_filter_def)

lemma set_overlapping_work:
  assumes "coord_inv s"
  shows "d \<in> set (overlapping_work s c ps pe) \<longleftrightarrow>
    (\<exists>w e. map_of (work s) w = Some e \<and> work_content e = c \<and> work_start e < pe \<and>
       (work_whole e \<or> ranges_overlap ps pe (work_start e) (work_end e)) \<and>
       d = dependency_of w e)"
proof -
  have ix: "(a, b, w) \<in> set (content_index s c) \<longleftrightarrow> (\<exists>e. map_of (work s) w = Some e \<and>
      work_content e = c \<and> work_start e = a \<and> work_end e = b)" for a b w
    using coord_invD(6) [OF assms] by (simp add: index_exact_def)
  show ?thesis
    unfolding overlapping_work_def takeWhile_index [OF assms] in_set_map_filter dependency_of_def
    by (auto simp: ix split: option.splits if_splits) (fastforce simp: ix)+
qed

lemma distinct_map_filter_key:
  assumes "distinct (map g xs)" and "\<And>x y. f x = Some y \<Longrightarrow> h y = g x"
  shows "distinct (map h (List.map_filter f xs))"
proof -
  have "h ` set (List.map_filter f ys) \<subseteq> g ` set ys" for ys
    using assms(2) by (force simp: List.map_filter_def)
  with assms show ?thesis
    by (induction xs) (force simp: map_filter_simps split: option.splits)+
qed

lemma overlapping_work_ids:
  assumes "coord_inv s"
  shows "distinct (map dep_id (overlapping_work s c ps pe))"
  unfolding overlapping_work_def takeWhile_index [OF assms]
  by (rule distinct_map_filter_key [of "snd \<circ> snd"])
    (use distinct_map_filter [OF index_ids_distinct [OF assms, of c]] in
      \<open>auto split: option.splits if_splits\<close>)

lemma start_sorted_sort: "start_sorted (sort_key dep_order ds)"
proof -
  have "sorted_wrt (\<lambda>d d'. dep_order d \<le> dep_order d') (sort_key dep_order ds)"
    using sorted_sort_key [of dep_order ds] by (simp add: sorted_map)
  then show ?thesis
    by (rule sorted_wrt_mono_rel [rotated]) (auto simp: dep_order_def less_eq_prod_def)
qed

lemma overlapping_live:
  "coord_inv s \<Longrightarrow> d \<in> set (overlapping_work s c ps pe) \<Longrightarrow> dep_live c s d"
  by (auto simp: set_overlapping_work dep_live_def)

text \<open>No gap the sweep leaves meets a running range read of the content.\<close>

lemma gaps_free:
  assumes inv: "coord_inv s" and pe: "pe \<le> hk_expected_size c"
    and g: "g \<in> set (range_gaps pe ps (sort_key dep_order (overlapping_work s c ps pe)))"
    and e: "map_of (work s) w = Some e" "work_content e = c" "\<not> work_whole e"
  shows "\<not> ranges_overlap (fst g) (snd g) (work_start e) (work_end e)"
proof
  let ?ds = "sort_key dep_order (overlapping_work s c ps pe)"
  assume meet: "ranges_overlap (fst g) (snd g) (work_start e) (work_end e)"
  note bounds = range_gaps_bounds [OF g]
  have "entry_wf e" using coord_invD(4) [OF inv e(1)] .
  then have ne: "work_start e < work_end e"
    using meet bounds pe e by (auto simp: entry_wf_def ranges_overlap_def)
  have "dependency_of w e \<in> set ?ds"
  proof -
    have "work_start e < pe" "ranges_overlap ps pe (work_start e) (work_end e)"
      using meet bounds by (auto simp: ranges_overlap_def)
    then have "dependency_of w e \<in> set (overlapping_work s c ps pe)"
      using e by (subst set_overlapping_work [OF inv]) blast
    then show ?thesis by simp
  qed
  then have sub: "{work_start e..<work_end e} \<subseteq> deps_set ?ds"
    by (force simp: deps_set_def dep_set_def dependency_of_def)
  have "max (fst g) (work_start e) \<in> gap_set g" "max (fst g) (work_start e) \<in> {work_start e..<work_end e}"
    using meet bounds ne by (auto simp: ranges_overlap_def gap_set_def)
  moreover have "gap_set g \<inter> deps_set ?ds = {}"
    using range_gaps_exact [OF start_sorted_sort, of pe ps] g by blast
  ultimately show False using sub by blast
qed

lemma register_range_laws:
  assumes inv: "coord_inv s" and lim: "within_limits limits s" and req: "asks c req"
    and pe: "pe \<le> hk_expected_size c"
    and run: "register_range limits c req ps pe s = (r, s')"
  shows "case r of
      Inl err \<Rightarrow> rejected c s err s' \<and> within_limits limits s'
    | Inr ds \<Rightarrow> registered c s ds s' \<and> within_limits limits s' \<and> start_sorted ds \<and>
        {ps..<pe} \<subseteq> deps_set ds \<and>
        (\<Union>d\<in>{d \<in> set ds. map_of (work s) (dep_id d) = None}. dep_set d) =
          {ps..<pe} - deps_set (overlapping_work s c ps pe)"
proof -
  define old where "old = sort_key dep_order (overlapping_work s c ps pe)"
  define gaps where "gaps = range_gaps pe ps old"
  have old: "dep_live c s d" if "d \<in> set old" for d
    using that overlapping_live [OF inv] by (simp add: old_def)
  have "dep_start d \<le> dep_end d" if "d \<in> set old" for d
  proof -
    have "dep_wf c d" using dep_live_wf [OF inv old [OF that]] .
    then show ?thesis by (auto simp: dep_wf_def entry_wf_def describes_def split: if_splits)
  qed
  then have ascending: "sorted_wrt (\<lambda>g g'. snd g \<le> fst g') gaps"
    unfolding gaps_def by (intro range_gaps_ascending) blast
  have sizes: "\<forall>g\<in>set gaps. fst g < snd g \<and> snd g \<le> hk_expected_size c"
    using range_gaps_bounds pe unfolding gaps_def by (meson order_trans)
  show ?thesis
  proof (cases "ensure_capacity s c (length gaps) limits")
    case (Inl err)
    then have "r = Inl err \<and> s' = s"
      using run by (simp add: register_range_def Let_def old_def gaps_def)
    then show ?thesis using lim by (simp add: rejected_def)
  next
    case (Inr u)
    obtain r1 s1 where run1: "insert_gaps c req gaps old s = (r1, s1)" by fastforce
    have "coord_inv s1 \<and> grown c (length gaps) s s1 \<and>
     (case r1 of
        Inl err \<Rightarrow> err = exhausted \<and> next_work_id s1 = - 1
      | Inr ds \<Rightarrow> \<exists>new. ds = old @ new \<and> map dep_order new = gaps \<and> distinct (map dep_id new) \<and>
          (\<forall>d\<in>set new. dep_live c s1 d \<and> map_of (work s) (dep_id d) = None) \<and>
          dom (map_of (work s1)) = dom (map_of (work s)) \<union> dep_id ` set new)"
      by (rule insert_gaps_laws [OF inv req sizes ascending _ run1])
        (rule gaps_free [OF inv pe], simp_all add: gaps_def old_def)
    then have s1: "coord_inv s1" and grown: "grown c (length gaps) s s1"
      and ends: "case r1 of
        Inl err \<Rightarrow> err = exhausted \<and> next_work_id s1 = - 1
      | Inr ds \<Rightarrow> \<exists>new. ds = old @ new \<and> map dep_order new = gaps \<and> distinct (map dep_id new) \<and>
          (\<forall>d\<in>set new. dep_live c s1 d \<and> map_of (work s) (dep_id d) = None) \<and>
          dom (map_of (work s1)) = dom (map_of (work s)) \<union> dep_id ` set new"
      by blast+
    have lim1: "within_limits limits s1" using capacity_limits [OF Inr lim grown s1] .
    show ?thesis
    proof (cases r1)
      case (Inl err)
      then have "r = Inl err \<and> s' = s1"
        using run run1 Inr by (simp add: register_range_def Let_def old_def [symmetric] gaps_def [symmetric])
      then show ?thesis using ends Inl s1 grown lim1 by (auto simp: rejected_def)
    next
      case (Inr all)
      define ds where "ds = sort_key dep_order all"
      have rs: "r = Inr ds" "s' = fold add_waiter (map dep_id ds) s1"
        using run run1 Inr \<open>ensure_capacity s c (length gaps) limits = Inr u\<close>
        by (simp_all add: register_range_def Let_def old_def [symmetric] gaps_def [symmetric]
            ds_def fold_map comp_def)
      obtain new where new: "all = old @ new" "map dep_order new = gaps" "distinct (map dep_id new)"
        "\<forall>d\<in>set new. dep_live c s1 d \<and> map_of (work s) (dep_id d) = None"
        "dom (map_of (work s1)) = dom (map_of (work s)) \<union> dep_id ` set new"
        using ends unfolding Inr sum.case by blast
      have set_ds: "set ds = set old \<union> set new" by (simp add: ds_def new(1))
      have live: "\<forall>d\<in>set ds. dep_live c s1 d"
        using new(4) grown_live [OF grown old] set_ds by blast
      have "dep_id ` set old \<inter> dep_id ` set new = {}"
        using new(4) old by (force simp: dep_live_def)
      moreover have "distinct (map dep_id old)"
        using overlapping_work_ids [OF inv, of c ps pe] by (simp add: old_def distinct_map)
      ultimately have ids: "distinct (map dep_id ds)"
        using new(3) by (auto simp: ds_def new(1) distinct_map inj_on_Un)
      have reg: "registered c s ds s'"
        unfolding rs(2)
        by (rule registered_by_adding [OF s1 grown ids live]) (use new(5) set_ds in blast)
      have "{d \<in> set ds. map_of (work s) (dep_id d) = None} = set new"
        using set_ds new(4) old by (fastforce simp: dep_live_def)
      then have fresh: "(\<Union>d\<in>{d \<in> set ds. map_of (work s) (dep_id d) = None}. dep_set d) = deps_set new"
        by (simp add: deps_set_def)
      have "{ps..<pe} \<subseteq> deps_set ds \<and> deps_set new = {ps..<pe} - deps_set old"
      proof -
        have gap: "gap_set (dep_order d) = dep_set d" for d
          by (simp add: gap_set_def dep_set_def dep_order_def)
        have "deps_set new = (\<Union>g\<in>set gaps. gap_set g)"
          unfolding new(2) [symmetric] by (simp add: deps_set_def gap)
        moreover have "(\<Union>g\<in>set gaps. gap_set g) = {ps..<pe} - deps_set old"
          unfolding gaps_def by (rule range_gaps_exact) (simp add: old_def start_sorted_sort)
        moreover have "deps_set ds = deps_set old \<union> deps_set new"
          by (simp add: deps_set_def set_ds UN_Un)
        ultimately show ?thesis by blast
      qed
      moreover have "deps_set old = deps_set (overlapping_work s c ps pe)"
        by (simp add: deps_set_def old_def)
      ultimately show ?thesis
        using reg lim1 fresh add_waiters_laws(2) [OF s1 ids, of limits]
        by (simp add: rs start_sorted_sort [of all, folded ds_def])
    qed
  qed
qed

text \<open>The index of a content lists its work items, each once.\<close>

lemma content_index_length:
  assumes "coord_inv s"
  shows "length (content_index s c) = length (filter (\<lambda>(w, e). work_content e = c) (work s))"
proof -
  let ?f = "filter (\<lambda>(w, e). work_content e = c) (work s)"
  have "distinct (map fst ?f)" using distinct_map_filter [OF coord_invD(1) [OF assms]] .
  moreover have "set (map (snd \<circ> snd) (content_index s c)) = set (map fst ?f)"
    using coord_invD(1,6) [OF assms] by (force simp: index_exact_def)
  ultimately have "length (map (snd \<circ> snd) (content_index s c)) = length (map fst ?f)"
    using index_ids_distinct [OF assms, of c] distinct_card by metis
  then show ?thesis by simp
qed

text \<open>The bytes of a range no running item of the content covers.\<close>

lemma uncovered_eq:
  assumes "coord_inv s"
  shows "{ps..<pe} - deps_set (overlapping_work s c ps pe) =
    {ps..<pe} - (\<Union>(w, e)\<in>{(w, e). map_of (work s) w = Some e \<and> work_content e = c}.
      {work_start e..<work_end e})"
proof -
  have "x \<in> deps_set (overlapping_work s c ps pe) \<longleftrightarrow>
      (\<exists>w e. map_of (work s) w = Some e \<and> work_content e = c \<and> x \<in> {work_start e..<work_end e})"
    if x: "x \<in> {ps..<pe}" for x
  proof
    assume "x \<in> deps_set (overlapping_work s c ps pe)"
    then show "\<exists>w e. map_of (work s) w = Some e \<and> work_content e = c \<and> x \<in> {work_start e..<work_end e}"
      by (fastforce simp: deps_set_def set_overlapping_work [OF assms] dep_set_def dependency_of_def)
  next
    assume "\<exists>w e. map_of (work s) w = Some e \<and> work_content e = c \<and> x \<in> {work_start e..<work_end e}"
    then obtain w e where e: "map_of (work s) w = Some e" "work_content e = c"
      "x \<in> {work_start e..<work_end e}" by blast
    then have "ranges_overlap ps pe (work_start e) (work_end e)" "work_start e < pe"
      using x by (auto simp: ranges_overlap_def)
    then have "dependency_of w e \<in> set (overlapping_work s c ps pe)"
      using e(1,2) by (subst set_overlapping_work [OF assms]) blast
    then show "x \<in> deps_set (overlapping_work s c ps pe)"
      using e(3) by (force simp: deps_set_def dep_set_def dependency_of_def)
  qed
  then show ?thesis by blast
qed

end
