(* ===== verification/Hydration_System.thy ===== *)
theory Hydration_System
  imports Hydration_Laws
begin

text \<open>
  The coordinator together with its waiters: releasing work, the terminal race between
  cancellation and completion, every interleaving of the public calls, and the bytes a waiter
  resolves to.
\<close>

section \<open>Releasing work\<close>

lemma drop_work_laws:
  assumes inv: "coord_inv s" and at: "map_of (work s) w = Some e"
  shows "coord_inv (drop_work w s)"
    and "map_of (work (drop_work w s)) = (map_of (work s))(w := None)"
    and "next_work_id (drop_work w s) = next_work_id s"
    and "length (work (drop_work w s)) \<le> length (work s)"
    and "length (content_index (drop_work w s) c) \<le> length (content_index s c)"
proof -
  let ?t = "(work_start e, work_end e, w)" and ?c = "work_content e"
  define ix where "ix = remove1 ?t (content_index s ?c)"
  have mem: "?t \<in> set (content_index s ?c)"
    using coord_invD(6) [OF inv] at unfolding index_exact_def by blast
  then obtain old where old: "map_of (by_content s) ?c = Some old" "content_index s ?c = old"
    by (cases "map_of (by_content s) ?c") (auto simp: content_index_def)
  have s': "drop_work w s = s\<lparr>work := AList.delete w (work s), by_content :=
      (if ix = [] then AList.delete ?c (by_content s) else AList.update ?c ix (by_content s))\<rparr>"
    using at old by (simp add: drop_work_def Let_def ix_def)
  show W: "map_of (work (drop_work w s)) = (map_of (work s))(w := None)"
    and nxt: "next_work_id (drop_work w s) = next_work_id s"
    and "length (work (drop_work w s)) \<le> length (work s)"
    by (simp_all add: s' delete_conv' length_delete_le)
  have ci: "content_index (drop_work w s) c' = (if c' = ?c then ix else content_index s c')" for c'
    by (simp add: s' content_index_def delete_conv' update_conv')
  have dist: "sorted ix" "distinct ix" "set ix = set (content_index s ?c) - {?t}"
    using content_index_sorted [OF inv, of ?c] by (simp_all add: ix_def sorted_remove1)
  show "length (content_index (drop_work w s) c) \<le> length (content_index s c)"
    by (simp add: ci ix_def length_remove1)
  have exact: "index_exact (drop_work w s)"
    using coord_invD(6) [OF inv] at unfolding index_exact_def ci W
    by (auto simp: dist(3) split: if_splits)
  have indices: "ix' \<noteq> [] \<and> sorted ix' \<and> distinct ix'"
    if "map_of (by_content (drop_work w s)) c' = Some ix'" for c' ix'
    using that dist(1,2) coord_invD(5) [OF inv]
    by (auto simp: s' delete_conv' update_conv' split: if_splits)
  have keys: "distinct (map fst (work (drop_work w s)))"
    "distinct (map fst (by_content (drop_work w s)))"
    using coord_invD(1,2) [OF inv] by (simp_all add: s' distinct_update distinct_delete)
  have older: "map_of (work s) v = Some e'" if "map_of (work (drop_work w s)) v = Some e'" for v e'
    using that by (simp add: W split: if_splits)
  show "coord_inv (drop_work w s)"
    unfolding coord_inv_def nxt
  proof (intro conjI allI impI)
    fix v e' assume "map_of (work (drop_work w s)) v = Some e'"
    note old = older [OF this]
    show "v < next_work_id s" and "entry_wf e'"
      using coord_invD(3,4) [OF inv old] by blast+
  next
    fix v v' d d'
    assume "v \<noteq> v'" "map_of (work (drop_work w s)) v = Some d"
      "map_of (work (drop_work w s)) v' = Some d'"
    then show "\<not> work_conflict d d'" using coord_invD(7) [OF inv] older by metis
  qed (use keys exact indices in blast)+
qed

lemma release_one_laws:
  assumes inv: "coord_inv s"
  shows "coord_inv (release_one w s)" and "shrunk s (release_one w s)"
    and "count_of (release_one w s) v = count_of s v - of_bool (v = w)"
proof -
  have "coord_inv (release_one w s) \<and> shrunk s (release_one w s) \<and>
      count_of (release_one w s) v = count_of s v - of_bool (v = w)"
  proof (cases "map_of (work s) w")
    case None
    then show ?thesis using inv by (simp add: release_one_def count_of_def)
  next
    case (Some e)
    define n where "n = usize_saturating_sub (work_waiter_count e) 1"
    define s1 where "s1 = s\<lparr>work := AList.map_entry w (\<lambda>e. e\<lparr>work_waiter_count := n\<rparr>) (work s)\<rparr>"
    have W1: "map_of (work s1) = (map_of (work s))(w \<mapsto> e\<lparr>work_waiter_count := n\<rparr>)"
      using Some by (simp add: s1_def map_of_map_entry)
    have inv1: "coord_inv s1"
      by (rule recount_inv [OF inv])
        (use Some in \<open>auto simp: s1_def map_of_map_entry intro: option.rel_refl\<close>)
    have ci1: "content_index s1 = content_index s"
      by (simp add: s1_def content_index_def fun_eq_iff)
    have len1: "length (work s1) = length (work s)"
    proof -
      have "map fst (work s1) = map fst (work s)" by (simp add: s1_def)
      then show ?thesis by (metis length_map)
    qed
    show ?thesis
    proof (cases "n = 0")
      case True
      then have r: "release_one w s = drop_work w s1"
        using Some by (simp add: release_one_def Let_def n_def s1_def)
      have at1: "map_of (work s1) w = Some (e\<lparr>work_waiter_count := n\<rparr>)" by (simp add: W1)
      note laws = drop_work_laws [OF inv1 at1]
      have "shrunk s (drop_work w s1)"
        unfolding shrunk_def laws(2) W1
        using laws(3-5) ci1 len1 by (auto simp: s1_def)
      moreover have "count_of (drop_work w s1) v = count_of s v - of_bool (v = w)"
        using True Some
        by (auto simp: count_of_def laws(2) W1 n_def usize_saturating_sub_def)
      ultimately show ?thesis using laws(1) r by simp
    next
      case False
      then have r: "release_one w s = s1"
        using Some by (simp add: release_one_def Let_def n_def s1_def)
      have "shrunk s s1"
        unfolding shrunk_def W1 ci1 len1 using Some False by (auto simp: s1_def)
      moreover have "count_of s1 v = count_of s v - of_bool (v = w)"
        using Some by (auto simp: count_of_def W1 n_def usize_saturating_sub_def)
      ultimately show ?thesis using inv1 r by simp
    qed
  qed
  then show "coord_inv (release_one w s)" and "shrunk s (release_one w s)"
    and "count_of (release_one w s) v = count_of s v - of_bool (v = w)" by blast+
qed

lemma release_all_laws:
  assumes "coord_inv s" and "distinct ws"
  shows "coord_inv (fold release_one ws s) \<and> shrunk s (fold release_one ws s) \<and>
    count_of (fold release_one ws s) v = count_of s v - of_bool (v \<in> set ws)"
  using assms
proof (induction ws arbitrary: s)
  case Nil
  then show ?case by simp
next
  case (Cons w ws)
  note one = release_one_laws [OF Cons.prems(1)]
  have "coord_inv (fold release_one ws (release_one w s)) \<and>
      shrunk (release_one w s) (fold release_one ws (release_one w s)) \<and>
      count_of (fold release_one ws (release_one w s)) v =
        count_of (release_one w s) v - of_bool (v \<in> set ws)"
    using Cons.IH [OF one(1)] Cons.prems(2) by simp
  then show ?case
    using shrunk_trans [OF one(2)] one(3) [of w v] Cons.prems(2) by auto
qed

section \<open>Requesting\<close>

definition request_wf :: "HydrationRequest \<Rightarrow> bool" where
  "request_wf req \<longleftrightarrow>
     alignment_get (hr_alignment req) \<noteq> 0 \<and>
     (case read_range (hr_read req) of Whole \<Rightarrow> True | Range r \<Rightarrow> range_wf r)"

definition inner_wf :: "WaiterInner \<Rightarrow> bool" where
  "inner_wf inner \<longleftrightarrow>
     terminal inner \<in> {TERMINAL_PENDING, TERMINAL_COMPLETED, TERMINAL_CANCELLED} \<and>
     released inner = (terminal inner \<noteq> TERMINAL_PENDING) \<and>
     cancel_tx inner = (terminal inner = TERMINAL_PENDING) \<and>
     cancel_signal inner = (terminal inner = TERMINAL_CANCELLED)"

definition waiter_wf :: "HydrationWaiter \<Rightarrow> bool" where
  "waiter_wf w \<longleftrightarrow>
     request_wf (hw_request w) \<and>
     logical_extent (hr_read (hw_request w)) = Inr (hw_target_start w, hw_target_end w) \<and>
     start_sorted (hw_dependencies w) \<and> distinct (map dep_id (hw_dependencies w)) \<and>
     work_ids (hw_inner w) = map dep_id (hw_dependencies w) \<and>
     (\<forall>d\<in>set (hw_dependencies w). dep_wf (from_request (hw_request w)) d) \<and>
     {hw_target_start w..<hw_target_end w} \<subseteq> deps_set (hw_dependencies w) \<and>
     inner_wf (hw_inner w) \<and>
     (hw_finished w \<longrightarrow> terminal (hw_inner w) \<noteq> TERMINAL_PENDING)"

lemmas terminal_defs = TERMINAL_PENDING_def TERMINAL_COMPLETED_def TERMINAL_CANCELLED_def

lemma asks_from_request [simp]: "asks (from_request req) (hr_read req)"
  by (simp add: asks_def from_request_def)

lemma hk_size_from_request [simp]:
  "hk_expected_size (from_request req) = read_expected_size (hr_read req)"
  by (simp add: from_request_def)

definition registration_ok ::
  "HydrationLimits \<Rightarrow> HydrationContentKey \<Rightarrow> CoordinatorState \<Rightarrow> u64 \<Rightarrow> u64
   \<Rightarrow> HydrationError + WorkDependency list \<Rightarrow> CoordinatorState \<Rightarrow> bool" where
  "registration_ok limits c s lo hi r s' \<longleftrightarrow>
     within_limits limits s' \<and>
     (case r of
        Inl err \<Rightarrow> rejected c s err s'
      | Inr ds \<Rightarrow> registered c s ds s' \<and> start_sorted ds \<and> {lo..<hi} \<subseteq> deps_set ds)"

lemma single_registration:
  assumes "case r of
      Inl err \<Rightarrow> s' = s
    | Inr ds \<Rightarrow> registered c s ds s' \<and> within_limits limits s' \<and>
        (\<exists>d. ds = [d] \<and> dep_start d = lo \<and> dep_end d = hi)"
    and "within_limits limits s"
  shows "registration_ok limits c s lo hi r s'"
  using assms by (auto simp: registration_ok_def rejected_def dep_set_def split: sum.splits)

lemma entry_end: "entry_wf e \<Longrightarrow> work_end e \<le> hk_expected_size (work_content e)"
  by (auto simp: entry_wf_def split: if_splits)

lemma register_whole_ok:
  assumes "coord_inv s" and "within_limits limits s" and "read_range (hr_read req) = Whole"
    and "register_whole limits (from_request req) (hr_read req) s = (r, s')"
  shows "registration_ok limits (from_request req) s 0 (read_expected_size (hr_read req)) r s'"
proof -
  note run = assms(4) [unfolded register_whole_def hk_size_from_request]
  show ?thesis
    by (rule single_registration [OF join_or_insert_laws [OF assms(1,2) refl _ _ _ run] assms(2)])
      (use assms(3) in \<open>auto simp: entry_wf_def work_conflict_def\<close>)
qed

lemma register_empty_ok:
  assumes "coord_inv s" and "within_limits limits s" and "read_range (hr_read req) = Range br"
    and "range_wf br" and "range_offset br = off" and "off = read_expected_size (hr_read req)"
    and "register_empty_range limits (from_request req) (hr_read req) off s = (r, s')"
  shows "registration_ok limits (from_request req) s off off r s'"
proof -
  note run = assms(7) [unfolded register_empty_range_def]
  have bound: "work_end e \<le> off" if "entry_wf e" "work_content e = from_request req" for e
    using entry_end [OF that(1)] that(2) assms(6) by simp
  show ?thesis
  proof (rule single_registration [OF join_or_insert_laws [OF assms(1,2) refl _ _ _ run] assms(2)])
    fix e' :: WorkEntry
    let ?e = "\<lparr>work_content = from_request req, work_start = off, work_end = off, work_whole = False,
      work_future = hr_read req, work_waiter_count = 0\<rparr>"
    assume "entry_wf e'" "work_conflict ?e e' \<or> work_conflict e' ?e"
    then show "work_content e' = from_request req \<and> \<not> work_whole e' \<and> work_start e' = off \<and>
        work_end e' = off"
      using bound [of e'] by (auto simp: work_conflict_def ranges_overlap_def)
  qed (use assms(3-6) in \<open>auto simp: entry_wf_def\<close>)
qed

lemma register_range_ok:
  assumes "coord_inv s" and "within_limits limits s"
    and "aligned_extent lo hi (read_expected_size (hr_read req)) (hr_alignment req) = Inr (ps, pe)"
    and "request_wf req" and "lo \<le> hi" and "hi \<le> read_expected_size (hr_read req)"
    and "register_range limits (from_request req) (hr_read req) ps pe s = (r, s')"
  shows "registration_ok limits (from_request req) s lo hi r s'"
proof -
  have "alignment_get (hr_alignment req) \<noteq> 0" using assms(4) by (simp add: request_wf_def)
  note ext = aligned_extent_ok [OF assms(3) this assms(5,6)]
  have "pe \<le> hk_expected_size (from_request req)" using ext(3) by simp
  from register_range_laws [OF assms(1,2) asks_from_request this assms(7)]
  show ?thesis using ext(1,2)
    by (fastforce simp: registration_ok_def split: sum.splits)
qed

lemma request_laws:
  assumes inv: "coord_inv s" and lim: "within_limits limits s" and wf: "request_wf req"
    and run: "HydrationCoordinator_request limits req s = (r, s')"
  shows "within_limits limits s' \<and>
    (case r of
       Inl err \<Rightarrow> rejected (from_request req) s err s'
     | Inr w \<Rightarrow> waiter_wf w \<and> hw_request w = req \<and> \<not> released (hw_inner w) \<and> \<not> hw_finished w \<and>
         registered (from_request req) s (hw_dependencies w) s')"
proof (cases "logical_extent (hr_read req)")
  case (Inl err)
  then have "r = Inl err \<and> s' = s"
    using run by (simp add: HydrationCoordinator_request_def Let_def io_bind_def)
  then show ?thesis using lim by (simp add: rejected_def)
next
  case (Inr ext)
  obtain lo hi where lohi: "ext = (lo, hi)" by (cases ext)
  have wf': "\<And>br. read_range (hr_read req) = Range br \<Longrightarrow> range_wf br"
    using wf by (simp add: request_wf_def)
  note logical = logical_extent_ok [OF Inr [unfolded lohi] wf']
  define reg where "reg = (case read_range (hr_read req) of
      Whole \<Rightarrow> register_whole limits (from_request req) (hr_read req)
    | Range _ \<Rightarrow>
        if lo = hi then register_empty_range limits (from_request req) (hr_read req) lo
        else io_bind (io_lift (aligned_extent lo hi (hk_expected_size (from_request req))
               (hr_alignment req)))
             (\<lambda>(ps, pe). register_range limits (from_request req) (hr_read req) ps pe))"
  obtain r1 s1 where run1: "reg s = (r1, s1)" by fastforce
  have ok: "registration_ok limits (from_request req) s lo hi r1 s1"
  proof (cases "read_range (hr_read req)")
    case Whole
    then show ?thesis
      using run1 Inr lohi register_whole_ok [OF inv lim Whole]
      by (auto simp: reg_def logical_extent_def)
  next
    case (Range br)
    have lo: "range_offset br = lo" using Inr lohi Range by (auto simp: logical_extent_def split: if_splits)
    show ?thesis
    proof (cases "lo = hi")
      case True
      have "range_lo br < range_hi br" using range_lo_less_hi [OF wf' [OF Range]] .
      then have "lo = read_expected_size (hr_read req)"
        using Inr lohi True Range unat_end_exclusive [OF wf' [OF Range]]
        by (auto simp: logical_extent_def min_def range_lo_def split: if_splits)
      then show ?thesis
        using run1 True Range register_empty_ok [OF inv lim Range wf' [OF Range] lo]
        by (simp add: reg_def)
    next
      case False
      show ?thesis
      proof (cases "aligned_extent lo hi (read_expected_size (hr_read req)) (hr_alignment req)")
        case (Inl err)
        then show ?thesis using run1 Range False lim
          by (auto simp: reg_def io_bind_def registration_ok_def rejected_def)
      next
        case (Inr phys)
        then show ?thesis
          using run1 Range False register_range_ok [OF inv lim _ wf logical(1,2)]
          by (cases phys) (auto simp: reg_def io_bind_def)
      qed
    qed
  qed
  have run2: "(r, s') = (case r1 of
      Inl err \<Rightarrow> (Inl err, s1)
    | Inr ds \<Rightarrow> (Inr \<lparr>hw_request = req, hw_target_start = lo, hw_target_end = hi,
        hw_dependencies = ds, hw_inner = \<lparr>terminal = TERMINAL_PENDING, released = False,
          work_ids = map dep_id ds, cancel_tx = True, cancel_signal = False\<rparr>,
        hw_finished = False\<rparr>, s1))"
    using run run1 unfolding HydrationCoordinator_request_def Let_def Inr lohi io_bind_def [of _ _ s]
      io_lift_apply prod.case sum.case reg_def [symmetric]
    by (auto split: sum.splits)
  show ?thesis
  proof (cases r1)
    case (Inl err)
    then show ?thesis using run2 ok by (simp add: registration_ok_def)
  next
    case (Inr ds)
    have reg: "registered (from_request req) s ds s1" "start_sorted ds" "{lo..<hi} \<subseteq> deps_set ds"
      "within_limits limits s1"
      using ok Inr by (simp_all add: registration_ok_def)
    have "\<forall>d\<in>set ds. dep_wf (from_request req) d" and "distinct (map dep_id ds)"
      using reg(1) dep_live_wf unfolding registered_def by blast+
    then show ?thesis
      using run2 Inr reg wf \<open>logical_extent (hr_read req) = Inr ext\<close> lohi
      by (simp add: waiter_wf_def inner_wf_def terminal_defs)
  qed
qed

section \<open>Interleavings of the public calls\<close>

text \<open>
  The coordinator, unless it was dropped, and every waiter it ever returned. \<open>WaitOp\<close> carries
  the side of the \<open>select\<close> that became ready; a step is enabled when the runtime can take it:
  the joined reads deliver what the backend answered, and the cancellation side is ready only
  after the signal was sent. Fewer than \<open>usize::MAX\<close> waiters exist at a time.
\<close>

record HydrationSystem =
  hs_coordinator :: "CoordinatorState option"
  hs_waiters :: "HydrationWaiter list"

datatype hydration_op =
    RequestOp HydrationRequest
  | CancelOp nat
  | WaitOp nat "(HydrationError + ContentReadResponse list) option"
  | DropOp nat
  | DropCoordinatorOp

fun hydration_apply ::
  "HydrationLimits \<Rightarrow> hydration_op \<Rightarrow> HydrationSystem \<Rightarrow> HydrationSystem" where
  "hydration_apply limits (RequestOp req) sys =
     (case hs_coordinator sys of
        None \<Rightarrow> sys
      | Some s \<Rightarrow>
          (case HydrationCoordinator_request limits req s of
             (Inl _, s') \<Rightarrow> sys\<lparr>hs_coordinator := Some s'\<rparr>
           | (Inr w, s') \<Rightarrow>
               sys\<lparr>hs_coordinator := Some s', hs_waiters := hs_waiters sys @ [w]\<rparr>))"
| "hydration_apply limits (CancelOp i) sys =
     (let w = hs_waiters sys ! i in
      case WaiterInner_cancel (hw_inner w) (hs_coordinator sys) of
        (_, inner, coordinator) \<Rightarrow>
          \<lparr>hs_coordinator = coordinator,
           hs_waiters = (hs_waiters sys)[i := w\<lparr>hw_inner := inner\<rparr>]\<rparr>)"
| "hydration_apply limits (WaitOp i selected) sys =
     (case HydrationWaiter_wait selected (hs_waiters sys ! i) (hs_coordinator sys) of
        (_, w, coordinator) \<Rightarrow>
          \<lparr>hs_coordinator = coordinator, hs_waiters = (hs_waiters sys)[i := w]\<rparr>)"
| "hydration_apply limits (DropOp i) sys =
     (case HydrationWaiter_drop (hs_waiters sys ! i) (hs_coordinator sys) of
        (w, coordinator) \<Rightarrow>
          \<lparr>hs_coordinator = coordinator, hs_waiters = (hs_waiters sys)[i := w]\<rparr>)"
| "hydration_apply limits DropCoordinatorOp sys = sys\<lparr>hs_coordinator := None\<rparr>"

fun hydration_enabled :: "answers \<Rightarrow> hydration_op \<Rightarrow> HydrationSystem \<Rightarrow> bool" where
  "hydration_enabled backend (RequestOp req) sys \<longleftrightarrow>
     request_wf req \<and> length (hs_waiters sys) < usize_MAX"
| "hydration_enabled backend (CancelOp i) sys \<longleftrightarrow> i < length (hs_waiters sys)"
| "hydration_enabled backend (WaitOp i selected) sys \<longleftrightarrow>
     i < length (hs_waiters sys) \<and> \<not> hw_finished (hs_waiters sys ! i) \<and>
     (case selected of
        None \<Rightarrow> cancel_signal (hw_inner (hs_waiters sys ! i))
      | Some result \<Rightarrow> joined backend (hw_dependencies (hs_waiters sys ! i)) result)"
| "hydration_enabled backend (DropOp i) sys \<longleftrightarrow> i < length (hs_waiters sys)"
| "hydration_enabled backend DropCoordinatorOp sys \<longleftrightarrow> True"

inductive hydration_reachable :: "HydrationLimits \<Rightarrow> answers \<Rightarrow> HydrationSystem \<Rightarrow> bool"
  for limits :: HydrationLimits and backend :: answers where
  start: "hydration_reachable limits backend
     \<lparr>hs_coordinator = Some CoordinatorState_default, hs_waiters = []\<rparr>"
| step: "hydration_reachable limits backend sys \<Longrightarrow> hydration_enabled backend op sys \<Longrightarrow>
     hydration_reachable limits backend (hydration_apply limits op sys)"

definition holds_work :: "u64 \<Rightarrow> HydrationWaiter \<Rightarrow> bool" where
  "holds_work v w \<longleftrightarrow> \<not> released (hw_inner w) \<and> v \<in> set (work_ids (hw_inner w))"

definition live_count :: "HydrationWaiter list \<Rightarrow> u64 \<Rightarrow> nat" where
  "live_count ws v = length (filter (holds_work v) ws)"

definition coordinated :: "HydrationLimits \<Rightarrow> HydrationWaiter list \<Rightarrow> CoordinatorState \<Rightarrow> bool" where
  "coordinated limits ws s \<longleftrightarrow>
     coord_inv s \<and> within_limits limits s \<and>
     (\<forall>w\<in>set ws. \<not> released (hw_inner w) \<longrightarrow>
        (\<forall>d\<in>set (hw_dependencies w). dep_live (from_request (hw_request w)) s d)) \<and>
     (\<forall>v. count_of s v = live_count ws v) \<and>
     (\<forall>v e. map_of (work s) v = Some e \<longrightarrow> work_waiter_count e = 0 \<longrightarrow> next_work_id s = - 1)"

definition system_inv :: "HydrationLimits \<Rightarrow> HydrationSystem \<Rightarrow> bool" where
  "system_inv limits sys \<longleftrightarrow>
     (\<forall>w\<in>set (hs_waiters sys). waiter_wf w) \<and> length (hs_waiters sys) \<le> usize_MAX \<and>
     (case hs_coordinator sys of None \<Rightarrow> True | Some s \<Rightarrow> coordinated limits (hs_waiters sys) s)"

lemma live_count_simps [simp]:
  "live_count [] v = 0"
  "live_count (ws @ [w]) v = live_count ws v + of_bool (holds_work v w)"
  by (simp_all add: live_count_def)

lemma live_count_le: "live_count ws v \<le> length ws"
  by (simp add: live_count_def)

lemma live_count_update:
  assumes "i < length ws"
  shows "live_count (ws[i := w]) v + of_bool (holds_work v (ws ! i)) =
    live_count ws v + of_bool (holds_work v w)"
proof -
  have "ws = take i ws @ ws ! i # drop (Suc i) ws" using assms by (rule id_take_nth_drop)
  then have "live_count ws v = length (filter (holds_work v) (take i ws @ ws ! i # drop (Suc i) ws))"
    by (simp add: live_count_def)
  moreover have "ws[i := w] = take i ws @ w # drop (Suc i) ws"
    using assms by (rule upd_conv_take_nth_drop)
  ultimately show ?thesis by (simp add: live_count_def)
qed

lemma live_count_pos: "w \<in> set ws \<Longrightarrow> holds_work v w \<Longrightarrow> 0 < live_count ws v"
  by (auto simp: live_count_def filter_empty_conv)

lemma dep_live_same:
  assumes "dep_live c s d" and "map_of (work s') (dep_id d) = Some e'"
    and "map_of (work s) (dep_id d) = Some e" and "same_work e e'"
  shows "dep_live c s' d"
  using assms(1-3) same_workD(1) [OF assms(4)] same_work_describes [OF assms(4), of d]
  by (auto simp: dep_live_def)

subsection \<open>Registering\<close>

lemma insert_work_next:
  "insert_work c req lo hi whole s = (r, s') \<Longrightarrow> next_work_id s \<le> next_work_id s'"
  by (auto simp: insert_work_def Let_def word_le_nat_alt unat_ops split: option.splits)

lemma insert_gaps_next:
  "insert_gaps c req gaps ds s = (r, s') \<Longrightarrow> next_work_id s \<le> next_work_id s'"
proof (induction gaps arbitrary: ds s)
  case (Cons g gaps)
  obtain lo hi where g: "g = (lo, hi)" by (cases g)
  obtain r1 s1 where run1: "insert_range_work c req lo hi s = (r1, s1)" by fastforce
  then have "next_work_id s \<le> next_work_id s1"
    by (auto simp: insert_range_work_def io_bind_def split: sum.splits dest: insert_work_next)
  moreover have "next_work_id s1 \<le> next_work_id s'"
    using Cons.prems Cons.IH run1 g by (auto split: sum.splits)
  ultimately show ?case by (rule order_trans)
qed simp

lemma add_waiters_next [simp]: "next_work_id (fold (\<lambda>d. add_waiter (dep_id d)) ds s) = next_work_id s"
  by (induction ds arbitrary: s) auto

lemma join_or_insert_next:
  "join_or_insert m limits c req lo hi whole s = (r, s') \<Longrightarrow> next_work_id s \<le> next_work_id s'"
  by (auto simp: join_or_insert_def first_waiter_def split: option.splits prod.splits sum.splits
      dest: insert_work_next)

lemma register_range_next:
  "register_range limits c req ps pe s = (r, s') \<Longrightarrow> next_work_id s \<le> next_work_id s'"
  by (auto simp: register_range_def Let_def split: prod.splits sum.splits dest: insert_gaps_next)

lemma request_next:
  "HydrationCoordinator_request limits req s = (r, s') \<Longrightarrow> next_work_id s \<le> next_work_id s'"
  by (auto simp: HydrationCoordinator_request_def Let_def io_bind_def register_whole_def
      register_empty_range_def split: prod.splits sum.splits ContentReadRange.splits if_splits
      dest: join_or_insert_next register_range_next)

lemma register_coordinated:
  assumes co: "coordinated limits ws s"
    and reg: "registered (from_request (hw_request w)) s (hw_dependencies w) s'"
    and lim: "within_limits limits s'" and wf: "waiter_wf w" and fresh: "\<not> released (hw_inner w)"
    and room: "length ws < usize_MAX"
    and nxt: "next_work_id s \<le> next_work_id s'"
  shows "coordinated limits (ws @ [w]) s'"
proof -
  have ids: "set (work_ids (hw_inner w)) = dep_id ` set (hw_dependencies w)"
    using wf by (simp add: waiter_wf_def)
  have count: "count_of s v = live_count ws v" for v using co by (simp add: coordinated_def)
  have "live_count ws v < usize_MAX" for v
    using live_count_le [of ws v] room by (rule le_less_trans)
  then have bump: "usize_saturating_add (count_of s v) 1 = count_of s v + 1" for v
    using count [of v] by (simp add: usize_saturating_add_def Suc_le_eq)
  have count': "count_of s' v = live_count (ws @ [w]) v" for v
    using reg count bump ids fresh by (simp add: registered_def holds_work_def)
  have live: "dep_live (from_request (hw_request u)) s' d"
    if "u \<in> set (ws @ [w])" "\<not> released (hw_inner u)" "d \<in> set (hw_dependencies u)" for u d
  proof (cases "u = w")
    case True
    then show ?thesis using reg that(3) by (simp add: registered_def)
  next
    case False
    then have old: "dep_live (from_request (hw_request u)) s d"
      using co that by (simp add: coordinated_def)
    then obtain e where e: "map_of (work s) (dep_id d) = Some e" by (auto simp: dep_live_def)
    then obtain e' where "map_of (work s') (dep_id d) = Some e'" "same_work e e'"
      using reg unfolding registered_def by blast
    then show ?thesis using dep_live_same [OF old _ e] by blast
  qed
  have zero: "next_work_id s' = - 1" if "map_of (work s') v = Some e'" "work_waiter_count e' = 0" for v e'
  proof -
    have none: "count_of s' v = 0" using that by (simp add: count_of_def)
    have nin: "v \<notin> dep_id ` set (hw_dependencies w)"
      using reg bump none by (auto simp: registered_def)
    moreover have "v \<in> dom (map_of (work s'))" using that(1) by blast
    ultimately obtain e where e: "map_of (work s) v = Some e"
      using reg unfolding registered_def by blast
    moreover have "count_of s v = 0"
      using none reg nin by (simp add: registered_def)
    ultimately have "next_work_id s = - 1"
      using co by (auto simp: coordinated_def count_of_def)
    then show ?thesis using nxt by (simp add: word_order.extremum_unique)
  qed
  show ?thesis
    unfolding coordinated_def using reg lim count' live zero
    by (simp add: registered_def)
qed

lemma reject_coordinated:
  assumes co: "coordinated limits ws s" and rej: "rejected c s err s'"
    and lim: "within_limits limits s'"
  shows "coordinated limits ws s'"
proof (cases "s' = s")
  case True
  then show ?thesis using co by simp
next
  case False
  then obtain n where rej: "coord_inv s'" "next_work_id s' = - 1" "grown c n s s'"
    using rej by (auto simp: rejected_def)
  have "dep_live c' s' d" if "dep_live c' s d" for c' d using grown_live [OF rej(3) that] .
  then show ?thesis
    using co lim rej(1,2) grown_count [OF rej(3)] by (simp add: coordinated_def)
qed

subsection \<open>The terminal race\<close>

lemma release_coordinated:
  assumes co: "coordinated limits ws s" and wf: "\<forall>w\<in>set ws. waiter_wf w"
    and i: "i < length ws" and held: "\<not> released (hw_inner (ws ! i))"
    and gone: "released (hw_inner w')"
  shows "coordinated limits (ws[i := w']) (fold release_one (work_ids (hw_inner (ws ! i))) s)"
proof -
  let ?ids = "work_ids (hw_inner (ws ! i))" and ?ws' = "ws[i := w']"
  define s' where "s' = fold release_one ?ids s"
  have inv: "coord_inv s" using co by (simp add: coordinated_def)
  have "distinct ?ids" using wf i by (simp add: waiter_wf_def)
  note laws = release_all_laws [OF inv this, folded s'_def]
  have inv': "coord_inv s'" and shrunk: "shrunk s s'" using laws by blast+
  have "count_of s' v = count_of s v - of_bool (v \<in> set ?ids)" for v using laws by blast
  moreover have "live_count ?ws' v + of_bool (v \<in> set ?ids) = live_count ws v" for v
    using live_count_update [OF i, of w' v] held gone by (simp add: holds_work_def)
  ultimately have count': "count_of s' v = live_count ?ws' v" for v
    using co unfolding coordinated_def by (metis diff_add_inverse2)
  have live: "dep_live (from_request (hw_request u)) s' d"
    if u: "u \<in> set ?ws'" "\<not> released (hw_inner u)" and d: "d \<in> set (hw_dependencies u)" for u d
  proof -
    have old: "u \<in> set ws" using u gone by (metis insertE set_update_subset_insert subsetD)
    then have "holds_work (dep_id d) u"
      using wf u(2) d by (simp add: waiter_wf_def holds_work_def)
    then have "0 < count_of s' (dep_id d)" using count' live_count_pos [OF u(1)] by simp
    then obtain e' where e': "map_of (work s') (dep_id d) = Some e'"
      by (auto simp: count_of_def split: option.splits)
    then obtain e where e: "map_of (work s) (dep_id d) = Some e" "same_work e e'"
      using shrunk unfolding shrunk_def by blast
    have "dep_live (from_request (hw_request u)) s d"
      using co old u(2) d by (simp add: coordinated_def)
    from dep_live_same [OF this e' e] show ?thesis .
  qed
  have zero: "next_work_id s' = - 1"
    if e': "map_of (work s') v = Some e'" "work_waiter_count e' = 0" for v e'
  proof -
    obtain e where "map_of (work s) v = Some e" "work_waiter_count e = 0"
      using shrunk e' unfolding shrunk_def by blast
    then have "next_work_id s = - 1" using co unfolding coordinated_def by blast
    then show ?thesis using shrunk by (simp add: shrunk_def)
  qed
  have "within_limits limits s'"
    using shrunk_limits [OF shrunk] co by (simp add: coordinated_def)
  then show ?thesis
    unfolding s'_def [symmetric] coordinated_def using inv' live count' zero by simp
qed

lemma system_wf: "system_inv limits sys \<Longrightarrow> i < length (hs_waiters sys) \<Longrightarrow> waiter_wf (hs_waiters sys ! i)"
  by (simp add: system_inv_def)

lemma settle_inv:
  fixes sys :: HydrationSystem
  assumes inv: "system_inv limits sys" and i: "i < length (hs_waiters sys)"
    and pending: "terminal (hw_inner (hs_waiters sys ! i)) = TERMINAL_PENDING"
    and t: "t = TERMINAL_COMPLETED \<or> t = TERMINAL_CANCELLED"
    and w': "w' = (hs_waiters sys ! i)\<lparr>hw_inner := (hw_inner (hs_waiters sys ! i))
               \<lparr>terminal := t, released := True, cancel_tx := False,
                cancel_signal := (t = TERMINAL_CANCELLED)\<rparr>, hw_finished := f\<rparr>"
  shows "system_inv limits
    \<lparr>hs_coordinator = map_option (fold release_one (work_ids (hw_inner (hs_waiters sys ! i))))
       (hs_coordinator sys),
     hs_waiters = (hs_waiters sys)[i := w']\<rparr>"
proof -
  let ?ws = "hs_waiters sys"
  have wf: "\<forall>w\<in>set ?ws. waiter_wf w" and len: "length ?ws \<le> usize_MAX"
    using inv by (simp_all add: system_inv_def)
  have wfi: "waiter_wf (?ws ! i)" using wf i by simp
  have "waiter_wf w'"
    using wfi t by (auto simp: w' waiter_wf_def inner_wf_def terminal_defs)
  then have wf': "\<forall>w\<in>set (?ws[i := w']). waiter_wf w"
    using wf by (metis insertE set_update_subset_insert subsetD)
  have held: "\<not> released (hw_inner (?ws ! i))"
    using wfi pending by (simp add: waiter_wf_def inner_wf_def)
  have gone: "released (hw_inner w')" by (simp add: w')
  show ?thesis
  proof (cases "hs_coordinator sys")
    case None
    then show ?thesis using wf' len by (simp add: system_inv_def)
  next
    case (Some s)
    then have "coordinated limits ?ws s" using inv by (simp add: system_inv_def)
    from release_coordinated [OF this wf i held gone] Some wf' len show ?thesis
      by (simp add: system_inv_def)
  qed
qed

lemma finish_inv:
  fixes sys :: HydrationSystem
  assumes inv: "system_inv limits sys" and i: "i < length (hs_waiters sys)"
    and settled: "terminal (hw_inner (hs_waiters sys ! i)) \<noteq> TERMINAL_PENDING"
  shows "system_inv limits
    \<lparr>hs_coordinator = hs_coordinator sys,
     hs_waiters = (hs_waiters sys)[i := (hs_waiters sys ! i)\<lparr>hw_finished := True\<rparr>]\<rparr>"
proof -
  let ?ws = "hs_waiters sys" and ?w' = "(hs_waiters sys ! i)\<lparr>hw_finished := True\<rparr>"
  have wf: "\<forall>w\<in>set ?ws. waiter_wf w" and len: "length ?ws \<le> usize_MAX"
    using inv by (simp_all add: system_inv_def)
  have "waiter_wf ?w'" using wf i settled by (simp add: waiter_wf_def)
  then have wf': "\<forall>w\<in>set (?ws[i := ?w']). waiter_wf w"
    using wf by (metis insertE set_update_subset_insert subsetD)
  have same: "live_count (?ws[i := ?w']) v = live_count ?ws v" for v
    using live_count_update [OF i, of ?w' v] by (simp add: holds_work_def)
  have gone: "released (hw_inner (?ws ! i))"
    using wf i settled by (simp add: waiter_wf_def inner_wf_def)
  have "coordinated limits (?ws[i := ?w']) s" if "hs_coordinator sys = Some s" for s
  proof -
    have co: "coordinated limits ?ws s" using inv that by (simp add: system_inv_def)
    have "u \<in> set ?ws \<or> released (hw_inner u)" if "u \<in> set (?ws[i := ?w'])" for u
      using that gone set_update_subset_insert [of ?ws i ?w'] by auto
    then show ?thesis using co same unfolding coordinated_def by metis
  qed
  then show ?thesis using wf' len by (auto simp: system_inv_def split: option.splits)
qed

text \<open>What the two contenders of the race do to a well-formed waiter.\<close>

lemma cancel_eq:
  assumes "inner_wf inner"
  shows "WaiterInner_cancel inner coordinator =
    (if terminal inner = TERMINAL_PENDING
     then (HydrationCancellationOutcome.Cancelled,
           inner\<lparr>terminal := TERMINAL_CANCELLED, released := True, cancel_tx := False,
                 cancel_signal := True\<rparr>,
           map_option (fold release_one (work_ids inner)) coordinator)
     else (if terminal inner = TERMINAL_CANCELLED then AlreadyCancelled else AlreadyCompleted,
           inner, coordinator))"
  using assms
  by (auto simp: WaiterInner_cancel_def release_work_def inner_wf_def split: option.splits)

lemma complete_eq:
  assumes "inner_wf inner"
  shows "WaiterInner_complete inner coordinator =
    (if terminal inner = TERMINAL_PENDING
     then (True,
           inner\<lparr>terminal := TERMINAL_COMPLETED, released := True, cancel_tx := False,
                 cancel_signal := False\<rparr>,
           map_option (fold release_one (work_ids inner)) coordinator)
     else (False, inner, coordinator))"
  using assms
  by (auto simp: WaiterInner_complete_def release_work_def inner_wf_def terminal_defs
      split: option.splits)

lemma system_inv_fields [simp]:
  "system_inv limits \<lparr>hs_coordinator = hs_coordinator sys, hs_waiters = hs_waiters sys\<rparr> =
   system_inv limits sys"
  by (simp add: system_inv_def split: option.split)

lemma cancel_step_inv:
  assumes inv: "system_inv limits sys" and i: "i < length (hs_waiters sys)"
  shows "system_inv limits (hydration_apply limits (CancelOp i) sys)"
proof -
  have wf: "inner_wf (hw_inner (hs_waiters sys ! i))"
    using system_wf [OF inv i] by (simp add: waiter_wf_def)
  show ?thesis
  proof (cases "terminal (hw_inner (hs_waiters sys ! i)) = TERMINAL_PENDING")
    case True
    from settle_inv [OF inv i True disjI2 [OF refl] refl, of "hw_finished (hs_waiters sys ! i)"]
    show ?thesis using True by (simp add: cancel_eq [OF wf] Let_def)
  next
    case False
    then show ?thesis using inv by (simp add: cancel_eq [OF wf] Let_def)
  qed
qed

lemma drop_step_inv:
  assumes inv: "system_inv limits sys" and i: "i < length (hs_waiters sys)"
  shows "system_inv limits (hydration_apply limits (DropOp i) sys)"
proof (cases "hw_finished (hs_waiters sys ! i)")
  case True
  then show ?thesis using inv by (simp add: HydrationWaiter_drop_def list_update_id)
next
  case False
  then have "hydration_apply limits (DropOp i) sys = hydration_apply limits (CancelOp i) sys"
    by (simp add: HydrationWaiter_drop_def Let_def split: prod.splits)
  then show ?thesis using cancel_step_inv [OF inv i] by simp
qed

lemma wait_step_inv:
  assumes inv: "system_inv limits sys" and en: "hydration_enabled backend (WaitOp i selected) sys"
  shows "system_inv limits (hydration_apply limits (WaitOp i selected) sys)"
proof -
  let ?w = "hs_waiters sys ! i"
  have i: "i < length (hs_waiters sys)" using en by simp
  have wf: "inner_wf (hw_inner ?w)" using system_wf [OF inv i] by (simp add: waiter_wf_def)
  show ?thesis
  proof (cases "terminal (hw_inner ?w) = TERMINAL_PENDING")
    case True
    then have "\<not> cancel_signal (hw_inner ?w)" using wf by (simp add: inner_wf_def terminal_defs)
    with en obtain result where sel: "selected = Some result" by (cases selected) auto
    from settle_inv [OF inv i True disjI1 [OF refl] refl, of True] True sel show ?thesis
      by (simp add: HydrationWaiter_wait_def complete_eq [OF wf] terminal_defs)
  next
    case False
    then have "hydration_apply limits (WaitOp i selected) sys =
      \<lparr>hs_coordinator = hs_coordinator sys, hs_waiters = (hs_waiters sys)[i := ?w\<lparr>hw_finished := True\<rparr>]\<rparr>"
      by (simp add: HydrationWaiter_wait_def complete_eq [OF wf] split: option.splits)
    with finish_inv [OF inv i False] show ?thesis by simp
  qed
qed

lemma request_step_inv:
  assumes inv: "system_inv limits sys" and en: "hydration_enabled backend (RequestOp req) sys"
  shows "system_inv limits (hydration_apply limits (RequestOp req) sys)"
proof (cases "hs_coordinator sys")
  case None
  then show ?thesis using inv by simp
next
  case (Some s)
  obtain r s' where run: "HydrationCoordinator_request limits req s = (r, s')" by fastforce
  have co: "coordinated limits (hs_waiters sys) s" using inv Some by (simp add: system_inv_def)
  have req: "request_wf req" and room: "length (hs_waiters sys) < usize_MAX" using en by simp_all
  have "coord_inv s" "within_limits limits s" using co by (simp_all add: coordinated_def)
  note laws = request_laws [OF this req run]
  show ?thesis
  proof (cases r)
    case (Inl err)
    have "coordinated limits (hs_waiters sys) s'"
      using reject_coordinated [OF co] laws Inl by auto
    then show ?thesis using inv Some run Inl by (simp add: system_inv_def)
  next
    case (Inr w)
    have "coordinated limits (hs_waiters sys @ [w]) s'"
      using laws Inr by (intro register_coordinated [OF co _ _ _ _ room request_next [OF run]]) auto
    then show ?thesis using inv Some run Inr laws room by (simp add: system_inv_def)
  qed
qed

theorem reachable_system_inv: "hydration_reachable limits backend sys \<Longrightarrow> system_inv limits sys"
proof (induction rule: hydration_reachable.induct)
  case start
  show ?case
    by (simp add: system_inv_def coordinated_def within_limits_def CoordinatorState_default_def
        content_index_def count_of_def default_coord_inv [unfolded CoordinatorState_default_def])
next
  case (step sys op)
  then show ?case
  proof (cases op)
    case (RequestOp req)
    then show ?thesis using step request_step_inv by metis
  next
    case (CancelOp i)
    then show ?thesis using step cancel_step_inv hydration_enabled.simps(2) by metis
  next
    case (WaitOp i selected)
    then show ?thesis using step wait_step_inv by metis
  next
    case (DropOp i)
    then show ?thesis using step drop_step_inv hydration_enabled.simps(4) by metis
  next
    case DropCoordinatorOp
    then show ?thesis using step by (simp add: system_inv_def)
  qed
qed

section \<open>The bytes a waiter resolves to\<close>

text \<open>
  \<open>honest backend file\<close>: every answer the backend gives is a well-formed response that carries
  the bytes of the file at its offset. How much of the file it carries is left open.
\<close>

definition honest :: "answers \<Rightarrow> (CloudItemKey \<Rightarrow> ContentRevision \<Rightarrow> u8 list) \<Rightarrow> bool" where
  "honest backend file \<longleftrightarrow>
     (\<forall>w req response. backend w req = Inr response \<longrightarrow>
        response_wf response \<and> allocatable (resp_bytes response) \<and>
        resp_bytes response = take (length (resp_bytes response))
          (drop (unat (resp_offset response)) (file (read_key req) (read_revision req))))"

definition delivers :: "u8 list \<Rightarrow> WorkDependency \<Rightarrow> ContentReadResponse \<Rightarrow> bool" where
  "delivers bytes d response \<longleftrightarrow>
     dep_start d < dep_end d \<longrightarrow>
     resp_offset response = dep_start d \<and>
     unat (len_u64 (resp_bytes response)) = unat (dep_end d) - unat (dep_start d) \<and>
     resp_bytes response = take (unat (dep_end d) - unat (dep_start d)) (drop (unat (dep_start d)) bytes)"

lemma shared_read_delivers:
  assumes honest: "honest backend file" and wf: "dep_wf c d"
    and ok: "shared_read backend (dep_id d) (dep_future d) = Inr response"
  shows "delivers (file (hk_key c) (hk_revision c)) d response"
proof -
  from ok have ans: "backend (dep_id d) (dep_future d) = Inr response"
    and valid: "validate_response (dep_future d) response = Inr ()"
    by (auto simp: shared_read_def)
  obtain e where e: "entry_wf e" "work_content e = c" "describes d e"
    using wf by (auto simp: dep_wf_def)
  have h: "response_wf response" "allocatable (resp_bytes response)"
    "resp_bytes response = take (length (resp_bytes response))
       (drop (unat (resp_offset response)) (file (hk_key c) (hk_revision c)))"
  proof -
    have req: "read_key (dep_future d) = hk_key c" "read_revision (dep_future d) = hk_revision c"
      using e by (auto simp: entry_wf_def asks_def describes_def)
    show "response_wf response" "allocatable (resp_bytes response)"
      "resp_bytes response = take (length (resp_bytes response))
         (drop (unat (resp_offset response)) (file (hk_key c) (hk_revision c)))"
      using honest ans unfolding honest_def req [symmetric] by blast+
  qed
  have ext: "read_extent (dep_future d) = (unat (dep_start d), unat (dep_end d))"
    if "dep_start d < dep_end d"
  proof -
    have *: "range_hi r = unat (dep_end d)" if "range_wf r" "end_exclusive r = dep_end d" for r
      using that unat_end_exclusive by force
    show ?thesis
      using e \<open>dep_start d < dep_end d\<close>
      by (auto simp: entry_wf_def describes_def asks_def range_lo_def * word_nat_order split: if_splits)
  qed
  show ?thesis
    unfolding delivers_def
  proof
    assume "dep_start d < dep_end d"
    note valid = validate_response_extent [OF valid h(1,2) ext [OF this]]
    show "resp_offset response = dep_start d \<and>
        unat (len_u64 (resp_bytes response)) = unat (dep_end d) - unat (dep_start d) \<and>
        resp_bytes response = take (unat (dep_end d) - unat (dep_start d))
          (drop (unat (dep_start d)) (file (hk_key c) (hk_revision c)))"
      using valid(3,4) h unat_len_u64 [OF h(2)] by (auto intro: unat_eqI)
  qed
qed

lemma delivers_long:
  assumes "delivers bytes d response" and "dep_start d < dep_end d"
  shows "unat (dep_end d) \<le> length bytes"
proof -
  let ?n = "unat (dep_end d) - unat (dep_start d)"
  have resp: "resp_bytes response = take ?n (drop (unat (dep_start d)) bytes)"
    and len: "unat (len_u64 (resp_bytes response)) = ?n"
    using assms unfolding delivers_def by blast+
  have "length (resp_bytes response) \<le> ?n" by (simp add: resp)
  then have "length (resp_bytes response) < 2 ^ 64"
    using unat_u64_less [of "dep_end d"] by linarith
  then have "length (resp_bytes response) = ?n"
    using len by (simp add: len_u64_def unat_of_nat)
  then have "?n \<le> length bytes - unat (dep_start d)" by (simp add: resp)
  then show ?thesis using assms(2) by (auto simp: word_less_nat_alt)
qed

lemma slice_of_part:
  "re \<le> k \<Longrightarrow> take (re - rs) (drop rs (take k (drop lo bytes))) = take (re - rs) (drop (lo + rs) bytes)"
  by (simp add: drop_take add.commute min_def)

lemma take_drop_join:
  "a \<le> b \<Longrightarrow> b \<le> c \<Longrightarrow>
   take (b - a) (drop a xs) @ take (c - b) (drop b xs) = take (c - a) (drop a xs)"
  using take_add [of "b - a" "c - b" "drop a xs"] by simp

lemma assemble_loop_ok:
  assumes "start_sorted (map fst xs)" and "\<forall>(d, r)\<in>set xs. delivers bytes d r"
    and "{cursor..<te} \<subseteq> deps_set (map fst xs)" and "cursor < te"
  shows "\<exists>out. assemble_loop te cursor xs slices = Inr (te, slices @ out) \<and>
    concat out = take (unat te - unat cursor) (drop (unat cursor) bytes) \<and>
    unat te \<le> length bytes"
  using assms
proof (induction xs arbitrary: cursor slices)
  case Nil
  then show ?case by auto
next
  case (Cons x xs)
  obtain d r where x: "x = (d, r)" by (cases x)
  have tail: "start_sorted (map fst xs)" "\<forall>(d, r)\<in>set xs. delivers bytes d r"
    using Cons.prems(1,2) by simp_all
  have first: "dep_start d \<le> cursor"
    using start_sorted_deps_set [of d "map fst xs" cursor] Cons.prems(1,3,4) x by auto
  show ?case
  proof (cases "dep_end d \<le> cursor")
    case True
    have "{cursor..<te} \<subseteq> deps_set (map fst xs)"
      using Cons.prems(3) True x by (fastforce simp: dep_set_def)
    from Cons.IH [OF tail this Cons.prems(4), of slices] True x show ?thesis by simp
  next
    case False
    then have ne: "dep_start d < dep_end d" using first by simp
    have del: "delivers bytes d r" using Cons.prems(2) x by simp
    define ce where "ce = min te (dep_end d)"
    define rs where "rs = saturating_sub cursor (resp_offset r)"
    define re where "re = saturating_sub ce (resp_offset r)"
    define part where "part = take (unat re - unat rs) (drop (unat rs) (resp_bytes r))"
    have ord: "unat (dep_start d) \<le> unat cursor" "unat cursor < unat ce"
      "unat ce \<le> unat te" "unat ce \<le> unat (dep_end d)"
      using first False Cons.prems(4) by (auto simp: ce_def word_nat_order unat_ops)
    have rel: "unat rs = unat cursor - unat (dep_start d)" "unat re = unat ce - unat (dep_start d)"
      using del ne by (simp_all add: rs_def re_def unat_ops delivers_def)
    have fits: "\<not> (re > len_u64 (resp_bytes r) \<or> rs > re)"
      using del ne ord rel by (auto simp: delivers_def word_less_nat_alt)
    have part: "part = take (unat ce - unat cursor) (drop (unat cursor) bytes)"
    proof -
      have "resp_bytes r = take (unat (dep_end d) - unat (dep_start d)) (drop (unat (dep_start d)) bytes)"
        using del ne by (simp add: delivers_def)
      moreover have "unat re \<le> unat (dep_end d) - unat (dep_start d)" using rel(2) ord(4) by simp
      ultimately have "part = take (unat re - unat rs) (drop (unat (dep_start d) + unat rs) bytes)"
        unfolding part_def by (simp only: slice_of_part)
      then show ?thesis using rel ord by simp
    qed
    have step: "assemble_loop te cursor (x # xs) slices =
      (if ce = te then Inr (ce, slices @ [part]) else assemble_loop te ce xs (slices @ [part]))"
    proof -
      have "max cursor (dep_start d) = cursor" using first by (simp add: max_def)
      moreover have "\<not> dep_start d \<ge> te" using first Cons.prems(4) by simp
      ultimately show ?thesis
        using False fits
        unfolding x assemble_loop.simps Let_def part_def rs_def re_def ce_def
        by simp
    qed
    show ?thesis
    proof (cases "ce = te")
      case True
      then show ?thesis
        using step part ord(4) delivers_long [OF del ne] by (auto intro!: exI [of _ "[part]"])
    next
      case False
      then have ce: "ce = dep_end d" and less: "ce < te" by (auto simp: ce_def min_def split: if_splits)
      have "{ce..<te} \<subseteq> deps_set (map fst xs)"
      proof
        fix y assume y: "y \<in> {ce..<te}"
        then have "y \<in> {cursor..<te}" using ord by (auto simp: word_nat_order)
        then have "y \<in> dep_set d \<union> deps_set (map fst xs)" using Cons.prems(3) x by auto
        then show "y \<in> deps_set (map fst xs)" using y ce by (auto simp: dep_set_def)
      qed
      from Cons.IH [OF tail this less, of "slices @ [part]"] obtain out where
        out: "assemble_loop te ce xs (slices @ [part]) = Inr (te, (slices @ [part]) @ out)"
        "concat out = take (unat te - unat ce) (drop (unat ce) bytes)" "unat te \<le> length bytes"
        by blast
      then show ?thesis
        using step False part ord take_drop_join [of "unat cursor" "unat ce" "unat te" bytes]
        by (auto intro!: exI [of _ "part # out"])
    qed
  qed
qed

lemma slice_total_ok:
  "n + sum_list ls \<le> usize_MAX \<Longrightarrow> fold slice_total_step ls (Inr n) = Inr (n + sum_list ls)"
  by (induction ls arbitrary: n) (auto simp: slice_total_step_def)

lemma combine_slices_ok:
  assumes "length (concat slices) \<le> usize_MAX"
  shows "combine_slices slices = Inr (concat slices)"
proof -
  have "checked_slice_total (map length slices) = Inr (sum_list (map length slices))"
    using slice_total_ok [of 0 "map length slices"] assms
    by (simp add: checked_slice_total_def length_concat)
  then show ?thesis by (auto simp: combine_slices_def split: list.splits)
qed

lemma assemble_ok:
  assumes wf: "waiter_wf w" and size: "unat (hw_target_end w) - unat (hw_target_start w) < 2 ^ 63"
    and len: "length responses = length (hw_dependencies w)"
    and del: "\<forall>(d, r)\<in>set (zip (hw_dependencies w) responses). delivers bytes d r"
  shows "\<exists>response. assemble w responses = Inr response \<and>
    resp_revision response = read_revision (hr_read (hw_request w)) \<and>
    resp_offset response = hw_target_start w \<and>
    resp_total_size response = read_expected_size (hr_read (hw_request w)) \<and>
    resp_bytes response = take (unat (hw_target_end w) - unat (hw_target_start w))
      (drop (unat (hw_target_start w)) bytes)"
proof -
  let ?read = "hr_read (hw_request w)" and ?ts = "hw_target_start w" and ?te = "hw_target_end w"
  define part where "part = take (unat ?te - unat ?ts) (drop (unat ?ts) bytes)"
  have range: "\<And>r. read_range ?read = Range r \<Longrightarrow> range_wf r"
    using wf by (simp add: waiter_wf_def request_wf_def)
  have "logical_extent ?read = Inr (?ts, ?te)" using wf by (simp add: waiter_wf_def)
  note ext = logical_extent_ok [OF this range]
  have parts: "\<exists>out. assemble_loop ?te ?ts (zip (hw_dependencies w) responses) [] = Inr (?te, out) \<and>
      concat out = part \<and> unat ?te \<le> length bytes" if "?ts < ?te"
  proof -
    have fst: "map fst (zip (hw_dependencies w) responses) = hw_dependencies w"
      using len by simp
    show ?thesis
      using assemble_loop_ok [of "zip (hw_dependencies w) responses" bytes ?ts ?te "[]"] wf del that
      unfolding fst part_def by (auto simp: waiter_wf_def)
  qed
  have plen: "length part = unat ?te - unat ?ts"
  proof (cases "?ts = ?te")
    case False
    then have "unat ?te \<le> length bytes" using parts ext(1) by fastforce
    then show ?thesis by (simp add: part_def)
  qed (simp add: part_def)
  have alloc: "allocatable part" using plen size by (simp add: allocatable_def)
  have ulen: "unat (len_u64 part) = unat ?te - unat ?ts" using unat_len_u64 [OF alloc] plen by simp
  define resp where "resp = \<lparr>resp_revision = read_revision ?read, resp_offset = ?ts,
    resp_bytes = part, resp_byte_len = len_u64 part, resp_total_size = read_expected_size ?read\<rparr>"
  have new: "ContentReadResponse_new (read_revision ?read) ?ts part (read_expected_size ?read) = Inr resp"
    using ext(1,2) ulen by (simp add: ContentReadResponse_new_eq_Inr resp_def word_nat_order)
  have valid: "validate_response ?read resp = Inr ()"
    by (rule validate_response_accepts [OF _ _ ext(3)]) (simp_all add: resp_def ulen)
  have "assemble w responses = Inr resp"
  proof (cases "?ts = ?te")
    case True
    then have "part = []" by (simp add: part_def)
    then show ?thesis using new True by (simp add: assemble_def Let_def)
  next
    case False
    then have less: "?ts < ?te" using ext(1) by simp
    with parts obtain out where
      out: "assemble_loop ?te ?ts (zip (hw_dependencies w) responses) [] = Inr (?te, out)"
      "concat out = part" by blast
    have "combine_slices out = Inr part"
      using combine_slices_ok [of out] out(2) plen size
      by (simp add: usize_MAX_def)
    then show ?thesis using False len out(1) new valid by (simp add: assemble_def Let_def)
  qed
  then show ?thesis by (auto simp: resp_def part_def)
qed

section \<open>A concrete system\<close>

text \<open>
  An eight-byte file, and two waiters with overlapping ranges under a two-byte alignment: the
  second one joins the read of the first and starts a read for the rest only.
\<close>

definition sample_file :: "u8 list" where
  "sample_file = [1, 2, 3, 4, 5, 6, 7, 8]"

definition sample_backend :: answers where
  "sample_backend w req =
     (case read_extent req of (lo, hi) \<Rightarrow>
        if read_expected_size req = 8 \<and> lo \<le> 8
        then Inr \<lparr>resp_revision = read_revision req, resp_offset = of_nat lo,
                  resp_bytes = take (hi - lo) (drop lo sample_file),
                  resp_byte_len = len_u64 (take (hi - lo) (drop lo sample_file)),
                  resp_total_size = 8\<rparr>
        else Inl (CloudBackendError_new InvalidRequest))"

definition sample_key :: CloudItemKey where
  "sample_key =
     \<lparr>key_scope = \<lparr>scope_namespace_id = CloudNamespaceId ''ns'', scope_root_id = CloudRootId ''root''\<rparr>,
      key_item_id = CloudItemId ''item''\<rparr>"

definition sample_request :: "u64 \<Rightarrow> u64 \<Rightarrow> HydrationRequest" where
  "sample_request off len =
     HydrationRequest_range sample_key (ContentRevision [1]) 8
       \<lparr>range_offset = off, range_length = len\<rparr> (Alignment 2) (SessionGeneration 1)"

definition sample_start :: HydrationSystem where
  "sample_start = \<lparr>hs_coordinator = Some CoordinatorState_default, hs_waiters = []\<rparr>"

definition sample_system :: HydrationSystem where
  "sample_system =
     hydration_apply HydrationLimits_DEFAULT (RequestOp (sample_request 2 5))
       (hydration_apply HydrationLimits_DEFAULT (RequestOp (sample_request 1 3)) sample_start)"

definition sample_response :: "u64 \<Rightarrow> u8 list \<Rightarrow> ContentReadResponse" where
  "sample_response off bytes =
     \<lparr>resp_revision = ContentRevision [1], resp_offset = off, resp_bytes = bytes,
      resp_byte_len = len_u64 bytes, resp_total_size = 8\<rparr>"

definition sample_waiter :: HydrationWaiter where
  "sample_waiter = hs_waiters sample_system ! 1"

lemmas hydration_eval =
  HydrationCoordinator_request_def register_range_def overlapping_work_def insert_range_work_def
  insert_work_def ensure_capacity_def content_index_def add_waiter_def from_request_def
  logical_extent_def aligned_extent_def ranges_overlap_def ByteRange_new_def end_exclusive_def
  dep_order_def HydrationRequest_range_def ContentReadRequest_range_def checked_add_def
  saturating_sub_def usize_saturating_add_def usize_MAX_def io_bind_def List.map_filter_def
  insort_insert_key_def Let_def min_def max_def

lemma sample_waiter_eq:
  "length (hs_waiters sample_system) = 2"
  "sample_waiter =
     \<lparr>hw_request = sample_request 2 5, hw_target_start = 2, hw_target_end = 7,
      hw_dependencies =
        [\<lparr>dep_id = 0, dep_start = 0, dep_end = 4, dep_future = ContentReadRequest_range sample_key
            (ContentRevision [1]) 8 \<lparr>range_offset = 0, range_length = 4\<rparr>\<rparr>,
         \<lparr>dep_id = 1, dep_start = 4, dep_end = 8, dep_future = ContentReadRequest_range sample_key
            (ContentRevision [1]) 8 \<lparr>range_offset = 4, range_length = 4\<rparr>\<rparr>],
      hw_inner = \<lparr>terminal = TERMINAL_PENDING, released = False, work_ids = [0, 1],
                  cancel_tx = True, cancel_signal = False\<rparr>,
      hw_finished = False\<rparr>"
  unfolding sample_waiter_def sample_system_def
  by (simp_all add: sample_start_def sample_request_def hydration_eval HydrationLimits_DEFAULT_def
      CoordinatorState_default_def)

lemma sample_coordinator: "\<exists>s. hs_coordinator sample_system = Some s"
  by (auto simp: sample_system_def sample_start_def split: sum.splits prod.splits)

lemma sample_reachable: "hydration_reachable HydrationLimits_DEFAULT sample_backend sample_system"
proof -
  have req: "request_wf (sample_request 1 3)" "request_wf (sample_request 2 5)"
    by (simp_all add: request_wf_def sample_request_def HydrationRequest_range_def
        ContentReadRequest_range_def range_wf_def range_hi_def)
  let ?one = "hydration_apply HydrationLimits_DEFAULT (RequestOp (sample_request 1 3)) sample_start"
  have "length (hs_waiters ?one) \<le> 1"
    by (auto simp: sample_start_def split: sum.splits prod.splits)
  then have "hydration_enabled sample_backend (RequestOp (sample_request 2 5)) ?one"
    using req by (simp add: usize_MAX_def del: hydration_apply.simps)
  moreover have "hydration_reachable HydrationLimits_DEFAULT sample_backend ?one"
    by (rule hydration_reachable.step, unfold sample_start_def, rule hydration_reachable.start)
      (simp add: req usize_MAX_def)
  ultimately show ?thesis
    unfolding sample_system_def by (rule hydration_reachable.step [rotated])
qed

lemma sample_honest: "honest sample_backend (\<lambda>_ _. sample_file)"
  unfolding honest_def
proof (intro allI impI)
  fix w req response
  assume ans: "sample_backend w req = Inr response"
  obtain lo hi where ext: "read_extent req = (lo, hi)" by fastforce
  have size: "read_expected_size req = 8" and lo: "lo \<le> 8"
    and resp: "resp_offset response = of_nat lo" "resp_total_size response = 8"
      "resp_bytes response = take (hi - lo) (drop lo sample_file)"
      "resp_byte_len response = len_u64 (resp_bytes response)"
    using ans ext by (auto simp: sample_backend_def split: if_splits)
  have "hi \<le> 8" using ext size lo by (auto split: ContentReadRange.splits)
  then have len: "length (resp_bytes response) = hi - lo"
    by (simp add: resp sample_file_def)
  have off: "unat (resp_offset response) = lo" using lo by (simp add: resp unat_of_nat)
  have alloc: "allocatable (resp_bytes response)"
    using len \<open>hi \<le> 8\<close> by (simp add: allocatable_def)
  show "response_wf response \<and> allocatable (resp_bytes response) \<and>
      resp_bytes response = take (length (resp_bytes response))
        (drop (unat (resp_offset response)) sample_file)"
    using alloc unat_len_u64 [OF alloc] \<open>hi \<le> 8\<close> lo len off resp
    by (simp add: response_wf_def)
qed

lemma sample_joined:
  "joined sample_backend (hw_dependencies sample_waiter)
     (Inr [sample_response 0 [1, 2, 3, 4], sample_response 4 [5, 6, 7, 8]])"
  by (simp add: joined_def sample_waiter_eq shared_read_def sample_backend_def sample_response_def
      ContentReadRequest_range_def range_lo_def range_hi_def sample_file_def validate_response_def
      len_u64_def saturating_sub_def)

section \<open>Properties\<close>

text \<open>
  C24: A waiter that is still pending resolves, once its shared reads have succeeded, to
  exactly the bytes it asked for: in every reachable state of the coordinator, whichever waiters
  its reads are shared with, assembling never fails and returns the requested extent of the
  requested revision.
\<close>

theorem hydration_delivers_requested_bytes:
  assumes "hydration_reachable limits backend sys" and "i < length (hs_waiters sys)"
    and "w = hs_waiters sys ! i" and "terminal (hw_inner w) = TERMINAL_PENDING"
    and "honest backend file" and "joined backend (hw_dependencies w) (Inr responses)"
    and "read_extent (hr_read (hw_request w)) = (lo, hi)" and "hi - lo < 2 ^ 63"
  shows "\<exists>response w' coordinator.
    HydrationWaiter_wait (Some (Inr responses)) w (hs_coordinator sys) =
      (Inr response, w', coordinator) \<and>
    resp_revision response = read_revision (hr_read (hw_request w)) \<and>
    resp_total_size response = read_expected_size (hr_read (hw_request w)) \<and>
    unat (resp_offset response) = lo \<and>
    resp_bytes response = take (hi - lo) (drop lo
      (file (read_key (hr_read (hw_request w))) (read_revision (hr_read (hw_request w)))))"
proof -
  let ?bytes = "file (read_key (hr_read (hw_request w))) (read_revision (hr_read (hw_request w)))"
  have wf: "waiter_wf w" using system_wf [OF reachable_system_inv [OF assms(1)] assms(2)] assms(3) by simp
  have range: "\<And>r. read_range (hr_read (hw_request w)) = Range r \<Longrightarrow> range_wf r"
    using wf by (simp add: waiter_wf_def request_wf_def)
  have "logical_extent (hr_read (hw_request w)) = Inr (hw_target_start w, hw_target_end w)"
    using wf by (simp add: waiter_wf_def)
  from logical_extent_ok(3) [OF this range] assms(7)
  have ext: "unat (hw_target_start w) = lo" "unat (hw_target_end w) = hi" by simp_all
  have results: "map (\<lambda>d. shared_read backend (dep_id d) (dep_future d)) (hw_dependencies w) =
      map Inr responses"
    using assms(6) by (simp add: joined_def)
  have len: "length responses = length (hw_dependencies w)" using results by (metis length_map)
  have del: "\<forall>(d, r)\<in>set (zip (hw_dependencies w) responses). delivers ?bytes d r"
  proof clarify
    fix d r assume "(d, r) \<in> set (zip (hw_dependencies w) responses)"
    then obtain k where k: "k < length responses" "hw_dependencies w ! k = d" "responses ! k = r"
      using len by (auto simp: in_set_zip)
    then have "shared_read backend (dep_id d) (dep_future d) = Inr r"
      using arg_cong [OF results, of "\<lambda>xs. xs ! k"] len by simp
    moreover have "dep_wf (from_request (hw_request w)) d"
      using wf k len by (auto simp: waiter_wf_def)
    ultimately have "delivers (file (hk_key (from_request (hw_request w)))
        (hk_revision (from_request (hw_request w)))) d r"
      by (intro shared_read_delivers [OF assms(5)])
    then show "delivers ?bytes d r" by (simp add: from_request_def)
  qed
  from assemble_ok [OF wf _ len del] obtain response where
    "assemble w responses = Inr response"
    "resp_revision response = read_revision (hr_read (hw_request w))"
    "resp_offset response = hw_target_start w"
    "resp_total_size response = read_expected_size (hr_read (hw_request w))"
    "resp_bytes response = take (hi - lo) (drop lo ?bytes)"
    using assms(8) ext by auto
  moreover have "inner_wf (hw_inner w)" using wf by (simp add: waiter_wf_def)
  ultimately show ?thesis
    using assms(4) ext by (auto simp: HydrationWaiter_wait_def complete_eq terminal_defs)
qed

theorem hydration_delivers_requested_bytes_witness:
  "\<exists>response w' coordinator.
    HydrationWaiter_wait
      (Some (Inr [sample_response 0 [1, 2, 3, 4], sample_response 4 [5, 6, 7, 8]]))
      sample_waiter (hs_coordinator sample_system) = (Inr response, w', coordinator) \<and>
    resp_bytes response = [3, 4, 5, 6, 7]"
proof -
  have ext: "read_extent (hr_read (hw_request sample_waiter)) = (2, 7)"
    by (simp add: sample_waiter_eq(2) sample_request_def HydrationRequest_range_def
        ContentReadRequest_range_def range_lo_def range_hi_def)
  have "(1::nat) < length (hs_waiters sample_system)" by (simp add: sample_waiter_eq(1))
  moreover have "terminal (hw_inner sample_waiter) = TERMINAL_PENDING" by (simp add: sample_waiter_eq(2))
  ultimately show ?thesis
    using hydration_delivers_requested_bytes [OF sample_reachable _ sample_waiter_def _ sample_honest
        sample_joined ext]
    by (auto simp: sample_file_def)
qed

text \<open>
  C25: The coordinator never exceeds its limits and never asks the backend for the same
  thing twice at a time: in every reachable state the work items respect the global and the
  per-content limit, no two running range reads of one content share a byte, and there is at most
  one whole-file read per content.
\<close>

theorem hydration_reads_bounded_and_disjoint:
  assumes "hydration_reachable limits backend sys" and "hs_coordinator sys = Some s"
  shows "length (work s) \<le> max_in_flight_work limits \<and>
    length (filter (\<lambda>(w, e). work_content e = c) (work s)) \<le> max_in_flight_per_content limits \<and>
    (\<forall>w w' e e'. w \<noteq> w' \<and> map_of (work s) w = Some e \<and> map_of (work s) w' = Some e' \<and>
       work_content e = c \<and> work_content e' = c \<longrightarrow>
       \<not> (work_whole e \<and> work_whole e') \<and>
       (\<not> work_whole e \<and> \<not> work_whole e' \<longrightarrow>
          {work_start e..<work_end e} \<inter> {work_start e'..<work_end e'} = {}))"
proof -
  have co: "coord_inv s" "within_limits limits s"
    using reachable_system_inv [OF assms(1)] assms(2) by (simp_all add: system_inv_def coordinated_def)
  have "\<not> (work_whole e \<and> work_whole e') \<and>
       (\<not> work_whole e \<and> \<not> work_whole e' \<longrightarrow>
          {work_start e..<work_end e} \<inter> {work_start e'..<work_end e'} = {})"
    if "w \<noteq> w'" "map_of (work s) w = Some e" "map_of (work s) w' = Some e'"
      "work_content e = c" "work_content e' = c" for w w' e e'
    using coord_invD(7) [OF co(1) that(1-3)] that(4,5)
    by (auto simp: work_conflict_def ranges_overlap_def)
  then show ?thesis
    using co(2) content_index_length [OF co(1), of c]
    unfolding within_limits_def by metis
qed

theorem hydration_reads_bounded_and_disjoint_witness:
  "\<exists>s. hs_coordinator sample_system = Some s \<and> length (work s) \<le> 1024"
proof -
  obtain s where "hs_coordinator sample_system = Some s" using sample_coordinator by blast
  then show ?thesis
    using hydration_reads_bounded_and_disjoint [OF sample_reachable]
    by (auto simp: HydrationLimits_DEFAULT_def)
qed

text \<open>
  C26: Work is shared and released exactly: in every reachable state each running item counts
  the waiters that still hold it, every pending waiter finds all its reads running, and an item
  nobody holds exists only if the 64-bit work ids ran out in the middle of a registration.
\<close>

theorem hydration_work_held_while_waited:
  assumes "hydration_reachable limits backend sys" and "hs_coordinator sys = Some s"
  shows "(\<forall>v e. map_of (work s) v = Some e \<longrightarrow>
      work_waiter_count e = length (filter (holds_work v) (hs_waiters sys)) \<and>
      (work_waiter_count e = 0 \<longrightarrow> next_work_id s = - 1)) \<and>
    (\<forall>w\<in>set (hs_waiters sys). terminal (hw_inner w) = TERMINAL_PENDING \<longrightarrow>
      (\<forall>d\<in>set (hw_dependencies w). \<exists>e. map_of (work s) (dep_id d) = Some e \<and>
         work_content e = from_request (hw_request w) \<and> work_future e = dep_future d))"
proof -
  have co: "coordinated limits (hs_waiters sys) s" and wf: "\<forall>w\<in>set (hs_waiters sys). waiter_wf w"
    using reachable_system_inv [OF assms(1)] assms(2) by (simp_all add: system_inv_def)
  have count: "work_waiter_count e = length (filter (holds_work v) (hs_waiters sys)) \<and>
      (work_waiter_count e = 0 \<longrightarrow> next_work_id s = - 1)" if e: "map_of (work s) v = Some e" for v e
  proof -
    have "count_of s v = live_count (hs_waiters sys) v" using co by (simp add: coordinated_def)
    moreover have "work_waiter_count e = 0 \<longrightarrow> next_work_id s = - 1"
      using co e unfolding coordinated_def by blast
    ultimately show ?thesis using e by (simp add: count_of_def live_count_def)
  qed
  have live: "\<exists>e. map_of (work s) (dep_id d) = Some e \<and>
      work_content e = from_request (hw_request w) \<and> work_future e = dep_future d"
    if "w \<in> set (hs_waiters sys)" "terminal (hw_inner w) = TERMINAL_PENDING"
      "d \<in> set (hw_dependencies w)" for w d
  proof -
    have "\<not> released (hw_inner w)" using wf that(1,2) by (simp add: waiter_wf_def inner_wf_def)
    then have "dep_live (from_request (hw_request w)) s d"
      using co that(1,3) by (simp add: coordinated_def)
    then show ?thesis by (auto simp: dep_live_def describes_def)
  qed
  show ?thesis using count live by blast
qed

theorem hydration_work_held_while_waited_witness:
  "\<exists>s e. hs_coordinator sample_system = Some s \<and> map_of (work s) 0 = Some e \<and>
     work_waiter_count e = 2"
proof -
  obtain s where s: "hs_coordinator sample_system = Some s" using sample_coordinator by blast
  note laws = hydration_work_held_while_waited [OF sample_reachable s]
  have "sample_waiter \<in> set (hs_waiters sample_system)"
    unfolding sample_waiter_def by (rule nth_mem) (simp add: sample_waiter_eq(1))
  moreover have "terminal (hw_inner sample_waiter) = TERMINAL_PENDING"
    "\<exists>d\<in>set (hw_dependencies sample_waiter). dep_id d = 0"
    by (simp_all add: sample_waiter_eq(2))
  ultimately obtain e where e: "map_of (work s) 0 = Some e" using laws by metis
  have "length (filter (holds_work 0) (hs_waiters sample_system)) = 2"
    by (simp add: sample_system_def holds_work_def sample_start_def sample_request_def hydration_eval
        HydrationLimits_DEFAULT_def CoordinatorState_default_def)
  then show ?thesis using laws s e by metis
qed

text \<open>
  Registering a range starts backend reads for exactly the bytes of the physical extent
  that no running read of the content covers, and the waiter's reads together cover the extent.
\<close>

theorem hydration_reads_only_gaps:
  assumes "hydration_reachable limits backend sys" and "hs_coordinator sys = Some s"
    and "physical_end \<le> read_expected_size (hr_read req)"
    and "register_range limits (from_request req) (hr_read req) physical_start physical_end s =
           (Inr ds, s')"
  shows "(\<Union>d\<in>{d \<in> set ds. map_of (work s) (dep_id d) = None}. {dep_start d..<dep_end d}) =
      {physical_start..<physical_end} -
      (\<Union>(w, e)\<in>{(w, e). map_of (work s) w = Some e \<and> work_content e = from_request req}.
         {work_start e..<work_end e}) \<and>
    {physical_start..<physical_end} \<subseteq> (\<Union>d\<in>set ds. {dep_start d..<dep_end d})"
proof -
  have co: "coord_inv s" "within_limits limits s"
    using reachable_system_inv [OF assms(1)] assms(2) by (simp_all add: system_inv_def coordinated_def)
  have "physical_end \<le> hk_expected_size (from_request req)" using assms(3) by simp
  from register_range_laws [OF co asks_from_request this assms(4)]
  have "(\<Union>d\<in>{d \<in> set ds. map_of (work s) (dep_id d) = None}. dep_set d) =
      {physical_start..<physical_end} -
        deps_set (overlapping_work s (from_request req) physical_start physical_end)"
    "{physical_start..<physical_end} \<subseteq> deps_set ds"
    by simp_all
  then show ?thesis unfolding uncovered_eq [OF co(1)] by (simp add: deps_set_def dep_set_def)
qed

theorem hydration_reads_only_gaps_witness:
  "\<exists>ds s'. register_range HydrationLimits_DEFAULT (from_request (sample_request 1 3))
       (hr_read (sample_request 1 3)) 0 4 CoordinatorState_default = (Inr ds, s') \<and>
     (0::u64) \<in> (\<Union>d\<in>set ds. {dep_start d..<dep_end d})"
proof -
  have "\<exists>ds s'. register_range HydrationLimits_DEFAULT (from_request (sample_request 1 3))
      (hr_read (sample_request 1 3)) 0 4 CoordinatorState_default = (Inr ds, s')"
    by (simp add: sample_request_def hydration_eval HydrationLimits_DEFAULT_def
        CoordinatorState_default_def)
  then obtain ds s' where run: "register_range HydrationLimits_DEFAULT
      (from_request (sample_request 1 3)) (hr_read (sample_request 1 3)) 0 4
      CoordinatorState_default = (Inr ds, s')" by blast
  have size: "(4::u64) \<le> read_expected_size (hr_read (sample_request 1 3))"
    by (simp add: sample_request_def HydrationRequest_range_def ContentReadRequest_range_def)
  have "hs_coordinator \<lparr>hs_coordinator = Some CoordinatorState_default, hs_waiters = []\<rparr> =
      Some CoordinatorState_default" by simp
  note law = hydration_reads_only_gaps [OF hydration_reachable.start this size run]
  have "(0::u64) \<in> {0..<4}" by simp
  then have "(0::u64) \<in> (\<Union>d\<in>set ds. {dep_start d..<dep_end d})" using law by blast
  then show ?thesis using run by blast
qed

end
