(* ===== verification/Mutation_Runner.thy ===== *)
theory Mutation_Runner
  imports Store_Ports Forward_Loop
begin

text \<open>
  \<open>MutationRunner\<close> of \<open>core/src/mutation.rs\<close>: \<open>submit\<close>, \<open>resume\<close> and
  \<open>observe_mutation_transition\<close>, over arbitrary store and backend ports. \<open>resume\<close> is a
  loop with no bound of its own, modelled by \<open>io_loop\<close>; the locale
  \<open>mutation_journal\<close> (the law that a journal never takes a record back) is what makes it
  return.
\<close>

section \<open>Definitions\<close>

datatype MutationRunError =
    Backend CloudBackendError
  | Store CloudFilesStoreError
  | Contract CloudFilesCoreError
  | RecordNotFound

datatype MutationRunOutcome = Completed | RemoteOutcomePending | Fenced

definition load_required_mutation ::
  "OperationId \<Rightarrow> 'w MutationJournalStore \<Rightarrow> ('w, MutationRunError, MutationRecord) io" where
  "load_required_mutation operation_id store =
     io_bind (io_try Store (ms_load_mutation store operation_id)) (\<lambda>found.
     io_lift (ok_or RecordNotFound found))"

definition observe_mutation_transition ::
  "StoreWriteStatus \<Rightarrow> MutationRecord \<Rightarrow> OperationId \<Rightarrow> 'w MutationJournalStore \<Rightarrow> bool
   \<Rightarrow> ('w, MutationRunError, MutationRecord option) io" where
  "observe_mutation_transition status previous operation_id store allow_stable_unknown =
     io_bind (load_required_mutation operation_id store) (\<lambda>current.
       if current \<noteq> previous then io_return (Some current)
       else if status = StoreWriteStatus.Fenced then io_return None
       else if allow_stable_unknown \<and> status = StoreWriteStatus.AlreadyApplied
               \<and> mr_state current = MutationState.RemoteOutcomeUnknown
       then io_return (Some current)
       else io_fail (Contract (InvalidMutationTransition
              ''mutation store reported a transition without durable progress'')))"

text \<open>
  One iteration of the loop in \<open>resume\<close> loads the record and takes the arm of its state:
  \<open>Some outcome\<close> when it returns, \<open>None\<close> when the loop goes round again. The three arms that only write and observe share \<open>advance\<close>;
  the two arms that ask the backend share \<open>settle\<close>.
\<close>

definition advance ::
  "('w, StoreWriteStatus) store_io \<Rightarrow> MutationRecord \<Rightarrow> OperationId \<Rightarrow> 'w MutationJournalStore
   \<Rightarrow> ('w, MutationRunError, MutationRunOutcome option) io" where
  "advance write record operation_id store =
     io_bind (io_try Store write) (\<lambda>status.
     io_bind (observe_mutation_transition status record operation_id store False) (\<lambda>observed.
       io_return (if observed = None then Some MutationRunOutcome.Fenced else None)))"

definition settle ::
  "('w, MutationRemoteOutcome) backend_io \<Rightarrow> bool \<Rightarrow> MutationRecord \<Rightarrow> OperationId
   \<Rightarrow> SessionGeneration \<Rightarrow> 'w MutationJournalStore
   \<Rightarrow> ('w, MutationRunError, MutationRunOutcome option) io" where
  "settle call reconciling record operation_id execution_generation store =
     io_bind (io_try Backend call) (\<lambda>outcome.
     io_bind (io_lift (res_map_err Contract (validate_remote_outcome (mr_intent record) outcome))) (\<lambda>_.
     let pending = (outcome = MutationRemoteOutcome.RemoteOutcomeUnknown) in
     io_bind (io_try Store
       (ms_record_remote_outcome store operation_id execution_generation outcome)) (\<lambda>status.
     io_bind
       (observe_mutation_transition status record operation_id store (reconciling \<and> pending)) (\<lambda>observed.
       io_return
         (case observed of
            None \<Rightarrow> Some MutationRunOutcome.Fenced
          | Some current \<Rightarrow>
              if pending \<and> mr_state current = MutationState.RemoteOutcomeUnknown
              then Some RemoteOutcomePending else None)))))"

definition resume_arm ::
  "OperationId \<Rightarrow> SessionGeneration \<Rightarrow> 'w MutationJournalStore \<Rightarrow> 'w CloudMutationBackend
   \<Rightarrow> MutationRecord \<Rightarrow> ('w, MutationRunError, MutationRunOutcome option) io" where
  "resume_arm operation_id execution_generation store backend record =
     (case mr_state record of
         MutationState.IntentPersisted \<Rightarrow>
           advance (ms_begin_remote_apply store operation_id execution_generation)
             record operation_id store
       | RemoteApplying \<Rightarrow>
           settle (mb_apply_mutation backend (mr_intent record)) False
             record operation_id execution_generation store
       | MutationState.RemoteOutcomeUnknown \<Rightarrow>
           settle (mb_reconcile_mutation backend (mr_intent record)) True
             record operation_id execution_generation store
       | RemoteOutcomeKnown \<Rightarrow>
           io_bind (io_lift (res_map_err Contract (validate_recorded_outcome record))) (\<lambda>_.
           advance (ms_mark_platform_reconciled store operation_id execution_generation)
             record operation_id store)
       | PlatformReconciled \<Rightarrow>
           io_bind (io_lift (res_map_err Contract (validate_recorded_outcome record))) (\<lambda>_.
           advance (ms_complete_mutation store operation_id execution_generation)
             record operation_id store)
       | MutationState.Completed \<Rightarrow>
           io_bind (io_lift (res_map_err Contract (validate_recorded_outcome record))) (\<lambda>_.
           io_return (Some MutationRunOutcome.Completed)))"

definition resume_step ::
  "OperationId \<Rightarrow> SessionGeneration \<Rightarrow> 'w MutationJournalStore \<Rightarrow> 'w CloudMutationBackend
   \<Rightarrow> ('w, MutationRunError, MutationRunOutcome option) io" where
  "resume_step operation_id execution_generation store backend =
     io_bind (load_required_mutation operation_id store)
       (resume_arm operation_id execution_generation store backend)"

definition resume ::
  "OperationId \<Rightarrow> SessionGeneration \<Rightarrow> 'w MutationJournalStore \<Rightarrow> 'w CloudMutationBackend
   \<Rightarrow> 'w \<Rightarrow> ((MutationRunError + MutationRunOutcome) \<times> 'w) option" where
  "resume operation_id execution_generation store backend =
     io_loop (resume_step operation_id execution_generation store backend)"

definition submit ::
  "MutationIntent \<Rightarrow> SessionGeneration \<Rightarrow> 'w MutationJournalStore \<Rightarrow> 'w CloudMutationBackend
   \<Rightarrow> 'w \<Rightarrow> ((MutationRunError + MutationRunOutcome) \<times> 'w) option" where
  "submit intent execution_generation store backend w =
     (if mi_session_generation intent \<noteq> execution_generation
      then Some (Inl (Contract (InvalidMutationIntent
             ''submitted mutation generation must match the executor generation'')), w)
      else case ms_persist_mutation_intent store intent w of
        (Inl e, w') \<Rightarrow> Some (Inl (Store e), w')
      | (Inr status, w') \<Rightarrow>
          if status = StoreWriteStatus.Fenced then Some (Inr MutationRunOutcome.Fenced, w')
          else resume (mi_operation_id intent) execution_generation store backend w')"

section \<open>Progress of records\<close>

abbreviation record_le :: "MutationRecord \<Rightarrow> MutationRecord \<Rightarrow> bool" where
  "record_le \<equiv> ranked_le mutation_rank mr_intent"

abbreviation journal_le ::
  "(OperationId \<rightharpoonup> MutationRecord) \<Rightarrow> (OperationId \<rightharpoonup> MutationRecord) \<Rightarrow> bool" where
  "journal_le \<equiv> ranked_journal_le mutation_rank mr_intent"

lemmas record_le_trans = ranked_le_trans [of mutation_rank mr_intent]
lemmas record_le_rank = ranked_le_rank [of mutation_rank mr_intent]
lemmas record_le_neq_rank = ranked_le_neq_rank [of mutation_rank mr_intent]
lemmas journal_le_def = ranked_journal_le_def [of mutation_rank mr_intent]
lemmas record_le_def = ranked_le_def [of mutation_rank mr_intent]
lemmas journal_le_trans = ranked_journal_trans [of mutation_rank mr_intent]
lemmas journal_leD = ranked_journalD [of mutation_rank mr_intent]

lemma mutation_rank_le: "mutation_rank r \<le> 5"
  by (cases "mr_state r") (simp_all add: mutation_rank_def)

text \<open>The four durable writes of a journal, indexed by the record transition they perform.\<close>

primrec journal_write ::
  "'w MutationJournalStore \<Rightarrow> mutation_op \<Rightarrow> OperationId \<Rightarrow> SessionGeneration
   \<Rightarrow> ('w, StoreWriteStatus) store_io" where
  "journal_write store BeginRemoteApply i g = ms_begin_remote_apply store i g"
| "journal_write store (RecordRemoteOutcome outcome) i g = ms_record_remote_outcome store i g outcome"
| "journal_write store MarkPlatformReconciled i g = ms_mark_platform_reconciled store i g"
| "journal_write store CompleteMutation i g = ms_complete_mutation store i g"

section \<open>What the runner needs from a journal\<close>

text \<open>
  \<open>journal w\<close> is the durable content of the store. Every call, a backend call included, may
  let other executors act, but only forwards (\<open>journal_le\<close>); a load returns what is durable.
\<close>

locale mutation_journal =
  fixes store :: "'w MutationJournalStore"
    and backend :: "'w CloudMutationBackend"
    and inv :: "'w \<Rightarrow> bool"
    and journal :: "'w \<Rightarrow> OperationId \<rightharpoonup> MutationRecord"
  assumes load_durable:
      "inv w \<Longrightarrow> ms_load_mutation store i w = (Inr found, w') \<Longrightarrow> found = journal w' i"
    and load_forward:
      "inv w \<Longrightarrow> ms_load_mutation store i w = (res, w') \<Longrightarrow> inv w' \<and> journal_le (journal w) (journal w')"
    and write_forward:
      "inv w \<Longrightarrow> journal_write store mop i g w = (st, w') \<Longrightarrow>
         inv w' \<and> journal_le (journal w) (journal w')"
    and apply_forward:
      "inv w \<Longrightarrow> mb_apply_mutation backend intent w = (ans, w') \<Longrightarrow>
         inv w' \<and> journal_le (journal w) (journal w')"
    and reconcile_forward:
      "inv w \<Longrightarrow> mb_reconcile_mutation backend intent w = (ans, w') \<Longrightarrow>
         inv w' \<and> journal_le (journal w) (journal w')"

sublocale mutation_journal \<subseteq> journal_world inv journal mutation_rank mr_intent .

context mutation_journal
begin

lemma forward_calls [intro]:
  "forward (ms_load_mutation store i)" "forward (journal_write store mop i g)"
  "forward (mb_apply_mutation backend intent)" "forward (mb_reconcile_mutation backend intent)"
  using load_forward write_forward apply_forward reconcile_forward by (blast intro: forwardI)+

lemma forward_writes [intro]:
  "forward (ms_begin_remote_apply store i g)" "forward (ms_record_remote_outcome store i g outcome)"
  "forward (ms_mark_platform_reconciled store i g)" "forward (ms_complete_mutation store i g)"
  using forward_calls(2) [of BeginRemoteApply] forward_calls(2) [of "RecordRemoteOutcome outcome"]
    forward_calls(2) [of MarkPlatformReconciled] forward_calls(2) [of CompleteMutation]
  by simp_all

lemma forward_load_required [intro]: "forward (load_required_mutation i store)"
  unfolding load_required_mutation_def by (intro forward_bind forward_try forward_calls forward_return)

lemma load_required_found:
  assumes "load_required_mutation i store w = (Inr r, w')" and "inv w"
  shows "journal w' i = Some r"
  using assms load_durable by (fastforce simp: load_required_mutation_def io_bind_eq_Inr)

lemma forward_observe [intro]: "forward (observe_mutation_transition status previous i store allow)"
  unfolding observe_mutation_transition_def by (intro forward_bind forward_load_required) auto

lemma forward_advance: "forward write \<Longrightarrow> forward (advance write r i store)"
  unfolding advance_def by (intro forward_bind forward_try forward_observe forward_return)

lemma forward_settle: "forward call \<Longrightarrow> forward (settle call reconciling r i g store)"
  unfolding settle_def Let_def
  by (intro forward_bind forward_try forward_observe forward_return forward_writes)

lemma forward_resume_arm: "forward (resume_arm i g store backend r)"
  unfolding resume_arm_def
  by (cases "mr_state r")
    (simp_all, (intro forward_bind forward_return forward_advance forward_settle forward_writes
        forward_calls)+)

lemma forward_resume_step: "forward (resume_step i g store backend)"
  unfolding resume_step_def by (intro forward_bind forward_load_required forward_resume_arm)

text \<open>
  An observation either shows the record moved on, or it repeats the record it started from
  and the loop does not go round.
\<close>

lemma observe_some:
  assumes "observe_mutation_transition status r i store allow w = (Inr (Some current), w')"
    and "inv w"
  shows "journal w' i = Some current" and
    "current \<noteq> r \<or> allow \<and> mr_state current = MutationState.RemoteOutcomeUnknown"
proof -
  from assms(1) have "load_required_mutation i store w = (Inr current, w')"
    and c: "current \<noteq> r \<or> allow \<and> mr_state current = MutationState.RemoteOutcomeUnknown"
    by (auto simp: observe_mutation_transition_def io_bind_eq_Inr split: if_splits)
  then show "journal w' i = Some current" using load_required_found assms(2) by blast
  show "current \<noteq> r \<or> allow \<and> mr_state current = MutationState.RemoteOutcomeUnknown" by (rule c)
qed

lemma observed_moved:
  assumes "observe_mutation_transition status r i store allow w = (Inr (Some current), w')"
    and "since i r w" and "current \<noteq> r"
  shows "\<exists>r'. journal w' i = Some r' \<and> mutation_rank r < mutation_rank r'"
proof -
  have "journal w' i = Some current" by (rule observe_some(1) [OF assms(1) since_inv [OF assms(2)]])
  then show ?thesis using since_moved [OF since_forward [OF forward_observe assms(1,2)] _ assms(3)] by blast
qed

lemma advance_again:
  assumes "advance write r i store w = (Inr None, w')" and "forward write" and "since i r w"
  shows "\<exists>r'. journal w' i = Some r' \<and> mutation_rank r < mutation_rank r'"
proof -
  obtain status w1 current where w1: "write w = (Inr status, w1)"
    and obs: "observe_mutation_transition status r i store False w1 = (Inr (Some current), w')"
    using assms(1) by (auto simp: advance_def io_bind_eq_Inr split: if_splits)
  have f: "since i r w1" by (rule since_forward [OF assms(2) w1 assms(3)])
  show ?thesis using observed_moved [OF obs f] observe_some(2) [OF obs since_inv [OF f]] by blast
qed

lemma settle_again:
  assumes "settle call reconciling r i g store w = (Inr None, w')" and "forward call" and "since i r w"
  shows "\<exists>r'. journal w' i = Some r' \<and> mutation_rank r < mutation_rank r'"
proof -
  obtain outcome status w1 w2 current where w1: "call w = (Inr outcome, w1)"
    and w2: "ms_record_remote_outcome store i g outcome w1 = (Inr status, w2)"
    and obs: "observe_mutation_transition status r i store
        (reconciling \<and> outcome = MutationRemoteOutcome.RemoteOutcomeUnknown) w2 = (Inr (Some current), w')"
    and go: "\<not> (outcome = MutationRemoteOutcome.RemoteOutcomeUnknown
        \<and> mr_state current = MutationState.RemoteOutcomeUnknown)"
    using assms(1) by (auto simp: settle_def io_bind_eq_Inr Let_def split: option.splits if_splits)
  have f: "since i r w2"
    by (rule since_forward [OF forward_writes(2) w2 since_forward [OF assms(2) w1 assms(3)]])
  show ?thesis using observed_moved [OF obs f] observe_some(2) [OF obs since_inv [OF f]] go by blast
qed

text \<open>The loop goes round only after the record has moved to a higher rank.\<close>

lemma resume_arm_again:
  assumes "inv w" and "journal w i = Some r" and "resume_arm i g store backend r w = (Inr None, w')"
  shows "\<exists>r'. journal w' i = Some r' \<and> mutation_rank r < mutation_rank r'"
  using assms(3) sinceI [OF assms(1,2)] unfolding resume_arm_def
  by (cases "mr_state r")
    (auto simp: io_bind_eq_Inr intro: advance_again settle_again forward_writes forward_calls)

end

sublocale mutation_journal \<subseteq> loop: journal_loop inv journal mutation_rank mr_intent i
    "load_required_mutation i store" "resume_arm i g store backend" 5 for i g
  by unfold_locales
    (use load_required_found resume_arm_again mutation_rank_le in
      \<open>blast intro: forward_load_required forward_resume_arm\<close>)+

context mutation_journal
begin

lemma resume_returns: "inv w \<Longrightarrow> \<exists>res w'. resume i g store backend w = Some (res, w')"
  unfolding resume_def resume_step_def by (rule loop.returns)

text \<open>A run reported as completed left a completed record whose outcome matches its intent.\<close>

lemma resume_completed:
  assumes "inv w" and "resume i g store backend w = Some (Inr MutationRunOutcome.Completed, w'')"
  shows "\<exists>r. journal w'' i = Some r \<and> mr_state r = MutationState.Completed
    \<and> validate_recorded_outcome r = Inr ()"
proof -
  obtain r w1 where j: "journal w1 i = Some r"
    and arm: "resume_arm i g store backend r w1 = (Inr (Some MutationRunOutcome.Completed), w'')"
    using loop.last_arm assms unfolding resume_def resume_step_def by metis
  from arm have "mr_state r = MutationState.Completed \<and> w'' = w1 \<and> validate_recorded_outcome r = Inr ()"
    by (cases "mr_state r")
      (auto simp: resume_arm_def io_bind_eq_Inr advance_def settle_def Let_def
        split: option.splits if_splits)
  then show ?thesis using j by blast
qed

end

section \<open>One remote effect per run\<close>

text \<open>
  \<open>applies w\<close> counts the \<open>apply_mutation\<close> calls made so far. No other call changes it.
\<close>

locale counted_journal = mutation_journal +
  fixes applies :: "'a \<Rightarrow> nat"
  assumes load_applies: "ms_load_mutation store i w = (res, w') \<Longrightarrow> applies w' = applies w"
    and write_applies: "journal_write store mop i g w = (st, w') \<Longrightarrow> applies w' = applies w"
    and reconcile_applies: "mb_reconcile_mutation backend intent w = (ans, w') \<Longrightarrow> applies w' = applies w"
    and apply_applies: "mb_apply_mutation backend intent w = (ans, w') \<Longrightarrow> applies w' = Suc (applies w)"
begin

definition spends :: "nat \<Rightarrow> ('a, 'e, 'b) io \<Rightarrow> bool" where
  "spends n m \<longleftrightarrow> (\<forall>w res w'. m w = (res, w') \<longrightarrow> applies w' \<le> applies w + n)"

lemma spendsD: "spends n m \<Longrightarrow> m w = (res, w') \<Longrightarrow> applies w' \<le> applies w + n"
  by (simp add: spends_def)

lemma spends_return: "spends 0 (io_return a)" "spends 0 (io_fail e)" "spends 0 (io_lift r)"
  by (auto simp: spends_def)

lemma spends_bind:
  assumes "spends n m" and "\<And>a. spends 0 (f a)"
  shows "spends n (io_bind m f)"
  unfolding spends_def
proof (intro allI impI)
  fix w res w''
  assume "io_bind m f w = (res, w'')"
  then show "applies w'' \<le> applies w + n"
    using spendsD [OF assms(1), of w] spendsD [OF assms(2)]
    by (fastforce simp: io_bind_def split: prod.splits sum.splits)
qed

lemma spends_try: "spends n m \<Longrightarrow> spends n (io_try h m)"
  by (auto simp: spends_def io_try_def split: prod.splits)

lemma spends_calls:
  "spends 0 (ms_load_mutation store i)" "spends 0 (journal_write store mop i g)"
  "spends 0 (mb_reconcile_mutation backend intent)" "spends 1 (mb_apply_mutation backend intent)"
  unfolding spends_def
  using load_applies write_applies reconcile_applies apply_applies by (metis add_0_right order_refl Suc_eq_plus1)+

lemma spends_writes:
  "spends 0 (ms_begin_remote_apply store i g)" "spends 0 (ms_record_remote_outcome store i g outcome)"
  "spends 0 (ms_mark_platform_reconciled store i g)" "spends 0 (ms_complete_mutation store i g)"
  using spends_calls(2) [of BeginRemoteApply] spends_calls(2) [of "RecordRemoteOutcome outcome"]
    spends_calls(2) [of MarkPlatformReconciled] spends_calls(2) [of CompleteMutation]
  by simp_all

lemma spends_load_required: "spends 0 (load_required_mutation i store)"
  unfolding load_required_mutation_def by (intro spends_bind spends_try spends_calls spends_return)

lemma spends_observe: "spends 0 (observe_mutation_transition status previous i store allow)"
  unfolding observe_mutation_transition_def
  by (intro spends_bind spends_load_required) (simp add: spends_return)

lemma spends_advance: "spends 0 write \<Longrightarrow> spends 0 (advance write r i store)"
  unfolding advance_def by (intro spends_bind spends_try spends_observe spends_return)

lemma spends_settle: "spends n call \<Longrightarrow> spends n (settle call reconciling r i g store)"
  unfolding settle_def Let_def
  by (intro spends_bind spends_try spends_observe spends_return spends_writes)

lemma spends_resume_arm:
  "spends (if mr_state r = RemoteApplying then 1 else 0) (resume_arm i g store backend r)"
  unfolding resume_arm_def
  by (cases "mr_state r")
    (simp_all, (intro spends_bind spends_return spends_advance spends_settle spends_writes
        spends_calls [simplified])+)

text \<open>The budget left: one application before the record is past \<open>RemoteApplying\<close>, none after.\<close>

definition budget :: "OperationId \<Rightarrow> 'a \<Rightarrow> nat" where
  "budget i w = (case journal w i of None \<Rightarrow> 1 | Some r \<Rightarrow> if mutation_rank r \<le> 1 then 1 else 0)"

lemma budget_loaded:
  assumes "load_required_mutation i store w = (Inr r, w1)" and "inv w"
  shows "(if mr_state r = RemoteApplying then 1 else 0) \<le> budget i w"
proof -
  have "journal w1 i = Some r" by (rule load_required_found [OF assms])
  moreover have "journal_le (journal w) (journal w1)"
    using forwardD [OF forward_load_required assms] by simp
  ultimately have "mutation_rank r0 \<le> mutation_rank r" if "journal w i = Some r0" for r0
    using that journal_leD record_le_rank by fastforce
  then show ?thesis by (force simp: budget_def mutation_rank_def split: option.splits)
qed

lemma resume_step_budget:
  assumes "resume_step i g store backend w = (res, w')" and "inv w"
  shows "applies w' \<le> applies w + budget i w"
    and "res = Inr None \<Longrightarrow> applies w' + budget i w' \<le> applies w + budget i w"
proof -
  show le: "applies w' \<le> applies w + budget i w"
  proof (cases "load_required_mutation i store w")
    case (Pair found w1)
    then have "applies w1 \<le> applies w" using spendsD [OF spends_load_required Pair] by simp
    moreover have "applies w' \<le> applies w1 + budget i w"
    proof (cases found)
      case (Inl e)
      then show ?thesis using assms(1) Pair by (simp add: resume_step_def io_bind_def)
    next
      case (Inr r)
      then have "resume_arm i g store backend r w1 = (res, w')"
        using assms(1) Pair by (simp add: resume_step_def io_bind_def)
      then show ?thesis
        using spendsD [OF spends_resume_arm] budget_loaded [of i w r w1] assms(2) Pair Inr
        by (meson add_left_mono order_trans)
    qed
    ultimately show ?thesis by simp
  qed
  assume "res = Inr None"
  then obtain r r' w1 where ld: "load_required_mutation i store w = (Inr r, w1)"
    and r': "journal w' i = Some r'" "mutation_rank r < mutation_rank r'"
    using loop.pass_again assms unfolding resume_step_def by blast
  have arm: "resume_arm i g store backend r w1 = (res, w')"
    using assms(1) ld by (simp add: resume_step_def io_bind_def)
  show "applies w' + budget i w' \<le> applies w + budget i w"
  proof (cases "budget i w' = 0")
    case False
    then have rank: "mutation_rank r = 0" using r' by (simp add: budget_def split: if_splits)
    then have "mr_state r \<noteq> RemoteApplying" by (auto simp: mutation_rank_def)
    then have "applies w' \<le> applies w"
      using spendsD [OF spends_resume_arm arm] spendsD [OF spends_load_required ld] by simp
    moreover have "budget i w' \<le> budget i w"
    proof (cases "journal w i")
      case (Some r0)
      then have "mutation_rank r0 < mutation_rank r'" using loop.pass_rank assms r'(1) \<open>res = Inr None\<close>
        unfolding resume_step_def by fastforce
      then show ?thesis using Some r' by (simp add: budget_def)
    qed (simp add: budget_def split: option.split)
    ultimately show ?thesis by simp
  qed (use le in simp)
qed

lemma resume_applies_once:
  assumes "inv w" and "resume i g store backend w = Some (res, w'')"
  shows "applies w'' \<le> applies w + budget i w"
  using assms unfolding resume_def resume_step_def
proof (induction w rule: loop.run_induct [where i = i and g = g])
  case (stop w res' w')
  then have "w' = w''" by (auto simp: io_loop_stop split: sum.splits)
  then show ?case using resume_step_budget(1) [of i g, unfolded resume_step_def, OF stop(2,1)] by simp
next
  case (again w w')
  then show ?case using resume_step_budget(2) [of i g, unfolded resume_step_def, OF again(2,1)] by (simp add: io_loop_again)
qed

end

section \<open>A run that nobody disturbs completes\<close>

text \<open>The outcome a record ends with: the one it already knows, or else the backend's answer.\<close>

definition settled :: "MutationRecord \<Rightarrow> MutationRemoteOutcome \<Rightarrow> MutationRemoteOutcome" where
  "settled r answer =
     (case mr_remote_outcome r of
        None \<Rightarrow> answer
      | Some outcome \<Rightarrow> if outcome = MutationRemoteOutcome.RemoteOutcomeUnknown then answer else outcome)"

text \<open>
  \<open>live w i g\<close>: the executor generation is the active one and nothing else acts on the
  operation. Then loads see the record, writes perform the record's transition, and the backend
  gives a definite \<open>answer\<close>.
\<close>

locale live_journal = mutation_journal +
  fixes live :: "'a \<Rightarrow> OperationId \<Rightarrow> SessionGeneration \<Rightarrow> bool"
  assumes live_load: "inv w \<Longrightarrow> live w i g \<Longrightarrow> ms_load_mutation store i w = (Inr (journal w i), w)"
    and live_write:
      "inv w \<Longrightarrow> live w i g \<Longrightarrow> journal w i = Some r \<Longrightarrow>
       mutation_apply mop r = (Inr RecordTransition.Applied, r') \<Longrightarrow>
         \<exists>w'. journal_write store mop i g w = (Inr StoreWriteStatus.Applied, w') \<and>
              inv w' \<and> live w' i g \<and> journal w' i = Some r'"
begin

definition answers :: "OperationId \<Rightarrow> SessionGeneration \<Rightarrow> MutationIntent \<Rightarrow> MutationRemoteOutcome \<Rightarrow> bool" where
  "answers i g intent answer \<longleftrightarrow>
     answer \<noteq> MutationRemoteOutcome.RemoteOutcomeUnknown \<and>
     (\<forall>w. inv w \<longrightarrow> live w i g \<longrightarrow>
        (\<exists>w'. mb_apply_mutation backend intent w = (Inr answer, w') \<and>
              inv w' \<and> live w' i g \<and> journal w' i = journal w i) \<and>
        (\<exists>w'. mb_reconcile_mutation backend intent w = (Inr answer, w') \<and>
              inv w' \<and> live w' i g \<and> journal w' i = journal w i))"

lemma live_load_required:
  "inv w \<Longrightarrow> live w i g \<Longrightarrow> journal w i = Some r \<Longrightarrow> load_required_mutation i store w = (Inr r, w)"
  by (simp add: load_required_mutation_def io_bind_def io_try_def live_load)

lemma live_observe:
  assumes "inv w" "live w i g" "journal w i = Some r'" "r' \<noteq> r"
  shows "observe_mutation_transition status r i store allow w = (Inr (Some r'), w)"
  using assms live_load_required by (simp add: observe_mutation_transition_def io_bind_def)

text \<open>What one more round of the loop achieves.\<close>

definition moved_on ::
  "OperationId \<Rightarrow> SessionGeneration \<Rightarrow> MutationRecord \<Rightarrow> MutationRemoteOutcome \<Rightarrow> 'a \<Rightarrow> bool" where
  "moved_on i g r answer w \<longleftrightarrow>
     inv w \<and> live w i g \<and>
     (\<exists>r'. journal w i = Some r' \<and> mutation_good r' \<and> mutation_rank r < mutation_rank r' \<and>
        mr_intent r' = mr_intent r \<and> settled r' answer = settled r answer)"

lemma live_advance:
  assumes "inv w" "live w i g" "journal w i = Some r" "mutation_good r"
    and ap: "mutation_apply mop r = (Inr RecordTransition.Applied, r')"
    and same: "mr_remote_outcome r' = mr_remote_outcome r"
  shows "\<exists>w'. advance (journal_write store mop i g) r i store w = (Inr None, w') \<and>
    moved_on i g r answer w'"
proof -
  obtain w' where w': "journal_write store mop i g w = (Inr StoreWriteStatus.Applied, w')"
    "inv w'" "live w' i g" "journal w' i = Some r'"
    using live_write [OF assms(1-3) ap] by blast
  note moves = mutation_moves_good [OF assms(4) mutation_apply_moves [OF ap]]
  then have "r' \<noteq> r" by auto
  then have "advance (journal_write store mop i g) r i store w = (Inr None, w')"
    using w' live_observe by (auto simp: advance_def io_bind_def io_try_def)
  moreover have "moved_on i g r answer w'"
    using w' moves same by (auto simp: moved_on_def settled_def)
  ultimately show ?thesis by blast
qed

lemma live_settle:
  assumes "inv w" "live w i g" "journal w i = Some r" "mutation_good r"
    and st: "mr_state r = RemoteApplying \<or> mr_state r = MutationState.RemoteOutcomeUnknown"
    and call: "\<exists>w'. call w = (Inr answer, w') \<and> inv w' \<and> live w' i g \<and> journal w' i = journal w i"
    and answer: "answer \<noteq> MutationRemoteOutcome.RemoteOutcomeUnknown"
      "validate_remote_outcome (mr_intent r) (settled r answer) = Inr ()"
  shows "\<exists>w'. settle call reconciling r i g store w = (Inr None, w') \<and> moved_on i g r answer w'"
proof -
  let ?r = "r\<lparr>mr_state := RemoteOutcomeKnown, mr_remote_outcome := Some answer\<rparr>"
  have eq: "settled r answer = answer"
    using assms(4) st by (auto simp: mutation_good_def settled_def split: option.splits if_splits)
  obtain w1 where w1: "call w = (Inr answer, w1)" "inv w1" "live w1 i g" "journal w1 i = Some r"
    using call assms(3) by auto
  have ap: "mutation_apply (RecordRemoteOutcome answer) r = (Inr RecordTransition.Applied, ?r)"
    using assms(4) st answer(1)
    by (auto simp: MutationRecord_record_remote_outcome_def mutation_good_def durable_state_eq Let_def
        split: option.splits if_splits)
  obtain w2 where w2: "ms_record_remote_outcome store i g answer w1 = (Inr StoreWriteStatus.Applied, w2)"
    "inv w2" "live w2 i g" "journal w2 i = Some ?r"
    using live_write [OF w1(2,3,4) ap] by auto
  note moves = mutation_moves_good [OF assms(4) mutation_apply_moves [OF ap]]
  then have "?r \<noteq> r" by auto
  then have "settle call reconciling r i g store w = (Inr None, w2)"
    using w1(1) w2 live_observe [OF w2(2-4)] answer eq
    by (simp add: settle_def io_bind_def io_try_def Let_def)
  moreover have "moved_on i g r answer w2"
    using w2 moves eq answer(1) by (auto simp: moved_on_def settled_def)
  ultimately show ?thesis by blast
qed

lemma settled_known:
  assumes "mutation_good r"
    and "mr_state r \<in> {RemoteOutcomeKnown, PlatformReconciled, MutationState.Completed}"
    and "validate_remote_outcome (mr_intent r) (settled r answer) = Inr ()"
  shows "mr_remote_outcome r = Some (settled r answer)" and "validate_recorded_outcome r = Inr ()"
  using assms
  by (auto simp: mutation_good_def settled_def validate_recorded_outcome_def
      split: option.splits if_splits)

lemma live_arm:
  assumes live: "inv w" "live w i g" "journal w i = Some r" "mutation_good r"
    and ans: "answers i g (mr_intent r) answer"
    and valid: "validate_remote_outcome (mr_intent r) (settled r answer) = Inr ()"
    and "mr_state r \<noteq> MutationState.Completed"
  shows "\<exists>w'. resume_arm i g store backend r w = (Inr None, w') \<and> moved_on i g r answer w'"
proof (cases "mr_state r")
  case IntentPersisted
  then show ?thesis
    using live_advance [OF live, of BeginRemoteApply "r\<lparr>mr_state := RemoteApplying\<rparr>" answer]
    by (simp add: begin_remote_apply_applied resume_arm_def)
next
  case RemoteApplying
  then show ?thesis
    using ans live(1,2) live_settle [OF live _ _ _ valid, of "mb_apply_mutation backend (mr_intent r)" False]
    by (simp add: answers_def resume_arm_def)
next
  case RemoteOutcomeUnknown
  then show ?thesis
    using ans live(1,2) live_settle [OF live _ _ _ valid, of "mb_reconcile_mutation backend (mr_intent r)" True]
    by (simp add: answers_def resume_arm_def)
next
  case RemoteOutcomeKnown
  then show ?thesis
    using live_advance [OF live, of MarkPlatformReconciled "r\<lparr>mr_state := PlatformReconciled\<rparr>" answer]
      settled_known(2) [OF live(4) _ valid]
    by (simp add: mark_platform_reconciled_applied resume_arm_def io_bind_def)
next
  case PlatformReconciled
  then show ?thesis
    using live_advance [OF live, of CompleteMutation "r\<lparr>mr_state := MutationState.Completed\<rparr>" answer]
      settled_known(2) [OF live(4) _ valid]
    by (simp add: complete_mutation_applied resume_arm_def io_bind_def)
qed (use assms in simp)

lemma live_resume:
  assumes "inv w" "live w i g" "journal w i = Some r" "mutation_good r"
    and "answers i g (mr_intent r) answer"
    and "validate_remote_outcome (mr_intent r) (settled r answer) = Inr ()"
  shows "\<exists>w' r'. resume i g store backend w = Some (Inr MutationRunOutcome.Completed, w') \<and> live w' i g \<and>
    journal w' i = Some r' \<and> mr_intent r' = mr_intent r \<and> mr_state r' = MutationState.Completed \<and>
    mr_remote_outcome r' = Some (settled r answer)"
  using assms
proof (induction "5 - mutation_rank r" arbitrary: w r rule: less_induct)
  case less
  have ld: "load_required_mutation i store w = (Inr r, w)" using live_load_required less.prems by blast
  show ?case
  proof (cases "mr_state r = MutationState.Completed")
    case True
    then have "mr_remote_outcome r = Some (settled r answer)" "validate_recorded_outcome r = Inr ()"
      using settled_known [OF less.prems(4) _ less.prems(6)] by simp_all
    then show ?thesis
      using True ld less.prems
      by (auto simp: resume_def resume_step_def resume_arm_def io_bind_def intro!: io_loop_stop [THEN trans])
  next
    case False
    obtain w' r' where arm: "resume_arm i g store backend r w = (Inr None, w')"
      and next_state: "inv w'" "live w' i g" "journal w' i = Some r'" "mutation_good r'"
        "mutation_rank r < mutation_rank r'" "mr_intent r' = mr_intent r"
        "settled r' answer = settled r answer"
      using live_arm [OF less.prems False] by (auto simp: moved_on_def)
    have "5 - mutation_rank r' < 5 - mutation_rank r"
      using next_state(5) mutation_rank_le [of r'] by linarith
    then have "\<exists>w'' r''. resume i g store backend w' = Some (Inr MutationRunOutcome.Completed, w'') \<and>
        live w'' i g \<and> journal w'' i = Some r'' \<and> mr_intent r'' = mr_intent r' \<and>
        mr_state r'' = MutationState.Completed \<and> mr_remote_outcome r'' = Some (settled r' answer)"
      by (rule less.hyps) (use next_state less.prems in simp_all)
    then show ?thesis
      using ld arm next_state(6,7) io_loop_again [of "resume_step i g store backend" w w']
      by (simp add: resume_def resume_step_def io_bind_def)
  qed
qed

end

end
