(* ===== verification/Store_Base.thy ===== *)
theory Store_Base
  imports Store_Ports "HOL-Library.AList"
begin

text \<open>
  What the in-memory stores of the contract suite share: the failure injector
  (\<open>core/tests/support/failure_injection.rs\<close>), hash maps as association lists with distinct
  keys, and recovery paging. Every store has its own page method and its own loop that collects a
  whole backlog; they differ in the records they page through.
\<close>

section \<open>The failure injector\<close>

datatype FailurePoint =
    BeforeMutationIntentPersist
  | AfterMutationIntentPersistBeforeReturn
  | AfterRemoteApplyPersistBeforeReturn
  | AfterRemoteOutcomePersistBeforeReturn
  | AfterPlatformReconciledPersistBeforeReturn
  | AfterMutationCompletionPersistBeforeReturn
  | AfterChangeBatchPersistBeforeReturn
  | AfterChangeEffectsReplayablePersistBeforeReturn
  | AfterCursorCommitPersistBeforeReturn
  | AfterContentEvictionIntentPersistBeforeReturn
  | AfterContentEvictionEffectPersistBeforeReturn
  | AfterContentEvictionMetadataPersistBeforeReturn
  | AfterContentEvictionCompletionPersistBeforeReturn
  | AfterContentCacheWriteIntentPersistBeforeReturn
  | AfterContentCacheWritePhysicalPersistBeforeReturn
  | AfterContentCacheWriteCoveragePersistBeforeReturn
  | AfterContentCacheWriteCompletionPersistBeforeReturn
  | AfterContentUploadIntentPersistBeforeReturn
  | AfterContentUploadCheckpointPersistBeforeReturn
  | AfterContentUploadRemoteCommitPersistBeforeReturn
  | AfterContentUploadOutcomePersistBeforeReturn
  | AfterContentUploadMetadataPersistBeforeReturn
  | AfterContentUploadCompletionPersistBeforeReturn

primrec failure_point_debug :: "FailurePoint \<Rightarrow> string" where
  "failure_point_debug BeforeMutationIntentPersist = ''BeforeMutationIntentPersist''"
| "failure_point_debug AfterMutationIntentPersistBeforeReturn =
     ''AfterMutationIntentPersistBeforeReturn''"
| "failure_point_debug AfterRemoteApplyPersistBeforeReturn = ''AfterRemoteApplyPersistBeforeReturn''"
| "failure_point_debug AfterRemoteOutcomePersistBeforeReturn =
     ''AfterRemoteOutcomePersistBeforeReturn''"
| "failure_point_debug AfterPlatformReconciledPersistBeforeReturn =
     ''AfterPlatformReconciledPersistBeforeReturn''"
| "failure_point_debug AfterMutationCompletionPersistBeforeReturn =
     ''AfterMutationCompletionPersistBeforeReturn''"
| "failure_point_debug AfterChangeBatchPersistBeforeReturn = ''AfterChangeBatchPersistBeforeReturn''"
| "failure_point_debug AfterChangeEffectsReplayablePersistBeforeReturn =
     ''AfterChangeEffectsReplayablePersistBeforeReturn''"
| "failure_point_debug AfterCursorCommitPersistBeforeReturn =
     ''AfterCursorCommitPersistBeforeReturn''"
| "failure_point_debug AfterContentEvictionIntentPersistBeforeReturn =
     ''AfterContentEvictionIntentPersistBeforeReturn''"
| "failure_point_debug AfterContentEvictionEffectPersistBeforeReturn =
     ''AfterContentEvictionEffectPersistBeforeReturn''"
| "failure_point_debug AfterContentEvictionMetadataPersistBeforeReturn =
     ''AfterContentEvictionMetadataPersistBeforeReturn''"
| "failure_point_debug AfterContentEvictionCompletionPersistBeforeReturn =
     ''AfterContentEvictionCompletionPersistBeforeReturn''"
| "failure_point_debug AfterContentCacheWriteIntentPersistBeforeReturn =
     ''AfterContentCacheWriteIntentPersistBeforeReturn''"
| "failure_point_debug AfterContentCacheWritePhysicalPersistBeforeReturn =
     ''AfterContentCacheWritePhysicalPersistBeforeReturn''"
| "failure_point_debug AfterContentCacheWriteCoveragePersistBeforeReturn =
     ''AfterContentCacheWriteCoveragePersistBeforeReturn''"
| "failure_point_debug AfterContentCacheWriteCompletionPersistBeforeReturn =
     ''AfterContentCacheWriteCompletionPersistBeforeReturn''"
| "failure_point_debug AfterContentUploadIntentPersistBeforeReturn =
     ''AfterContentUploadIntentPersistBeforeReturn''"
| "failure_point_debug AfterContentUploadCheckpointPersistBeforeReturn =
     ''AfterContentUploadCheckpointPersistBeforeReturn''"
| "failure_point_debug AfterContentUploadRemoteCommitPersistBeforeReturn =
     ''AfterContentUploadRemoteCommitPersistBeforeReturn''"
| "failure_point_debug AfterContentUploadOutcomePersistBeforeReturn =
     ''AfterContentUploadOutcomePersistBeforeReturn''"
| "failure_point_debug AfterContentUploadMetadataPersistBeforeReturn =
     ''AfterContentUploadMetadataPersistBeforeReturn''"
| "failure_point_debug AfterContentUploadCompletionPersistBeforeReturn =
     ''AfterContentUploadCompletionPersistBeforeReturn''"

type_synonym FailureInjector = "FailurePoint set"

definition FailureInjector_arm :: "FailurePoint \<Rightarrow> FailureInjector \<Rightarrow> FailureInjector" where
  "FailureInjector_arm point armed = insert point armed"

definition injected_crash :: "FailurePoint \<Rightarrow> CloudFilesStoreError" where
  "injected_crash point =
     CloudFilesStoreError_new PersistenceFailure (''injected crash at '' @ failure_point_debug point)"

definition FailureInjector_trip :: "FailurePoint \<Rightarrow> (FailureInjector, unit) store_io" where
  "FailureInjector_trip point armed =
     (if point \<in> armed then (Inl (injected_crash point), armed - {point}) else (Inr (), armed))"

section \<open>Errors and statuses\<close>

definition transition_error :: "CloudFilesCoreError \<Rightarrow> CloudFilesStoreError" where
  "transition_error e = CloudFilesStoreError_new InvalidTransition (CloudFilesCoreError_to_string e)"

section \<open>Recovery paging\<close>

text \<open>
  The page of the records that satisfy \<open>pending\<close>: sorted by operation id, after the cursor,
  cut at \<open>limit\<close>.
\<close>

definition recovery_page ::
  "('r \<Rightarrow> string) \<Rightarrow> ('r \<Rightarrow> bool) \<Rightarrow> 'r list \<Rightarrow> string option \<Rightarrow> usize \<Rightarrow> 'r RecoveryPage" where
  "recovery_page ident pending records after limit =
     (let records = sort_key ident (filter pending records);
          records = (case after of
                       Some a \<Rightarrow> filter (\<lambda>r. ident r > a) records
                     | None \<Rightarrow> records)
      in \<lparr>rp_items = take limit records, rp_has_more = length records > limit\<rparr>)"

definition TEST_RECOVERY_PAGE_SIZE :: usize where
  "TEST_RECOVERY_PAGE_SIZE = 64"

text \<open>
  The collecting loop has no bound of its own. Its state is the records collected so far and the
  last operation id seen.
\<close>

partial_function (option) collect_pages ::
  "(string option \<Rightarrow> ('s, 'r RecoveryPage) store_io) \<Rightarrow> ('r \<Rightarrow> string) \<Rightarrow> string \<Rightarrow> 'r list
   \<Rightarrow> string option \<Rightarrow> 's \<Rightarrow> ((CloudFilesStoreError + 'r list) \<times> 's) option" where
  "collect_pages page ident no_cursor records after s =
     (case page after s of
        (Inl e, s') \<Rightarrow> Some (Inl e, s')
      | (Inr found, s') \<Rightarrow>
          (let has_more = rp_has_more found;
               after = (if rp_items found = [] then None
                        else Some (ident (last (rp_items found))));
               records = records @ rp_items found
           in
           if \<not> has_more then Some (Inr records, s')
           else if after = None then Some (Inl (CloudFilesStoreError_new InvalidTransition no_cursor), s')
           else collect_pages page ident no_cursor records after s'))"

declare collect_pages.simps [code]

section \<open>Association lists as hash maps\<close>

lemma update_new:
  "k \<notin> fst ` set al \<Longrightarrow> AList.update k v al = al @ [(k, v)]"
  by (induction al) auto

lemma map_of_update [simp]: "map_of (AList.update k v al) i = (if i = k then Some v else map_of al i)"
  by (simp add: update_conv')

lemma update_same:
  "map_of al k = Some v \<Longrightarrow> AList.update k v al = al"
  by (induction al) (auto split: if_splits)

lemma update_fst_same: "map_of al k = Some u \<Longrightarrow> map fst (AList.update k v al) = map fst al"
  by (induction al) (auto split: if_splits)

text \<open>A journal stores every record under its own operation id.\<close>

definition keyed_by :: "('r \<Rightarrow> 'k) \<Rightarrow> ('k \<times> 'r) list \<Rightarrow> bool" where
  "keyed_by key al \<longleftrightarrow> distinct (map fst al) \<and> (\<forall>k r. map_of al k = Some r \<longrightarrow> key r = k)"

lemma keyed_by_Nil [simp]: "keyed_by key []"
  by (simp add: keyed_by_def)

lemma keyed_by_update: "keyed_by key al \<Longrightarrow> key r = k \<Longrightarrow> keyed_by key (AList.update k r al)"
  by (simp add: keyed_by_def distinct_update)

lemma keyed_by_found: "keyed_by key al \<Longrightarrow> map_of al k = Some r \<Longrightarrow> key r = k"
  by (simp add: keyed_by_def)

lemma keyed_by_mem:
  assumes "keyed_by key al"
  shows "r \<in> snd ` set al \<longleftrightarrow> map_of al (key r) = Some r"
proof
  assume "r \<in> snd ` set al"
  then obtain k where "map_of al k = Some r" using assms by (force simp: keyed_by_def)
  then show "map_of al (key r) = Some r" using assms by (auto simp: keyed_by_def)
qed (use map_of_SomeD in force)

lemma keyed_by_distinct:
  assumes "keyed_by key al" and "inj ident"
  shows "distinct (map (\<lambda>r. ident (key r)) (map snd al))"
proof -
  have "map key (map snd al) = map fst al"
    using assms(1) by (auto simp: keyed_by_def comp_def)
  then have eq: "map (\<lambda>r. ident (key r)) (map snd al) = map ident (map fst al)"
    by (metis (no_types, lifting) list.map_comp comp_def map_eq_conv)
  have "distinct (map fst al)" using assms(1) by (simp add: keyed_by_def)
  then show ?thesis
    unfolding eq by (subst distinct_map) (use assms(2) in \<open>blast intro: inj_on_subset\<close>)
qed

section \<open>Paging enumerates a backlog\<close>

lemma filter_after_last:
  fixes f :: "'a \<Rightarrow> 'b::linorder"
  assumes "sorted_wrt (\<lambda>a b. f a < f b) (p @ q)" and "p \<noteq> []"
  shows "filter (\<lambda>r. f (last p) < f r) (p @ q) = q"
proof -
  obtain p' x where p: "p = p' @ [x]" using assms(2) by (metis append_butlast_last_id)
  have "\<not> f x < f r" if "r \<in> set p" for r
    using assms(1) that by (auto simp: p sorted_wrt_append)
  moreover have "f x < f r" if "r \<in> set q" for r
    using assms(1) that by (auto simp: p sorted_wrt_append)
  ultimately show ?thesis by (simp add: p)
qed

lemma sort_key_strict:
  assumes "distinct (map ident xs)"
  shows "sorted_wrt (\<lambda>a b. ident a < ident b) (sort_key ident (filter P xs))"
proof -
  have "distinct (map ident (sort_key ident (filter P xs)))"
    using assms by (simp add: distinct_map_filter distinct_map) (auto simp: distinct_map inj_on_def)
  moreover have "sorted (map ident (sort_key ident (filter P xs)))" by simp
  ultimately have "sorted_wrt (<) (map ident (sort_key ident (filter P xs)))"
    using strict_sorted_iff by blast
  then show ?thesis by (simp add: sorted_wrt_map)
qed

text \<open>
  A store whose page method pages through a fixed list of records returns the whole backlog, in
  the order of the operation ids.
\<close>

locale paged_store =
  fixes page :: "string option \<Rightarrow> ('s, 'r RecoveryPage) store_io"
    and ident :: "'r \<Rightarrow> string"
    and pending :: "'r \<Rightarrow> bool"
    and records :: "'s \<Rightarrow> 'r list"
    and inv :: "'s \<Rightarrow> bool"
  assumes pages: "inv s \<Longrightarrow>
      page after s = (Inr (recovery_page ident pending (records s) after TEST_RECOVERY_PAGE_SIZE), s)"
    and distinct_ids: "inv s \<Longrightarrow> distinct (map ident (records s))"
begin

definition backlog :: "'s \<Rightarrow> 'r list" where
  "backlog s = sort_key ident (filter pending (records s))"

lemma backlog_strict: "inv s \<Longrightarrow> sorted_wrt (\<lambda>a b. ident a < ident b) (backlog s)"
  unfolding backlog_def using distinct_ids by (rule sort_key_strict)

lemma set_backlog: "set (backlog s) = {r \<in> set (records s). pending r}"
  by (auto simp: backlog_def)

lemma collect_loop:
  assumes inv: "inv s"
    and rest: "backlog s = seen @ rest"
    and after: "(case after of None \<Rightarrow> backlog s | Some a \<Rightarrow> filter (\<lambda>r. ident r > a) (backlog s)) = rest"
  shows "collect_pages page ident no_cursor found after s = Some (Inr (found @ rest), s)"
  using rest after
proof (induction "length rest" arbitrary: seen rest after found rule: less_induct)
  case less
  let ?n = TEST_RECOVERY_PAGE_SIZE
  have page: "page after s = (Inr \<lparr>rp_items = take ?n rest, rp_has_more = length rest > ?n\<rparr>, s)"
    unfolding pages [OF inv] recovery_page_def Let_def backlog_def [symmetric]
    using less.prems(2) by (simp split: option.splits)
  show ?case
  proof (cases "length rest > ?n")
    case False
    then show ?thesis using page by (subst collect_pages.simps) simp
  next
    case True
    have ne: "take ?n rest \<noteq> []" and shorter: "length (drop ?n rest) < length rest"
      using True by (auto simp: TEST_RECOVERY_PAGE_SIZE_def)
    have split: "backlog s = (seen @ take ?n rest) @ drop ?n rest" using less.prems(1) by simp
    have "filter (\<lambda>r. ident r > ident (last (take ?n rest))) (backlog s) = drop ?n rest"
      using filter_after_last [of ident "seen @ take ?n rest" "drop ?n rest"] backlog_strict [OF inv] ne split
      by simp
    then have "collect_pages page ident no_cursor (found @ take ?n rest) (Some (ident (last (take ?n rest)))) s
        = Some (Inr ((found @ take ?n rest) @ drop ?n rest), s)"
      by (intro less.hyps [OF shorter split]) simp
    then show ?thesis using page True ne by (subst collect_pages.simps) simp
  qed
qed

lemma collect_all: "inv s \<Longrightarrow> collect_pages page ident no_cursor [] None s = Some (Inr (backlog s), s)"
  using collect_loop [of s "[]" "backlog s" None] by simp

end

end
