(* ===== verification/Memory_Store.thy ===== *)
theory Memory_Store
  imports Mutation_Runner Store_Base
begin

text \<open>
  The in-memory durable store of the core's contract suite
  (\<open>core/tests/support/store.rs\<close>): change checkpoints, session fences and the mutation journal. It
  is the implementation on which the store contracts are interpreted. Hash maps are
  association lists with distinct keys; the injected crash points and the stall flag are part
  of the state.
\<close>

section \<open>State\<close>

record CursorState =
  cur_active_cursor :: "ChangeCursor option"
  cur_pending_batch :: "PersistedChangeBatch option"
  cur_committed_batches :: "(ChangeBatchId \<times> PersistedChangeBatch) list"

record SessionRecord =
  ses_generation :: SessionGeneration
  ses_state :: SessionState

record MemoryCloudFilesStore =
  mem_cursors :: "(CloudScope \<times> CursorState) list"
  mem_sessions :: "(CloudScope \<times> SessionRecord) list"
  mem_mutations :: "(OperationId \<times> MutationRecord) list"
  mem_idempotency_keys :: "(IdempotencyKey \<times> OperationId) list"
  mem_failures :: FailureInjector
  mem_stall :: bool

definition MemoryCloudFilesStore_default :: MemoryCloudFilesStore where
  "MemoryCloudFilesStore_default =
     \<lparr>mem_cursors = [], mem_sessions = [], mem_mutations = [], mem_idempotency_keys = [],
      mem_failures = {}, mem_stall = False\<rparr>"

type_synonym 'a mem_io = "(MemoryCloudFilesStore, 'a) store_io"

definition trip :: "FailurePoint \<Rightarrow> unit mem_io" where
  "trip point s =
     (case FailureInjector_trip point (mem_failures s) of
        (res, armed) \<Rightarrow> (res, s\<lparr>mem_failures := armed\<rparr>))"

definition arm :: "FailurePoint \<Rightarrow> MemoryCloudFilesStore \<Rightarrow> MemoryCloudFilesStore" where
  "arm point s = s\<lparr>mem_failures := FailureInjector_arm point (mem_failures s)\<rparr>"

definition stall_next_remote_apply :: "MemoryCloudFilesStore \<Rightarrow> MemoryCloudFilesStore" where
  "stall_next_remote_apply s = s\<lparr>mem_stall := True\<rparr>"

section \<open>Change checkpoints\<close>

definition checkpoint :: "CursorState \<Rightarrow> CloudScope \<Rightarrow> ChangeCursorCheckpoint" where
  "checkpoint self scope =
     \<lparr>cp_scope = scope, cp_active_cursor = cur_active_cursor self,
      cp_pending_batch = cur_pending_batch self\<rparr>"

definition load_change_checkpoint :: "CloudScope \<Rightarrow> ChangeCursorCheckpoint mem_io" where
  "load_change_checkpoint scope s =
     (Inr (case map_of (mem_cursors s) scope of
             None \<Rightarrow> ChangeCursorCheckpoint_initial scope
           | Some cursor \<Rightarrow> checkpoint cursor scope), s)"

definition CursorState_empty :: CursorState where
  "CursorState_empty =
     \<lparr>cur_active_cursor = None, cur_pending_batch = None, cur_committed_batches = []\<rparr>"

text \<open>\<open>entry(scope).or_insert_with\<close> stores the empty cursor state before any check.\<close>

definition record_change_batch :: "PersistedChangeBatch \<Rightarrow> StoreWriteStatus mem_io" where
  "record_change_batch batch s =
     (let scope = pb_scope batch;
          s = (if map_of (mem_cursors s) scope = None
               then s\<lparr>mem_cursors := AList.update scope CursorState_empty (mem_cursors s)\<rparr> else s);
          cursor = the (map_of (mem_cursors s) scope)
      in
      case map_of (cur_committed_batches cursor) (pb_id batch) of
        Some committed \<Rightarrow>
          if committed = batch then (Inr StoreWriteStatus.AlreadyApplied, s)
          else (Inl (CloudFilesStoreError_new CloudFilesStoreErrorKind.Conflict
                  ''change batch id already identifies different committed content''), s)
      | None \<Rightarrow>
          (case cur_pending_batch cursor of
             Some pending \<Rightarrow>
               if pending = batch then (Inr StoreWriteStatus.AlreadyApplied, s)
               else (Inl (CloudFilesStoreError_new CloudFilesStoreErrorKind.Conflict
                       ''another change batch is already pending''), s)
           | None \<Rightarrow>
               if cur_active_cursor cursor \<noteq> pb_base_cursor batch
               then (Inl (CloudFilesStoreError_new CloudFilesStoreErrorKind.Conflict
                       ''change batch base cursor does not match active cursor''), s)
               else io_bind
                 (trip AfterChangeBatchPersistBeforeReturn) (\<lambda>_.
                 io_return StoreWriteStatus.Applied)
                 (s\<lparr>mem_cursors := AList.update scope (cursor\<lparr>cur_pending_batch := Some batch\<rparr>)
                                     (mem_cursors s)\<rparr>)))"

definition mark_change_effects_replayable ::
  "CloudScope \<Rightarrow> ChangeBatchId \<Rightarrow> StoreWriteStatus mem_io" where
  "mark_change_effects_replayable scope batch_id s =
     (case map_of (mem_cursors s) scope of
        None \<Rightarrow> (Inl (CloudFilesStoreError_new CloudFilesStoreErrorKind.NotFound
                  ''change checkpoint was not found''), s)
      | Some cursor \<Rightarrow>
          if map_of (cur_committed_batches cursor) batch_id \<noteq> None
          then (Inr StoreWriteStatus.AlreadyApplied, s)
          else case cur_pending_batch cursor of
            None \<Rightarrow> (Inl (CloudFilesStoreError_new CloudFilesStoreErrorKind.NotFound
                      ''pending change batch was not found''), s)
          | Some pending \<Rightarrow>
              if pb_id pending \<noteq> batch_id
              then (Inl (CloudFilesStoreError_new CloudFilesStoreErrorKind.Conflict
                      ''pending change batch identity does not match''), s)
              else (case mark_effects_replayable pending of
                (changed, pending') \<Rightarrow>
                  io_bind (trip AfterChangeEffectsReplayablePersistBeforeReturn) (\<lambda>_.
                  io_return (if changed then StoreWriteStatus.Applied
                             else StoreWriteStatus.AlreadyApplied))
                  (s\<lparr>mem_cursors := AList.update scope (cursor\<lparr>cur_pending_batch := Some pending'\<rparr>)
                                      (mem_cursors s)\<rparr>)))"

definition commit_change_cursor ::
  "CloudScope \<Rightarrow> ChangeBatchId \<Rightarrow> StoreWriteStatus mem_io" where
  "commit_change_cursor scope batch_id s =
     (case map_of (mem_cursors s) scope of
        None \<Rightarrow> (Inl (CloudFilesStoreError_new CloudFilesStoreErrorKind.NotFound
                  ''change checkpoint was not found''), s)
      | Some cursor \<Rightarrow>
          if map_of (cur_committed_batches cursor) batch_id \<noteq> None
          then (Inr StoreWriteStatus.AlreadyApplied, s)
          else case cur_pending_batch cursor of
            None \<Rightarrow> (Inl (CloudFilesStoreError_new CloudFilesStoreErrorKind.NotFound
                      ''pending change batch was not found''), s)
          | Some pending \<Rightarrow>
              if pb_id pending \<noteq> batch_id
              then (Inl (CloudFilesStoreError_new CloudFilesStoreErrorKind.Conflict
                      ''pending change batch identity does not match''), s)
              else if pb_state pending \<noteq> EffectsReplayable
              then (Inl (CloudFilesStoreError_new InvalidTransition
                      ''change cursor cannot advance before effects are replayable''), s)
              else
                io_bind (trip AfterCursorCommitPersistBeforeReturn) (\<lambda>_.
                io_return StoreWriteStatus.Applied)
                (s\<lparr>mem_cursors :=
                     AList.update scope
                       (cursor\<lparr>cur_active_cursor := Some (cb_next_cursor (pb_batch pending)),
                          cur_pending_batch := None,
                          cur_committed_batches :=
                            AList.update batch_id pending (cur_committed_batches cursor)\<rparr>)
                       (mem_cursors s)\<rparr>))"

section \<open>Sessions\<close>

definition activate_session :: "CloudScope \<Rightarrow> SessionGeneration \<Rightarrow> StoreWriteStatus mem_io" where
  "activate_session scope generation s =
     (let inserted = s\<lparr>mem_sessions :=
            AList.update scope \<lparr>ses_generation = generation, ses_state = Accepting\<rparr> (mem_sessions s)\<rparr>
      in
      case map_of (mem_sessions s) scope of
        Some active \<Rightarrow>
          if generation < ses_generation active then (Inr StoreWriteStatus.Fenced, s)
          else if generation = ses_generation active
          then (if ses_state active = Accepting then (Inr StoreWriteStatus.AlreadyApplied, s)
                else (Inl (CloudFilesStoreError_new InvalidTransition
                        ''the same generation cannot reopen a closing or closed session''), s))
          else (Inr StoreWriteStatus.Applied, inserted)
      | None \<Rightarrow> (Inr StoreWriteStatus.Applied, inserted))"

definition load_session :: "CloudScope \<Rightarrow> (SessionGeneration \<times> SessionState) option mem_io" where
  "load_session scope s =
     (Inr (map_option (\<lambda>session. (ses_generation session, ses_state session))
             (map_of (mem_sessions s) scope)), s)"

definition transition_session ::
  "CloudScope \<Rightarrow> SessionGeneration \<Rightarrow> SessionState \<Rightarrow> StoreWriteStatus mem_io" where
  "transition_session scope generation next_state s =
     (case map_of (mem_sessions s) scope of
        None \<Rightarrow> (Inl (CloudFilesStoreError_new CloudFilesStoreErrorKind.NotFound
                  ''session was not found''), s)
      | Some session \<Rightarrow>
          if generation < ses_generation session then (Inr StoreWriteStatus.Fenced, s)
          else if generation > ses_generation session
          then (Inl (CloudFilesStoreError_new CloudFilesStoreErrorKind.Conflict
                  ''requested generation is not active''), s)
          else if ses_state session = next_state then (Inr StoreWriteStatus.AlreadyApplied, s)
          else if \<not> can_transition_to (ses_state session) next_state
          then (Inl (CloudFilesStoreError_new InvalidTransition
                  ''invalid session lifecycle transition''), s)
          else (Inr StoreWriteStatus.Applied,
                s\<lparr>mem_sessions := AList.update scope (session\<lparr>ses_state := next_state\<rparr>)
                                     (mem_sessions s)\<rparr>))"

section \<open>The mutation journal\<close>

definition active_generation ::
  "MemoryCloudFilesStore \<Rightarrow> CloudScope \<Rightarrow> SessionGeneration \<Rightarrow> CloudFilesStoreError + bool" where
  "active_generation s scope generation =
     (case map_of (mem_sessions s) scope of
        None \<Rightarrow> Inl (CloudFilesStoreError_new CloudFilesStoreErrorKind.NotFound
                  ''no active session for mutation scope'')
      | Some active \<Rightarrow>
          Inr (\<not> (ses_generation active \<noteq> generation \<or> ses_state active = Closed)))"

definition mutation_scope ::
  "MemoryCloudFilesStore \<Rightarrow> OperationId \<Rightarrow> CloudFilesStoreError + CloudScope" where
  "mutation_scope s operation_id =
     (case map_of (mem_mutations s) operation_id of
        None \<Rightarrow> Inl (CloudFilesStoreError_new CloudFilesStoreErrorKind.NotFound
                  ''mutation operation was not found'')
      | Some record \<Rightarrow> Inr (desired_scope (mi_desired (mr_intent record))))"

primrec write_status :: "RecordTransition \<Rightarrow> StoreWriteStatus" where
  "write_status RecordTransition.Applied = StoreWriteStatus.Applied"
| "write_status RecordTransition.AlreadyApplied = StoreWriteStatus.AlreadyApplied"

definition with_fenced_mutation ::
  "OperationId \<Rightarrow> SessionGeneration \<Rightarrow> mutation_io \<Rightarrow> StoreWriteStatus mem_io" where
  "with_fenced_mutation operation_id generation transition s =
     (case mutation_scope s operation_id of
        Inl e \<Rightarrow> (Inl e, s)
      | Inr scope \<Rightarrow>
          (case active_generation s scope generation of
             Inl e \<Rightarrow> (Inl e, s)
           | Inr active \<Rightarrow>
               if \<not> active then (Inr StoreWriteStatus.Fenced, s)
               else
                 (case transition (the (map_of (mem_mutations s) operation_id)) of
                    (res, record) \<Rightarrow>
                      (case res of Inl e \<Rightarrow> Inl (transition_error e) | Inr t \<Rightarrow> Inr (write_status t),
                       s\<lparr>mem_mutations := AList.update operation_id record (mem_mutations s)\<rparr>))))"

definition persist_mutation_intent :: "MutationIntent \<Rightarrow> StoreWriteStatus mem_io" where
  "persist_mutation_intent intent =
     io_bind (trip BeforeMutationIntentPersist) (\<lambda>_.
     io_bind (io_lift (res_map_err transition_error (MutationRecord_persist intent))) (\<lambda>record s.
     let operation_id = mi_operation_id (mr_intent record);
         idempotency_key = mi_idempotency_key (mr_intent record);
         scope = desired_scope (mi_desired (mr_intent record));
         generation = mi_session_generation (mr_intent record)
     in
     case map_of (mem_sessions s) scope of
       None \<Rightarrow> (Inl (CloudFilesStoreError_new CloudFilesStoreErrorKind.NotFound
                 ''no active session for mutation intent''), s)
     | Some session \<Rightarrow>
         if ses_generation session \<noteq> generation \<or> ses_state session \<noteq> Accepting
         then (Inr StoreWriteStatus.Fenced, s)
         else case map_of (mem_mutations s) operation_id of
           Some existing \<Rightarrow>
             if existing = record then (Inr StoreWriteStatus.AlreadyApplied, s)
             else (Inl (CloudFilesStoreError_new CloudFilesStoreErrorKind.Conflict
                     ''operation id already identifies a different mutation''), s)
         | None \<Rightarrow>
             if (case map_of (mem_idempotency_keys s) idempotency_key of
                   Some existing_operation \<Rightarrow> existing_operation \<noteq> operation_id
                 | None \<Rightarrow> False)
             then (Inl (CloudFilesStoreError_new CloudFilesStoreErrorKind.Conflict
                     ''idempotency key already identifies another operation''), s)
             else
               io_bind (trip AfterMutationIntentPersistBeforeReturn) (\<lambda>_.
               io_return StoreWriteStatus.Applied)
               (s\<lparr>mem_idempotency_keys :=
                    AList.update idempotency_key operation_id (mem_idempotency_keys s),
                  mem_mutations := AList.update operation_id record (mem_mutations s)\<rparr>)))"

definition load_mutation :: "OperationId \<Rightarrow> MutationRecord option mem_io" where
  "load_mutation operation_id s = (Inr (map_of (mem_mutations s) operation_id), s)"

definition record_operation_str :: "MutationRecord \<Rightarrow> string" where
  "record_operation_str r = operation_id_str (mi_operation_id (mr_intent r))"

definition recoverable_mutations_page ::
  "CloudScope \<Rightarrow> string option \<Rightarrow> usize \<Rightarrow> MutationRecord RecoveryPage mem_io" where
  "recoverable_mutations_page scope after limit s =
     (Inr (recovery_page record_operation_str
             (\<lambda>r. desired_scope (mi_desired (mr_intent r)) = scope \<and> mr_state r \<noteq> MutationState.Completed)
             (map snd (mem_mutations s)) after limit), s)"

definition collect_mutation_backlog ::
  "CloudScope \<Rightarrow> MemoryCloudFilesStore
   \<Rightarrow> ((CloudFilesStoreError + MutationRecord list) \<times> MemoryCloudFilesStore) option" where
  "collect_mutation_backlog scope =
     collect_pages (\<lambda>after. recoverable_mutations_page scope after TEST_RECOVERY_PAGE_SIZE)
       record_operation_str ''mutation recovery page cannot continue without a cursor'' [] None"

text \<open>The four fenced writes: the transition, then the crash point when it was applied.\<close>

definition tripping :: "FailurePoint \<Rightarrow> StoreWriteStatus mem_io \<Rightarrow> StoreWriteStatus mem_io" where
  "tripping point write =
     io_bind write (\<lambda>status.
     io_bind (if status = StoreWriteStatus.Applied then trip point else io_return ()) (\<lambda>_.
     io_return status))"

definition begin_remote_apply :: "OperationId \<Rightarrow> SessionGeneration \<Rightarrow> StoreWriteStatus mem_io" where
  "begin_remote_apply operation_id generation s =
     (if mem_stall s then (Inr StoreWriteStatus.Applied, s\<lparr>mem_stall := False\<rparr>)
      else tripping AfterRemoteApplyPersistBeforeReturn
             (with_fenced_mutation operation_id generation MutationRecord_begin_remote_apply) s)"

definition record_remote_outcome ::
  "OperationId \<Rightarrow> SessionGeneration \<Rightarrow> MutationRemoteOutcome \<Rightarrow> StoreWriteStatus mem_io" where
  "record_remote_outcome operation_id generation outcome =
     tripping AfterRemoteOutcomePersistBeforeReturn
       (with_fenced_mutation operation_id generation (MutationRecord_record_remote_outcome outcome))"

definition mark_platform_reconciled ::
  "OperationId \<Rightarrow> SessionGeneration \<Rightarrow> StoreWriteStatus mem_io" where
  "mark_platform_reconciled operation_id generation =
     tripping AfterPlatformReconciledPersistBeforeReturn
       (with_fenced_mutation operation_id generation MutationRecord_mark_platform_reconciled)"

definition complete_mutation :: "OperationId \<Rightarrow> SessionGeneration \<Rightarrow> StoreWriteStatus mem_io" where
  "complete_mutation operation_id generation =
     tripping AfterMutationCompletionPersistBeforeReturn
       (with_fenced_mutation operation_id generation MutationRecord_complete)"

section \<open>The ports\<close>

definition memory_checkpoint_store :: "MemoryCloudFilesStore ChangeCheckpointStore" where
  "memory_checkpoint_store =
     \<lparr>cs_load_change_checkpoint = load_change_checkpoint,
      cs_record_change_batch = record_change_batch,
      cs_mark_change_effects_replayable = mark_change_effects_replayable,
      cs_commit_change_cursor = commit_change_cursor\<rparr>"

text \<open>
  The runner's world is the store together with the log of backend calls. \<open>on_store\<close> runs a
  store method in it; \<open>scripted_backend answer\<close> is a backend whose replies are an arbitrary
  function of the calls made so far, so that every sequence of replies is covered.
\<close>

datatype backend_call = ApplyCall MutationIntent | ReconcileCall MutationIntent

type_synonym mem_world = "MemoryCloudFilesStore \<times> backend_call list"

definition on_store :: "'a mem_io \<Rightarrow> (mem_world, 'a) store_io" where
  "on_store m w = (case m (fst w) of (res, s) \<Rightarrow> (res, (s, snd w)))"

definition memory_journal_store :: "mem_world MutationJournalStore" where
  "memory_journal_store =
     \<lparr>ms_activate_session = (\<lambda>scope generation. on_store (activate_session scope generation)),
      ms_load_session = (\<lambda>scope. on_store (load_session scope)),
      ms_transition_session =
        (\<lambda>scope generation next_state. on_store (transition_session scope generation next_state)),
      ms_persist_mutation_intent = (\<lambda>intent. on_store (persist_mutation_intent intent)),
      ms_load_mutation = (\<lambda>operation_id. on_store (load_mutation operation_id)),
      ms_recoverable_mutations_page =
        (\<lambda>scope after limit. on_store (recoverable_mutations_page scope after limit)),
      ms_begin_remote_apply =
        (\<lambda>operation_id generation. on_store (begin_remote_apply operation_id generation)),
      ms_record_remote_outcome =
        (\<lambda>operation_id generation outcome. on_store (record_remote_outcome operation_id generation outcome)),
      ms_mark_platform_reconciled =
        (\<lambda>operation_id generation. on_store (mark_platform_reconciled operation_id generation)),
      ms_complete_mutation =
        (\<lambda>operation_id generation. on_store (complete_mutation operation_id generation))\<rparr>"

definition scripted_backend ::
  "(backend_call list \<Rightarrow> backend_call \<Rightarrow> CloudBackendError + MutationRemoteOutcome)
   \<Rightarrow> mem_world CloudMutationBackend" where
  "scripted_backend answer =
     \<lparr>mb_apply_mutation =
        (\<lambda>intent w. (answer (snd w) (ApplyCall intent), (fst w, snd w @ [ApplyCall intent]))),
      mb_reconcile_mutation =
        (\<lambda>intent w. (answer (snd w) (ReconcileCall intent), (fst w, snd w @ [ReconcileCall intent])))\<rparr>"

end
