(* ===== verification/Memory_Store_Laws.thy ===== *)
theory Memory_Store_Laws
  imports Memory_Store
begin

text \<open>
  What the in-memory store guarantees, proved over every sequence of calls: committed change
  batches form an unbroken chain from the initial position to the active cursor, the session
  fence never moves back, idempotency keys identify one operation each, and recovery pages
  enumerate the backlog exactly. The store interprets the journal contracts of the mutation
  runner.
\<close>

section \<open>Invariant\<close>

primrec chain :: "ChangeCursor option \<Rightarrow> PersistedChangeBatch list \<Rightarrow> ChangeCursor option \<Rightarrow> bool" where
  "chain start [] stop \<longleftrightarrow> start = stop"
| "chain start (b # bs) stop \<longleftrightarrow>
     pb_base_cursor b = start \<and> chain (Some (cb_next_cursor (pb_batch b))) bs stop"

lemma chain_snoc:
  "chain start (bs @ [b]) stop \<longleftrightarrow>
     chain start bs (pb_base_cursor b) \<and> stop = Some (cb_next_cursor (pb_batch b))"
  by (induction bs arbitrary: start) auto

definition cursor_inv :: "CloudScope \<Rightarrow> CursorState \<Rightarrow> bool" where
  "cursor_inv scope cursor \<longleftrightarrow>
     distinct (map fst (cur_committed_batches cursor)) \<and>
     chain None (map snd (cur_committed_batches cursor)) (cur_active_cursor cursor) \<and>
     (\<forall>(i, b) \<in> set (cur_committed_batches cursor).
        pb_id b = i \<and> pb_scope b = scope \<and> pb_state b = EffectsReplayable) \<and>
     (\<forall>b. cur_pending_batch cursor = Some b \<longrightarrow>
        pb_scope b = scope \<and> pb_base_cursor b = cur_active_cursor cursor \<and>
        pb_id b \<notin> fst ` set (cur_committed_batches cursor))"

definition mutations_inv :: "MemoryCloudFilesStore \<Rightarrow> bool" where
  "mutations_inv s \<longleftrightarrow>
     distinct (map fst (mem_mutations s)) \<and>
     (\<forall>i r. map_of (mem_mutations s) i = Some r \<longrightarrow>
        mutation_good r \<and> mi_operation_id (mr_intent r) = i \<and>
        map_of (mem_idempotency_keys s) (mi_idempotency_key (mr_intent r)) = Some i)"

definition mem_inv :: "MemoryCloudFilesStore \<Rightarrow> bool" where
  "mem_inv s \<longleftrightarrow>
     (\<forall>scope cursor. map_of (mem_cursors s) scope = Some cursor \<longrightarrow> cursor_inv scope cursor) \<and>
     mutations_inv s"

lemma default_mem_inv: "mem_inv MemoryCloudFilesStore_default"
  by (simp add: mem_inv_def mutations_inv_def MemoryCloudFilesStore_default_def)

text \<open>The parts of the state a call can leave alone.\<close>

lemma mem_inv_cong:
  assumes "mem_cursors s' = mem_cursors s" "mem_mutations s' = mem_mutations s"
    "mem_idempotency_keys s' = mem_idempotency_keys s"
  shows "mem_inv s' = mem_inv s"
  using assms by (simp add: mem_inv_def mutations_inv_def)

lemma trip_keeps:
  "mem_cursors (snd (trip p s)) = mem_cursors s"
  "mem_sessions (snd (trip p s)) = mem_sessions s"
  "mem_mutations (snd (trip p s)) = mem_mutations s"
  "mem_idempotency_keys (snd (trip p s)) = mem_idempotency_keys s"
  "mem_stall (snd (trip p s)) = mem_stall s"
  by (simp_all add: trip_def FailureInjector_trip_def)

lemma trip_inv [simp]: "mem_inv (snd (trip p s)) = mem_inv s"
  by (rule mem_inv_cong) (simp_all add: trip_keeps)

lemma trip_then_snd: "snd (io_bind (trip p) (\<lambda>_. io_return a) s) = snd (trip p s)"
  by (simp add: io_bind_def split: prod.split sum.split)

lemma update_cursor_inv:
  assumes "mem_inv s" and "cursor_inv scope cursor"
  shows "mem_inv (s\<lparr>mem_cursors := AList.update scope cursor (mem_cursors s)\<rparr>)"
  using assms by (simp add: mem_inv_def mutations_inv_def)

lemma empty_cursor_inv: "cursor_inv scope CursorState_empty"
  by (simp add: cursor_inv_def CursorState_empty_def)

section \<open>Every call keeps the invariant\<close>

named_theorems mem_keeps \<open>calls that keep the store invariant\<close>

lemma mem_inv_cursor:
  "mem_inv s \<Longrightarrow> map_of (mem_cursors s) scope = Some cursor \<Longrightarrow> cursor_inv scope cursor"
  by (simp add: mem_inv_def)

lemma record_change_batch_inv [mem_keeps]:
  assumes "mem_inv s"
  shows "mem_inv (snd (record_change_batch batch s))"
proof -
  let ?scope = "pb_scope batch"
  define s1 where "s1 = (if map_of (mem_cursors s) ?scope = None
    then s\<lparr>mem_cursors := AList.update ?scope CursorState_empty (mem_cursors s)\<rparr> else s)"
  have inv1: "mem_inv s1" using assms update_cursor_inv [OF _ empty_cursor_inv] by (simp add: s1_def)
  obtain cursor where cur: "map_of (mem_cursors s1) ?scope = Some cursor"
    by (cases "map_of (mem_cursors s) ?scope") (auto simp: s1_def)
  have "cursor_inv ?scope (cursor\<lparr>cur_pending_batch := Some batch\<rparr>)"
    if "map_of (cur_committed_batches cursor) (pb_id batch) = None"
      "cur_active_cursor cursor = pb_base_cursor batch"
    using mem_inv_cursor [OF inv1 cur] that by (auto simp: cursor_inv_def map_of_eq_None_iff)
  then show ?thesis
    using inv1 cur unfolding record_change_batch_def Let_def s1_def [symmetric]
    by (auto simp: trip_then_snd update_cursor_inv split: option.split)
qed

lemma mark_change_effects_replayable_inv [mem_keeps]:
  assumes "mem_inv s"
  shows "mem_inv (snd (mark_change_effects_replayable scope batch_id s))"
proof (cases "map_of (mem_cursors s) scope")
  case None
  then show ?thesis using assms by (simp add: mark_change_effects_replayable_def)
next
  case (Some cursor)
  have "cursor_inv scope (cursor\<lparr>cur_pending_batch := Some (snd (mark_effects_replayable pending))\<rparr>)"
    if "cur_pending_batch cursor = Some pending" for pending
    using mem_inv_cursor [OF assms Some] that by (auto simp: cursor_inv_def mark_effects_replayable_def)
  then show ?thesis
    using assms Some
    by (auto simp: mark_change_effects_replayable_def trip_then_snd update_cursor_inv
        split: option.split prod.split)
qed

lemma commit_change_cursor_inv [mem_keeps]:
  assumes "mem_inv s"
  shows "mem_inv (snd (commit_change_cursor scope batch_id s))"
proof (cases "map_of (mem_cursors s) scope")
  case None
  then show ?thesis using assms by (simp add: commit_change_cursor_def)
next
  case (Some cursor)
  have "cursor_inv scope
      (cursor\<lparr>cur_active_cursor := Some (cb_next_cursor (pb_batch pending)), cur_pending_batch := None,
         cur_committed_batches := AList.update (pb_id pending) pending (cur_committed_batches cursor)\<rparr>)"
    if "cur_pending_batch cursor = Some pending" "pb_state pending = EffectsReplayable" for pending
    using mem_inv_cursor [OF assms Some] that by (auto simp: cursor_inv_def update_new chain_snoc)
  then show ?thesis
    using assms Some
    by (auto simp: commit_change_cursor_def trip_then_snd update_cursor_inv split: option.split)
qed

lemma activate_session_inv [mem_keeps]: "mem_inv s \<Longrightarrow> mem_inv (snd (activate_session scope g s))"
  by (auto simp: activate_session_def Let_def mem_inv_def mutations_inv_def split: option.split)

lemma transition_session_inv [mem_keeps]:
  "mem_inv s \<Longrightarrow> mem_inv (snd (transition_session scope g st s))"
  by (auto simp: transition_session_def mem_inv_def mutations_inv_def split: option.split)

section \<open>Journal writes\<close>

primrec mem_write :: "mutation_op \<Rightarrow> OperationId \<Rightarrow> SessionGeneration \<Rightarrow> StoreWriteStatus mem_io" where
  "mem_write BeginRemoteApply i g = begin_remote_apply i g"
| "mem_write (RecordRemoteOutcome outcome) i g = record_remote_outcome i g outcome"
| "mem_write MarkPlatformReconciled i g = mark_platform_reconciled i g"
| "mem_write CompleteMutation i g = complete_mutation i g"

primrec write_point :: "mutation_op \<Rightarrow> FailurePoint" where
  "write_point BeginRemoteApply = AfterRemoteApplyPersistBeforeReturn"
| "write_point (RecordRemoteOutcome outcome) = AfterRemoteOutcomePersistBeforeReturn"
| "write_point MarkPlatformReconciled = AfterPlatformReconciledPersistBeforeReturn"
| "write_point CompleteMutation = AfterMutationCompletionPersistBeforeReturn"

lemma journal_write_memory:
  "journal_write memory_journal_store mop i g = on_store (mem_write mop i g)"
  by (cases mop) (simp_all add: memory_journal_store_def)

lemma mem_write_eq:
  "mem_write mop i g s =
     (if mop = BeginRemoteApply \<and> mem_stall s
      then (Inr StoreWriteStatus.Applied, s\<lparr>mem_stall := False\<rparr>)
      else tripping (write_point mop) (with_fenced_mutation i g (mutation_apply mop)) s)"
  by (cases mop)
    (simp_all add: begin_remote_apply_def record_remote_outcome_def mark_platform_reconciled_def
      complete_mutation_def)

text \<open>The executor is the active one for the operation.\<close>

definition active_for :: "MemoryCloudFilesStore \<Rightarrow> OperationId \<Rightarrow> SessionGeneration \<Rightarrow> bool" where
  "active_for s i g \<longleftrightarrow>
     (\<exists>r session. map_of (mem_mutations s) i = Some r \<and>
        map_of (mem_sessions s) (desired_scope (mi_desired (mr_intent r))) = Some session \<and>
        ses_generation session = g \<and> ses_state session \<noteq> Closed)"

definition set_mutation ::
  "OperationId \<Rightarrow> MutationRecord \<Rightarrow> MemoryCloudFilesStore \<Rightarrow> MemoryCloudFilesStore" where
  "set_mutation i r s = s\<lparr>mem_mutations := AList.update i r (mem_mutations s)\<rparr>"

lemma with_fenced_inactive:
  assumes "\<not> active_for s i g"
  shows "snd (with_fenced_mutation i g transition s) = s"
    and "\<exists>e. fst (with_fenced_mutation i g transition s) \<in> {Inl e, Inr StoreWriteStatus.Fenced}"
  using assms
  by (auto simp: with_fenced_mutation_def mutation_scope_def active_generation_def active_for_def
      split: option.splits sum.splits)

lemma with_fenced_active:
  assumes "active_for s i g" and "map_of (mem_mutations s) i = Some r" and "transition r = (res, r')"
  shows "with_fenced_mutation i g transition s =
    (case res of Inl e \<Rightarrow> Inl (transition_error e) | Inr t \<Rightarrow> Inr (write_status t), set_mutation i r' s)"
  using assms
  by (auto simp: with_fenced_mutation_def mutation_scope_def active_generation_def active_for_def
      set_mutation_def)

lemma set_mutation_same: "map_of (mem_mutations s) i = Some r \<Longrightarrow> set_mutation i r s = s"
  by (simp add: set_mutation_def update_same)

text \<open>A fenced write either leaves the store alone or performs the record's transition.\<close>

lemma with_fenced_cases:
  assumes "with_fenced_mutation i g (mutation_apply mop) s = (res, s')"
  obtains (kept) "s' = s" "res \<noteq> Inr StoreWriteStatus.Applied"
  | (moved) r r' where "active_for s i g" "map_of (mem_mutations s) i = Some r"
      "mutation_apply mop r = (Inr RecordTransition.Applied, r')"
      "res = Inr StoreWriteStatus.Applied" "s' = set_mutation i r' s"
proof (cases "active_for s i g")
  case False
  then have "s' = s" "res \<noteq> Inr StoreWriteStatus.Applied"
    using with_fenced_inactive [of s i g "mutation_apply mop"] assms by auto
  then show thesis by (rule kept)
next
  case True
  then obtain r where r: "map_of (mem_mutations s) i = Some r" by (auto simp: active_for_def)
  obtain t r' where t: "mutation_apply mop r = (t, r')" by fastforce
  note eq = with_fenced_active [of s i g r "mutation_apply mop", OF True r t]
  show thesis
  proof (cases "t = Inr RecordTransition.Applied")
    case True
    then show thesis using eq assms \<open>active_for s i g\<close> r t by (intro moved [of r r']) simp_all
  next
    case False
    have "r' = r" using mutation_apply_not_applied [of mop r] t False by simp
    then show thesis
      using eq assms set_mutation_same [OF r] False
      by (intro kept) (auto split: sum.splits, metis RecordTransition.exhaust StoreWriteStatus.distinct(1) write_status.simps(2))
  qed
qed

lemma tripping_cases:
  assumes "tripping p m s = (res, s')"
  obtains res1 s1 where "m s = (res1, s1)" "res1 \<noteq> Inr StoreWriteStatus.Applied" "res = res1" "s' = s1"
  | s1 where "m s = (Inr StoreWriteStatus.Applied, s1)" "s' = snd (trip p s1)"
      "res = (if p \<in> mem_failures s1
              then Inl (injected_crash p)
              else Inr StoreWriteStatus.Applied)"
proof (cases "m s")
  case (Pair res1 s1)
  show thesis
  proof (cases "res1 = Inr StoreWriteStatus.Applied")
    case True
    then show thesis
      using assms Pair by (intro that(2)) (auto simp: tripping_def io_bind_def trip_def FailureInjector_trip_def split: if_splits)
  next
    case False
    then show thesis
      using assms Pair by (intro that(1)) (auto simp: tripping_def io_bind_def split: sum.splits if_splits)
  qed
qed

text \<open>The same for a journal write with its crash point and stall flag.\<close>

lemma mem_write_cases:
  assumes "mem_write mop i g s = (res, s')"
  obtains (kept) "mem_mutations s' = mem_mutations s"
      "mem_idempotency_keys s' = mem_idempotency_keys s" "mem_cursors s' = mem_cursors s"
      "mem_sessions s' = mem_sessions s"
  | (moved) r r' where "active_for s i g" "map_of (mem_mutations s) i = Some r"
      "mutation_apply mop r = (Inr RecordTransition.Applied, r')"
      "s' = snd (trip (write_point mop) (set_mutation i r' s))"
      "write_point mop \<notin> mem_failures s \<Longrightarrow> res = Inr StoreWriteStatus.Applied"
proof (cases "mop = BeginRemoteApply \<and> mem_stall s")
  case True
  then show thesis using assms unfolding mem_write_eq by (intro kept) auto
next
  case False
  then have "tripping (write_point mop) (with_fenced_mutation i g (mutation_apply mop)) s = (res, s')"
    using assms unfolding mem_write_eq by (simp split: if_splits)
  then show thesis
  proof (cases rule: tripping_cases)
    case (1 res1 s1)
    then have "s' = s" by (elim with_fenced_cases) auto
    then show thesis by (intro kept) simp_all
  next
    case (2 s1)
    from 2(1) show thesis
      by (cases rule: with_fenced_cases) (use 2 in \<open>auto intro: moved simp: set_mutation_def\<close>)
  qed
qed

lemma set_mutation_inv:
  assumes "mem_inv s" "map_of (mem_mutations s) i = Some r"
    "mutation_apply mop r = (Inr RecordTransition.Applied, r')"
  shows "mem_inv (set_mutation i r' s)"
proof -
  have "mutation_good r" using assms(1,2) by (simp add: mem_inv_def mutations_inv_def)
  then have "mutation_good r'" "mr_intent r' = mr_intent r"
    using mutation_moves_good [OF _ mutation_apply_moves [OF assms(3)]] by blast+
  then show ?thesis
    using assms(1,2) by (auto simp: mem_inv_def mutations_inv_def set_mutation_def distinct_update)
qed

lemma mem_write_inv:
  assumes "mem_inv s"
  shows "mem_inv (snd (mem_write mop i g s))"
proof -
  obtain res s' where w: "mem_write mop i g s = (res, s')" by fastforce
  then show ?thesis
  proof (cases rule: mem_write_cases)
    case kept
    then show ?thesis using assms w mem_inv_cong [of s' s] by simp
  next
    case (moved r r')
    then show ?thesis using assms w set_mutation_inv by simp
  qed
qed

lemma persist_mutation_intent_inv [mem_keeps]:
  assumes "mem_inv s"
  shows "mem_inv (snd (persist_mutation_intent intent s))"
proof -
  obtain u s0 where s0: "trip BeforeMutationIntentPersist s = (u, s0)" by fastforce
  then have inv0: "mem_inv s0" using assms trip_inv [of BeforeMutationIntentPersist s] by simp
  have "mem_inv (s0\<lparr>mem_idempotency_keys :=
          AList.update (mi_idempotency_key intent) (mi_operation_id intent) (mem_idempotency_keys s0),
        mem_mutations := AList.update (mi_operation_id intent) r (mem_mutations s0)\<rparr>)"
    if r: "MutationRecord_persist intent = Inr r"
      and "map_of (mem_mutations s0) (mi_operation_id intent) = None"
      and "\<not> (case map_of (mem_idempotency_keys s0) (mi_idempotency_key intent) of
               Some existing \<Rightarrow> existing \<noteq> mi_operation_id intent | None \<Rightarrow> False)" for r
    using inv0 mutation_persist_good [OF r] that(2,3)
    by (auto simp: mem_inv_def mutations_inv_def distinct_update split: option.splits)
      (metis option.distinct(1) option.inject)+
  then show ?thesis
    using inv0 s0 mutation_persist_good(2)
    by (auto simp: persist_mutation_intent_def io_bind_def Let_def trip_then_snd [unfolded io_bind_def]
        split: sum.split option.split prod.split)
qed

text \<open>The first, undisturbed persist of an intent.\<close>

lemma persist_fresh:
  assumes "validate_for_persistence intent = Inr ()"
    and "map_of (mem_sessions s) (desired_scope (mi_desired intent)) =
      Some \<lparr>ses_generation = mi_session_generation intent, ses_state = Accepting\<rparr>"
    and "map_of (mem_mutations s) (mi_operation_id intent) = None"
    and "map_of (mem_idempotency_keys s) (mi_idempotency_key intent) = None"
    and "mem_failures s = {}"
  shows "persist_mutation_intent intent s =
    (Inr StoreWriteStatus.Applied,
     s\<lparr>mem_idempotency_keys :=
          AList.update (mi_idempotency_key intent) (mi_operation_id intent) (mem_idempotency_keys s),
       mem_mutations :=
         AList.update (mi_operation_id intent)
           \<lparr>mr_intent = intent, mr_state = MutationState.IntentPersisted, mr_remote_outcome = None\<rparr>
           (mem_mutations s)\<rparr>)"
  using assms
  by (simp add: persist_mutation_intent_def io_bind_def trip_def FailureInjector_trip_def MutationRecord_persist_def Let_def)

section \<open>Reachable stores\<close>

datatype mem_op =
    RecordChangeBatch PersistedChangeBatch
  | MarkChangeEffectsReplayable CloudScope ChangeBatchId
  | CommitChangeCursor CloudScope ChangeBatchId
  | ActivateSession CloudScope SessionGeneration
  | TransitionSession CloudScope SessionGeneration SessionState
  | PersistMutationIntent MutationIntent
  | JournalWrite mutation_op OperationId SessionGeneration
  | ArmFailure FailurePoint
  | StallNextRemoteApply

primrec mem_apply :: "mem_op \<Rightarrow> MemoryCloudFilesStore \<Rightarrow> MemoryCloudFilesStore" where
  "mem_apply (RecordChangeBatch batch) s = snd (record_change_batch batch s)"
| "mem_apply (MarkChangeEffectsReplayable scope i) s = snd (mark_change_effects_replayable scope i s)"
| "mem_apply (CommitChangeCursor scope i) s = snd (commit_change_cursor scope i s)"
| "mem_apply (ActivateSession scope g) s = snd (activate_session scope g s)"
| "mem_apply (TransitionSession scope g st) s = snd (transition_session scope g st s)"
| "mem_apply (PersistMutationIntent intent) s = snd (persist_mutation_intent intent s)"
| "mem_apply (JournalWrite mop i g) s = snd (mem_write mop i g s)"
| "mem_apply (ArmFailure point) s = arm point s"
| "mem_apply StallNextRemoteApply s = stall_next_remote_apply s"

inductive mem_reachable :: "MemoryCloudFilesStore \<Rightarrow> bool" where
  created: "mem_reachable MemoryCloudFilesStore_default"
| called: "mem_reachable s \<Longrightarrow> mem_reachable (mem_apply op s)"

lemma arm_inv: "mem_inv s \<Longrightarrow> mem_inv (arm point s)"
  by (subst mem_inv_cong [of _ s]) (simp_all add: arm_def)

lemma stall_inv: "mem_inv s \<Longrightarrow> mem_inv (stall_next_remote_apply s)"
  by (subst mem_inv_cong [of _ s]) (simp_all add: stall_next_remote_apply_def)

lemma mem_apply_inv: "mem_inv s \<Longrightarrow> mem_inv (mem_apply op s)"
  by (cases op) (simp_all add: mem_keeps mem_write_inv arm_inv stall_inv)

lemma reachable_mem_inv: "mem_reachable s \<Longrightarrow> mem_inv s"
  by (induction rule: mem_reachable.induct) (simp_all add: default_mem_inv mem_apply_inv)

subsection \<open>The session fence\<close>

definition session_before :: "SessionRecord \<Rightarrow> SessionRecord \<Rightarrow> bool" where
  "session_before a b \<longleftrightarrow>
     ses_generation a < ses_generation b \<or>
     ses_generation a = ses_generation b \<and> session_phase (ses_state a) \<le> session_phase (ses_state b)"

definition session_le :: "MemoryCloudFilesStore \<Rightarrow> MemoryCloudFilesStore \<Rightarrow> bool" where
  "session_le s s' \<longleftrightarrow>
     (\<forall>scope a. map_of (mem_sessions s) scope = Some a \<longrightarrow>
        (\<exists>b. map_of (mem_sessions s') scope = Some b \<and> session_before a b))"

lemma session_before_refl: "session_before a a"
  by (simp add: session_before_def)

lemma session_before_trans: "session_before a b \<Longrightarrow> session_before b c \<Longrightarrow> session_before a c"
  by (auto simp: session_before_def)

lemma session_le_trans: "session_le a b \<Longrightarrow> session_le b c \<Longrightarrow> session_le a c"
  unfolding session_le_def using session_before_trans by blast

lemma session_le_same: "mem_sessions s' = mem_sessions s \<Longrightarrow> session_le s s'"
  by (simp add: session_le_def session_before_refl)

lemma mem_sessions_kept:
  "mem_sessions (snd (record_change_batch batch s)) = mem_sessions s"
  "mem_sessions (snd (mark_change_effects_replayable scope i s)) = mem_sessions s"
  "mem_sessions (snd (commit_change_cursor scope i s)) = mem_sessions s"
  by (auto simp: record_change_batch_def mark_change_effects_replayable_def commit_change_cursor_def
      Let_def trip_then_snd trip_keeps split: option.split prod.split)

lemma persist_sessions_kept: "mem_sessions (snd (persist_mutation_intent intent s)) = mem_sessions s"
proof -
  obtain u s0 where s0: "trip BeforeMutationIntentPersist s = (u, s0)" by fastforce
  then have "mem_sessions s0 = mem_sessions s" using trip_keeps(2) [of BeforeMutationIntentPersist s] by simp
  then show ?thesis
    using s0
    by (auto simp: persist_mutation_intent_def io_bind_def Let_def trip_then_snd [unfolded io_bind_def]
        trip_keeps split: sum.split option.split prod.split)
qed

lemma mem_write_sessions_kept: "mem_sessions (snd (mem_write mop i g s)) = mem_sessions s"
proof -
  obtain res s' where w: "mem_write mop i g s = (res, s')" by fastforce
  then show ?thesis
    by (cases rule: mem_write_cases) (use w in \<open>simp_all add: trip_keeps set_mutation_def\<close>)
qed

lemma activate_session_le: "session_le s (snd (activate_session scope g s))"
  by (auto simp: session_le_def session_before_def activate_session_def Let_def split: option.split)

lemma transition_session_le: "session_le s (snd (transition_session scope g st s))"
  by (auto simp: session_le_def session_before_def transition_session_def can_transition_to_iff
      split: option.split)

lemma mem_apply_session_le: "session_le s (mem_apply op s)"
proof (cases op)
  case (ActivateSession scope g)
  then show ?thesis by (simp add: activate_session_le)
next
  case (TransitionSession scope g st)
  then show ?thesis by (simp add: transition_session_le)
qed (auto intro!: session_le_same simp: mem_sessions_kept persist_sessions_kept mem_write_sessions_kept
    arm_def stall_next_remote_apply_def)

text \<open>A write of an executor that is not the active one changes nothing durable.\<close>

lemma inactive_write_keeps:
  assumes "\<not> active_for s i g"
  shows "mem_mutations (snd (mem_write mop i g s)) = mem_mutations s"
proof -
  obtain res s' where w: "mem_write mop i g s = (res, s')" by fastforce
  then show ?thesis by (cases rule: mem_write_cases) (use assms w in simp_all)
qed

subsection \<open>Crash and replay\<close>

text \<open>
  A write that crashes after it became durable is reported as already applied when it is
  replayed, and the replay changes nothing.
\<close>

lemma crash_replay:
  assumes inv: "mem_inv s" and crash: "mem_write mop i g s = (Inl e, s')"
    and kind: "se_kind e = PersistenceFailure"
  shows "mem_write mop i g s' = (Inr StoreWriteStatus.AlreadyApplied, s')"
proof -
  have stall: "\<not> (mop = BeginRemoteApply \<and> mem_stall s)"
    using crash unfolding mem_write_eq by auto
  then have "tripping (write_point mop) (with_fenced_mutation i g (mutation_apply mop)) s = (Inl e, s')"
    using crash unfolding mem_write_eq by (simp split: if_splits)
  then obtain s1 where s1: "with_fenced_mutation i g (mutation_apply mop) s = (Inr StoreWriteStatus.Applied, s1)"
    and s': "s' = snd (trip (write_point mop) s1)"
  proof (cases rule: tripping_cases)
    case (1 res1 s1)
    have "se_kind e \<noteq> PersistenceFailure"
      using 1(1,3)
      by (auto simp: with_fenced_mutation_def mutation_scope_def active_generation_def transition_error_def
          CloudFilesStoreError_new_def split: option.splits sum.splits prod.splits if_splits)
    then show thesis using kind by simp
  qed blast
  from s1 obtain r r' where act: "active_for s i g" and r: "map_of (mem_mutations s) i = Some r"
    and ap: "mutation_apply mop r = (Inr RecordTransition.Applied, r')" and s1': "s1 = set_mutation i r' s"
    by (cases rule: with_fenced_cases) auto
  have good: "mutation_good r" using inv r by (simp add: mem_inv_def mutations_inv_def)
  have again: "mutation_apply mop r' = (Inr RecordTransition.AlreadyApplied, r')"
    by (rule mutation_record.step_idempotent [OF good ap])
  have r'_at: "map_of (mem_mutations s') i = Some r'" by (simp add: s' s1' trip_keeps set_mutation_def)
  have "mr_intent r' = mr_intent r" by (rule mutation_record.applied_ident [OF good ap])
  then have act': "active_for s' i g"
    using act r by (auto simp: active_for_def s' s1' trip_keeps set_mutation_def)
  have "with_fenced_mutation i g (mutation_apply mop) s' = (Inr StoreWriteStatus.AlreadyApplied, s')"
    using with_fenced_active [of s' i g r' "mutation_apply mop", OF act' r'_at again]
      set_mutation_same [OF r'_at] by simp
  moreover have "mem_stall s' = mem_stall s" by (simp add: s' s1' trip_keeps set_mutation_def)
  ultimately show ?thesis
    using stall unfolding mem_write_eq by (simp add: tripping_def io_bind_def)
qed

section \<open>The store is a mutation journal\<close>

abbreviation mem_journal :: "mem_world \<Rightarrow> OperationId \<rightharpoonup> MutationRecord" where
  "mem_journal w \<equiv> map_of (mem_mutations (fst w))"

definition apply_count :: "mem_world \<Rightarrow> nat" where
  "apply_count w = length (filter (\<lambda>c. case c of ApplyCall _ \<Rightarrow> True | ReconcileCall _ \<Rightarrow> False) (snd w))"

definition mem_live :: "mem_world \<Rightarrow> OperationId \<Rightarrow> SessionGeneration \<Rightarrow> bool" where
  "mem_live w i g \<longleftrightarrow> mem_failures (fst w) = {} \<and> \<not> mem_stall (fst w) \<and> active_for (fst w) i g"

lemma on_store_apply: "on_store m (s, l) = (fst (m s), (snd (m s), l))"
  by (simp add: on_store_def split: prod.split)

lemma load_mutation_memory:
  "ms_load_mutation memory_journal_store i w = (Inr (mem_journal w i), w)"
  by (cases w) (simp add: memory_journal_store_def on_store_apply load_mutation_def)

lemma mem_write_journal_le:
  assumes "mem_inv s"
  shows "journal_le (map_of (mem_mutations s)) (map_of (mem_mutations (snd (mem_write mop i g s))))"
proof -
  obtain res s' where w: "mem_write mop i g s = (res, s')" by fastforce
  then show ?thesis
  proof (cases rule: mem_write_cases)
    case kept
    then show ?thesis using w by simp
  next
    case (moved r r')
    have "mutation_good r" using assms moved(2) by (simp add: mem_inv_def mutations_inv_def)
    then have "record_le r r'"
      using mutation_moves_good [OF _ mutation_apply_moves [OF moved(3)]] by (simp add: record_le_def)
    then show ?thesis
      using w moved by (auto simp: journal_le_def trip_keeps set_mutation_def)
  qed
qed

interpretation memory: mutation_journal memory_journal_store "scripted_backend answer"
  "\<lambda>w. mem_inv (fst w)" mem_journal for answer
proof
  fix w w' :: mem_world and i g mop found res st intent ans
  assume inv: "mem_inv (fst w)"
  show "found = mem_journal w' i" if "ms_load_mutation memory_journal_store i w = (Inr found, w')"
    using that by (auto simp: load_mutation_memory)
  show "mem_inv (fst w') \<and> journal_le (mem_journal w) (mem_journal w')"
    if "ms_load_mutation memory_journal_store i w = (res, w')"
    using that inv by (auto simp: load_mutation_memory)
  show "mem_inv (fst w') \<and> journal_le (mem_journal w) (mem_journal w')"
    if "journal_write memory_journal_store mop i g w = (st, w')"
    using that inv mem_write_inv mem_write_journal_le
    by (cases w) (auto simp: journal_write_memory on_store_apply)
  show "mem_inv (fst w') \<and> journal_le (mem_journal w) (mem_journal w')"
    if "mb_apply_mutation (scripted_backend answer) intent w = (ans, w')"
    using that inv by (auto simp: scripted_backend_def)
  show "mem_inv (fst w') \<and> journal_le (mem_journal w) (mem_journal w')"
    if "mb_reconcile_mutation (scripted_backend answer) intent w = (ans, w')"
    using that inv by (auto simp: scripted_backend_def)
qed

interpretation memory_counted: counted_journal memory_journal_store "scripted_backend answer"
  "\<lambda>w. mem_inv (fst w)" mem_journal apply_count for answer
proof
  fix w w' :: mem_world and i g mop res st intent ans
  show "apply_count w' = apply_count w" if "ms_load_mutation memory_journal_store i w = (res, w')"
    using that by (auto simp: load_mutation_memory)
  show "apply_count w' = apply_count w" if "journal_write memory_journal_store mop i g w = (st, w')"
    using that by (cases w) (auto simp: journal_write_memory on_store_apply apply_count_def)
  show "apply_count w' = apply_count w"
    if "mb_reconcile_mutation (scripted_backend answer) intent w = (ans, w')"
    using that by (auto simp: scripted_backend_def apply_count_def)
  show "apply_count w' = Suc (apply_count w)"
    if "mb_apply_mutation (scripted_backend answer) intent w = (ans, w')"
    using that by (auto simp: scripted_backend_def apply_count_def)
qed

lemma mem_write_live:
  assumes "mem_inv s" "mem_failures s = {}" "\<not> mem_stall s" "active_for s i g"
    "map_of (mem_mutations s) i = Some r" "mutation_apply mop r = (Inr RecordTransition.Applied, r')"
  shows "mem_write mop i g s = (Inr StoreWriteStatus.Applied, set_mutation i r' s)"
    and "active_for (set_mutation i r' s) i g"
proof -
  show "mem_write mop i g s = (Inr StoreWriteStatus.Applied, set_mutation i r' s)"
    using assms(2,3) with_fenced_active [of s i g r "mutation_apply mop", OF assms(4-6)]
    by (simp add: mem_write_eq tripping_def io_bind_def trip_def FailureInjector_trip_def set_mutation_def)
  have "mutation_good r" using assms(1,5) by (simp add: mem_inv_def mutations_inv_def)
  then have "mr_intent r' = mr_intent r" by (rule mutation_record.applied_ident [OF _ assms(6)])
  then show "active_for (set_mutation i r' s) i g"
    using assms(4,5) by (auto simp: active_for_def set_mutation_def)
qed

interpretation memory_live: live_journal memory_journal_store "scripted_backend answer"
  "\<lambda>w. mem_inv (fst w)" mem_journal mem_live for answer
proof
  fix w :: mem_world and i g mop r r'
  assume inv: "mem_inv (fst w)" and live: "mem_live w i g"
  show "ms_load_mutation memory_journal_store i w = (Inr (mem_journal w i), w)"
    by (rule load_mutation_memory)
  assume r: "mem_journal w i = Some r" "mutation_apply mop r = (Inr RecordTransition.Applied, r')"
  obtain s l where w: "w = (s, l)" by fastforce
  note * = mem_write_live [of s i g r mop r']
  have "journal_write memory_journal_store mop i g w = (Inr StoreWriteStatus.Applied, (set_mutation i r' s, l))"
    using inv live r * by (simp add: w mem_live_def journal_write_memory on_store_apply)
  moreover have "mem_inv (set_mutation i r' s)" using inv r set_mutation_inv by (simp add: w)
  moreover have "mem_live (set_mutation i r' s, l) i g"
    using inv live r * by (simp add: w mem_live_def) (simp add: set_mutation_def)
  ultimately show "\<exists>w'. journal_write memory_journal_store mop i g w = (Inr StoreWriteStatus.Applied, w') \<and>
      mem_inv (fst w') \<and> mem_live w' i g \<and> mem_journal w' i = Some r'"
    by (auto simp: set_mutation_def)
qed

lemma constant_answers:
  assumes "answer \<noteq> MutationRemoteOutcome.RemoteOutcomeUnknown"
  shows "memory_live.answers (\<lambda>_ _. Inr answer) i g intent answer"
  unfolding memory_live.answers_def
  using assms by (auto simp: scripted_backend_def mem_live_def)

section \<open>Recovery pages enumerate the backlog\<close>

lemma mutations_keyed: "mem_inv s \<Longrightarrow> keyed_by (\<lambda>r. mi_operation_id (mr_intent r)) (mem_mutations s)"
  by (simp add: mem_inv_def mutations_inv_def keyed_by_def)

interpretation mutation_pages: paged_store "\<lambda>after. recoverable_mutations_page scope after TEST_RECOVERY_PAGE_SIZE"
  record_operation_str
  "\<lambda>r. desired_scope (mi_desired (mr_intent r)) = scope \<and> mr_state r \<noteq> MutationState.Completed"
  "\<lambda>s. map snd (mem_mutations s)" mem_inv for scope
proof
  fix s assume "mem_inv s"
  then have "keyed_by (\<lambda>r. mi_operation_id (mr_intent r)) (mem_mutations s)" by (rule mutations_keyed)
  then show "distinct (map record_operation_str (map snd (mem_mutations s)))"
    unfolding record_operation_str_def
    by (rule keyed_by_distinct) (auto intro: injI OperationId.expand)
qed (simp add: recoverable_mutations_page_def)

abbreviation strictly_by_id :: "MutationRecord list \<Rightarrow> bool" where
  "strictly_by_id \<equiv> sorted_wrt (\<lambda>a b. record_operation_str a < record_operation_str b)"

lemma collect_backlog:
  assumes "mem_inv s"
  shows "\<exists>records. collect_mutation_backlog scope s = Some (Inr records, s) \<and> strictly_by_id records \<and>
    set records = {r. map_of (mem_mutations s) (mi_operation_id (mr_intent r)) = Some r \<and>
      desired_scope (mi_desired (mr_intent r)) = scope \<and> mr_state r \<noteq> MutationState.Completed}"
proof -
  have "set (mutation_pages.backlog scope s) = {r. map_of (mem_mutations s) (mi_operation_id (mr_intent r)) = Some r \<and>
      desired_scope (mi_desired (mr_intent r)) = scope \<and> mr_state r \<noteq> MutationState.Completed}"
    using mutation_pages.set_backlog [of scope s] keyed_by_mem [OF mutations_keyed [OF assms]] by auto
  then show ?thesis
    unfolding collect_mutation_backlog_def
    using mutation_pages.collect_all [OF assms] mutation_pages.backlog_strict [OF assms] by blast
qed

end
