(* ===== verification/Upload_Record.thy ===== *)
theory Upload_Record
  imports Mutation_Record
begin

text \<open>
  The values and the durable record of resumable uploads (\<open>core/src/upload.rs\<close>): intents,
  backend sessions, chunks with their acknowledgements, and the record that a crash-restarted
  executor resumes from. The record implements the contract \<open>journal_record\<close>: its rank counts
  the accepted bytes while uploading and the phase afterwards.
\<close>

section \<open>Values\<close>

datatype ContentUploadSessionId = ContentUploadSessionId (upload_session_id_str: string)

definition ContentUploadSessionId_new :: "string \<Rightarrow> ContentUploadSessionId core_result" where
  "ContentUploadSessionId_new = opaque_new ''content upload session id'' ContentUploadSessionId"

record ContentUploadIntent =
  ui_operation_id :: OperationId
  ui_idempotency_key :: IdempotencyKey
  ui_base_cache_key :: ContentCacheKey
  ui_snapshot :: LocalContentSnapshot
  ui_upload_lease_id :: ContentLeaseId
  ui_session_generation :: SessionGeneration

definition ContentUploadIntent_new ::
  "OperationId \<Rightarrow> IdempotencyKey \<Rightarrow> ContentCacheKey \<Rightarrow> LocalContentSnapshot \<Rightarrow> ContentLeaseId
   \<Rightarrow> SessionGeneration \<Rightarrow> ContentUploadIntent core_result" where
  "ContentUploadIntent_new operation_id idempotency_key base_cache_key snapshot lease generation =
     (if cache_item_key base_cache_key \<noteq> snap_item_key snapshot
      then Inl (InvalidContentUploadTransition
             ''upload snapshot item does not match the base cache key'')
      else Inr \<lparr>ui_operation_id = operation_id, ui_idempotency_key = idempotency_key,
                ui_base_cache_key = base_cache_key, ui_snapshot = snapshot,
                ui_upload_lease_id = lease, ui_session_generation = generation\<rparr>)"

record ContentUploadSession =
  us_id :: ContentUploadSessionId
  us_accepted_offset :: u64

definition session_validate_for :: "ContentUploadIntent \<Rightarrow> ContentUploadSession \<Rightarrow> unit core_result" where
  "session_validate_for intent self =
     (if us_accepted_offset self > snap_size (ui_snapshot intent)
      then Inl (InvalidContentUploadTransition
             ''backend upload offset exceeds the immutable snapshot size'')
      else Inr ())"

record ContentUploadChunk =
  chunk_session_id :: ContentUploadSessionId
  chunk_local_generation :: LocalContentGeneration
  chunk_offset :: u64
  chunk_bytes :: "u8 list"
  chunk_byte_len :: u64
  chunk_total_size :: u64

definition ContentUploadChunk_from_validated_parts ::
  "ContentUploadSessionId \<Rightarrow> LocalContentGeneration \<Rightarrow> u64 \<Rightarrow> u8 list \<Rightarrow> u64 \<Rightarrow> u64
   \<Rightarrow> ContentUploadChunk" where
  "ContentUploadChunk_from_validated_parts session_id generation off bytes byte_len total_size =
     \<lparr>chunk_session_id = session_id, chunk_local_generation = generation, chunk_offset = off,
      chunk_bytes = bytes, chunk_byte_len = byte_len, chunk_total_size = total_size\<rparr>"

definition ContentUploadChunk_new ::
  "ContentUploadSessionId \<Rightarrow> LocalContentGeneration \<Rightarrow> u64 \<Rightarrow> u8 list \<Rightarrow> u64
   \<Rightarrow> ContentUploadChunk core_result" where
  "ContentUploadChunk_new session_id generation off bytes total_size =
     (let byte_len = len_u64 bytes in
      if byte_len = 0
      then Inl (InvalidContentUploadTransition ''upload chunks must contain at least one byte'')
      else
        case checked_add off byte_len of
          None \<Rightarrow> Inl (InvalidContentUploadTransition ''upload chunk end exceeds u64'')
        | Some end' \<Rightarrow>
            if end' > total_size
            then Inl (InvalidContentUploadTransition
                   ''upload chunk exceeds the immutable snapshot size'')
            else Inr (ContentUploadChunk_from_validated_parts session_id generation off bytes
                        byte_len total_size))"

definition chunk_end_exclusive :: "ContentUploadChunk \<Rightarrow> u64" where
  "chunk_end_exclusive self = chunk_offset self + chunk_byte_len self"

definition chunk_validate_for ::
  "ContentUploadIntent \<Rightarrow> ContentUploadSession \<Rightarrow> ContentUploadChunk \<Rightarrow> unit core_result" where
  "chunk_validate_for intent session self =
     (if chunk_session_id self \<noteq> us_id session
      then Inl (InvalidContentUploadTransition ''upload chunk belongs to another backend session'')
      else if chunk_local_generation self \<noteq> snap_generation (ui_snapshot intent)
      then Inl (InvalidContentUploadTransition ''upload chunk belongs to another local generation'')
      else if chunk_total_size self \<noteq> snap_size (ui_snapshot intent)
      then Inl (InvalidContentUploadTransition
             ''upload chunk size does not match the immutable snapshot'')
      else if chunk_offset self \<noteq> us_accepted_offset session
      then Inl (InvalidContentUploadTransition
             ''upload chunk does not continue the durable accepted offset'')
      else Inr ())"

record ContentUploadChunkAck =
  ack_session_id :: ContentUploadSessionId
  ack_accepted_offset :: u64

definition ack_validate_for :: "ContentUploadChunk \<Rightarrow> ContentUploadChunkAck \<Rightarrow> unit core_result" where
  "ack_validate_for chunk self =
     (if ack_session_id self \<noteq> chunk_session_id chunk
      then Inl (InvalidContentUploadTransition ''upload acknowledgement belongs to another session'')
      else if ack_accepted_offset self \<noteq> chunk_end_exclusive chunk
      then Inl (InvalidContentUploadTransition
             ''upload acknowledgement does not match the submitted chunk end'')
      else Inr ())"

section \<open>The record\<close>

datatype ContentUploadState =
    IntentPersisted
  | Uploading
  | RemoteCommitting
  | RemoteOutcomeUnknown
  | RemoteOutcomeKnown
  | MetadataReconciled
  | Completed

datatype ContentUploadRecordTransition = Applied | AlreadyApplied | Fenced

record ContentUploadRecord =
  ur_intent :: ContentUploadIntent
  ur_state :: ContentUploadState
  ur_session :: "ContentUploadSession option"
  ur_remote_outcome :: "MutationRemoteOutcome option"

type_synonym 'a upload_io = "(ContentUploadRecord, CloudFilesCoreError, 'a) io"

definition ContentUploadRecord_persist :: "ContentUploadIntent \<Rightarrow> ContentUploadRecord" where
  "ContentUploadRecord_persist intent =
     \<lparr>ur_intent = intent, ur_state = ContentUploadState.IntentPersisted, ur_session = None,
      ur_remote_outcome = None\<rparr>"

definition record_session ::
  "ContentUploadSession \<Rightarrow> ContentUploadRecordTransition upload_io" where
  "record_session session self =
     (case session_validate_for (ur_intent self) session of
        Inl e \<Rightarrow> (Inl e, self)
      | Inr _ \<Rightarrow>
          if ur_state self \<notin> {ContentUploadState.IntentPersisted, Uploading}
          then (if ur_session self = Some session then (Inr AlreadyApplied, self)
                else (Inl (InvalidContentUploadTransition
                        ''upload session checkpoint must precede remote commit''), self))
          else case ur_session self of
            None \<Rightarrow> (Inr Applied, self\<lparr>ur_state := Uploading, ur_session := Some session\<rparr>)
          | Some current \<Rightarrow>
              if us_id current \<noteq> us_id session
              then (Inl (InvalidContentUploadTransition
                      ''one upload operation cannot switch backend session identity''), self)
              else if us_accepted_offset session < us_accepted_offset current
              then (Inr Fenced, self)
              else if us_accepted_offset session = us_accepted_offset current
              then (Inr AlreadyApplied, self)
              else (Inr Applied, self\<lparr>ur_session := Some session\<rparr>))"

definition begin_remote_commit :: "ContentUploadRecordTransition upload_io" where
  "begin_remote_commit self =
     (case ur_state self of
        Uploading \<Rightarrow>
          if \<not> (case ur_session self of None \<Rightarrow> False
                 | Some session \<Rightarrow>
                     us_accepted_offset session = snap_size (ui_snapshot (ur_intent self)))
          then (Inl (InvalidContentUploadTransition
                  ''remote commit requires every immutable byte to be accepted''), self)
          else (Inr Applied, self\<lparr>ur_state := RemoteCommitting\<rparr>)
      | ContentUploadState.IntentPersisted \<Rightarrow>
          (Inl (InvalidContentUploadTransition
             ''remote commit requires a backend upload session''), self)
      | _ \<Rightarrow> (Inr AlreadyApplied, self))"

definition validate_upload_item :: "ContentUploadIntent \<Rightarrow> CloudItem option \<Rightarrow> unit core_result" where
  "validate_upload_item intent item =
     (case item of
        None \<Rightarrow> Inl (InvalidContentUploadTransition
                  ''committed upload outcome requires current item metadata'')
      | Some item \<Rightarrow>
          if item_key item \<noteq> cache_item_key (ui_base_cache_key intent)
          then Inl (InvalidContentUploadTransition
                 ''committed upload outcome belongs to another item'')
          else case item_content item of
            None \<Rightarrow> Inl (InvalidContentUploadTransition
                      ''committed upload outcome must describe file content'')
          | Some content \<Rightarrow>
              if cm_size content \<noteq> snap_size (ui_snapshot intent)
              then Inl (InvalidContentUploadTransition
                     ''committed upload size does not match the immutable snapshot'')
              else Inr ())"

definition validate_upload_outcome ::
  "ContentUploadIntent \<Rightarrow> MutationRemoteOutcome \<Rightarrow> unit core_result" where
  "validate_upload_outcome intent outcome =
     (case outcome of
        Committed item \<Rightarrow> validate_upload_item intent item
      | AlreadyCommitted item \<Rightarrow> validate_upload_item intent item
      | _ \<Rightarrow> Inr ())"

definition upload_record_remote_outcome ::
  "MutationRemoteOutcome \<Rightarrow> ContentUploadRecordTransition upload_io" where
  "upload_record_remote_outcome outcome self =
     (case validate_upload_outcome (ur_intent self) outcome of
        Inl e \<Rightarrow> (Inl e, self)
      | Inr _ \<Rightarrow>
          let next_state =
                (if outcome = MutationRemoteOutcome.RemoteOutcomeUnknown
                 then ContentUploadState.RemoteOutcomeUnknown
                 else ContentUploadState.RemoteOutcomeKnown);
              same_outcome = (ur_remote_outcome self = Some outcome);
              outcome_is_already_durable =
                (ur_state self \<in> {ContentUploadState.RemoteOutcomeUnknown,
                   ContentUploadState.RemoteOutcomeKnown, MetadataReconciled,
                   ContentUploadState.Completed})
          in if same_outcome \<and> outcome_is_already_durable then (Inr AlreadyApplied, self)
             else if ur_state self \<notin> {RemoteCommitting, ContentUploadState.RemoteOutcomeUnknown}
             then (Inl (InvalidContentUploadTransition
                     ''remote upload outcome must follow commit or reconcile an unknown outcome''),
                   self)
             else (Inr Applied,
                   self\<lparr>ur_state := next_state, ur_remote_outcome := Some outcome\<rparr>))"

definition upload_mark_metadata_reconciled :: "ContentUploadRecordTransition upload_io" where
  "upload_mark_metadata_reconciled self =
     (case ur_state self of
        ContentUploadState.RemoteOutcomeKnown \<Rightarrow>
          (Inr Applied, self\<lparr>ur_state := MetadataReconciled\<rparr>)
      | MetadataReconciled \<Rightarrow> (Inr AlreadyApplied, self)
      | ContentUploadState.Completed \<Rightarrow> (Inr AlreadyApplied, self)
      | _ \<Rightarrow> (Inl (InvalidContentUploadTransition
               ''upload metadata reconciliation requires a known remote outcome''), self))"

definition ContentUploadRecord_complete :: "ContentUploadRecordTransition upload_io" where
  "ContentUploadRecord_complete self =
     (case ur_state self of
        MetadataReconciled \<Rightarrow> (Inr Applied, self\<lparr>ur_state := ContentUploadState.Completed\<rparr>)
      | ContentUploadState.Completed \<Rightarrow> (Inr AlreadyApplied, self)
      | _ \<Rightarrow> (Inl (InvalidContentUploadTransition
               ''upload completion requires metadata reconciliation''), self))"

section \<open>The record as a journal record\<close>

text \<open>
  The five transitions as one operation. A checkpoint that a newer offset superseded changes
  nothing, so for the contract it counts as already applied.
\<close>

datatype upload_op =
    RecordSession ContentUploadSession
  | BeginRemoteCommit
  | RecordUploadOutcome MutationRemoteOutcome
  | MarkMetadataReconciled
  | CompleteUpload

primrec upload_transition :: "upload_op \<Rightarrow> ContentUploadRecordTransition upload_io" where
  "upload_transition (RecordSession session) = record_session session"
| "upload_transition BeginRemoteCommit = begin_remote_commit"
| "upload_transition (RecordUploadOutcome outcome) = upload_record_remote_outcome outcome"
| "upload_transition MarkMetadataReconciled = upload_mark_metadata_reconciled"
| "upload_transition CompleteUpload = ContentUploadRecord_complete"

primrec superseded :: "ContentUploadRecordTransition \<Rightarrow> RecordTransition" where
  "superseded Applied = RecordTransition.Applied"
| "superseded AlreadyApplied = RecordTransition.AlreadyApplied"
| "superseded Fenced = RecordTransition.AlreadyApplied"

definition upload_apply :: "upload_op \<Rightarrow> RecordTransition upload_io" where
  "upload_apply op r =
     (case upload_transition op r of
        (Inl e, r') \<Rightarrow> (Inl e, r')
      | (Inr t, r') \<Rightarrow> (Inr (superseded t), r'))"

definition accepted :: "ContentUploadRecord \<Rightarrow> nat" where
  "accepted r = (case ur_session r of None \<Rightarrow> 0 | Some session \<Rightarrow> unat (us_accepted_offset session))"

definition upload_rank :: "ContentUploadRecord \<Rightarrow> nat" where
  "upload_rank r =
     (case ur_state r of
        ContentUploadState.IntentPersisted \<Rightarrow> 0
      | Uploading \<Rightarrow> Suc (accepted r)
      | RemoteCommitting \<Rightarrow> 2 ^ 64 + 1
      | ContentUploadState.RemoteOutcomeUnknown \<Rightarrow> 2 ^ 64 + 2
      | ContentUploadState.RemoteOutcomeKnown \<Rightarrow> 2 ^ 64 + 3
      | MetadataReconciled \<Rightarrow> 2 ^ 64 + 4
      | ContentUploadState.Completed \<Rightarrow> 2 ^ 64 + 5)"

text \<open>
  What every record built by the transitions satisfies: a session exists as soon as uploading
  started and stays inside the snapshot, every byte was accepted before the commit, and the
  outcome is unknown, known or absent as the state says.
\<close>

definition upload_good :: "ContentUploadRecord \<Rightarrow> bool" where
  "upload_good r \<longleftrightarrow>
     (case ur_session r of
        None \<Rightarrow> ur_state r = ContentUploadState.IntentPersisted
      | Some session \<Rightarrow>
          ur_state r \<noteq> ContentUploadState.IntentPersisted \<and>
          us_accepted_offset session \<le> snap_size (ui_snapshot (ur_intent r)) \<and>
          (ur_state r \<noteq> Uploading \<longrightarrow>
             us_accepted_offset session = snap_size (ui_snapshot (ur_intent r)))) \<and>
     (case ur_remote_outcome r of
        None \<Rightarrow> ur_state r \<in> {ContentUploadState.IntentPersisted, Uploading, RemoteCommitting}
      | Some outcome \<Rightarrow>
          validate_upload_outcome (ur_intent r) outcome = Inr () \<and>
          (if outcome = MutationRemoteOutcome.RemoteOutcomeUnknown
           then ur_state r = ContentUploadState.RemoteOutcomeUnknown
           else ur_state r \<in> {ContentUploadState.RemoteOutcomeKnown, MetadataReconciled,
                  ContentUploadState.Completed}))"

lemmas upload_transition_defs =
  record_session_def begin_remote_commit_def upload_record_remote_outcome_def
  upload_mark_metadata_reconciled_def ContentUploadRecord_complete_def

lemma session_validate_for_iff:
  "session_validate_for intent session = Inr () \<longleftrightarrow>
     us_accepted_offset session \<le> snap_size (ui_snapshot intent)"
  by (auto simp: session_validate_for_def)

text \<open>Only an applied transition changes the record.\<close>

lemma upload_unapplied_keeps:
  "upload_transition op r = (res, r') \<Longrightarrow> res \<noteq> Inr Applied \<Longrightarrow> r' = r"
  by (cases op)
    (auto simp: upload_transition_defs Let_def split: sum.splits option.splits if_splits
      ContentUploadState.splits)

text \<open>The applied transitions of a good record.\<close>

definition upload_moves :: "upload_op \<Rightarrow> ContentUploadRecord \<Rightarrow> ContentUploadRecord \<Rightarrow> bool" where
  "upload_moves op r r' \<longleftrightarrow>
     (case op of
        RecordSession session \<Rightarrow>
          us_accepted_offset session \<le> snap_size (ui_snapshot (ur_intent r)) \<and>
          (ur_state r = ContentUploadState.IntentPersisted \<or>
           ur_state r = Uploading \<and> accepted r < unat (us_accepted_offset session)) \<and>
          r' = r\<lparr>ur_state := Uploading, ur_session := Some session\<rparr>
      | BeginRemoteCommit \<Rightarrow>
          ur_state r = Uploading \<and> accepted r = unat (snap_size (ui_snapshot (ur_intent r))) \<and>
          r' = r\<lparr>ur_state := RemoteCommitting\<rparr>
      | RecordUploadOutcome outcome \<Rightarrow>
          validate_upload_outcome (ur_intent r) outcome = Inr () \<and>
          (ur_state r = RemoteCommitting \<or>
           ur_state r = ContentUploadState.RemoteOutcomeUnknown \<and>
             outcome \<noteq> MutationRemoteOutcome.RemoteOutcomeUnknown) \<and>
          r' = r\<lparr>ur_state := (if outcome = MutationRemoteOutcome.RemoteOutcomeUnknown
                   then ContentUploadState.RemoteOutcomeUnknown
                   else ContentUploadState.RemoteOutcomeKnown),
                ur_remote_outcome := Some outcome\<rparr>
      | MarkMetadataReconciled \<Rightarrow>
          ur_state r = ContentUploadState.RemoteOutcomeKnown \<and>
          r' = r\<lparr>ur_state := MetadataReconciled\<rparr>
      | CompleteUpload \<Rightarrow>
          ur_state r = MetadataReconciled \<and> r' = r\<lparr>ur_state := ContentUploadState.Completed\<rparr>)"

lemma upload_good_outcome:
  assumes "upload_good r"
  shows "ur_state r = RemoteCommitting \<Longrightarrow> ur_remote_outcome r = None"
    and "ur_state r = ContentUploadState.RemoteOutcomeUnknown \<Longrightarrow>
      ur_remote_outcome r = Some MutationRemoteOutcome.RemoteOutcomeUnknown"
  using assms by (auto simp: upload_good_def split: option.splits if_splits)

lemma upload_applied_moves:
  assumes good: "upload_good r" and ap: "upload_transition op r = (Inr Applied, r')"
  shows "upload_moves op r r'"
proof (cases op)
  case (RecordSession session)
  then show ?thesis
    using ap good
    by (auto simp: record_session_def upload_moves_def upload_good_def accepted_def
        word_less_nat_alt [symmetric] session_validate_for_def split: option.splits if_splits)
next
  case BeginRemoteCommit
  then show ?thesis
    using ap
    by (auto simp: begin_remote_commit_def upload_moves_def accepted_def
        split: option.splits if_splits ContentUploadState.splits)
next
  case (RecordUploadOutcome outcome)
  then show ?thesis
    using ap upload_good_outcome [OF good]
    by (auto simp: upload_record_remote_outcome_def upload_moves_def Let_def
        split: sum.splits if_splits)
next
  case MarkMetadataReconciled
  then show ?thesis
    using ap by (auto simp: upload_mark_metadata_reconciled_def upload_moves_def
        split: ContentUploadState.splits)
next
  case CompleteUpload
  then show ?thesis
    using ap by (auto simp: ContentUploadRecord_complete_def upload_moves_def
        split: ContentUploadState.splits)
qed

lemma accepted_less: "accepted r < 2 ^ 64"
  using unat_u64_less by (auto simp: accepted_def split: option.split)

lemma upload_moves_good:
  assumes good: "upload_good r" and mv: "upload_moves op r r'"
  shows "upload_good r'" and "upload_rank r < upload_rank r'" and "ur_intent r' = ur_intent r"
proof -
  show "ur_intent r' = ur_intent r"
    using mv by (auto simp: upload_moves_def split: upload_op.splits)
  show "upload_rank r < upload_rank r'"
    using mv accepted_less [of r]
    by (auto simp: upload_moves_def upload_rank_def accepted_def split: upload_op.splits if_splits)
  show "upload_good r'"
  proof (cases op)
    case (RecordSession session)
    then show ?thesis using mv good
      by (auto simp: upload_moves_def upload_good_def split: option.splits if_splits)
  next
    case BeginRemoteCommit
    then show ?thesis using mv good
      by (auto simp: upload_moves_def upload_good_def accepted_def split: option.splits if_splits
          intro: unat_eqI)
  qed (use mv good in \<open>auto simp: upload_moves_def upload_good_def split: option.splits if_splits\<close>)
qed

lemma upload_moves_replay:
  assumes good: "upload_good r" and mv: "upload_moves op r r'"
  shows "fst (upload_transition op r') = Inr AlreadyApplied"
  using mv good
  by (cases op)
    (auto simp: upload_moves_def upload_transition_defs session_validate_for_def Let_def)

lemma upload_apply_cases:
  "upload_apply op r = (Inl e, r') \<longleftrightarrow> upload_transition op r = (Inl e, r')"
  "upload_apply op r = (Inr RecordTransition.Applied, r') \<longleftrightarrow>
     upload_transition op r = (Inr Applied, r')"
  "upload_apply op r = (Inr RecordTransition.AlreadyApplied, r') \<longleftrightarrow>
     upload_transition op r = (Inr AlreadyApplied, r') \<or> upload_transition op r = (Inr Fenced, r')"
proof -
  have "superseded t = RecordTransition.Applied \<longleftrightarrow> t = Applied" for t by (cases t) simp_all
  moreover have "superseded t = RecordTransition.AlreadyApplied \<longleftrightarrow> t = AlreadyApplied \<or> t = Fenced" for t
    by (cases t) simp_all
  ultimately show "upload_apply op r = (Inl e, r') \<longleftrightarrow> upload_transition op r = (Inl e, r')"
    "upload_apply op r = (Inr RecordTransition.Applied, r') \<longleftrightarrow>
       upload_transition op r = (Inr Applied, r')"
    "upload_apply op r = (Inr RecordTransition.AlreadyApplied, r') \<longleftrightarrow>
       upload_transition op r = (Inr AlreadyApplied, r') \<or> upload_transition op r = (Inr Fenced, r')"
    by (auto simp: upload_apply_def split: prod.splits sum.splits)
qed

interpretation upload_record: journal_record upload_apply upload_good upload_rank ur_intent
proof
  fix op r r' and e :: CloudFilesCoreError
  assume good: "upload_good r"
  show "r' = r" if "upload_apply op r = (Inl e, r')"
    using that upload_unapplied_keeps by (simp add: upload_apply_cases)
  show "r' = r" if "upload_apply op r = (Inr RecordTransition.AlreadyApplied, r')"
    using that upload_unapplied_keeps by (auto simp: upload_apply_cases)
  assume "upload_apply op r = (Inr RecordTransition.Applied, r')"
  then have mv: "upload_moves op r r'" using upload_applied_moves [OF good] by (simp add: upload_apply_cases)
  show "upload_rank r < upload_rank r'" and "upload_good r'" and "ur_intent r' = ur_intent r"
    using upload_moves_good [OF good mv] by blast+
  show "fst (upload_apply op r') = Inr RecordTransition.AlreadyApplied"
    using upload_moves_replay [OF good mv]
    by (auto simp: upload_apply_def split: prod.splits sum.splits)
qed

lemma upload_persist_good: "upload_good (ContentUploadRecord_persist intent)"
  by (simp add: upload_good_def ContentUploadRecord_persist_def)

end
