(* ===== verification/Upload_Runner.thy ===== *)
theory Upload_Runner
  imports Upload_Record Store_Ports Forward_Loop
begin

text \<open>
  \<open>ContentUploadRunner\<close> of \<open>core/src/upload.rs\<close> over arbitrary ports: the upload store
  (\<open>ContentUploadStore\<close> in \<open>store.rs\<close>), the resumable backend and the reader of immutable
  local snapshots. One pass of \<open>resume\<close> loads the record and takes the arm of its state.
\<close>

section \<open>Ports\<close>

record 'w ContentUploadStore =
  cu_persist_content_upload_intent ::
    "ContentUploadIntent \<Rightarrow> SessionGeneration \<Rightarrow> ('w, StoreWriteStatus) store_io"
  cu_load_content_upload :: "OperationId \<Rightarrow> ('w, ContentUploadRecord option) store_io"
  cu_recoverable_content_uploads_page ::
    "CloudScope \<Rightarrow> string option \<Rightarrow> usize \<Rightarrow> ('w, ContentUploadRecord RecoveryPage) store_io"
  cu_record_content_upload_session ::
    "OperationId \<Rightarrow> ContentUploadSession \<Rightarrow> SessionGeneration \<Rightarrow> ('w, StoreWriteStatus) store_io"
  cu_begin_content_upload_remote_commit ::
    "OperationId \<Rightarrow> SessionGeneration \<Rightarrow> ('w, StoreWriteStatus) store_io"
  cu_record_content_upload_remote_outcome ::
    "OperationId \<Rightarrow> MutationRemoteOutcome \<Rightarrow> SessionGeneration \<Rightarrow> ('w, StoreWriteStatus) store_io"
  cu_reconcile_content_upload_metadata ::
    "OperationId \<Rightarrow> SessionGeneration \<Rightarrow> ('w, StoreWriteStatus) store_io"
  cu_complete_content_upload ::
    "OperationId \<Rightarrow> SessionGeneration \<Rightarrow> ('w, StoreWriteStatus) store_io"

record 'w CloudContentUploadBackend =
  ub_start_upload :: "ContentUploadIntent \<Rightarrow> ('w, ContentUploadSession) backend_io"
  ub_upload_chunk ::
    "ContentUploadIntent \<Rightarrow> ContentUploadChunk \<Rightarrow> ('w, ContentUploadChunkAck) backend_io"
  ub_reconcile_upload_chunk ::
    "ContentUploadIntent \<Rightarrow> ContentUploadSession \<Rightarrow> ContentUploadChunk
     \<Rightarrow> ('w, ContentUploadChunkAck) backend_io"
  ub_commit_upload ::
    "ContentUploadIntent \<Rightarrow> ContentUploadSession \<Rightarrow> ('w, MutationRemoteOutcome) backend_io"
  ub_reconcile_upload :: "ContentUploadIntent \<Rightarrow> ('w, MutationRemoteOutcome) backend_io"

record 'w LocalContentSnapshotReader =
  sr_read_snapshot :: "LocalContentSnapshot \<Rightarrow> u64 \<Rightarrow> u64 \<Rightarrow> ('w, u8 list) store_io"

section \<open>The runner\<close>

datatype ContentUploadRunError =
    Backend CloudBackendError
  | Store CloudFilesStoreError
  | Contract CloudFilesCoreError
  | RecordNotFound

datatype ContentUploadRunOutcome = Completed | RemoteOutcomePending | Fenced

text \<open>The chunk size is a \<open>NonZeroUsize\<close>.\<close>

datatype ContentUploadRunner = ContentUploadRunner (chunk_size: usize)

definition ContentUploadRunner_new :: "usize \<Rightarrow> ContentUploadRunner core_result" where
  "ContentUploadRunner_new n =
     (if n = 0
      then Inl (InvalidContentUploadTransition ''upload runner chunk size must be non-zero'')
      else Inr (ContentUploadRunner n))"

definition required_upload_session ::
  "ContentUploadRecord \<Rightarrow> string \<Rightarrow> ContentUploadSession core_result" where
  "required_upload_session record missing_reason =
     ok_or (InvalidContentUploadTransition missing_reason) (ur_session record)"

definition validate_completed_upload :: "ContentUploadRecord \<Rightarrow> unit core_result" where
  "validate_completed_upload record =
     (case ur_remote_outcome record of
        None \<Rightarrow> Inl (InvalidContentUploadTransition
                  ''completed upload record omitted its remote outcome'')
      | Some _ \<Rightarrow> Inr ())"

definition validate_source_bytes :: "u8 list \<Rightarrow> u64 \<Rightarrow> unit core_result" where
  "validate_source_bytes bytes expected =
     (if len_u64 bytes \<noteq> expected
      then Inl (InvalidContentUploadTransition
             ''local upload source returned a partial or oversized range'')
      else Inr ())"

definition load_required_upload ::
  "OperationId \<Rightarrow> 'w ContentUploadStore \<Rightarrow> ('w, ContentUploadRunError, ContentUploadRecord) io" where
  "load_required_upload operation_id store =
     io_bind (io_try Store (cu_load_content_upload store operation_id)) (\<lambda>found.
     io_lift (ok_or RecordNotFound found))"

definition observe_transition ::
  "StoreWriteStatus \<Rightarrow> ContentUploadRecord \<Rightarrow> OperationId \<Rightarrow> 'w ContentUploadStore
   \<Rightarrow> ('w, ContentUploadRunError, bool) io" where
  "observe_transition status previous operation_id store =
     io_bind (load_required_upload operation_id store) (\<lambda>current.
       if current \<noteq> previous then io_return False
       else if status = StoreWriteStatus.Fenced then io_return True
       else io_fail (Contract (InvalidContentUploadTransition
              ''upload store reported a transition without durable progress'')))"

text \<open>Write, observe, and either report the fence or go on with \<open>next_step\<close>.\<close>

definition upload_advance ::
  "('w, StoreWriteStatus) store_io \<Rightarrow> ContentUploadRecord \<Rightarrow> OperationId \<Rightarrow> 'w ContentUploadStore
   \<Rightarrow> ContentUploadRunOutcome option \<Rightarrow> ('w, ContentUploadRunError, ContentUploadRunOutcome option) io"
  where
  "upload_advance write record operation_id store next_step =
     io_bind (io_try Store write) (\<lambda>status.
     io_bind (observe_transition status record operation_id store) (\<lambda>fenced.
       io_return (if fenced then Some ContentUploadRunOutcome.Fenced else next_step)))"

text \<open>
  Sending a chunk: a conflict or a failed precondition may mean that the chunk was accepted
  before its checkpoint became durable, so it is reconciled.
\<close>

definition send_chunk ::
  "'w CloudContentUploadBackend \<Rightarrow> ContentUploadIntent \<Rightarrow> ContentUploadSession \<Rightarrow> ContentUploadChunk
   \<Rightarrow> ('w, ContentUploadRunError, ContentUploadChunkAck) io" where
  "send_chunk backend intent session chunk w =
     (case ub_upload_chunk backend intent chunk w of
        (Inr acknowledgement, w') \<Rightarrow> (Inr acknowledgement, w')
      | (Inl error, w') \<Rightarrow>
          if be_kind error \<in> {CloudBackendErrorKind.Conflict, CloudBackendErrorKind.PreconditionFailed}
          then io_try Backend (ub_reconcile_upload_chunk backend intent session chunk) w'
          else (Inl (Backend error), w'))"

definition uploading_arm ::
  "ContentUploadRunner \<Rightarrow> OperationId \<Rightarrow> SessionGeneration \<Rightarrow> 'w ContentUploadStore
   \<Rightarrow> 'w CloudContentUploadBackend \<Rightarrow> 'w LocalContentSnapshotReader \<Rightarrow> ContentUploadRecord
   \<Rightarrow> ('w, ContentUploadRunError, ContentUploadRunOutcome option) io" where
  "uploading_arm self operation_id generation store backend source record =
     (let intent = ur_intent record; snapshot = ui_snapshot intent in
      io_bind (io_lift (res_map_err Contract (required_upload_session record
                 ''uploading record omitted its backend session''))) (\<lambda>session.
      io_bind (io_lift (res_map_err Contract (session_validate_for intent session))) (\<lambda>_.
      if us_accepted_offset session < snap_size snapshot
      then
        let remaining = snap_size snapshot - us_accepted_offset session;
            length' = min remaining (of_nat (chunk_size self))
        in io_bind (io_try Store (sr_read_snapshot source snapshot (us_accepted_offset session) length'))
             (\<lambda>bytes.
           io_bind (io_lift (res_map_err Contract (validate_source_bytes bytes length'))) (\<lambda>_.
           let chunk = ContentUploadChunk_from_validated_parts (us_id session)
                         (snap_generation snapshot) (us_accepted_offset session) bytes length'
                         (snap_size snapshot)
           in io_bind (send_chunk backend intent session chunk) (\<lambda>acknowledgement.
              io_bind (io_lift (res_map_err Contract (ack_validate_for chunk acknowledgement))) (\<lambda>_.
              let checkpoint = \<lparr>us_id = ack_session_id acknowledgement,
                                us_accepted_offset = ack_accepted_offset acknowledgement\<rparr>
              in upload_advance
                   (cu_record_content_upload_session store operation_id checkpoint generation)
                   record operation_id store None))))
      else
        upload_advance (cu_begin_content_upload_remote_commit store operation_id generation)
          record operation_id store None)))"

definition upload_resume_arm ::
  "ContentUploadRunner \<Rightarrow> OperationId \<Rightarrow> SessionGeneration \<Rightarrow> 'w ContentUploadStore
   \<Rightarrow> 'w CloudContentUploadBackend \<Rightarrow> 'w LocalContentSnapshotReader \<Rightarrow> ContentUploadRecord
   \<Rightarrow> ('w, ContentUploadRunError, ContentUploadRunOutcome option) io" where
  "upload_resume_arm self operation_id generation store backend source record =
     (let intent = ur_intent record in
      case ur_state record of
        ContentUploadState.IntentPersisted \<Rightarrow>
          io_bind (io_try Backend (ub_start_upload backend intent)) (\<lambda>session.
          io_bind (io_lift (res_map_err Contract (session_validate_for intent session))) (\<lambda>_.
          upload_advance (cu_record_content_upload_session store operation_id session generation)
            record operation_id store None))
      | Uploading \<Rightarrow> uploading_arm self operation_id generation store backend source record
      | RemoteCommitting \<Rightarrow>
          io_bind (io_lift (res_map_err Contract (required_upload_session record
                     ''remote-committing record omitted its backend session''))) (\<lambda>session.
          io_bind (io_try Backend (ub_commit_upload backend intent session)) (\<lambda>outcome.
          let pending = (outcome = MutationRemoteOutcome.RemoteOutcomeUnknown) in
          upload_advance (cu_record_content_upload_remote_outcome store operation_id outcome generation)
            record operation_id store (if pending then Some RemoteOutcomePending else None)))
      | ContentUploadState.RemoteOutcomeUnknown \<Rightarrow>
          io_bind (io_try Backend (ub_reconcile_upload backend intent)) (\<lambda>outcome.
          let pending = (outcome = MutationRemoteOutcome.RemoteOutcomeUnknown) in
          io_bind (io_try Store
            (cu_record_content_upload_remote_outcome store operation_id outcome generation)) (\<lambda>status.
          if status = StoreWriteStatus.Fenced then io_return (Some ContentUploadRunOutcome.Fenced)
          else
            io_bind (load_required_upload operation_id store) (\<lambda>current.
            if current = record
            then
              (if pending \<and> status = StoreWriteStatus.AlreadyApplied
                  \<and> ur_state current = ContentUploadState.RemoteOutcomeUnknown
               then io_return (Some RemoteOutcomePending)
               else io_fail (Contract (InvalidContentUploadTransition
                      ''upload store reported a transition without durable progress'')))
            else io_return None)))
      | ContentUploadState.RemoteOutcomeKnown \<Rightarrow>
          upload_advance (cu_reconcile_content_upload_metadata store operation_id generation)
            record operation_id store None
      | MetadataReconciled \<Rightarrow>
          upload_advance (cu_complete_content_upload store operation_id generation)
            record operation_id store None
      | ContentUploadState.Completed \<Rightarrow>
          io_bind (io_lift (res_map_err Contract (validate_completed_upload record))) (\<lambda>_.
          io_return (Some ContentUploadRunOutcome.Completed)))"

definition upload_resume_step ::
  "ContentUploadRunner \<Rightarrow> OperationId \<Rightarrow> SessionGeneration \<Rightarrow> 'w ContentUploadStore
   \<Rightarrow> 'w CloudContentUploadBackend \<Rightarrow> 'w LocalContentSnapshotReader
   \<Rightarrow> ('w, ContentUploadRunError, ContentUploadRunOutcome option) io" where
  "upload_resume_step self operation_id generation store backend source =
     io_bind (load_required_upload operation_id store)
       (upload_resume_arm self operation_id generation store backend source)"

definition upload_resume ::
  "ContentUploadRunner \<Rightarrow> OperationId \<Rightarrow> SessionGeneration \<Rightarrow> 'w ContentUploadStore
   \<Rightarrow> 'w CloudContentUploadBackend \<Rightarrow> 'w LocalContentSnapshotReader
   \<Rightarrow> 'w \<Rightarrow> ((ContentUploadRunError + ContentUploadRunOutcome) \<times> 'w) option" where
  "upload_resume self operation_id generation store backend source =
     io_loop (upload_resume_step self operation_id generation store backend source)"

definition upload_submit ::
  "ContentUploadRunner \<Rightarrow> ContentUploadIntent \<Rightarrow> SessionGeneration \<Rightarrow> 'w ContentUploadStore
   \<Rightarrow> 'w CloudContentUploadBackend \<Rightarrow> 'w LocalContentSnapshotReader
   \<Rightarrow> 'w \<Rightarrow> ((ContentUploadRunError + ContentUploadRunOutcome) \<times> 'w) option" where
  "upload_submit self intent generation store backend source w =
     (case cu_persist_content_upload_intent store intent generation w of
        (Inl e, w') \<Rightarrow> Some (Inl (Store e), w')
      | (Inr status, w') \<Rightarrow>
          if status = StoreWriteStatus.Fenced
          then Some (Inr ContentUploadRunOutcome.Fenced, w')
          else upload_resume self (ui_operation_id intent) generation store backend source w')"

end
