(* ===== verification/Upload_Laws.thy ===== *)
theory Upload_Laws
  imports Upload_Runner
begin

text \<open>
  What \<open>ContentUploadRunner\<close> needs from its ports, and what it then guarantees: every run
  returns, a run reported as completed left a sound completed record, and an undisturbed run
  against a working transport completes with every byte of the snapshot delivered in order.
\<close>

section \<open>The ports of a run\<close>

text \<open>The five durable writes of an upload, indexed by the record transition they perform.\<close>

primrec upload_write ::
  "'w ContentUploadStore \<Rightarrow> upload_op \<Rightarrow> OperationId \<Rightarrow> SessionGeneration
   \<Rightarrow> ('w, StoreWriteStatus) store_io" where
  "upload_write store (RecordSession session) i g = cu_record_content_upload_session store i session g"
| "upload_write store BeginRemoteCommit i g = cu_begin_content_upload_remote_commit store i g"
| "upload_write store (RecordUploadOutcome outcome) i g =
     cu_record_content_upload_remote_outcome store i outcome g"
| "upload_write store MarkMetadataReconciled i g = cu_reconcile_content_upload_metadata store i g"
| "upload_write store CompleteUpload i g = cu_complete_content_upload store i g"

abbreviation uploads_le ::
  "(OperationId \<rightharpoonup> ContentUploadRecord) \<Rightarrow> (OperationId \<rightharpoonup> ContentUploadRecord) \<Rightarrow> bool" where
  "uploads_le \<equiv> ranked_journal_le upload_rank ur_intent"

lemma upload_rank_le: "upload_rank r \<le> 2 ^ 64 + 5"
  using accepted_less [of r] by (cases "ur_state r") (simp_all add: upload_rank_def)

text \<open>
  \<open>journal w\<close> is the durable content of the store. Every call may let other executors act,
  but only forwards; a load returns what is durable; durable records are well formed.
\<close>

locale upload_journal =
  fixes store :: "'w ContentUploadStore"
    and backend :: "'w CloudContentUploadBackend"
    and source :: "'w LocalContentSnapshotReader"
    and inv :: "'w \<Rightarrow> bool"
    and journal :: "'w \<Rightarrow> OperationId \<rightharpoonup> ContentUploadRecord"
  assumes load_durable:
      "inv w \<Longrightarrow> cu_load_content_upload store i w = (Inr found, w') \<Longrightarrow> found = journal w' i"
    and durable_good: "inv w \<Longrightarrow> journal w i = Some r \<Longrightarrow> upload_good r"
    and load_forward:
      "inv w \<Longrightarrow> cu_load_content_upload store i w = (found', w') \<Longrightarrow>
         inv w' \<and> uploads_le (journal w) (journal w')"
    and write_forward:
      "inv w \<Longrightarrow> upload_write store uop i g w = (st, w') \<Longrightarrow>
         inv w' \<and> uploads_le (journal w) (journal w')"
    and start_forward:
      "inv w \<Longrightarrow> ub_start_upload backend intent w = (started, w') \<Longrightarrow>
         inv w' \<and> uploads_le (journal w) (journal w')"
    and chunk_forward:
      "inv w \<Longrightarrow> ub_upload_chunk backend intent chunk w = (acked, w') \<Longrightarrow>
         inv w' \<and> uploads_le (journal w) (journal w')"
    and reconcile_chunk_forward:
      "inv w \<Longrightarrow> ub_reconcile_upload_chunk backend intent session chunk w = (acked, w') \<Longrightarrow>
         inv w' \<and> uploads_le (journal w) (journal w')"
    and commit_forward:
      "inv w \<Longrightarrow> ub_commit_upload backend intent session w = (ans, w') \<Longrightarrow>
         inv w' \<and> uploads_le (journal w) (journal w')"
    and reconcile_forward:
      "inv w \<Longrightarrow> ub_reconcile_upload backend intent w = (ans, w') \<Longrightarrow>
         inv w' \<and> uploads_le (journal w) (journal w')"
    and read_forward:
      "inv w \<Longrightarrow> sr_read_snapshot source snapshot off len w = (bytes, w') \<Longrightarrow>
         inv w' \<and> uploads_le (journal w) (journal w')"

sublocale upload_journal \<subseteq> journal_world inv journal upload_rank ur_intent .

context upload_journal
begin

lemma forward_load: "forward (cu_load_content_upload store i)"
  by (rule forwardI) (rule load_forward)

lemma forward_write: "forward (upload_write store uop i g)"
  by (rule forwardI) (rule write_forward)

lemma forward_start: "forward (ub_start_upload backend intent)"
  by (rule forwardI) (rule start_forward)

lemma forward_chunk: "forward (ub_upload_chunk backend intent chunk)"
  by (rule forwardI) (rule chunk_forward)

lemma forward_reconcile_chunk: "forward (ub_reconcile_upload_chunk backend intent session chunk)"
  by (rule forwardI) (rule reconcile_chunk_forward)

lemma forward_commit: "forward (ub_commit_upload backend intent session)"
  by (rule forwardI) (rule commit_forward)

lemma forward_reconcile: "forward (ub_reconcile_upload backend intent)"
  by (rule forwardI) (rule reconcile_forward)

lemma forward_read: "forward (sr_read_snapshot source snapshot off len)"
  by (rule forwardI) (rule read_forward)

lemmas forward_ports =
  forward_load forward_write forward_start forward_chunk
  forward_reconcile_chunk forward_commit forward_reconcile forward_read

lemma forward_upload_writes:
  "forward (cu_record_content_upload_session store i session g)"
  "forward (cu_begin_content_upload_remote_commit store i g)"
  "forward (cu_record_content_upload_remote_outcome store i outcome g)"
  "forward (cu_reconcile_content_upload_metadata store i g)"
  "forward (cu_complete_content_upload store i g)"
  using forward_ports(2) [of "RecordSession session"] forward_ports(2) [of BeginRemoteCommit]
    forward_ports(2) [of "RecordUploadOutcome outcome"] forward_ports(2) [of MarkMetadataReconciled]
    forward_ports(2) [of CompleteUpload]
  by simp_all

lemma forward_load_required: "forward (load_required_upload i store)"
  unfolding load_required_upload_def by (intro forward_bind forward_try forward_ports forward_return)

lemma load_required_found:
  assumes "inv w" and "load_required_upload i store w = (Inr r, w')"
  shows "journal w' i = Some r"
  using assms load_durable by (fastforce simp: load_required_upload_def io_bind_eq_Inr)

lemma forward_observe: "forward (observe_transition status previous i store)"
  unfolding observe_transition_def
  by (intro forward_bind forward_load_required) (auto intro: forward_return)

lemma forward_advance: "forward write \<Longrightarrow> forward (upload_advance write r i store next_step)"
  unfolding upload_advance_def by (intro forward_bind forward_try forward_observe forward_return)

lemma forward_send_chunk: "forward (send_chunk backend intent session chunk)"
proof (rule forwardI)
  fix w res w'
  assume inv: "inv w" and send: "send_chunk backend intent session chunk w = (res, w')"
  obtain first w1 where up: "ub_upload_chunk backend intent chunk w = (first, w1)" by fastforce
  have f: "inv w1 \<and> uploads_le (journal w) (journal w1)" by (rule chunk_forward [OF inv up])
  show "inv w' \<and> uploads_le (journal w) (journal w')"
  proof (cases "w' = w1")
    case False
    then have "io_try ContentUploadRunError.Backend
        (ub_reconcile_upload_chunk backend intent session chunk) w1 = (res, w')"
      using send up by (auto simp: send_chunk_def split: sum.splits if_splits)
    then have g: "inv w' \<and> uploads_le (journal w1) (journal w')"
      by (rule forwardD [OF forward_try [OF forward_ports(5)] _ conjunct1 [OF f]])
    then show ?thesis using ranked_journal_trans [OF conjunct2 [OF f] conjunct2 [OF g]] by simp
  qed (use f in simp)
qed

lemma forward_uploading_arm: "forward (uploading_arm self i g store backend source r)"
  unfolding uploading_arm_def Let_def
  by (intro forward_bind forward_return)
    (auto intro!: forward_bind forward_try forward_ports forward_send_chunk forward_advance
      forward_upload_writes)

lemma forward_arm: "forward (upload_resume_arm self i g store backend source r)"
  unfolding upload_resume_arm_def Let_def
  by (cases "ur_state r")
    (auto intro!: forward_bind forward_try forward_ports forward_advance forward_upload_writes
      forward_uploading_arm forward_load_required)

end

section \<open>Every run returns\<close>

context upload_journal
begin

lemma observed_moved:
  assumes "observe_transition status r i store w = (Inr False, w')" and "since i r w"
  shows "\<exists>r'. journal w' i = Some r' \<and> upload_rank r < upload_rank r'"
proof -
  obtain current where ld: "load_required_upload i store w = (Inr current, w')" and ne: "current \<noteq> r"
    using assms(1) by (auto simp: observe_transition_def io_bind_eq_Inr split: if_splits)
  have cur: "journal w' i = Some current" by (rule load_required_found [OF since_inv [OF assms(2)] ld])
  have "upload_rank r < upload_rank current"
    by (rule since_moved [OF since_forward [OF forward_load_required ld assms(2)] cur ne])
  then show ?thesis using cur by blast
qed

lemma advance_again:
  assumes "upload_advance write r i store next_step w = (Inr None, w')" and "forward write" and "since i r w"
  shows "\<exists>r'. journal w' i = Some r' \<and> upload_rank r < upload_rank r'"
proof -
  obtain status w1 where w1: "write w = (Inr status, w1)"
    and obs: "observe_transition status r i store w1 = (Inr False, w')"
    using assms(1) by (auto simp: upload_advance_def io_bind_eq_Inr split: if_splits)
  show ?thesis by (rule observed_moved [OF obs since_forward [OF assms(2) w1 assms(3)]])
qed

text \<open>What remains to be shown of a pass that goes round again.\<close>

definition goes_up :: "OperationId \<Rightarrow> ContentUploadRecord \<Rightarrow> ('w, 'e, 'a option) io \<Rightarrow> bool" where
  "goes_up i r m \<longleftrightarrow>
     (\<forall>w w'. since i r w \<longrightarrow> m w = (Inr None, w') \<longrightarrow>
        (\<exists>r'. journal w' i = Some r' \<and> upload_rank r < upload_rank r'))"

lemma goes_up_advance: "forward write \<Longrightarrow> goes_up i r (upload_advance write r i store next_step)"
  using advance_again unfolding goes_up_def by blast

lemma goes_up_bind:
  assumes "forward m" and "\<And>a. goes_up i r (f a)"
  shows "goes_up i r (io_bind m f)"
  unfolding goes_up_def
proof (intro allI impI)
  fix w w'
  assume s: "since i r w" and b: "io_bind m f w = (Inr None, w')"
  obtain a w1 where m: "m w = (Inr a, w1)" and f: "f a w1 = (Inr None, w')" by (rule io_bind_InrE [OF b])
  show "\<exists>r'. journal w' i = Some r' \<and> upload_rank r < upload_rank r'"
    using assms(2) since_forward [OF assms(1) m s] f unfolding goes_up_def by blast
qed

lemma goes_up_return: "goes_up i r (io_return (Some a))" "goes_up i r (io_fail e)"
  by (simp_all add: goes_up_def)

lemma goes_up_if: "goes_up i r m \<Longrightarrow> goes_up i r m' \<Longrightarrow> goes_up i r (if c then m else m')"
  by simp

lemma goes_up_reload:
  assumes "\<And>current. current = r \<Longrightarrow> goes_up i r (f current)"
  shows "goes_up i r (io_bind (load_required_upload i store)
    (\<lambda>current. if current = r then f current else io_return None))"
  unfolding goes_up_def
proof (intro allI impI)
  fix w w'
  assume s: "since i r w"
    and b: "io_bind (load_required_upload i store)
      (\<lambda>current. if current = r then f current else io_return None) w = (Inr None, w')"
  obtain current w1 where ld: "load_required_upload i store w = (Inr current, w1)"
    and go: "(if current = r then f current else io_return None) w1 = (Inr None, w')"
    by (rule io_bind_InrE [OF b])
  have s1: "since i r w1" by (rule since_forward [OF forward_load_required ld s])
  have cur: "journal w1 i = Some current" by (rule load_required_found [OF since_inv [OF s] ld])
  show "\<exists>r'. journal w' i = Some r' \<and> upload_rank r < upload_rank r'"
  proof (cases "current = r")
    case True
    then show ?thesis using assms s1 go unfolding goes_up_def by auto
  next
    case False
    then show ?thesis using go cur since_moved [OF s1 cur] by auto
  qed
qed

lemma uploading_arm_up: "goes_up i r (uploading_arm self i g store backend source r)"
  unfolding uploading_arm_def Let_def
  by (intro goes_up_bind forward_return goes_up_if forward_try forward_ports forward_send_chunk
      goes_up_advance forward_upload_writes)

lemma arm_up: "goes_up i r (upload_resume_arm self i g store backend source r)"
  unfolding upload_resume_arm_def Let_def
  by (cases "ur_state r")
    (simp_all, (intro goes_up_bind forward_return goes_up_if forward_try forward_ports
        goes_up_advance forward_upload_writes uploading_arm_up goes_up_return goes_up_reload)+)

end

sublocale upload_journal \<subseteq> loop: journal_loop inv journal upload_rank ur_intent i
    "load_required_upload i store" "upload_resume_arm self i g store backend source" "2 ^ 64 + 5"
  for self i g
proof
  show "forward (load_required_upload i store)" by (rule forward_load_required)
  show "journal w' i = Some r" if "inv w" "load_required_upload i store w = (Inr r, w')" for w r w'
    by (rule load_required_found [OF that])
  show "forward (upload_resume_arm self i g store backend source r)" for r by (rule forward_arm)
  show "\<exists>r'. journal w' i = Some r' \<and> upload_rank r < upload_rank r'"
    if "inv w" "journal w i = Some r" "upload_resume_arm self i g store backend source r w = (Inr None, w')"
    for w r w'
    using arm_up sinceI [OF that(1,2)] that(3) unfolding goes_up_def by blast
  show "upload_rank r \<le> 2 ^ 64 + 5" for r by (rule upload_rank_le)
qed

context upload_journal
begin

lemma resume_returns: "inv w \<Longrightarrow> \<exists>res w'. upload_resume self i g store backend source w = Some (res, w')"
  unfolding upload_resume_def upload_resume_step_def by (rule loop.returns)

lemma advance_outcome:
  "upload_advance write r i store next_step w = (Inr (Some outcome), w') \<Longrightarrow>
   outcome = ContentUploadRunOutcome.Fenced \<or> next_step = Some outcome"
  by (auto simp: upload_advance_def io_bind_eq_Inr split: if_splits)

lemma arm_completed:
  assumes "upload_resume_arm self i g store backend source r w = (Inr (Some ContentUploadRunOutcome.Completed), w')"
  shows "ur_state r = ContentUploadState.Completed \<and> w' = w"
  using assms
  by (cases "ur_state r")
    (auto simp: upload_resume_arm_def uploading_arm_def Let_def io_bind_eq_Inr
      dest!: advance_outcome split: if_splits)

text \<open>A run reported as completed left a well-formed completed record.\<close>

lemma resume_completed:
  assumes "inv w"
    and "upload_resume self i g store backend source w = Some (Inr ContentUploadRunOutcome.Completed, w'')"
  shows "\<exists>r. journal w'' i = Some r \<and> ur_state r = ContentUploadState.Completed \<and> upload_good r"
proof -
  obtain r w1 where i1: "inv w1" and j: "journal w1 i = Some r"
    and arm: "upload_resume_arm self i g store backend source r w1
      = (Inr (Some ContentUploadRunOutcome.Completed), w'')"
    using loop.last_arm assms unfolding upload_resume_def upload_resume_step_def by metis
  show ?thesis using arm_completed [OF arm] durable_good [OF i1 j] j by auto
qed

text \<open>
  Whatever the outcome, the record the run leaves is the one it started from or one of a
  higher rank with the same intent.
\<close>

lemma resume_forward:
  assumes "inv w" and "upload_resume self i g store backend source w = Some (res, w'')"
  shows "inv w'' \<and> uploads_le (journal w) (journal w'')"
  using assms unfolding upload_resume_def upload_resume_step_def by (rule loop.run_forward)

end

section \<open>An undisturbed run delivers every byte\<close>

text \<open>
  \<open>live w i g\<close>: the executor generation is the active one and nothing else acts on the
  operation. Then loads see the record and writes perform the record's transition; clearing the
  dirty state may report a fence, but only after the record moved. \<open>received w id\<close> is what the
  remote side holds for a backend session; no store call changes it.
\<close>

locale live_upload = upload_journal +
  fixes live :: "'a \<Rightarrow> OperationId \<Rightarrow> SessionGeneration \<Rightarrow> bool"
    and received :: "'a \<Rightarrow> ContentUploadSessionId \<Rightarrow> u8 list"
  assumes live_load:
      "inv w \<Longrightarrow> live w i g \<Longrightarrow> cu_load_content_upload store i w = (Inr (journal w i), w)"
    and live_write:
      "inv w \<Longrightarrow> live w i g \<Longrightarrow> journal w i = Some r \<Longrightarrow>
       upload_apply uop r = (Inr RecordTransition.Applied, r') \<Longrightarrow>
         \<exists>st w'. upload_write store uop i g w = (Inr st, w') \<and>
            (st = StoreWriteStatus.Fenced \<longrightarrow> uop = MarkMetadataReconciled) \<and>
            inv w' \<and> live w' i g \<and> journal w' i = Some r' \<and> received w' = received w"
begin

text \<open>The remote side holds the bytes that \<open>session\<close> acknowledges.\<close>

definition holds :: "u8 list \<Rightarrow> ContentUploadSession \<Rightarrow> 'a \<Rightarrow> bool" where
  "holds content session w \<longleftrightarrow>
     take (unat (us_accepted_offset session)) (received w (us_id session))
     = take (unat (us_accepted_offset session)) content"

definition calm :: "OperationId \<Rightarrow> SessionGeneration \<Rightarrow> 'a \<Rightarrow> 'a \<Rightarrow> bool" where
  "calm i g w w' \<longleftrightarrow> inv w' \<and> live w' i g \<and> journal w' i = journal w i"

text \<open>A chunk is accepted when sent, or found accepted when it is reconciled after a conflict.\<close>

definition accepts_chunk ::
  "OperationId \<Rightarrow> SessionGeneration \<Rightarrow> ContentUploadIntent \<Rightarrow> ContentUploadSession \<Rightarrow> ContentUploadChunk
   \<Rightarrow> 'a \<Rightarrow> bool" where
  "accepts_chunk i g intent session chunk w \<longleftrightarrow>
     (\<exists>w'. send_chunk backend intent session chunk w
         = (Inr \<lparr>ack_session_id = chunk_session_id chunk,
                 ack_accepted_offset = chunk_end_exclusive chunk\<rparr>, w') \<and>
       calm i g w w' \<and>
       take (unat (chunk_end_exclusive chunk)) (received w' (chunk_session_id chunk))
       = take (unat (chunk_offset chunk)) (received w (chunk_session_id chunk)) @ chunk_bytes chunk)"

text \<open>The documented behaviour of the transport and of the snapshot reader.\<close>

definition reads_snapshot ::
  "OperationId \<Rightarrow> SessionGeneration \<Rightarrow> LocalContentSnapshot \<Rightarrow> u8 list \<Rightarrow> 'a \<Rightarrow> bool" where
  "reads_snapshot i g snapshot content w \<longleftrightarrow>
     (\<forall>off len. unat off + unat len \<le> length content \<longrightarrow>
        (\<exists>w'. sr_read_snapshot source snapshot off len w
             = (Inr (take (unat len) (drop (unat off) content)), w') \<and>
           calm i g w w' \<and> received w' = received w))"

definition starts ::
  "OperationId \<Rightarrow> SessionGeneration \<Rightarrow> ContentUploadIntent \<Rightarrow> u8 list \<Rightarrow> 'a \<Rightarrow> bool" where
  "starts i g intent content w \<longleftrightarrow>
     (\<exists>session w'. ub_start_upload backend intent w = (Inr session, w') \<and> calm i g w w' \<and>
        us_accepted_offset session \<le> snap_size (ui_snapshot intent) \<and> holds content session w')"

definition settles ::
  "OperationId \<Rightarrow> SessionGeneration \<Rightarrow> ContentUploadIntent \<Rightarrow> MutationRemoteOutcome \<Rightarrow> 'a \<Rightarrow> bool" where
  "settles i g intent answer w \<longleftrightarrow>
     (\<forall>session. \<exists>w'. ub_commit_upload backend intent session w = (Inr answer, w') \<and>
        calm i g w w' \<and> received w' = received w) \<and>
     (\<exists>w'. ub_reconcile_upload backend intent w = (Inr answer, w') \<and>
        calm i g w w' \<and> received w' = received w)"

definition transports ::
  "OperationId \<Rightarrow> SessionGeneration \<Rightarrow> ContentUploadIntent \<Rightarrow> u8 list \<Rightarrow> MutationRemoteOutcome \<Rightarrow> bool" where
  "transports i g intent content answer \<longleftrightarrow>
     length content = unat (snap_size (ui_snapshot intent)) \<and>
     answer \<noteq> MutationRemoteOutcome.RemoteOutcomeUnknown \<and>
     validate_upload_outcome intent answer = Inr () \<and>
     (\<forall>w. inv w \<longrightarrow> live w i g \<longrightarrow>
        reads_snapshot i g (ui_snapshot intent) content w \<and> starts i g intent content w \<and>
        settles i g intent answer w \<and>
        (\<forall>session chunk. chunk_validate_for intent session chunk = Inr () \<longrightarrow>
           unat (chunk_offset chunk) + length (chunk_bytes chunk) \<le> length content \<longrightarrow>
           chunk_byte_len chunk = len_u64 (chunk_bytes chunk) \<longrightarrow> chunk_bytes chunk \<noteq> [] \<longrightarrow>
           holds content session w \<longrightarrow> accepts_chunk i g intent session chunk w))"

definition holding :: "u8 list \<Rightarrow> ContentUploadRecord \<Rightarrow> 'a \<Rightarrow> bool" where
  "holding content r w \<longleftrightarrow> (\<forall>session. ur_session r = Some session \<longrightarrow> holds content session w)"

lemma holding_cong: "received w' = received w \<Longrightarrow> holding content r w' = holding content r w"
  by (simp add: holding_def holds_def)

lemma live_load_required:
  "inv w \<Longrightarrow> live w i g \<Longrightarrow> journal w i = Some r \<Longrightarrow> load_required_upload i store w = (Inr r, w)"
  by (simp add: load_required_upload_def io_bind_def io_try_def live_load)

lemma live_observe:
  assumes "inv w" "live w i g" "journal w i = Some r'" "r' \<noteq> r"
  shows "observe_transition status r i store w = (Inr False, w)"
  using assms live_load_required by (simp add: observe_transition_def io_bind_def)

text \<open>What one more round of the loop achieves.\<close>

definition moved_on ::
  "OperationId \<Rightarrow> SessionGeneration \<Rightarrow> ContentUploadRecord \<Rightarrow> u8 list \<Rightarrow> 'a \<Rightarrow> bool" where
  "moved_on i g r content w \<longleftrightarrow>
     inv w \<and> live w i g \<and>
     (\<exists>r'. journal w i = Some r' \<and> upload_rank r < upload_rank r' \<and> ur_intent r' = ur_intent r \<and>
        holding content r' w)"

lemma live_moves:
  assumes "inv w" "live w i g" "journal w i = Some r" "upload_good r"
    and mv: "upload_transition uop r = (Inr ContentUploadRecordTransition.Applied, r')" and hold: "holding content r' w"
  obtains st w' where "upload_write store uop i g w = (Inr st, w')"
    "st = StoreWriteStatus.Fenced \<longrightarrow> uop = MarkMetadataReconciled"
    "inv w'" "live w' i g" "journal w' i = Some r'" "r' \<noteq> r" "moved_on i g r content w'"
proof -
  have ap: "upload_apply uop r = (Inr RecordTransition.Applied, r')" using mv by (simp add: upload_apply_cases)
  obtain st w' where w': "upload_write store uop i g w = (Inr st, w')"
    "st = StoreWriteStatus.Fenced \<longrightarrow> uop = MarkMetadataReconciled"
    "inv w'" "live w' i g" "journal w' i = Some r'" "received w' = received w"
    using live_write [OF assms(1-3) ap] by blast
  note moves = upload_moves_good [OF assms(4) upload_applied_moves [OF assms(4) mv]]
  have "holding content r' w'" using hold holding_cong [OF w'(6)] by simp
  then have "moved_on i g r content w'"
    using w'(3-5) moves(2,3) unfolding moved_on_def by blast
  moreover have "r' \<noteq> r" using moves(2) by auto
  ultimately show thesis by (rule that [OF w'(1-5), rotated])
qed

lemma live_advance:
  assumes "inv w" "live w i g" "journal w i = Some r" "upload_good r"
    and "upload_transition uop r = (Inr ContentUploadRecordTransition.Applied, r')" "holding content r' w"
  shows "\<exists>w'. upload_advance (upload_write store uop i g) r i store None w = (Inr None, w') \<and>
    moved_on i g r content w'"
proof -
  obtain st w' where w': "upload_write store uop i g w = (Inr st, w')"
    "inv w'" "live w' i g" "journal w' i = Some r'" "r' \<noteq> r" "moved_on i g r content w'"
    by (rule live_moves [OF assms])
  then show ?thesis
    using live_observe [OF w'(2-5), of st] by (auto simp: upload_advance_def io_bind_def io_try_def)
qed

text \<open>One chunk: read, sent and acknowledged, it extends the delivered prefix.\<close>

definition next_length :: "ContentUploadRunner \<Rightarrow> LocalContentSnapshot \<Rightarrow> ContentUploadSession \<Rightarrow> u64" where
  "next_length self snapshot session =
     min (snap_size snapshot - us_accepted_offset session) (of_nat (chunk_size self))"

lemma next_length_fits:
  assumes "us_accepted_offset session < snap_size snapshot"
    and "0 < chunk_size self" "chunk_size self < 2 ^ 64"
  shows "unat (us_accepted_offset session) + unat (next_length self snapshot session)
      \<le> unat (snap_size snapshot)"
    and "0 < unat (next_length self snapshot session)"
    and "unat (us_accepted_offset session + next_length self snapshot session)
      = unat (us_accepted_offset session) + unat (next_length self snapshot session)"
proof -
  let ?n = "next_length self snapshot session"
  have gap: "unat (snap_size snapshot - us_accepted_offset session)
      = unat (snap_size snapshot) - unat (us_accepted_offset session)"
    using assms(1) by (intro unat_sub) simp
  moreover have "unat (of_nat (chunk_size self) :: u64) = chunk_size self"
    using assms(3) by (simp add: unat_of_nat)
  ultimately show fit: "unat (us_accepted_offset session) + unat ?n \<le> unat (snap_size snapshot)"
    and "0 < unat ?n"
    using assms(1,2) by (simp_all add: next_length_def unat_min word_less_nat_alt)
  show "unat (us_accepted_offset session + ?n) = unat (us_accepted_offset session) + unat ?n"
    using le_less_trans [OF fit unat_u64_less] by (intro unat_add_exact) simp
qed

definition next_chunk ::
  "ContentUploadRunner \<Rightarrow> LocalContentSnapshot \<Rightarrow> ContentUploadSession \<Rightarrow> u8 list \<Rightarrow> ContentUploadChunk" where
  "next_chunk self snapshot session content =
     (let n = next_length self snapshot session; off = us_accepted_offset session in
      ContentUploadChunk_from_validated_parts (us_id session) (snap_generation snapshot) off
        (take (unat n) (drop (unat off) content)) n (snap_size snapshot))"

lemma next_chunk_simps:
  "chunk_session_id (next_chunk self snapshot session content) = us_id session"
  "chunk_offset (next_chunk self snapshot session content) = us_accepted_offset session"
  "chunk_bytes (next_chunk self snapshot session content) =
     take (unat (next_length self snapshot session)) (drop (unat (us_accepted_offset session)) content)"
  "chunk_byte_len (next_chunk self snapshot session content) = next_length self snapshot session"
  "chunk_end_exclusive (next_chunk self snapshot session content) =
     us_accepted_offset session + next_length self snapshot session"
  "chunk_validate_for intent session (next_chunk self (ui_snapshot intent) session content) = Inr ()"
  by (simp_all add: next_chunk_def Let_def ContentUploadChunk_from_validated_parts_def
      chunk_end_exclusive_def chunk_validate_for_def)

definition next_session :: "ContentUploadRunner \<Rightarrow> LocalContentSnapshot \<Rightarrow> ContentUploadSession \<Rightarrow> ContentUploadSession" where
  "next_session self snapshot session =
     \<lparr>us_id = us_id session,
      us_accepted_offset = us_accepted_offset session + next_length self snapshot session\<rparr>"

text \<open>Reading and sending the next chunk.\<close>

lemma live_read:
  assumes "inv w" "live w i g" "transports i g intent content answer"
    and "us_accepted_offset session < snap_size (ui_snapshot intent)"
    and "0 < chunk_size self" "chunk_size self < 2 ^ 64"
  shows "\<exists>w'. sr_read_snapshot source (ui_snapshot intent) (us_accepted_offset session)
      (next_length self (ui_snapshot intent) session) w
      = (Inr (chunk_bytes (next_chunk self (ui_snapshot intent) session content)), w') \<and>
    calm i g w w' \<and> received w' = received w"
proof -
  have "unat (us_accepted_offset session) + unat (next_length self (ui_snapshot intent) session)
      \<le> length content"
    using next_length_fits(1) [OF assms(4-6)] assms(3) by (simp add: transports_def)
  then show ?thesis
    using assms(1-3) unfolding transports_def reads_snapshot_def next_chunk_simps by blast
qed

lemma live_send:
  assumes "inv w" "live w i g" and tr: "transports i g intent content answer"
    and less: "us_accepted_offset session < snap_size (ui_snapshot intent)"
    and size: "0 < chunk_size self" "chunk_size self < 2 ^ 64" and hold: "holds content session w"
  shows "len_u64 (chunk_bytes (next_chunk self (ui_snapshot intent) session content))
      = next_length self (ui_snapshot intent) session"
    and "\<exists>w'. send_chunk backend intent session (next_chunk self (ui_snapshot intent) session content) w
      = (Inr \<lparr>ack_session_id = us_id session, ack_accepted_offset =
          us_accepted_offset session + next_length self (ui_snapshot intent) session\<rparr>, w') \<and>
    calm i g w w' \<and> holds content (next_session self (ui_snapshot intent) session) w'"
proof -
  let ?chunk = "next_chunk self (ui_snapshot intent) session content"
  let ?n = "next_length self (ui_snapshot intent) session" and ?off = "us_accepted_offset session"
  note fits = next_length_fits [OF less size]
  have fit: "unat ?off + unat ?n \<le> length content" using fits(1) tr by (simp add: transports_def)
  have len: "length (chunk_bytes ?chunk) = unat ?n" using fit by (simp add: next_chunk_simps)
  then show b64: "len_u64 (chunk_bytes ?chunk) = ?n" by (simp add: len_u64_def)
  have ne: "chunk_bytes ?chunk \<noteq> []" using len fits(2) by auto
  have "accepts_chunk i g intent session ?chunk w"
    using tr assms(1,2) hold next_chunk_simps(6) b64 ne fit len
    unfolding transports_def by (simp add: next_chunk_simps(2,4))
  then obtain w' where w': "send_chunk backend intent session ?chunk w
      = (Inr \<lparr>ack_session_id = us_id session, ack_accepted_offset = ?off + ?n\<rparr>, w')"
    and c: "calm i g w w'"
    and got: "take (unat (?off + ?n)) (received w' (us_id session))
      = take (unat ?off) (received w (us_id session)) @ chunk_bytes ?chunk"
    unfolding accepts_chunk_def next_chunk_simps by blast
  have "holds content (next_session self (ui_snapshot intent) session) w'"
    using got hold fits(3) by (simp add: holds_def next_session_def next_chunk_simps take_add)
  then show "\<exists>w'. send_chunk backend intent session ?chunk w
      = (Inr \<lparr>ack_session_id = us_id session, ack_accepted_offset = ?off + ?n\<rparr>, w') \<and>
    calm i g w w' \<and> holds content (next_session self (ui_snapshot intent) session) w'"
    using w' c by blast
qed

lemma next_session_recorded:
  assumes "ur_state r = Uploading" "ur_session r = Some session"
    and "us_accepted_offset session < snap_size (ui_snapshot (ur_intent r))"
    and "0 < chunk_size self" "chunk_size self < 2 ^ 64"
  defines "next' \<equiv> next_session self (ui_snapshot (ur_intent r)) session"
  shows "upload_transition (RecordSession next') r
    = (Inr ContentUploadRecordTransition.Applied, r\<lparr>ur_session := Some next'\<rparr>)"
proof -
  note fits = next_length_fits [OF assms(3-5)]
  have "us_accepted_offset next' \<le> snap_size (ui_snapshot (ur_intent r))"
    "\<not> us_accepted_offset next' < us_accepted_offset session"
    "us_accepted_offset next' \<noteq> us_accepted_offset session"
    using fits by (auto simp: next'_def next_session_def word_le_nat_alt word_less_nat_alt)
  then show ?thesis
    using assms(1,2) by (simp add: record_session_def session_validate_for_def not_less next'_def next_session_def)
qed

lemma live_chunk:
  assumes live: "inv w" "live w i g" "journal w i = Some r" "upload_good r"
    and st: "ur_state r = Uploading" and ses: "ur_session r = Some session"
    and less: "us_accepted_offset session < snap_size (ui_snapshot (ur_intent r))"
    and tr: "transports i g (ur_intent r) content answer"
    and hold: "holds content session w" and size: "0 < chunk_size self" "chunk_size self < 2 ^ 64"
  shows "\<exists>w'. uploading_arm self i g store backend source r w = (Inr None, w') \<and>
    moved_on i g r content w'"
proof -
  let ?snap = "ui_snapshot (ur_intent r)"
  let ?chunk = "next_chunk self ?snap session content" and ?next = "next_session self ?snap session"
  obtain w1 where w1: "sr_read_snapshot source ?snap (us_accepted_offset session)
      (next_length self ?snap session) w = (Inr (chunk_bytes ?chunk), w1)"
    and c1: "calm i g w w1" "received w1 = received w"
    using live_read [OF live(1,2) tr less size] by blast
  have l1: "inv w1" "live w1 i g" "holds content session w1"
    using c1 hold by (simp_all add: calm_def holds_def)
  note sent = live_send [OF l1(1,2) tr less size l1(3)]
  obtain w2 where w2: "send_chunk backend (ur_intent r) session ?chunk w1
      = (Inr \<lparr>ack_session_id = us_id session,
              ack_accepted_offset = us_accepted_offset session + next_length self ?snap session\<rparr>, w2)"
    and c2: "calm i g w1 w2" "holds content ?next w2"
    using sent(2) by blast
  have live2: "inv w2" "live w2 i g" "journal w2 i = Some r" using c1 c2 live(3) by (simp_all add: calm_def)
  have "holding content (r\<lparr>ur_session := Some ?next\<rparr>) w2" using c2 by (simp add: holding_def)
  then obtain w3 where w3: "upload_advance (upload_write store (RecordSession ?next) i g) r i store None w2
      = (Inr None, w3)" and mv: "moved_on i g r content w3"
    using live_advance [OF live2 live(4) next_session_recorded [OF st ses less size]] by blast
  have "uploading_arm self i g store backend source r w = (Inr None, w3)"
    using less ses w1 w2 w3 sent(1)
    by (simp add: uploading_arm_def Let_def required_upload_session_def session_validate_for_def
        validate_source_bytes_def ack_validate_for_def next_chunk_def chunk_end_exclusive_def
        ContentUploadChunk_from_validated_parts_def io_bind_def io_try_def next_session_def
        next_length_def)
  then show ?thesis using mv by blast
qed

end

context live_upload
begin

lemma holding_same: "ur_session r' = ur_session r \<Longrightarrow> holding content r w \<Longrightarrow> holding content r' w"
  by (simp add: holding_def)

lemma live_start:
  assumes live: "inv w" "live w i g" "journal w i = Some r" "upload_good r"
    and st: "ur_state r = ContentUploadState.IntentPersisted"
    and tr: "transports i g (ur_intent r) content answer"
  shows "\<exists>w'. upload_resume_arm self i g store backend source r w = (Inr None, w') \<and>
    moved_on i g r content w'"
proof -
  obtain session w1 where w1: "ub_start_upload backend (ur_intent r) w = (Inr session, w1)"
    and c1: "calm i g w w1" and off: "us_accepted_offset session \<le> snap_size (ui_snapshot (ur_intent r))"
    and h: "holds content session w1"
    using tr live(1,2) unfolding transports_def starts_def by blast
  let ?r = "r\<lparr>ur_state := Uploading, ur_session := Some session\<rparr>"
  have "ur_session r = None" using live(4) st by (auto simp: upload_good_def split: option.splits)
  then have step: "upload_transition (RecordSession session) r = (Inr ContentUploadRecordTransition.Applied, ?r)"
    using st off by (simp add: record_session_def session_validate_for_def not_less)
  have "inv w1" "live w1 i g" "journal w1 i = Some r" "holding content ?r w1"
    using c1 live(3) h by (simp_all add: calm_def holding_def)
  then obtain w2 where "upload_advance (upload_write store (RecordSession session) i g) r i store None w1
      = (Inr None, w2)" "moved_on i g r content w2"
    using live_advance [OF _ _ _ live(4) step] by blast
  then show ?thesis
    using st w1 off by (auto simp: upload_resume_arm_def Let_def session_validate_for_def io_bind_def io_try_def not_less)
qed

lemma outcome_recorded:
  assumes "upload_good r" and "ur_state r \<in> {RemoteCommitting, ContentUploadState.RemoteOutcomeUnknown}"
    and "answer \<noteq> MutationRemoteOutcome.RemoteOutcomeUnknown"
    and "validate_upload_outcome (ur_intent r) answer = Inr ()"
  shows "upload_transition (RecordUploadOutcome answer) r =
    (Inr ContentUploadRecordTransition.Applied,
     r\<lparr>ur_state := ContentUploadState.RemoteOutcomeKnown, ur_remote_outcome := Some answer\<rparr>)"
  using assms upload_good_outcome [OF assms(1)]
  by (auto simp: upload_record_remote_outcome_def Let_def)

lemma live_commit:
  assumes live: "inv w" "live w i g" "journal w i = Some r" "upload_good r"
    and st: "ur_state r = RemoteCommitting" and tr: "transports i g (ur_intent r) content answer"
    and hold: "holding content r w"
  shows "\<exists>w'. upload_resume_arm self i g store backend source r w = (Inr None, w') \<and>
    moved_on i g r content w'"
proof -
  obtain session where ses: "ur_session r = Some session"
    using live(4) st by (auto simp: upload_good_def split: option.splits)
  obtain w1 where w1: "ub_commit_upload backend (ur_intent r) session w = (Inr answer, w1)"
    and c1: "calm i g w w1" "received w1 = received w"
    using tr live(1,2) unfolding transports_def settles_def by blast
  have ans: "answer \<noteq> MutationRemoteOutcome.RemoteOutcomeUnknown"
    "validate_upload_outcome (ur_intent r) answer = Inr ()"
    using tr by (simp_all add: transports_def)
  have step: "upload_transition (RecordUploadOutcome answer) r =
    (Inr ContentUploadRecordTransition.Applied,
     r\<lparr>ur_state := ContentUploadState.RemoteOutcomeKnown, ur_remote_outcome := Some answer\<rparr>)"
    using outcome_recorded [OF live(4) _ ans] st by simp
  have l1: "inv w1" "live w1 i g" "journal w1 i = Some r" using c1 live(3) by (simp_all add: calm_def)
  have "holding content r w1" using hold holding_cong [OF c1(2)] by simp
  then have "holding content (r\<lparr>ur_state := ContentUploadState.RemoteOutcomeKnown,
      ur_remote_outcome := Some answer\<rparr>) w1"
    by (rule holding_same [rotated]) simp
  then obtain w2 where "upload_advance (upload_write store (RecordUploadOutcome answer) i g) r i store None w1
      = (Inr None, w2)" "moved_on i g r content w2"
    using live_advance [OF l1 live(4) step] by blast
  then show ?thesis
    using st ses w1 ans(1)
    by (auto simp: upload_resume_arm_def Let_def required_upload_session_def io_bind_def io_try_def)
qed

lemma live_reconcile:
  assumes live: "inv w" "live w i g" "journal w i = Some r" "upload_good r"
    and st: "ur_state r = ContentUploadState.RemoteOutcomeUnknown"
    and tr: "transports i g (ur_intent r) content answer" and hold: "holding content r w"
  shows "\<exists>w'. upload_resume_arm self i g store backend source r w = (Inr None, w') \<and>
    moved_on i g r content w'"
proof -
  let ?r = "r\<lparr>ur_state := ContentUploadState.RemoteOutcomeKnown, ur_remote_outcome := Some answer\<rparr>"
  obtain w1 where w1: "ub_reconcile_upload backend (ur_intent r) w = (Inr answer, w1)"
    and c1: "calm i g w w1" "received w1 = received w"
    using tr live(1,2) unfolding transports_def settles_def by blast
  have ans: "answer \<noteq> MutationRemoteOutcome.RemoteOutcomeUnknown"
    "validate_upload_outcome (ur_intent r) answer = Inr ()"
    using tr by (simp_all add: transports_def)
  have step: "upload_transition (RecordUploadOutcome answer) r = (Inr ContentUploadRecordTransition.Applied, ?r)"
    using outcome_recorded [OF live(4) _ ans] st by simp
  have l1: "inv w1" "live w1 i g" "journal w1 i = Some r" using c1 live(3) by (simp_all add: calm_def)
  have "holding content r w1" using hold holding_cong [OF c1(2)] by simp
  then have h1: "holding content ?r w1" by (rule holding_same [rotated]) simp
  obtain status w2 where w2: "upload_write store (RecordUploadOutcome answer) i g w1 = (Inr status, w2)"
    "status = StoreWriteStatus.Fenced \<longrightarrow> RecordUploadOutcome answer = MarkMetadataReconciled"
    "inv w2" "live w2 i g" "journal w2 i = Some ?r" "?r \<noteq> r" "moved_on i g r content w2"
    by (rule live_moves [OF l1 live(4) step h1])
  have "upload_resume_arm self i g store backend source r w = (Inr None, w2)"
    using st w1 w2 live_load_required [OF w2(3-5)]
    by (simp add: upload_resume_arm_def Let_def io_bind_def io_try_def)
  then show ?thesis using w2(7) by blast
qed

lemma live_arm:
  assumes live: "inv w" "live w i g" "journal w i = Some r" "upload_good r"
    and tr: "transports i g (ur_intent r) content answer" and hold: "holding content r w"
    and size: "0 < chunk_size self" "chunk_size self < 2 ^ 64"
    and more: "ur_state r \<noteq> ContentUploadState.Completed"
  shows "\<exists>w'. upload_resume_arm self i g store backend source r w = (Inr None, w') \<and>
    moved_on i g r content w'"
proof (cases "ur_state r")
  case Uploading
  then obtain session where ses: "ur_session r = Some session"
    "us_accepted_offset session \<le> snap_size (ui_snapshot (ur_intent r))"
    using live(4) by (auto simp: upload_good_def split: option.splits)
  show ?thesis
  proof (cases "us_accepted_offset session < snap_size (ui_snapshot (ur_intent r))")
    case True
    then show ?thesis
      using live_chunk [OF live Uploading ses(1) True tr _ size] hold ses(1) Uploading
      by (simp add: holding_def upload_resume_arm_def)
  next
    case False
    let ?r = "r\<lparr>ur_state := RemoteCommitting\<rparr>"
    have "upload_transition BeginRemoteCommit r = (Inr ContentUploadRecordTransition.Applied, ?r)"
      using Uploading ses False by (simp add: begin_remote_commit_def)
    moreover have "holding content ?r w" using hold by (rule holding_same [rotated]) simp
    ultimately show ?thesis
      using live_advance [OF live] Uploading ses False
      by (fastforce simp: upload_resume_arm_def uploading_arm_def Let_def required_upload_session_def
          session_validate_for_def io_bind_def)
  qed
next
  case RemoteOutcomeKnown
  have "upload_transition MarkMetadataReconciled r
      = (Inr ContentUploadRecordTransition.Applied, r\<lparr>ur_state := MetadataReconciled\<rparr>)"
    using RemoteOutcomeKnown by (simp add: upload_mark_metadata_reconciled_def)
  moreover have "holding content (r\<lparr>ur_state := MetadataReconciled\<rparr>) w"
    using hold by (rule holding_same [rotated]) simp
  ultimately show ?thesis
    using live_advance [OF live] RemoteOutcomeKnown by (fastforce simp: upload_resume_arm_def)
next
  case MetadataReconciled
  have "upload_transition CompleteUpload r
      = (Inr ContentUploadRecordTransition.Applied, r\<lparr>ur_state := ContentUploadState.Completed\<rparr>)"
    using MetadataReconciled by (simp add: ContentUploadRecord_complete_def)
  moreover have "holding content (r\<lparr>ur_state := ContentUploadState.Completed\<rparr>) w"
    using hold by (rule holding_same [rotated]) simp
  ultimately show ?thesis
    using live_advance [OF live] MetadataReconciled by (fastforce simp: upload_resume_arm_def)
qed (use live_start [OF live _ tr] live_commit [OF live _ tr hold] live_reconcile [OF live _ tr hold] more
  in simp_all)

text \<open>
  From any durable record whose acknowledged bytes the remote side holds, the run completes and
  the remote side then holds exactly the snapshot's content.
\<close>

lemma live_resume:
  assumes "inv w" "live w i g" "journal w i = Some r" "transports i g (ur_intent r) content answer"
    and "holding content r w" "0 < chunk_size self" "chunk_size self < 2 ^ 64"
  shows "\<exists>w' r' session.
    upload_resume self i g store backend source w = Some (Inr ContentUploadRunOutcome.Completed, w') \<and>
    journal w' i = Some r' \<and> ur_intent r' = ur_intent r \<and> ur_state r' = ContentUploadState.Completed \<and>
    ur_session r' = Some session \<and> take (length content) (received w' (us_id session)) = content"
  using assms(1-5)
proof (induction "2 ^ 64 + 5 - upload_rank r" arbitrary: w r rule: less_induct)
  case less
  have good: "upload_good r" using durable_good less.prems(1,3) by blast
  have ld: "load_required_upload i store w = (Inr r, w)" using live_load_required less.prems(1-3) by blast
  show ?case
  proof (cases "ur_state r = ContentUploadState.Completed")
    case True
    then obtain session outcome where s: "ur_session r = Some session" "ur_remote_outcome r = Some outcome"
      "us_accepted_offset session = snap_size (ui_snapshot (ur_intent r))"
      using good by (auto simp: upload_good_def split: option.splits)
    have "take (length content) (received w (us_id session)) = content"
      using less.prems(4,5) s by (simp add: transports_def holding_def holds_def)
    moreover have "upload_resume self i g store backend source w
        = Some (Inr ContentUploadRunOutcome.Completed, w)"
      unfolding upload_resume_def
      by (subst io_loop_stop [where res = "Inr (Some ContentUploadRunOutcome.Completed)" and w' = w])
        (use True ld s(2) in \<open>simp_all add: upload_resume_step_def upload_resume_arm_def
           validate_completed_upload_def io_bind_def\<close>)
    ultimately show ?thesis using less.prems(3) True s(1) by blast
  next
    case False
    obtain w' r' where arm: "upload_resume_arm self i g store backend source r w = (Inr None, w')"
      and nx: "inv w'" "live w' i g" "journal w' i = Some r'" "upload_rank r < upload_rank r'"
        "ur_intent r' = ur_intent r" "holding content r' w'"
      using live_arm [OF less.prems(1-3) good less.prems(4,5) assms(6,7) False]
      by (auto simp: moved_on_def)
    have "2 ^ 64 + 5 - upload_rank r' < 2 ^ 64 + 5 - upload_rank r"
      using nx(4) upload_rank_le [of r'] by linarith
    note final = less.hyps [OF this nx(1-3) _ nx(6)]
    have "upload_resume self i g store backend source w = upload_resume self i g store backend source w'"
      unfolding upload_resume_def
      by (rule io_loop_again) (use ld arm in \<open>simp add: upload_resume_step_def io_bind_def\<close>)
    then show ?thesis using final less.prems(4) nx(5) by simp
  qed
qed

end

end
