(* ===== verification/Content_Store.thy ===== *)
theory Content_Store
  imports Store_Base Upload_Laws
begin

text \<open>
  The in-memory content store of the core's contract suite
  (\<open>core/tests/support/content_storage.rs\<close>): the content entries together with the cache-write,
  eviction and upload journals that act on them, behind the three storage ports of \<open>store.rs\<close>.
  An operation that changes an entry and a record changes both in one critical section.
\<close>

section \<open>State\<close>

record MemoryContentStorageStore =
  st_entries :: "(ContentCacheKey \<times> ContentStorageEntry) list"
  st_cache_writes :: "(ContentCacheWriteOperationId \<times> ContentCacheWriteRecord) list"
  st_evictions :: "(ContentEvictionOperationId \<times> ContentEvictionRecord) list"
  st_uploads :: "(OperationId \<times> ContentUploadRecord) list"
  st_active_upload_generations :: "(CloudScope \<times> SessionGeneration) list"
  st_stall_next_upload_session :: bool
  st_stall_next_upload_remote_outcome :: bool
  st_failures :: FailureInjector

definition MemoryContentStorageStore_default :: MemoryContentStorageStore where
  "MemoryContentStorageStore_default =
     \<lparr>st_entries = [], st_cache_writes = [], st_evictions = [], st_uploads = [],
      st_active_upload_generations = [], st_stall_next_upload_session = False,
      st_stall_next_upload_remote_outcome = False, st_failures = {}\<rparr>"

type_synonym 'a content_io = "(MemoryContentStorageStore, 'a) store_io"

definition content_trip :: "FailurePoint \<Rightarrow> unit content_io" where
  "content_trip point s =
     (case FailureInjector_trip point (st_failures s) of
        (res, armed) \<Rightarrow> (res, s\<lparr>st_failures := armed\<rparr>))"

definition content_arm :: "FailurePoint \<Rightarrow> MemoryContentStorageStore \<Rightarrow> MemoryContentStorageStore" where
  "content_arm point s = s\<lparr>st_failures := FailureInjector_arm point (st_failures s)\<rparr>"

definition activate_content_upload_generation ::
  "CloudScope \<Rightarrow> SessionGeneration \<Rightarrow> MemoryContentStorageStore
   \<Rightarrow> StoreWriteStatus \<times> MemoryContentStorageStore" where
  "activate_content_upload_generation scope generation s =
     (let inserted = s\<lparr>st_active_upload_generations :=
            AList.update scope generation (st_active_upload_generations s)\<rparr>
      in
      case map_of (st_active_upload_generations s) scope of
        Some current \<Rightarrow>
          if current > generation then (StoreWriteStatus.Fenced, s)
          else if current = generation then (StoreWriteStatus.AlreadyApplied, s)
          else (StoreWriteStatus.Applied, inserted)
      | None \<Rightarrow> (StoreWriteStatus.Applied, inserted))"

definition stall_next_content_upload_session ::
  "MemoryContentStorageStore \<Rightarrow> MemoryContentStorageStore" where
  "stall_next_content_upload_session s = s\<lparr>st_stall_next_upload_session := True\<rparr>"

definition stall_next_content_upload_remote_outcome ::
  "MemoryContentStorageStore \<Rightarrow> MemoryContentStorageStore" where
  "stall_next_content_upload_remote_outcome s = s\<lparr>st_stall_next_upload_remote_outcome := True\<rparr>"

definition upload_execution_is_active ::
  "MemoryContentStorageStore \<Rightarrow> CloudScope \<Rightarrow> SessionGeneration \<Rightarrow> bool" where
  "upload_execution_is_active s scope generation \<longleftrightarrow>
     map_of (st_active_upload_generations s) scope = Some generation"

section \<open>Statuses\<close>

definition changed_status :: "bool \<Rightarrow> StoreWriteStatus" where
  "changed_status changed = (if changed then StoreWriteStatus.Applied else StoreWriteStatus.AlreadyApplied)"

primrec record_transition_status :: "RecordTransition \<Rightarrow> StoreWriteStatus" where
  "record_transition_status RecordTransition.Applied = StoreWriteStatus.Applied"
| "record_transition_status RecordTransition.AlreadyApplied = StoreWriteStatus.AlreadyApplied"

primrec dirty_transition_status :: "DirtyContentTransition \<Rightarrow> StoreWriteStatus" where
  "dirty_transition_status DirtyContentTransition.Applied = StoreWriteStatus.Applied"
| "dirty_transition_status DirtyContentTransition.AlreadyApplied = StoreWriteStatus.AlreadyApplied"
| "dirty_transition_status DirtyContentTransition.Fenced = StoreWriteStatus.Fenced"

primrec upload_transition_status :: "ContentUploadRecordTransition \<Rightarrow> StoreWriteStatus" where
  "upload_transition_status ContentUploadRecordTransition.Applied = StoreWriteStatus.Applied"
| "upload_transition_status ContentUploadRecordTransition.AlreadyApplied = StoreWriteStatus.AlreadyApplied"
| "upload_transition_status ContentUploadRecordTransition.Fenced = StoreWriteStatus.Fenced"

text \<open>The crash point behind a write that was applied.\<close>

definition content_tripping ::
  "FailurePoint \<Rightarrow> StoreWriteStatus content_io \<Rightarrow> StoreWriteStatus content_io" where
  "content_tripping point write =
     io_bind write (\<lambda>status.
     io_bind (if status = StoreWriteStatus.Applied then content_trip point else io_return ()) (\<lambda>_.
     io_return status))"

text \<open>The crash point behind a write that always trips it.\<close>

definition content_then_trip :: "FailurePoint \<Rightarrow> 'a \<Rightarrow> 'a content_io" where
  "content_then_trip point status =
     io_bind (content_trip point) (\<lambda>_. io_return status)"

definition store_not_found :: "string \<Rightarrow> CloudFilesStoreError" where
  "store_not_found context = CloudFilesStoreError_new CloudFilesStoreErrorKind.NotFound context"

definition store_conflict :: "string \<Rightarrow> CloudFilesStoreError" where
  "store_conflict context = CloudFilesStoreError_new CloudFilesStoreErrorKind.Conflict context"

section \<open>Entries\<close>

text \<open>
  \<open>entry_mut\<close> followed by one entry method: the entry is changed in place, on the error branch
  too.
\<close>

definition on_entry :: "ContentCacheKey \<Rightarrow> 'a entry_io \<Rightarrow> 'a content_io" where
  "on_entry key m s =
     (case map_of (st_entries s) key of
        None \<Rightarrow> (Inl (store_not_found ''content storage entry was not found''), s)
      | Some entry \<Rightarrow>
          (case m entry of
             (res, entry') \<Rightarrow>
               (res_map_err transition_error res,
                s\<lparr>st_entries := AList.update key entry' (st_entries s)\<rparr>)))"

definition create_content_entry :: "ContentStorageEntry \<Rightarrow> StoreWriteStatus content_io" where
  "create_content_entry entry s =
     (case map_of (st_entries s) (entry_key entry) of
        Some existing \<Rightarrow>
          if existing = entry then (Inr StoreWriteStatus.AlreadyApplied, s)
          else (Inl (store_conflict ''content cache key already identifies a different entry''), s)
      | None \<Rightarrow>
          (Inr StoreWriteStatus.Applied,
           s\<lparr>st_entries := AList.update (entry_key entry) entry (st_entries s)\<rparr>))"

definition load_content_entry :: "ContentCacheKey \<Rightarrow> ContentStorageEntry option content_io" where
  "load_content_entry key s = (Inr (map_of (st_entries s) key), s)"

definition record_provider_cached_range ::
  "ContentCacheKey \<Rightarrow> ByteRange \<Rightarrow> StoreWriteStatus content_io" where
  "record_provider_cached_range key r =
     io_bind (on_entry key (record_provider_range r)) (\<lambda>changed. io_return (changed_status changed))"

definition observe_content_materialization ::
  "ContentCacheKey \<Rightarrow> PlatformMaterializationState \<Rightarrow> StoreWriteStatus content_io" where
  "observe_content_materialization key materialization =
     io_bind (on_entry key (observe_platform_materialization materialization))
       (\<lambda>changed. io_return (changed_status changed))"

definition set_content_pinned :: "ContentCacheKey \<Rightarrow> bool \<Rightarrow> StoreWriteStatus content_io" where
  "set_content_pinned key p =
     io_bind (on_entry key (set_pinned p)) (\<lambda>changed. io_return (changed_status changed))"

definition mark_content_dirty ::
  "ContentCacheKey \<Rightarrow> LocalContentSnapshot \<Rightarrow> StoreWriteStatus content_io" where
  "mark_content_dirty key snapshot =
     io_bind (on_entry key (mark_dirty snapshot)) (\<lambda>t. io_return (dirty_transition_status t))"

definition clear_content_dirty ::
  "ContentCacheKey \<Rightarrow> LocalContentGeneration \<Rightarrow> StoreWriteStatus content_io" where
  "clear_content_dirty key generation =
     io_bind (on_entry key (clear_dirty generation)) (\<lambda>t. io_return (dirty_transition_status t))"

definition acquire_content_lease ::
  "ContentCacheKey \<Rightarrow> ContentLeaseId \<Rightarrow> ContentLeaseKind \<Rightarrow> StoreWriteStatus content_io" where
  "acquire_content_lease key lease_id kind =
     io_bind (on_entry key (acquire_lease lease_id kind)) (\<lambda>changed. io_return (changed_status changed))"

definition release_content_lease :: "ContentCacheKey \<Rightarrow> ContentLeaseId \<Rightarrow> StoreWriteStatus content_io" where
  "release_content_lease key lease_id =
     io_bind (on_entry key (release_lease lease_id)) (\<lambda>changed. io_return (changed_status changed))"

section \<open>Evictions\<close>

datatype ContentEvictionBegin =
    Persisted ContentEvictionPlan
  | AlreadyPersisted ContentEvictionPlan
  | BeginBlocked "ContentEvictionBlocker list"

definition begin_content_eviction :: "ContentEvictionIntent \<Rightarrow> ContentEvictionBegin content_io" where
  "begin_content_eviction intent s =
     (case map_of (st_evictions s) (ev_operation_id intent) of
        Some existing \<Rightarrow>
          if ev_intent existing = intent then (Inr (AlreadyPersisted (ev_plan existing)), s)
          else (Inl (store_conflict
                  ''content eviction operation id already identifies another intent''), s)
      | None \<Rightarrow>
          io_bind (on_entry (ev_cache_key intent) (reserve_eviction (ev_target intent)))
            (\<lambda>decision s.
               case decision of
                 Blocked blockers \<Rightarrow> (Inr (BeginBlocked blockers), s)
               | Reserved plan \<Rightarrow>
                   content_then_trip AfterContentEvictionIntentPersistBeforeReturn (Persisted plan)
                     (s\<lparr>st_evictions :=
                          AList.update (ev_operation_id intent) (ContentEvictionRecord_persist intent plan)
                            (st_evictions s)\<rparr>)) s)"

definition load_content_eviction ::
  "ContentEvictionOperationId \<Rightarrow> ContentEvictionRecord option content_io" where
  "load_content_eviction operation_id s = (Inr (map_of (st_evictions s) operation_id), s)"

definition eviction_operation_str :: "ContentEvictionRecord \<Rightarrow> string" where
  "eviction_operation_str r = eviction_id_str (ev_operation_id (ev_intent r))"

definition recoverable_content_evictions_page ::
  "CloudScope \<Rightarrow> string option \<Rightarrow> usize \<Rightarrow> ContentEvictionRecord RecoveryPage content_io" where
  "recoverable_content_evictions_page scope after limit s =
     (Inr (recovery_page eviction_operation_str
             (\<lambda>r. key_scope (cache_item_key (ev_cache_key (ev_intent r))) = scope
                \<and> ev_state r \<noteq> ContentEvictionState.Completed)
             (map snd (st_evictions s)) after limit), s)"

definition collect_eviction_backlog ::
  "CloudScope \<Rightarrow> MemoryContentStorageStore
   \<Rightarrow> ((CloudFilesStoreError + ContentEvictionRecord list) \<times> MemoryContentStorageStore) option" where
  "collect_eviction_backlog scope =
     collect_pages (\<lambda>after. recoverable_content_evictions_page scope after TEST_RECOVERY_PAGE_SIZE)
       eviction_operation_str ''eviction recovery page cannot continue without a cursor'' [] None"

definition record_content_eviction_effect ::
  "ContentEvictionOperationId \<Rightarrow> ContentEvictionPhysicalEffect \<Rightarrow> StoreWriteStatus content_io" where
  "record_content_eviction_effect operation_id effect =
     content_tripping AfterContentEvictionEffectPersistBeforeReturn (\<lambda>s.
       case map_of (st_evictions s) operation_id of
         None \<Rightarrow> (Inl (store_not_found ''content eviction operation was not found''), s)
       | Some record \<Rightarrow>
           (case record_physical_effect effect record of
              (res, record') \<Rightarrow>
                (case res of
                   Inl e \<Rightarrow> Inl (transition_error e)
                 | Inr t \<Rightarrow> Inr (record_transition_status t),
                 s\<lparr>st_evictions := AList.update operation_id record' (st_evictions s)\<rparr>)))"

text \<open>
  Reconciling and completing work on copies of the entry and of the record; both are stored only
  when both transitions succeeded.
\<close>

definition reconcile_content_eviction_metadata ::
  "ContentEvictionOperationId \<Rightarrow> StoreWriteStatus content_io" where
  "reconcile_content_eviction_metadata operation_id =
     content_tripping AfterContentEvictionMetadataPersistBeforeReturn (\<lambda>s.
       case map_of (st_evictions s) operation_id of
         None \<Rightarrow> (Inl (store_not_found ''content eviction operation was not found''), s)
       | Some record \<Rightarrow>
           if ev_state record = ContentEvictionState.MetadataReconciled
             \<or> ev_state record = ContentEvictionState.Completed
           then (Inr StoreWriteStatus.AlreadyApplied, s)
           else
             (let cache_key = ev_cache_key (ev_intent record) in
              case map_of (st_entries s) cache_key of
                None \<Rightarrow> (Inl (store_not_found ''content storage entry for eviction was not found''), s)
              | Some entry \<Rightarrow>
                  (case reconcile_eviction (ev_plan record) entry of
                     (Inl e, _) \<Rightarrow> (Inl (transition_error e), s)
                   | (Inr _, next_entry) \<Rightarrow>
                       (case mark_metadata_reconciled record of
                          (Inl e, _) \<Rightarrow> (Inl (transition_error e), s)
                        | (Inr t, next_record) \<Rightarrow>
                            (Inr (record_transition_status t),
                             s\<lparr>st_entries := AList.update cache_key next_entry (st_entries s),
                               st_evictions :=
                                 AList.update operation_id next_record (st_evictions s)\<rparr>)))))"

definition complete_content_eviction :: "ContentEvictionOperationId \<Rightarrow> StoreWriteStatus content_io" where
  "complete_content_eviction operation_id =
     content_tripping AfterContentEvictionCompletionPersistBeforeReturn (\<lambda>s.
       case map_of (st_evictions s) operation_id of
         None \<Rightarrow> (Inl (store_not_found ''content eviction operation was not found''), s)
       | Some record \<Rightarrow>
           if ev_state record = ContentEvictionState.Completed
           then (Inr StoreWriteStatus.AlreadyApplied, s)
           else
             (let cache_key = ev_cache_key (ev_intent record) in
              case map_of (st_entries s) cache_key of
                None \<Rightarrow> (Inl (store_not_found ''content storage entry for eviction was not found''), s)
              | Some entry \<Rightarrow>
                  (case ContentEvictionRecord_complete record of
                     (Inl e, _) \<Rightarrow> (Inl (transition_error e), s)
                   | (Inr t, next_record) \<Rightarrow>
                       (case complete_eviction entry of
                          (Inl e, _) \<Rightarrow> (Inl (transition_error e), s)
                        | (Inr _, next_entry) \<Rightarrow>
                            (Inr (record_transition_status t),
                             s\<lparr>st_entries := AList.update cache_key next_entry (st_entries s),
                               st_evictions :=
                                 AList.update operation_id next_record (st_evictions s)\<rparr>)))))"

section \<open>Cache writes\<close>

definition begin_content_cache_write :: "ContentCacheWriteIntent \<Rightarrow> StoreWriteStatus content_io" where
  "begin_content_cache_write intent s =
     (case map_of (st_cache_writes s) (cw_operation_id intent) of
        Some existing \<Rightarrow>
          if cw_intent existing = intent then (Inr StoreWriteStatus.AlreadyApplied, s)
          else (Inl (store_conflict
                  ''content cache write operation id already identifies another intent''), s)
      | None \<Rightarrow>
          (case map_of (st_entries s) (cw_cache_key intent) of
             None \<Rightarrow> (Inl (store_not_found ''content storage entry was not found''), s)
           | Some entry \<Rightarrow>
               if entry_total_size entry \<noteq> cw_expected_size intent
               then (Inl (store_conflict
                       ''content cache write size does not match the target entry''), s)
               else
                 io_bind (on_entry (cw_cache_key intent) begin_cache_write) (\<lambda>_ s.
                   content_then_trip AfterContentCacheWriteIntentPersistBeforeReturn
                     StoreWriteStatus.Applied
                     (s\<lparr>st_cache_writes :=
                          AList.update (cw_operation_id intent) (ContentCacheWriteRecord_persist intent)
                            (st_cache_writes s)\<rparr>)) s))"

definition load_content_cache_write ::
  "ContentCacheWriteOperationId \<Rightarrow> ContentCacheWriteRecord option content_io" where
  "load_content_cache_write operation_id s = (Inr (map_of (st_cache_writes s) operation_id), s)"

definition cache_write_operation_str :: "ContentCacheWriteRecord \<Rightarrow> string" where
  "cache_write_operation_str r = cache_write_id_str (cw_operation_id (cw_intent r))"

definition recoverable_content_cache_writes_page ::
  "CloudScope \<Rightarrow> string option \<Rightarrow> usize \<Rightarrow> ContentCacheWriteRecord RecoveryPage content_io" where
  "recoverable_content_cache_writes_page scope after limit s =
     (Inr (recovery_page cache_write_operation_str
             (\<lambda>r. key_scope (cache_item_key (cw_cache_key (cw_intent r))) = scope
                \<and> cw_state r \<noteq> ContentCacheWriteState.Completed)
             (map snd (st_cache_writes s)) after limit), s)"

definition collect_cache_write_backlog ::
  "CloudScope \<Rightarrow> MemoryContentStorageStore
   \<Rightarrow> ((CloudFilesStoreError + ContentCacheWriteRecord list) \<times> MemoryContentStorageStore) option" where
  "collect_cache_write_backlog scope =
     collect_pages (\<lambda>after. recoverable_content_cache_writes_page scope after TEST_RECOVERY_PAGE_SIZE)
       cache_write_operation_str ''cache-write recovery page cannot continue without a cursor'' [] None"

definition record_content_cache_write_physical_commit ::
  "ContentCacheWriteOperationId \<Rightarrow> StoreWriteStatus content_io" where
  "record_content_cache_write_physical_commit operation_id =
     content_tripping AfterContentCacheWritePhysicalPersistBeforeReturn (\<lambda>s.
       case map_of (st_cache_writes s) operation_id of
         None \<Rightarrow> (Inl (store_not_found ''content cache write operation was not found''), s)
       | Some record \<Rightarrow>
           (case mark_physical_bytes_committed record of
              (res, record') \<Rightarrow>
                (case res of
                   Inl e \<Rightarrow> Inl (transition_error e)
                 | Inr t \<Rightarrow> Inr (record_transition_status t),
                 s\<lparr>st_cache_writes := AList.update operation_id record' (st_cache_writes s)\<rparr>)))"

text \<open>The coverage that a cache write adds to its entry.\<close>

definition record_cache_write_extent :: "ContentCacheWriteIntent \<Rightarrow> unit entry_io" where
  "record_cache_write_extent intent =
     (case cw_extent intent of
        ContentCacheWriteExtent.Whole \<Rightarrow>
          if cw_expected_size intent = 0 then io_return ()
          else io_bind (io_lift (ByteRange_new 0 (cw_expected_size intent))) (\<lambda>whole.
               io_bind (record_provider_range whole) (\<lambda>_. io_return ()))
      | ContentCacheWriteExtent.Range r \<Rightarrow>
          io_bind (record_provider_range r) (\<lambda>_. io_return ()))"

definition reconcile_content_cache_write_coverage ::
  "ContentCacheWriteOperationId \<Rightarrow> StoreWriteStatus content_io" where
  "reconcile_content_cache_write_coverage operation_id s =
     (case map_of (st_cache_writes s) operation_id of
        None \<Rightarrow> (Inl (store_not_found ''content cache write operation was not found''), s)
      | Some record \<Rightarrow>
          if cw_state record = CoverageCommitted \<or> cw_state record = ContentCacheWriteState.Completed
          then (Inr StoreWriteStatus.AlreadyApplied, s)
          else
            (let cache_key = cw_cache_key (cw_intent record) in
             case map_of (st_entries s) cache_key of
               None \<Rightarrow> (Inl (store_not_found ''content entry for cache write was not found''), s)
             | Some entry \<Rightarrow>
                 (case mark_coverage_committed record of
                    (Inl e, _) \<Rightarrow> (Inl (transition_error e), s)
                  | (Inr _, next_record) \<Rightarrow>
                      (case record_cache_write_extent (cw_intent next_record) entry of
                         (Inl e, _) \<Rightarrow> (Inl (transition_error e), s)
                       | (Inr _, next_entry) \<Rightarrow>
                           content_then_trip AfterContentCacheWriteCoveragePersistBeforeReturn
                             StoreWriteStatus.Applied
                             (s\<lparr>st_entries := AList.update cache_key next_entry (st_entries s),
                                st_cache_writes :=
                                  AList.update operation_id next_record (st_cache_writes s)\<rparr>)))))"

definition complete_content_cache_write ::
  "ContentCacheWriteOperationId \<Rightarrow> StoreWriteStatus content_io" where
  "complete_content_cache_write operation_id s =
     (case map_of (st_cache_writes s) operation_id of
        None \<Rightarrow> (Inl (store_not_found ''content cache write operation was not found''), s)
      | Some record \<Rightarrow>
          if cw_state record = ContentCacheWriteState.Completed
          then (Inr StoreWriteStatus.AlreadyApplied, s)
          else
            (let cache_key = cw_cache_key (cw_intent record) in
             case map_of (st_entries s) cache_key of
               None \<Rightarrow> (Inl (store_not_found ''content entry for cache write was not found''), s)
             | Some entry \<Rightarrow>
                 (case ContentCacheWriteRecord_complete record of
                    (Inl e, _) \<Rightarrow> (Inl (transition_error e), s)
                  | (Inr _, next_record) \<Rightarrow>
                      (case complete_cache_write entry of
                         (Inl e, _) \<Rightarrow> (Inl (transition_error e), s)
                       | (Inr _, next_entry) \<Rightarrow>
                           content_then_trip AfterContentCacheWriteCompletionPersistBeforeReturn
                             StoreWriteStatus.Applied
                             (s\<lparr>st_entries := AList.update cache_key next_entry (st_entries s),
                                st_cache_writes :=
                                  AList.update operation_id next_record (st_cache_writes s)\<rparr>)))))"

section \<open>Uploads\<close>

definition upload_scope :: "ContentUploadIntent \<Rightarrow> CloudScope" where
  "upload_scope intent = key_scope (cache_item_key (ui_base_cache_key intent))"

definition persist_content_upload_intent ::
  "ContentUploadIntent \<Rightarrow> SessionGeneration \<Rightarrow> StoreWriteStatus content_io" where
  "persist_content_upload_intent intent execution_generation s =
     (if ui_session_generation intent \<noteq> execution_generation
        \<or> \<not> upload_execution_is_active s (upload_scope intent) execution_generation
      then (Inr StoreWriteStatus.Fenced, s)
      else
        case map_of (st_uploads s) (ui_operation_id intent) of
          Some existing \<Rightarrow>
            if ur_intent existing = intent then (Inr StoreWriteStatus.AlreadyApplied, s)
            else (Inl (store_conflict
                    ''content upload operation id already identifies another intent''), s)
        | None \<Rightarrow>
            if \<exists>record \<in> snd ` set (st_uploads s).
                 ui_idempotency_key (ur_intent record) = ui_idempotency_key intent
                 \<or> ui_upload_lease_id (ur_intent record) = ui_upload_lease_id intent
            then (Inl (store_conflict
                    ''content upload idempotency or lease identity is already in use''), s)
            else
              (case map_of (st_entries s) (ui_base_cache_key intent) of
                 None \<Rightarrow> (Inl (store_not_found ''content storage entry was not found''), s)
               | Some entry \<Rightarrow>
                   (case dirty_snapshot entry of
                      None \<Rightarrow> (Inl (CloudFilesStoreError_new InvalidTransition
                                ''content upload requires an active dirty snapshot''), s)
                    | Some dirty \<Rightarrow>
                        if snap_generation dirty > snap_generation (ui_snapshot intent)
                        then (Inr StoreWriteStatus.Fenced, s)
                        else if dirty \<noteq> ui_snapshot intent
                        then (Inl (store_conflict
                                ''content upload snapshot does not match active dirty state''), s)
                        else
                          io_bind (on_entry (ui_base_cache_key intent)
                            (acquire_lease (ui_upload_lease_id intent) Upload)) (\<lambda>_ s.
                          content_then_trip AfterContentUploadIntentPersistBeforeReturn
                            StoreWriteStatus.Applied
                            (s\<lparr>st_uploads :=
                                 AList.update (ui_operation_id intent)
                                   (ContentUploadRecord_persist intent) (st_uploads s)\<rparr>)) s)))"

definition load_content_upload :: "OperationId \<Rightarrow> ContentUploadRecord option content_io" where
  "load_content_upload operation_id s = (Inr (map_of (st_uploads s) operation_id), s)"

definition upload_operation_str :: "ContentUploadRecord \<Rightarrow> string" where
  "upload_operation_str r = operation_id_str (ui_operation_id (ur_intent r))"

definition recoverable_content_uploads_page ::
  "CloudScope \<Rightarrow> string option \<Rightarrow> usize \<Rightarrow> ContentUploadRecord RecoveryPage content_io" where
  "recoverable_content_uploads_page scope after limit s =
     (Inr (recovery_page upload_operation_str
             (\<lambda>r. upload_scope (ur_intent r) = scope \<and> ur_state r \<noteq> ContentUploadState.Completed)
             (map snd (st_uploads s)) after limit), s)"

definition collect_upload_backlog ::
  "CloudScope \<Rightarrow> MemoryContentStorageStore
   \<Rightarrow> ((CloudFilesStoreError + ContentUploadRecord list) \<times> MemoryContentStorageStore) option" where
  "collect_upload_backlog scope =
     collect_pages (\<lambda>after. recoverable_content_uploads_page scope after TEST_RECOVERY_PAGE_SIZE)
       upload_operation_str ''upload recovery page cannot continue without a cursor'' [] None"

text \<open>
  Every upload write first looks the record up and checks that the executor generation is the
  active one of the record's scope.
\<close>

definition fenced_upload ::
  "OperationId \<Rightarrow> SessionGeneration \<Rightarrow> (ContentUploadRecord \<Rightarrow> StoreWriteStatus content_io)
   \<Rightarrow> StoreWriteStatus content_io" where
  "fenced_upload operation_id execution_generation write s =
     (case map_of (st_uploads s) operation_id of
        None \<Rightarrow> (Inl (store_not_found ''content upload operation was not found''), s)
      | Some record \<Rightarrow>
          if \<not> upload_execution_is_active s (upload_scope (ur_intent record)) execution_generation
          then (Inr StoreWriteStatus.Fenced, s)
          else write record s)"

text \<open>A transition of the record in place.\<close>

definition upload_transition_in_place ::
  "OperationId \<Rightarrow> upload_op \<Rightarrow> ContentUploadRecord \<Rightarrow> StoreWriteStatus content_io" where
  "upload_transition_in_place operation_id uop record s =
     (case upload_transition uop record of
        (res, record') \<Rightarrow>
          (case res of
             Inl e \<Rightarrow> Inl (transition_error e)
           | Inr t \<Rightarrow> Inr (upload_transition_status t),
           s\<lparr>st_uploads := AList.update operation_id record' (st_uploads s)\<rparr>))"

definition record_content_upload_session ::
  "OperationId \<Rightarrow> ContentUploadSession \<Rightarrow> SessionGeneration \<Rightarrow> StoreWriteStatus content_io" where
  "record_content_upload_session operation_id session execution_generation =
     fenced_upload operation_id execution_generation (\<lambda>record s.
       if st_stall_next_upload_session s
       then (Inr StoreWriteStatus.AlreadyApplied, s\<lparr>st_stall_next_upload_session := False\<rparr>)
       else content_tripping AfterContentUploadCheckpointPersistBeforeReturn
              (upload_transition_in_place operation_id (RecordSession session) record) s)"

definition begin_content_upload_remote_commit ::
  "OperationId \<Rightarrow> SessionGeneration \<Rightarrow> StoreWriteStatus content_io" where
  "begin_content_upload_remote_commit operation_id execution_generation =
     fenced_upload operation_id execution_generation (\<lambda>record.
       content_tripping AfterContentUploadRemoteCommitPersistBeforeReturn
         (upload_transition_in_place operation_id BeginRemoteCommit record))"

definition record_content_upload_remote_outcome ::
  "OperationId \<Rightarrow> MutationRemoteOutcome \<Rightarrow> SessionGeneration \<Rightarrow> StoreWriteStatus content_io" where
  "record_content_upload_remote_outcome operation_id outcome execution_generation =
     fenced_upload operation_id execution_generation (\<lambda>record s.
       if st_stall_next_upload_remote_outcome s
       then (Inr StoreWriteStatus.Applied, s\<lparr>st_stall_next_upload_remote_outcome := False\<rparr>)
       else content_tripping AfterContentUploadOutcomePersistBeforeReturn
              (upload_transition_in_place operation_id (RecordUploadOutcome outcome) record) s)"

text \<open>What a known outcome does to the dirty state of the entry.\<close>

definition settle_dirty ::
  "ContentUploadRecord \<Rightarrow> (ContentStorageEntry, CloudFilesStoreError, StoreWriteStatus) io" where
  "settle_dirty record entry =
     (let clear = io_bind (io_try transition_error
            (clear_dirty (snap_generation (ui_snapshot (ur_intent record)))))
            (\<lambda>t. io_return (dirty_transition_status t)) entry
      in
      case ur_remote_outcome record of
        Some (Committed _) \<Rightarrow> clear
      | Some (AlreadyCommitted _) \<Rightarrow> clear
      | Some (MutationRemoteOutcome.PreconditionFailed _ _) \<Rightarrow> (Inr StoreWriteStatus.Applied, entry)
      | Some MutationRemoteOutcome.RemoteOutcomeUnknown \<Rightarrow>
          (Inl (CloudFilesStoreError_new InvalidTransition
             ''content upload metadata requires a known remote outcome''), entry)
      | None \<Rightarrow>
          (Inl (CloudFilesStoreError_new InvalidTransition
             ''content upload metadata requires a known remote outcome''), entry))"

definition reconcile_content_upload_metadata ::
  "OperationId \<Rightarrow> SessionGeneration \<Rightarrow> StoreWriteStatus content_io" where
  "reconcile_content_upload_metadata operation_id execution_generation =
     fenced_upload operation_id execution_generation (\<lambda>record s.
       if ur_state record = ContentUploadState.MetadataReconciled
         \<or> ur_state record = ContentUploadState.Completed
       then (Inr StoreWriteStatus.AlreadyApplied, s)
       else
         (let cache_key = ui_base_cache_key (ur_intent record) in
          case map_of (st_entries s) cache_key of
            None \<Rightarrow> (Inl (store_not_found ''content entry for upload was not found''), s)
          | Some entry \<Rightarrow>
              (case upload_mark_metadata_reconciled record of
                 (Inl e, _) \<Rightarrow> (Inl (transition_error e), s)
               | (Inr _, next_record) \<Rightarrow>
                   (case settle_dirty next_record entry of
                      (Inl e, _) \<Rightarrow> (Inl e, s)
                    | (Inr status, next_entry) \<Rightarrow>
                        content_then_trip AfterContentUploadMetadataPersistBeforeReturn status
                          (s\<lparr>st_entries := AList.update cache_key next_entry (st_entries s),
                             st_uploads := AList.update operation_id next_record (st_uploads s)\<rparr>)))))"

definition complete_content_upload ::
  "OperationId \<Rightarrow> SessionGeneration \<Rightarrow> StoreWriteStatus content_io" where
  "complete_content_upload operation_id execution_generation =
     fenced_upload operation_id execution_generation (\<lambda>record s.
       if ur_state record = ContentUploadState.Completed
       then (Inr StoreWriteStatus.AlreadyApplied, s)
       else
         (let cache_key = ui_base_cache_key (ur_intent record) in
          case map_of (st_entries s) cache_key of
            None \<Rightarrow> (Inl (store_not_found ''content entry for upload was not found''), s)
          | Some entry \<Rightarrow>
              (case ContentUploadRecord_complete record of
                 (Inl e, _) \<Rightarrow> (Inl (transition_error e), s)
               | (Inr _, next_record) \<Rightarrow>
                   (case release_lease (ui_upload_lease_id (ur_intent record)) entry of
                      (Inl e, _) \<Rightarrow> (Inl (transition_error e), s)
                    | (Inr _, next_entry) \<Rightarrow>
                        content_then_trip AfterContentUploadCompletionPersistBeforeReturn
                          StoreWriteStatus.Applied
                          (s\<lparr>st_entries := AList.update cache_key next_entry (st_entries s),
                             st_uploads := AList.update operation_id next_record (st_uploads s)\<rparr>)))))"

section \<open>The upload port\<close>

text \<open>
  The world of an upload run is the store together with whatever the backend and the snapshot
  reader act on.
\<close>

type_synonym 'b content_world = "MemoryContentStorageStore \<times> 'b"

definition on_content :: "'a content_io \<Rightarrow> ('b content_world, 'a) store_io" where
  "on_content m w = (case m (fst w) of (res, s) \<Rightarrow> (res, (s, snd w)))"

definition memory_upload_store :: "'b content_world ContentUploadStore" where
  "memory_upload_store =
     \<lparr>cu_persist_content_upload_intent =
        (\<lambda>intent generation. on_content (persist_content_upload_intent intent generation)),
      cu_load_content_upload = (\<lambda>operation_id. on_content (load_content_upload operation_id)),
      cu_recoverable_content_uploads_page =
        (\<lambda>scope after limit. on_content (recoverable_content_uploads_page scope after limit)),
      cu_record_content_upload_session =
        (\<lambda>operation_id session generation.
           on_content (record_content_upload_session operation_id session generation)),
      cu_begin_content_upload_remote_commit =
        (\<lambda>operation_id generation. on_content (begin_content_upload_remote_commit operation_id generation)),
      cu_record_content_upload_remote_outcome =
        (\<lambda>operation_id outcome generation.
           on_content (record_content_upload_remote_outcome operation_id outcome generation)),
      cu_reconcile_content_upload_metadata =
        (\<lambda>operation_id generation. on_content (reconcile_content_upload_metadata operation_id generation)),
      cu_complete_content_upload =
        (\<lambda>operation_id generation. on_content (complete_content_upload operation_id generation))\<rparr>"

end
