(* ===== verification/Content_Protocol.thy ===== *)
theory Content_Protocol
  imports Content_Store
begin

text \<open>
  The protocol that every content store follows, as an abstract specification: the state is four
  finite maps (entries and the three journals), a step changes an entry, a record, or an entry
  together with the record that reserved it. The invariant ties the two sides together: the
  cache-write counter of an entry counts its unfinished cache writes, an entry is reserved exactly
  while one eviction of it is unfinished, and an unfinished upload holds its lease.
\<close>

section \<open>Abstract state\<close>

record content_state =
  a_entries :: "ContentCacheKey \<rightharpoonup> ContentStorageEntry"
  a_writes :: "ContentCacheWriteOperationId \<rightharpoonup> ContentCacheWriteRecord"
  a_evictions :: "ContentEvictionOperationId \<rightharpoonup> ContentEvictionRecord"
  a_uploads :: "OperationId \<rightharpoonup> ContentUploadRecord"

definition extent_wf :: "ContentCacheWriteIntent \<Rightarrow> bool" where
  "extent_wf intent \<longleftrightarrow> (\<forall>r. cw_extent intent = ContentCacheWriteExtent.Range r \<longrightarrow> range_wf r)"

definition open_write :: "ContentCacheKey \<Rightarrow> ContentCacheWriteRecord \<Rightarrow> bool" where
  "open_write key r \<longleftrightarrow> cw_cache_key (cw_intent r) = key \<and> cw_state r \<noteq> ContentCacheWriteState.Completed"

definition open_eviction :: "ContentCacheKey \<Rightarrow> ContentEvictionRecord \<Rightarrow> bool" where
  "open_eviction key r \<longleftrightarrow> ev_cache_key (ev_intent r) = key \<and> ev_state r \<noteq> ContentEvictionState.Completed"

definition open_upload :: "ContentCacheKey \<Rightarrow> ContentUploadRecord \<Rightarrow> bool" where
  "open_upload key r \<longleftrightarrow> ui_base_cache_key (ur_intent r) = key \<and> ur_state r \<noteq> ContentUploadState.Completed"

text \<open>The operations of a journal whose records satisfy \<open>P\<close>.\<close>

definition having :: "('k \<rightharpoonup> 'r) \<Rightarrow> ('r \<Rightarrow> bool) \<Rightarrow> 'k set" where
  "having m P = {k. \<exists>r. m k = Some r \<and> P r}"

lemma having_upd [simp]: "having (m(k \<mapsto> r)) P = (if P r then insert k (having m P) else having m P - {k})"
  by (auto simp: having_def)

lemma having_finite: "finite (dom m) \<Longrightarrow> finite (having m P)"
  by (rule finite_subset [of _ "dom m"]) (auto simp: having_def)

lemma having_found: "m k = Some r \<Longrightarrow> k \<in> having m P \<longleftrightarrow> P r"
  by (simp add: having_def)

lemma having_fresh: "m k = None \<Longrightarrow> k \<notin> having m P"
  by (simp add: having_def)

definition lease_in_use :: "content_state \<Rightarrow> ContentCacheKey \<Rightarrow> ContentLeaseId \<Rightarrow> bool" where
  "lease_in_use a key lease_id \<longleftrightarrow>
     having (a_uploads a) (\<lambda>r. open_upload key r \<and> ui_upload_lease_id (ur_intent r) = lease_id) \<noteq> {}"

section \<open>Steps\<close>

text \<open>The entry methods that neither count cache writes nor reserve.\<close>

fun entry_local :: "entry_op \<Rightarrow> bool" where
  "entry_local BeginCacheWrite = False"
| "entry_local CompleteCacheWrite = False"
| "entry_local (ReserveEviction target) = False"
| "entry_local (ReconcileEviction plan) = False"
| "entry_local CompleteEviction = False"
| "entry_local eop = True"

definition set_entry :: "ContentCacheKey \<Rightarrow> ContentStorageEntry \<Rightarrow> content_state \<Rightarrow> content_state" where
  "set_entry key e a = a\<lparr>a_entries := (a_entries a)(key \<mapsto> e)\<rparr>"

definition set_write ::
  "ContentCacheWriteOperationId \<Rightarrow> ContentCacheWriteRecord \<Rightarrow> content_state \<Rightarrow> content_state" where
  "set_write i r a = a\<lparr>a_writes := (a_writes a)(i \<mapsto> r)\<rparr>"

definition set_eviction ::
  "ContentEvictionOperationId \<Rightarrow> ContentEvictionRecord \<Rightarrow> content_state \<Rightarrow> content_state" where
  "set_eviction i r a = a\<lparr>a_evictions := (a_evictions a)(i \<mapsto> r)\<rparr>"

definition set_upload :: "OperationId \<Rightarrow> ContentUploadRecord \<Rightarrow> content_state \<Rightarrow> content_state" where
  "set_upload i r a = a\<lparr>a_uploads := (a_uploads a)(i \<mapsto> r)\<rparr>"

lemmas content_sets = set_entry_def set_write_def set_eviction_def set_upload_def

inductive content_step :: "content_state \<Rightarrow> content_state \<Rightarrow> bool" where
  stutter: "content_step a a"
| created: "content_step a (set_entry (entry_key e) e a)"
    if "a_entries a (entry_key e) = None" "entry_inv e" "active_cache_writes e = 0" "\<not> eviction_reserved e"
| entry_called: "content_step a (set_entry key e' a)"
    if "a_entries a key = Some e" "entry_local eop" "op_wf eop" "entry_apply eop e = (res, e')"
      "\<forall>lease_id. eop = ReleaseLease lease_id \<longrightarrow> \<not> lease_in_use a key lease_id"
| write_begun:
    "content_step a (set_write (cw_operation_id intent) (ContentCacheWriteRecord_persist intent)
       (set_entry (cw_cache_key intent) e' a))"
    if "a_writes a (cw_operation_id intent) = None" "a_entries a (cw_cache_key intent) = Some e"
      "begin_cache_write e = (Inr (), e')" "extent_wf intent"
| write_moved: "content_step a (set_write i (snd (cache_write_apply cop r)) a)"
    if "a_writes a i = Some r" "cop \<noteq> CompleteCacheWriteRecord"
| write_covered: "content_step a (set_write i (snd (cache_write_apply cop r)) (set_entry key e' a))"
    if "a_writes a i = Some r" "cop \<noteq> CompleteCacheWriteRecord" "a_entries a key = Some e"
      "range_wf rg" "record_provider_range rg e = (res, e')"
| write_completed:
    "content_step a (set_write i r' (set_entry (cw_cache_key (cw_intent r)) e' a))"
    if "a_writes a i = Some r" "cw_state r \<noteq> ContentCacheWriteState.Completed"
      "ContentCacheWriteRecord_complete r = (Inr t, r')"
      "a_entries a (cw_cache_key (cw_intent r)) = Some e" "complete_cache_write e = (Inr (), e')"
| eviction_begun:
    "content_step a (set_eviction (ev_operation_id intent) (ContentEvictionRecord_persist intent plan)
       (set_entry (ev_cache_key intent) e' a))"
    if "a_evictions a (ev_operation_id intent) = None" "a_entries a (ev_cache_key intent) = Some e"
      "reserve_eviction (ev_target intent) e = (Inr (Reserved plan), e')"
| eviction_moved: "content_step a (set_eviction i (snd (eviction_apply vop r)) a)"
    if "a_evictions a i = Some r" "vop \<noteq> CompleteEvictionRecord"
| eviction_reconciled:
    "content_step a (set_eviction i (snd (eviction_apply vop r)) (set_entry (ev_cache_key (ev_intent r)) e' a))"
    if "a_evictions a i = Some r" "vop \<noteq> CompleteEvictionRecord"
      "a_entries a (ev_cache_key (ev_intent r)) = Some e" "reconcile_eviction (ev_plan r) e = (Inr (), e')"
| eviction_completed:
    "content_step a (set_eviction i r' (set_entry (ev_cache_key (ev_intent r)) e' a))"
    if "a_evictions a i = Some r" "ev_state r \<noteq> ContentEvictionState.Completed"
      "ContentEvictionRecord_complete r = (Inr t, r')"
      "a_entries a (ev_cache_key (ev_intent r)) = Some e" "complete_eviction e = (Inr (), e')"
| upload_persisted:
    "content_step a (set_upload (ui_operation_id intent) (ContentUploadRecord_persist intent)
       (set_entry (ui_base_cache_key intent) e' a))"
    if "a_uploads a (ui_operation_id intent) = None"
      "having (a_uploads a) (\<lambda>r. ui_idempotency_key (ur_intent r) = ui_idempotency_key intent
         \<or> ui_upload_lease_id (ur_intent r) = ui_upload_lease_id intent) = {}"
      "a_entries a (ui_base_cache_key intent) = Some e"
      "acquire_lease (ui_upload_lease_id intent) Upload e = (Inr changed, e')"
| upload_moved: "content_step a (set_upload i (snd (upload_transition uop r)) a)"
    if "a_uploads a i = Some r" "uop \<noteq> CompleteUpload"
| upload_reconciled:
    "content_step a (set_upload i (snd (upload_transition uop r)) (set_entry (ui_base_cache_key (ur_intent r)) e' a))"
    if "a_uploads a i = Some r" "uop \<noteq> CompleteUpload"
      "a_entries a (ui_base_cache_key (ur_intent r)) = Some e"
      "clear_dirty (snap_generation (ui_snapshot (ur_intent r))) e = (res, e')"
| upload_completed:
    "content_step a (set_upload i r' (set_entry (ui_base_cache_key (ur_intent r)) e' a))"
    if "a_uploads a i = Some r" "ContentUploadRecord_complete r = (Inr t, r')"
      "ur_state r \<noteq> ContentUploadState.Completed"
      "a_entries a (ui_base_cache_key (ur_intent r)) = Some e"
      "release_lease (ui_upload_lease_id (ur_intent r)) e = (Inr changed, e')"

section \<open>What the entry methods touch\<close>

named_theorems entry_frames \<open>fields that an entry method leaves alone\<close>

lemma record_provider_range_frame [entry_frames]:
  "active_cache_writes (snd (record_provider_range r e)) = active_cache_writes e"
  "eviction_reserved (snd (record_provider_range r e)) = eviction_reserved e"
  "leases (snd (record_provider_range r e)) = leases e"
  by (simp_all add: record_provider_range_def Let_def split: option.split prod.split sum.split)

lemma observe_platform_materialization_frame [entry_frames]:
  "active_cache_writes (snd (observe_platform_materialization st e)) = active_cache_writes e"
  "eviction_reserved (snd (observe_platform_materialization st e)) = eviction_reserved e"
  "leases (snd (observe_platform_materialization st e)) = leases e"
  by (simp_all add: observe_platform_materialization_def Let_def split: option.split prod.split sum.split)

lemma set_pinned_frame [entry_frames]:
  "active_cache_writes (snd (set_pinned p e)) = active_cache_writes e"
  "eviction_reserved (snd (set_pinned p e)) = eviction_reserved e"
  "leases (snd (set_pinned p e)) = leases e"
  by (simp_all add: set_pinned_def Let_def split: option.split prod.split sum.split)

lemma mark_dirty_frame [entry_frames]:
  "active_cache_writes (snd (mark_dirty snapshot e)) = active_cache_writes e"
  "eviction_reserved (snd (mark_dirty snapshot e)) = eviction_reserved e"
  "leases (snd (mark_dirty snapshot e)) = leases e"
  by (simp_all add: mark_dirty_def Let_def split: option.split prod.split sum.split)

lemma clear_dirty_frame [entry_frames]:
  "active_cache_writes (snd (clear_dirty generation e)) = active_cache_writes e"
  "eviction_reserved (snd (clear_dirty generation e)) = eviction_reserved e"
  "leases (snd (clear_dirty generation e)) = leases e"
  by (simp_all add: clear_dirty_def Let_def split: option.split prod.split sum.split)

lemma acquire_lease_frame [entry_frames]:
  "active_cache_writes (snd (acquire_lease i kind e)) = active_cache_writes e"
  "eviction_reserved (snd (acquire_lease i kind e)) = eviction_reserved e"
  by (simp_all add: acquire_lease_def Let_def split: option.split prod.split sum.split)

lemma release_lease_frame [entry_frames]:
  "active_cache_writes (snd (release_lease i e)) = active_cache_writes e"
  "eviction_reserved (snd (release_lease i e)) = eviction_reserved e"
  by (simp_all add: release_lease_def Let_def split: option.split prod.split sum.split)

lemma other_leases_frame [entry_frames]:
  "leases (snd (begin_cache_write e)) = leases e" "leases (snd (complete_cache_write e)) = leases e"
  "leases (snd (reserve_eviction target e)) = leases e" "leases (snd (reconcile_eviction plan e)) = leases e"
  "leases (snd (complete_eviction e)) = leases e"
  by (simp_all add: begin_cache_write_def complete_cache_write_def reserve_eviction_def
      reconcile_eviction_def complete_eviction_def Let_def io_bind_def split: option.split sum.split)

lemma reconcile_eviction_frame [entry_frames]:
  "active_cache_writes (snd (reconcile_eviction plan e)) = active_cache_writes e"
  "eviction_reserved (snd (reconcile_eviction plan e)) = eviction_reserved e"
  by (simp_all add: reconcile_eviction_def io_bind_def split: option.split)

lemma acquire_keeps_leases:
  "leases e lease = Some kind \<Longrightarrow> leases (snd (acquire_lease lease_id kind' e)) lease = Some kind"
  by (auto simp: acquire_lease_def split: option.split prod.split sum.split)

lemma release_keeps_leases:
  "lease \<noteq> lease_id \<Longrightarrow> leases (snd (release_lease lease_id e)) lease = leases e lease"
  by (simp add: release_lease_def Let_def split: option.split prod.split sum.split)

lemma entry_local_frame:
  assumes "entry_local eop"
  shows "active_cache_writes (snd (entry_apply eop e)) = active_cache_writes e"
    and "eviction_reserved (snd (entry_apply eop e)) = eviction_reserved e"
  using assms by (cases eop; simp add: entry_frames)+

lemma entry_local_leases:
  assumes "entry_local eop" "eop \<noteq> ReleaseLease lease_id" "leases e lease_id = Some kind"
  shows "leases (snd (entry_apply eop e)) lease_id = Some kind"
  using assms by (cases eop) (auto simp: entry_frames acquire_keeps_leases release_keeps_leases)

section \<open>Invariant\<close>

text \<open>An entry agrees with the journals.\<close>

definition entry_counts :: "content_state \<Rightarrow> ContentCacheKey \<Rightarrow> ContentStorageEntry \<Rightarrow> bool" where
  "entry_counts a key e \<longleftrightarrow>
     entry_inv e \<and>
     unat (active_cache_writes e) = card (having (a_writes a) (open_write key)) \<and>
     (eviction_reserved e \<longleftrightarrow> having (a_evictions a) (open_eviction key) \<noteq> {})"

definition writes_ok :: "content_state \<Rightarrow> bool" where
  "writes_ok a \<longleftrightarrow>
     finite (dom (a_writes a)) \<and>
     (\<forall>i r. a_writes a i = Some r \<longrightarrow>
        cw_operation_id (cw_intent r) = i \<and> a_entries a (cw_cache_key (cw_intent r)) \<noteq> None \<and>
        extent_wf (cw_intent r))"

definition evictions_ok :: "content_state \<Rightarrow> bool" where
  "evictions_ok a \<longleftrightarrow>
     (\<forall>i r. a_evictions a i = Some r \<longrightarrow>
        ev_operation_id (ev_intent r) = i \<and> eviction_good r \<and>
        a_entries a (ev_cache_key (ev_intent r)) \<noteq> None) \<and>
     (\<forall>key i j. i \<in> having (a_evictions a) (open_eviction key) \<longrightarrow>
        j \<in> having (a_evictions a) (open_eviction key) \<longrightarrow> i = j)"

definition lease_held :: "content_state \<Rightarrow> ContentUploadRecord \<Rightarrow> bool" where
  "lease_held a r \<longleftrightarrow>
     (\<exists>e. a_entries a (ui_base_cache_key (ur_intent r)) = Some e \<and>
        (ur_state r \<noteq> ContentUploadState.Completed \<longrightarrow>
           leases e (ui_upload_lease_id (ur_intent r)) = Some Upload))"

definition uploads_ok :: "content_state \<Rightarrow> bool" where
  "uploads_ok a \<longleftrightarrow>
     (\<forall>i r. a_uploads a i = Some r \<longrightarrow> upload_good r \<and> ui_operation_id (ur_intent r) = i \<and> lease_held a r) \<and>
     (\<forall>i j r r'. a_uploads a i = Some r \<longrightarrow> a_uploads a j = Some r' \<longrightarrow>
        ui_upload_lease_id (ur_intent r) = ui_upload_lease_id (ur_intent r') \<longrightarrow> i = j)"

definition content_ok :: "content_state \<Rightarrow> bool" where
  "content_ok a \<longleftrightarrow>
     (\<forall>key e. a_entries a key = Some e \<longrightarrow> entry_counts a key e) \<and>
     writes_ok a \<and> evictions_ok a \<and> uploads_ok a"

lemma content_okD:
  assumes "content_ok a"
  shows "a_entries a key = Some e \<Longrightarrow> entry_counts a key e"
    and "writes_ok a" and "evictions_ok a" and "uploads_ok a"
  using assms by (simp_all add: content_ok_def)

lemma content_okI:
  "(\<And>key e. a_entries a key = Some e \<Longrightarrow> entry_counts a key e) \<Longrightarrow> writes_ok a \<Longrightarrow> evictions_ok a \<Longrightarrow>
   uploads_ok a \<Longrightarrow> content_ok a"
  by (simp add: content_ok_def)

lemma writes_okD:
  assumes "writes_ok a" "a_writes a i = Some r"
  shows "a_entries a (cw_cache_key (cw_intent r)) \<noteq> None" and "extent_wf (cw_intent r)"
    and "cw_operation_id (cw_intent r) = i"
  using assms by (simp_all add: writes_ok_def)

lemma evictions_okD:
  assumes "evictions_ok a" "a_evictions a i = Some r"
  shows "eviction_good r" and "a_entries a (ev_cache_key (ev_intent r)) \<noteq> None"
    and "ev_operation_id (ev_intent r) = i"
  using assms by (simp_all add: evictions_ok_def)

lemma uploads_okD:
  assumes "uploads_ok a" "a_uploads a i = Some r"
  shows "upload_good r" and "ui_operation_id (ur_intent r) = i" and "lease_held a r"
  using assms by (simp_all add: uploads_ok_def)

lemma uploads_ok_lease:
  "uploads_ok a \<Longrightarrow> a_uploads a i = Some r \<Longrightarrow> a_uploads a j = Some r' \<Longrightarrow>
   ui_upload_lease_id (ur_intent r) = ui_upload_lease_id (ur_intent r') \<Longrightarrow> i = j"
  unfolding uploads_ok_def by blast

lemma set_simps [simp]:
  "a_entries (set_entry key e a) = (a_entries a)(key \<mapsto> e)" "a_writes (set_entry key e a) = a_writes a"
  "a_evictions (set_entry key e a) = a_evictions a" "a_uploads (set_entry key e a) = a_uploads a"
  "a_entries (set_write i w a) = a_entries a" "a_writes (set_write i w a) = (a_writes a)(i \<mapsto> w)"
  "a_evictions (set_write i w a) = a_evictions a" "a_uploads (set_write i w a) = a_uploads a"
  "a_entries (set_eviction j v a) = a_entries a" "a_writes (set_eviction j v a) = a_writes a"
  "a_evictions (set_eviction j v a) = (a_evictions a)(j \<mapsto> v)" "a_uploads (set_eviction j v a) = a_uploads a"
  "a_entries (set_upload k u a) = a_entries a" "a_writes (set_upload k u a) = a_writes a"
  "a_evictions (set_upload k u a) = a_evictions a" "a_uploads (set_upload k u a) = (a_uploads a)(k \<mapsto> u)"
  by (simp_all add: content_sets)

lemma writes_ok_entry: "writes_ok a \<Longrightarrow> writes_ok (set_entry key e a)"
  by (auto simp: writes_ok_def)

lemma evictions_ok_entry: "evictions_ok a \<Longrightarrow> evictions_ok (set_entry key e a)"
  by (auto simp: evictions_ok_def)

lemma uploads_ok_entry:
  assumes "uploads_ok a"
    and "\<And>i r. a_uploads a i = Some r \<Longrightarrow> open_upload key r \<Longrightarrow>
      leases e (ui_upload_lease_id (ur_intent r)) = Some Upload"
  shows "uploads_ok (set_entry key e a)"
  using assms unfolding uploads_ok_def lease_held_def
  by (auto simp: open_upload_def)

lemma open_upload_leased:
  assumes "uploads_ok a" "a_uploads a i = Some r" "open_upload key r" "a_entries a key = Some e"
  shows "leases e (ui_upload_lease_id (ur_intent r)) = Some Upload"
  using uploads_okD(3) [OF assms(1,2)] assms(3,4) by (auto simp: lease_held_def open_upload_def)

text \<open>Replacing an entry by one with the same counters and at least the leases in use.\<close>

lemma content_ok_entry:
  assumes ok: "content_ok a" and e: "a_entries a key = Some e" and "entry_inv e'"
    and "active_cache_writes e' = active_cache_writes e" "eviction_reserved e' = eviction_reserved e"
    and keep: "\<And>i r. a_uploads a i = Some r \<Longrightarrow> open_upload key r \<Longrightarrow>
      leases e' (ui_upload_lease_id (ur_intent r)) = Some Upload"
  shows "content_ok (set_entry key e' a)"
proof (rule content_okI)
  fix key' f assume "a_entries (set_entry key e' a) key' = Some f"
  then show "entry_counts (set_entry key e' a) key' f"
    using content_okD(1) [OF ok] e assms(3-5) by (auto simp: entry_counts_def split: if_splits)
qed (use content_okD(2-4) [OF ok] keep in
  \<open>auto intro: writes_ok_entry evictions_ok_entry uploads_ok_entry\<close>)

lemma entry_called_ok:
  assumes ok: "content_ok a" and e: "a_entries a key = Some e" and "entry_local eop" "op_wf eop"
    and rel: "\<forall>lease_id. eop = ReleaseLease lease_id \<longrightarrow> \<not> lease_in_use a key lease_id"
  shows "content_ok (set_entry key (snd (entry_apply eop e)) a)"
proof (rule content_ok_entry [OF ok e])
  have inv: "entry_inv e" using content_okD(1) [OF ok e] by (simp add: entry_counts_def)
  show "entry_inv (snd (entry_apply eop e))" using entry_apply_inv [OF inv assms(4)] by simp
  fix i r assume r: "a_uploads a i = Some r" "open_upload key r"
  have "eop \<noteq> ReleaseLease (ui_upload_lease_id (ur_intent r))"
    using rel r by (auto simp: lease_in_use_def having_def)
  then show "leases (snd (entry_apply eop e)) (ui_upload_lease_id (ur_intent r)) = Some Upload"
    using entry_local_leases [OF assms(3)] open_upload_leased [OF content_okD(4) [OF ok] r e] by blast
qed (use entry_local_frame [OF assms(3)] in simp_all)

lemma created_ok:
  assumes ok: "content_ok a" and none: "a_entries a (entry_key e) = None" and "entry_inv e"
    "active_cache_writes e = 0" "\<not> eviction_reserved e"
  shows "content_ok (set_entry (entry_key e) e a)"
proof (rule content_okI)
  have w: "having (a_writes a) (open_write (entry_key e)) = {}"
    using none by (auto simp: having_def open_write_def dest: writes_okD(1) [OF content_okD(2) [OF ok]])
  have v: "having (a_evictions a) (open_eviction (entry_key e)) = {}"
    using none by (auto simp: having_def open_eviction_def dest: evictions_okD(2) [OF content_okD(3) [OF ok]])
  fix key f assume "a_entries (set_entry (entry_key e) e a) key = Some f"
  then show "entry_counts (set_entry (entry_key e) e a) key f"
    using content_okD(1) [OF ok] assms(3-5) w v by (auto simp: entry_counts_def split: if_splits)
next
  have "\<not> open_upload (entry_key e) r" if "a_uploads a i = Some r" for i r
    using uploads_okD(3) [OF content_okD(4) [OF ok] that] none by (auto simp: lease_held_def open_upload_def)
  then show "uploads_ok (set_entry (entry_key e) e a)"
    using uploads_ok_entry [OF content_okD(4) [OF ok]] by blast
qed (use content_okD(2,3) [OF ok] in \<open>auto intro: writes_ok_entry evictions_ok_entry\<close>)

text \<open>Changing an entry together with the journal record that accounts for the change.\<close>

lemma content_ok_accounted:
  assumes ok: "content_ok a" and e: "a_entries a key = Some e"
    and a': "a_entries a' = (a_entries a)(key \<mapsto> e')" "a_uploads a' = a_uploads a" and l: "leases e' = leases e"
    and here: "entry_counts a' key e'"
    and there: "\<And>key' f. key' \<noteq> key \<Longrightarrow> entry_counts a key' f \<Longrightarrow> entry_counts a' key' f"
    and "writes_ok a'" "evictions_ok a'"
  shows "content_ok a'"
proof (rule content_okI)
  fix key' f assume f: "a_entries a' key' = Some f"
  show "entry_counts a' key' f"
  proof (cases "key' = key")
    case False
    then show ?thesis using there content_okD(1) [OF ok, of key' f] f a'(1) by simp
  qed (use f a'(1) here in simp)
next
  have "uploads_ok (set_entry key e' a)"
    using uploads_ok_entry [OF content_okD(4) [OF ok]] open_upload_leased [OF content_okD(4) [OF ok] _ _ e] l
    by simp
  then show "uploads_ok a'" using a' by (simp add: uploads_ok_def lease_held_def)
qed (use assms in simp_all)

subsection \<open>Cache writes\<close>

lemma having_same: "m k = Some r \<Longrightarrow> P r' = P r \<Longrightarrow> having (m(k \<mapsto> r')) P = having m P"
  by (auto simp: having_def)

lemma content_ok_write:
  assumes ok: "content_ok a" and r: "a_writes a i = Some r" and "cw_intent r' = cw_intent r"
    and "cw_state r' = ContentCacheWriteState.Completed \<longleftrightarrow> cw_state r = ContentCacheWriteState.Completed"
  shows "content_ok (set_write i r' a)"
proof (rule content_okI)
  have same: "having ((a_writes a)(i \<mapsto> r')) (open_write key) = having (a_writes a) (open_write key)" for key
    by (rule having_same [where m = "a_writes a" and k = i, OF r]) (simp add: open_write_def assms(3,4))
  fix key e assume "a_entries (set_write i r' a) key = Some e"
  then show "entry_counts (set_write i r' a) key e"
    using content_okD(1) [OF ok, of key e] same unfolding entry_counts_def by (simp del: having_upd)
next
  show "writes_ok (set_write i r' a)"
    using content_okD(2) [OF ok] r assms(3) by (simp add: writes_ok_def)
  show "evictions_ok (set_write i r' a)" "uploads_ok (set_write i r' a)"
    using content_okD(3,4) [OF ok] by (simp_all add: evictions_ok_def uploads_ok_def lease_held_def)
qed

lemma cache_write_moves:
  assumes "cop \<noteq> CompleteCacheWriteRecord"
  shows "cw_intent (snd (cache_write_apply cop r)) = cw_intent r"
    and "cw_state (snd (cache_write_apply cop r)) = ContentCacheWriteState.Completed \<longleftrightarrow>
      cw_state r = ContentCacheWriteState.Completed"
  using assms
  by (cases cop; simp add: cache_write_transition_defs split: ContentCacheWriteState.split)+

lemma write_begun_ok:
  assumes ok: "content_ok a" and none: "a_writes a (cw_operation_id intent) = None"
    and e: "a_entries a (cw_cache_key intent) = Some e" and b: "begin_cache_write e = (Inr (), e')"
    and wf: "extent_wf intent"
  shows "content_ok (set_write (cw_operation_id intent) (ContentCacheWriteRecord_persist intent)
       (set_entry (cw_cache_key intent) e' a))"
proof -
  let ?r = "ContentCacheWriteRecord_persist intent" and ?i = "cw_operation_id intent" and ?k = "cw_cache_key intent"
  have new: "open_write key ?r \<longleftrightarrow> key = ?k" for key
    by (auto simp: open_write_def ContentCacheWriteRecord_persist_def)
  have fresh: "?i \<notin> having (a_writes a) P" for P using none by (simp add: having_def)
  have fin: "finite (having (a_writes a) P)" for P
    using content_okD(2) [OF ok] having_finite by (auto simp: writes_ok_def)
  have c: "entry_counts a ?k e" by (rule content_okD(1) [OF ok e])
  have inv: "entry_inv e'" using begin_cache_write_inv [of e] c b by (simp add: entry_counts_def)
  have e': "unat (active_cache_writes e') = Suc (unat (active_cache_writes e))"
    "eviction_reserved e' = eviction_reserved e" "leases e' = leases e"
    using b by (auto simp: begin_cache_write_def unat_add_exact split: if_splits option.splits)
  show ?thesis
  proof (rule content_ok_accounted [OF ok e])
    show "entry_counts (set_write ?i ?r (set_entry ?k e' a)) ?k e'"
      using c e' inv fresh fin new by (simp add: entry_counts_def)
    show "entry_counts (set_write ?i ?r (set_entry ?k e' a)) key f" if "key \<noteq> ?k" "entry_counts a key f" for key f
      using that new fresh by (simp add: entry_counts_def)
    show "writes_ok (set_write ?i ?r (set_entry ?k e' a))"
      using content_okD(2) [OF ok] wf by (auto simp: writes_ok_def ContentCacheWriteRecord_persist_def)
    show "evictions_ok (set_write ?i ?r (set_entry ?k e' a))"
      using evictions_ok_entry [OF content_okD(3) [OF ok]] by (simp add: evictions_ok_def)
  qed (simp_all add: e')
qed

lemma write_completed_ok:
  assumes ok: "content_ok a" and r: "a_writes a i = Some r" "cw_state r \<noteq> ContentCacheWriteState.Completed"
    and c: "ContentCacheWriteRecord_complete r = (Inr t, r')"
    and e: "a_entries a (cw_cache_key (cw_intent r)) = Some e" and b: "complete_cache_write e = (Inr (), e')"
  shows "content_ok (set_write i r' (set_entry (cw_cache_key (cw_intent r)) e' a))"
proof -
  let ?k = "cw_cache_key (cw_intent r)"
  have r': "cw_state r' = ContentCacheWriteState.Completed" "cw_intent r' = cw_intent r"
    using c r(2) by (auto simp: ContentCacheWriteRecord_complete_def split: ContentCacheWriteState.splits)
  have closed: "\<not> open_write key r'" for key using r' by (simp add: open_write_def)
  have mem: "i \<in> having (a_writes a) (open_write key) \<longleftrightarrow> key = ?k" for key
    using r by (auto simp: having_def open_write_def)
  have ce: "entry_counts a ?k e" by (rule content_okD(1) [OF ok e])
  have inv: "entry_inv e'" using complete_cache_write_inv [of e] ce b by (simp add: entry_counts_def)
  have e': "unat (active_cache_writes e') = unat (active_cache_writes e) - 1"
    "eviction_reserved e' = eviction_reserved e" "leases e' = leases e"
    using b by (auto simp: complete_cache_write_def unat_sub split: if_splits option.splits)
  show ?thesis
  proof (rule content_ok_accounted [OF ok e])
    show "entry_counts (set_write i r' (set_entry ?k e' a)) ?k e'"
      using ce e' inv closed mem by (simp add: entry_counts_def)
    show "entry_counts (set_write i r' (set_entry ?k e' a)) key f" if "key \<noteq> ?k" "entry_counts a key f" for key f
      using that closed mem by (simp add: entry_counts_def)
    show "writes_ok (set_write i r' (set_entry ?k e' a))"
      using content_okD(2) [OF ok] r' writes_okD(2,3) [OF content_okD(2) [OF ok] r(1)] by (auto simp: writes_ok_def)
    show "evictions_ok (set_write i r' (set_entry ?k e' a))"
      using evictions_ok_entry [OF content_okD(3) [OF ok]] by (simp add: evictions_ok_def)
  qed (simp_all add: e')
qed

subsection \<open>Evictions\<close>

lemma content_ok_eviction:
  assumes ok: "content_ok a" and r: "a_evictions a i = Some r" and "ev_intent r' = ev_intent r" "eviction_good r'"
    and "ev_state r' = ContentEvictionState.Completed \<longleftrightarrow> ev_state r = ContentEvictionState.Completed"
  shows "content_ok (set_eviction i r' a)"
proof -
  have same: "having ((a_evictions a)(i \<mapsto> r')) (open_eviction key) = having (a_evictions a) (open_eviction key)" for key
    by (rule having_same [where m = "a_evictions a" and k = i, OF r]) (simp add: open_eviction_def assms(3,5))
  show ?thesis
  proof (rule content_okI)
    fix key e assume "a_entries (set_eviction i r' a) key = Some e"
    then show "entry_counts (set_eviction i r' a) key e"
      using content_okD(1) [OF ok, of key e] same unfolding entry_counts_def by (simp del: having_upd)
  next
    show "evictions_ok (set_eviction i r' a)"
      using content_okD(3) [OF ok] r assms(3,4) unfolding evictions_ok_def by (simp add: same del: having_upd)
  qed (use content_okD(2,4) [OF ok] in \<open>simp_all add: writes_ok_def uploads_ok_def lease_held_def\<close>)
qed

lemma eviction_moves_open:
  assumes "eviction_good r" "vop \<noteq> CompleteEvictionRecord"
  shows "ev_intent (snd (eviction_apply vop r)) = ev_intent r" and "eviction_good (snd (eviction_apply vop r))"
    and "ev_state (snd (eviction_apply vop r)) = ContentEvictionState.Completed \<longleftrightarrow>
      ev_state r = ContentEvictionState.Completed"
proof -
  show "ev_intent (snd (eviction_apply vop r)) = ev_intent r"
    using eviction_record.step_ident [OF assms(1), of vop] by (simp add: eviction_ident_def)
  show "eviction_good (snd (eviction_apply vop r))" by (rule eviction_record.step_good [OF assms(1)])
  show "ev_state (snd (eviction_apply vop r)) = ContentEvictionState.Completed \<longleftrightarrow>
      ev_state r = ContentEvictionState.Completed"
    using assms(2)
    by (cases vop) (auto simp: record_physical_effect_def mark_metadata_reconciled_def Let_def
        split: ContentEvictionState.split)
qed

lemma eviction_begun_ok:
  assumes ok: "content_ok a" and none: "a_evictions a (ev_operation_id intent) = None"
    and e: "a_entries a (ev_cache_key intent) = Some e"
    and b: "reserve_eviction (ev_target intent) e = (Inr (Reserved plan), e')"
  shows "content_ok (set_eviction (ev_operation_id intent) (ContentEvictionRecord_persist intent plan)
       (set_entry (ev_cache_key intent) e' a))"
proof -
  let ?r = "ContentEvictionRecord_persist intent plan" and ?i = "ev_operation_id intent" and ?k = "ev_cache_key intent"
  have new: "open_eviction key ?r \<longleftrightarrow> key = ?k" for key
    by (auto simp: open_eviction_def ContentEvictionRecord_persist_def)
  have fresh: "?i \<notin> having (a_evictions a) P" for P using none by (simp add: having_def)
  have c: "entry_counts a ?k e" by (rule content_okD(1) [OF ok e])
  have inv: "entry_inv e'" using reserve_eviction_inv [of e "ev_target intent"] c b by (simp add: entry_counts_def)
  have e': "active_cache_writes e' = active_cache_writes e" "eviction_reserved e'" "leases e' = leases e"
    "\<not> eviction_reserved e"
    using b by (auto simp: reserve_eviction_def Let_def eviction_blockers_def split: if_splits sum.splits)
  have none_open: "having (a_evictions a) (open_eviction ?k) = {}" using c e'(4) by (simp add: entry_counts_def)
  show ?thesis
  proof (rule content_ok_accounted [OF ok e])
    show "entry_counts (set_eviction ?i ?r (set_entry ?k e' a)) ?k e'"
      using c e' inv new by (simp add: entry_counts_def)
    show "entry_counts (set_eviction ?i ?r (set_entry ?k e' a)) key f" if "key \<noteq> ?k" "entry_counts a key f" for key f
      using that new fresh by (simp add: entry_counts_def)
    show "writes_ok (set_eviction ?i ?r (set_entry ?k e' a))"
      using writes_ok_entry [OF content_okD(2) [OF ok]] by (simp add: writes_ok_def)
    show "evictions_ok (set_eviction ?i ?r (set_entry ?k e' a))"
      using content_okD(3) [OF ok] new none_open eviction_persist_good [of intent plan]
      by (auto simp: evictions_ok_def ContentEvictionRecord_persist_def split: if_splits)
  qed (simp_all add: e')
qed

lemma eviction_completed_ok:
  assumes ok: "content_ok a" and r: "a_evictions a i = Some r" "ev_state r \<noteq> ContentEvictionState.Completed"
    and c: "ContentEvictionRecord_complete r = (Inr t, r')"
    and e: "a_entries a (ev_cache_key (ev_intent r)) = Some e" and b: "complete_eviction e = (Inr (), e')"
  shows "content_ok (set_eviction i r' (set_entry (ev_cache_key (ev_intent r)) e' a))"
proof -
  let ?k = "ev_cache_key (ev_intent r)"
  have good: "eviction_good r" by (rule evictions_okD(1) [OF content_okD(3) [OF ok] r(1)])
  have r': "ev_state r' = ContentEvictionState.Completed" "ev_intent r' = ev_intent r" "eviction_good r'"
    using c r(2) eviction_record.step_good [OF good, of CompleteEvictionRecord]
    by (auto simp: ContentEvictionRecord_complete_def split: ContentEvictionState.splits)
  have closed: "\<not> open_eviction key r'" for key using r' by (simp add: open_eviction_def)
  have mem: "i \<in> having (a_evictions a) (open_eviction key) \<longleftrightarrow> key = ?k" for key
    using r by (auto simp: having_def open_eviction_def)
  have only: "having (a_evictions a) (open_eviction ?k) - {i} = {}"
    using content_okD(3) [OF ok] mem unfolding evictions_ok_def by blast
  have ce: "entry_counts a ?k e" by (rule content_okD(1) [OF ok e])
  have inv: "entry_inv e'" using complete_eviction_inv [of e] ce b by (simp add: entry_counts_def)
  have e': "active_cache_writes e' = active_cache_writes e" "\<not> eviction_reserved e'" "leases e' = leases e"
    using b by (auto simp: complete_eviction_def split: if_splits)
  show ?thesis
  proof (rule content_ok_accounted [OF ok e])
    show "entry_counts (set_eviction i r' (set_entry ?k e' a)) ?k e'"
      using ce e' inv closed only by (simp add: entry_counts_def)
    show "entry_counts (set_eviction i r' (set_entry ?k e' a)) key f" if "key \<noteq> ?k" "entry_counts a key f" for key f
      using that closed mem by (simp add: entry_counts_def)
    show "writes_ok (set_eviction i r' (set_entry ?k e' a))"
      using writes_ok_entry [OF content_okD(2) [OF ok]] by (simp add: writes_ok_def)
    show "evictions_ok (set_eviction i r' (set_entry ?k e' a))"
      using content_okD(3) [OF ok] r' closed evictions_okD(3) [OF content_okD(3) [OF ok] r(1)]
      unfolding evictions_ok_def by simp blast
  qed (simp_all add: e')
qed


subsection \<open>Uploads\<close>

lemma content_ok_upload:
  assumes ok: "content_ok a" and "upload_good r" "ui_operation_id (ur_intent r) = i" "lease_held a r"
    and uniq: "\<And>j r'. a_uploads a j = Some r' \<Longrightarrow>
      ui_upload_lease_id (ur_intent r') = ui_upload_lease_id (ur_intent r) \<Longrightarrow> j = i"
  shows "content_ok (set_upload i r a)"
proof (rule content_okI)
  fix key e assume "a_entries (set_upload i r a) key = Some e"
  then show "entry_counts (set_upload i r a) key e"
    using content_okD(1) [OF ok, of key e] by (simp add: entry_counts_def)
next
  have held: "lease_held (set_upload i r a) r' = lease_held a r'" for r' by (simp add: lease_held_def)
  show "uploads_ok (set_upload i r a)"
    unfolding uploads_ok_def
  proof (intro conjI allI impI)
    fix j r' assume "a_uploads (set_upload i r a) j = Some r'"
    then show "upload_good r'" "ui_operation_id (ur_intent r') = j" "lease_held (set_upload i r a) r'"
      using uploads_okD [OF content_okD(4) [OF ok], of j r'] assms(2-4) held by (auto split: if_splits)
  next
    fix j k r1 r2
    assume "a_uploads (set_upload i r a) j = Some r1" "a_uploads (set_upload i r a) k = Some r2"
      "ui_upload_lease_id (ur_intent r1) = ui_upload_lease_id (ur_intent r2)"
    then show "j = k"
      using uniq uploads_ok_lease [OF content_okD(4) [OF ok]] by (auto split: if_splits)
  qed
qed (use content_okD(2,3) [OF ok] in \<open>simp_all add: writes_ok_def evictions_ok_def\<close>)

lemma snd_upload_apply: "snd (upload_apply uop r) = snd (upload_transition uop r)"
  by (simp add: upload_apply_def split: prod.split sum.split)

lemma upload_moves_open:
  assumes "upload_good r"
  shows "upload_good (snd (upload_transition uop r))" and "ur_intent (snd (upload_transition uop r)) = ur_intent r"
    and "uop \<noteq> CompleteUpload \<Longrightarrow> ur_state (snd (upload_transition uop r)) = ContentUploadState.Completed \<longleftrightarrow>
      ur_state r = ContentUploadState.Completed"
proof -
  show "upload_good (snd (upload_transition uop r))" "ur_intent (snd (upload_transition uop r)) = ur_intent r"
    using upload_record.step_good [OF assms, of uop] upload_record.step_ident [OF assms, of uop]
    by (simp_all add: snd_upload_apply)
  obtain res r' where t: "upload_transition uop r = (res, r')" by fastforce
  assume "uop \<noteq> CompleteUpload"
  then have "ur_state r' = ContentUploadState.Completed \<longleftrightarrow> ur_state r = ContentUploadState.Completed"
  proof (cases "res = Inr ContentUploadRecordTransition.Applied")
    case True
    then have "upload_moves uop r r'" using upload_applied_moves [OF assms] t by simp
    then show ?thesis
      using \<open>uop \<noteq> CompleteUpload\<close> by (auto simp: upload_moves_def split: upload_op.splits)
  qed (use upload_unapplied_keeps [OF t] in simp)
  then show "ur_state (snd (upload_transition uop r)) = ContentUploadState.Completed \<longleftrightarrow>
      ur_state r = ContentUploadState.Completed" by (simp add: t)
qed

lemma content_ok_transition:
  assumes ok: "content_ok a" and r: "a_uploads a i = Some r"
    and "upload_good r'" "ur_intent r' = ur_intent r"
    and "ur_state r' = ContentUploadState.Completed \<or> ur_state r \<noteq> ContentUploadState.Completed"
  shows "content_ok (set_upload i r' a)"
proof (rule content_ok_upload [OF ok assms(3)])
  note up = uploads_okD [OF content_okD(4) [OF ok] r]
  show "ui_operation_id (ur_intent r') = i" using up(2) assms(4) by simp
  show "lease_held a r'" using up(3) assms(4,5) by (auto simp: lease_held_def)
  fix j r2 assume "a_uploads a j = Some r2" "ui_upload_lease_id (ur_intent r2) = ui_upload_lease_id (ur_intent r')"
  then show "j = i" using uploads_ok_lease [OF content_okD(4) [OF ok] _ r] assms(4) by simp
qed

lemma upload_persisted_ok:
  assumes ok: "content_ok a"
    and fresh: "having (a_uploads a) (\<lambda>r. ui_idempotency_key (ur_intent r) = ui_idempotency_key intent
         \<or> ui_upload_lease_id (ur_intent r) = ui_upload_lease_id intent) = {}"
    and e: "a_entries a (ui_base_cache_key intent) = Some e"
    and b: "acquire_lease (ui_upload_lease_id intent) Upload e = (Inr changed, e')"
  shows "content_ok (set_upload (ui_operation_id intent) (ContentUploadRecord_persist intent)
       (set_entry (ui_base_cache_key intent) e' a))"
proof (rule content_ok_upload)
  let ?k = "ui_base_cache_key intent"
  have inv: "entry_inv e" using content_okD(1) [OF ok e] by (simp add: entry_counts_def)
  have e': "e' = snd (acquire_lease (ui_upload_lease_id intent) Upload e)" by (simp add: b)
  show "content_ok (set_entry ?k e' a)"
    using entry_called_ok [OF ok e, of "AcquireLease (ui_upload_lease_id intent) Upload"] by (simp add: e')
  have "leases e' (ui_upload_lease_id intent) = Some Upload"
    using b by (auto simp: acquire_lease_def split: if_splits option.splits prod.splits sum.splits)
  then show "lease_held (set_entry ?k e' a) (ContentUploadRecord_persist intent)"
    by (simp add: lease_held_def ContentUploadRecord_persist_def)
  fix j r' assume "a_uploads (set_entry ?k e' a) j = Some r'"
    "ui_upload_lease_id (ur_intent r') = ui_upload_lease_id (ur_intent (ContentUploadRecord_persist intent))"
  then show "j = ui_operation_id intent" using fresh by (auto simp: having_def ContentUploadRecord_persist_def)
qed (use upload_persist_good [of intent] in \<open>simp_all add: ContentUploadRecord_persist_def\<close>)

lemma upload_completed_ok:
  assumes ok: "content_ok a" and r: "a_uploads a i = Some r"
    and c: "ContentUploadRecord_complete r = (Inr t, r')" and st: "ur_state r \<noteq> ContentUploadState.Completed"
    and e: "a_entries a (ui_base_cache_key (ur_intent r)) = Some e"
    and b: "release_lease (ui_upload_lease_id (ur_intent r)) e = (Inr changed, e')"
  shows "content_ok (set_upload i r' (set_entry (ui_base_cache_key (ur_intent r)) e' a))"
proof -
  let ?k = "ui_base_cache_key (ur_intent r)" and ?l = "ui_upload_lease_id (ur_intent r)"
  have good: "upload_good r" by (rule uploads_okD(1) [OF content_okD(4) [OF ok] r])
  have r': "r' = snd (upload_transition CompleteUpload r)" by (simp add: c)
  have done': "ur_state r' = ContentUploadState.Completed"
    using c st by (auto simp: ContentUploadRecord_complete_def split: ContentUploadState.splits)
  have ok': "content_ok (set_upload i r' a)"
    by (rule content_ok_transition [OF ok r])
      (use upload_moves_open(1,2) [OF good, of CompleteUpload] done' in \<open>simp_all add: r'\<close>)
  have free: "\<not> lease_in_use (set_upload i r' a) ?k ?l"
  proof -
    have "j = i" if "a_uploads a j = Some r2" "ui_upload_lease_id (ur_intent r2) = ?l" for j r2
      using uploads_ok_lease [OF content_okD(4) [OF ok] that(1) r that(2)] .
    then show ?thesis using done' by (auto simp: lease_in_use_def having_def open_upload_def)
  qed
  have "content_ok (set_entry ?k (snd (entry_apply (ReleaseLease ?l) e)) (set_upload i r' a))"
    by (rule entry_called_ok [OF ok']) (use e free in simp_all)
  moreover have "set_entry ?k e' (set_upload i r' a) = set_upload i r' (set_entry ?k e' a)"
    by (simp add: content_sets)
  ultimately show ?thesis by (simp add: b)
qed

section \<open>Every step keeps the invariant\<close>

lemma content_step_ok:
  assumes "content_step a a'" and "content_ok a"
  shows "content_ok a'"
  using assms
proof (cases rule: content_step.cases)
  case (created e)
  then show ?thesis using created_ok assms(2) by simp
next
  case (entry_called key e eop res e')
  then show ?thesis using entry_called_ok [OF assms(2), of key e eop] by simp
next
  case (write_begun intent e e')
  then show ?thesis using write_begun_ok assms(2) by simp
next
  case (write_moved i r cop)
  then show ?thesis using content_ok_write [OF assms(2)] cache_write_moves by simp
next
  case (write_covered i r cop key e rg res e')
  have "content_ok (set_entry key e' a)"
    using entry_called_ok [OF assms(2), of key e "RecordProviderRange rg"] write_covered by simp
  then show ?thesis using content_ok_write [of "set_entry key e' a" i r] cache_write_moves write_covered by simp
next
  case (write_completed i r t r' e e')
  then show ?thesis using write_completed_ok assms(2) by simp
next
  case (eviction_begun intent e plan e')
  then show ?thesis using eviction_begun_ok assms(2) by simp
next
  case (eviction_moved i r vop)
  then show ?thesis
    using content_ok_eviction [OF assms(2)] eviction_moves_open evictions_okD(1) [OF content_okD(3) [OF assms(2)]]
    by simp
next
  case (eviction_reconciled i r vop e e')
  have e': "e' = snd (reconcile_eviction (ev_plan r) e)" by (simp add: eviction_reconciled)
  have inv: "entry_inv e" using content_okD(1) [OF assms(2)] eviction_reconciled by (simp add: entry_counts_def)
  have "content_ok (set_entry (ev_cache_key (ev_intent r)) e' a)"
    by (rule content_ok_entry [OF assms(2) eviction_reconciled(4)])
      (use reconcile_eviction_inv [OF inv] open_upload_leased [OF content_okD(4) [OF assms(2)] _ _ eviction_reconciled(4)]
        in \<open>simp_all add: e' entry_frames\<close>)
  then show ?thesis
    using content_ok_eviction [of _ i r] eviction_moves_open evictions_okD(1) [OF content_okD(3) [OF assms(2)]]
      eviction_reconciled by simp
next
  case (eviction_completed i r t r' e e')
  then show ?thesis using eviction_completed_ok assms(2) by simp
next
  case (upload_persisted intent e changed e')
  then show ?thesis using upload_persisted_ok assms(2) by simp
next
  case (upload_moved i r uop)
  have good: "upload_good r" by (rule uploads_okD(1) [OF content_okD(4) [OF assms(2)] upload_moved(2)])
  show ?thesis
    unfolding upload_moved(1)
    by (rule content_ok_transition [OF assms(2) upload_moved(2)])
      (use upload_moves_open [OF good] upload_moved in simp_all)
next
  case (upload_reconciled i r uop e res e')
  have good: "upload_good r" by (rule uploads_okD(1) [OF content_okD(4) [OF assms(2)] upload_reconciled(2)])
  let ?gen = "snap_generation (ui_snapshot (ur_intent r))"
  have "content_ok (set_entry (ui_base_cache_key (ur_intent r)) e' a)"
    using entry_called_ok [OF assms(2), of _ e "ClearDirty ?gen"] upload_reconciled by simp
  then show ?thesis
    unfolding upload_reconciled(1)
    by (rule content_ok_transition [where r = r])
      (use upload_moves_open [OF good] upload_reconciled in simp_all)
next
  case (upload_completed i r t r' e changed e')
  then show ?thesis using upload_completed_ok assms(2) by simp
qed simp

text \<open>Upload records only move forward.\<close>

lemma upload_transition_le:
  assumes "upload_good r"
  shows "ranked_le upload_rank ur_intent r (snd (upload_transition uop r))"
proof (cases "fst (upload_transition uop r) = Inr ContentUploadRecordTransition.Applied")
  case True
  then have t: "upload_transition uop r = (Inr ContentUploadRecordTransition.Applied, snd (upload_transition uop r))"
    by (metis prod.collapse)
  show ?thesis
    using upload_moves_good(2,3) [OF assms upload_applied_moves [OF assms t]] by (simp add: ranked_le_def)
next
  case False
  then show ?thesis
    using upload_unapplied_keeps [of uop r "fst (upload_transition uop r)"] by (simp add: ranked_le_def)
qed

lemma uploads_le_upd:
  assumes "\<And>r. a_uploads a i = Some r \<Longrightarrow> ranked_le upload_rank ur_intent r r'"
  shows "uploads_le (a_uploads a) ((a_uploads a)(i \<mapsto> r'))"
  using assms by (auto simp: ranked_journal_le_def)

lemma content_step_uploads_le:
  assumes "content_step a a'" and ok: "content_ok a"
  shows "uploads_le (a_uploads a) (a_uploads a')"
proof -
  have step: "uploads_le (a_uploads a) ((a_uploads a)(i \<mapsto> snd (upload_transition uop r)))"
    if "a_uploads a i = Some r" for i r uop
    by (rule uploads_le_upd)
      (use that upload_transition_le [OF uploads_okD(1) [OF content_okD(4) [OF ok] that]] in simp)
  have new: "uploads_le (a_uploads a) ((a_uploads a)(i \<mapsto> r))" if "a_uploads a i = None" for i r
    by (rule uploads_le_upd) (use that in simp)
  show ?thesis using assms(1)
  proof (cases rule: content_step.cases)
    case (upload_completed i r t r' e changed e')
    then show ?thesis using step [of i r CompleteUpload] by simp
  qed (simp_all add: step new)
qed

text \<open>An unfinished eviction has its entry to itself.\<close>

lemma eviction_exclusive:
  assumes ok: "content_ok a" and r: "a_evictions a i = Some r" and op: "open_eviction key r"
  shows "\<exists>e. a_entries a key = Some e \<and> eviction_reserved e \<and> quiescent e"
    and "having (a_writes a) (open_write key) = {}"
    and "having (a_uploads a) (open_upload key) = {}"
    and "having (a_evictions a) (open_eviction key) = {i}"
proof -
  obtain e where e: "a_entries a key = Some e"
    using evictions_okD(2) [OF content_okD(3) [OF ok] r] op by (auto simp: open_eviction_def)
  have c: "entry_counts a key e" by (rule content_okD(1) [OF ok e])
  have mem: "i \<in> having (a_evictions a) (open_eviction key)" using r op by (auto simp: having_def)
  then have res: "eviction_reserved e" using c by (auto simp: entry_counts_def)
  then have q: "quiescent e" using c by (simp add: entry_counts_def entry_inv_def)
  then show "\<exists>e. a_entries a key = Some e \<and> eviction_reserved e \<and> quiescent e" using e res by blast
  have "finite (having (a_writes a) (open_write key))"
    using content_okD(2) [OF ok] having_finite by (auto simp: writes_ok_def)
  then show "having (a_writes a) (open_write key) = {}" using c q by (simp add: entry_counts_def quiescent_def)
  have "\<not> open_upload key u" if "a_uploads a j = Some u" for j u
    using open_upload_leased [OF content_okD(4) [OF ok] that _ e] q by (auto simp: quiescent_def)
  then show "having (a_uploads a) (open_upload key) = {}" by (auto simp: having_def)
  show "having (a_evictions a) (open_eviction key) = {i}"
    using content_okD(3) [OF ok] mem unfolding evictions_ok_def by blast
qed

end
