(* ===== verification/Content_Store_Laws.thy ===== *)
theory Content_Store_Laws
  imports Content_Protocol
begin

text \<open>
  The in-memory content store implements the protocol of \<open>Content_Protocol\<close>: every method is a
  step of it (a simulation), so every reachable store satisfies its invariant. The store then
  interprets the contracts of the upload runner and of the recovery paging.
\<close>

section \<open>Abstraction\<close>

definition content_abs :: "MemoryContentStorageStore \<Rightarrow> content_state" where
  "content_abs s =
     \<lparr>a_entries = map_of (st_entries s), a_writes = map_of (st_cache_writes s),
      a_evictions = map_of (st_evictions s), a_uploads = map_of (st_uploads s)\<rparr>"

lemma content_abs_simps [simp]:
  "a_entries (content_abs s) = map_of (st_entries s)" "a_writes (content_abs s) = map_of (st_cache_writes s)"
  "a_evictions (content_abs s) = map_of (st_evictions s)" "a_uploads (content_abs s) = map_of (st_uploads s)"
  by (simp_all add: content_abs_def)

lemma abs_updates [simp]:
  "content_abs (s\<lparr>st_entries := AList.update key e (st_entries s)\<rparr>) = set_entry key e (content_abs s)"
  "content_abs (s\<lparr>st_cache_writes := AList.update i w (st_cache_writes s)\<rparr>) = set_write i w (content_abs s)"
  "content_abs (s\<lparr>st_evictions := AList.update j v (st_evictions s)\<rparr>) = set_eviction j v (content_abs s)"
  "content_abs (s\<lparr>st_uploads := AList.update k u (st_uploads s)\<rparr>) = set_upload k u (content_abs s)"
  "content_abs (s\<lparr>st_entries := AList.update key e (st_entries s),
     st_cache_writes := AList.update i w (st_cache_writes s)\<rparr>) = set_write i w (set_entry key e (content_abs s))"
  "content_abs (s\<lparr>st_entries := AList.update key e (st_entries s),
     st_evictions := AList.update j v (st_evictions s)\<rparr>) = set_eviction j v (set_entry key e (content_abs s))"
  "content_abs (s\<lparr>st_entries := AList.update key e (st_entries s),
     st_uploads := AList.update k u (st_uploads s)\<rparr>) = set_upload k u (set_entry key e (content_abs s))"
  "content_abs (s\<lparr>st_failures := fs\<rparr>) = content_abs s"
  "content_abs (s\<lparr>st_stall_next_upload_session := b\<rparr>) = content_abs s"
  "content_abs (s\<lparr>st_stall_next_upload_remote_outcome := b\<rparr>) = content_abs s"
  "content_abs (s\<lparr>st_active_upload_generations := gs\<rparr>) = content_abs s"
  by (simp_all add: content_abs_def content_sets update_conv')

lemma abs_trip [simp]: "content_abs (snd (content_trip p s)) = content_abs s"
  by (simp add: content_trip_def split: prod.split)

lemma snd_bind_return [simp]: "snd (io_bind m (\<lambda>a. io_return (f a)) s) = snd (m s)"
  by (simp add: io_bind_def split: prod.split sum.split)

lemma abs_then_trip [simp]: "content_abs (snd (content_then_trip p status s)) = content_abs s"
  by (simp add: content_then_trip_def)

lemma abs_tripping [simp]: "content_abs (snd (content_tripping p m s)) = content_abs (snd (m s))"
proof (cases "m s")
  case (Pair res s1)
  then show ?thesis
    using abs_trip [of p s1] snd_bind_return [of "content_trip p" "\<lambda>_. StoreWriteStatus.Applied" s1]
    by (cases res) (simp_all add: content_tripping_def io_bind_Inr io_bind_Inl)
qed

lemma abs_on_entry:
  "content_abs (snd (on_entry key m s)) =
     (case map_of (st_entries s) key of None \<Rightarrow> content_abs s
      | Some e \<Rightarrow> set_entry key (snd (m e)) (content_abs s))"
  by (simp add: on_entry_def split: option.split prod.split)

section \<open>Every method is a step\<close>

definition steps_to :: "MemoryContentStorageStore \<Rightarrow> MemoryContentStorageStore \<Rightarrow> bool" where
  "steps_to s s' \<longleftrightarrow> content_step (content_abs s) (content_abs s')"

lemma steps_stutter: "content_abs s' = content_abs s \<Longrightarrow> steps_to s s'"
  by (simp add: steps_to_def content_step.stutter)

lemma on_entry_step:
  assumes "entry_local eop" "op_wf eop" "\<And>e. snd (m e) = snd (entry_apply eop e)"
    and "\<And>lease_id. eop = ReleaseLease lease_id \<Longrightarrow> \<not> lease_in_use (content_abs s) key lease_id"
  shows "steps_to s (snd (on_entry key m s))"
proof (cases "map_of (st_entries s) key")
  case None
  then show ?thesis by (intro steps_stutter) (simp add: abs_on_entry)
next
  case (Some e)
  then show ?thesis
    unfolding steps_to_def abs_on_entry
    using content_step.entry_called [of "content_abs s" key e eop "fst (entry_apply eop e)"
        "snd (entry_apply eop e)"] assms by simp
qed

lemma entry_methods_step:
  "range_wf r \<Longrightarrow> steps_to s (snd (record_provider_cached_range key r s))"
  "steps_to s (snd (observe_content_materialization key st s))"
  "steps_to s (snd (set_content_pinned key p s))"
  "steps_to s (snd (mark_content_dirty key snapshot s))"
  "steps_to s (snd (clear_content_dirty key generation s))"
  "steps_to s (snd (acquire_content_lease key lease_id kind s))"
  unfolding record_provider_cached_range_def observe_content_materialization_def set_content_pinned_def
    mark_content_dirty_def clear_content_dirty_def acquire_content_lease_def snd_bind_return
  by (rule on_entry_step [of "RecordProviderRange r"], simp_all)
    (rule on_entry_step [of "ObservePlatform st"] on_entry_step [of "SetPinned p"]
      on_entry_step [of "MarkDirty snapshot"] on_entry_step [of "ClearDirty generation"]
      on_entry_step [of "AcquireLease lease_id kind"]; simp; fail)+

lemma release_content_lease_step:
  "\<not> lease_in_use (content_abs s) key lease_id \<Longrightarrow> steps_to s (snd (release_content_lease key lease_id s))"
  unfolding release_content_lease_def snd_bind_return
  by (rule on_entry_step [of "ReleaseLease lease_id"]) simp_all

lemma create_content_entry_step:
  assumes "entry_inv e" "active_cache_writes e = 0" "\<not> eviction_reserved e"
  shows "steps_to s (snd (create_content_entry e s))"
  using content_step.created [of "content_abs s" e] assms
  by (auto simp: steps_to_def create_content_entry_def content_step.stutter split: option.split)

subsection \<open>Evictions\<close>

lemma begin_content_eviction_step: "steps_to s (snd (begin_content_eviction intent s))"
proof (cases "map_of (st_evictions s) (ev_operation_id intent)")
  case (Some r)
  then show ?thesis by (intro steps_stutter) (simp add: begin_content_eviction_def)
next
  case none: None
  show ?thesis
  proof (cases "map_of (st_entries s) (ev_cache_key intent)")
    case None
    then show ?thesis using none
      by (intro steps_stutter) (simp add: begin_content_eviction_def on_entry_def io_bind_def)
  next
    case (Some e)
    obtain res e' where re: "reserve_eviction (ev_target intent) e = (res, e')" by fastforce
    show ?thesis
    proof (cases "\<exists>plan. res = Inr (Reserved plan)")
      case True
      then show ?thesis
        using content_step.eviction_begun [of "content_abs s" intent e] none Some re
        by (auto simp: steps_to_def begin_content_eviction_def on_entry_def io_bind_def)
    next
      case False
      then have "e' = e" using re
        by (auto simp: reserve_eviction_def Let_def split: sum.splits if_splits)
      then show ?thesis
        using False none Some re update_same [OF Some]
        by (intro steps_stutter)
          (auto simp: begin_content_eviction_def on_entry_def io_bind_def
            split: sum.split ContentEvictionDecision.split)
    qed
  qed
qed

lemma record_content_eviction_effect_step: "steps_to s (snd (record_content_eviction_effect i effect s))"
  using content_step.eviction_moved [of "content_abs s" i _ "RecordPhysicalEffect effect"]
  by (auto simp: steps_to_def record_content_eviction_effect_def content_step.stutter
      split: option.split prod.split)

lemma reconcile_content_eviction_metadata_step:
  "steps_to s (snd (reconcile_content_eviction_metadata i s))"
proof (cases "map_of (st_evictions s) i")
  case None
  then show ?thesis by (intro steps_stutter) (simp add: reconcile_content_eviction_metadata_def)
next
  case (Some r)
  let ?k = "ev_cache_key (ev_intent r)"
  have "content_step (content_abs s) (set_eviction i r' (set_entry ?k e' (content_abs s)))"
    if "map_of (st_entries s) ?k = Some e" "reconcile_eviction (ev_plan r) e = (Inr (), e')"
      "mark_metadata_reconciled r = (Inr t, r')" for e e' t r'
    using content_step.eviction_reconciled [of "content_abs s" i r eviction_op.MarkMetadataReconciled e e'] Some that
    by simp
  then show ?thesis
    using Some
    by (auto simp: steps_to_def reconcile_content_eviction_metadata_def Let_def content_step.stutter
        split: option.split prod.split sum.split)
qed

lemma complete_content_eviction_step: "steps_to s (snd (complete_content_eviction i s))"
proof (cases "map_of (st_evictions s) i")
  case None
  then show ?thesis by (intro steps_stutter) (simp add: complete_content_eviction_def)
next
  case (Some r)
  let ?k = "ev_cache_key (ev_intent r)"
  have "content_step (content_abs s) (set_eviction i r' (set_entry ?k e' (content_abs s)))"
    if "ev_state r \<noteq> ContentEvictionState.Completed" "map_of (st_entries s) ?k = Some e"
      "ContentEvictionRecord_complete r = (Inr t, r')" "complete_eviction e = (Inr (), e')" for e e' t r'
    using content_step.eviction_completed [of "content_abs s" i r t r' e e'] Some that by simp
  then show ?thesis
    using Some
    by (auto simp: steps_to_def complete_content_eviction_def Let_def content_step.stutter
        split: option.split prod.split sum.split)
qed

subsection \<open>Cache writes\<close>

lemma begin_content_cache_write_step:
  assumes "extent_wf intent"
  shows "steps_to s (snd (begin_content_cache_write intent s))"
proof (cases "map_of (st_cache_writes s) (cw_operation_id intent) \<noteq> None
    \<or> map_of (st_entries s) (cw_cache_key intent) = None")
  case True
  then show ?thesis
    by (intro steps_stutter) (auto simp: begin_content_cache_write_def split: option.split)
next
  case False
  then obtain e where none: "map_of (st_cache_writes s) (cw_operation_id intent) = None"
    and e: "map_of (st_entries s) (cw_cache_key intent) = Some e" by auto
  obtain res e' where be: "begin_cache_write e = (res, e')" by fastforce
  show ?thesis
  proof (cases res)
    case (Inr u)
    then show ?thesis
      using content_step.write_begun [of "content_abs s" intent e e'] none e be assms
      by (auto simp: steps_to_def begin_content_cache_write_def on_entry_def io_bind_def content_step.stutter)
  next
    case (Inl err)
    then have "e' = e" using be by (auto simp: begin_cache_write_def split: if_splits option.splits)
    then show ?thesis
      using none e be Inl update_same [OF e]
      by (intro steps_stutter) (simp add: begin_content_cache_write_def on_entry_def io_bind_def)
  qed
qed

lemma record_physical_commit_step: "steps_to s (snd (record_content_cache_write_physical_commit i s))"
  using content_step.write_moved [of "content_abs s" i _ MarkPhysicalBytesCommitted]
  by (auto simp: steps_to_def record_content_cache_write_physical_commit_def content_step.stutter
      split: option.split prod.split)

lemma record_cache_write_extent_cases:
  assumes "record_cache_write_extent intent e = (Inr (), e')"
    and "extent_wf intent"
  obtains "e' = e" | rg res where "range_wf rg" "record_provider_range rg e = (res, e')"
  using assms
  by (auto simp: record_cache_write_extent_def extent_wf_def io_bind_eq_Inr ByteRange_new_eq_Inr
      split: ContentCacheWriteExtent.splits if_splits)

lemma reconcile_coverage_step:
  assumes ok: "content_ok (content_abs s)"
  shows "steps_to s (snd (reconcile_content_cache_write_coverage i s))"
proof (cases "map_of (st_cache_writes s) i")
  case None
  then show ?thesis by (intro steps_stutter) (simp add: reconcile_content_cache_write_coverage_def)
next
  case (Some r)
  let ?k = "cw_cache_key (cw_intent r)"
  have "content_step (content_abs s) (set_write i r' (set_entry ?k e' (content_abs s)))"
    if e: "map_of (st_entries s) ?k = Some e" and m: "mark_coverage_committed r = (Inr t, r')"
      and x: "record_cache_write_extent (cw_intent r') e = (Inr (), e')" for e e' t r'
  proof -
    have r': "r' = snd (cache_write_apply MarkCoverageCommitted r)" by (simp add: m)
    have "cw_intent r' = cw_intent r" using cache_write_moves(1) [of MarkCoverageCommitted r] by (simp add: m)
    then have wf: "extent_wf (cw_intent r')"
      using writes_okD(2) [OF content_okD(2) [OF ok], of i r] Some by simp
    consider "e' = e" | rg res where "range_wf rg" "record_provider_range rg e = (res, e')"
      by (rule record_cache_write_extent_cases [OF x wf])
    then show ?thesis
    proof cases
      case 1
      then have "set_entry ?k e' (content_abs s) = content_abs s"
        using e by (simp add: content_sets content_abs_def fun_upd_idem)
      then show ?thesis
        using content_step.write_moved [of "content_abs s" i r MarkCoverageCommitted] Some by (simp add: r')
    next
      case (2 rg res)
      then show ?thesis
        using content_step.write_covered [of "content_abs s" i r MarkCoverageCommitted ?k e rg res e'] Some e
        by (simp add: r')
    qed
  qed
  then show ?thesis
    using Some
    by (auto simp: steps_to_def reconcile_content_cache_write_coverage_def Let_def content_step.stutter
        split: option.split prod.split sum.split)
qed

lemma complete_content_cache_write_step: "steps_to s (snd (complete_content_cache_write i s))"
proof (cases "map_of (st_cache_writes s) i")
  case None
  then show ?thesis by (intro steps_stutter) (simp add: complete_content_cache_write_def)
next
  case (Some r)
  let ?k = "cw_cache_key (cw_intent r)"
  have "content_step (content_abs s) (set_write i r' (set_entry ?k e' (content_abs s)))"
    if "cw_state r \<noteq> ContentCacheWriteState.Completed" "map_of (st_entries s) ?k = Some e"
      "ContentCacheWriteRecord_complete r = (Inr t, r')" "complete_cache_write e = (Inr (), e')" for e e' t r'
    using content_step.write_completed [of "content_abs s" i r t r' e e'] Some that by simp
  then show ?thesis
    using Some
    by (auto simp: steps_to_def complete_content_cache_write_def Let_def content_step.stutter
        split: option.split prod.split sum.split)
qed


subsection \<open>Uploads\<close>

lemma persist_content_upload_intent_step: "steps_to s (snd (persist_content_upload_intent intent g s))"
proof (cases "\<exists>e. map_of (st_uploads s) (ui_operation_id intent) = None \<and>
    having (map_of (st_uploads s)) (\<lambda>r. ui_idempotency_key (ur_intent r) = ui_idempotency_key intent
         \<or> ui_upload_lease_id (ur_intent r) = ui_upload_lease_id intent) = {} \<and>
    map_of (st_entries s) (ui_base_cache_key intent) = Some e")
  case False
  have "\<exists>r \<in> snd ` set (st_uploads s). P r" if "having (map_of (st_uploads s)) P \<noteq> {}" for P
    using that by (force simp: having_def dest: map_of_SomeD)
  then show ?thesis
    using False
    by (intro steps_stutter) (auto simp: persist_content_upload_intent_def split: option.split)
next
  case True
  then obtain e where none: "map_of (st_uploads s) (ui_operation_id intent) = None"
    and fresh: "having (map_of (st_uploads s)) (\<lambda>r. ui_idempotency_key (ur_intent r) = ui_idempotency_key intent
         \<or> ui_upload_lease_id (ur_intent r) = ui_upload_lease_id intent) = {}"
    and e: "map_of (st_entries s) (ui_base_cache_key intent) = Some e" by blast
  obtain res e' where ac: "acquire_lease (ui_upload_lease_id intent) Upload e = (res, e')" by fastforce
  have "content_step (content_abs s) (set_upload (ui_operation_id intent) (ContentUploadRecord_persist intent)
      (set_entry (ui_base_cache_key intent) e' (content_abs s)))" if "res = Inr c" for c
    using content_step.upload_persisted [of "content_abs s" intent e c e'] none fresh e ac that by simp
  moreover have "e' = e" if "res = Inl err" for err
    using ac that by (auto simp: acquire_lease_def lease_increment_def split: if_splits option.splits prod.splits sum.splits)
  ultimately show ?thesis
    using none e ac update_same [OF e]
    by (cases res) (auto simp: steps_to_def persist_content_upload_intent_def on_entry_def io_bind_def
        content_step.stutter split: option.split)
qed

lemma fenced_upload_step:
  assumes "\<And>r. map_of (st_uploads s) i = Some r \<Longrightarrow> steps_to s (snd (write r s))"
  shows "steps_to s (snd (fenced_upload i g write s))"
  using assms steps_stutter [of s s] by (auto simp: fenced_upload_def split: option.split)

lemma in_place_step:
  assumes "map_of (st_uploads s) i = Some r" "uop \<noteq> CompleteUpload"
  shows "steps_to s (snd (upload_transition_in_place i uop r s))"
  using content_step.upload_moved [of "content_abs s" i r uop] assms
  by (auto simp: steps_to_def upload_transition_in_place_def split: prod.split)

lemma settle_dirty_cases:
  assumes "settle_dirty r e = (Inr status, e')"
  obtains "e' = e" | res where "clear_dirty (snap_generation (ui_snapshot (ur_intent r))) e = (res, e')"
  using assms
  by (auto simp: settle_dirty_def Let_def io_bind_eq_Inr split: option.splits MutationRemoteOutcome.splits)

lemma reconcile_upload_step: "steps_to s (snd (reconcile_content_upload_metadata i g s))"
proof -
  have "content_step (content_abs s) (set_upload i r' (set_entry (ui_base_cache_key (ur_intent r)) e' (content_abs s)))"
    if r: "map_of (st_uploads s) i = Some r" and e: "map_of (st_entries s) (ui_base_cache_key (ur_intent r)) = Some e"
      and m: "upload_mark_metadata_reconciled r = (Inr t, r')"
      and x: "settle_dirty r' e = (Inr status, e')" for r e e' t r' status
  proof -
    let ?k = "ui_base_cache_key (ur_intent r)"
    have r': "r' = snd (upload_transition upload_op.MarkMetadataReconciled r)" by (simp add: m)
    have int: "ur_intent r' = ur_intent r"
      using m by (auto simp: upload_mark_metadata_reconciled_def split: ContentUploadState.splits)
    consider "e' = e" | res where "clear_dirty (snap_generation (ui_snapshot (ur_intent r'))) e = (res, e')"
      by (rule settle_dirty_cases [OF x])
    then show ?thesis
    proof cases
      case 1
      then have "set_entry ?k e' (content_abs s) = content_abs s"
        using e by (simp add: content_sets content_abs_def fun_upd_idem)
      then show ?thesis
        using content_step.upload_moved [of "content_abs s" i r upload_op.MarkMetadataReconciled] r by (simp add: r')
    next
      case (2 res)
      then show ?thesis
        using content_step.upload_reconciled
          [of "content_abs s" i r upload_op.MarkMetadataReconciled e res e'] r e int by (simp add: r')
    qed
  qed
  then show ?thesis
    unfolding reconcile_content_upload_metadata_def
    by (intro fenced_upload_step)
      (auto simp: steps_to_def Let_def content_step.stutter split: option.split prod.split sum.split)
qed

lemma complete_upload_step: "steps_to s (snd (complete_content_upload i g s))"
proof -
  have "content_step (content_abs s) (set_upload i r' (set_entry (ui_base_cache_key (ur_intent r)) e' (content_abs s)))"
    if "map_of (st_uploads s) i = Some r" "ur_state r \<noteq> ContentUploadState.Completed"
      "map_of (st_entries s) (ui_base_cache_key (ur_intent r)) = Some e"
      "ContentUploadRecord_complete r = (Inr t, r')"
      "release_lease (ui_upload_lease_id (ur_intent r)) e = (Inr c, e')" for e e' t r r' c
    using content_step.upload_completed [of "content_abs s" i r t r' e c e'] that by simp
  then show ?thesis
    unfolding complete_content_upload_def
    by (intro fenced_upload_step)
      (auto simp: steps_to_def Let_def content_step.stutter split: option.split prod.split sum.split)
qed

section \<open>Reachable stores\<close>

primrec content_upload_write ::
  "upload_op \<Rightarrow> OperationId \<Rightarrow> SessionGeneration \<Rightarrow> StoreWriteStatus content_io" where
  "content_upload_write (RecordSession session) i g = record_content_upload_session i session g"
| "content_upload_write BeginRemoteCommit i g = begin_content_upload_remote_commit i g"
| "content_upload_write (RecordUploadOutcome outcome) i g = record_content_upload_remote_outcome i outcome g"
| "content_upload_write upload_op.MarkMetadataReconciled i g = reconcile_content_upload_metadata i g"
| "content_upload_write CompleteUpload i g = complete_content_upload i g"

datatype content_op =
    CreateContentEntry ContentStorageEntry
  | RecordProviderCachedRange ContentCacheKey ByteRange
  | ObserveContentMaterialization ContentCacheKey PlatformMaterializationState
  | SetContentPinned ContentCacheKey bool
  | MarkContentDirty ContentCacheKey LocalContentSnapshot
  | ClearContentDirty ContentCacheKey LocalContentGeneration
  | AcquireContentLease ContentCacheKey ContentLeaseId ContentLeaseKind
  | ReleaseContentLease ContentCacheKey ContentLeaseId
  | BeginContentEviction ContentEvictionIntent
  | RecordContentEvictionEffect ContentEvictionOperationId ContentEvictionPhysicalEffect
  | ReconcileContentEviction ContentEvictionOperationId
  | CompleteContentEviction ContentEvictionOperationId
  | BeginContentCacheWrite ContentCacheWriteIntent
  | RecordPhysicalCommit ContentCacheWriteOperationId
  | ReconcileCoverage ContentCacheWriteOperationId
  | CompleteContentCacheWrite ContentCacheWriteOperationId
  | PersistContentUpload ContentUploadIntent SessionGeneration
  | ContentUploadWrite upload_op OperationId SessionGeneration
  | ActivateUploads CloudScope SessionGeneration
  | ArmContentFailure FailurePoint
  | StallUploadSession
  | StallUploadOutcome

primrec content_apply :: "content_op \<Rightarrow> MemoryContentStorageStore \<Rightarrow> MemoryContentStorageStore" where
  "content_apply (CreateContentEntry e) s = snd (create_content_entry e s)"
| "content_apply (RecordProviderCachedRange key r) s = snd (record_provider_cached_range key r s)"
| "content_apply (ObserveContentMaterialization key st) s = snd (observe_content_materialization key st s)"
| "content_apply (SetContentPinned key p) s = snd (set_content_pinned key p s)"
| "content_apply (MarkContentDirty key snapshot) s = snd (mark_content_dirty key snapshot s)"
| "content_apply (ClearContentDirty key generation) s = snd (clear_content_dirty key generation s)"
| "content_apply (AcquireContentLease key lease_id kind) s = snd (acquire_content_lease key lease_id kind s)"
| "content_apply (ReleaseContentLease key lease_id) s = snd (release_content_lease key lease_id s)"
| "content_apply (BeginContentEviction intent) s = snd (begin_content_eviction intent s)"
| "content_apply (RecordContentEvictionEffect i effect) s = snd (record_content_eviction_effect i effect s)"
| "content_apply (ReconcileContentEviction i) s = snd (reconcile_content_eviction_metadata i s)"
| "content_apply (CompleteContentEviction i) s = snd (complete_content_eviction i s)"
| "content_apply (BeginContentCacheWrite intent) s = snd (begin_content_cache_write intent s)"
| "content_apply (RecordPhysicalCommit i) s = snd (record_content_cache_write_physical_commit i s)"
| "content_apply (ReconcileCoverage i) s = snd (reconcile_content_cache_write_coverage i s)"
| "content_apply (CompleteContentCacheWrite i) s = snd (complete_content_cache_write i s)"
| "content_apply (PersistContentUpload intent g) s = snd (persist_content_upload_intent intent g s)"
| "content_apply (ContentUploadWrite uop i g) s = snd (content_upload_write uop i g s)"
| "content_apply (ActivateUploads scope g) s = snd (activate_content_upload_generation scope g s)"
| "content_apply (ArmContentFailure point) s = content_arm point s"
| "content_apply StallUploadSession s = stall_next_content_upload_session s"
| "content_apply StallUploadOutcome s = stall_next_content_upload_remote_outcome s"

text \<open>
  What callers respect: ranges come out of \<open>ByteRange::new\<close>, an entry is created without
  reservations, and nobody but the upload itself releases the lease of an unfinished upload.
\<close>

fun content_op_ok :: "MemoryContentStorageStore \<Rightarrow> content_op \<Rightarrow> bool" where
  "content_op_ok s (CreateContentEntry e) \<longleftrightarrow>
     entry_inv e \<and> active_cache_writes e = 0 \<and> \<not> eviction_reserved e"
| "content_op_ok s (RecordProviderCachedRange key r) \<longleftrightarrow> range_wf r"
| "content_op_ok s (ReleaseContentLease key lease_id) \<longleftrightarrow> \<not> lease_in_use (content_abs s) key lease_id"
| "content_op_ok s (BeginContentCacheWrite intent) \<longleftrightarrow> extent_wf intent"
| "content_op_ok s cop \<longleftrightarrow> True"

inductive content_reaches :: "MemoryContentStorageStore \<Rightarrow> MemoryContentStorageStore \<Rightarrow> bool" where
  here: "content_reaches s s"
| called: "content_reaches s s' \<Longrightarrow> content_op_ok s' cop \<Longrightarrow> content_reaches s (content_apply cop s')"

definition content_reachable :: "MemoryContentStorageStore \<Rightarrow> bool" where
  "content_reachable s \<longleftrightarrow> content_reaches MemoryContentStorageStore_default s"

lemma upload_write_step: "steps_to s (snd (content_upload_write uop i g s))"
proof (cases uop)
  case (RecordSession session)
  have "steps_to s (snd (record_content_upload_session i session g s))"
    unfolding record_content_upload_session_def
    by (rule fenced_upload_step)
      (use in_place_step [of s i _ "RecordSession session"] in
        \<open>auto simp: steps_to_def content_step.stutter\<close>)
  then show ?thesis using RecordSession by simp
next
  case BeginRemoteCommit
  have "steps_to s (snd (begin_content_upload_remote_commit i g s))"
    unfolding begin_content_upload_remote_commit_def
    by (rule fenced_upload_step)
      (use in_place_step [of s i _ BeginRemoteCommit] in \<open>auto simp: steps_to_def\<close>)
  then show ?thesis using BeginRemoteCommit by simp
next
  case (RecordUploadOutcome outcome)
  have "steps_to s (snd (record_content_upload_remote_outcome i outcome g s))"
    unfolding record_content_upload_remote_outcome_def
    by (rule fenced_upload_step)
      (use in_place_step [of s i _ "RecordUploadOutcome outcome"] in
        \<open>auto simp: steps_to_def content_step.stutter\<close>)
  then show ?thesis using RecordUploadOutcome by simp
qed (simp_all add: reconcile_upload_step complete_upload_step)

lemma content_apply_step:
  assumes "content_ok (content_abs s)" "content_op_ok s cop"
  shows "content_step (content_abs s) (content_abs (content_apply cop s))"
proof -
  have "steps_to s (content_apply cop s)"
  proof (cases cop)
    case (ReconcileCoverage i)
    then show ?thesis using reconcile_coverage_step [OF assms(1)] by simp
  next
    case (ActivateUploads scope g)
    then show ?thesis
      by (auto simp: activate_content_upload_generation_def Let_def steps_to_def content_step.stutter
          split: option.split)
  qed (use assms(2) in \<open>simp_all add: create_content_entry_step entry_methods_step release_content_lease_step
      begin_content_eviction_step record_content_eviction_effect_step reconcile_content_eviction_metadata_step
      complete_content_eviction_step begin_content_cache_write_step record_physical_commit_step
      complete_content_cache_write_step persist_content_upload_intent_step upload_write_step
      steps_stutter content_arm_def stall_next_content_upload_session_def
      stall_next_content_upload_remote_outcome_def\<close>)
  then show ?thesis by (simp add: steps_to_def)
qed

lemma reaches_ok:
  assumes "content_reaches s s'" "content_ok (content_abs s)"
  shows "content_ok (content_abs s')" and "uploads_le (map_of (st_uploads s)) (map_of (st_uploads s'))"
proof -
  have "content_ok (content_abs s') \<and> uploads_le (map_of (st_uploads s)) (map_of (st_uploads s'))"
    using assms
  proof (induction rule: content_reaches.induct)
    case (called s s' cop)
    then have ok: "content_ok (content_abs s')" and le: "uploads_le (map_of (st_uploads s)) (map_of (st_uploads s'))"
      by simp_all
    note step = content_apply_step [OF ok called.hyps(2)]
    have "uploads_le (map_of (st_uploads s')) (map_of (st_uploads (content_apply cop s')))"
      using content_step_uploads_le [OF step ok] by simp
    then show ?case using content_step_ok [OF step ok] ranked_journal_trans [OF le] by blast
  qed simp
  then show "content_ok (content_abs s')" "uploads_le (map_of (st_uploads s)) (map_of (st_uploads s'))" by simp_all
qed

lemma default_content_ok: "content_ok (content_abs MemoryContentStorageStore_default)"
  by (simp add: content_ok_def writes_ok_def evictions_ok_def uploads_ok_def content_abs_def
      MemoryContentStorageStore_default_def having_def)

lemma reachable_content_ok: "content_reachable s \<Longrightarrow> content_ok (content_abs s)"
  unfolding content_reachable_def using reaches_ok(1) default_content_ok by blast

lemma reaches_trans: "content_reaches s' s'' \<Longrightarrow> content_reaches s s' \<Longrightarrow> content_reaches s s''"
  by (induction rule: content_reaches.induct) (auto intro: content_reaches.called)

lemma reaches_call: "content_op_ok s cop \<Longrightarrow> content_reaches s (content_apply cop s)"
  by (rule content_reaches.called [OF content_reaches.here])

end
