(* ===== verification/Content_Uploads.thy ===== *)
theory Content_Uploads
  imports Content_Store_Laws
begin

text \<open>
  The upload runner on the in-memory content store: the store interprets the contracts
  \<open>upload_journal\<close> and \<open>live_upload\<close> of the runner, for every backend and every snapshot reader.
\<close>

section \<open>Ports that may let other executors act\<close>

text \<open>
  A call to the backend or to the snapshot reader may take arbitrarily long, so that other
  executors call the store meanwhile. All it can do to the store is such calls.
\<close>

definition only_store_calls ::
  "'b content_world CloudContentUploadBackend \<Rightarrow> 'b content_world LocalContentSnapshotReader \<Rightarrow> bool" where
  "only_store_calls backend source \<longleftrightarrow>
     (\<forall>intent session chunk snapshot off len w.
        content_reaches (fst w) (fst (snd (ub_start_upload backend intent w))) \<and>
        content_reaches (fst w) (fst (snd (ub_upload_chunk backend intent chunk w))) \<and>
        content_reaches (fst w) (fst (snd (ub_reconcile_upload_chunk backend intent session chunk w))) \<and>
        content_reaches (fst w) (fst (snd (ub_commit_upload backend intent session w))) \<and>
        content_reaches (fst w) (fst (snd (ub_reconcile_upload backend intent w))) \<and>
        content_reaches (fst w) (fst (snd (sr_read_snapshot source snapshot off len w))))"

abbreviation world_ok :: "'b content_world \<Rightarrow> bool" where
  "world_ok w \<equiv> content_ok (content_abs (fst w))"

abbreviation world_uploads :: "'b content_world \<Rightarrow> OperationId \<rightharpoonup> ContentUploadRecord" where
  "world_uploads w \<equiv> map_of (st_uploads (fst w))"

lemma on_content_apply: "on_content m (s, b) = (fst (m s), (snd (m s), b))"
  by (simp add: on_content_def split: prod.split)

lemma upload_write_memory: "upload_write memory_upload_store uop i g = on_content (content_upload_write uop i g)"
  by (cases uop) (simp_all add: memory_upload_store_def)

lemma load_upload_memory:
  "cu_load_content_upload memory_upload_store i w = (Inr (world_uploads w i), w)"
  by (cases w) (simp add: memory_upload_store_def on_content_apply load_content_upload_def)

locale upload_environment =
  fixes backend :: "'b content_world CloudContentUploadBackend"
    and source :: "'b content_world LocalContentSnapshotReader"
  assumes env: "only_store_calls backend source"
begin

lemma reaches_forward:
  assumes "world_ok w" "content_reaches (fst w) (fst w')"
  shows "world_ok w' \<and> uploads_le (world_uploads w) (world_uploads w')"
  using reaches_ok [OF assms(2,1)] by blast

lemma env_calls:
  "ub_start_upload backend intent w = (res_start, w') \<Longrightarrow> content_reaches (fst w) (fst w')"
  "ub_upload_chunk backend intent chunk w = (res_chunk, w') \<Longrightarrow> content_reaches (fst w) (fst w')"
  "ub_reconcile_upload_chunk backend intent session chunk w = (res_reconcile_chunk, w') \<Longrightarrow> content_reaches (fst w) (fst w')"
  "ub_commit_upload backend intent session w = (res_commit, w') \<Longrightarrow> content_reaches (fst w) (fst w')"
  "ub_reconcile_upload backend intent w = (res_reconcile, w') \<Longrightarrow> content_reaches (fst w) (fst w')"
  "sr_read_snapshot source snapshot off len w = (res_read, w') \<Longrightarrow> content_reaches (fst w) (fst w')"
proof -
  have "content_reaches (fst w) (fst (snd (ub_start_upload backend intent w)))"
    "content_reaches (fst w) (fst (snd (ub_upload_chunk backend intent chunk w)))"
    "content_reaches (fst w) (fst (snd (ub_reconcile_upload_chunk backend intent session chunk w)))"
    "content_reaches (fst w) (fst (snd (ub_commit_upload backend intent session w)))"
    "content_reaches (fst w) (fst (snd (ub_reconcile_upload backend intent w)))"
    "content_reaches (fst w) (fst (snd (sr_read_snapshot source snapshot off len w)))"
    using env unfolding only_store_calls_def by blast+
  note calls = this
  show "ub_start_upload backend intent w = (res_start, w') \<Longrightarrow> content_reaches (fst w) (fst w')" using calls(1) by simp
  show "ub_upload_chunk backend intent chunk w = (res_chunk, w') \<Longrightarrow> content_reaches (fst w) (fst w')" using calls(2) by simp
  show "ub_reconcile_upload_chunk backend intent session chunk w = (res_reconcile_chunk, w') \<Longrightarrow> content_reaches (fst w) (fst w')" using calls(3) by simp
  show "ub_commit_upload backend intent session w = (res_commit, w') \<Longrightarrow> content_reaches (fst w) (fst w')" using calls(4) by simp
  show "ub_reconcile_upload backend intent w = (res_reconcile, w') \<Longrightarrow> content_reaches (fst w) (fst w')" using calls(5) by simp
  show "sr_read_snapshot source snapshot off len w = (res_read, w') \<Longrightarrow> content_reaches (fst w) (fst w')" using calls(6) by simp
qed

end

sublocale upload_environment \<subseteq>
  upload_journal memory_upload_store backend source world_ok world_uploads
proof
  fix w :: "'b content_world" and w' i found
  show "found = world_uploads w' i" if "cu_load_content_upload memory_upload_store i w = (Inr found, w')"
    using that by (auto simp: load_upload_memory)
next
  fix w :: "'b content_world" and i r assume "world_ok w" "world_uploads w i = Some r"
  then show "upload_good r" using uploads_okD(1) [OF content_okD(4)] by fastforce
next
  fix w :: "'b content_world" and w' i found
  show "world_ok w' \<and> uploads_le (world_uploads w) (world_uploads w')"
    if "world_ok w" "cu_load_content_upload memory_upload_store i w = (found, w')"
    using that by (auto simp: load_upload_memory)
next
  fix w :: "'b content_world" and w' uop i g st
  assume ok: "world_ok w" and wr: "upload_write memory_upload_store uop i g w = (st, w')"
  have "fst w' = content_apply (ContentUploadWrite uop i g) (fst w)"
    using wr by (cases w) (auto simp: upload_write_memory on_content_apply)
  then have "content_reaches (fst w) (fst w')"
    using reaches_call [of "fst w" "ContentUploadWrite uop i g"] by simp
  then show "world_ok w' \<and> uploads_le (world_uploads w) (world_uploads w')" by (rule reaches_forward [OF ok])
qed (rule reaches_forward, assumption, erule env_calls)+

context upload_environment
begin

lemma run_returns:
  "world_ok w \<Longrightarrow> \<exists>res w'. upload_resume runner i g memory_upload_store backend source w = Some (res, w')"
  by (rule resume_returns)

lemma run_completed:
  assumes "world_ok w" and "upload_resume runner i g memory_upload_store backend source w
    = Some (Inr ContentUploadRunOutcome.Completed, w')"
  shows "\<exists>r. world_uploads w' i = Some r \<and> ur_state r = ContentUploadState.Completed \<and> upload_good r"
  using assms by (rule resume_completed)

lemma run_forward:
  assumes "world_ok w" and "upload_resume runner i g memory_upload_store backend source w = Some (res, w')"
  shows "world_ok w' \<and> uploads_le (world_uploads w) (world_uploads w')"
  using assms by (rule resume_forward)

end

section \<open>Ports that leave the store alone\<close>

text \<open>A backend and a reader with a state \<open>'b\<close> of their own.\<close>

definition beside :: "('b, 'e, 'a) io \<Rightarrow> ('b content_world, 'e, 'a) io" where
  "beside m w = (case m (snd w) of (res, b) \<Rightarrow> (res, (fst w, b)))"

definition lift_backend :: "'b CloudContentUploadBackend \<Rightarrow> 'b content_world CloudContentUploadBackend" where
  "lift_backend backend =
     \<lparr>ub_start_upload = (\<lambda>intent. beside (ub_start_upload backend intent)),
      ub_upload_chunk = (\<lambda>intent chunk. beside (ub_upload_chunk backend intent chunk)),
      ub_reconcile_upload_chunk =
        (\<lambda>intent session chunk. beside (ub_reconcile_upload_chunk backend intent session chunk)),
      ub_commit_upload = (\<lambda>intent session. beside (ub_commit_upload backend intent session)),
      ub_reconcile_upload = (\<lambda>intent. beside (ub_reconcile_upload backend intent))\<rparr>"

definition lift_source :: "'b LocalContentSnapshotReader \<Rightarrow> 'b content_world LocalContentSnapshotReader" where
  "lift_source source =
     \<lparr>sr_read_snapshot = (\<lambda>snapshot off len. beside (sr_read_snapshot source snapshot off len))\<rparr>"

lemma beside_eq: "beside m w = (res, w') \<longleftrightarrow> m (snd w) = (res, snd w') \<and> fst w' = fst w"
  by (cases w; cases w') (auto simp: beside_def split: prod.splits)

lemma beside_fst [simp]: "fst (snd (beside m w)) = fst w"
  by (simp add: beside_def split: prod.split)

lemma lifted_only_store_calls: "only_store_calls (lift_backend backend) (lift_source source)"
  by (simp add: only_store_calls_def lift_backend_def lift_source_def content_reaches.here)

interpretation lifted: upload_environment "lift_backend backend" "lift_source source" for backend source
  by unfold_locales (rule lifted_only_store_calls)

section \<open>Undisturbed runs\<close>

text \<open>
  The executor generation is active, no crash point and no stall is armed, and the entry still
  accepts that the uploaded generation is cleared.
\<close>

definition clearable :: "ContentUploadIntent \<Rightarrow> ContentStorageEntry \<Rightarrow> bool" where
  "clearable intent e \<longleftrightarrow>
     (\<forall>dirty. dirty_snapshot e = Some dirty \<longrightarrow>
        snap_generation (ui_snapshot intent) \<le> snap_generation dirty)"

definition content_live :: "MemoryContentStorageStore \<Rightarrow> OperationId \<Rightarrow> SessionGeneration \<Rightarrow> bool" where
  "content_live s i g \<longleftrightarrow>
     st_failures s = {} \<and> \<not> st_stall_next_upload_session s \<and> \<not> st_stall_next_upload_remote_outcome s \<and>
     (\<forall>r. map_of (st_uploads s) i = Some r \<longrightarrow>
        upload_execution_is_active s (upload_scope (ur_intent r)) g \<and>
        (\<forall>e. map_of (st_entries s) (ui_base_cache_key (ur_intent r)) = Some e \<longrightarrow>
           clearable (ur_intent r) e))"

lemma quiet_trip: "st_failures s = {} \<Longrightarrow> content_trip p s = (Inr (), s)"
  by (simp add: content_trip_def FailureInjector_trip_def)

lemma quiet_then_trip: "st_failures s = {} \<Longrightarrow> content_then_trip p status s = (Inr status, s)"
  by (simp add: content_then_trip_def io_bind_def quiet_trip)

lemma quiet_tripping: "m s = (Inr status, s1) \<Longrightarrow> st_failures s1 = {} \<Longrightarrow> content_tripping p m s = (Inr status, s1)"
  by (simp add: content_tripping_def io_bind_def quiet_trip)

lemma live_fenced:
  assumes "content_live s i g" "map_of (st_uploads s) i = Some r"
  shows "fenced_upload i g write s = write r s"
  using assms by (simp add: content_live_def fenced_upload_def)

lemma release_lease_ok:
  assumes "entry_inv e"
  shows "\<exists>changed e'. release_lease lease_id e = (Inr changed, e') \<and> dirty_snapshot e' = dirty_snapshot e"
proof (cases "leases e lease_id")
  case (Some kind)
  then have "lease_id \<in> holders e kind" by (simp add: holders_def)
  then have "0 < card (holders e kind)" using entry_inv_counts(2) [OF assms] by (auto simp: card_gt_0_iff)
  then have "1 \<le> lease_value (lease_counts e) kind"
    using entry_inv_counts(1) [OF assms, of kind] by (simp add: word_le_nat_alt)
  then have "checked_sub (lease_value (lease_counts e) kind) 1 = Some (lease_value (lease_counts e) kind - 1)"
    by simp
  then show ?thesis using Some by (auto simp: release_lease_def lease_decrement_def Let_def simp del: checked_sub_eq_Some)
qed (auto simp: release_lease_def)

lemma clear_dirty_ok:
  assumes "clearable intent e"
  shows "\<exists>t e'. clear_dirty (snap_generation (ui_snapshot intent)) e = (Inr t, e') \<and> clearable intent e'"
  using assms
  by (auto simp: clear_dirty_def clearable_def not_less split: option.split)

lemma settle_dirty_ok:
  assumes "clearable (ur_intent r) e" "upload_good r" "ur_state r = ContentUploadState.MetadataReconciled"
  shows "\<exists>status e'. settle_dirty r e = (Inr status, e') \<and> clearable (ur_intent r) e'"
proof -
  obtain outcome where o: "ur_remote_outcome r = Some outcome"
    "outcome \<noteq> MutationRemoteOutcome.RemoteOutcomeUnknown"
    using assms(2,3) by (auto simp: upload_good_def split: option.splits if_splits)
  obtain t e' where "clear_dirty (snap_generation (ui_snapshot (ur_intent r))) e = (Inr t, e')"
    "clearable (ur_intent r) e'"
    using clear_dirty_ok [OF assms(1)] by blast
  then show ?thesis
    using o assms(1) by (cases outcome) (simp_all add: settle_dirty_def Let_def io_bind_def io_try_def)
qed

lemma set_upload_live:
  assumes "content_live s i g" "map_of (st_uploads s) i = Some r" "ur_intent r' = ur_intent r"
    and "\<And>e. map_of es (ui_base_cache_key (ur_intent r)) = Some e \<Longrightarrow> clearable (ur_intent r) e"
  shows "content_live (s\<lparr>st_entries := es, st_uploads := AList.update i r' (st_uploads s)\<rparr>) i g"
  using assms by (simp add: content_live_def upload_execution_is_active_def)

text \<open>An applied transition of the record is what the store does.\<close>

lemma live_in_place:
  assumes "content_live s i g" "map_of (st_uploads s) i = Some r" "ur_intent r' = ur_intent r"
    and t: "upload_transition uop r = (Inr ContentUploadRecordTransition.Applied, r')"
  shows "content_tripping p (upload_transition_in_place i uop r) s
      = (Inr StoreWriteStatus.Applied, s\<lparr>st_uploads := AList.update i r' (st_uploads s)\<rparr>)"
    and "content_live (s\<lparr>st_uploads := AList.update i r' (st_uploads s)\<rparr>) i g"
proof -
  show "content_live (s\<lparr>st_uploads := AList.update i r' (st_uploads s)\<rparr>) i g"
    using set_upload_live [OF assms(1-3), of "st_entries s"] assms(1,2) by (simp add: content_live_def)
  show "content_tripping p (upload_transition_in_place i uop r) s
      = (Inr StoreWriteStatus.Applied, s\<lparr>st_uploads := AList.update i r' (st_uploads s)\<rparr>)"
    by (rule quiet_tripping) (use assms(1) t in \<open>simp_all add: upload_transition_in_place_def content_live_def\<close>)
qed

lemma live_reconciles:
  assumes live: "content_live s i g" and r: "map_of (st_uploads s) i = Some r" and good: "upload_good r'"
    and e: "map_of (st_entries s) (ui_base_cache_key (ur_intent r)) = Some e"
    and t: "upload_transition upload_op.MarkMetadataReconciled r = (Inr ContentUploadRecordTransition.Applied, r')"
  shows "\<exists>status s'. reconcile_content_upload_metadata i g s = (Inr status, s') \<and>
    content_live s' i g \<and> map_of (st_uploads s') i = Some r'"
proof -
  have st: "ur_state r = ContentUploadState.RemoteOutcomeKnown" "ur_state r' = ContentUploadState.MetadataReconciled"
    "ur_intent r' = ur_intent r" and m: "upload_mark_metadata_reconciled r = (Inr ContentUploadRecordTransition.Applied, r')"
    using t by (auto simp: upload_mark_metadata_reconciled_def split: ContentUploadState.splits)
  have "clearable (ur_intent r') e" using live r e st(3) by (simp add: content_live_def)
  then obtain status e' where se: "settle_dirty r' e = (Inr status, e')" "clearable (ur_intent r) e'"
    using settle_dirty_ok [OF _ good st(2)] st(3) by metis
  let ?s = "s\<lparr>st_entries := AList.update (ui_base_cache_key (ur_intent r)) e' (st_entries s),
      st_uploads := AList.update i r' (st_uploads s)\<rparr>"
  have l: "content_live ?s i g" by (rule set_upload_live [OF live r st(3)]) (use se in simp)
  have "reconcile_content_upload_metadata i g s = (Inr status, ?s)"
    using live_fenced [OF live r] live e m st(1) se(1)
    by (simp add: reconcile_content_upload_metadata_def Let_def quiet_then_trip content_live_def)
  then show ?thesis using l by auto
qed

lemma live_completes:
  assumes live: "content_live s i g" and r: "map_of (st_uploads s) i = Some r" and inv: "entry_inv e"
    and e: "map_of (st_entries s) (ui_base_cache_key (ur_intent r)) = Some e"
    and t: "upload_transition CompleteUpload r = (Inr ContentUploadRecordTransition.Applied, r')"
  shows "\<exists>s'. complete_content_upload i g s = (Inr StoreWriteStatus.Applied, s') \<and>
    content_live s' i g \<and> map_of (st_uploads s') i = Some r'"
proof -
  have st: "ur_state r = ContentUploadState.MetadataReconciled" "ur_intent r' = ur_intent r"
    and m: "ContentUploadRecord_complete r = (Inr ContentUploadRecordTransition.Applied, r')"
    using t by (auto simp: ContentUploadRecord_complete_def split: ContentUploadState.splits)
  obtain c e' where rel: "release_lease (ui_upload_lease_id (ur_intent r)) e = (Inr c, e')"
    "dirty_snapshot e' = dirty_snapshot e"
    using release_lease_ok [OF inv] by blast
  let ?s = "s\<lparr>st_entries := AList.update (ui_base_cache_key (ur_intent r)) e' (st_entries s),
      st_uploads := AList.update i r' (st_uploads s)\<rparr>"
  have "clearable (ur_intent r) e'" using live r e rel(2) by (simp add: content_live_def clearable_def)
  then have l: "content_live ?s i g" by (intro set_upload_live [OF live r st(2)]) simp
  have "complete_content_upload i g s = (Inr StoreWriteStatus.Applied, ?s)"
    using live_fenced [OF live r] live e m st(1) rel(1)
    by (simp add: complete_content_upload_def Let_def quiet_then_trip content_live_def)
  then show ?thesis using l by auto
qed

lemma live_content_write:
  assumes ok: "content_ok (content_abs s)" and live: "content_live s i g" and r: "map_of (st_uploads s) i = Some r"
    and ap: "upload_apply uop r = (Inr RecordTransition.Applied, r')"
  shows "\<exists>status s'. content_upload_write uop i g s = (Inr status, s') \<and>
    (status = StoreWriteStatus.Fenced \<longrightarrow> uop = upload_op.MarkMetadataReconciled) \<and>
    content_live s' i g \<and> map_of (st_uploads s') i = Some r'"
proof -
  have t: "upload_transition uop r = (Inr ContentUploadRecordTransition.Applied, r')"
    using ap by (simp add: upload_apply_cases)
  have up: "upload_good r" "lease_held (content_abs s) r" using uploads_okD [OF content_okD(4) [OF ok]] r by simp_all
  then obtain e where e: "map_of (st_entries s) (ui_base_cache_key (ur_intent r)) = Some e"
    by (auto simp: lease_held_def)
  have inv: "entry_inv e" using content_okD(1) [OF ok] e by (simp add: entry_counts_def)
  note mv = upload_moves_good [OF up(1) upload_applied_moves [OF up(1) t]]
  note * = live_in_place [OF live r mv(3) t] live_fenced [OF live r]
  show ?thesis
  proof (cases uop)
    case MarkMetadataReconciled
    then show ?thesis using live_reconciles [OF live r mv(1) e] t by auto
  next
    case CompleteUpload
    then show ?thesis using live_completes [OF live r inv e] t by auto
  qed (use * live in \<open>auto simp: record_content_upload_session_def begin_content_upload_remote_commit_def
      record_content_upload_remote_outcome_def content_live_def\<close>)
qed

interpretation memory_uploads: live_upload memory_upload_store "lift_backend backend" "lift_source source"
  world_ok world_uploads "\<lambda>w i g. content_live (fst w) i g \<and> binv (snd w)" "\<lambda>w. recv (snd w)"
  for backend source binv recv
proof
  fix w :: "'a content_world" and i g
  show "cu_load_content_upload memory_upload_store i w = (Inr (world_uploads w i), w)"
    by (rule load_upload_memory)
next
  fix w :: "'a content_world" and i g r uop r'
  assume ok: "world_ok w" and live: "content_live (fst w) i g \<and> binv (snd w)"
    and r: "world_uploads w i = Some r" and ap: "upload_apply uop r = (Inr RecordTransition.Applied, r')"
  obtain status s' where s': "content_upload_write uop i g (fst w) = (Inr status, s')"
    "status = StoreWriteStatus.Fenced \<longrightarrow> uop = upload_op.MarkMetadataReconciled"
    "content_live s' i g" "map_of (st_uploads s') i = Some r'"
    using live_content_write [OF ok _ r ap] live by blast
  have "upload_write memory_upload_store uop i g w = (Inr status, (s', snd w))"
    using s'(1) by (cases w) (simp add: upload_write_memory on_content_apply)
  moreover have "content_ok (content_abs s')"
    using reaches_ok(1) [OF reaches_call ok, of "ContentUploadWrite uop i g"] s'(1) by simp
  ultimately show "\<exists>st w'. upload_write memory_upload_store uop i g w = (Inr st, w') \<and>
      (st = StoreWriteStatus.Fenced \<longrightarrow> uop = upload_op.MarkMetadataReconciled) \<and>
      world_ok w' \<and> (content_live (fst w') i g \<and> binv (snd w')) \<and> world_uploads w' i = Some r' \<and>
      recv (snd w') = recv (snd w)"
    using s'(2-4) live by (intro exI [of _ status] exI [of _ "(s', snd w)"]) simp
qed


section \<open>The contract of a transport\<close>

text \<open>
  What the documentation of \<open>CloudContentUploadBackend\<close> and \<open>LocalContentSnapshotReader\<close> asks of
  an implementation, for one intent and the bytes \<open>content\<close> of its snapshot: the reader returns the
  complete requested range; a session is started or resumed at an offset whose bytes are held; a
  chunk that continues a held prefix is accepted, at once or when it is reconciled after a
  conflict; commit and reconciliation give the definite \<open>answer\<close>. \<open>binv\<close> is the implementation's
  own invariant and \<open>recv b id\<close> the bytes it holds for a session.
\<close>

definition prefix_held ::
  "('b \<Rightarrow> ContentUploadSessionId \<Rightarrow> u8 list) \<Rightarrow> u8 list \<Rightarrow> ContentUploadSession \<Rightarrow> 'b \<Rightarrow> bool" where
  "prefix_held recv content session b \<longleftrightarrow>
     take (unat (us_accepted_offset session)) (recv b (us_id session))
     = take (unat (us_accepted_offset session)) content"

definition reader_contract ::
  "('b \<Rightarrow> bool) \<Rightarrow> ('b \<Rightarrow> ContentUploadSessionId \<Rightarrow> u8 list) \<Rightarrow> 'b LocalContentSnapshotReader
   \<Rightarrow> LocalContentSnapshot \<Rightarrow> u8 list \<Rightarrow> bool" where
  "reader_contract binv recv source snapshot content \<longleftrightarrow>
     (\<forall>b off len. binv b \<longrightarrow> unat off + unat len \<le> length content \<longrightarrow>
        (\<exists>b'. sr_read_snapshot source snapshot off len b = (Inr (take (unat len) (drop (unat off) content)), b') \<and>
           binv b' \<and> recv b' = recv b))"

definition session_contract ::
  "('b \<Rightarrow> bool) \<Rightarrow> ('b \<Rightarrow> ContentUploadSessionId \<Rightarrow> u8 list) \<Rightarrow> 'b CloudContentUploadBackend
   \<Rightarrow> ContentUploadIntent \<Rightarrow> u8 list \<Rightarrow> bool" where
  "session_contract binv recv backend intent content \<longleftrightarrow>
     (\<forall>b. binv b \<longrightarrow>
        (\<exists>session b'. ub_start_upload backend intent b = (Inr session, b') \<and> binv b' \<and>
           us_accepted_offset session \<le> snap_size (ui_snapshot intent) \<and>
           prefix_held recv content session b'))"

definition chunk_contract ::
  "('b \<Rightarrow> bool) \<Rightarrow> ('b \<Rightarrow> ContentUploadSessionId \<Rightarrow> u8 list) \<Rightarrow> 'b CloudContentUploadBackend
   \<Rightarrow> ContentUploadIntent \<Rightarrow> u8 list \<Rightarrow> bool" where
  "chunk_contract binv recv backend intent content \<longleftrightarrow>
     (\<forall>b session chunk. binv b \<longrightarrow> chunk_validate_for intent session chunk = Inr () \<longrightarrow>
        unat (chunk_offset chunk) + length (chunk_bytes chunk) \<le> length content \<longrightarrow>
        chunk_byte_len chunk = len_u64 (chunk_bytes chunk) \<longrightarrow> chunk_bytes chunk \<noteq> [] \<longrightarrow>
        prefix_held recv content session b \<longrightarrow>
        (\<exists>b'. send_chunk backend intent session chunk b
             = (Inr \<lparr>ack_session_id = chunk_session_id chunk,
                     ack_accepted_offset = chunk_end_exclusive chunk\<rparr>, b') \<and>
           binv b' \<and>
           take (unat (chunk_end_exclusive chunk)) (recv b' (chunk_session_id chunk))
           = take (unat (chunk_offset chunk)) (recv b (chunk_session_id chunk)) @ chunk_bytes chunk))"

definition commit_contract ::
  "('b \<Rightarrow> bool) \<Rightarrow> ('b \<Rightarrow> ContentUploadSessionId \<Rightarrow> u8 list) \<Rightarrow> 'b CloudContentUploadBackend
   \<Rightarrow> ContentUploadIntent \<Rightarrow> MutationRemoteOutcome \<Rightarrow> bool" where
  "commit_contract binv recv backend intent answer \<longleftrightarrow>
     answer \<noteq> MutationRemoteOutcome.RemoteOutcomeUnknown \<and> validate_upload_outcome intent answer = Inr () \<and>
     (\<forall>b session. binv b \<longrightarrow>
        (\<exists>b'. ub_commit_upload backend intent session b = (Inr answer, b') \<and> binv b' \<and> recv b' = recv b) \<and>
        (\<exists>b'. ub_reconcile_upload backend intent b = (Inr answer, b') \<and> binv b' \<and> recv b' = recv b))"

definition transport_contract ::
  "('b \<Rightarrow> bool) \<Rightarrow> ('b \<Rightarrow> ContentUploadSessionId \<Rightarrow> u8 list) \<Rightarrow> 'b CloudContentUploadBackend
   \<Rightarrow> 'b LocalContentSnapshotReader \<Rightarrow> ContentUploadIntent \<Rightarrow> u8 list \<Rightarrow> MutationRemoteOutcome \<Rightarrow> bool" where
  "transport_contract binv recv backend source intent content answer \<longleftrightarrow>
     length content = unat (snap_size (ui_snapshot intent)) \<and>
     reader_contract binv recv source (ui_snapshot intent) content \<and>
     session_contract binv recv backend intent content \<and>
     chunk_contract binv recv backend intent content \<and>
     commit_contract binv recv backend intent answer"

lemma lift_selectors:
  "ub_start_upload (lift_backend backend) intent = beside (ub_start_upload backend intent)"
  "ub_commit_upload (lift_backend backend) intent session = beside (ub_commit_upload backend intent session)"
  "ub_reconcile_upload (lift_backend backend) intent = beside (ub_reconcile_upload backend intent)"
  "sr_read_snapshot (lift_source source) snapshot off len = beside (sr_read_snapshot source snapshot off len)"
  by (simp_all add: lift_backend_def lift_source_def)

lemma lift_send_chunk:
  "send_chunk (lift_backend backend) intent session chunk = beside (send_chunk backend intent session chunk)"
  by (rule ext)
    (auto simp: send_chunk_def lift_backend_def beside_def io_try_def split: prod.splits sum.splits)

lemma calm_beside:
  assumes "world_ok w" "content_live (fst w) i g \<and> binv (snd w)" "binv b"
  shows "memory_uploads.calm binv i g w (fst w, b)"
  using assms by (simp add: memory_uploads.calm_def)

lemma contract_reads:
  assumes "reader_contract binv recv source snapshot content"
    and w: "world_ok w" "content_live (fst w) i g \<and> binv (snd w)"
  shows "memory_uploads.reads_snapshot source binv recv i g snapshot content w"
  unfolding memory_uploads.reads_snapshot_def lift_selectors
proof (intro allI impI)
  fix off len :: u64 assume "unat off + unat len \<le> length content"
  then obtain b where "sr_read_snapshot source snapshot off len (snd w)
      = (Inr (take (unat len) (drop (unat off) content)), b)" "binv b" "recv b = recv (snd w)"
    using assms(1) w(2) unfolding reader_contract_def by meson
  then show "\<exists>w'. beside (sr_read_snapshot source snapshot off len) w
      = (Inr (take (unat len) (drop (unat off) content)), w') \<and>
      memory_uploads.calm binv i g w w' \<and> recv (snd w') = recv (snd w)"
    by (intro exI [of _ "(fst w, b)"]) (simp add: beside_def calm_beside w)
qed

lemma contract_starts:
  assumes "session_contract binv recv backend intent content"
    and w: "world_ok w" "content_live (fst w) i g \<and> binv (snd w)"
  shows "memory_uploads.starts backend binv recv i g intent content w"
proof -
  obtain session b where "ub_start_upload backend intent (snd w) = (Inr session, b)" "binv b"
    "us_accepted_offset session \<le> snap_size (ui_snapshot intent)" "prefix_held recv content session b"
    using assms(1) w(2) unfolding session_contract_def by meson
  then show ?thesis
    unfolding memory_uploads.starts_def lift_selectors memory_uploads.holds_def
    by (intro exI [of _ session] exI [of _ "(fst w, b)"]) (simp add: beside_def calm_beside w prefix_held_def)
qed

lemma contract_settles:
  assumes c: "commit_contract binv recv backend intent answer"
    and w: "world_ok w" "content_live (fst w) i g \<and> binv (snd w)"
  shows "memory_uploads.settles backend binv recv i g intent answer w"
  unfolding memory_uploads.settles_def lift_selectors
proof (intro conjI allI)
  have call: "\<exists>w'. beside m w = (Inr answer, w') \<and> memory_uploads.calm binv i g w w' \<and> recv (snd w') = recv (snd w)"
    if "m (snd w) = (Inr answer, b)" "binv b" "recv b = recv (snd w)"
    for m b
    using that by (intro exI [of _ "(fst w, b)"]) (simp add: beside_def calm_beside w)
  show "\<exists>w'. beside (ub_commit_upload backend intent session) w = (Inr answer, w') \<and>
      memory_uploads.calm binv i g w w' \<and> recv (snd w') = recv (snd w)" for session
    using c w(2) call unfolding commit_contract_def by blast
  show "\<exists>w'. beside (ub_reconcile_upload backend intent) w = (Inr answer, w') \<and>
      memory_uploads.calm binv i g w w' \<and> recv (snd w') = recv (snd w)"
    using c w(2) call unfolding commit_contract_def by blast
qed

lemma contract_accepts:
  assumes "chunk_contract binv recv backend intent content"
    and w: "world_ok w" "content_live (fst w) i g \<and> binv (snd w)"
    and ch: "chunk_validate_for intent session chunk = Inr ()"
      "unat (chunk_offset chunk) + length (chunk_bytes chunk) \<le> length content"
      "chunk_byte_len chunk = len_u64 (chunk_bytes chunk)" "chunk_bytes chunk \<noteq> []"
    and h: "memory_uploads.holds recv content session w"
  shows "memory_uploads.accepts_chunk backend binv recv i g intent session chunk w"
proof -
  have "prefix_held recv content session (snd w)"
    using h by (simp add: memory_uploads.holds_def prefix_held_def)
  then obtain b where "send_chunk backend intent session chunk (snd w)
      = (Inr \<lparr>ack_session_id = chunk_session_id chunk, ack_accepted_offset = chunk_end_exclusive chunk\<rparr>, b)"
    "binv b" "take (unat (chunk_end_exclusive chunk)) (recv b (chunk_session_id chunk))
      = take (unat (chunk_offset chunk)) (recv (snd w) (chunk_session_id chunk)) @ chunk_bytes chunk"
    using assms(1) w(2) ch unfolding chunk_contract_def by meson
  then show ?thesis
    unfolding memory_uploads.accepts_chunk_def lift_send_chunk
    by (intro exI [of _ "(fst w, b)"]) (simp add: beside_def calm_beside w)
qed

lemma contract_transports:
  fixes backend :: "'b CloudContentUploadBackend"
  assumes "transport_contract binv recv backend source intent content answer"
  shows "memory_uploads.transports TYPE('b) backend source binv recv i g intent content answer"
proof -
  have c: "length content = unat (snap_size (ui_snapshot intent))"
    "reader_contract binv recv source (ui_snapshot intent) content"
    "session_contract binv recv backend intent content" "chunk_contract binv recv backend intent content"
    "commit_contract binv recv backend intent answer"
    using assms by (simp_all add: transport_contract_def)
  have "answer \<noteq> MutationRemoteOutcome.RemoteOutcomeUnknown" "validate_upload_outcome intent answer = Inr ()"
    using c(5) by (simp_all add: commit_contract_def)
  then show ?thesis
    unfolding memory_uploads.transports_def
    using c(1) contract_reads [OF c(2)] contract_starts [OF c(3)] contract_settles [OF c(5)] contract_accepts [OF c(4)]
    by simp
qed

end
