(* ===== verification/Content_System.thy ===== *)
theory Content_System
  imports Content_Uploads
begin

text \<open>
  What uploads, evictions and cache writes guarantee together on the content store, over every
  sequence of store calls, every crash and every backend, with a concrete store and transport on
  which the theorems are applied.
\<close>

section \<open>A concrete upload\<close>

definition trial_item :: CloudItemKey where
  "trial_item =
     \<lparr>key_scope = \<lparr>scope_namespace_id = CloudNamespaceId ''ns'', scope_root_id = CloudRootId ''root''\<rparr>,
      key_item_id = CloudItemId ''item''\<rparr>"

definition trial_key :: ContentCacheKey where
  "trial_key = \<lparr>cache_item_key = trial_item, cache_revision = ContentRevision [1]\<rparr>"

definition trial_content :: "u8 list" where
  "trial_content = [7, 8, 9]"

definition trial_snapshot :: LocalContentSnapshot where
  "trial_snapshot =
     \<lparr>snap_item_key = trial_item, snap_generation = LocalContentGeneration 1,
      snap_reference = LocalContentReference ''ref'', snap_size = 3, snap_digest = None\<rparr>"

definition trial_intent :: ContentUploadIntent where
  "trial_intent =
     \<lparr>ui_operation_id = OperationId ''up'', ui_idempotency_key = IdempotencyKey ''idem'',
      ui_base_cache_key = trial_key, ui_snapshot = trial_snapshot,
      ui_upload_lease_id = ContentLeaseId ''lease'', ui_session_generation = SessionGeneration 1\<rparr>"

definition trial_eviction :: ContentEvictionIntent where
  "trial_eviction =
     \<lparr>ev_operation_id = ContentEvictionOperationId ''ev'', ev_cache_key = trial_key,
      ev_target = AllManagedContent, ev_session_generation = SessionGeneration 1\<rparr>"

text \<open>An entry that is marked dirty and whose upload is persisted, and one that is being evicted.\<close>

definition trial_open :: MemoryContentStorageStore where
  "trial_open =
     content_apply (CreateContentEntry (ContentStorageEntry_new trial_key Hybrid 3))
       (content_apply (ActivateUploads (key_scope trial_item) (SessionGeneration 1))
         MemoryContentStorageStore_default)"

definition trial_store :: MemoryContentStorageStore where
  "trial_store =
     content_apply (PersistContentUpload trial_intent (SessionGeneration 1))
       (content_apply (MarkContentDirty trial_key trial_snapshot) trial_open)"

definition trial_evicting :: MemoryContentStorageStore where
  "trial_evicting = content_apply (BeginContentEviction trial_eviction) trial_open"

text \<open>A transport for one session that keeps the bytes it was sent.\<close>

definition trial_session :: ContentUploadSessionId where
  "trial_session = ContentUploadSessionId ''session''"

definition trial_answer :: MutationRemoteOutcome where
  "trial_answer =
     Committed (Some \<lparr>item_key = trial_item, item_parent_id = Some (CloudItemId ''parent''), item_name = ''f'',
        item_kind = File, item_metadata_revision = MetadataRevision [1],
        item_content = Some \<lparr>cm_revision = ContentRevision [2], cm_digest = None, cm_size = 3\<rparr>\<rparr>)"

definition trial_backend :: "u8 list CloudContentUploadBackend" where
  "trial_backend =
     \<lparr>ub_start_upload = (\<lambda>intent b. (Inr \<lparr>us_id = trial_session, us_accepted_offset = 0\<rparr>, b)),
      ub_upload_chunk = (\<lambda>intent chunk b.
        (Inr \<lparr>ack_session_id = chunk_session_id chunk, ack_accepted_offset = chunk_end_exclusive chunk\<rparr>,
         take (unat (chunk_offset chunk)) b @ chunk_bytes chunk)),
      ub_reconcile_upload_chunk = (\<lambda>intent session chunk b.
        (Inr \<lparr>ack_session_id = chunk_session_id chunk, ack_accepted_offset = chunk_end_exclusive chunk\<rparr>, b)),
      ub_commit_upload = (\<lambda>intent session b. (Inr trial_answer, b)),
      ub_reconcile_upload = (\<lambda>intent b. (Inr trial_answer, b))\<rparr>"

definition trial_source :: "u8 list LocalContentSnapshotReader" where
  "trial_source =
     \<lparr>sr_read_snapshot = (\<lambda>snapshot off len b. (Inr (take (unat len) (drop (unat off) trial_content)), b))\<rparr>"

definition trial_runner :: ContentUploadRunner where
  "trial_runner = ContentUploadRunner 2"

lemmas trial_defs =
  trial_item_def trial_key_def trial_snapshot_def trial_intent_def trial_eviction_def

lemma trial_open_reachable: "content_reachable trial_open"
  unfolding content_reachable_def trial_open_def
  by (intro content_reaches.called content_reaches.here)
    (simp_all add: new_entry_inv, simp_all add: ContentStorageEntry_new_def)

lemma trial_store_reachable: "content_reachable trial_store"
  using trial_open_reachable unfolding content_reachable_def trial_store_def
  by (intro content_reaches.called) simp_all

lemma trial_evicting_reachable: "content_reachable trial_evicting"
  using trial_open_reachable unfolding content_reachable_def trial_evicting_def
  by (intro content_reaches.called) simp_all

lemma trial_open_eq:
  "trial_open = MemoryContentStorageStore_default\<lparr>
     st_active_upload_generations := [(key_scope trial_item, SessionGeneration 1)],
     st_entries := [(trial_key, ContentStorageEntry_new trial_key Hybrid 3)]\<rparr>"
  by (simp add: trial_open_def create_content_entry_def activate_content_upload_generation_def
      MemoryContentStorageStore_default_def ContentStorageEntry_new_def)

lemma trial_store_eq:
  "trial_store = trial_open\<lparr>
     st_entries := [(trial_key,
       (ContentStorageEntry_new trial_key Hybrid 3)\<lparr>dirty_snapshot := Some trial_snapshot,
          lease_counts := lease_value_set ContentLeaseCounts_default Upload 1,
          leases := [ContentLeaseId ''lease'' \<mapsto> Upload]\<rparr>)],
     st_uploads := [(OperationId ''up'', ContentUploadRecord_persist trial_intent)]\<rparr>"
  by (simp add: trial_store_def trial_open_eq mark_content_dirty_def on_entry_def io_bind_def mark_dirty_def
      ContentStorageEntry_new_def persist_content_upload_intent_def upload_execution_is_active_def
      upload_scope_def content_then_trip_def content_trip_def FailureInjector_trip_def acquire_lease_def
      lease_increment_def checked_add_def MemoryContentStorageStore_default_def ContentLeaseCounts_default_def trial_defs)

lemma trial_store_record:
  "map_of (st_uploads trial_store) (OperationId ''up'') = Some (ContentUploadRecord_persist trial_intent)"
  by (simp add: trial_store_eq)

lemma trial_store_live: "content_live trial_store (OperationId ''up'') (SessionGeneration 1)"
  by (simp add: content_live_def trial_store_eq trial_open_eq MemoryContentStorageStore_default_def
      upload_execution_is_active_def upload_scope_def ContentUploadRecord_persist_def clearable_def trial_defs)

lemma trial_evicting_record:
  "map_of (st_evictions trial_evicting) (ContentEvictionOperationId ''ev'') =
     Some (ContentEvictionRecord_persist trial_eviction \<lparr>remove_provider_cache = True,
       evict_platform_materialization = True, invalidate_platform_content = True\<rparr>)"
  by (simp add: trial_evicting_def trial_open_eq begin_content_eviction_def on_entry_def io_bind_def
      reserve_eviction_def eviction_blockers_def ContentStorageEntry_new_def ContentLeaseCounts_default_def
      content_then_trip_def content_trip_def FailureInjector_trip_def MemoryContentStorageStore_default_def
      trial_eviction_def)

lemma trial_entry:
  "map_of (st_entries trial_evicting) trial_key =
     Some ((ContentStorageEntry_new trial_key Hybrid 3)\<lparr>eviction_reserved := True\<rparr>)"
  by (simp add: trial_evicting_def trial_open_eq begin_content_eviction_def on_entry_def io_bind_def
      reserve_eviction_def eviction_blockers_def ContentStorageEntry_new_def ContentLeaseCounts_default_def
      content_then_trip_def content_trip_def FailureInjector_trip_def MemoryContentStorageStore_default_def
      trial_eviction_def)

abbreviation trial_received :: "u8 list \<Rightarrow> ContentUploadSessionId \<Rightarrow> u8 list" where
  "trial_received b i \<equiv> b"

lemma trial_contract:
  "transport_contract (\<lambda>b. True) trial_received trial_backend trial_source trial_intent trial_content trial_answer"
  unfolding transport_contract_def
proof (intro conjI)
  show "length trial_content = unat (snap_size (ui_snapshot trial_intent))"
    by (simp add: trial_content_def trial_defs)
  show "reader_contract (\<lambda>b. True) trial_received trial_source (ui_snapshot trial_intent) trial_content"
    by (simp add: reader_contract_def trial_source_def)
  show "session_contract (\<lambda>b. True) trial_received trial_backend trial_intent trial_content"
    by (simp add: session_contract_def trial_backend_def prefix_held_def)
  show "commit_contract (\<lambda>b. True) trial_received trial_backend trial_intent trial_answer"
    by (simp add: commit_contract_def trial_backend_def trial_answer_def validate_upload_outcome_def
        validate_upload_item_def trial_defs)
  show "chunk_contract (\<lambda>b. True) trial_received trial_backend trial_intent trial_content"
    unfolding chunk_contract_def
  proof (intro allI impI)
    fix b :: "u8 list" and session chunk
    assume v: "chunk_validate_for trial_intent session chunk = Inr ()"
      and fit: "unat (chunk_offset chunk) + length (chunk_bytes chunk) \<le> length trial_content"
      and len: "chunk_byte_len chunk = len_u64 (chunk_bytes chunk)"
      and held: "prefix_held trial_received trial_content session b"
    have "chunk_offset chunk = us_accepted_offset session"
      using v by (simp add: chunk_validate_for_def split: if_splits)
    then have "length (take (unat (chunk_offset chunk)) b) = unat (chunk_offset chunk)"
      using held fit arg_cong [of _ _ length] by (fastforce simp: prefix_held_def)
    moreover have "unat (chunk_byte_len chunk) = length (chunk_bytes chunk)"
      using fit by (simp add: len unat_len_u64 allocatable_def trial_content_def)
    then have "unat (chunk_end_exclusive chunk) = unat (chunk_offset chunk) + length (chunk_bytes chunk)"
      using fit by (simp add: chunk_end_exclusive_def unat_add_exact trial_content_def)
    ultimately show "\<exists>b'. send_chunk trial_backend trial_intent session chunk b
        = (Inr \<lparr>ack_session_id = chunk_session_id chunk, ack_accepted_offset = chunk_end_exclusive chunk\<rparr>, b') \<and>
      True \<and> take (unat (chunk_end_exclusive chunk)) b' = take (unat (chunk_offset chunk)) b @ chunk_bytes chunk"
      by (simp add: send_chunk_def trial_backend_def)
  qed
qed

section \<open>Uploads\<close>

text \<open>
  C27: Resuming an upload returns, whatever the backend and the snapshot reader answer and however
  many store calls other executors, crash points and stalls make meanwhile: the driving loop of
  \<open>ContentUploadRunner::resume\<close>, which has no bound of its own, goes round only after the durable
  record moved on.
\<close>

theorem upload_run_returns:
  assumes "content_reachable s" and "only_store_calls backend source"
  shows "\<exists>res w'. upload_resume runner i g memory_upload_store backend source (s, b) = Some (res, w')"
  using upload_environment.run_returns [OF upload_environment.intro [OF assms(2)], of "(s, b)"]
    reachable_content_ok [OF assms(1)] by simp

theorem upload_run_returns_witness:
  "\<exists>res w'. upload_resume trial_runner (OperationId ''up'') (SessionGeneration 1) memory_upload_store
     (lift_backend trial_backend) (lift_source trial_source) (trial_store, []) = Some (res, w')"
  by (rule upload_run_returns [OF trial_store_reachable lifted_only_store_calls])

text \<open>
  C28: When a run is reported as completed, the durable record is completed, the backend session
  had accepted every byte of the immutable snapshot, and the recorded outcome is definite and
  belongs to the intent: the committed item is the uploaded item and has the size of the snapshot.
\<close>

theorem upload_completed_sound:
  assumes "content_reachable s" and "only_store_calls backend source"
    and "upload_resume runner i g memory_upload_store backend source (s, b)
      = Some (Inr ContentUploadRunOutcome.Completed, w')"
  shows "\<exists>r session outcome. map_of (st_uploads (fst w')) i = Some r \<and>
    ur_state r = ContentUploadState.Completed \<and> ur_session r = Some session \<and>
    us_accepted_offset session = snap_size (ui_snapshot (ur_intent r)) \<and>
    ur_remote_outcome r = Some outcome \<and> outcome \<noteq> MutationRemoteOutcome.RemoteOutcomeUnknown \<and>
    validate_upload_outcome (ur_intent r) outcome = Inr ()"
proof -
  obtain r where r: "map_of (st_uploads (fst w')) i = Some r" "ur_state r = ContentUploadState.Completed"
    "upload_good r"
    using upload_environment.run_completed [OF upload_environment.intro [OF assms(2)] _ assms(3)]
      reachable_content_ok [OF assms(1)] by auto
  then show ?thesis by (auto simp: upload_good_def split: option.splits if_splits)
qed

text \<open>An undisturbed run from a consistent store; the claim below asks for a reachable one.\<close>

lemma undisturbed_run:
  assumes "content_ok (content_abs s)" and "content_live s i g" and "map_of (st_uploads s) i = Some r"
    and "transport_contract binv recv backend source (ur_intent r) content answer" and "binv b"
    and "\<forall>session. ur_session r = Some session \<longrightarrow> prefix_held recv content session b"
    and "0 < chunk_size runner" and "chunk_size runner < 2 ^ 64"
  shows "\<exists>s' b' r' session.
    upload_resume runner i g memory_upload_store (lift_backend backend) (lift_source source) (s, b) =
      Some (Inr ContentUploadRunOutcome.Completed, (s', b')) \<and>
    map_of (st_uploads s') i = Some r' \<and> ur_intent r' = ur_intent r \<and>
    ur_state r' = ContentUploadState.Completed \<and> ur_session r' = Some session \<and>
    take (length content) (recv b' (us_id session)) = content"
proof -
  have "memory_uploads.holding recv content r (s, b)"
    using assms(6) by (simp add: memory_uploads.holding_def memory_uploads.holds_def prefix_held_def)
  then show ?thesis
    using memory_uploads.live_resume [where w = "(s, b)" and binv = binv and recv = recv and i = i and g = g
        and r = r and content = content and answer = answer and self = runner and backend = backend and source = source]
      assms(1-3,5,7,8) contract_transports [OF assms(4)]
    by fastforce
qed

lemma trial_run:
  "\<exists>s' b' r' session.
    upload_resume trial_runner (OperationId ''up'') (SessionGeneration 1) memory_upload_store
      (lift_backend trial_backend) (lift_source trial_source) (trial_store, []) =
      Some (Inr ContentUploadRunOutcome.Completed, (s', b')) \<and>
    map_of (st_uploads s') (OperationId ''up'') = Some r' \<and>
    ur_intent r' = ur_intent (ContentUploadRecord_persist trial_intent) \<and>
    ur_state r' = ContentUploadState.Completed \<and> ur_session r' = Some session \<and>
    take (length trial_content) (trial_received b' (us_id session)) = trial_content"
  by (rule undisturbed_run [where binv = "\<lambda>b. True" and answer = trial_answer,
        OF reachable_content_ok [OF trial_store_reachable] trial_store_live trial_store_record])
    (use trial_contract in \<open>simp_all add: ContentUploadRecord_persist_def trial_runner_def\<close>)

theorem upload_completed_sound_witness:
  "\<exists>(s' :: MemoryContentStorageStore) r session outcome. map_of (st_uploads s') (OperationId ''up'') = Some r \<and>
    ur_session r = Some session \<and> us_accepted_offset session = snap_size (ui_snapshot (ur_intent r)) \<and>
    ur_remote_outcome r = Some outcome \<and> validate_upload_outcome (ur_intent r) outcome = Inr ()"
proof -
  obtain w' where "upload_resume trial_runner (OperationId ''up'') (SessionGeneration 1) memory_upload_store
     (lift_backend trial_backend) (lift_source trial_source) (trial_store, []) =
       Some (Inr ContentUploadRunOutcome.Completed, w')"
    using trial_run by (elim exE conjE) (rule that)
  from upload_completed_sound [OF trial_store_reachable lifted_only_store_calls this] show ?thesis
    by (elim exE conjE) (intro exI conjI)
qed

text \<open>
  C29: An upload that nothing disturbs, resumed from any durable record, completes against a
  transport that keeps its contract, and the backend session then holds exactly the bytes of the
  snapshot, in order, each sent once its predecessors were acknowledged, whatever the chunk size.
\<close>

theorem upload_delivers_snapshot:
  assumes "content_reachable s" and "content_live s i g" and "map_of (st_uploads s) i = Some r"
    and "transport_contract binv recv backend source (ur_intent r) content answer" and "binv b"
    and "\<forall>session. ur_session r = Some session \<longrightarrow> prefix_held recv content session b"
    and "ContentUploadRunner_new n = Inr runner" and "n \<le> usize_MAX"
  shows "\<exists>s' b' r' session.
    upload_resume runner i g memory_upload_store (lift_backend backend) (lift_source source) (s, b) =
      Some (Inr ContentUploadRunOutcome.Completed, (s', b')) \<and>
    map_of (st_uploads s') i = Some r' \<and> ur_intent r' = ur_intent r \<and>
    ur_state r' = ContentUploadState.Completed \<and> ur_session r' = Some session \<and>
    take (length content) (recv b' (us_id session)) = content"
proof -
  have "runner = ContentUploadRunner n" "0 < n" using assms(7) by (auto simp: ContentUploadRunner_new_def split: if_splits)
  then have "0 < chunk_size runner" "chunk_size runner < 2 ^ 64" using assms(8) by (simp_all add: usize_MAX_def)
  then show ?thesis by (rule undisturbed_run [OF reachable_content_ok [OF assms(1)] assms(2-6)])
qed

theorem upload_delivers_snapshot_witness:
  "\<exists>s' b' r' session.
    upload_resume trial_runner (OperationId ''up'') (SessionGeneration 1) memory_upload_store
      (lift_backend trial_backend) (lift_source trial_source) (trial_store, []) =
      Some (Inr ContentUploadRunOutcome.Completed, (s', b')) \<and>
    map_of (st_uploads s') (OperationId ''up'') = Some r' \<and> ur_session r' = Some session \<and>
    take 3 (trial_received b' (us_id session)) = [7, 8, 9]"
proof -
  have "\<exists>s' b' r' session.
    upload_resume trial_runner (OperationId ''up'') (SessionGeneration 1) memory_upload_store
      (lift_backend trial_backend) (lift_source trial_source) (trial_store, []) =
      Some (Inr ContentUploadRunOutcome.Completed, (s', b')) \<and>
    map_of (st_uploads s') (OperationId ''up'') = Some r' \<and>
    ur_intent r' = ur_intent (ContentUploadRecord_persist trial_intent) \<and>
    ur_state r' = ContentUploadState.Completed \<and> ur_session r' = Some session \<and>
    take (length trial_content) (trial_received b' (us_id session)) = trial_content"
    by (rule upload_delivers_snapshot [where binv = "\<lambda>b. True" and answer = trial_answer and n = 2,
          OF trial_store_reachable trial_store_live trial_store_record])
      (use trial_contract in \<open>simp_all add: ContentUploadRecord_persist_def ContentUploadRunner_new_def
         trial_runner_def usize_MAX_def\<close>)
  then show ?thesis by (elim exE conjE) (intro exI conjI, simp_all add: trial_content_def numeral_3_eq_3)
qed

section \<open>Entries and journals\<close>

text \<open>
  C30: In every reachable content store, through every crash point, the cache-write counter of an
  entry is the number of its unfinished cache writes, and the entry is reserved for eviction
  exactly while one eviction of it, and no more than one, is unfinished.
\<close>

theorem content_journals_agree:
  assumes "content_reachable s" and "map_of (st_entries s) key = Some e"
  shows "unat (active_cache_writes e) =
      card {i. \<exists>r. map_of (st_cache_writes s) i = Some r \<and> cw_cache_key (cw_intent r) = key \<and>
        cw_state r \<noteq> ContentCacheWriteState.Completed} \<and>
    (eviction_reserved e \<longleftrightarrow>
      (\<exists>!i. \<exists>r. map_of (st_evictions s) i = Some r \<and> ev_cache_key (ev_intent r) = key \<and>
        ev_state r \<noteq> ContentEvictionState.Completed))"
proof -
  note ok = reachable_content_ok [OF assms(1)]
  have c: "entry_counts (content_abs s) key e" using content_okD(1) [OF ok] assms(2) by simp
  have single: "i = j" if "i \<in> having (map_of (st_evictions s)) (open_eviction key)"
    "j \<in> having (map_of (st_evictions s)) (open_eviction key)" for i j
    using content_okD(3) [OF ok] that unfolding evictions_ok_def by simp
  have "eviction_reserved e \<longleftrightarrow> (\<exists>!i. i \<in> having (map_of (st_evictions s)) (open_eviction key))"
    using c single by (auto simp: entry_counts_def)
  then show ?thesis using c by (simp add: entry_counts_def having_def open_write_def open_eviction_def)
qed

theorem content_journals_agree_witness:
  "\<exists>!i. \<exists>r. map_of (st_evictions trial_evicting) i = Some r \<and> ev_cache_key (ev_intent r) = trial_key \<and>
     ev_state r \<noteq> ContentEvictionState.Completed"
  using content_journals_agree [OF trial_evicting_reachable trial_entry] by simp

text \<open>
  C31: While an eviction is unfinished nothing else works on its entry: it is not pinned, not
  dirty, holds no lease, and every cache write and every upload of it is finished, so that no
  bytes that are being written or uploaded are evicted.
\<close>

theorem eviction_has_entry_alone:
  assumes "content_reachable s" and "map_of (st_evictions s) i = Some v"
    and "ev_state v \<noteq> ContentEvictionState.Completed"
  shows "(\<exists>e. map_of (st_entries s) (ev_cache_key (ev_intent v)) = Some e \<and> quiescent e) \<and>
    (\<forall>j w. map_of (st_cache_writes s) j = Some w \<and> cw_cache_key (cw_intent w) = ev_cache_key (ev_intent v) \<longrightarrow>
       cw_state w = ContentCacheWriteState.Completed) \<and>
    (\<forall>j u. map_of (st_uploads s) j = Some u \<and> ui_base_cache_key (ur_intent u) = ev_cache_key (ev_intent v) \<longrightarrow>
       ur_state u = ContentUploadState.Completed)"
proof -
  have "open_eviction (ev_cache_key (ev_intent v)) v" using assms(3) by (simp add: open_eviction_def)
  note ex = eviction_exclusive [OF reachable_content_ok [OF assms(1)], of i v, OF _ this]
  show ?thesis
    using ex(1-3) assms(2) by (auto simp: having_def open_write_def open_upload_def)
qed

theorem eviction_has_entry_alone_witness:
  "\<exists>e. map_of (st_entries trial_evicting) trial_key = Some e \<and> quiescent e"
  using eviction_has_entry_alone [OF trial_evicting_reachable trial_evicting_record]
  by (simp add: ContentEvictionRecord_persist_def trial_eviction_def)

end
