(* ===== verification/Identity_Codec.thy ===== *)
theory Identity_Codec
  imports Core_Values
begin

text \<open>
  What the platform adapters share when they turn a \<open>CloudItemKey\<close> into a native identifier
  and back: Rust strings as their UTF-8 bytes (\<open>str::as_bytes\<close>, \<open>str::from_utf8\<close>),
  fallible folds over \<open>usize\<close>, and the contract of an identity codec, \<open>identity_codec\<close>,
  which the Windows envelope and the File Provider identifier both provide.
\<close>

section \<open>Strings and bytes\<close>

text \<open>
  A Rust string is its UTF-8 encoding, one \<open>char\<close> for each byte; \<open>str::len\<close> is the number
  of bytes. \<open>utf8\<close> is the check of \<open>str::from_utf8\<close>: the well-formed byte sequences of the
  Unicode standard (no overlong form, no surrogate, nothing above U+10FFFF).
\<close>

definition as_bytes :: "string \<Rightarrow> u8 list" where
  "as_bytes s = map (\<lambda>c. of_nat (of_char c)) s"

definition of_bytes :: "u8 list \<Rightarrow> string" where
  "of_bytes bs = map (\<lambda>b. char_of (unat b)) bs"

definition continuation :: "u8 \<Rightarrow> bool" where
  "continuation b \<longleftrightarrow> 0x80 \<le> b \<and> b \<le> 0xBF"

definition second_of_three :: "u8 \<Rightarrow> u8 \<Rightarrow> bool" where
  "second_of_three lead b \<longleftrightarrow>
     (if lead = 0xE0 then 0xA0 \<le> b \<and> b \<le> 0xBF
      else if lead = 0xED then 0x80 \<le> b \<and> b \<le> 0x9F
      else continuation b)"

definition second_of_four :: "u8 \<Rightarrow> u8 \<Rightarrow> bool" where
  "second_of_four lead b \<longleftrightarrow>
     (if lead = 0xF0 then 0x90 \<le> b \<and> b \<le> 0xBF
      else if lead = 0xF4 then 0x80 \<le> b \<and> b \<le> 0x8F
      else continuation b)"

fun utf8 :: "u8 list \<Rightarrow> bool" where
  "utf8 [] \<longleftrightarrow> True"
| "utf8 (lead # bs) \<longleftrightarrow>
     (if lead \<le> 0x7F then utf8 bs
      else if 0xC2 \<le> lead \<and> lead \<le> 0xDF
      then (case bs of b # rest \<Rightarrow> continuation b \<and> utf8 rest | _ \<Rightarrow> False)
      else if 0xE0 \<le> lead \<and> lead \<le> 0xEF
      then (case bs of b # c # rest \<Rightarrow> second_of_three lead b \<and> continuation c \<and> utf8 rest | _ \<Rightarrow> False)
      else if 0xF0 \<le> lead \<and> lead \<le> 0xF4
      then (case bs of b # c # d # rest \<Rightarrow>
              second_of_four lead b \<and> continuation c \<and> continuation d \<and> utf8 rest
            | _ \<Rightarrow> False)
      else False)"

definition from_utf8 :: "u8 list \<Rightarrow> string option" where
  "from_utf8 bs = (if utf8 bs then Some (of_bytes bs) else None)"

lemma length_as_bytes [simp]: "length (as_bytes s) = length s"
  by (simp add: as_bytes_def)

lemma as_bytes_eq_Nil [simp]: "as_bytes s = [] \<longleftrightarrow> s = []"
  by (simp add: as_bytes_def)

lemma of_bytes_as_bytes [simp]: "of_bytes (as_bytes s) = s"
  by (simp add: as_bytes_def of_bytes_def comp_def unat_of_nat o_def map_idI)

lemma as_bytes_of_bytes [simp]: "as_bytes (of_bytes bs) = bs"
proof -
  have "of_nat (of_char (char_of (unat b) :: char)) = b" for b :: u8
  proof -
    have "unat b < 256" using unsigned_less [of b] by simp
    then show ?thesis by (simp add: of_char_of)
  qed
  then show ?thesis by (simp add: as_bytes_def of_bytes_def comp_def map_idI)
qed

lemma as_bytes_inject [simp]: "as_bytes s = as_bytes t \<longleftrightarrow> s = t"
  by (metis of_bytes_as_bytes)

lemma from_utf8_eq_Some [simp]: "from_utf8 bs = Some s \<longleftrightarrow> utf8 bs \<and> bs = as_bytes s"
  by (auto simp: from_utf8_def)

section \<open>Keys\<close>

text \<open>
  What every key of the program satisfies: its three fields are Rust strings, and the
  constructors of \<open>identity.rs\<close> refuse the empty one.
\<close>

definition key_fields :: "CloudItemKey \<Rightarrow> string list" where
  "key_fields key =
     [namespace_id_str (scope_namespace_id (key_scope key)),
      root_id_str (scope_root_id (key_scope key)),
      item_id_str (key_item_id key)]"

definition key_of_fields :: "string \<Rightarrow> string \<Rightarrow> string \<Rightarrow> CloudItemKey" where
  "key_of_fields namespace root item =
     \<lparr>key_scope = \<lparr>scope_namespace_id = CloudNamespaceId namespace, scope_root_id = CloudRootId root\<rparr>,
      key_item_id = CloudItemId item\<rparr>"

definition key_wf :: "CloudItemKey \<Rightarrow> bool" where
  "key_wf key \<longleftrightarrow> (\<forall>field \<in> set (key_fields key). field \<noteq> [] \<and> utf8 (as_bytes field))"

lemma key_of_fields_cases: obtains namespace root item where "key = key_of_fields namespace root item"
proof -
  have "key = key_of_fields (namespace_id_str (scope_namespace_id (key_scope key)))
      (root_id_str (scope_root_id (key_scope key))) (item_id_str (key_item_id key))"
    by (simp add: key_of_fields_def)
  then show thesis by (rule that)
qed

lemma key_fields_of_fields [simp]:
  "key_fields (key_of_fields namespace root item) = [namespace, root, item]"
  by (simp add: key_fields_def key_of_fields_def)

lemma key_wf_of_fields [simp]:
  "key_wf (key_of_fields namespace root item) \<longleftrightarrow>
     (\<forall>field \<in> {namespace, root, item}. field \<noteq> [] \<and> utf8 (as_bytes field))"
  by (simp add: key_wf_def)

section \<open>Checked sums of lengths\<close>

definition usize_checked_add :: "usize \<Rightarrow> usize \<Rightarrow> usize option" where
  "usize_checked_add a b = (if a + b \<le> usize_MAX then Some (a + b) else None)"

lemma usize_checked_add_eq_Some [simp]:
  "usize_checked_add a b = Some c \<longleftrightarrow> a + b \<le> usize_MAX \<and> c = a + b"
  by (auto simp: usize_checked_add_def)

lemma usize_MAX_eq: "usize_MAX = 18446744073709551615"
  by (simp add: usize_MAX_def)

text \<open>\<open>Iterator::try_fold\<close>.\<close>

primrec try_fold :: "('a \<Rightarrow> 'b \<Rightarrow> 'e + 'a) \<Rightarrow> 'a \<Rightarrow> 'b list \<Rightarrow> 'e + 'a" where
  "try_fold f a [] = Inr a"
| "try_fold f a (x # xs) = res_bind (f a x) (\<lambda>a'. try_fold f a' xs)"

lemma try_fold_checked_sum:
  "try_fold (\<lambda>total x. ok_or e (usize_checked_add total (g x))) a xs = Inr n \<longleftrightarrow>
     (if xs = [] then n = a else a + sum_list (map g xs) \<le> usize_MAX \<and> n = a + sum_list (map g xs))"
  by (induction xs arbitrary: a) (auto simp: usize_checked_add_def split: if_splits)

section \<open>The contract of an identity codec\<close>

text \<open>
  \<open>encode\<close> makes an identifier from a key, \<open>raw\<close> is what the operating system keeps,
  \<open>parse\<close> reads it back, and \<open>decoded\<close> is the key inside.
\<close>

locale identity_codec =
  fixes encode :: "CloudItemKey \<Rightarrow> 'e + 'i"
    and raw :: "'i \<Rightarrow> 'r"
    and parse :: "'r \<Rightarrow> 'e + 'i"
    and decoded :: "'i \<Rightarrow> 'e + CloudItemKey"
  assumes encoded: "key_wf k \<Longrightarrow> encode k = Inr i \<Longrightarrow> parse (raw i) = Inr i \<and> decoded i = Inr k"
    and parsed: "parse r = Inr i \<Longrightarrow> decoded i = Inr k \<Longrightarrow> key_wf k \<and> raw i = r \<and> encode k = Inr i"
begin

lemma exact:
  "key_wf k \<and> encode k = Inr i \<and> raw i = r \<longleftrightarrow> parse r = Inr i \<and> decoded i = Inr k"
proof
  assume "key_wf k \<and> encode k = Inr i \<and> raw i = r"
  then show "parse r = Inr i \<and> decoded i = Inr k" using encoded [of k i] by auto
next
  assume "parse r = Inr i \<and> decoded i = Inr k"
  then show "key_wf k \<and> encode k = Inr i \<and> raw i = r" using parsed [of r i k] by simp
qed

lemma encode_inj:
  assumes "key_wf k" and "key_wf k'" and "encode k = Inr i" and "encode k' = Inr i'" and "raw i = raw i'"
  shows "k = k'"
proof -
  have "decoded i = Inr k" "parse (raw i) = Inr i" using encoded [OF assms(1,3)] by simp_all
  moreover have "decoded i' = Inr k'" "parse (raw i) = Inr i'" using encoded [OF assms(2,4)] assms(5) by simp_all
  ultimately show ?thesis by simp
qed

lemma canonical:
  assumes "parse r = Inr i" and "parse r' = Inr i'" and "decoded i = Inr k" and "decoded i' = Inr k"
  shows "r = r'"
proof -
  have "raw i = r" "encode k = Inr i" using parsed [OF assms(1,3)] by simp_all
  moreover have "raw i' = r'" "encode k = Inr i'" using parsed [OF assms(2,4)] by simp_all
  ultimately show ?thesis by simp
qed

end

end
