(* ===== verification/Windows_Identity.thy ===== *)
theory Windows_Identity
  imports Identity_Codec Hydration
begin

unbundle bit_operations_syntax

text \<open>
  The versioned envelope of \<open>windows/src/identity.rs\<close>: a key as the \<open>FileIdentity\<close> bytes of
  the Windows Cloud Files API, and back. The error type is that of \<open>windows/src/error.rs\<close>; its
  last variant wraps a system error, exists on Windows only and is left out.
\<close>

datatype WindowsCloudFilesError =
    FileIdentityTooLarge usize usize
  | SyncRootIdentityTooLarge usize usize
  | InvalidFileIdentity string
  | InvalidSyncRootIdentity string
  | Core CloudFilesCoreError
  | IdentityItemMismatch
  | RootFileIdentityScopeMismatch
  | InvalidRegistrationString string string
  | EmptyProviderId
  | InvalidSyncRootPolicy string
  | UnsupportedPlatformIntegration string u32 u32
  | InvalidSyncRootPath string
  | NativeStructureSizeOverflow string
  | InvalidPlaceholderName string
  | InvalidPlaceholderMetadata string
  | FileSizeTooLarge u64
  | EmbeddedNul
  | PlaceholderBatchTooLarge
  | InvalidCallbackSnapshot string
  | MissingNativeCompletionAuthority
  | InvalidFetchTransfer string
  | Hydration HydrationError
  | StaleConnectionGeneration u64 u64
  | ConnectionNotAccepting SessionState
  | InvalidConnectionTransition SessionState SessionState
  | ActiveCallbackCountOverflow
  | ActiveFetchWaiterIdOverflow
  | ActiveFetchWaiterCountOverflow
  | InvalidProviderProgress string
  | InvalidWatchdogTimeout string
  | FetchDataWatchdogTimeout

type_synonym 'a windows_result = "WindowsCloudFilesError + 'a"

definition CFAPI_FILE_IDENTITY_MAX_BYTES :: usize where
  "CFAPI_FILE_IDENTITY_MAX_BYTES = 4096"

definition MAGIC :: "u8 list" where
  "MAGIC = as_bytes ''AFCF''"

definition FORMAT_VERSION :: u8 where
  "FORMAT_VERSION = 1"

definition HEADER_LEN :: usize where
  "HEADER_LEN = length MAGIC + 1 + 3 * 4"

datatype WindowsFileIdentity = WindowsFileIdentity (into_bytes: "u8 list")

definition identity_invalid :: "string \<Rightarrow> WindowsCloudFilesError" where
  "identity_invalid reason = InvalidFileIdentity reason"

definition validate_size :: "usize \<Rightarrow> unit windows_result" where
  "validate_size actual =
     (if actual > CFAPI_FILE_IDENTITY_MAX_BYTES
      then Inl (FileIdentityTooLarge actual CFAPI_FILE_IDENTITY_MAX_BYTES)
      else Inr ())"

text \<open>\<open>u32::to_le_bytes\<close> and \<open>u32::from_le_bytes\<close>.\<close>

definition to_le_bytes :: "u32 \<Rightarrow> u8 list" where
  "to_le_bytes w = [ucast w, ucast (drop_bit 8 w), ucast (drop_bit 16 w), ucast (drop_bit 24 w)]"

fun from_le_bytes :: "u8 list \<Rightarrow> u32 option" where
  "from_le_bytes [a, b, c, d] =
     Some (ucast a OR push_bit 8 (ucast b) OR push_bit 16 (ucast c) OR push_bit 24 (ucast d))"
| "from_le_bytes _ = None"

text \<open>The table of field lengths of the envelope.\<close>

primrec length_table :: "u8 list list \<Rightarrow> u8 list windows_result" where
  "length_table [] = Inr []"
| "length_table (field # rest) =
     res_bind (ok_or (FileIdentityTooLarge (length field) CFAPI_FILE_IDENTITY_MAX_BYTES)
                (u32_try_from (length field))) (\<lambda>len.
     res_bind (length_table rest) (\<lambda>table. Inr (to_le_bytes len @ table)))"

definition WindowsFileIdentity_encode :: "CloudItemKey \<Rightarrow> WindowsFileIdentity windows_result" where
  "WindowsFileIdentity_encode key =
     (let fields = map as_bytes (key_fields key);
          too_large = FileIdentityTooLarge usize_MAX CFAPI_FILE_IDENTITY_MAX_BYTES
      in
      res_bind (try_fold (\<lambda>total field. ok_or too_large (usize_checked_add total (length field))) 0 fields)
        (\<lambda>payload_len.
      res_bind (ok_or too_large (usize_checked_add HEADER_LEN payload_len)) (\<lambda>total_len.
      res_bind (validate_size total_len) (\<lambda>_.
      res_bind (length_table fields) (\<lambda>table.
      Inr (WindowsFileIdentity (MAGIC @ [FORMAT_VERSION] @ table @ concat fields)))))))"

text \<open>Reading the length table, and cutting the payload into fields.\<close>

primrec read_lengths :: "u8 list \<Rightarrow> nat list \<Rightarrow> usize list windows_result" where
  "read_lengths bytes [] = Inr []"
| "read_lengths bytes (index # rest) =
     (let start = length MAGIC + 1 + index * 4 in
      res_bind (ok_or (identity_invalid ''identity length table is truncated'')
                 (from_le_bytes (take 4 (drop start bytes)))) (\<lambda>raw.
      res_bind (read_lengths bytes rest) (\<lambda>lengths. Inr (unat raw # lengths))))"

primrec read_fields :: "u8 list \<Rightarrow> usize \<Rightarrow> usize list \<Rightarrow> string list windows_result" where
  "read_fields bytes offset [] = Inr []"
| "read_fields bytes offset (len # lengths) =
     res_bind (ok_or (identity_invalid ''identity field is not UTF-8'')
                (from_utf8 (take len (drop offset bytes)))) (\<lambda>value.
     res_bind (read_fields bytes (offset + len) lengths) (\<lambda>fields. Inr (value # fields)))"

text \<open>The three constructors at the end of \<open>decode_bytes\<close>, applied in order.\<close>

fun key_from_fields :: "string list \<Rightarrow> CloudItemKey windows_result" where
  "key_from_fields [] = Inl (identity_invalid ''identity namespace is missing'')"
| "key_from_fields [namespace] = Inl (identity_invalid ''identity root is missing'')"
| "key_from_fields [namespace, root] = Inl (identity_invalid ''identity item is missing'')"
| "key_from_fields (namespace # root # item # _) =
     res_bind (res_map_err Core (CloudNamespaceId_new namespace)) (\<lambda>namespace_id.
     res_bind (res_map_err Core (CloudRootId_new root)) (\<lambda>root_id.
     res_bind (res_map_err Core (CloudItemId_new item)) (\<lambda>item_id.
     Inr \<lparr>key_scope = \<lparr>scope_namespace_id = namespace_id, scope_root_id = root_id\<rparr>,
          key_item_id = item_id\<rparr>)))"

definition decode_bytes :: "u8 list \<Rightarrow> CloudItemKey windows_result" where
  "decode_bytes bytes =
     (if length bytes < HEADER_LEN then Inl (identity_invalid ''identity envelope is truncated'')
      else if take (length MAGIC) bytes \<noteq> MAGIC
      then Inl (identity_invalid ''identity envelope magic does not match'')
      else if bytes ! length MAGIC \<noteq> FORMAT_VERSION
      then Inl (identity_invalid ''identity envelope version is unsupported'')
      else
        res_bind (read_lengths bytes [0, 1, 2]) (\<lambda>lengths.
        res_bind (try_fold (\<lambda>total len. ok_or (identity_invalid ''identity field lengths overflow'')
                    (usize_checked_add total len)) HEADER_LEN lengths) (\<lambda>expected_len.
        if expected_len \<noteq> length bytes
        then Inl (identity_invalid ''identity field lengths do not match the envelope'')
        else res_bind (read_fields bytes HEADER_LEN lengths) key_from_fields)))"

definition WindowsFileIdentity_from_bytes :: "u8 list \<Rightarrow> WindowsFileIdentity windows_result" where
  "WindowsFileIdentity_from_bytes bytes =
     res_bind (validate_size (length bytes)) (\<lambda>_.
     res_bind (decode_bytes bytes) (\<lambda>_.
     Inr (WindowsFileIdentity bytes)))"

definition WindowsFileIdentity_decode :: "WindowsFileIdentity \<Rightarrow> CloudItemKey windows_result" where
  "WindowsFileIdentity_decode self = decode_bytes (into_bytes self)"

section \<open>The envelope\<close>

text \<open>The layout that \<open>encode\<close> writes and \<open>decode_bytes\<close> accepts.\<close>

definition envelope :: "u8 list list \<Rightarrow> u8 list" where
  "envelope parts =
     MAGIC @ [FORMAT_VERSION] @ concat (map (\<lambda>part. to_le_bytes (of_nat (length part))) parts) @ concat parts"

lemma length_to_le_bytes [simp]: "length (to_le_bytes w) = 4"
  by (simp add: to_le_bytes_def)

lemma from_to_le_bytes [simp]: "from_le_bytes (to_le_bytes w) = Some w"
proof -
  have "bit (ucast (ucast w :: u8) OR push_bit 8 (ucast (ucast (drop_bit 8 w) :: u8)) OR
      push_bit 16 (ucast (ucast (drop_bit 16 w) :: u8)) OR push_bit 24 (ucast (ucast (drop_bit 24 w) :: u8)) :: u32) n
    \<longleftrightarrow> bit w n" if "n < 32" for n
  proof -
    consider "n < 8" | "8 \<le> n" "n < 16" | "16 \<le> n" "n < 24" | "24 \<le> n" by linarith
    then show ?thesis using that by cases (auto simp: bit_simps less_diff_conv2)
  qed
  then show ?thesis by (simp add: to_le_bytes_def) (rule bit_word_eqI, simp)
qed

lemma u8_high_bits [simp]: "8 \<le> n \<Longrightarrow> \<not> bit (b :: u8) n"
  by (auto dest: bit_imp_le_length)

lemma to_from_le_bytes: "from_le_bytes bs = Some w \<Longrightarrow> to_le_bytes w = bs"
  by (cases bs rule: from_le_bytes.cases)
    (auto simp: to_le_bytes_def bit_simps intro!: bit_word_eqI)

lemma length_MAGIC [simp]: "length MAGIC = 4"
  by (simp add: MAGIC_def)

lemma HEADER_LEN_eq [simp]: "HEADER_LEN = 17"
  by (simp add: HEADER_LEN_def)

lemma from_le_bytes_eq_Some: "from_le_bytes bs = Some w \<longleftrightarrow> bs = to_le_bytes w"
  using from_to_le_bytes to_from_le_bytes by blast

lemma length_table_eq:
  "length_table parts = Inr table \<longleftrightarrow> (\<forall>part \<in> set parts. length part < 2 ^ 32) \<and>
     table = concat (map (\<lambda>part. to_le_bytes (of_nat (length part))) parts)"
  by (induction parts arbitrary: table) (auto simp: u32_try_from_def)

lemma length_envelope:
  "length (envelope parts) = 5 + 4 * length parts + sum_list (map length parts)"
  by (simp add: envelope_def length_concat comp_def sum_list_triv)

lemma validate_size_eq: "validate_size n = Inr () \<longleftrightarrow> n \<le> 4096"
  by (simp add: validate_size_def CFAPI_FILE_IDENTITY_MAX_BYTES_def)

lemma windows_encode_eq:
  "WindowsFileIdentity_encode key = Inr i \<longleftrightarrow>
     length (envelope (map as_bytes (key_fields key))) \<le> CFAPI_FILE_IDENTITY_MAX_BYTES \<and>
     i = WindowsFileIdentity (envelope (map as_bytes (key_fields key)))"
proof -
  let ?parts = "map as_bytes (key_fields key)" and ?e = "FileIdentityTooLarge usize_MAX CFAPI_FILE_IDENTITY_MAX_BYTES"
  let ?fold = "try_fold (\<lambda>total part. ok_or ?e (usize_checked_add total (length part))) 0 ?parts"
  define n where "n = sum_list (map length ?parts)"
  have shape: "length (envelope ?parts) = 17 + n" by (simp add: length_envelope n_def key_fields_def)
  have folded: "?fold = Inr m \<longleftrightarrow> n \<le> usize_MAX \<and> m = n" for m
    by (subst try_fold_checked_sum) (simp add: n_def key_fields_def)
  show ?thesis
  proof (cases "17 + n \<le> 4096")
    case True
    then have "\<forall>part \<in> set ?parts. length part < 2 ^ 32"
      using member_le_sum_list [of _ "map length ?parts"] n_def by fastforce
    then have "length_table ?parts = Inr (concat (map (\<lambda>part. to_le_bytes (of_nat (length part))) ?parts))"
      by (simp only: length_table_eq)
    moreover have "n \<le> usize_MAX" "n + 17 \<le> usize_MAX" using True by (simp_all add: usize_MAX_def)
    moreover have "?fold = Inr n" using \<open>n \<le> usize_MAX\<close> by (simp only: folded)
    ultimately have "WindowsFileIdentity_encode key = Inr (WindowsFileIdentity (envelope ?parts))"
      using True
      by (simp add: WindowsFileIdentity_encode_def Let_def usize_checked_add_def validate_size_def
          CFAPI_FILE_IDENTITY_MAX_BYTES_def envelope_def add.commute)
    then show ?thesis using True shape by (auto simp: CFAPI_FILE_IDENTITY_MAX_BYTES_def)
  next
    case False
    have "WindowsFileIdentity_encode key \<noteq> Inr i"
      using False
      by (auto simp: WindowsFileIdentity_encode_def Let_def folded validate_size_eq)
    then show ?thesis using False shape by (simp add: CFAPI_FILE_IDENTITY_MAX_BYTES_def)
  qed
qed

lemma key_from_fields_eq:
  "key_from_fields [namespace, root, item] = Inr key \<longleftrightarrow>
     namespace \<noteq> [] \<and> root \<noteq> [] \<and> item \<noteq> [] \<and> key = key_of_fields namespace root item"
  by (auto simp: CloudNamespaceId_new_def CloudRootId_new_def CloudItemId_new_def opaque_new_def
      key_of_fields_def)

text \<open>A byte string that is long enough for the header, cut at the positions \<open>decode_bytes\<close> reads.\<close>

lemma header_cut:
  assumes "HEADER_LEN \<le> length bytes"
  obtains magic version t1 t2 t3 payload where
    "bytes = magic @ version # t1 @ t2 @ t3 @ payload"
    "length magic = 4" "length t1 = 4" "length t2 = 4" "length t3 = 4"
proof -
  have "bytes = take 4 bytes @ bytes ! 4 # take 4 (drop 5 bytes) @ take 4 (drop 9 bytes) @
      take 4 (drop 13 bytes) @ drop 17 bytes"
  proof -
    have "drop 4 bytes = bytes ! 4 # drop 5 bytes"
      using assms Cons_nth_drop_Suc [of 4 bytes] by simp
    moreover have "drop 5 bytes = take 4 (drop 5 bytes) @ drop 9 bytes"
      "drop 9 bytes = take 4 (drop 9 bytes) @ drop 13 bytes"
      "drop 13 bytes = take 4 (drop 13 bytes) @ drop 17 bytes"
      using append_take_drop_id [of 4 "drop 5 bytes"] append_take_drop_id [of 4 "drop 9 bytes"]
        append_take_drop_id [of 4 "drop 13 bytes"] by simp_all
    ultimately show ?thesis by (metis append_take_drop_id)
  qed
  then show thesis by (rule that) (use assms in simp_all)
qed

lemma from_le_bytes_total:
  assumes "length bs = 4"
  obtains w where "bs = to_le_bytes w"
proof -
  obtain a b c d where "bs = [a, b, c, d]" using assms by (auto simp: length_Suc_conv numeral_eq_Suc)
  then have "\<exists>w. from_le_bytes bs = Some w" by simp
  then show thesis using that by (auto simp: from_le_bytes_eq_Some)
qed

lemma read_fields_three:
  assumes "length payload = l1 + l2 + l3" and "length header = n"
  shows "read_fields (header @ payload) n [l1, l2, l3] = Inr fs \<longleftrightarrow>
    (\<exists>f1 f2 f3. fs = [f1, f2, f3] \<and> payload = as_bytes f1 @ as_bytes f2 @ as_bytes f3 \<and>
       l1 = length f1 \<and> l2 = length f2 \<and> l3 = length f3 \<and> (\<forall>f \<in> {f1, f2, f3}. utf8 (as_bytes f)))"
    (is "?L \<longleftrightarrow> ?R")
proof
  assume ?L
  then obtain f1 f2 f3 where f: "fs = [f1, f2, f3]" "\<forall>f \<in> {f1, f2, f3}. utf8 (as_bytes f)"
    "take l1 payload = as_bytes f1" "take l2 (drop l1 payload) = as_bytes f2"
    "take l3 (drop (l1 + l2) payload) = as_bytes f3"
    using assms(2) by (auto simp: add.assoc)
  have "payload = take l1 payload @ take l2 (drop l1 payload) @ take l3 (drop (l1 + l2) payload)"
    using assms(1) take_add [of l1 l2 payload] take_add [of "l1 + l2" l3 payload] by simp
  moreover have "l1 = length f1" "l2 = length f2" "l3 = length f3"
    using arg_cong [OF f(3), of length] arg_cong [OF f(4), of length] arg_cong [OF f(5), of length] assms(1)
    by simp_all
  ultimately show ?R using f by (intro exI [of _ f1] exI [of _ f2] exI [of _ f3]) simp
next
  assume ?R
  then show ?L using assms(2) by auto
qed

lemma decode_bytes_layout:
  assumes "length magic = 4"
  shows "decode_bytes (magic @ version # to_le_bytes w1 @ to_le_bytes w2 @ to_le_bytes w3 @ payload) = Inr key \<longleftrightarrow>
    magic = MAGIC \<and> version = FORMAT_VERSION \<and>
    (\<exists>f1 f2 f3. payload = as_bytes f1 @ as_bytes f2 @ as_bytes f3 \<and>
       unat w1 = length f1 \<and> unat w2 = length f2 \<and> unat w3 = length f3 \<and>
       key_wf key \<and> key = key_of_fields f1 f2 f3)"
    (is "decode_bytes ?bytes = _ \<longleftrightarrow> _")
proof -
  let ?ls = "[unat w1, unat w2, unat w3]" and ?e = "identity_invalid ''identity field lengths overflow''"
  let ?header = "magic @ version # to_le_bytes w1 @ to_le_bytes w2 @ to_le_bytes w3"
  have cut: "take 4 (drop 5 ?bytes) = to_le_bytes w1" "take 4 (drop 9 ?bytes) = to_le_bytes w2"
    "take 4 (drop 13 ?bytes) = to_le_bytes w3" "take 4 ?bytes = magic" "?bytes ! 4 = version"
    using assms by (simp_all add: nth_append)
  have lengths: "read_lengths ?bytes [0, 1, 2] = Inr ?ls" using cut by simp
  have total: "try_fold (\<lambda>total len. ok_or ?e (usize_checked_add total len)) 17 ?ls
      = Inr (17 + (unat w1 + unat w2 + unat w3))"
  proof -
    have "17 + (unat w1 + unat w2 + unat w3) \<le> usize_MAX"
      using unat_u32_bound [of w1] unat_u32_bound [of w2] unat_u32_bound [of w3]
      unfolding usize_MAX_eq by linarith
    then show ?thesis by (simp add: usize_checked_add_def)
  qed
  have len: "length ?bytes = 17 + length payload" using assms by simp
  have fields: "read_fields ?bytes 17 ?ls = Inr fs \<longleftrightarrow>
      (\<exists>f1 f2 f3. fs = [f1, f2, f3] \<and> payload = as_bytes f1 @ as_bytes f2 @ as_bytes f3 \<and>
       unat w1 = length f1 \<and> unat w2 = length f2 \<and> unat w3 = length f3 \<and> (\<forall>f \<in> {f1, f2, f3}. utf8 (as_bytes f)))"
    if "length payload = unat w1 + unat w2 + unat w3" for fs
    using read_fields_three [OF that, of ?header 17 fs] assms by simp
  have "decode_bytes ?bytes = Inr key \<longleftrightarrow> magic = MAGIC \<and> version = FORMAT_VERSION \<and>
      length payload = unat w1 + unat w2 + unat w3 \<and>
      (\<exists>fs. read_fields ?bytes 17 ?ls = Inr fs \<and> key_from_fields fs = Inr key)"
    unfolding decode_bytes_def HEADER_LEN_eq length_MAGIC cut lengths res_bind.simps total len by auto
  also have "\<dots> \<longleftrightarrow> magic = MAGIC \<and> version = FORMAT_VERSION \<and>
    (\<exists>f1 f2 f3. payload = as_bytes f1 @ as_bytes f2 @ as_bytes f3 \<and>
       unat w1 = length f1 \<and> unat w2 = length f2 \<and> unat w3 = length f3 \<and>
       key_wf key \<and> key = key_of_fields f1 f2 f3)"
  proof (cases "length payload = unat w1 + unat w2 + unat w3")
    case True
    have made: "(\<forall>f \<in> {f1, f2, f3}. utf8 (as_bytes f)) \<and> key_from_fields [f1, f2, f3] = Inr key \<longleftrightarrow>
        key_wf key \<and> key = key_of_fields f1 f2 f3" for f1 f2 f3
      by (auto simp: key_from_fields_eq simp del: key_from_fields.simps)
    have "(\<exists>fs. read_fields ?bytes 17 ?ls = Inr fs \<and> key_from_fields fs = Inr key) \<longleftrightarrow>
      (\<exists>f1 f2 f3. payload = as_bytes f1 @ as_bytes f2 @ as_bytes f3 \<and>
         unat w1 = length f1 \<and> unat w2 = length f2 \<and> unat w3 = length f3 \<and>
         (\<forall>f \<in> {f1, f2, f3}. utf8 (as_bytes f)) \<and> key_from_fields [f1, f2, f3] = Inr key)"
      unfolding fields [OF True] by blast
    then show ?thesis using True by (simp only: made) simp
  qed auto
  finally show ?thesis .
qed

lemma decode_envelope:
  assumes "key_wf key" and "length (envelope (map as_bytes (key_fields key))) \<le> CFAPI_FILE_IDENTITY_MAX_BYTES"
  shows "decode_bytes (envelope (map as_bytes (key_fields key))) = Inr key"
proof -
  obtain f1 f2 f3 where key: "key = key_of_fields f1 f2 f3" by (rule key_of_fields_cases)
  have "length f1 < 2 ^ 32" "length f2 < 2 ^ 32" "length f3 < 2 ^ 32"
    using assms(2) by (simp_all add: key length_envelope CFAPI_FILE_IDENTITY_MAX_BYTES_def)
  then have "unat (of_nat (length f1) :: u32) = length f1" "unat (of_nat (length f2) :: u32) = length f2"
    "unat (of_nat (length f3) :: u32) = length f3"
    by (simp_all add: unat_of_nat)
  moreover have "envelope (map as_bytes (key_fields key)) = MAGIC @ FORMAT_VERSION #
      to_le_bytes (of_nat (length f1)) @ to_le_bytes (of_nat (length f2)) @ to_le_bytes (of_nat (length f3)) @
      as_bytes f1 @ as_bytes f2 @ as_bytes f3"
    by (simp add: envelope_def key)
  ultimately show ?thesis
    unfolding key using assms(1) key by (simp only: decode_bytes_layout [OF length_MAGIC]) blast
qed

lemma decode_bytes_sound:
  assumes "decode_bytes bytes = Inr key"
  shows "key_wf key \<and> bytes = envelope (map as_bytes (key_fields key))"
proof -
  have "HEADER_LEN \<le> length bytes" using assms by (auto simp: decode_bytes_def split: if_splits)
  then obtain magic version t1 t2 t3 payload where cut: "bytes = magic @ version # t1 @ t2 @ t3 @ payload"
    "length magic = 4" "length t1 = 4" "length t2 = 4" "length t3 = 4"
    by (rule header_cut)
  obtain w1 where w1: "t1 = to_le_bytes w1" using cut(3) by (rule from_le_bytes_total)
  obtain w2 where w2: "t2 = to_le_bytes w2" using cut(4) by (rule from_le_bytes_total)
  obtain w3 where w3: "t3 = to_le_bytes w3" using cut(5) by (rule from_le_bytes_total)
  obtain f1 f2 f3 where f: "magic = MAGIC" "version = FORMAT_VERSION"
    "payload = as_bytes f1 @ as_bytes f2 @ as_bytes f3" "unat w1 = length f1" "unat w2 = length f2"
    "unat w3 = length f3" "key_wf key" "key = key_of_fields f1 f2 f3"
    using assms unfolding cut(1) w1 w2 w3 decode_bytes_layout [OF cut(2)] by blast
  have "of_nat (length f1) = w1" "of_nat (length f2) = w2" "of_nat (length f3) = w3"
    by (simp_all flip: f(4-6))
  then show ?thesis using f cut(1) by (simp add: w1 w2 w3 envelope_def)
qed

section \<open>The codec\<close>

interpretation windows_codec: identity_codec WindowsFileIdentity_encode into_bytes
  WindowsFileIdentity_from_bytes WindowsFileIdentity_decode
proof
  fix key i
  assume wf: "key_wf key" and "WindowsFileIdentity_encode key = Inr i"
  then have size: "length (envelope (map as_bytes (key_fields key))) \<le> CFAPI_FILE_IDENTITY_MAX_BYTES"
    and i: "i = WindowsFileIdentity (envelope (map as_bytes (key_fields key)))" by (simp_all add: windows_encode_eq)
  then show "WindowsFileIdentity_from_bytes (into_bytes i) = Inr i \<and> WindowsFileIdentity_decode i = Inr key"
    using decode_envelope [OF wf size]
    by (simp add: WindowsFileIdentity_from_bytes_def WindowsFileIdentity_decode_def validate_size_def)
next
  fix bytes i key
  assume "WindowsFileIdentity_from_bytes bytes = Inr i" and "WindowsFileIdentity_decode i = Inr key"
  then have "i = WindowsFileIdentity bytes" "length bytes \<le> CFAPI_FILE_IDENTITY_MAX_BYTES"
    "decode_bytes bytes = Inr key"
    by (auto simp: WindowsFileIdentity_from_bytes_def WindowsFileIdentity_decode_def validate_size_def split: if_splits)
  then show "key_wf key \<and> into_bytes i = bytes \<and> WindowsFileIdentity_encode key = Inr i"
    using decode_bytes_sound [of bytes key] by (simp add: windows_encode_eq)
qed

text \<open>
  C37: Windows file identities are a faithful, canonical name of an item: the byte strings that are
  accepted and decode to a key are exactly the envelope that encoding the key produces, so no two
  keys share an identity and no key has two; and a key is encoded exactly when header and fields
  fit the 4096 bytes of the Cloud Files API.
\<close>

theorem windows_identity_roundtrip:
  "(key_wf key \<and> WindowsFileIdentity_encode key = Inr i \<and> into_bytes i = bytes \<longleftrightarrow>
     WindowsFileIdentity_from_bytes bytes = Inr i \<and> WindowsFileIdentity_decode i = Inr key) \<and>
   ((\<exists>i. WindowsFileIdentity_encode key = Inr i) \<longleftrightarrow> 17 + sum_list (map length (key_fields key)) \<le> 4096)"
proof -
  have "length (envelope (map as_bytes (key_fields key))) = 17 + sum_list (map length (key_fields key))"
    by (simp add: length_envelope key_fields_def)
  then show ?thesis
    using windows_codec.exact [of key i bytes] by (simp add: windows_encode_eq CFAPI_FILE_IDENTITY_MAX_BYTES_def)
qed

end
