(* ===== verification/Macos_Identifier.thy ===== *)
theory Macos_Identifier
  imports Identity_Codec
begin

text \<open>
  Persistent File Provider identifiers (\<open>macos_bridge/src/identifier.rs\<close>) and the errors of the
  bridge (\<open>macos_bridge/src/error.rs\<close>). The base64url codec of the \<open>base64\<close> crate is a
  parameter: the functions that use it take its \<open>encode\<close> and \<open>decode\<close>, and the laws of
  RFC 4648, section 5, without padding, are the assumptions of the locale \<open>base64url\<close>.
\<close>

section \<open>Errors\<close>

datatype MacosErrorCode =
    Success
  | NotFound
  | NotAuthenticated
  | PermissionDenied
  | VersionOutOfDate
  | TryAgain
  | NotSupported
  | InvalidArgument
  | SyncAnchorExpired
  | Cancelled
  | ProviderNotFound
  | Internal

datatype MacosBridgeError =
    InvalidIdentifier string
  | SystemContainerIsNotItem
  | InvalidItemVersion string
  | InvalidBackendResponse string
  | UnsupportedSystemContainer
  | StaleSessionGeneration u64 u64
  | SessionNotAccepting SessionState
  | InvalidSessionTransition SessionState SessionState
  | ActiveRequestCountOverflow
  | InvalidFfiInput string
  | FfiPanic
  | Backend CloudBackendError

type_synonym 'a macos_result = "MacosBridgeError + 'a"

primrec backend_error_code :: "CloudBackendErrorKind \<Rightarrow> MacosErrorCode" where
  "backend_error_code CloudBackendErrorKind.NotFound = MacosErrorCode.NotFound"
| "backend_error_code AuthenticationRequired = NotAuthenticated"
| "backend_error_code CloudBackendErrorKind.PermissionDenied = MacosErrorCode.PermissionDenied"
| "backend_error_code CloudBackendErrorKind.Conflict = VersionOutOfDate"
| "backend_error_code CloudBackendErrorKind.PreconditionFailed = VersionOutOfDate"
| "backend_error_code InvalidRequest = InvalidArgument"
| "backend_error_code RateLimited = TryAgain"
| "backend_error_code TemporarilyUnavailable = TryAgain"
| "backend_error_code CloudBackendErrorKind.Unsupported = NotSupported"
| "backend_error_code InvalidResponse = MacosErrorCode.Internal"
| "backend_error_code CloudBackendErrorKind.Internal = MacosErrorCode.Internal"

primrec error_code :: "MacosBridgeError \<Rightarrow> MacosErrorCode" where
  "error_code (InvalidIdentifier reason) = InvalidArgument"
| "error_code SystemContainerIsNotItem = InvalidArgument"
| "error_code (InvalidItemVersion reason) = InvalidArgument"
| "error_code (InvalidFfiInput reason) = InvalidArgument"
| "error_code UnsupportedSystemContainer = NotSupported"
| "error_code (StaleSessionGeneration expected actual) = ProviderNotFound"
| "error_code (SessionNotAccepting state) = ProviderNotFound"
| "error_code (InvalidSessionTransition from to) = ProviderNotFound"
| "error_code ActiveRequestCountOverflow = MacosErrorCode.Internal"
| "error_code (InvalidBackendResponse reason) = MacosErrorCode.Internal"
| "error_code FfiPanic = MacosErrorCode.Internal"
| "error_code (Backend error) = backend_error_code (be_kind error)"

section \<open>Identifiers\<close>

definition FILE_PROVIDER_ROOT_CONTAINER_IDENTIFIER :: string where
  "FILE_PROVIDER_ROOT_CONTAINER_IDENTIFIER = ''NSFileProviderRootContainerItemIdentifier''"

definition FILE_PROVIDER_CURRENT_WORKING_SET_IDENTIFIER :: string where
  "FILE_PROVIDER_CURRENT_WORKING_SET_IDENTIFIER = ''NSFileProviderWorkingSetContainerItemIdentifier''"

definition FILE_PROVIDER_TRASH_CONTAINER_IDENTIFIER :: string where
  "FILE_PROVIDER_TRASH_CONTAINER_IDENTIFIER = ''NSFileProviderTrashContainerItemIdentifier''"

definition PREFIX :: string where
  "PREFIX = ''afcf1.''"

definition FIELD_COUNT :: usize where
  "FIELD_COUNT = 3"

definition MAX_IDENTITY_FIELD_BYTES :: usize where
  "MAX_IDENTITY_FIELD_BYTES = 1024"

definition MAX_FILE_PROVIDER_IDENTIFIER_BYTES :: usize where
  "MAX_FILE_PROVIDER_IDENTIFIER_BYTES = 4128"

datatype MacosFileProviderSystemContainer = Root | WorkingSet | Trash

datatype MacosFileProviderIdentifier =
    Item string CloudItemKey
  | System MacosFileProviderSystemContainer

definition macos_invalid :: "string \<Rightarrow> MacosBridgeError" where
  "macos_invalid reason = InvalidIdentifier reason"

text \<open>\<open>str::split\<close> on one character, \<open>[\<dots>].join\<close>, and \<open>str::strip_prefix\<close>.\<close>

fun split_on :: "char \<Rightarrow> string \<Rightarrow> string list" where
  "split_on d [] = [[]]"
| "split_on d (c # s) =
     (if c = d then [] # split_on d s
      else case split_on d s of part # rest \<Rightarrow> (c # part) # rest | [] \<Rightarrow> [[c]])"

fun join_with :: "char \<Rightarrow> string list \<Rightarrow> string" where
  "join_with d [] = []"
| "join_with d [s] = s"
| "join_with d (s # rest) = s @ d # join_with d rest"

definition strip_prefix :: "string \<Rightarrow> string \<Rightarrow> string option" where
  "strip_prefix p s = (if take (length p) s = p then Some (drop (length p) s) else None)"

definition MacosFileProviderIdentifier_encode ::
  "(u8 list \<Rightarrow> string) \<Rightarrow> CloudItemKey \<Rightarrow> MacosFileProviderIdentifier macos_result" where
  "MacosFileProviderIdentifier_encode b64 key =
     (if \<exists>field \<in> set (key_fields key). length field > MAX_IDENTITY_FIELD_BYTES
      then Inl (macos_invalid ''identifier field exceeds the accepted byte length'')
      else
        let encoded = join_with CHR ''.'' (map (b64 \<circ> as_bytes) (key_fields key));
            encoded = PREFIX @ encoded
        in if length encoded > MAX_FILE_PROVIDER_IDENTIFIER_BYTES
           then Inl (macos_invalid ''identifier exceeds the accepted byte length'')
           else Inr (Item encoded key))"

text \<open>One encoded field.\<close>

definition decode_field ::
  "(u8 list \<Rightarrow> string) \<Rightarrow> (string \<Rightarrow> u8 list option) \<Rightarrow> string \<Rightarrow> string macos_result" where
  "decode_field b64 unb64 field =
     (if field = [] then Inl (macos_invalid ''identifier field must not be empty'')
      else
        res_bind (ok_or (macos_invalid ''identifier field is not canonical base64url'') (unb64 field)) (\<lambda>bytes.
        if length bytes > MAX_IDENTITY_FIELD_BYTES
        then Inl (macos_invalid ''identifier field exceeds the accepted byte length'')
        else
          res_bind (ok_or (macos_invalid ''identifier field is not valid UTF-8'') (from_utf8 bytes)) (\<lambda>text.
          if b64 (as_bytes text) \<noteq> field
          then Inl (macos_invalid ''identifier field is not canonical base64url'')
          else Inr text)))"

primrec decode_all ::
  "(u8 list \<Rightarrow> string) \<Rightarrow> (string \<Rightarrow> u8 list option) \<Rightarrow> string list \<Rightarrow> string list macos_result" where
  "decode_all b64 unb64 [] = Inr []"
| "decode_all b64 unb64 (field # rest) =
     res_bind (decode_field b64 unb64 field) (\<lambda>text.
     res_bind (decode_all b64 unb64 rest) (\<lambda>texts. Inr (text # texts)))"

fun macos_key :: "string list \<Rightarrow> CloudItemKey macos_result" where
  "macos_key [] = Inl (macos_invalid ''identifier namespace is missing'')"
| "macos_key [namespace] = Inl (macos_invalid ''identifier root is missing'')"
| "macos_key [namespace, root] = Inl (macos_invalid ''identifier item is missing'')"
| "macos_key (namespace # root # item # _) =
     res_bind (res_map_err (\<lambda>_. macos_invalid ''identifier namespace must not be empty'')
                (CloudNamespaceId_new namespace)) (\<lambda>namespace_id.
     res_bind (res_map_err (\<lambda>_. macos_invalid ''identifier root must not be empty'')
                (CloudRootId_new root)) (\<lambda>root_id.
     res_bind (res_map_err (\<lambda>_. macos_invalid ''identifier item must not be empty'')
                (CloudItemId_new item)) (\<lambda>item_id.
     Inr \<lparr>key_scope = \<lparr>scope_namespace_id = namespace_id, scope_root_id = root_id\<rparr>,
          key_item_id = item_id\<rparr>)))"

definition MacosFileProviderIdentifier_parse ::
  "(u8 list \<Rightarrow> string) \<Rightarrow> (string \<Rightarrow> u8 list option) \<Rightarrow> string \<Rightarrow> MacosFileProviderIdentifier macos_result" where
  "MacosFileProviderIdentifier_parse b64 unb64 value' =
     (if length value' > MAX_FILE_PROVIDER_IDENTIFIER_BYTES
      then Inl (macos_invalid ''identifier exceeds the accepted byte length'')
      else if value' = FILE_PROVIDER_ROOT_CONTAINER_IDENTIFIER then Inr (System Root)
      else if value' = FILE_PROVIDER_CURRENT_WORKING_SET_IDENTIFIER then Inr (System WorkingSet)
      else if value' = FILE_PROVIDER_TRASH_CONTAINER_IDENTIFIER then Inr (System Trash)
      else
        res_bind (ok_or (macos_invalid ''identifier prefix or version is unsupported'')
                   (strip_prefix PREFIX value')) (\<lambda>payload.
        let parts = split_on CHR ''.'' payload in
        if length parts \<noteq> FIELD_COUNT
        then Inl (macos_invalid ''identifier must contain exactly three encoded fields'')
        else
          res_bind (decode_all b64 unb64 parts) (\<lambda>texts.
          res_bind (macos_key texts) (\<lambda>key.
          Inr (Item value' key)))))"

primrec container_identifier :: "MacosFileProviderSystemContainer \<Rightarrow> string" where
  "container_identifier Root = FILE_PROVIDER_ROOT_CONTAINER_IDENTIFIER"
| "container_identifier WorkingSet = FILE_PROVIDER_CURRENT_WORKING_SET_IDENTIFIER"
| "container_identifier Trash = FILE_PROVIDER_TRASH_CONTAINER_IDENTIFIER"

primrec identifier_as_str :: "MacosFileProviderIdentifier \<Rightarrow> string" where
  "identifier_as_str (Item encoded key) = encoded"
| "identifier_as_str (System container) = container_identifier container"

primrec identifier_item_key :: "MacosFileProviderIdentifier \<Rightarrow> CloudItemKey macos_result" where
  "identifier_item_key (Item encoded key) = Inr key"
| "identifier_item_key (System container) = Inl SystemContainerIsNotItem"

primrec system_container :: "MacosFileProviderIdentifier \<Rightarrow> MacosFileProviderSystemContainer option" where
  "system_container (Item encoded key) = None"
| "system_container (System container) = Some container"

section \<open>Splitting and joining\<close>

lemma split_on_ne_Nil [simp]: "split_on d s \<noteq> []"
  by (induction s) (auto split: list.splits)

lemma split_on_no_sep: "d \<notin> set s \<Longrightarrow> split_on d s = [s]"
  by (induction s) auto

lemma split_on_sep: "d \<notin> set s \<Longrightarrow> split_on d (s @ d # t) = s # split_on d t"
  by (induction s) auto

lemma join_split_on: "join_with d (split_on d s) = s"
proof (induction s)
  case (Cons c s)
  obtain part rest where "split_on d s = part # rest" by (cases "split_on d s") auto
  with Cons show ?case by (cases rest) auto
qed simp

lemma split_join:
  "parts \<noteq> [] \<Longrightarrow> \<forall>s \<in> set parts. d \<notin> set s \<Longrightarrow> split_on d (join_with d parts) = parts"
  by (induction d parts rule: join_with.induct) (auto simp: split_on_no_sep split_on_sep)

section \<open>The base64url codec\<close>

definition url_safe :: "char \<Rightarrow> bool" where
  "url_safe c \<longleftrightarrow> c \<in> set ''ABCDEFGHIJKLMNOPQRSTUVWXYZabcdefghijklmnopqrstuvwxyz0123456789-_''"

locale base64url =
  fixes b64 :: "u8 list \<Rightarrow> string" and unb64 :: "string \<Rightarrow> u8 list option"
  assumes unb64_b64: "unb64 (b64 bytes) = Some bytes"
    and b64_alphabet: "c \<in> set (b64 bytes) \<Longrightarrow> url_safe c"
    and length_b64: "length (b64 bytes) = (4 * length bytes + 2) div 3"
begin

lemma b64_no_dot: "CHR ''.'' \<notin> set (b64 bytes)"
  using b64_alphabet [of "CHR ''.''" bytes] by (auto simp: url_safe_def)

lemma b64_eq_Nil: "b64 bytes = [] \<longleftrightarrow> bytes = []"
proof -
  have "length (b64 bytes) = 0 \<longleftrightarrow> 4 * length bytes + 2 < 3" by (simp only: length_b64 div_eq_0_iff) simp
  then show ?thesis by auto
qed

lemma decode_field_eq:
  "decode_field b64 unb64 part = Inr t \<longleftrightarrow>
     part = b64 (as_bytes t) \<and> t \<noteq> [] \<and> length t \<le> MAX_IDENTITY_FIELD_BYTES \<and> utf8 (as_bytes t)"
    (is "?L \<longleftrightarrow> ?R")
proof
  assume ?R
  then have "b64 (as_bytes t) \<noteq> []" by (simp add: b64_eq_Nil)
  then show ?L using \<open>?R\<close> by (simp add: decode_field_def unb64_b64)
next
  assume ?L
  then have "part = b64 (as_bytes t)" "part \<noteq> []" "length t \<le> MAX_IDENTITY_FIELD_BYTES" "utf8 (as_bytes t)"
    by (auto simp: decode_field_def split: if_splits)
  then show ?R using b64_eq_Nil [of "as_bytes t"] by simp
qed

lemma decode_all_eq:
  "decode_all b64 unb64 parts = Inr texts \<longleftrightarrow>
     parts = map (b64 \<circ> as_bytes) texts \<and>
     (\<forall>t \<in> set texts. t \<noteq> [] \<and> length t \<le> MAX_IDENTITY_FIELD_BYTES \<and> utf8 (as_bytes t))"
  by (induction parts arbitrary: texts) (auto simp: decode_field_eq Cons_eq_map_conv)

text \<open>The length check on the whole identifier never fires: the field check implies it.\<close>

lemma length_encoded:
  assumes "\<forall>t \<in> set [f1, f2, f3]. length t \<le> MAX_IDENTITY_FIELD_BYTES"
  shows "length (PREFIX @ join_with CHR ''.'' (map (b64 \<circ> as_bytes) [f1, f2, f3])) \<le> MAX_FILE_PROVIDER_IDENTIFIER_BYTES"
proof -
  have "(4 * length t + 2) div 3 \<le> 1366" if "t \<in> set [f1, f2, f3]" for t
    using assms that by (auto simp: MAX_IDENTITY_FIELD_BYTES_def)
  then have "length (b64 (as_bytes t)) \<le> 1366" if "t \<in> set [f1, f2, f3]" for t
    using that by (simp add: length_b64)
  from this [of f1] this [of f2] this [of f3]
  show ?thesis by (simp add: PREFIX_def MAX_FILE_PROVIDER_IDENTIFIER_BYTES_def)
qed

lemma encode_eq:
  "MacosFileProviderIdentifier_encode b64 key = Inr i \<longleftrightarrow>
     (\<forall>t \<in> set (key_fields key). length t \<le> MAX_IDENTITY_FIELD_BYTES) \<and>
     i = Item (PREFIX @ join_with CHR ''.'' (map (b64 \<circ> as_bytes) (key_fields key))) key"
proof (cases "\<forall>t \<in> set (key_fields key). length t \<le> MAX_IDENTITY_FIELD_BYTES")
  case True
  obtain f1 f2 f3 where "key_fields key = [f1, f2, f3]" by (simp add: key_fields_def)
  then show ?thesis
    using True length_encoded [of f1 f2 f3]
    by (auto simp: MacosFileProviderIdentifier_encode_def Let_def not_le)
qed (auto simp: MacosFileProviderIdentifier_encode_def not_le)

lemma macos_key_eq:
  "macos_key [namespace, root, item] = Inr key \<longleftrightarrow>
     namespace \<noteq> [] \<and> root \<noteq> [] \<and> item \<noteq> [] \<and> key = key_of_fields namespace root item"
  by (auto simp: CloudNamespaceId_new_def CloudRootId_new_def CloudItemId_new_def opaque_new_def
      key_of_fields_def)

lemma parse_item_eq:
  "MacosFileProviderIdentifier_parse b64 unb64 s = Inr (Item encoded key) \<longleftrightarrow>
     encoded = s \<and> key_wf key \<and> MacosFileProviderIdentifier_encode b64 key = Inr (Item s key)"
    (is "?L \<longleftrightarrow> ?R")
proof
  assume ?L
  then obtain payload texts where p: "encoded = s" "strip_prefix PREFIX s = Some payload"
    "length (split_on CHR ''.'' payload) = FIELD_COUNT"
    "decode_all b64 unb64 (split_on CHR ''.'' payload) = Inr texts" "macos_key texts = Inr key"
    by (auto simp: MacosFileProviderIdentifier_parse_def Let_def split: if_splits)
  then have split: "split_on CHR ''.'' payload = map (b64 \<circ> as_bytes) texts" "length texts = 3"
    by (simp_all add: decode_all_eq FIELD_COUNT_def)
  then obtain f1 f2 f3 where texts: "texts = [f1, f2, f3]" by (auto simp: length_Suc_conv numeral_eq_Suc)
  then have key: "key = key_of_fields f1 f2 f3" using p(5) by (simp add: macos_key_eq del: macos_key.simps)
  have "s = PREFIX @ payload"
    using p(2) by (metis append_take_drop_id option.distinct(1) option.inject strip_prefix_def)
  moreover have "payload = join_with CHR ''.'' (map (b64 \<circ> as_bytes) [f1, f2, f3])"
    using join_split_on [of "CHR ''.''" payload] split(1) texts by simp
  ultimately show ?R using p(1,4) texts by (simp add: encode_eq key decode_all_eq)
next
  assume R: ?R
  obtain f1 f2 f3 where key: "key = key_of_fields f1 f2 f3" by (rule key_of_fields_cases)
  let ?payload = "join_with CHR ''.'' (map (b64 \<circ> as_bytes) [f1, f2, f3])"
  have s: "s = PREFIX @ ?payload" and fits: "\<forall>t \<in> set [f1, f2, f3]. length t \<le> MAX_IDENTITY_FIELD_BYTES"
    and wf: "\<forall>t \<in> set [f1, f2, f3]. t \<noteq> [] \<and> utf8 (as_bytes t)"
    using R by (simp_all add: key encode_eq)
  have "length s \<le> MAX_FILE_PROVIDER_IDENTIFIER_BYTES" using length_encoded [OF fits] s by simp
  moreover have "s \<noteq> container_identifier c" for c
    by (cases c) (simp_all add: s PREFIX_def FILE_PROVIDER_ROOT_CONTAINER_IDENTIFIER_def
        FILE_PROVIDER_CURRENT_WORKING_SET_IDENTIFIER_def FILE_PROVIDER_TRASH_CONTAINER_IDENTIFIER_def)
  from this [of Root] this [of WorkingSet] this [of Trash]
  have "s \<noteq> FILE_PROVIDER_ROOT_CONTAINER_IDENTIFIER" "s \<noteq> FILE_PROVIDER_CURRENT_WORKING_SET_IDENTIFIER"
    "s \<noteq> FILE_PROVIDER_TRASH_CONTAINER_IDENTIFIER" by simp_all
  moreover have "strip_prefix PREFIX s = Some ?payload" by (simp add: strip_prefix_def s)
  moreover have "split_on CHR ''.'' ?payload = map (b64 \<circ> as_bytes) [f1, f2, f3]"
    by (rule split_join) (simp_all add: b64_no_dot)
  moreover have "decode_all b64 unb64 (map (b64 \<circ> as_bytes) [f1, f2, f3]) = Inr [f1, f2, f3]"
    using fits wf by (simp only: decode_all_eq) simp
  moreover have "macos_key [f1, f2, f3] = Inr key" using wf by (simp add: macos_key_eq key del: macos_key.simps)
  ultimately show ?L
    using R by (simp add: MacosFileProviderIdentifier_parse_def FIELD_COUNT_def del: decode_all.simps macos_key.simps)
qed

end

sublocale base64url \<subseteq> macos_codec: identity_codec "MacosFileProviderIdentifier_encode b64" identifier_as_str
  "MacosFileProviderIdentifier_parse b64 unb64" identifier_item_key
proof
  fix key i
  assume "key_wf key" "MacosFileProviderIdentifier_encode b64 key = Inr i"
  then show "MacosFileProviderIdentifier_parse b64 unb64 (identifier_as_str i) = Inr i \<and> identifier_item_key i = Inr key"
    using parse_item_eq [of "identifier_as_str i" "identifier_as_str i" key] by (auto simp: encode_eq)
next
  fix s i key
  assume "MacosFileProviderIdentifier_parse b64 unb64 s = Inr i" "identifier_item_key i = Inr key"
  then show "key_wf key \<and> identifier_as_str i = s \<and> MacosFileProviderIdentifier_encode b64 key = Inr i"
    using parse_item_eq [of s] by (cases i) auto
qed

context base64url
begin

lemmas identifier_exact = macos_codec.exact

end

section \<open>RFC 4648\<close>

text \<open>The codec of RFC 4648 with the URL-safe alphabet and no padding, an instance of the laws.\<close>

definition base64_alphabet :: string where
  "base64_alphabet = ''ABCDEFGHIJKLMNOPQRSTUVWXYZabcdefghijklmnopqrstuvwxyz0123456789-_''"

definition digit :: "nat \<Rightarrow> char" where
  "digit n = base64_alphabet ! n"

definition digit_value :: "char \<Rightarrow> nat option" where
  "digit_value c =
     (let n = length (takeWhile (\<lambda>d. d \<noteq> c) base64_alphabet) in if n < 64 then Some n else None)"

fun url_encode :: "u8 list \<Rightarrow> string" where
  "url_encode [] = []"
| "url_encode [a] = [digit (unat a div 4), digit (unat a mod 4 * 16)]"
| "url_encode [a, b] =
     [digit (unat a div 4), digit (unat a mod 4 * 16 + unat b div 16), digit (unat b mod 16 * 4)]"
| "url_encode (a # b # c # rest) =
     [digit (unat a div 4), digit (unat a mod 4 * 16 + unat b div 16),
      digit (unat b mod 16 * 4 + unat c div 64), digit (unat c mod 64)] @ url_encode rest"

fun url_decode :: "string \<Rightarrow> u8 list option" where
  "url_decode [] = Some []"
| "url_decode [p] = None"
| "url_decode [p, q] =
     Option.bind (digit_value p) (\<lambda>x. Option.bind (digit_value q) (\<lambda>y.
       if y mod 16 = 0 then Some [of_nat (x * 4 + y div 16)] else None))"
| "url_decode [p, q, r] =
     Option.bind (digit_value p) (\<lambda>x. Option.bind (digit_value q) (\<lambda>y. Option.bind (digit_value r) (\<lambda>z.
       if z mod 4 = 0 then Some [of_nat (x * 4 + y div 16), of_nat (y mod 16 * 16 + z div 4)] else None)))"
| "url_decode (p # q # r # t # rest) =
     Option.bind (digit_value p) (\<lambda>x. Option.bind (digit_value q) (\<lambda>y. Option.bind (digit_value r) (\<lambda>z.
     Option.bind (digit_value t) (\<lambda>w. Option.bind (url_decode rest) (\<lambda>bytes.
       Some ([of_nat (x * 4 + y div 16), of_nat (y mod 16 * 16 + z div 4), of_nat (z mod 4 * 64 + w)] @ bytes))))))"

lemma digits_listed:
  "list_all (\<lambda>n. digit_value (digit n) = Some n \<and> url_safe (digit n)) [0..<64]"
  by code_simp

lemma digit_value_digit [simp]: "n < 64 \<Longrightarrow> digit_value (digit n) = Some n"
  using digits_listed by (simp add: list_all_iff)

lemma url_safe_digit [simp]: "n < 64 \<Longrightarrow> url_safe (digit n)"
  using digits_listed by (simp add: list_all_iff)

lemma unat_u8_bound: "unat (b :: u8) < 256"
  using unsigned_less [of b] by simp

lemma octet_parts:
  "unat (b :: u8) div 4 < 64" "unat b div 16 < 16" "unat b div 64 < 4"
  using unat_u8_bound [of b] by (simp_all add: less_mult_imp_div_less)

lemma sextet_sum: "x < k \<Longrightarrow> y < m \<Longrightarrow> x * m + y < k * m" for x y k m :: nat
proof -
  assume "x < k" "y < m"
  then have "Suc x * m \<le> k * m" by (intro mult_le_mono1) simp
  with \<open>y < m\<close> show ?thesis by simp
qed

lemma sextets:
  "unat (a :: u8) div 4 < 64" "unat a mod 4 * 16 < 64" "unat a mod 4 * 16 + unat (b :: u8) div 16 < 64"
  "unat b mod 16 * 4 < 64" "unat b mod 16 * 4 + unat (c :: u8) div 64 < 64" "unat c mod 64 < 64"
  using sextet_sum [of "unat a mod 4" 4 "unat b div 16" 16] sextet_sum [of "unat b mod 16" 16 "unat c div 64" 4]
    octet_parts sextet_sum [of "unat a mod 4" 4 0 16] sextet_sum [of "unat b mod 16" 16 0 4]
  by simp_all

interpretation rfc4648: base64url url_encode url_decode
proof
  show "url_decode (url_encode bytes) = Some bytes" for bytes
    by (induction bytes rule: url_encode.induct) (simp_all add: sextets octet_parts div_mult_mod_eq del: of_nat_add of_nat_mult)
  show "url_safe c" if "c \<in> set (url_encode bytes)" for c bytes
    using that by (induction bytes rule: url_encode.induct) (auto simp: sextets)
  show "length (url_encode bytes) = (4 * length bytes + 2) div 3" for bytes
    by (induction bytes rule: url_encode.induct) simp_all
qed

end
