(* ===== verification/Macos_Bridge.thy ===== *)
theory Macos_Bridge
  imports Macos_Identifier Backend_Port
begin

text \<open>
  The read-only File Provider bridge (\<open>macos_bridge/src\<close>): item versions (\<open>version.rs\<close>),
  item snapshots (\<open>item.rs\<close>), enumeration pages and the enumerator state
  (\<open>enumeration.rs\<close>), the extension session and its request leases (\<open>session.rs\<close>), and
  the engine over a backend port (\<open>engine.rs\<close>). The base64url encoder is an argument wherever
  an identifier is made.
\<close>

section \<open>Versions\<close>

definition FILE_PROVIDER_ITEM_VERSION_COMPONENT_MAX_BYTES :: usize where
  "FILE_PROVIDER_ITEM_VERSION_COMPONENT_MAX_BYTES = 128"

definition DIRECTORY_CONTENT_VERSION :: "u8 list" where
  "DIRECTORY_CONTENT_VERSION = as_bytes ''aster-forge-directory-v1''"

record MacosFileProviderItemVersion =
  version_metadata :: MetadataRevision
  version_content :: ContentRevision

definition validate_component :: "u8 list \<Rightarrow> unit macos_result" where
  "validate_component bytes =
     (if length bytes > FILE_PROVIDER_ITEM_VERSION_COMPONENT_MAX_BYTES
      then Inl (InvalidItemVersion ''item version component exceeds the File Provider 128-byte limit'')
      else Inr ())"

definition MacosFileProviderItemVersion_new ::
  "MetadataRevision \<Rightarrow> ContentRevision \<Rightarrow> MacosFileProviderItemVersion macos_result" where
  "MacosFileProviderItemVersion_new metadata content =
     res_bind (validate_component (metadata_revision_bytes metadata)) (\<lambda>_.
     res_bind (validate_component (content_revision_bytes content)) (\<lambda>_.
     Inr \<lparr>version_metadata = metadata, version_content = content\<rparr>))"

definition MacosFileProviderItemVersion_directory ::
  "MetadataRevision \<Rightarrow> MacosFileProviderItemVersion macos_result" where
  "MacosFileProviderItemVersion_directory metadata =
     res_bind (res_map_err (\<lambda>_. InvalidItemVersion ''directory content version could not be represented'')
                (ContentRevision_new DIRECTORY_CONTENT_VERSION)) (\<lambda>content.
     MacosFileProviderItemVersion_new metadata content)"

section \<open>Items\<close>

datatype MacosFileProviderItemKind = File | Directory

record MacosFileProviderItem =
  fp_identifier :: MacosFileProviderIdentifier
  fp_parent_identifier :: MacosFileProviderIdentifier
  fp_filename :: string
  fp_kind :: MacosFileProviderItemKind
  fp_size :: u64
  fp_version :: MacosFileProviderItemVersion

definition invalid_response :: "string \<Rightarrow> MacosBridgeError" where
  "invalid_response reason = InvalidBackendResponse reason"

definition fp_content ::
  "CloudItem \<Rightarrow> (MacosFileProviderItemKind \<times> u64 \<times> MacosFileProviderItemVersion) macos_result" where
  "fp_content item =
     (case item_kind item of
        CloudItemKind.Directory \<Rightarrow>
          res_bind (MacosFileProviderItemVersion_directory (item_metadata_revision item)) (\<lambda>version.
          Inr (MacosFileProviderItemKind.Directory, 0, version))
      | CloudItemKind.File \<Rightarrow>
          res_bind (ok_or (invalid_response ''regular file omitted content metadata'') (item_content item)) (\<lambda>content.
          res_bind (MacosFileProviderItemVersion_new (item_metadata_revision item) (cm_revision content)) (\<lambda>version.
          Inr (MacosFileProviderItemKind.File, cm_size content, version))))"

definition from_cloud_item ::
  "(u8 list \<Rightarrow> string) \<Rightarrow> CloudItem \<Rightarrow> CloudItemKey \<Rightarrow> MacosFileProviderItem macos_result" where
  "from_cloud_item b64 item root_key =
     (if key_scope (item_key item) \<noteq> key_scope root_key
      then Inl (invalid_response ''item escaped the File Provider root scope'')
      else if is_root item \<noteq> (item_key item = root_key)
      then Inl (invalid_response ''item root shape did not match the File Provider root role'')
      else if CHR ''/'' \<in> set (item_name item) \<or> CHR 0x00 \<in> set (item_name item)
      then Inl (invalid_response ''item filename is not one File Provider path component'')
      else
        res_bind (if is_root item then Inr (System Root)
                  else MacosFileProviderIdentifier_encode b64 (item_key item)) (\<lambda>identifier.
        res_bind (case item_parent_id item of
                    Some parent_id \<Rightarrow>
                      let parent_key = \<lparr>key_scope = key_scope (item_key item), key_item_id = parent_id\<rparr> in
                      if parent_key = root_key then Inr (System Root)
                      else MacosFileProviderIdentifier_encode b64 parent_key
                  | None \<Rightarrow> Inr (System Root)) (\<lambda>parent_identifier.
        res_bind (fp_content item) (\<lambda>(kind, size', version).
        Inr \<lparr>fp_identifier = identifier, fp_parent_identifier = parent_identifier,
             fp_filename = item_name item, fp_kind = kind, fp_size = size', fp_version = version\<rparr>))))"

section \<open>Enumeration\<close>

definition MAX_ENUMERATION_PAGE_ITEMS :: usize where
  "MAX_ENUMERATION_PAGE_ITEMS = 4096"

definition MAX_ENUMERATION_ITEMS :: usize where
  "MAX_ENUMERATION_ITEMS = 100000"

definition MAX_ENUMERATION_STATE_BYTES :: usize where
  "MAX_ENUMERATION_STATE_BYTES = 16 * 1024 * 1024"

record MacosEnumerationRequest =
  er_container :: MacosFileProviderIdentifier
  er_page :: "PageCursor option"

definition backend_parent :: "MacosEnumerationRequest \<Rightarrow> CloudItemKey \<Rightarrow> CloudItemKey macos_result" where
  "backend_parent self root_key =
     (case er_container self of
        Item _ key \<Rightarrow> Inr key
      | System Root \<Rightarrow> Inr root_key
      | System WorkingSet \<Rightarrow> Inl UnsupportedSystemContainer
      | System Trash \<Rightarrow> Inl UnsupportedSystemContainer)"

record MacosEnumerationPage =
  ep_items :: "MacosFileProviderItem list"
  ep_next_page :: "PageCursor option"

record MacosEnumerationState =
  es_container :: MacosFileProviderIdentifier
  es_next_page :: "PageCursor option"
  es_seen_identifiers :: "string set"
  es_seen_filenames :: "string set"
  es_seen_cursors :: "PageCursor set"
  es_retained_bytes :: usize
  es_finished :: bool

definition MacosEnumerationState_new :: "MacosFileProviderIdentifier \<Rightarrow> MacosEnumerationState" where
  "MacosEnumerationState_new container =
     \<lparr>es_container = container, es_next_page = None, es_seen_identifiers = {}, es_seen_filenames = {},
      es_seen_cursors = {}, es_retained_bytes = 0, es_finished = False\<rparr>"

definition enumeration_request :: "MacosEnumerationState \<Rightarrow> MacosEnumerationRequest macos_result" where
  "enumeration_request self =
     (if es_finished self
      then Inl (invalid_response ''enumeration requested another page after terminal completion'')
      else Inr \<lparr>er_container = es_container self, er_page = es_next_page self\<rparr>)"

abbreviation identifier_str :: "MacosFileProviderItem \<Rightarrow> string" where
  "identifier_str item \<equiv> identifier_as_str (fp_identifier item)"

text \<open>The loop of \<open>accept_page\<close> over the items of the page; it sums the bytes to retain.\<close>

primrec accept_items ::
  "MacosEnumerationState \<Rightarrow> MacosFileProviderItem list \<Rightarrow> usize \<Rightarrow> usize macos_result" where
  "accept_items self [] added_bytes = Inr added_bytes"
| "accept_items self (item # items) added_bytes =
     (if identifier_str item \<in> es_seen_identifiers self
      then Inl (invalid_response ''enumeration repeated a persistent identifier across pages'')
      else if fp_filename item \<in> es_seen_filenames self
      then Inl (invalid_response ''enumeration repeated a filename across pages'')
      else
        res_bind (ok_or (invalid_response ''enumeration retained byte count overflowed'')
          (Option.bind (usize_checked_add added_bytes (length (identifier_str item)))
             (\<lambda>total. usize_checked_add total (length (fp_filename item))))) (\<lambda>added_bytes'.
        accept_items self items added_bytes'))"

definition accept_page ::
  "MacosEnumerationPage \<Rightarrow> (MacosEnumerationState, MacosBridgeError, MacosEnumerationPage) io" where
  "accept_page page self =
     (let overflow = invalid_response ''enumeration retained byte count overflowed'';
          checked =
       (if es_finished self
        then Inl (invalid_response ''enumeration returned a page after terminal completion'')
        else
          res_bind (ok_or (invalid_response ''enumeration item count overflowed'')
            (usize_checked_add (card (es_seen_identifiers self)) (length (ep_items page)))) (\<lambda>new_item_count.
          if new_item_count > MAX_ENUMERATION_ITEMS
          then Inl (invalid_response ''enumeration exceeded the retained item limit'')
          else
            res_bind (accept_items self (ep_items page) 0) (\<lambda>added_bytes.
            res_bind (case ep_next_page page of
                None \<Rightarrow> Inr added_bytes
              | Some cursor \<Rightarrow>
                  if cursor \<in> es_seen_cursors self
                  then Inl (invalid_response ''enumeration repeated a continuation cursor'')
                  else ok_or overflow (usize_checked_add added_bytes (length (page_cursor_bytes cursor))))
              (\<lambda>added_bytes.
            res_bind (ok_or overflow (usize_checked_add (es_retained_bytes self) added_bytes)) (\<lambda>retained_bytes.
            if retained_bytes > MAX_ENUMERATION_STATE_BYTES
            then Inl (invalid_response ''enumeration exceeded the retained byte limit'')
            else Inr retained_bytes)))))
      in
      case checked of
        Inl e \<Rightarrow> (Inl e, self)
      | Inr retained_bytes \<Rightarrow>
          (Inr page,
           self\<lparr>es_seen_identifiers := es_seen_identifiers self \<union> set (map identifier_str (ep_items page)),
                es_seen_filenames := es_seen_filenames self \<union> set (map fp_filename (ep_items page)),
                es_seen_cursors := es_seen_cursors self \<union> set_option (ep_next_page page),
                es_finished := (es_finished self \<or> ep_next_page page = None),
                es_next_page := ep_next_page page,
                es_retained_bytes := retained_bytes\<rparr>))"

text \<open>The loop of \<open>from_backend\<close>: the identifiers and filenames of the page so far, and its items.\<close>

primrec convert_items ::
  "(u8 list \<Rightarrow> string) \<Rightarrow> CloudItemKey \<Rightarrow> CloudItemKey \<Rightarrow> string set \<Rightarrow> string set \<Rightarrow> CloudItem list
   \<Rightarrow> MacosFileProviderItem list macos_result" where
  "convert_items b64 root_key parent identifiers filenames [] = Inr []"
| "convert_items b64 root_key parent identifiers filenames (item # items) =
     (if key_scope (item_key item) \<noteq> key_scope parent \<or> item_parent_id item \<noteq> Some (key_item_id parent)
      then Inl (invalid_response ''enumerated item escaped the requested parent scope'')
      else
        res_bind (from_cloud_item b64 item root_key) (\<lambda>converted.
        if identifier_str converted \<in> identifiers
        then Inl (invalid_response ''enumeration returned duplicate persistent identifiers'')
        else if fp_filename converted \<in> filenames
        then Inl (invalid_response ''enumeration returned duplicate filenames'')
        else
          res_bind (convert_items b64 root_key parent (insert (identifier_str converted) identifiers)
                     (insert (fp_filename converted) filenames) items) (\<lambda>rest.
          Inr (converted # rest))))"

definition MacosEnumerationPage_from_backend ::
  "(u8 list \<Rightarrow> string) \<Rightarrow> CloudItemKey \<Rightarrow> CloudItemKey \<Rightarrow> CloudItemPage \<Rightarrow> MacosEnumerationPage macos_result" where
  "MacosEnumerationPage_from_backend b64 root_key parent page =
     (if length (page_items page) > MAX_ENUMERATION_PAGE_ITEMS
      then Inl (invalid_response ''enumeration page exceeded the item limit'')
      else
        res_bind (convert_items b64 root_key parent {} {} (page_items page)) (\<lambda>converted.
        Inr \<lparr>ep_items = converted, ep_next_page = page_next_cursor page\<rparr>))"

section \<open>Extension sessions\<close>

text \<open>
  A session is shared by reference: the heap is the list of the sessions made so far, an
  address is an index into it, and a lease holds the address of its session. Every method takes
  the lock once, so it is one step on the heap.
\<close>

record SessionInner =
  si_generation :: SessionGeneration
  si_state :: SessionState
  si_active_requests :: usize

type_synonym session_heap = "SessionInner list"

record MacosExtensionRequestLease =
  lease_session :: nat
  lease_released :: bool

definition MacosExtensionSession_new :: "SessionGeneration \<Rightarrow> session_heap \<Rightarrow> nat \<times> session_heap" where
  "MacosExtensionSession_new generation heap =
     (length heap, heap @ [\<lparr>si_generation = generation, si_state = Accepting, si_active_requests = 0\<rparr>])"

definition begin_request ::
  "nat \<Rightarrow> SessionGeneration \<Rightarrow> (session_heap, MacosBridgeError, MacosExtensionRequestLease) io" where
  "begin_request self callback_generation heap =
     (let inner = heap ! self in
      if callback_generation \<noteq> si_generation inner
      then (Inl (StaleSessionGeneration (session_generation_get (si_generation inner))
                  (session_generation_get callback_generation)), heap)
      else if si_state inner \<noteq> Accepting then (Inl (SessionNotAccepting (si_state inner)), heap)
      else
        case usize_checked_add (si_active_requests inner) 1 of
          None \<Rightarrow> (Inl ActiveRequestCountOverflow, heap)
        | Some active \<Rightarrow>
            (Inr \<lparr>lease_session = self, lease_released = False\<rparr>,
             heap[self := inner\<lparr>si_active_requests := active\<rparr>]))"

definition begin_closing :: "nat \<Rightarrow> session_heap \<Rightarrow> bool \<times> session_heap" where
  "begin_closing self heap =
     (let inner = heap ! self in
      if si_state inner = Accepting then (True, heap[self := inner\<lparr>si_state := Closing\<rparr>])
      else (False, heap))"

definition mark_disconnected :: "nat \<Rightarrow> (session_heap, MacosBridgeError, unit) io" where
  "mark_disconnected self heap =
     (let inner = heap ! self in
      case si_state inner of
        Closing \<Rightarrow>
          (Inr (), heap[self := inner\<lparr>si_state :=
             (if si_active_requests inner = 0 then Closed else Draining)\<rparr>])
      | Draining \<Rightarrow> (Inr (), heap)
      | Closed \<Rightarrow> (Inr (), heap)
      | Accepting \<Rightarrow> (Inl (InvalidSessionTransition Accepting Draining), heap))"

definition accepts_completion :: "MacosExtensionRequestLease \<Rightarrow> nat \<Rightarrow> session_heap \<Rightarrow> bool" where
  "accepts_completion lease session heap \<longleftrightarrow>
     \<not> lease_released lease \<and> lease_session lease = session \<and>
     si_state (heap ! lease_session lease) \<noteq> Closed"

text \<open>\<open>release\<close> and \<open>drop\<close> both run \<open>release_inner\<close>.\<close>

definition release_inner ::
  "MacosExtensionRequestLease \<Rightarrow> session_heap \<Rightarrow> MacosExtensionRequestLease \<times> session_heap" where
  "release_inner lease heap =
     (if lease_released lease then (lease, heap)
      else
        let inner = heap ! lease_session lease;
            active = usize_saturating_sub (si_active_requests inner) 1;
            inner = inner\<lparr>si_active_requests := active\<rparr>;
            inner = (if si_state inner = Draining \<and> active = 0 then inner\<lparr>si_state := Closed\<rparr> else inner)
        in (lease\<lparr>lease_released := True\<rparr>, heap[lease_session lease := inner]))"

section \<open>The engine\<close>

record MacosContentFetchPlan =
  plan_key :: CloudItemKey
  plan_revision :: ContentRevision
  plan_size :: u64

record MacosFetchedContentChunk =
  fetched_offset :: u64
  fetched_bytes :: "u8 list"

record 'w MacosReadOnlyEngine =
  engine_backend :: "'w CloudFilesBackend"
  engine_root_key :: CloudItemKey

type_synonym ('w, 'a) macos_io = "('w, MacosBridgeError, 'a) io"

definition macos_guard :: "bool \<Rightarrow> MacosBridgeError \<Rightarrow> ('w, unit) macos_io" where
  "macos_guard ok e = (if ok then io_return () else io_fail e)"

definition engine_item ::
  "(u8 list \<Rightarrow> string) \<Rightarrow> 'w MacosReadOnlyEngine \<Rightarrow> MacosFileProviderIdentifier
   \<Rightarrow> ('w, MacosFileProviderItem) macos_io" where
  "engine_item b64 self identifier =
     io_bind (io_lift (case system_container identifier of
          Some Root \<Rightarrow> Inr (engine_root_key self)
        | Some WorkingSet \<Rightarrow> Inl UnsupportedSystemContainer
        | Some Trash \<Rightarrow> Inl UnsupportedSystemContainer
        | None \<Rightarrow> identifier_item_key identifier)) (\<lambda>key.
     io_bind (io_try Backend (fb_get_item (engine_backend self) key)) (\<lambda>item.
     io_bind (macos_guard (item_key item = key)
       (invalid_response ''get_item returned a different scoped stable identity'')) (\<lambda>_.
     io_bind (macos_guard (is_root item = (key = engine_root_key self))
       (invalid_response ''get_item root shape did not match the File Provider root role'')) (\<lambda>_.
     io_lift (from_cloud_item b64 item (engine_root_key self))))))"

definition engine_enumerate ::
  "(u8 list \<Rightarrow> string) \<Rightarrow> 'w MacosReadOnlyEngine \<Rightarrow> MacosEnumerationRequest
   \<Rightarrow> ('w, MacosEnumerationPage) macos_io" where
  "engine_enumerate b64 self request =
     io_bind (io_lift (backend_parent request (engine_root_key self))) (\<lambda>parent.
     io_bind (io_try Backend (fb_get_item (engine_backend self) parent)) (\<lambda>parent_item.
     io_bind (macos_guard (item_key parent_item = parent)
       (invalid_response ''enumeration parent lookup returned a different stable identity'')) (\<lambda>_.
     io_bind (macos_guard (item_kind parent_item = CloudItemKind.Directory)
       (invalid_response ''enumeration parent is not a directory'')) (\<lambda>_.
     io_bind (macos_guard (is_root parent_item = (parent = engine_root_key self))
       (invalid_response ''enumeration parent root shape did not match the requested container'')) (\<lambda>_.
     io_bind (io_try Backend (fb_list_children (engine_backend self) parent (er_page request))) (\<lambda>page.
     io_lift (MacosEnumerationPage_from_backend b64 (engine_root_key self) parent page)))))))"

definition validate_content_scope :: "'w MacosReadOnlyEngine \<Rightarrow> CloudItemKey \<Rightarrow> unit macos_result" where
  "validate_content_scope self key =
     (if key_scope key \<noteq> key_scope (engine_root_key self)
      then Inl (Backend (CloudBackendError_new CloudBackendErrorKind.PermissionDenied))
      else Inr ())"

definition prepare_content_fetch ::
  "'w MacosReadOnlyEngine \<Rightarrow> MacosFileProviderIdentifier \<Rightarrow> ContentRevision
   \<Rightarrow> ('w, MacosContentFetchPlan) macos_io" where
  "prepare_content_fetch self identifier requested_revision =
     io_bind (io_lift (identifier_item_key identifier)) (\<lambda>key.
     io_bind (io_lift (validate_content_scope self key)) (\<lambda>_.
     io_bind (io_try Backend (fb_get_item (engine_backend self) key)) (\<lambda>item.
     io_bind (macos_guard (item_key item = key)
       (invalid_response ''content metadata lookup returned a different stable identity'')) (\<lambda>_.
     io_bind (macos_guard (\<not> is_root item \<and> item_kind item = CloudItemKind.File)
       (invalid_response ''content fetch target is not a regular file'')) (\<lambda>_.
     io_bind (io_lift (ok_or (invalid_response ''regular file omitted content metadata'') (item_content item))) (\<lambda>content.
     io_bind (macos_guard (cm_revision content = requested_revision)
       (Backend (CloudBackendError_new CloudBackendErrorKind.PreconditionFailed))) (\<lambda>_.
     io_return \<lparr>plan_key = key, plan_revision = requested_revision, plan_size = cm_size content\<rparr>)))))))"

definition read_content_chunk ::
  "'w MacosReadOnlyEngine \<Rightarrow> MacosContentFetchPlan \<Rightarrow> u64 \<Rightarrow> u64 \<Rightarrow> ('w, MacosFetchedContentChunk) macos_io" where
  "read_content_chunk self plan off maximum_length =
     io_bind (io_lift (validate_content_scope self (plan_key plan))) (\<lambda>_.
     io_bind (macos_guard (\<not> off \<ge> plan_size plan)
       (invalid_response ''content chunk offset is outside the planned file'')) (\<lambda>_.
     let len = min maximum_length (plan_size plan - off) in
     io_bind (io_lift (res_map_err
         (\<lambda>_. invalid_response ''content chunk range exceeded the planned file'') (ByteRange_new off len))) (\<lambda>r.
     let request = ContentReadRequest_range (plan_key plan) (plan_revision plan) (plan_size plan) r in
     io_bind (io_try Backend (fb_read_content (engine_backend self) request)) (\<lambda>response.
     io_bind (io_lift (res_map_err
         (\<lambda>_. invalid_response ''content response violated the requested revision or chunk extent'')
         (validate_response request response))) (\<lambda>_.
     io_return \<lparr>fetched_offset = resp_offset response, fetched_bytes = resp_bytes response\<rparr>)))))"

end
