(* ===== verification/Macos_System.thy ===== *)
theory Macos_System
  imports Macos_Bridge
begin

text \<open>
  What the File Provider bridge guarantees to the system: an enumerator delivers every child at
  most once and ends, whatever the backend answers; a session closes only after its accepted
  requests are released; a content chunk is exactly the extent that was asked for.
\<close>

section \<open>Converted items\<close>

text \<open>The identifier under which an item of the given key appears in the domain of \<open>root_key\<close>.\<close>

definition identifies :: "(u8 list \<Rightarrow> string) \<Rightarrow> CloudItemKey \<Rightarrow> MacosFileProviderIdentifier \<Rightarrow> CloudItemKey \<Rightarrow> bool" where
  "identifies b64 root_key identifier key \<longleftrightarrow>
     (if key = root_key then identifier = System Root
      else MacosFileProviderIdentifier_encode b64 key = Inr identifier)"

lemma from_cloud_item_Inr:
  assumes "from_cloud_item b64 item root_key = Inr converted"
  shows "identifies b64 root_key (fp_identifier converted) (item_key item)"
    and "fp_filename converted = item_name item"
    and "item_parent_id item = Some parent_id \<Longrightarrow>
      identifies b64 root_key (fp_parent_identifier converted)
        \<lparr>key_scope = key_scope (item_key item), key_item_id = parent_id\<rparr>"
  using assms
  by (auto simp: from_cloud_item_def identifies_def Let_def split: if_splits option.splits)

text \<open>
  What \<open>convert_items\<close> returns: the children in the backend's order, no identifier and no name
  twice, and none of those seen before.
\<close>

definition lists_children ::
  "(u8 list \<Rightarrow> string) \<Rightarrow> CloudItemKey \<Rightarrow> CloudItemKey \<Rightarrow> CloudItem list \<Rightarrow> MacosFileProviderItem list \<Rightarrow> bool" where
  "lists_children b64 root_key parent items converted \<longleftrightarrow>
     list_all2 (\<lambda>item c. item_parent_id item = Some (key_item_id parent) \<and>
       key_scope (item_key item) = key_scope parent \<and> fp_filename c = item_name item \<and>
       identifies b64 root_key (fp_identifier c) (item_key item) \<and>
       identifies b64 root_key (fp_parent_identifier c) parent) items converted"

lemma convert_items_ConsE:
  assumes "convert_items b64 root_key parent identifiers filenames (item # items) = Inr converted"
  obtains c rest where "converted = c # rest" and "key_scope (item_key item) = key_scope parent"
    and "item_parent_id item = Some (key_item_id parent)" and "from_cloud_item b64 item root_key = Inr c"
    and "identifier_str c \<notin> identifiers" and "fp_filename c \<notin> filenames"
    and "convert_items b64 root_key parent (insert (identifier_str c) identifiers)
      (insert (fp_filename c) filenames) items = Inr rest"
  using assms by (auto split: if_splits)

lemma convert_items_Inr:
  assumes "convert_items b64 root_key parent identifiers filenames items = Inr converted"
  shows "lists_children b64 root_key parent items converted \<and>
    distinct (map identifier_str converted) \<and> distinct (map fp_filename converted) \<and>
    set (map identifier_str converted) \<inter> identifiers = {} \<and>
    set (map fp_filename converted) \<inter> filenames = {}"
  using assms
proof (induction items arbitrary: identifiers filenames converted)
  case (Cons item items)
  then obtain c rest where c: "converted = c # rest" "key_scope (item_key item) = key_scope parent"
    "item_parent_id item = Some (key_item_id parent)" "from_cloud_item b64 item root_key = Inr c"
    "identifier_str c \<notin> identifiers" "fp_filename c \<notin> filenames"
    and rest: "convert_items b64 root_key parent (insert (identifier_str c) identifiers)
      (insert (fp_filename c) filenames) items = Inr rest"
    by (elim convert_items_ConsE)
  have "identifies b64 root_key (fp_parent_identifier c) parent"
  proof -
    have "\<lparr>key_scope = key_scope parent, key_item_id = key_item_id parent\<rparr> = parent" by simp
    then show ?thesis using from_cloud_item_Inr(3) [OF c(4,3)] c(2) by metis
  qed
  then show ?case
    using Cons.IH [OF rest] c from_cloud_item_Inr(1,2) [OF c(4)] by (auto simp: lists_children_def)
qed (simp add: lists_children_def)

section \<open>Enumerators\<close>

lemma accept_items_Inr:
  assumes "accept_items self items added = Inr bytes"
  shows "set (map identifier_str items) \<inter> es_seen_identifiers self = {}"
    and "set (map fp_filename items) \<inter> es_seen_filenames self = {}"
    and "added \<le> bytes"
  using assms
  by (induction items arbitrary: added) (auto split: if_splits simp: bind_eq_Some_conv, force+)

lemma accept_page_Inr:
  assumes "accept_page page self = (Inr page', self')"
  shows "page' = page" and "\<not> es_finished self"
    and "set (map identifier_str (ep_items page)) \<inter> es_seen_identifiers self = {}"
    and "set (map fp_filename (ep_items page)) \<inter> es_seen_filenames self = {}"
    and "card (es_seen_identifiers self) + length (ep_items page) \<le> MAX_ENUMERATION_ITEMS"
    and "es_seen_identifiers self' = es_seen_identifiers self \<union> set (map identifier_str (ep_items page))"
    and "es_seen_filenames self' = es_seen_filenames self \<union> set (map fp_filename (ep_items page))"
    and "es_finished self' \<longleftrightarrow> ep_next_page page = None"
    and "es_retained_bytes self' \<le> MAX_ENUMERATION_STATE_BYTES"
    and "es_retained_bytes self +
      (case ep_next_page page of None \<Rightarrow> 0 | Some cursor \<Rightarrow> length (page_cursor_bytes cursor)) \<le> es_retained_bytes self'"
    and "es_container self' = es_container self"
  using assms accept_items_Inr [of self "ep_items page" 0]
  by (auto simp: accept_page_def Let_def split: if_splits sum.splits option.splits)

lemma accept_page_Inl: "accept_page page self = (Inl e, self') \<Longrightarrow> self' = self"
  by (auto simp: accept_page_def Let_def split: sum.splits)

text \<open>
  The states an enumerator of \<open>container\<close> can be in, with the items delivered so far and the
  number of accepted pages. The backend answers with any page whose cursor, as every
  \<open>PageCursor\<close>, is not empty; a page that is refused changes nothing.
\<close>

inductive enumerated ::
  "(u8 list \<Rightarrow> string) \<Rightarrow> CloudItemKey \<Rightarrow> CloudItemKey \<Rightarrow> MacosFileProviderIdentifier
   \<Rightarrow> MacosEnumerationState \<Rightarrow> MacosFileProviderItem list \<Rightarrow> nat \<Rightarrow> bool"
  for b64 root_key parent container where
  enumerated_start: "enumerated b64 root_key parent container (MacosEnumerationState_new container) [] 0"
| enumerated_page:
    "enumerated b64 root_key parent container s items n \<Longrightarrow>
     MacosEnumerationPage_from_backend b64 root_key parent page = Inr converted \<Longrightarrow>
     (\<forall>cursor. page_next_cursor page = Some cursor \<longrightarrow> page_cursor_bytes cursor \<noteq> []) \<Longrightarrow>
     accept_page converted s = (Inr delivered, s') \<Longrightarrow>
     enumerated b64 root_key parent container s' (items @ ep_items delivered) (Suc n)"

definition enumerator_inv ::
  "(u8 list \<Rightarrow> string) \<Rightarrow> CloudItemKey \<Rightarrow> CloudItemKey \<Rightarrow> MacosEnumerationState \<Rightarrow> MacosFileProviderItem list
   \<Rightarrow> nat \<Rightarrow> bool" where
  "enumerator_inv b64 root_key parent s items n \<longleftrightarrow>
     es_seen_identifiers s = set (map identifier_str items) \<and> distinct (map identifier_str items) \<and>
     es_seen_filenames s = set (map fp_filename items) \<and> distinct (map fp_filename items) \<and>
     length items \<le> MAX_ENUMERATION_ITEMS \<and> es_retained_bytes s \<le> MAX_ENUMERATION_STATE_BYTES \<and>
     n \<le> es_retained_bytes s + (if es_finished s then 1 else 0) \<and>
     (\<forall>c \<in> set items. identifies b64 root_key (fp_parent_identifier c) parent \<and>
        (\<exists>key. key_scope key = key_scope parent \<and> identifies b64 root_key (fp_identifier c) key))"

lemma from_backend_Inr:
  assumes "MacosEnumerationPage_from_backend b64 root_key parent page = Inr converted"
  shows "lists_children b64 root_key parent (page_items page) (ep_items converted)"
    and "distinct (map identifier_str (ep_items converted))" and "distinct (map fp_filename (ep_items converted))"
    and "ep_next_page converted = page_next_cursor page"
  using assms convert_items_Inr [of b64 root_key parent "{}" "{}" "page_items page"]
  by (auto simp: MacosEnumerationPage_from_backend_def split: if_splits)

lemma lists_children_identified:
  assumes "lists_children b64 root_key parent items converted" and "c \<in> set converted"
  shows "identifies b64 root_key (fp_parent_identifier c) parent"
    and "\<exists>key. key_scope key = key_scope parent \<and> identifies b64 root_key (fp_identifier c) key"
  using assms unfolding lists_children_def by (auto simp: in_set_conv_nth list_all2_conv_all_nth)

lemma enumerated_inv: "enumerated b64 root_key parent container s items n \<Longrightarrow> enumerator_inv b64 root_key parent s items n"
proof (induction rule: enumerated.induct)
  case enumerated_start
  then show ?case by (simp add: enumerator_inv_def MacosEnumerationState_new_def)
next
  case (enumerated_page s items n page converted delivered s')
  note page = from_backend_Inr [OF enumerated_page.hyps(2)] and acc = accept_page_Inr [OF enumerated_page.hyps(4)]
    and inv = enumerated_page.IH [unfolded enumerator_inv_def]
  have bytes: "0 < length (page_cursor_bytes cursor)" if "ep_next_page converted = Some cursor" for cursor
    using enumerated_page.hyps(3) that page(4) by simp
  have "Suc n \<le> es_retained_bytes s' + (if es_finished s' then 1 else 0)"
  proof (cases "ep_next_page converted")
    case None
    then show ?thesis using acc(2,8,10) inv by simp
  next
    case (Some cursor)
    have "n \<le> es_retained_bytes s" "es_retained_bytes s + length (page_cursor_bytes cursor) \<le> es_retained_bytes s'"
      using acc(2,10) inv Some by simp_all
    with bytes [OF Some] show ?thesis by linarith
  qed
  moreover have "length (items @ ep_items converted) \<le> MAX_ENUMERATION_ITEMS"
    using acc(5) inv distinct_card [of "map identifier_str items"] by simp
  ultimately show ?case
    unfolding enumerator_inv_def acc(1)
    using acc(3,4,6,7,9) inv page(2,3) lists_children_identified [OF page(1)] by auto
qed

section \<open>Sessions\<close>

record session_system =
  sys_heap :: session_heap
  sys_leases :: "MacosExtensionRequestLease list"

datatype session_op =
    NewSession SessionGeneration
  | BeginRequest nat SessionGeneration
  | BeginClosing nat
  | MarkDisconnected nat
  | ReleaseLease nat

text \<open>A call on a session or a lease that exists; a released lease is gone and is dropped no more.\<close>

definition session_op_ok :: "session_system \<Rightarrow> session_op \<Rightarrow> bool" where
  "session_op_ok sys uop \<longleftrightarrow>
     (case uop of
        NewSession g \<Rightarrow> True
      | BeginRequest a g \<Rightarrow> a < length (sys_heap sys)
      | BeginClosing a \<Rightarrow> a < length (sys_heap sys)
      | MarkDisconnected a \<Rightarrow> a < length (sys_heap sys)
      | ReleaseLease i \<Rightarrow> i < length (sys_leases sys))"

primrec session_apply :: "session_op \<Rightarrow> session_system \<Rightarrow> session_system" where
  "session_apply (NewSession g) sys = sys\<lparr>sys_heap := snd (MacosExtensionSession_new g (sys_heap sys))\<rparr>"
| "session_apply (BeginRequest a g) sys =
     (case begin_request a g (sys_heap sys) of
        (Inl e, heap) \<Rightarrow> sys\<lparr>sys_heap := heap\<rparr>
      | (Inr lease, heap) \<Rightarrow> sys\<lparr>sys_heap := heap, sys_leases := sys_leases sys @ [lease]\<rparr>)"
| "session_apply (BeginClosing a) sys = sys\<lparr>sys_heap := snd (begin_closing a (sys_heap sys))\<rparr>"
| "session_apply (MarkDisconnected a) sys = sys\<lparr>sys_heap := snd (mark_disconnected a (sys_heap sys))\<rparr>"
| "session_apply (ReleaseLease i) sys =
     (case release_inner (sys_leases sys ! i) (sys_heap sys) of
        (lease, heap) \<Rightarrow> sys\<lparr>sys_heap := heap, sys_leases := (sys_leases sys)[i := lease]\<rparr>)"

inductive session_reachable :: "session_system \<Rightarrow> bool" where
  session_init: "session_reachable \<lparr>sys_heap = [], sys_leases = []\<rparr>"
| session_step: "session_reachable sys \<Longrightarrow> session_op_ok sys uop \<Longrightarrow> session_reachable (session_apply uop sys)"

definition outstanding :: "nat \<Rightarrow> MacosExtensionRequestLease list \<Rightarrow> nat" where
  "outstanding a leases = length (filter (\<lambda>l. \<not> lease_released l \<and> lease_session l = a) leases)"

definition inner_inv :: "SessionInner \<Rightarrow> nat \<Rightarrow> bool" where
  "inner_inv inner n \<longleftrightarrow> si_active_requests inner = n \<and>
     (si_state inner = Closed \<longrightarrow> n = 0) \<and> (si_state inner = Draining \<longrightarrow> n \<noteq> 0)"

definition session_inv :: "session_system \<Rightarrow> bool" where
  "session_inv sys \<longleftrightarrow>
     (\<forall>a < length (sys_heap sys). inner_inv (sys_heap sys ! a) (outstanding a (sys_leases sys))) \<and>
     (\<forall>l \<in> set (sys_leases sys). lease_session l < length (sys_heap sys))"

lemma outstanding_update:
  assumes "i < length leases" and "\<not> lease_released (leases ! i)"
  shows "outstanding a (leases[i := (leases ! i)\<lparr>lease_released := True\<rparr>]) =
    (if lease_session (leases ! i) = a then outstanding a leases - 1 else outstanding a leases)"
    and "lease_session (leases ! i) = a \<Longrightarrow> 0 < outstanding a leases"
proof -
  have "leases = take i leases @ leases ! i # drop (Suc i) leases" using assms(1) by (rule id_take_nth_drop)
  moreover have "leases[i := x] = take i leases @ x # drop (Suc i) leases" for x
    using assms(1) by (rule upd_conv_take_nth_drop)
  ultimately have split: "outstanding a leases = outstanding a (take i leases) + outstanding a [leases ! i] + outstanding a (drop (Suc i) leases)"
    "outstanding a (leases[i := x]) = outstanding a (take i leases) + outstanding a [x] + outstanding a (drop (Suc i) leases)" for x
    unfolding outstanding_def by (metis add.assoc append.assoc append_Cons append_Nil filter_append length_append)+
  then show "outstanding a (leases[i := (leases ! i)\<lparr>lease_released := True\<rparr>]) =
      (if lease_session (leases ! i) = a then outstanding a leases - 1 else outstanding a leases)"
    and "lease_session (leases ! i) = a \<Longrightarrow> 0 < outstanding a leases"
    using assms(2) by (simp_all add: outstanding_def)
qed

lemma session_invD:
  assumes "session_inv sys"
  shows "a < length (sys_heap sys) \<Longrightarrow> inner_inv (sys_heap sys ! a) (outstanding a (sys_leases sys))"
    and "l \<in> set (sys_leases sys) \<Longrightarrow> lease_session l < length (sys_heap sys)"
  using assms by (simp_all add: session_inv_def)

lemma session_inv_update:
  assumes "session_inv sys" and "a < length (sys_heap sys)"
    and "\<And>l. l \<in> set leases \<Longrightarrow> lease_session l < length (sys_heap sys)"
    and "\<And>b. b \<noteq> a \<Longrightarrow> outstanding b leases = outstanding b (sys_leases sys)"
    and "inner_inv inner (outstanding a leases)"
  shows "session_inv (sys\<lparr>sys_heap := (sys_heap sys)[a := inner], sys_leases := leases\<rparr>)"
  using assms by (auto simp: session_inv_def nth_list_update)

lemma session_inv_inner:
  assumes "session_inv sys" and "a < length (sys_heap sys)" and "inner_inv inner (outstanding a (sys_leases sys))"
  shows "session_inv (sys\<lparr>sys_heap := (sys_heap sys)[a := inner]\<rparr>)"
  using session_inv_update [OF assms(1,2) session_invD(2) [OF assms(1)] _ assms(3)] by simp

lemma begin_request_inv:
  assumes inv: "session_inv sys" and a: "a < length (sys_heap sys)"
  shows "session_inv (session_apply (BeginRequest a g) sys)"
proof -
  note inner = session_invD(1) [OF inv a]
  have more: "outstanding b (sys_leases sys @ [\<lparr>lease_session = a, lease_released = False\<rparr>]) =
      (if b = a then Suc (outstanding b (sys_leases sys)) else outstanding b (sys_leases sys))" for b
    by (simp add: outstanding_def)
  show ?thesis
    using inv inner session_invD(2) [OF inv] a
    by (auto simp: begin_request_def Let_def usize_checked_add_def more inner_inv_def intro!: session_inv_update)
qed

lemma release_inv:
  assumes inv: "session_inv sys" and i: "i < length (sys_leases sys)"
  shows "session_inv (session_apply (ReleaseLease i) sys)"
proof (cases "lease_released (sys_leases sys ! i)")
  case True
  then show ?thesis using inv by (simp add: release_inner_def)
next
  case False
  let ?l = "sys_leases sys ! i"
  have a: "lease_session ?l < length (sys_heap sys)" using session_invD(2) [OF inv] i by simp
  note inner = session_invD(1) [OF inv a] and less = outstanding_update [OF i False]
  have "lease_session l < length (sys_heap sys)" if "l \<in> set ((sys_leases sys)[i := ?l\<lparr>lease_released := True\<rparr>])" for l
    using set_update_subset_insert that a session_invD(2) [OF inv] by fastforce
  then show ?thesis
    using inv inner less(2) a False
    by (auto simp: release_inner_def Let_def usize_saturating_sub_def less(1) inner_inv_def intro!: session_inv_update)
qed

lemma session_inv_step:
  assumes inv: "session_inv sys" and ok: "session_op_ok sys uop"
  shows "session_inv (session_apply uop sys)"
proof (cases uop)
  case (NewSession g)
  have "outstanding (length (sys_heap sys)) (sys_leases sys) = 0"
  proof -
    have "lease_session l \<noteq> length (sys_heap sys)" if "l \<in> set (sys_leases sys)" for l
      using session_invD(2) [OF inv that] by simp
    then show ?thesis by (auto simp: outstanding_def filter_empty_conv)
  qed
  then show ?thesis
    using inv by (auto simp: NewSession session_inv_def MacosExtensionSession_new_def nth_append inner_inv_def less_Suc_eq)
next
  case (BeginClosing a)
  then show ?thesis
    using inv ok session_invD(1) [OF inv, of a]
    by (auto simp: session_op_ok_def begin_closing_def Let_def inner_inv_def intro!: session_inv_inner)
next
  case (MarkDisconnected a)
  then show ?thesis
    using inv ok session_invD(1) [OF inv, of a]
    by (auto simp: session_op_ok_def mark_disconnected_def Let_def inner_inv_def intro!: session_inv_inner
        split: SessionState.splits)
qed (use begin_request_inv [OF inv] release_inv [OF inv] ok in \<open>simp_all add: session_op_ok_def\<close>)

lemma reachable_session_inv: "session_reachable sys \<Longrightarrow> session_inv sys"
proof (induction rule: session_reachable.induct)
  case session_init
  then show ?case by (simp add: session_inv_def)
qed (rule session_inv_step)

section \<open>Content chunks\<close>

text \<open>
  A chunk that is returned is the extent that was asked for, cut at the end of the file: never
  short, never long, and never empty. The backend is arbitrary, except that its responses are
  \<open>ContentReadResponse\<close> values.
\<close>

lemma read_content_chunk_exact:
  assumes "read_content_chunk engine plan off maximum_length w = (Inr chunk, w')"
    and "\<And>request w r w'. fb_read_content (engine_backend engine) request w = (Inr r, w') \<Longrightarrow>
      response_wf r \<and> allocatable (resp_bytes r)"
  shows "off < plan_size plan" and "fetched_offset chunk = off"
    and "length (fetched_bytes chunk) = min (unat maximum_length) (unat (plan_size plan) - unat off)"
    and "fetched_bytes chunk \<noteq> []"
proof -
  obtain r response w1 where off: "off < plan_size plan"
    and r: "ByteRange_new off (min maximum_length (plan_size plan - off)) = Inr r"
    and resp: "fb_read_content (engine_backend engine)
        (ContentReadRequest_range (plan_key plan) (plan_revision plan) (plan_size plan) r) w = (Inr response, w1)"
    and ok: "validate_response (ContentReadRequest_range (plan_key plan) (plan_revision plan) (plan_size plan) r)
        response = Inr ()"
    and chunk: "chunk = \<lparr>fetched_offset = resp_offset response, fetched_bytes = resp_bytes response\<rparr>"
    using assms(1)
    by (auto simp: read_content_chunk_def Let_def io_bind_eq_Inr macos_guard_def not_le split: if_splits)
  have wf: "range_wf r" and r_eq: "r = \<lparr>range_offset = off, range_length = min maximum_length (plan_size plan - off)\<rparr>"
    using r unfolding ByteRange_new_eq_Inr by (rule conjunct2, rule conjunct1)
  have len: "unat (range_length r) = min (unat maximum_length) (unat (plan_size plan) - unat off)"
    using off by (simp add: r_eq unat_ops)
  have "unat off < unat (plan_size plan)" using off by (simp add: word_less_nat_alt)
  then have ext: "read_extent (ContentReadRequest_range (plan_key plan) (plan_revision plan) (plan_size plan) r) =
      (unat off, unat off + unat (range_length r))"
    using len by (auto simp: ContentReadRequest_range_def range_lo_def range_hi_def r_eq)
  note x = validate_response_extent [OF ok conjunct1 [OF assms(2) [OF resp]] conjunct2 [OF assms(2) [OF resp]] ext]
  show "off < plan_size plan" by (rule off)
  show "fetched_offset chunk = off" using x(3) by (simp add: chunk unat_eqI)
  show n: "length (fetched_bytes chunk) = min (unat maximum_length) (unat (plan_size plan) - unat off)"
    using x(4) len by (simp add: chunk)
  have "0 < unat (range_length r)" using wf by (simp add: range_wf_def unat_gt_0)
  then show "fetched_bytes chunk \<noteq> []" using x(4) by (auto simp: chunk)
qed

section \<open>Properties\<close>

text \<open>
  C38: File Provider identifiers are a faithful, canonical name of an item: for every base64url
  codec that satisfies RFC 4648, the strings that parse as an item of a key are exactly the string
  that encoding the key produces, and a key can be encoded exactly when each of its fields has at
  most 1024 bytes (the limit on the whole identifier never applies).
\<close>

theorem macos_identifier_roundtrip:
  assumes "base64url b64 unb64"
  shows "(key_wf key \<and> MacosFileProviderIdentifier_encode b64 key = Inr i \<and> identifier_as_str i = s \<longleftrightarrow>
      MacosFileProviderIdentifier_parse b64 unb64 s = Inr i \<and> identifier_item_key i = Inr key) \<and>
    ((\<exists>i. MacosFileProviderIdentifier_encode b64 key = Inr i) \<longleftrightarrow>
      (\<forall>field \<in> set (key_fields key). length field \<le> MAX_IDENTITY_FIELD_BYTES))"
  using base64url.identifier_exact [OF assms] base64url.encode_eq [OF assms] by simp

definition outpost_key :: CloudItemKey where
  "outpost_key = key_of_fields ''ns'' ''root'' ''item''"

lemma outpost_key_facts:
  "key_wf outpost_key" "\<forall>field \<in> set (key_fields outpost_key). length field \<le> MAX_IDENTITY_FIELD_BYTES"
  by (simp_all add: outpost_key_def MAX_IDENTITY_FIELD_BYTES_def as_bytes_def)

lemma outpost_encoded:
  "MacosFileProviderIdentifier_encode url_encode outpost_key = Inr (Item ''afcf1.bnM.cm9vdA.aXRlbQ'' outpost_key)"
  by code_simp

theorem macos_identifier_roundtrip_witness:
  "MacosFileProviderIdentifier_parse url_encode url_decode ''afcf1.bnM.cm9vdA.aXRlbQ'' =
     Inr (Item ''afcf1.bnM.cm9vdA.aXRlbQ'' outpost_key)"
  using macos_identifier_roundtrip [OF rfc4648.base64url_axioms, of outpost_key
      "Item ''afcf1.bnM.cm9vdA.aXRlbQ'' outpost_key" "''afcf1.bnM.cm9vdA.aXRlbQ''"] outpost_key_facts outpost_encoded
  by simp

text \<open>
  C39: Whatever pages a backend answers with, an enumerator delivers no identifier and no filename
  twice, only children of the enumerated container, and at most 100000 items; it accepts at most
  16777217 pages, because every page but the last must bring a new, non-empty continuation cursor
  within the retained-byte limit; and after the last page it refuses every further one without
  changing its state.
\<close>

theorem enumeration_delivers_once:
  assumes "enumerated b64 root_key parent container s items n"
  shows "distinct (map identifier_str items) \<and> distinct (map fp_filename items) \<and>
    length items \<le> 100000 \<and> n \<le> 16777217 \<and>
    (\<forall>c \<in> set items. identifies b64 root_key (fp_parent_identifier c) parent) \<and>
    (es_finished s \<longrightarrow> (\<forall>page. \<exists>e. accept_page page s = (Inl e, s)))"
proof -
  have inv: "enumerator_inv b64 root_key parent s items n" by (rule enumerated_inv [OF assms])
  have "\<exists>e. accept_page page s = (Inl e, s)" if "es_finished s" for page
    using that by (simp add: accept_page_def)
  moreover have "n \<le> es_retained_bytes s + 1" "es_retained_bytes s \<le> MAX_ENUMERATION_STATE_BYTES"
    using inv by (auto simp: enumerator_inv_def split: if_splits)
  then have "n \<le> 16777217" by (simp add: MAX_ENUMERATION_STATE_BYTES_def)
  ultimately show ?thesis using inv by (simp add: enumerator_inv_def MAX_ENUMERATION_ITEMS_def)
qed

definition outpost_root :: CloudItemKey where
  "outpost_root = key_of_fields ''ns'' ''root'' ''top''"

definition outpost_page :: CloudItemPage where
  "outpost_page =
     \<lparr>page_items = [\<lparr>item_key = outpost_key, item_parent_id = Some (CloudItemId ''top''), item_name = ''a'',
         item_kind = CloudItemKind.Directory, item_metadata_revision = MetadataRevision [1], item_content = None\<rparr>],
      page_next_cursor = None\<rparr>"

definition outpost_item :: MacosFileProviderItem where
  "outpost_item =
     \<lparr>fp_identifier = Item ''afcf1.bnM.cm9vdA.aXRlbQ'' outpost_key, fp_parent_identifier = System Root,
      fp_filename = ''a'', fp_kind = MacosFileProviderItemKind.Directory, fp_size = 0,
      fp_version = \<lparr>version_metadata = MetadataRevision [1],
        version_content = ContentRevision DIRECTORY_CONTENT_VERSION\<rparr>\<rparr>"

lemma outpost_root_facts:
  "key_scope outpost_key = key_scope outpost_root" "outpost_key \<noteq> outpost_root"
  "\<lparr>key_scope = key_scope outpost_root, key_item_id = CloudItemId ''top''\<rparr> = outpost_root"
  "key_item_id outpost_root = CloudItemId ''top''"
  by (simp_all add: outpost_root_def outpost_key_def key_of_fields_def)

lemma outpost_converted:
  "MacosEnumerationPage_from_backend url_encode outpost_root outpost_root outpost_page =
     Inr \<lparr>ep_items = [outpost_item], ep_next_page = None\<rparr>"
  by (simp add: MacosEnumerationPage_from_backend_def outpost_page_def MAX_ENUMERATION_PAGE_ITEMS_def
      from_cloud_item_def outpost_root_facts is_root_def outpost_encoded fp_content_def outpost_item_def
      MacosFileProviderItemVersion_directory_def MacosFileProviderItemVersion_new_def validate_component_def
      FILE_PROVIDER_ITEM_VERSION_COMPONENT_MAX_BYTES_def DIRECTORY_CONTENT_VERSION_def ContentRevision_new_def
      opaque_new_def)

lemma outpost_enumerated:
  "\<exists>s. enumerated url_encode outpost_root outpost_root (System Root) s [outpost_item] 1 \<and> es_finished s"
proof -
  let ?page = "\<lparr>ep_items = [outpost_item], ep_next_page = None\<rparr>"
  have "fst (accept_page ?page (MacosEnumerationState_new (System Root))) = Inr ?page"
    by (simp add: accept_page_def MacosEnumerationState_new_def outpost_item_def usize_checked_add_def
        usize_MAX_def MAX_ENUMERATION_ITEMS_def MAX_ENUMERATION_STATE_BYTES_def)
  then obtain s where s: "accept_page ?page (MacosEnumerationState_new (System Root)) = (Inr ?page, s)"
    by (metis prod.collapse)
  have "enumerated url_encode outpost_root outpost_root (System Root) s ([] @ ep_items ?page) (Suc 0)"
    by (rule enumerated_page [OF enumerated_start outpost_converted _ s]) (simp add: outpost_page_def)
  then show ?thesis using accept_page_Inr(8) [OF s] by auto
qed

theorem enumeration_delivers_once_witness:
  "\<exists>s. distinct (map identifier_str [outpost_item]) \<and> (\<forall>page. \<exists>e. accept_page page s = (Inl e, s))"
proof -
  obtain s where s: "enumerated url_encode outpost_root outpost_root (System Root) s [outpost_item] 1" "es_finished s"
    using outpost_enumerated by blast
  then show ?thesis using enumeration_delivers_once [OF s(1)] by blast
qed

text \<open>
  C40: A session counts exactly the requests it accepted and that were not released. It is closed
  only when none is outstanding, it drains only while one is, and it accepts the completion of
  every outstanding request of its own and of no other session; once it stopped accepting, no
  request gets in.
\<close>

theorem session_drains_requests:
  assumes "session_reachable sys" and "a < length (sys_heap sys)"
  shows "si_active_requests (sys_heap sys ! a) = outstanding a (sys_leases sys) \<and>
    (si_state (sys_heap sys ! a) = Closed \<longrightarrow> outstanding a (sys_leases sys) = 0) \<and>
    (si_state (sys_heap sys ! a) = Draining \<longrightarrow> outstanding a (sys_leases sys) \<noteq> 0) \<and>
    (\<forall>l \<in> set (sys_leases sys). \<not> lease_released l \<longrightarrow>
      (accepts_completion l a (sys_heap sys) \<longleftrightarrow> lease_session l = a)) \<and>
    (si_state (sys_heap sys ! a) \<noteq> Accepting \<longrightarrow>
      (\<forall>g. \<exists>e. begin_request a g (sys_heap sys) = (Inl e, sys_heap sys)))"
proof -
  have inv: "inner_inv (sys_heap sys ! a) (outstanding a (sys_leases sys))"
    using session_invD(1) [OF reachable_session_inv [OF assms(1)] assms(2)] .
  have "si_state (sys_heap sys ! a) \<noteq> Closed" if "l \<in> set (sys_leases sys)" "\<not> lease_released l" "lease_session l = a" for l
    using inv that by (auto simp: inner_inv_def outstanding_def filter_empty_conv)
  then show ?thesis
    using inv by (auto simp: inner_inv_def accepts_completion_def begin_request_def Let_def)
qed

definition outpost_system :: session_system where
  "outpost_system =
     session_apply (MarkDisconnected 0) (session_apply (BeginClosing 0)
       (session_apply (BeginRequest 0 (SessionGeneration 1)) (session_apply (NewSession (SessionGeneration 1))
         \<lparr>sys_heap = [], sys_leases = []\<rparr>)))"

lemma outpost_system_eq:
  "outpost_system =
     \<lparr>sys_heap = [\<lparr>si_generation = SessionGeneration 1, si_state = Draining, si_active_requests = 1\<rparr>],
      sys_leases = [\<lparr>lease_session = 0, lease_released = False\<rparr>]\<rparr>"
  by (simp add: outpost_system_def MacosExtensionSession_new_def begin_request_def begin_closing_def
      mark_disconnected_def usize_checked_add_def usize_MAX_def)

lemma outpost_system_reachable: "session_reachable outpost_system"
  unfolding outpost_system_def
  by (intro session_step session_init)
    (simp_all add: session_op_ok_def MacosExtensionSession_new_def begin_request_def begin_closing_def
      usize_checked_add_def usize_MAX_def)

theorem session_drains_requests_witness:
  "outstanding 0 (sys_leases outpost_system) \<noteq> 0 \<and>
   accepts_completion \<lparr>lease_session = 0, lease_released = False\<rparr> 0 (sys_heap outpost_system)"
  using session_drains_requests [OF outpost_system_reachable, of 0] by (simp add: outpost_system_eq outstanding_def)

end
