(* ===== verification/Spec2Isabelle.thy ===== *)
theory Spec2Isabelle
  imports Tasks_Execution Tasks_Consumer Linux_Effects Capabilities Hydration_System Memory_Store_Laws Content_System Windows_Identity Macos_System
begin

text \<open>
  \<^bold>\<open>Verification of the AsterForge cloud files and background tasks.\<close>

  AsterForge is a workspace of Rust crates for building services and synchronised file systems.
  This development verifies its cloud-files crates (\<open>src/crates/aster_forge_cloud_files\<close>): the
  product-neutral core (\<open>core/src\<close>), which decides what may be read, cached, evicted, uploaded
  and mutated and drives durable records through crashes and session changes, and the logic of
  the platform adapters on top of it: the Linux engine behind the FUSE mount (\<open>linux/src\<close>), the
  identity envelope of the Windows adapter (\<open>windows/src/identity.rs\<close>) and the File Provider
  bridge of macOS (\<open>macos_bridge/src\<close>). A product supplies a backend and durable stores; they
  are ports of the model. The in-memory stores of the core's contract suite
  (\<open>core/tests/support\<close>) are modelled too, and shown to keep what the ports promise. It also
  verifies how background tasks are claimed and executed under leases
  (\<open>src/crates/aster_forge_tasks\<close>).

  \<^bold>\<open>Shared theories.\<close>

  \<^item> \<open>Prelude\<close>: Rust integers as words with the checked and saturating operations the sources
    call, \<open>Result\<close> as a sum, and \<open>io\<close>, the type of a fallible call on a state
    (\<open>&mut self\<close> methods and calls to ports); the shared lemmas and the collections
    \<open>unat_ops\<close> and \<open>io_simps\<close>.
  \<^item> \<open>Forward_Loop\<close>: the loop that the durable runners share, \<open>io_loop\<close>; the locale
    \<open>decreasing_loop\<close> (it ends), and \<open>forward_world\<close>, \<open>journal_world\<close> and \<open>journal_loop\<close>, the
    contract of calls that keep an invariant and only move a journal forward.
  \<^item> \<open>Async_Call\<close>: futures of the Linux engine as state transformers that may not return, with
    critical sections (\<open>locked\<close>, \<open>reading\<close>) and waits (\<open>await\<close>); the locale \<open>step_relation\<close> is
    what a rely condition needs.
  \<^item> \<open>Identity_Codec\<close>: UTF-8 strings and the contract \<open>identity_codec\<close> of the platform
    identifiers. \<open>Backend_Port\<close>: the read port of a product backend (\<open>backend.rs\<close>).

  \<^bold>\<open>The core.\<close>

  \<^item> \<open>Core_Values\<close>: \<open>error.rs\<close>, \<open>identity.rs\<close>, \<open>revision.rs\<close>, \<open>cursor.rs\<close>,
    \<open>item.rs\<close>, \<open>change.rs\<close>, \<open>backend_error.rs\<close>, \<open>local_content.rs\<close> and the session
    fence of \<open>mutation.rs\<close>. \<open>Content_Read\<close>: byte ranges, read requests and the response check
    (\<open>backend.rs\<close>).
  \<^item> \<open>Capabilities\<close>: capability descriptions and their intersection (\<open>capabilities.rs\<close>). The
    locale \<open>partial_meet\<close> is the contract of an intersection; it is interpreted on every
    description and on the whole.
  \<^item> \<open>Range_Set\<close>: sparse coverage (\<open>ContentRangeSet\<close> in \<open>content_storage.rs\<close>); the
    locale \<open>byte_coverage\<close> specifies it as a set of byte positions. \<open>Content_Entry\<close>:
    \<open>ContentStorageEntry\<close>, every mutating method, with the invariant of all reachable entries.
  \<^item> \<open>Journal_Records\<close>: the eviction record (\<open>content_storage.rs\<close>) and the cache-write record
    (\<open>cache_write.rs\<close>); the locale \<open>journal_record\<close> is the contract of a replayable record.
    \<open>Mutation_Record\<close>: intents, outcomes and the journal record of \<open>mutation.rs\<close>.
    \<open>Store_Ports\<close>: the values of \<open>store.rs\<close> and the traits the runners call, as records of
    functions on a world \<open>'w\<close>.
  \<^item> \<open>Mutation_Runner\<close>: \<open>MutationRunner\<close> over arbitrary ports. The locales
    \<open>mutation_journal\<close>, \<open>counted_journal\<close> and \<open>live_journal\<close> state what a journal promises.
    \<open>Store_Base\<close>, \<open>Memory_Store\<close> and \<open>Memory_Store_Laws\<close>: failure injection, recovery paging
    (\<open>paged_store\<close>) and the in-memory store (\<open>core/tests/support/store.rs\<close>), its invariant over
    every call sequence, and its interpretations of the runner's locales.
  \<^item> \<open>Hydration\<close>, \<open>Hydration_Laws\<close>, \<open>Hydration_System\<close>: the coordinator of shared reads
    (\<open>hydration.rs\<close>), its extents and gap sweep, and every interleaving of its public calls with
    the waiters it returned.
  \<^item> \<open>Upload_Record\<close>, \<open>Upload_Runner\<close>, \<open>Upload_Laws\<close>: resumable uploads (\<open>upload.rs\<close>) with
    the contracts \<open>upload_journal\<close> and \<open>live_upload\<close> of the store, the transport and the reader.
    \<open>Content_Store\<close>: the in-memory content store (\<open>core/tests/support/content_storage.rs\<close>);
    \<open>Content_Protocol\<close>: the abstract protocol of entries and journals; \<open>Content_Store_Laws\<close>: the
    simulation of the protocol by the store; \<open>Content_Uploads\<close> and \<open>Content_System\<close>: the runner
    on that store and what both guarantee together.

  \<^bold>\<open>The platform adapters.\<close>

  \<^item> \<open>Linux_Values\<close> (\<open>error.rs\<close>, \<open>inode.rs\<close> and the values of \<open>engine.rs\<close>) and \<open>Linux_Ports\<close>
    (\<open>namespace.rs\<close>, \<open>remote.rs\<close> and the sessions of \<open>writeback.rs\<close>, with the two durable ports).
  \<^item> \<open>Linux_Engine\<close>: the read-only engine (\<open>engine.rs\<close>). \<open>Linux_Overlay\<close>, \<open>Linux_Namespace\<close>,
    \<open>Linux_Writable\<close> and \<open>Linux_Mount\<close>: the writable engine (\<open>writeback.rs\<close>): its state, the
    checks and publications of namespace mutations, the requests, and directory snapshots, remote
    changes and activation. \<open>WritableState\<close> is the record of the mutex-protected maps of the
    source; a request is its sequence of critical sections and port calls, and at a port call the
    other requests may change the state too. Critical sections with no port call between them are
    taken together (\<open>apply_commit\<close> reads the item key and updates the handle under two locks).
  \<^item> \<open>Linux_Index\<close>: the restored inode table and the name index (locale \<open>name_index\<close>).
    \<open>Linux_Steps\<close> and \<open>Linux_Calls\<close>: the relation \<open>mount_step\<close> between mount states and that
    every request keeps it when its ports do (locales \<open>backend_rely\<close>, \<open>mount_rely\<close>,
    \<open>mount_ports\<close>). \<open>Linux_Directory\<close>: directory scans and the precedence of the overlays.
    \<open>Linux_System\<close>: reachable mounts and their properties. \<open>Linux_Effects\<close>: what mutations do
    to names, what remote changes do to the overlays and which invalidations they announce
    (\<open>upsert_published\<close>, \<open>upsert_announced\<close>, \<open>delete_published\<close>), with the lemmas behind the findings.
  \<^item> \<open>Windows_Identity\<close>: the envelope of \<open>windows/src/identity.rs\<close>. \<open>Macos_Identifier\<close>,
    \<open>Macos_Bridge\<close>, \<open>Macos_System\<close>: identifiers, item snapshots, enumeration, sessions and the
    read-only engine of the bridge; the base64 crate is a parameter with the laws of RFC 4648
    (locale \<open>base64url\<close>).

  \<^bold>\<open>Background tasks\<close> (\<open>src/crates/aster_forge_tasks/src\<close>).

  \<^item> \<open>Tasks_Values\<close>: errors, retry classes, dedupe keys, step states, the lease guard and the
    evaluation of heartbeats (\<open>error.rs\<close>, \<open>retry.rs\<close>, \<open>dedupe.rs\<close>, \<open>steps.rs\<close>, \<open>lease.rs\<close>,
    \<open>heartbeat.rs\<close>). \<open>Tasks_Dispatch\<close>: lanes, claims and their validation, counters,
    aggregation and the drain loop (\<open>dispatch.rs\<close>), which runs a given number of rounds.
    \<open>Tasks_Execution\<close>: a claimed task from its heartbeats to the one write that settles it
    (\<open>execution.rs\<close>), over any store with the fences its trait documents (\<open>fences_task\<close>), and
    the lease guard over any sequence of heartbeats, checks and marks. \<open>Tasks_Backoff\<close>: idle
    backoff and jitter (\<open>runtime.rs\<close>). \<open>Tasks_Consumer\<close>: the consumer (\<open>consumer.rs\<close>) as a state
    machine whose steps are the arms of its select loop, with a ledger of the claimed tasks.

  \<^bold>\<open>Conventions.\<close> A struct is a record, an enum a datatype with the source's variants, a method
  a function of the same name (prefixed by its type where two types share a method name).
  Accessor methods are the record's selectors. Error branches return the error together with the
  state the code leaves behind. Asynchronous calls are sequential calls on a world that the
  callee may change arbitrarily within the laws of the locale, which is how the interference of
  other executors between two calls of a runner is covered.

  \<^bold>\<open>Loops.\<close> The loops that have no bound in the source are \<open>partial_function\<close>s in the option
  monad: \<open>io_loop\<close> (the runners' \<open>resume\<close>), \<open>async_loop\<close> (directory scans) and \<open>collect_pages\<close>
  (recovery paging). That the runners and the paging return is proved (C1, C9, C27), from the
  rank of the durable record and from the strictly growing page cursor; a directory scan may
  follow a backend that never stops paging, and the properties of listings are about the scans
  that return. The heartbeat loop and the select loop of the task consumer run along the list of
  ticks or events that happen, of any length, and C36 shows that a shutdown leaves no infinite run.
  Every other loop is structural or has a termination proof; no fuel is used.

  \<^bold>\<open>Properties.\<close> C1 to C9 are about the mutation runner and its durable store, C10 to C18
  about the Linux mount (its invariant, listings, writes, handles, reads, remote changes, renames
  and removals), C19 to C21 about content entries and eviction, C22 about sparse coverage, C23
  about capability negotiation, C24 to C26 about shared hydration, C27 to C31 about uploads and
  the content store, C32 to C36 about background tasks, C37 about Windows identities and C38 to
  C40 about the macOS bridge.

  \<^bold>\<open>Not modelled.\<close> \<open>Debug\<close> output and mutex poisoning; the FUSE callbacks and the task
  dispatcher of the Linux adapter (\<open>native.rs\<close>, \<open>dispatch.rs\<close>), the Cloud Filter connections and
  placeholders of the Windows adapter and the C ABI of the macOS bridge, which bind operating
  system interfaces to the modelled operations; the periodic and leased worker loops, schedules and
  registries of the task crate (the rest of \<open>runtime.rs\<close>, \<open>schedule.rs\<close>, \<open>spec.rs\<close>); and the
  other crates of the workspace, which the manifest lists with the reason for each. Byte buffers are assumed to fit in an allocation
  (\<open>allocatable\<close>) where a length is cast to \<open>u64\<close>.
\<close>

section \<open>Concrete values\<close>

text \<open>Small inputs at which the properties with hypotheses are instantiated.\<close>

definition demo_scope :: CloudScope where
  "demo_scope = \<lparr>scope_namespace_id = CloudNamespaceId ''ns'', scope_root_id = CloudRootId ''root''\<rparr>"

definition demo_key :: CloudItemKey where
  "demo_key = \<lparr>key_scope = demo_scope, key_item_id = CloudItemId ''item''\<rparr>"

definition demo_operation :: OperationId where
  "demo_operation = OperationId ''op''"

definition demo_generation :: SessionGeneration where
  "demo_generation = SessionGeneration 1"

definition demo_intent :: MutationIntent where
  "demo_intent =
     MutationIntent_new demo_operation (IdempotencyKey ''idem'') PlatformCommand demo_generation
       (DesiredMutation.Delete demo_key)
       \<lparr>pre_metadata_revision = None, pre_content_revision = None\<rparr>"

definition demo_record :: MutationRecord where
  "demo_record =
     \<lparr>mr_intent = demo_intent, mr_state = MutationState.IntentPersisted, mr_remote_outcome = None\<rparr>"

text \<open>A session is opened and the intent is persisted.\<close>

definition demo_open_store :: MemoryCloudFilesStore where
  "demo_open_store = mem_apply (ActivateSession demo_scope demo_generation) MemoryCloudFilesStore_default"

definition demo_store :: MemoryCloudFilesStore where
  "demo_store = mem_apply (PersistMutationIntent demo_intent) demo_open_store"

definition demo_cache_key :: ContentCacheKey where
  "demo_cache_key = \<lparr>cache_item_key = demo_key, cache_revision = ContentRevision [1]\<rparr>"

definition demo_entry :: ContentStorageEntry where
  "demo_entry = ContentStorageEntry_new demo_cache_key Hybrid 100"

definition demo_range :: ByteRange where
  "demo_range = \<lparr>range_offset = 10, range_length = 20\<rparr>"

lemmas demo_defs =
  demo_scope_def demo_key_def demo_operation_def demo_generation_def demo_intent_def demo_record_def

lemma demo_open_store_eq:
  "demo_open_store =
     MemoryCloudFilesStore_default\<lparr>mem_sessions :=
       [(demo_scope, \<lparr>ses_generation = demo_generation, ses_state = Accepting\<rparr>)]\<rparr>"
  by (simp add: demo_open_store_def activate_session_def MemoryCloudFilesStore_default_def)

lemma demo_store_eq:
  "demo_store =
     demo_open_store\<lparr>mem_idempotency_keys := [(IdempotencyKey ''idem'', demo_operation)],
       mem_mutations := [(demo_operation, demo_record)]\<rparr>"
  by (simp add: demo_store_def demo_open_store_eq persist_mutation_intent_def io_bind_def trip_def FailureInjector_trip_def
      MutationRecord_persist_def validate_for_persistence_def MutationIntent_new_def
      MemoryCloudFilesStore_default_def demo_defs Let_def)

lemma demo_reachable: "mem_reachable demo_open_store" "mem_reachable demo_store"
  unfolding demo_store_def demo_open_store_def by (intro mem_reachable.intros)+

lemma demo_record_at: "map_of (mem_mutations demo_store) demo_operation = Some demo_record"
  by (simp add: demo_store_eq)

lemma demo_active: "active_for demo_store demo_operation demo_generation"
  unfolding active_for_def
  by (simp add: demo_store_eq demo_open_store_eq demo_record_def demo_intent_def MutationIntent_new_def
      demo_key_def)

lemma demo_quiet: "mem_failures demo_store = {}" "\<not> mem_stall demo_store"
  by (simp_all add: demo_store_eq demo_open_store_eq MemoryCloudFilesStore_default_def)

lemma demo_entry_reachable: "entry_reachable demo_entry"
  unfolding demo_entry_def by (rule entry_reachable.created)

section \<open>Mutation runs\<close>

text \<open>
  C1: Whatever the backend answers and whatever other executors do in between, one
  invocation of the mutation runner returns. The store is any journal that keeps the laws of
  \<open>mutation_journal\<close>: loads return what is durable and no call takes a record back.
\<close>

theorem mutation_run_returns:
  assumes "mutation_journal store backend valid journal" and "valid w"
  shows "\<exists>res w'. resume operation_id generation store backend w = Some (res, w')"
  using assms by (rule mutation_journal.resume_returns)

theorem mutation_run_returns_witness:
  "mem_inv demo_store \<and>
   (\<exists>res w'. resume demo_operation demo_generation memory_journal_store
      (scripted_backend (\<lambda>_ _. Inr MutationRemoteOutcome.RemoteOutcomeUnknown)) (demo_store, []) = Some (res, w'))"
  using mutation_run_returns [OF memory.mutation_journal_axioms, of "(demo_store, [])"]
    reachable_mem_inv [OF demo_reachable(2)] by simp

text \<open>
  C2: When the runner reports completion, the durable record is completed, its remote outcome
  is known, and an outcome that carries an item describes the mutation that was asked for.
\<close>

theorem mutation_completed_sound:
  assumes "mutation_journal store backend valid journal" and "valid w"
    and "resume operation_id generation store backend w = Some (Inr MutationRunOutcome.Completed, w')"
  shows "\<exists>r outcome. journal w' operation_id = Some r \<and> mr_state r = MutationState.Completed \<and>
    mr_remote_outcome r = Some outcome \<and> outcome \<noteq> MutationRemoteOutcome.RemoteOutcomeUnknown \<and>
    (\<forall>item. outcome = Committed item \<or> outcome = AlreadyCommitted item \<longrightarrow>
       committed_matches (mi_desired (mr_intent r)) item)"
proof -
  obtain r where r: "journal w' operation_id = Some r" "mr_state r = MutationState.Completed"
    and ok: "validate_recorded_outcome r = Inr ()"
    using mutation_journal.resume_completed [OF assms] by blast
  from ok obtain outcome where "mr_remote_outcome r = Some outcome"
    "outcome \<noteq> MutationRemoteOutcome.RemoteOutcomeUnknown"
    "validate_remote_outcome (mr_intent r) outcome = Inr ()"
    by (auto simp: validate_recorded_outcome_def split: if_splits)
  then show ?thesis using r by (auto simp: validate_remote_outcome_iff)
qed

lemma demo_run_completes:
  "\<exists>w' r'. resume demo_operation demo_generation memory_journal_store
      (scripted_backend (\<lambda>_ _. Inr (Committed None))) (demo_store, []) =
        Some (Inr MutationRunOutcome.Completed, w') \<and>
    mem_live w' demo_operation demo_generation \<and> mem_journal w' demo_operation = Some r' \<and>
    mr_intent r' = mr_intent demo_record \<and> mr_state r' = MutationState.Completed \<and>
    mr_remote_outcome r' = Some (settled demo_record (Committed None))"
  by (rule memory_live.live_resume [OF _ _ _ _ constant_answers])
    (simp_all add: reachable_mem_inv [OF demo_reachable(2)] mem_live_def demo_quiet demo_active
      demo_record_at, simp_all add: demo_record_def demo_intent_def mutation_good_def MutationIntent_new_def
      settled_def)

theorem mutation_completed_sound_witness:
  "\<exists>w' r outcome. resume demo_operation demo_generation memory_journal_store
      (scripted_backend (\<lambda>_ _. Inr (Committed None))) (demo_store, []) =
        Some (Inr MutationRunOutcome.Completed, w') \<and>
    mem_journal w' demo_operation = Some r \<and> mr_remote_outcome r = Some outcome \<and>
    outcome \<noteq> MutationRemoteOutcome.RemoteOutcomeUnknown"
proof -
  obtain w' where run: "resume demo_operation demo_generation memory_journal_store
      (scripted_backend (\<lambda>_ _. Inr (Committed None))) (demo_store, []) =
        Some (Inr MutationRunOutcome.Completed, w')"
    using demo_run_completes by blast
  have "mem_inv (fst (demo_store, []))" using reachable_mem_inv [OF demo_reachable(2)] by simp
  then show ?thesis
    using mutation_completed_sound [OF memory.mutation_journal_axioms _ run] run by fastforce
qed

text \<open>
  C3: One invocation of the runner asks the backend to apply the mutation at most once, and
  not at all when the durable record is already past \<open>RemoteApplying\<close>, for every backend
  behaviour and every injected crash.
\<close>

theorem mutation_applied_at_most_once:
  assumes "mem_reachable s"
    and "resume operation_id generation memory_journal_store (scripted_backend answer) (s, log) = Some (res, w')"
  shows "apply_count w' \<le> Suc (apply_count (s, log)) \<and>
    (\<forall>r. map_of (mem_mutations s) operation_id = Some r \<and>
         mr_state r \<notin> {MutationState.IntentPersisted, RemoteApplying} \<longrightarrow>
       apply_count w' \<le> apply_count (s, log))"
proof (intro conjI allI impI)
  have *: "apply_count w' \<le> apply_count (s, log) + memory_counted.budget operation_id (s, log)"
    using memory_counted.resume_applies_once [OF _ assms(2)] reachable_mem_inv [OF assms(1)] by simp
  then show "apply_count w' \<le> Suc (apply_count (s, log))"
    by (simp add: memory_counted.budget_def split: option.splits if_splits)
  fix r
  assume "map_of (mem_mutations s) operation_id = Some r \<and>
    mr_state r \<notin> {MutationState.IntentPersisted, RemoteApplying}"
  then show "apply_count w' \<le> apply_count (s, log)"
    using * by (cases "mr_state r") (auto simp: memory_counted.budget_def mutation_rank_def)
qed

theorem mutation_applied_at_most_once_witness:
  "\<exists>w'. resume demo_operation demo_generation memory_journal_store
      (scripted_backend (\<lambda>_ _. Inr (Committed None))) (demo_store, []) =
        Some (Inr MutationRunOutcome.Completed, w') \<and> apply_count w' \<le> 1"
  using demo_run_completes mutation_applied_at_most_once [OF demo_reachable(2)]
  by (fastforce simp: apply_count_def)

text \<open>
  C4: When the executor's session is active, no crash is injected and the backend gives a
  definite answer that matches the intent, resuming any persisted record completes it with the
  outcome it already knew, or else with that answer.
\<close>

theorem undisturbed_mutation_completes:
  assumes "mem_reachable s" and "map_of (mem_mutations s) operation_id = Some r"
    and "active_for s operation_id generation" and "mem_failures s = {}" and "\<not> mem_stall s"
    and "answer \<noteq> MutationRemoteOutcome.RemoteOutcomeUnknown"
    and "validate_remote_outcome (mr_intent r) (settled r answer) = Inr ()"
  shows "\<exists>s' log' r'. resume operation_id generation memory_journal_store
      (scripted_backend (\<lambda>_ _. Inr answer)) (s, log) = Some (Inr MutationRunOutcome.Completed, (s', log')) \<and>
    map_of (mem_mutations s') operation_id = Some r' \<and> mr_intent r' = mr_intent r \<and>
    mr_state r' = MutationState.Completed \<and> mr_remote_outcome r' = Some (settled r answer)"
proof -
  have "mutation_good r"
    using reachable_mem_inv [OF assms(1)] assms(2) by (simp add: mem_inv_def mutations_inv_def)
  then show ?thesis
    using memory_live.live_resume [of "(s, log)" operation_id generation r "\<lambda>_ _. Inr answer" answer]
      reachable_mem_inv [OF assms(1)] assms constant_answers
    by (fastforce simp: mem_live_def)
qed

theorem undisturbed_mutation_completes_witness:
  "\<exists>s' log' r'. resume demo_operation demo_generation memory_journal_store
      (scripted_backend (\<lambda>_ _. Inr (Committed None))) (demo_store, []) =
        Some (Inr MutationRunOutcome.Completed, (s', log')) \<and>
    map_of (mem_mutations s') demo_operation = Some r' \<and> mr_remote_outcome r' = Some (Committed None)"
proof -
  have "validate_remote_outcome (mr_intent demo_record) (settled demo_record (Committed None)) = Inr ()"
    and "settled demo_record (Committed None) = Committed None"
    by (simp_all add: settled_def demo_record_def demo_intent_def MutationIntent_new_def)
  then show ?thesis
    using undisturbed_mutation_completes
      [OF demo_reachable(2) demo_record_at demo_active demo_quiet, of "Committed None" "[]"] by auto
qed

text \<open>
  Submitting a valid new intent under the accepting session of its own generation
  completes it: the record of that intent is durable, completed, and carries the backend's
  answer.
\<close>

theorem submit_completes:
  assumes "mem_reachable s"
    and "validate_for_persistence intent = Inr ()"
    and "mi_session_generation intent = generation"
    and "map_of (mem_sessions s) (desired_scope (mi_desired intent)) =
      Some \<lparr>ses_generation = generation, ses_state = Accepting\<rparr>"
    and "map_of (mem_mutations s) (mi_operation_id intent) = None"
    and "map_of (mem_idempotency_keys s) (mi_idempotency_key intent) = None"
    and "mem_failures s = {}" and "\<not> mem_stall s"
    and "answer \<noteq> MutationRemoteOutcome.RemoteOutcomeUnknown"
    and "validate_remote_outcome intent answer = Inr ()"
  shows "\<exists>s' log' r. submit intent generation memory_journal_store
      (scripted_backend (\<lambda>_ _. Inr answer)) (s, log) = Some (Inr MutationRunOutcome.Completed, (s', log')) \<and>
    map_of (mem_mutations s') (mi_operation_id intent) = Some r \<and> mr_intent r = intent \<and>
    mr_state r = MutationState.Completed \<and> mr_remote_outcome r = Some answer"
proof -
  let ?r = "\<lparr>mr_intent = intent, mr_state = MutationState.IntentPersisted, mr_remote_outcome = None\<rparr>"
  let ?s = "snd (persist_mutation_intent intent s)"
  note persist = persist_fresh [OF assms(2) _ assms(5-7), unfolded assms(3), OF assms(4)]
  have "memory_live.answers (\<lambda>_ _. Inr answer) (mi_operation_id intent) generation (mr_intent ?r) answer"
    using assms(9) by (rule constant_answers)
  moreover have "mem_inv ?s" using reachable_mem_inv [OF assms(1)] by (rule persist_mutation_intent_inv)
  moreover have "mem_live (?s, log) (mi_operation_id intent) generation"
    using assms by (simp add: persist mem_live_def active_for_def)
  moreover have "settled ?r answer = answer" "mutation_good ?r" by (simp_all add: settled_def mutation_good_def)
  ultimately have "\<exists>w' r'. resume (mi_operation_id intent) generation memory_journal_store
      (scripted_backend (\<lambda>_ _. Inr answer)) (?s, log) = Some (Inr MutationRunOutcome.Completed, w') \<and>
      mem_live w' (mi_operation_id intent) generation \<and> mem_journal w' (mi_operation_id intent) = Some r' \<and>
      mr_intent r' = mr_intent ?r \<and> mr_state r' = MutationState.Completed \<and>
      mr_remote_outcome r' = Some (settled ?r answer)"
    using assms(10) by (intro memory_live.live_resume) (simp_all add: persist)
  moreover have "submit intent generation memory_journal_store (scripted_backend (\<lambda>_ _. Inr answer)) (s, log) =
      resume (mi_operation_id intent) generation memory_journal_store
        (scripted_backend (\<lambda>_ _. Inr answer)) (?s, log)"
    using assms(3) by (simp add: submit_def memory_journal_store_def on_store_apply persist)
  ultimately show ?thesis using \<open>settled ?r answer = answer\<close> by auto
qed

theorem submit_completes_witness:
  "\<exists>s' log' r. submit demo_intent demo_generation memory_journal_store
      (scripted_backend (\<lambda>_ _. Inr (Committed None))) (demo_open_store, []) =
        Some (Inr MutationRunOutcome.Completed, (s', log')) \<and>
    map_of (mem_mutations s') demo_operation = Some r \<and> mr_intent r = demo_intent \<and>
    mr_remote_outcome r = Some (Committed None)"
  using submit_completes [OF demo_reachable(1), of demo_intent demo_generation "Committed None" "[]"]
  by (auto simp: demo_open_store_eq MemoryCloudFilesStore_default_def MutationIntent_new_def
      validate_for_persistence_def demo_defs)

section \<open>The durable store\<close>

text \<open>
  C5: An executor whose generation is not the active one, or whose session is closed, is fenced:
  its journal write to a known operation, in whose scope a session was activated, is refused and
  changes nothing in the store. (With no such session the call is an error instead, and the armed
  stall of the test store makes the next \<open>begin_remote_apply\<close> report \<open>Applied\<close> without looking at
  the fence; every other call is fenced with the stall armed or not.)
\<close>

theorem stale_executor_fenced:
  assumes "map_of (mem_mutations s) operation_id = Some r"
    and "map_of (mem_sessions s) (desired_scope (mi_desired (mr_intent r))) = Some session"
    and "ses_generation session \<noteq> generation \<or> ses_state session = Closed"
    and "\<not> (mop = BeginRemoteApply \<and> mem_stall s)"
  shows "mem_write mop operation_id generation s = (Inr StoreWriteStatus.Fenced, s)"
proof -
  have "with_fenced_mutation operation_id generation (mutation_apply mop) s = (Inr StoreWriteStatus.Fenced, s)"
    using assms(1-3) by (auto simp: with_fenced_mutation_def mutation_scope_def active_generation_def)
  then show ?thesis using assms(4) unfolding mem_write_eq by (simp add: tripping_def io_bind_def)
qed

theorem stale_executor_fenced_witness:
  "mem_write CompleteMutation demo_operation (SessionGeneration 2) demo_store =
     (Inr StoreWriteStatus.Fenced, demo_store)"
  using stale_executor_fenced [OF demo_record_at, of "\<lparr>ses_generation = demo_generation, ses_state = Accepting\<rparr>"
      "SessionGeneration 2" CompleteMutation] demo_quiet
  by (simp add: demo_store_eq demo_open_store_eq demo_record_def demo_intent_def MutationIntent_new_def
      demo_key_def demo_generation_def)

text \<open>
  C6: The session fence only moves forward: over any sequence of store calls, a scope's
  generation never decreases, and within a generation its lifecycle phase never goes back.
\<close>

theorem session_fence_monotone: "session_le s (fold mem_apply ops s)"
  by (induction ops arbitrary: s) (auto intro: session_le_trans mem_apply_session_le session_le_same)

text \<open>
  C7: A journal write that crashed after it became durable is idempotent: replaying it reports
  \<open>AlreadyApplied\<close> and leaves the store as the crash left it.
\<close>

theorem crashed_write_replays:
  assumes "mem_reachable s" and "mem_write mop operation_id generation s = (Inl e, s')"
    and "se_kind e = CloudFilesStoreErrorKind.PersistenceFailure"
  shows "mem_write mop operation_id generation s' = (Inr StoreWriteStatus.AlreadyApplied, s')"
  using crash_replay [OF reachable_mem_inv [OF assms(1)]] assms(2,3) by blast

theorem crashed_write_replays_witness:
  "\<exists>e s'. mem_write BeginRemoteApply demo_operation demo_generation
      (mem_apply (ArmFailure AfterRemoteApplyPersistBeforeReturn) demo_store) = (Inl e, s') \<and>
    mem_write BeginRemoteApply demo_operation demo_generation s' = (Inr StoreWriteStatus.AlreadyApplied, s')"
proof -
  let ?s = "mem_apply (ArmFailure AfterRemoteApplyPersistBeforeReturn) demo_store"
  let ?r = "demo_record\<lparr>mr_state := RemoteApplying\<rparr>"
  have "active_for ?s demo_operation demo_generation" "map_of (mem_mutations ?s) demo_operation = Some demo_record"
    using demo_active demo_record_at by (simp_all add: active_for_def arm_def)
  moreover have "mutation_apply BeginRemoteApply demo_record = (Inr RecordTransition.Applied, ?r)"
    by (simp add: begin_remote_apply_applied demo_record_def)
  ultimately have "with_fenced_mutation demo_operation demo_generation (mutation_apply BeginRemoteApply) ?s =
      (Inr StoreWriteStatus.Applied, set_mutation demo_operation ?r ?s)"
    using with_fenced_active [of ?s demo_operation demo_generation demo_record "mutation_apply BeginRemoteApply"]
    by simp
  then obtain s' where crash: "mem_write BeginRemoteApply demo_operation demo_generation ?s =
      (Inl (CloudFilesStoreError_new CloudFilesStoreErrorKind.PersistenceFailure
        (''injected crash at '' @ failure_point_debug AfterRemoteApplyPersistBeforeReturn)), s')"
    using demo_quiet unfolding mem_write_eq
    by (auto simp: tripping_def io_bind_def trip_def FailureInjector_trip_def arm_def FailureInjector_arm_def injected_crash_def set_mutation_def)
  have "mem_reachable ?s" by (intro mem_reachable.intros demo_reachable)
  then show ?thesis
    using crashed_write_replays [OF _ crash] crash by (auto simp: CloudFilesStoreError_new_def)
qed

text \<open>
  C8: The change cursor is never ahead of what is replayable. In every reachable store the
  committed batches of a scope form an unbroken chain from the initial position to the active
  cursor, each was replayable when it was committed, no batch is committed twice, and a pending
  batch starts at the active cursor.
\<close>

theorem change_checkpoint_chain:
  assumes "mem_reachable s" and "map_of (mem_cursors s) scope = Some cursor"
  shows "chain None (map snd (cur_committed_batches cursor)) (cur_active_cursor cursor) \<and>
    (\<forall>(i, b) \<in> set (cur_committed_batches cursor).
       pb_id b = i \<and> pb_scope b = scope \<and> pb_state b = EffectsReplayable) \<and>
    distinct (map fst (cur_committed_batches cursor)) \<and>
    (\<forall>b. cur_pending_batch cursor = Some b \<longrightarrow>
       pb_scope b = scope \<and> pb_base_cursor b = cur_active_cursor cursor)"
  using mem_inv_cursor [OF reachable_mem_inv [OF assms(1)] assms(2)] by (auto simp: cursor_inv_def)

text \<open>The store after one batch was recorded, marked replayable and committed.\<close>

definition demo_batch :: PersistedChangeBatch where
  "demo_batch = PersistedChangeBatch_new (ChangeBatchId ''b'') demo_scope None
     \<lparr>cb_changes = [], cb_next_cursor = ChangeCursor [7], cb_has_more = False\<rparr>"

definition demo_committed_store :: MemoryCloudFilesStore where
  "demo_committed_store =
     fold mem_apply
       [RecordChangeBatch demo_batch,
        MarkChangeEffectsReplayable demo_scope (ChangeBatchId ''b''),
        CommitChangeCursor demo_scope (ChangeBatchId ''b'')] MemoryCloudFilesStore_default"

theorem change_checkpoint_chain_witness:
  "\<exists>cursor. map_of (mem_cursors demo_committed_store) demo_scope = Some cursor \<and>
     cur_active_cursor cursor = Some (ChangeCursor [7]) \<and>
     chain None (map snd (cur_committed_batches cursor)) (Some (ChangeCursor [7]))"
proof -
  have "mem_reachable demo_committed_store"
    by (simp add: demo_committed_store_def del: mem_apply.simps) (intro mem_reachable.intros)
  moreover have "\<exists>cursor. map_of (mem_cursors demo_committed_store) demo_scope = Some cursor \<and>
      cur_active_cursor cursor = Some (ChangeCursor [7])"
    by (simp add: demo_committed_store_def record_change_batch_def mark_change_effects_replayable_def
        commit_change_cursor_def trip_def FailureInjector_trip_def io_bind_def Let_def demo_batch_def PersistedChangeBatch_new_def
        mark_effects_replayable_def CursorState_empty_def MemoryCloudFilesStore_default_def)
  ultimately show ?thesis using change_checkpoint_chain by metis
qed

text \<open>
  An idempotency key identifies one operation: in every reachable store two journal records
  that carry the same key are the same record, and every record is filed under its own id.
\<close>

theorem idempotency_key_unique:
  assumes "mem_reachable s" and "map_of (mem_mutations s) i = Some r" and "map_of (mem_mutations s) j = Some q"
    and "mi_idempotency_key (mr_intent r) = mi_idempotency_key (mr_intent q)"
  shows "i = j \<and> r = q \<and> mi_operation_id (mr_intent r) = i"
proof -
  have filed: "mi_operation_id (mr_intent x) = k \<and>
      map_of (mem_idempotency_keys s) (mi_idempotency_key (mr_intent x)) = Some k"
    if "map_of (mem_mutations s) k = Some x" for k x
    using reachable_mem_inv [OF assms(1)] that by (simp add: mem_inv_def mutations_inv_def)
  have "i = j" using filed [OF assms(2)] filed [OF assms(3)] assms(4) by simp
  then show ?thesis using filed [OF assms(2)] assms(2,3) by simp
qed

theorem idempotency_key_unique_witness:
  "mi_operation_id (mr_intent demo_record) = demo_operation"
  using idempotency_key_unique [OF demo_reachable(2) demo_record_at demo_record_at] by blast

text \<open>
  C9: Paging through the recovery backlog returns, and it returns every unfinished record of
  the scope exactly once, in the order of the operation ids.
\<close>

theorem backlog_enumerated:
  assumes "mem_reachable s"
  shows "\<exists>records. collect_mutation_backlog scope s = Some (Inr records, s) \<and>
    strictly_by_id records \<and>
    set records = {r. map_of (mem_mutations s) (mi_operation_id (mr_intent r)) = Some r \<and>
      desired_scope (mi_desired (mr_intent r)) = scope \<and> mr_state r \<noteq> MutationState.Completed}"
  by (rule collect_backlog [OF reachable_mem_inv [OF assms]])

theorem backlog_enumerated_witness:
  "\<exists>records. collect_mutation_backlog demo_scope demo_store = Some (Inr records, demo_store) \<and>
     demo_record \<in> set records"
proof -
  have "demo_record \<in> {r. map_of (mem_mutations demo_store) (mi_operation_id (mr_intent r)) = Some r \<and>
      desired_scope (mi_desired (mr_intent r)) = demo_scope \<and> mr_state r \<noteq> MutationState.Completed}"
    using demo_record_at
    by (simp add: demo_record_def demo_intent_def MutationIntent_new_def demo_key_def)
  then show ?thesis using backlog_enumerated [OF demo_reachable(2)] by metis
qed

section \<open>Durable records\<close>

text \<open>
  Whatever transitions are called on a freshly persisted mutation record, in whatever
  order and however often they are replayed, at most five of them are applied and the intent
  never changes.
\<close>

theorem mutation_record_bounded:
  assumes "MutationRecord_persist intent = Inr r"
  shows "mutation_record.applied_count ops r \<le> 5 \<and> mr_intent (mutation_record.run ops r) = intent"
  using mutation_record.applied_count_bound [of r ops] mutation_record.run_ident [of r ops]
    mutation_persist_good [OF assms] mutation_rank_le [of "mutation_record.run ops r"]
  by simp

theorem mutation_record_bounded_witness:
  "mutation_record.applied_count (replicate 9 BeginRemoteApply) demo_record \<le> 5"
  by (rule mutation_record_bounded [of demo_intent, THEN conjunct1])
    (simp add: MutationRecord_persist_def validate_for_persistence_def MutationIntent_new_def demo_defs)

text \<open>
  C19: An eviction record is completed only after every physical effect its plan requires was
  observed, whatever calls were made on it.
\<close>

theorem eviction_completed_sound:
  assumes "ev_state (eviction_record.run ops (ContentEvictionRecord_persist intent plan)) =
      ContentEvictionState.Completed" and "effect_required plan effect"
  shows "has_observed_effect (eviction_record.run ops (ContentEvictionRecord_persist intent plan)) effect"
proof -
  let ?r = "eviction_record.run ops (ContentEvictionRecord_persist intent plan)"
  have "eviction_good ?r" by (rule eviction_record.run_good [OF eviction_persist_good])
  moreover have "ev_plan ?r = plan"
    using eviction_record.run_ident [OF eviction_persist_good, of ops intent plan]
    by (simp add: eviction_ident_def ContentEvictionRecord_persist_def)
  ultimately show ?thesis using assms by (auto simp: eviction_good_def)
qed

definition demo_eviction_intent :: ContentEvictionIntent where
  "demo_eviction_intent =
     \<lparr>ev_operation_id = ContentEvictionOperationId ''e'', ev_cache_key = demo_cache_key,
      ev_target = ProviderCache, ev_session_generation = demo_generation\<rparr>"

definition demo_plan :: ContentEvictionPlan where
  "demo_plan = \<lparr>remove_provider_cache = True, evict_platform_materialization = False,
     invalidate_platform_content = True\<rparr>"

theorem eviction_completed_sound_witness:
  "has_observed_effect (eviction_record.run
      (map RecordPhysicalEffect [PlatformContentInvalidated, ProviderCacheRemoved]
        @ [eviction_op.MarkMetadataReconciled, CompleteEvictionRecord])
      (ContentEvictionRecord_persist demo_eviction_intent demo_plan)) ProviderCacheRemoved"
proof (rule eviction_completed_sound)
  have "effect_required demo_plan effect \<longleftrightarrow> effect = PlatformContentInvalidated \<or> effect = ProviderCacheRemoved" for effect
    by (cases effect) (simp_all add: demo_plan_def)
  then show "ev_state (eviction_record.run
      (map RecordPhysicalEffect [PlatformContentInvalidated, ProviderCacheRemoved]
        @ [eviction_op.MarkMetadataReconciled, CompleteEvictionRecord])
      (ContentEvictionRecord_persist demo_eviction_intent demo_plan)) = ContentEvictionState.Completed"
    by (intro eviction_record_completes) auto
qed (simp add: demo_plan_def)

section \<open>Content entries and eviction\<close>

text \<open>
  Over every sequence of calls, an entry that is reserved for eviction is quiescent: it is
  neither pinned nor dirty, no lease is held and no cache write is in flight. The storage it
  tracks is the storage its mode owns, and cached ranges stay within the content size.
\<close>

theorem reserved_entry_quiescent:
  assumes "entry_reachable e"
  shows "(eviction_reserved e \<longrightarrow>
      \<not> pinned e \<and> dirty_snapshot e = None \<and> leases e = Map.empty \<and> active_cache_writes e = 0) \<and>
    (\<forall>ranges. provider_ranges e = Some ranges \<longrightarrow>
      range_set_inv ranges \<and> covered_bytes ranges \<subseteq> {..<unat (entry_total_size e)}) \<and>
    (provider_ranges e \<noteq> None \<longleftrightarrow> entry_mode e \<in> {ProviderManaged, Hybrid}) \<and>
    (platform_materialization e \<noteq> None \<longleftrightarrow> entry_mode e \<in> {PlatformManaged, Hybrid})"
  using reachable_entry_inv [OF assms] by (auto simp: entry_inv_def quiescent_def)

theorem reserved_entry_quiescent_witness:
  "eviction_reserved (snd (entry_apply (ReserveEviction ProviderCache) demo_entry)) \<and>
   leases (snd (entry_apply (ReserveEviction ProviderCache) demo_entry)) = Map.empty"
proof -
  let ?e = "snd (entry_apply (ReserveEviction ProviderCache) demo_entry)"
  have "entry_reachable ?e"
    by (rule entry_reachable.called [OF demo_entry_reachable _ prod.collapse [symmetric]]) simp
  moreover have "eviction_reserved ?e"
    by (simp add: reserve_eviction_def eviction_blockers_def Let_def demo_entry_def
        ContentStorageEntry_new_def ContentLeaseCounts_default_def)
  ultimately show ?thesis using reserved_entry_quiescent by blast
qed

text \<open>
  The per-kind lease counters never drift: each equals the number of leases of that kind
  that are held, and releasing a lease never fails.
\<close>

theorem lease_counts_exact:
  assumes "entry_reachable e"
  shows "unat (lease_value (lease_counts e) kind) = card {lease_id. leases e lease_id = Some kind} \<and>
    is_ok (fst (release_lease lease_id e))"
  using entry_inv_counts(1) [OF reachable_entry_inv [OF assms]]
    release_lease_inv(2) [OF reachable_entry_inv [OF assms]]
  by (simp add: holders_def)

theorem lease_counts_exact_witness:
  "unat (lease_value (lease_counts demo_entry) ContentLeaseKind.Read) =
     card {lease_id. leases demo_entry lease_id = Some ContentLeaseKind.Read}"
  by (rule lease_counts_exact [OF demo_entry_reachable, THEN conjunct1])

text \<open>
  Reserving an eviction for a target the mode owns succeeds exactly when nothing holds the
  entry and it is not reserved yet; otherwise the call reports a non-empty list of blockers and
  changes nothing.
\<close>

theorem reserve_eviction_exact:
  assumes "entry_reachable e" and "ContentEvictionPlan_for_target (entry_mode e) target = Inr plan"
  shows "reserve_eviction target e =
    (if quiescent e \<and> \<not> eviction_reserved e
     then (Inr (Reserved plan), e\<lparr>eviction_reserved := True\<rparr>)
     else (Inr (Blocked (eviction_blockers e)), e)) \<and>
    (quiescent e \<and> \<not> eviction_reserved e \<longleftrightarrow> eviction_blockers e = [])"
  using no_blockers_quiescent [OF reachable_entry_inv [OF assms(1)]] assms(2)
  by (auto simp: reserve_eviction_def Let_def)

theorem reserve_eviction_exact_witness:
  "reserve_eviction ProviderCache demo_entry =
     (Inr (Reserved demo_plan), demo_entry\<lparr>eviction_reserved := True\<rparr>)"
  using reserve_eviction_exact [OF demo_entry_reachable, of ProviderCache demo_plan]
  by (simp add: demo_entry_def ContentStorageEntry_new_def demo_plan_def quiescent_def)

text \<open>
  C20: A call on a reachable content entry that fails leaves the entry exactly as it was, where
  \<open>reconcile_eviction\<close> is called with a plan made for the entry's own mode (the condition
  \<open>op_owned\<close>, which holds of every other call): a foreign plan can fail after the ranges were
  cleared.
\<close>

theorem failed_entry_call_changes_nothing:
  assumes "entry_reachable e" and "op_owned e op" and "entry_apply op e = (Inl err, e')"
  shows "e' = e"
  using failed_call_unchanged [OF reachable_entry_inv [OF assms(1)]] assms(2,3) by blast

theorem failed_entry_call_changes_nothing_witness:
  "snd (entry_apply CompleteCacheWrite demo_entry) = demo_entry"
proof -
  have "\<exists>err. entry_apply CompleteCacheWrite demo_entry =
      (Inl err, snd (entry_apply CompleteCacheWrite demo_entry))"
    by (simp add: complete_cache_write_def checked_sub_def demo_entry_def ContentStorageEntry_new_def)
  then show ?thesis
    using failed_entry_call_changes_nothing [OF demo_entry_reachable, of CompleteCacheWrite] by auto
qed

text \<open>
  C21: The eviction protocol of an entry and its journal record runs through. After a
  reservation, recording the effects the plan requires (in any order, with repetitions) takes
  the record to completion, the entry's metadata is reconciled with exactly the storage the plan
  names, and completing releases the reservation.
\<close>

theorem eviction_protocol_completes:
  assumes "entry_reachable e" and "reserve_eviction target e = (Inr (Reserved plan), e1)"
    and "set effects = {effect. effect_required plan effect}"
  shows "ev_state (eviction_record.run
        (map RecordPhysicalEffect effects @ [eviction_op.MarkMetadataReconciled, CompleteEvictionRecord])
        (ContentEvictionRecord_persist intent plan)) = ContentEvictionState.Completed \<and>
    (\<exists>e2 e3. reconcile_eviction plan e1 = (Inr (), e2) \<and> complete_eviction e2 = (Inr (), e3) \<and>
      \<not> eviction_reserved e3 \<and>
      (remove_provider_cache plan \<longrightarrow>
         (\<exists>ranges. provider_ranges e3 = Some ranges \<and> covered_bytes ranges = {})) \<and>
      (evict_platform_materialization plan \<longrightarrow> platform_materialization e3 = Some Dataless))"
proof
  have t: "ContentEvictionPlan_for_target (entry_mode e) target = Inr plan"
    and e1: "e1 = e\<lparr>eviction_reserved := True\<rparr>"
    using assms(2) by (auto simp: reserve_eviction_def Let_def split: sum.splits if_splits)
  have "\<exists>effect. effect_required plan effect"
    using plan_for_target_owned(3) [OF t] effect_required.simps by metis
  then have "effects \<noteq> []" using assms(3) by auto
  then show "ev_state (eviction_record.run
        (map RecordPhysicalEffect effects @ [eviction_op.MarkMetadataReconciled, CompleteEvictionRecord])
        (ContentEvictionRecord_persist intent plan)) = ContentEvictionState.Completed"
    using eviction_record_completes assms(3) by blast
  have "entry_inv e1"
    using reserve_eviction_inv [OF reachable_entry_inv [OF assms(1)], of target] assms(2) by simp
  moreover have "owned_plan e1 plan" using t e1 by (auto simp: owned_plan_def)
  ultimately obtain e2 where "reconcile_eviction plan e1 = (Inr (), e2)" "eviction_reserved e2"
    "remove_provider_cache plan \<longrightarrow> (\<exists>ranges. provider_ranges e2 = Some ranges \<and> covered_bytes ranges = {})"
    "evict_platform_materialization plan \<longrightarrow> platform_materialization e2 = Some Dataless"
    using reconcile_owned [of e1 plan] e1 by auto
  then show "\<exists>e2 e3. reconcile_eviction plan e1 = (Inr (), e2) \<and> complete_eviction e2 = (Inr (), e3) \<and>
      \<not> eviction_reserved e3 \<and>
      (remove_provider_cache plan \<longrightarrow>
         (\<exists>ranges. provider_ranges e3 = Some ranges \<and> covered_bytes ranges = {})) \<and>
      (evict_platform_materialization plan \<longrightarrow> platform_materialization e3 = Some Dataless)"
    by (auto simp: complete_eviction_def)
qed

theorem eviction_protocol_completes_witness:
  "ev_state (eviction_record.run
      (map RecordPhysicalEffect [ProviderCacheRemoved, PlatformContentInvalidated, ProviderCacheRemoved]
        @ [eviction_op.MarkMetadataReconciled, CompleteEvictionRecord])
      (ContentEvictionRecord_persist demo_eviction_intent demo_plan)) = ContentEvictionState.Completed"
proof (rule eviction_protocol_completes [OF demo_entry_reachable, THEN conjunct1])
  show "reserve_eviction ProviderCache demo_entry =
      (Inr (Reserved demo_plan), demo_entry\<lparr>eviction_reserved := True\<rparr>)"
    by (simp add: reserve_eviction_def eviction_blockers_def Let_def demo_entry_def demo_plan_def
        ContentStorageEntry_new_def ContentLeaseCounts_default_def)
  have "effect_required demo_plan effect \<longleftrightarrow> effect = ProviderCacheRemoved \<or> effect = PlatformContentInvalidated" for effect
    by (cases effect) (simp_all add: demo_plan_def)
  then show "set [ProviderCacheRemoved, PlatformContentInvalidated, ProviderCacheRemoved] =
      {effect. effect_required demo_plan effect}" by auto
qed

text \<open>
  A provider-cache write record moves through its phases in order and never skips one:
  after any calls on a persisted record, reaching phase \<open>n\<close> took at least \<open>n\<close> applied
  transitions, and each transition advances by one phase.
\<close>

theorem cache_write_phases_in_order:
  "cache_write_rank (snd (cache_write_apply op r)) \<in> {cache_write_rank r, Suc (cache_write_rank r)} \<and>
   cache_write_record.applied_count ops r + cache_write_rank r = cache_write_rank (cache_write_record.run ops r)"
  using cache_write_one_step [of op r] cache_write_record.step_rank [where r = r and op = op, OF TrueI]
    cache_write_count [of ops r]
  by auto

section \<open>Sparse coverage\<close>

text \<open>
  C22: A range set is a faithful representation of a set of bytes. A successful insertion adds
  exactly the bytes of the range, keeps the ranges sorted, disjoint and non-adjacent, and reports
  whether anything was new; a refused insertion changes nothing.
\<close>

theorem range_insert_refines_union:
  assumes "range_set_inv s" and "range_wf r"
  shows "case ContentRangeSet_insert r n s of
      (Inr changed, s') \<Rightarrow>
        range_set_inv s' \<and> covered_bytes s' = covered_bytes s \<union> range_set r \<and>
        (changed \<longleftrightarrow> \<not> range_set r \<subseteq> covered_bytes s)
    | (Inl e, s') \<Rightarrow> s' = s"
  using insert_eq_Inr [OF assms] insert_eq_Inl by (auto split: prod.split sum.split)

lemma demo_range_wf: "range_wf demo_range"
  by (simp add: demo_range_def range_wf_def range_hi_def)

lemma demo_insert:
  "ContentRangeSet_insert demo_range 100 ContentRangeSet_new = (Inr True, \<lparr>rs_ranges = [demo_range]\<rparr>)"
  by (simp add: ContentRangeSet_insert_def ContentRangeSet_covers_def ContentRangeSet_new_def
      partition_point_def Let_def end_exclusive_def demo_range_def MAX_RANGES_def)

theorem range_insert_refines_union_witness:
  "covered_bytes \<lparr>rs_ranges = [demo_range]\<rparr> = {10..<30}"
proof -
  have "covered_bytes \<lparr>rs_ranges = [demo_range]\<rparr> = range_set demo_range"
    using range_insert_refines_union [OF new_inv demo_range_wf, of 100]
    by (simp add: demo_insert new_bytes)
  then show ?thesis by (simp add: range_set_def range_lo_def range_hi_def demo_range_def)
qed

text \<open>
  An insertion is refused exactly when the range ends beyond the content size, or the set
  already holds 8192 fragments and the range touches none of them.
\<close>

theorem range_insert_refusal:
  assumes "range_set_inv s" and "range_wf r"
  shows "is_ok (fst (ContentRangeSet_insert r n s)) \<longleftrightarrow>
    range_hi r \<le> unat n \<and> (length (rs_ranges s) < 8192 \<or> (\<exists>q \<in> set (rs_ranges s). touches q r))"
  using insert_ok_iff [OF assms] by (simp add: MAX_RANGES_def)

theorem range_insert_refusal_witness:
  "\<not> is_ok (fst (ContentRangeSet_insert demo_range 29 ContentRangeSet_new))"
  using range_insert_refusal [OF new_inv demo_range_wf, of 29] by (simp add: range_hi_def demo_range_def)

text \<open>
  \<open>covers\<close> is exact (the range's bytes are all present) and \<open>is_complete\<close> is exact
  (every byte of the content is present), for sets that stay within the content size.
\<close>

theorem range_queries_exact:
  assumes "range_set_inv s"
  shows "(range_wf r \<longrightarrow> (ContentRangeSet_covers s r \<longleftrightarrow> range_set r \<subseteq> covered_bytes s)) \<and>
    (covered_bytes s \<subseteq> {..<unat n} \<longrightarrow>
      (ContentRangeSet_is_complete s n \<longleftrightarrow> covered_bytes s = {..<unat n}))"
  using covers_iff_subset [OF assms] is_complete_iff [OF assms] by blast

theorem range_queries_exact_witness:
  "ContentRangeSet_covers ContentRangeSet_new demo_range \<longleftrightarrow> range_set demo_range \<subseteq> {}"
  using range_queries_exact [OF new_inv, of demo_range] demo_range_wf by (simp add: new_bytes)

section \<open>Content reads\<close>

text \<open>
  The response check is exact: a response built by its constructor passes exactly when it
  has the requested revision and size, starts where the request starts and carries precisely the
  bytes of the requested extent, cut off at the end of the file.
\<close>

theorem response_check_exact:
  assumes "response_wf response" and "allocatable (resp_bytes response)"
    and "read_extent request = (lo, hi)"
  shows "validate_response request response = Inr () \<longleftrightarrow>
    resp_revision response = read_revision request \<and>
    resp_total_size response = read_expected_size request \<and>
    unat (resp_offset response) = lo \<and> length (resp_bytes response) = hi - lo"
proof -
  have len: "unat (resp_byte_len response) = length (resp_bytes response)"
    using assms(1,2) by (simp add: response_wf_def unat_ops)
  show ?thesis
    using validate_response_extent [OF _ assms] validate_response_accepts [OF _ _ assms(3)] len by auto
qed

definition demo_request :: ContentReadRequest where
  "demo_request = ContentReadRequest_range demo_key (ContentRevision [1]) 12 demo_range"

definition demo_response :: ContentReadResponse where
  "demo_response = \<lparr>resp_revision = ContentRevision [1], resp_offset = 10, resp_bytes = [7, 8],
     resp_byte_len = 2, resp_total_size = 12\<rparr>"

theorem response_check_exact_witness: "validate_response demo_request demo_response = Inr ()"
proof -
  have "response_wf demo_response" "allocatable (resp_bytes demo_response)"
    by (simp_all add: response_wf_def demo_response_def len_u64_def allocatable_def)
  moreover have "read_extent demo_request = (10, 12)"
    by (simp add: demo_request_def ContentReadRequest_range_def range_lo_def range_hi_def demo_range_def)
  ultimately have "validate_response demo_request demo_response = Inr () \<longleftrightarrow>
      resp_revision demo_response = read_revision demo_request \<and>
      resp_total_size demo_response = read_expected_size demo_request \<and>
      unat (resp_offset demo_response) = 10 \<and> length (resp_bytes demo_response) = 12 - 10"
    by (rule response_check_exact)
  then show ?thesis by (simp add: demo_request_def demo_response_def ContentReadRequest_range_def)
qed

text \<open>
  \<open>ByteRange::covering\<close> of two well-formed ranges is the smallest range that contains
  both, and its end does not overflow.
\<close>

theorem covering_is_hull:
  assumes "range_wf a" and "range_wf b"
  shows "range_wf (covering a b) \<and> range_set a \<union> range_set b \<subseteq> range_set (covering a b) \<and>
    (\<forall>c. range_wf c \<and> range_set a \<union> range_set b \<subseteq> range_set c \<longrightarrow> range_set (covering a b) \<subseteq> range_set c)"
proof (intro conjI allI impI)
  show "range_wf (covering a b)" by (rule covering_wf [OF assms])
  have hull: "range_lo (covering a b) = min (range_lo a) (range_lo b)"
    "range_hi (covering a b) = max (range_hi a) (range_hi b)"
    by (simp_all add: covering_lo covering_hi [OF assms])
  then show "range_set a \<union> range_set b \<subseteq> range_set (covering a b)" by auto
  fix c
  assume "range_wf c \<and> range_set a \<union> range_set b \<subseteq> range_set c"
  then have "range_lo c \<le> range_lo a \<and> range_hi a \<le> range_hi c" "range_lo c \<le> range_lo b \<and> range_hi b \<le> range_hi c"
    using range_lo_less_hi [OF assms(1)] range_lo_less_hi [OF assms(2)]
    by (simp_all add: range_set_def ivl_subset)
  then show "range_set (covering a b) \<subseteq> range_set c" using hull by auto
qed

theorem covering_is_hull_witness:
  "range_wf (covering demo_range \<lparr>range_offset = 50, range_length = 1\<rparr>)"
  by (rule covering_is_hull [OF demo_range_wf, THEN conjunct1]) (simp add: range_wf_def range_hi_def)

section \<open>Capability negotiation\<close>

text \<open>
  C23: When the intersection of two capability descriptions is defined, it is their greatest
  lower bound: it promises nothing that one side lacks and everything both sides offer. It does
  not depend on the order of the two sides.
\<close>

theorem capability_intersection_glb:
  assumes "capabilities_valid a" and "capabilities_valid b"
    and "CloudFilesCapabilities_intersection a b = Inr c"
  shows "capabilities_valid c \<and> capabilities_le c a \<and> capabilities_le c b \<and>
    (\<forall>d. capabilities_valid d \<and> capabilities_le d a \<and> capabilities_le d b \<longrightarrow> capabilities_le d c) \<and>
    CloudFilesCapabilities_intersection b a = Inr c"
  using capabilities.meet_valid [OF assms] capabilities.meet_lower1 [OF assms]
    capabilities.meet_lower2 [OF assms] capabilities.meet_greatest [OF assms(1,2) _ assms(3)]
    capabilities.meet_commute [OF assms]
  by blast

theorem capability_intersection_glb_witness:
  "capabilities_le unconstrained unconstrained"
  using capability_intersection_glb [OF unconstrained_valid unconstrained_valid
      unconstrained_identity [OF unconstrained_valid]] by blast

text \<open>
  Negotiating three descriptions gives the same effective capabilities whichever pair is
  intersected first, as long as no alignment overflows, and the unconstrained description is a
  neutral element for valid descriptions.
\<close>

theorem capability_negotiation_order:
  assumes "capabilities_valid a" and "capabilities_valid b" and "capabilities_valid c"
  shows "(\<forall>ab bc x y.
      CloudFilesCapabilities_intersection a b = Inr ab \<and> CloudFilesCapabilities_intersection ab c = Inr x \<and>
      CloudFilesCapabilities_intersection b c = Inr bc \<and> CloudFilesCapabilities_intersection a bc = Inr y
      \<longrightarrow> x = y) \<and>
    CloudFilesCapabilities_intersection a unconstrained = Inr a"
  using capabilities.meet_assoc [OF assms] unconstrained_identity [OF assms(1)] by blast

theorem capability_negotiation_order_witness:
  "CloudFilesCapabilities_intersection unconstrained unconstrained = Inr unconstrained"
  by (rule capability_negotiation_order
      [OF unconstrained_valid unconstrained_valid unconstrained_valid, THEN conjunct2])

text \<open>
  Two range alignments combine to their least common multiple, and the overflow error is
  reported exactly when that multiple does not fit in 64 bits.
\<close>

theorem alignment_intersection_lcm:
  assumes "alignment_get a \<noteq> 0"
  shows "(Alignment_intersection a b = Inr c \<longleftrightarrow>
      unat (alignment_get c) = lcm (unat (alignment_get a)) (unat (alignment_get b))) \<and>
    (is_ok (Alignment_intersection a b) \<longleftrightarrow>
      lcm (unat (alignment_get a)) (unat (alignment_get b)) < 2 ^ 64)"
  by (intro conjI Alignment_intersection_eq_Inr [OF assms] Alignment_intersection_ok_iff [OF assms])

theorem alignment_intersection_lcm_witness:
  "Alignment_intersection (Alignment 4) (Alignment 6) = Inr (Alignment 12)"
proof -
  have "lcm 4 6 = (12 :: nat)" by code_simp
  then show ?thesis
    using alignment_intersection_lcm [of "Alignment 4" "Alignment 6" "Alignment 12"] by simp
qed

section \<open>Values\<close>

text \<open>
  A backend outcome is accepted for an intent exactly when an item it carries is the item
  the mutation asked for: scope, parent, name and kind of a creation, the same file for content,
  the requested parent and name for a move, the same item for a deletion.
\<close>

theorem remote_outcome_check_exact:
  "validate_remote_outcome intent outcome = Inr () \<longleftrightarrow>
     (case outcome of
        Committed item \<Rightarrow> committed_matches (mi_desired intent) item
      | AlreadyCommitted item \<Rightarrow> committed_matches (mi_desired intent) item
      | _ \<Rightarrow> True)"
  by (rule validate_remote_outcome_iff)

text \<open>
  Items keep their shape: what the constructors build and what \<open>moved\<close> returns has a
  name, is never its own parent, and has content exactly when it is a file; a move keeps
  identity, kind and content.
\<close>

theorem item_shape_kept:
  assumes "CloudItem_directory key parent_id name revision = Inr item \<or>
      CloudItem_file key parent name revision content = Inr item \<or> item_shape item"
  shows "item_shape item \<and>
    (\<forall>parent' name' revision' item'. moved item parent' name' revision' = Inr item' \<longrightarrow>
       item_shape item' \<and> item_key item' = item_key item \<and> item_kind item' = item_kind item \<and>
       item_content item' = item_content item \<and> item_parent_id item' = Some parent' \<and>
       item_name item' = name')"
proof -
  have "item_shape item" using assms directory_shape file_shape by blast
  then show ?thesis using moved_shape moved_keeps by metis
qed

theorem item_shape_kept_witness:
  "\<exists>item. CloudItem_directory demo_key None ''dir'' (MetadataRevision [1]) = Inr item \<and> item_shape item"
proof -
  obtain item where item: "CloudItem_directory demo_key None ''dir'' (MetadataRevision [1]) = Inr item"
    by (auto simp: CloudItem_directory_def validate_item_location_def)
  then have "item_shape item" using item_shape_kept by blast
  then show ?thesis using item by blast
qed

text \<open>
  A finished upload clears the dirty mark only when it uploaded the newest local
  generation: an older generation is fenced, a generation that was never recorded is an error, and
  recording snapshots never replaces a newer one.
\<close>

theorem dirty_generation_fencing:
  assumes "dirty_snapshot e = Some current"
  shows "clear_dirty generation e =
      (if generation < snap_generation current then (Inr DirtyContentTransition.Fenced, e)
       else if generation = snap_generation current
       then (Inr DirtyContentTransition.Applied, e\<lparr>dirty_snapshot := None\<rparr>)
       else (Inl (InvalidContentStorageState ''dirty clear generation was never recorded''), e)) \<and>
    (\<exists>newest. dirty_snapshot (snd (mark_dirty snapshot e)) = Some newest \<and>
      snap_generation current \<le> snap_generation newest)"
  using assms by (auto simp: clear_dirty_def mark_dirty_def)

theorem dirty_generation_fencing_witness:
  "\<exists>snapshot. clear_dirty (LocalContentGeneration 1) (demo_entry\<lparr>dirty_snapshot := Some snapshot\<rparr>) =
     (Inr DirtyContentTransition.Fenced, demo_entry\<lparr>dirty_snapshot := Some snapshot\<rparr>)"
proof -
  let ?s = "\<lparr>snap_item_key = demo_key, snap_generation = LocalContentGeneration 2,
      snap_reference = LocalContentReference ''f'', snap_size = 3, snap_digest = None\<rparr>"
  have "LocalContentGeneration 1 < snap_generation ?s" by (simp add: less_LocalContentGeneration_def)
  then show ?thesis
    using dirty_generation_fencing [of "demo_entry\<lparr>dirty_snapshot := Some ?s\<rparr>" ?s "LocalContentGeneration 1"]
    by (intro exI [of _ ?s]) simp
qed

end
